(* ===== verification/Prelude.thy ===== *)
theory Prelude
  imports Main "HOL-Library.Word"
begin

text \<open>
  Shared vocabulary of the development: the machine types of the firmware, C strings in
  fixed buffers, the three loops that every store of the firmware is built from (find the
  first match, overwrite the first match, erase the first match), stable sorting by a
  comparison, and the lemmas about them that the component theories use.
\<close>

section \<open>Machine types\<close>

type_synonym u8 = "8 word"
type_synonym u16 = "16 word"
type_synonym u32 = "32 word"
type_synonym u64 = "64 word"
type_synonym i64 = "64 word"

text \<open>\<open>std::array<std::uint8_t, 6>\<close>: six bytes, compared bytewise.\<close>

type_synonym MacAddress = "u8 \<times> u8 \<times> u8 \<times> u8 \<times> u8 \<times> u8"

abbreviation zero_mac :: MacAddress where
  "zero_mac \<equiv> (0, 0, 0, 0, 0, 0)"

named_theorems step_defs \<open>definitions of the state-changing operations\<close>
named_theorems inv_intros \<open>preservation of the components' invariants\<close>

section \<open>C strings in fixed buffers\<close>

text \<open>
  A \<open>const char*\<close> is \<open>None\<close> for the null pointer, otherwise the characters it points
  at; only the characters before the first NUL belong to the C string.
\<close>

type_synonym c_str = "string option"

definition c_text :: "string \<Rightarrow> string" where
  "c_text s = takeWhile (\<lambda>c. c \<noteq> CHR 0x00) s"

definition copyTruncated :: "nat \<Rightarrow> c_str \<Rightarrow> string" where
  "copyTruncated destinationSize source =
     (case source of
        None \<Rightarrow> []
      | Some s \<Rightarrow> take (destinationSize - 1) (c_text s))"

definition isValidFriendlyName :: "nat \<Rightarrow> c_str \<Rightarrow> bool" where
  "isValidFriendlyName bufferSize friendlyName =
     (case friendlyName of
        None \<Rightarrow> False
      | Some s \<Rightarrow> c_text s \<noteq> [] \<and> length (c_text s) < bufferSize)"

text \<open>The bounded scan of a possibly unterminated character array.\<close>

fun boundedLength :: "string \<Rightarrow> nat \<Rightarrow> nat" where
  "boundedLength [] capacity = 0"
| "boundedLength (c # cs) 0 = 0"
| "boundedLength (c # cs) (Suc capacity) =
     (if c = CHR 0x00 then 0 else Suc (boundedLength cs capacity))"

lemma c_text_no_nul: "c \<in> set (c_text s) \<Longrightarrow> c \<noteq> CHR 0x00"
  unfolding c_text_def by (drule set_takeWhileD) blast

lemma c_text_eq_self: "(\<And>c. c \<in> set s \<Longrightarrow> c \<noteq> CHR 0x00) \<Longrightarrow> c_text s = s"
  unfolding c_text_def by (rule takeWhile_eq_all_conv [THEN iffD2]) blast

lemma c_text_idem [simp]: "c_text (c_text s) = c_text s"
  by (rule c_text_eq_self) (erule c_text_no_nul)

lemma c_text_take [simp]: "c_text (take n (c_text s)) = take n (c_text s)"
  by (rule c_text_eq_self) (drule in_set_takeD, erule c_text_no_nul)

lemma c_text_Nil [simp]: "c_text [] = []"
  by (simp add: c_text_def)

lemma length_copyTruncated: "0 < n \<Longrightarrow> length (copyTruncated n s) < n"
  by (auto simp: copyTruncated_def split: option.splits)

lemma copyTruncated_idem [simp]:
  "copyTruncated n (Some (copyTruncated n s)) = copyTruncated n s"
  by (auto simp: copyTruncated_def split: option.splits)

lemma copyTruncated_valid:
  "isValidFriendlyName n (Some s) \<Longrightarrow> copyTruncated n (Some s) = c_text s"
  by (auto simp: copyTruncated_def isValidFriendlyName_def)

lemma isValidFriendlyName_copyTruncated [simp]:
  "isValidFriendlyName n (Some s) \<Longrightarrow>
   isValidFriendlyName n (Some (copyTruncated n (Some s)))"
  by (simp add: copyTruncated_valid) (simp add: isValidFriendlyName_def)

lemma c_text_copyTruncated [simp]: "c_text (copyTruncated n s) = copyTruncated n s"
  by (simp add: copyTruncated_def split: option.splits)

lemma boundedLength_le: "boundedLength s n \<le> n"
  by (induction s n rule: boundedLength.induct) auto

lemma take_boundedLength: "take (boundedLength s n) s = take n (c_text s)"
  by (induction s n rule: boundedLength.induct) (auto simp: c_text_def)

lemma boundedLength_c_text: "boundedLength s n = min n (length (c_text s))"
  by (induction s n rule: boundedLength.induct) (auto simp: c_text_def)

section \<open>Overwriting and erasing the first match\<close>

fun update_first :: "('a \<Rightarrow> bool) \<Rightarrow> ('a \<Rightarrow> 'a) \<Rightarrow> 'a list \<Rightarrow> 'a list" where
  "update_first P f [] = []"
| "update_first P f (x # xs) = (if P x then f x # xs else x # update_first P f xs)"

fun erase_first :: "('a \<Rightarrow> bool) \<Rightarrow> 'a list \<Rightarrow> 'a list" where
  "erase_first P [] = []"
| "erase_first P (x # xs) = (if P x then xs else x # erase_first P xs)"

lemma length_update_first [simp]: "length (update_first P f xs) = length xs"
  by (induction xs) auto

lemma update_first_id: "find P xs = None \<Longrightarrow> update_first P f xs = xs"
  by (induction xs) (auto split: if_splits)

lemma erase_first_id: "find P xs = None \<Longrightarrow> erase_first P xs = xs"
  by (induction xs) (auto split: if_splits)

lemma map_update_first [simp]:
  "(\<And>x. P x \<Longrightarrow> k (f x) = k x) \<Longrightarrow> map k (update_first P f xs) = map k xs"
  by (induction xs) auto

lemma find_update_first_same:
  "(\<And>x. P x \<Longrightarrow> P (f x)) \<Longrightarrow> find P (update_first P f xs) = map_option f (find P xs)"
  by (induction xs) auto

lemma find_update_first_other:
  "(\<And>x. P x \<Longrightarrow> \<not> Q x) \<Longrightarrow> (\<And>x. P x \<Longrightarrow> \<not> Q (f x)) \<Longrightarrow>
   find Q (update_first P f xs) = find Q xs"
  by (induction xs) auto

lemma set_update_first_subset:
  "set (update_first P f xs) \<subseteq> set xs \<union> f ` {x \<in> set xs. P x}"
  by (induction xs) auto

lemma list_all_update_first:
  "list_all Q xs \<Longrightarrow> (\<And>x. x \<in> set xs \<Longrightarrow> P x \<Longrightarrow> Q x \<Longrightarrow> Q (f x)) \<Longrightarrow>
   list_all Q (update_first P f xs)"
  by (induction xs) auto

lemma set_erase_first_subset: "set (erase_first P xs) \<subseteq> set xs"
  by (induction xs) auto

lemma distinct_map_erase_first:
  "distinct (map k xs) \<Longrightarrow> distinct (map k (erase_first P xs))"
  by (induction xs) (auto dest: set_erase_first_subset [THEN subsetD])

lemma list_all_erase_first: "list_all Q xs \<Longrightarrow> list_all Q (erase_first P xs)"
  by (induction xs) auto

lemma find_erase_first_other:
  "(\<And>x. P x \<Longrightarrow> \<not> Q x) \<Longrightarrow> find Q (erase_first P xs) = find Q xs"
  by (induction xs) auto

lemma erase_first_filter:
  "distinct (map k xs) \<Longrightarrow> erase_first (\<lambda>x. k x = v) xs = filter (\<lambda>x. k x \<noteq> v) xs"
proof (induction xs)
  case (Cons x xs)
  show ?case
  proof (cases "k x = v")
    case True
    with Cons.prems have "\<forall>y \<in> set xs. k y \<noteq> v" by (auto simp: image_iff)
    then have "filter (\<lambda>y. k y \<noteq> v) xs = xs" by (rule filter_True)
    with True show ?thesis by simp
  next
    case False
    with Cons show ?thesis by simp
  qed
qed simp

lemma find_key_erase_first [simp]:
  "distinct (map k xs) \<Longrightarrow> find (\<lambda>x. k x = v) (erase_first (\<lambda>x. k x = v) xs) = None"
  by (simp add: erase_first_filter find_None_iff)

lemma find_Some_in: "find P xs = Some x \<Longrightarrow> x \<in> set xs \<and> P x"
  by (auto simp: find_Some_iff)

lemma find_append:
  "find P (xs @ ys) = (case find P xs of None \<Rightarrow> find P ys | Some x \<Rightarrow> Some x)"
  by (induction xs) auto

lemma find_None_notin: "find (\<lambda>x. k x = v) xs = None \<longleftrightarrow> v \<notin> k ` set xs"
  by (auto simp: find_None_iff)

lemma find_distinct_key:
  "distinct (map k xs) \<Longrightarrow> x \<in> set xs \<Longrightarrow> find (\<lambda>y. k y = k x) xs = Some x"
  by (induction xs) (auto simp: rev_image_eqI)

lemma erase_first_append_new:
  "find P xs = None \<Longrightarrow> P y \<Longrightarrow> erase_first P (xs @ [y]) = xs"
  by (induction xs) (auto split: if_splits)

section \<open>Stable sorting by a strict comparison\<close>

text \<open>
  \<open>std::stable_sort(first, last, less)\<close>: every element is moved in front of the
  elements it is strictly less than and keeps its place among equivalent ones.
\<close>

fun insert_stable :: "('a \<Rightarrow> 'a \<Rightarrow> bool) \<Rightarrow> 'a \<Rightarrow> 'a list \<Rightarrow> 'a list" where
  "insert_stable lt x [] = [x]"
| "insert_stable lt x (y # ys) =
     (if lt y x then y # insert_stable lt x ys else x # y # ys)"

definition stable_sort :: "('a \<Rightarrow> 'a \<Rightarrow> bool) \<Rightarrow> 'a list \<Rightarrow> 'a list" where
  "stable_sort lt xs = foldr (insert_stable lt) xs []"

lemma set_insert_stable [simp]: "set (insert_stable lt x xs) = insert x (set xs)"
  by (induction xs) auto

lemma length_insert_stable [simp]: "length (insert_stable lt x xs) = Suc (length xs)"
  by (induction xs) auto

lemma distinct_map_insert_stable:
  "distinct (map k (insert_stable lt x xs)) = (k x \<notin> k ` set xs \<and> distinct (map k xs))"
  by (induction xs) auto

lemma stable_sort_Cons [simp]:
  "stable_sort lt (x # xs) = insert_stable lt x (stable_sort lt xs)"
  by (simp add: stable_sort_def)

lemma stable_sort_Nil [simp]: "stable_sort lt [] = []"
  by (simp add: stable_sort_def)

lemma set_stable_sort [simp]: "set (stable_sort lt xs) = set xs"
  by (induction xs) auto

lemma length_stable_sort [simp]: "length (stable_sort lt xs) = length xs"
  by (induction xs) auto

lemma distinct_map_stable_sort [simp]:
  "distinct (map k (stable_sort lt xs)) = distinct (map k xs)"
  by (induction xs) (auto simp: distinct_map_insert_stable)

lemma stable_sort_eq_Nil [simp]: "stable_sort lt xs = [] \<longleftrightarrow> xs = []"
  by (metis length_0_conv length_stable_sort)

text \<open>
  What \<open>std::stable_sort\<close> asks of a comparison, on the values it is used on: a strict
  order whose incomparability is transitive. Then the result is sorted and its front is
  an element nothing is strictly less than.
\<close>

locale strict_weak_order =
  fixes lt :: "'a \<Rightarrow> 'a \<Rightarrow> bool" and carrier :: "'a set"
  assumes lt_irrefl: "x \<in> carrier \<Longrightarrow> \<not> lt x x"
    and lt_trans: "x \<in> carrier \<Longrightarrow> y \<in> carrier \<Longrightarrow> z \<in> carrier \<Longrightarrow> lt x y \<Longrightarrow> lt y z \<Longrightarrow> lt x z"
    and lt_split: "x \<in> carrier \<Longrightarrow> y \<in> carrier \<Longrightarrow> z \<in> carrier \<Longrightarrow> lt x z \<Longrightarrow> lt x y \<or> lt y z"
begin

lemma lt_asym: "x \<in> carrier \<Longrightarrow> y \<in> carrier \<Longrightarrow> lt x y \<Longrightarrow> \<not> lt y x"
  using lt_trans lt_irrefl by blast

lemma not_lt_trans:
  "x \<in> carrier \<Longrightarrow> y \<in> carrier \<Longrightarrow> z \<in> carrier \<Longrightarrow> \<not> lt y x \<Longrightarrow> \<not> lt z y \<Longrightarrow> \<not> lt z x"
  using lt_split by blast

lemma sorted_insert_stable:
  "x \<in> carrier \<Longrightarrow> set ys \<subseteq> carrier \<Longrightarrow> sorted_wrt (\<lambda>a b. \<not> lt b a) ys \<Longrightarrow>
   sorted_wrt (\<lambda>a b. \<not> lt b a) (insert_stable lt x ys)"
proof (induction ys)
  case (Cons y ys)
  show ?case
  proof (cases "lt y x")
    case True
    with Cons lt_asym show ?thesis by auto
  next
    case False
    with Cons.prems not_lt_trans [of x y] show ?thesis by auto
  qed
qed simp

lemma sorted_stable_sort:
  "set xs \<subseteq> carrier \<Longrightarrow> sorted_wrt (\<lambda>a b. \<not> lt b a) (stable_sort lt xs)"
  by (induction xs) (simp_all add: sorted_insert_stable)

lemma front_of_stable_sort:
  assumes "set xs \<subseteq> carrier" and sorted: "stable_sort lt xs = y # ys" and "x \<in> set xs"
  shows "\<not> lt x y"
proof -
  from sorted have "set (y # ys) = set xs" by (metis set_stable_sort)
  moreover from this assms(1) have "y \<in> carrier" by auto
  ultimately show ?thesis using assms(3) sorted_stable_sort [OF assms(1)] lt_irrefl [of y]
    unfolding sorted by (cases "x = y") auto
qed

end

section \<open>Keyed stores\<close>

text \<open>
  The interface of a store of entries with a key, as the firmware's stores offer it: look an
  entry up by key, write one (which may be refused), remove the one of a key. The laws say
  what each operation does to every lookup; a history of writes and removals is then the
  corresponding history of map updates.
\<close>

locale keyed_store =
  fixes lookup :: "'k \<Rightarrow> 's \<Rightarrow> 'v option"
    and put :: "'v \<Rightarrow> 's \<Rightarrow> bool \<times> 's"
    and remove :: "'k \<Rightarrow> 's \<Rightarrow> bool \<times> 's"
    and key :: "'v \<Rightarrow> 'k"
    and acceptable :: "'v \<Rightarrow> bool"
    and ok :: "'s \<Rightarrow> bool"
  assumes put_lookup:
      "put v s = (True, s') \<Longrightarrow> lookup k s' = (if k = key v then Some v else lookup k s)"
    and put_accepts: "fst (put v s) = acceptable v"
    and put_rejects: "put v s = (False, s') \<Longrightarrow> s' = s"
    and remove_law: "ok s \<Longrightarrow> remove k s = (found, s') \<Longrightarrow>
      lookup k' s' = (if k' = k then None else lookup k' s)"
    and put_ok: "ok s \<Longrightarrow> ok (snd (put v s))"
    and remove_ok: "ok s \<Longrightarrow> ok (snd (remove k s))"
begin

lemma put_view:
  "(\<lambda>k. lookup k (snd (put v s))) =
   (if acceptable v then (\<lambda>k. lookup k s)(key v \<mapsto> v) else (\<lambda>k. lookup k s))"
proof (cases "put v s")
  case (Pair accepted s')
  with put_accepts [of v s] have acc: "accepted = acceptable v" by simp
  show ?thesis
  proof (cases accepted)
    case True
    with Pair put_lookup [of v s s'] acc show ?thesis by (auto simp: fun_eq_iff)
  next
    case False
    with Pair put_rejects [of v s s'] acc show ?thesis by simp
  qed
qed

lemma remove_view: "ok s \<Longrightarrow> (\<lambda>k'. lookup k' (snd (remove k s))) = (\<lambda>k'. lookup k' s)(k := None)"
  using remove_law [of s k "fst (remove k s)" "snd (remove k s)"] by (auto simp: fun_eq_iff)

lemma history_view:
  assumes "ok s"
  shows "(\<lambda>k. lookup k (fold (case_sum (\<lambda>v s. snd (put v s)) (\<lambda>k s. snd (remove k s))) history s)) =
         fold (case_sum (\<lambda>v m. if acceptable v then m(key v \<mapsto> v) else m) (\<lambda>k m. m(k := None)))
           history (\<lambda>k. lookup k s)"
  using assms
proof (induction history arbitrary: s)
  case (Cons ev history)
  show ?case
  proof (cases ev)
    case (Inl v)
    from Cons.IH [OF put_ok [OF Cons.prems, of v]] show ?thesis by (simp add: Inl put_view)
  next
    case (Inr k)
    from Cons.IH [OF remove_ok [OF Cons.prems, of k]] show ?thesis
      by (simp add: Inr remove_view [OF Cons.prems])
  qed
qed simp

end

end
