(* ===== verification/Float32.thy ===== *)
theory Float32
  imports Prelude
begin

text \<open>
  IEEE-754 binary32, the firmware's \<open>float\<close>, with the default rounding to nearest,
  ties to even. A finite value is a sign and a magnitude counted in units of $2^{-149}$,
  the least positive binary32 number, so that every operation is integer arithmetic that
  the simplifier can evaluate: the exact result is computed as a ratio of naturals and
  rounded once (\<open>round_ratio\<close>). Both zeros, the infinities and NaN (one value: no
  operation of the firmware looks at a payload) are values of the type.
  \<open>f32_ok\<close> says that a magnitude is one of the binary32 numbers; every operation
  returns such a value.

  Each operation rounds: a compiler that contracts \<open>a * b + c\<close> into one fused operation
  is not described.
\<close>

section \<open>Rounding\<close>

fun bit_length :: "nat \<Rightarrow> nat" where
  "bit_length n = (if n = 0 then 0 else Suc (bit_length (n div 2)))"

declare bit_length.simps [simp del]

definition round_even :: "nat \<Rightarrow> nat \<Rightarrow> nat" where
  "round_even num den =
     (let q = num div den; r = num mod den
      in if den < 2 * r \<or> (2 * r = den \<and> odd q) then Suc q else q)"

definition round_ratio :: "nat \<Rightarrow> nat \<Rightarrow> nat" where
  "round_ratio num den =
     (let k = bit_length (num div den) - 24
      in round_even num (den * 2 ^ k) * 2 ^ k)"

text \<open>The units of the number 1, and of $2^{128}$, where overflow begins.\<close>

definition one_units :: nat where
  "one_units = 2 ^ 149"

definition overflow_units :: nat where
  "overflow_units = 2 ^ 277"

definition representable :: "nat \<Rightarrow> bool" where
  "representable n \<longleftrightarrow> n < overflow_units \<and> round_ratio n 1 = n"

lemma bit_length_0 [simp]: "bit_length 0 = 0"
  by (simp add: bit_length.simps)

lemma bit_length_upper: "n < 2 ^ bit_length n"
proof (induction n rule: bit_length.induct)
  case (1 n)
  show ?case
  proof (cases "n = 0")
    case True then show ?thesis by simp
  next
    case False
    with 1 have "n div 2 < 2 ^ bit_length (n div 2)" by blast
    then have "n < 2 * 2 ^ bit_length (n div 2)" by arith
    with False show ?thesis by (simp add: bit_length.simps [of n])
  qed
qed

lemma bit_length_lower: "0 < n \<Longrightarrow> 2 ^ (bit_length n - 1) \<le> n"
proof (induction n rule: bit_length.induct)
  case (1 n)
  show ?case
  proof (cases "n div 2 = 0")
    case True
    with "1.prems" have "n = 1" by (cases n) auto
    then show ?thesis by (simp add: bit_length.simps)
  next
    case False
    with 1 have ih: "2 ^ (bit_length (n div 2) - 1) \<le> n div 2" by auto
    from False have pos: "0 < bit_length (n div 2)"
      by (simp add: bit_length.simps [of "n div 2"])
    then have "2 ^ bit_length (n div 2) = 2 * (2::nat) ^ (bit_length (n div 2) - 1)"
      by (cases "bit_length (n div 2)") auto
    with ih have "2 ^ bit_length (n div 2) \<le> n" by arith
    with "1.prems" show ?thesis by (simp add: bit_length.simps [of n])
  qed
qed

lemma bit_length_le_iff: "bit_length n \<le> k \<longleftrightarrow> n < 2 ^ k"
proof
  assume "bit_length n \<le> k"
  then have "(2::nat) ^ bit_length n \<le> 2 ^ k" by simp
  with bit_length_upper [of n] show "n < 2 ^ k" by linarith
next
  assume k: "n < 2 ^ k"
  show "bit_length n \<le> k"
  proof (cases "n = 0")
    case False
    then have "2 ^ (bit_length n - 1) \<le> n" using bit_length_lower by simp
    with k have "(2::nat) ^ (bit_length n - 1) < 2 ^ k" by linarith
    then have "bit_length n - 1 < k" by (simp add: power_strict_increasing_iff)
    then show ?thesis by arith
  qed simp
qed

lemma bit_length_mono: "m \<le> n \<Longrightarrow> bit_length m \<le> bit_length n"
  using bit_length_le_iff [of m "bit_length n"] bit_length_upper [of n] by simp

text \<open>Rounding to an integer is monotone and fixes integers.\<close>

lemma round_even_le: "0 < den \<Longrightarrow> num \<le> m * den \<Longrightarrow> round_even num den \<le> m"
proof -
  assume den: "0 < den" and le: "num \<le> m * den"
  show ?thesis
  proof (cases "num = m * den")
    case True
    with den show ?thesis by (simp add: round_even_def Let_def)
  next
    case False
    with le have "num < m * den" by simp
    then have "num div den < m" using den by (simp add: less_mult_imp_div_less)
    then show ?thesis by (simp add: round_even_def Let_def)
  qed
qed

lemma le_round_even: "0 < den \<Longrightarrow> m * den \<le> num \<Longrightarrow> m \<le> round_even num den"
proof -
  assume den: "0 < den" and le: "m * den \<le> num"
  then have "m \<le> num div den" by (simp add: less_eq_div_iff_mult_less_eq)
  then show ?thesis by (simp add: round_even_def Let_def)
qed

lemma round_even_mono:
  assumes den: "0 < den" and le: "a \<le> b"
  shows "round_even a den \<le> round_even b den"
proof (cases "a div den = b div den")
  case True
  have "a mod den \<le> b mod den"
    using le True by (metis add_le_cancel_left div_mult_mod_eq)
  with True show ?thesis by (auto simp: round_even_def Let_def)
next
  case False
  with le have "a div den < b div den" using div_le_mono [of a b den] by simp
  then show ?thesis by (auto simp: round_even_def Let_def)
qed

lemma round_even_mult [simp]: "0 < den \<Longrightarrow> round_even (m * den) den = m"
  by (simp add: round_even_def Let_def)

lemma round_even_bound: "0 < den \<Longrightarrow> num < 2 ^ k * den \<Longrightarrow> round_even num den \<le> 2 ^ k"
  by (rule round_even_le) auto

text \<open>A magnitude with at most 24 significant bits is kept as it is.\<close>

lemma round_ratio_exact:
  assumes den: "0 < den" and m: "m < 2 ^ 24"
  shows "round_ratio (m * 2 ^ j * den) den = m * 2 ^ j"
proof -
  let ?n = "m * 2 ^ j"
  let ?k = "bit_length ?n - 24"
  have q: "(?n * den) div den = ?n" using den by simp
  have "?n < 2 ^ (24 + j)" using m by (simp add: power_add)
  then have "bit_length ?n \<le> 24 + j" by (simp only: bit_length_le_iff)
  then have kj: "?k \<le> j" by arith
  then have "2 ^ j = (2::nat) ^ (j - ?k) * 2 ^ ?k"
    by (simp flip: power_add)
  then have eq: "?n * den = (m * 2 ^ (j - ?k)) * (den * 2 ^ ?k)"
    by (simp add: ac_simps)
  have "round_even (?n * den) (den * 2 ^ ?k) = m * 2 ^ (j - ?k)"
    unfolding eq using den by (intro round_even_mult) simp
  moreover have "m * 2 ^ (j - ?k) * 2 ^ ?k = ?n"
    using kj by (simp add: mult.assoc flip: power_add)
  ultimately show ?thesis unfolding round_ratio_def Let_def q by simp
qed

lemma round_ratio_0 [simp]: "0 < den \<Longrightarrow> round_ratio 0 den = 0"
  using round_ratio_exact [of den 0 0] by simp


lemma round_ratio_bounds:
  assumes den: "0 < den"
  shows "round_ratio num den \<le> 2 ^ (24 + (bit_length (num div den) - 24))"
    and "24 < bit_length (num div den) \<Longrightarrow>
         2 ^ (bit_length (num div den) - 1) \<le> round_ratio num den"
proof -
  let ?b = "bit_length (num div den)" and ?k = "bit_length (num div den) - 24"
  have "num div den < 2 ^ (24 + ?k)"
    unfolding bit_length_le_iff [symmetric] by simp
  then have "num < 2 ^ (24 + ?k) * den" using den by (simp add: div_less_iff_less_mult)
  then have "num < 2 ^ 24 * (den * 2 ^ ?k)" by (simp only: power_add ac_simps)
  then have "round_even num (den * 2 ^ ?k) \<le> 2 ^ 24"
    using den by (intro round_even_bound) auto
  then show "round_ratio num den \<le> 2 ^ (24 + ?k)"
    by (simp add: round_ratio_def Let_def power_add)
  show "2 ^ (?b - 1) \<le> round_ratio num den" if b: "24 < ?b"
  proof -
    from b have eq: "?b - 1 = 23 + ?k" by arith
    from b have "num div den \<noteq> 0" by (cases "num div den = 0") simp_all
    then have "2 ^ (?b - 1) \<le> num div den" by (intro bit_length_lower) simp
    then have "2 ^ (23 + ?k) \<le> num div den" unfolding eq .
    then have "2 ^ (23 + ?k) * den \<le> num"
      using den by (simp only: less_eq_div_iff_mult_less_eq)
    then have "2 ^ 23 * (den * 2 ^ ?k) \<le> num" by (simp only: power_add ac_simps)
    then have "2 ^ 23 \<le> round_even num (den * 2 ^ ?k)"
      using den by (intro le_round_even) auto
    then show ?thesis unfolding eq by (simp add: round_ratio_def Let_def power_add)
  qed
qed

lemma round_ratio_mono:
  assumes den: "0 < den" and le: "a \<le> b"
  shows "round_ratio a den \<le> round_ratio b den"
proof -
  let ?k = "\<lambda>n. bit_length (n div den) - 24"
  have bl: "bit_length (a div den) \<le> bit_length (b div den)"
    by (intro bit_length_mono div_le_mono le)
  show ?thesis
  proof (cases "?k a = ?k b")
    case True
    then show ?thesis
      using round_even_mono [OF _ le, of "den * 2 ^ ?k b"] den
      by (simp add: round_ratio_def Let_def)
  next
    case False
    with bl have lt: "24 + ?k a \<le> bit_length (b div den) - 1" and b: "24 < bit_length (b div den)"
      by arith+
    have "round_ratio a den \<le> 2 ^ (24 + ?k a)" by (rule round_ratio_bounds(1) [OF den])
    also have "\<dots> \<le> 2 ^ (bit_length (b div den) - 1)" using lt by simp
    also have "\<dots> \<le> round_ratio b den" by (rule round_ratio_bounds(2) [OF den b])
    finally show ?thesis .
  qed
qed

lemma round_ratio_form:
  assumes "0 < den"
  shows "\<exists>m k. round_ratio num den = m * 2 ^ k \<and> m < 2 ^ 24"
proof -
  let ?k = "bit_length (num div den) - 24"
  let ?m = "round_even num (den * 2 ^ ?k)"
  have rr: "round_ratio num den = ?m * 2 ^ ?k" by (simp add: round_ratio_def Let_def)
  have "round_ratio num den \<le> 2 ^ (24 + ?k)" by (rule round_ratio_bounds [OF assms])
  then have "?m * 2 ^ ?k \<le> 2 ^ 24 * 2 ^ ?k" unfolding rr by (simp only: power_add)
  then have "?m \<le> 2 ^ 24" by simp
  then consider "?m < 2 ^ 24" | "?m = 2 ^ 24" by linarith
  then show ?thesis
  proof cases
    case 1 with rr show ?thesis by blast
  next
    case 2
    then have "round_ratio num den = 1 * 2 ^ (24 + ?k)" using rr by (simp add: power_add)
    then show ?thesis by fastforce
  qed
qed

lemma round_ratio_idem:
  assumes "0 < den"
  shows "round_ratio (round_ratio num den) 1 = round_ratio num den"
proof -
  obtain m k where "round_ratio num den = m * 2 ^ k" and "m < 2 ^ 24"
    using round_ratio_form [OF assms] by blast
  then show ?thesis using round_ratio_exact [of 1 m k] by simp
qed

lemma representable_form:
  "representable n \<longleftrightarrow> n < overflow_units \<and> (\<exists>m k. n = m * 2 ^ k \<and> m < 2 ^ 24)"
proof -
  have "round_ratio n 1 = n \<longleftrightarrow> (\<exists>m k. n = m * 2 ^ k \<and> m < 2 ^ 24)"
  proof
    assume "round_ratio n 1 = n"
    then show "\<exists>m k. n = m * 2 ^ k \<and> m < 2 ^ 24" using round_ratio_form [of 1 n] by simp
  next
    assume "\<exists>m k. n = m * 2 ^ k \<and> m < 2 ^ 24"
    then obtain m k where n: "n = m * 2 ^ k" and m: "m < 2 ^ 24" by blast
    show "round_ratio n 1 = n" using round_ratio_exact [OF zero_less_one m, of k] n by simp
  qed
  then show ?thesis by (simp add: representable_def)
qed

lemma representableD: "representable n \<Longrightarrow> n < overflow_units"
  "representable n \<Longrightarrow> round_ratio n 1 = n"
  by (simp_all add: representable_def)

lemma representable_0 [simp]: "representable 0"
  by (simp add: representable_def overflow_units_def)

lemma round_ratio_mult_exact:
  assumes "0 < den" and "representable n"
  shows "round_ratio (n * den) den = n"
proof -
  obtain m k where n: "n = m * 2 ^ k" and m: "m < 2 ^ 24"
    using assms(2) by (auto simp: representable_form)
  show ?thesis unfolding n by (rule round_ratio_exact [OF assms(1) m])
qed

section \<open>The type and its operations\<close>

datatype f32 = NaN | Infinity bool | Finite bool nat

definition make_f32 :: "bool \<Rightarrow> nat \<Rightarrow> f32" where
  "make_f32 s n = (if overflow_units \<le> n then Infinity s else Finite s n)"

fun f32_ok :: "f32 \<Rightarrow> bool" where
  "f32_ok (Finite s n) = representable n"
| "f32_ok _ = True"

fun fisfinite :: "f32 \<Rightarrow> bool" where
  "fisfinite (Finite s n) = True"
| "fisfinite _ = False"

text \<open>The value in units; the infinities lie beyond every finite value, NaN has none.\<close>

fun fkey :: "f32 \<Rightarrow> int option" where
  "fkey NaN = None"
| "fkey (Infinity s) = Some (if s then - int overflow_units else int overflow_units)"
| "fkey (Finite s n) = Some (if s then - int n else int n)"

definition flt :: "f32 \<Rightarrow> f32 \<Rightarrow> bool" where
  "flt x y = (case (fkey x, fkey y) of (Some a, Some b) \<Rightarrow> a < b | _ \<Rightarrow> False)"

definition fle :: "f32 \<Rightarrow> f32 \<Rightarrow> bool" where
  "fle x y = (case (fkey x, fkey y) of (Some a, Some b) \<Rightarrow> a \<le> b | _ \<Rightarrow> False)"

definition feq :: "f32 \<Rightarrow> f32 \<Rightarrow> bool" where
  "feq x y = (case (fkey x, fkey y) of (Some a, Some b) \<Rightarrow> a = b | _ \<Rightarrow> False)"

fun fneg :: "f32 \<Rightarrow> f32" where
  "fneg NaN = NaN"
| "fneg (Infinity s) = Infinity (\<not> s)"
| "fneg (Finite s n) = Finite (\<not> s) n"

definition signed_units :: "bool \<Rightarrow> nat \<Rightarrow> int" where
  "signed_units s n = (if s then - int n else int n)"

definition round_int :: "int \<Rightarrow> f32" where
  "round_int z = make_f32 (z < 0) (round_ratio (nat \<bar>z\<bar>) 1)"

fun fadd :: "f32 \<Rightarrow> f32 \<Rightarrow> f32" where
  "fadd NaN y = NaN"
| "fadd (Infinity s) NaN = NaN"
| "fadd (Finite s a) NaN = NaN"
| "fadd (Infinity s) (Infinity t) = (if s = t then Infinity s else NaN)"
| "fadd (Infinity s) (Finite t b) = Infinity s"
| "fadd (Finite s a) (Infinity t) = Infinity t"
| "fadd (Finite s a) (Finite t b) =
     (let z = signed_units s a + signed_units t b
      in if z = 0 then Finite (s \<and> t) 0 else round_int z)"

definition fsub :: "f32 \<Rightarrow> f32 \<Rightarrow> f32" where
  "fsub x y = fadd x (fneg y)"

fun fmul :: "f32 \<Rightarrow> f32 \<Rightarrow> f32" where
  "fmul NaN y = NaN"
| "fmul (Infinity s) NaN = NaN"
| "fmul (Finite s a) NaN = NaN"
| "fmul (Infinity s) (Infinity t) = Infinity (s \<noteq> t)"
| "fmul (Infinity s) (Finite t b) = (if b = 0 then NaN else Infinity (s \<noteq> t))"
| "fmul (Finite s a) (Infinity t) = (if a = 0 then NaN else Infinity (s \<noteq> t))"
| "fmul (Finite s a) (Finite t b) = make_f32 (s \<noteq> t) (round_ratio (a * b) (one_units))"

fun fdiv :: "f32 \<Rightarrow> f32 \<Rightarrow> f32" where
  "fdiv NaN y = NaN"
| "fdiv (Infinity s) NaN = NaN"
| "fdiv (Finite s a) NaN = NaN"
| "fdiv (Infinity s) (Infinity t) = NaN"
| "fdiv (Infinity s) (Finite t b) = Infinity (s \<noteq> t)"
| "fdiv (Finite s a) (Infinity t) = Finite (s \<noteq> t) 0"
| "fdiv (Finite s a) (Finite t b) =
     (if b = 0 then (if a = 0 then NaN else Infinity (s \<noteq> t))
      else make_f32 (s \<noteq> t) (round_ratio (a * one_units) b))"

text \<open>
  \<open>std::max\<close> and \<open>std::min\<close> as the standard library writes them: the first argument
  unless the second is strictly greater (smaller), so a NaN in second place is dropped.
\<close>

definition fmax :: "f32 \<Rightarrow> f32 \<Rightarrow> f32" where
  "fmax a b = (if flt a b then b else a)"

definition fmin :: "f32 \<Rightarrow> f32 \<Rightarrow> f32" where
  "fmin a b = (if flt b a then b else a)"

text \<open>Decimal literals (\<open>num / den\<close>) and conversions from unsigned and signed integers.\<close>

definition flit :: "nat \<Rightarrow> nat \<Rightarrow> f32" where
  "flit num den = make_f32 False (round_ratio (num * one_units) den)"

definition fnat :: "nat \<Rightarrow> f32" where
  "fnat n = flit n 1"

definition fint :: "int \<Rightarrow> f32" where
  "fint z = make_f32 (z < 0) (round_ratio (nat \<bar>z\<bar> * one_units) 1)"

abbreviation fzero :: f32 where
  "fzero \<equiv> Finite False 0"


section \<open>Order and range of the results\<close>

text \<open>Rounding of an exact integer number of units, infinities included.\<close>

definition key_round :: "int \<Rightarrow> int" where
  "key_round z =
     (let n = int (min overflow_units (round_ratio (nat \<bar>z\<bar>) 1)) in if z < 0 then - n else n)"

lemma overflow_units_pos [simp]: "0 < overflow_units"
  by (simp add: overflow_units_def)

lemma one_units_pos [simp]: "0 < one_units"
  by (simp add: one_units_def)

lemma units_neq_0 [simp]: "overflow_units \<noteq> 0" "one_units \<noteq> 0"
  by (simp_all add: overflow_units_def one_units_def)

lemma fkey_make_f32: "fkey (make_f32 s n) = Some (signed_units s (min overflow_units n))"
  by (simp add: make_f32_def signed_units_def)

lemma fkey_round_int [simp]: "fkey (round_int z) = Some (key_round z)"
  by (simp add: round_int_def fkey_make_f32 key_round_def signed_units_def Let_def)

lemma key_round_0 [simp]: "key_round 0 = 0"
  by (simp add: key_round_def)

lemma key_round_nonneg: "0 \<le> z \<Longrightarrow> 0 \<le> key_round z"
  by (simp add: key_round_def Let_def)

lemma key_round_nonpos: "z \<le> 0 \<Longrightarrow> key_round z \<le> 0"
  by (cases "z = 0") (auto simp: key_round_def Let_def)

lemma key_round_mono: "y \<le> z \<Longrightarrow> key_round y \<le> key_round z"
proof -
  assume le: "y \<le> z"
  consider "0 \<le> y" | "z < 0" | "y < 0" "0 \<le> z" by linarith
  then show ?thesis
  proof cases
    case 1
    with le have "round_ratio (nat \<bar>y\<bar>) 1 \<le> round_ratio (nat \<bar>z\<bar>) 1"
      by (intro round_ratio_mono) auto
    with 1 le show ?thesis by (simp add: key_round_def Let_def min_def)
  next
    case 2
    with le have "round_ratio (nat \<bar>z\<bar>) 1 \<le> round_ratio (nat \<bar>y\<bar>) 1"
      by (intro round_ratio_mono) auto
    with 2 le show ?thesis by (simp add: key_round_def Let_def min_def)
  next
    case 3
    then show ?thesis using key_round_nonpos [of y] key_round_nonneg [of z] by simp
  qed
qed

lemma key_round_id: "representable (nat \<bar>z\<bar>) \<Longrightarrow> key_round z = z"
  by (auto simp: key_round_def Let_def representable_def)

lemma fkey_Finite: "fkey (Finite s n) = Some (signed_units s n)"
  by (simp add: signed_units_def)

lemma representable_units:
  "representable n \<Longrightarrow> key_round (signed_units s n) = signed_units s n"
  by (rule key_round_id) (simp add: signed_units_def)

lemma fkey_fadd_Finite:
  "fkey (fadd (Finite s a) (Finite t b)) = Some (key_round (signed_units s a + signed_units t b))"
  by (simp add: Let_def)

declare fadd.simps(7) [simp del]

lemma f32_ok_make [simp]:
  "0 < den \<Longrightarrow> f32_ok (make_f32 s (round_ratio num den))"
  using round_ratio_idem [of den num] by (auto simp: make_f32_def representable_def)

lemma f32_ok_round_int [simp]: "f32_ok (round_int z)"
  by (simp add: round_int_def)

lemma f32_ok_fadd [simp]: "f32_ok (fadd x y)"
  by (induction x y rule: fadd.induct) (simp_all add: fadd.simps(7) Let_def representable_def)

lemma f32_ok_fneg [simp]: "f32_ok (fneg x) = f32_ok x"
  by (cases x) auto

lemma f32_ok_fsub [simp]: "f32_ok (fsub x y)"
  by (simp add: fsub_def)

lemma f32_ok_fmul [simp]: "f32_ok (fmul x y)"
  by (induction x y rule: fmul.induct) (simp_all add: representable_def)

lemma f32_ok_fdiv [simp]: "f32_ok (fdiv x y)"
  by (induction x y rule: fdiv.induct) (simp_all add: representable_def)

lemma f32_ok_fmax [simp]: "f32_ok x \<Longrightarrow> f32_ok y \<Longrightarrow> f32_ok (fmax x y)"
  by (simp add: fmax_def)

lemma f32_ok_fmin [simp]: "f32_ok x \<Longrightarrow> f32_ok y \<Longrightarrow> f32_ok (fmin x y)"
  by (simp add: fmin_def)

lemma f32_ok_flit [simp]: "0 < den \<Longrightarrow> f32_ok (flit num den)"
  by (simp add: flit_def)

lemma fisfinite_iff: "fisfinite x \<longleftrightarrow> (\<exists>s n. x = Finite s n)"
  by (cases x) auto

lemma fkey_None [simp]: "fkey x = None \<longleftrightarrow> x = NaN"
  by (cases x) auto

lemma fle_refl [simp]: "fle x x \<longleftrightarrow> x \<noteq> NaN"
  by (cases x) (auto simp: fle_def)

lemma fle_trans: "fle x y \<Longrightarrow> fle y z \<Longrightarrow> fle x z"
  by (auto simp: fle_def split: option.splits)

lemma flt_fle_trans: "flt x y \<Longrightarrow> fle y z \<Longrightarrow> flt x z"
  by (auto simp: fle_def flt_def split: option.splits)

lemma flt_imp_fle: "flt x y \<Longrightarrow> fle x y"
  by (auto simp: fle_def flt_def split: option.splits)

lemma flt_irrefl [simp]: "\<not> flt x x"
  by (auto simp: flt_def split: option.splits)

lemma not_flt_iff: "x \<noteq> NaN \<Longrightarrow> y \<noteq> NaN \<Longrightarrow> \<not> flt x y \<longleftrightarrow> fle y x"
  by (auto simp: fle_def flt_def split: option.splits)

lemma flt_not_NaN: "flt x y \<Longrightarrow> x \<noteq> NaN \<and> y \<noteq> NaN"
  by (auto simp: flt_def split: option.splits)

lemma fle_not_NaN: "fle x y \<Longrightarrow> x \<noteq> NaN \<and> y \<noteq> NaN"
  by (auto simp: fle_def split: option.splits)

text \<open>\<open>max(0, x)\<close> is never negative and never NaN; \<open>max(0, min(x, c))\<close> lies in the range.\<close>

lemma fmax_zero_ge [simp]: "fle fzero (fmax fzero x)"
  by (auto simp: fmax_def fle_def flt_def split: option.splits)

lemma fmax_zero_not_NaN [simp]: "fmax fzero x \<noteq> NaN"
  by (auto simp: fmax_def flt_def)

lemma fmax_zero_le: "fle fzero c \<Longrightarrow> fle x c \<Longrightarrow> fle (fmax fzero x) c"
  by (simp add: fmax_def)

lemma fle_finite_between:
  "fle fzero x \<Longrightarrow> fle x (Finite s n) \<Longrightarrow> f32_ok (Finite s n) \<Longrightarrow> fisfinite x"
  by (cases x) (auto simp: fle_def representable_def split: if_splits)


lemma fmul_nonneg:
  "fle fzero x \<Longrightarrow> fle fzero y \<Longrightarrow> fmul x y \<noteq> NaN \<Longrightarrow> fle fzero (fmul x y)"
  by (induction x y rule: fmul.induct)
     (auto simp: fle_def make_f32_def split: if_splits)

lemma fdiv_nonneg:
  "fle fzero x \<Longrightarrow> flt fzero y \<Longrightarrow> fdiv x y \<noteq> NaN \<Longrightarrow> fle fzero (fdiv x y)"
  by (induction x y rule: fdiv.induct)
     (auto simp: fle_def flt_def make_f32_def split: if_splits)

text \<open>Subtracting a value that is not negative, from a finite value, does not increase it.\<close>

lemma fsub_le:
  assumes "fisfinite x" and "f32_ok x" and y: "fle fzero y"
  shows "fle (fsub x y) x"
proof -
  obtain s a where x: "x = Finite s a" and a: "representable a"
    using assms by (auto simp: fisfinite_iff)
  show ?thesis
  proof (cases y)
    case NaN with y show ?thesis by (simp add: fle_def)
  next
    case (Infinity t)
    with y have "\<not> t" by (auto simp: fle_def)
    with Infinity x a show ?thesis by (auto simp: fsub_def fle_def representable_def)
  next
    case (Finite t b)
    with y have "0 \<le> signed_units t b" by (auto simp: fle_def signed_units_def)
    then have "signed_units (\<not> t) b \<le> 0" by (auto simp: signed_units_def)
    then have "key_round (signed_units s a + signed_units (\<not> t) b) \<le> key_round (signed_units s a)"
      by (intro key_round_mono) simp
    then show ?thesis
      unfolding x Finite fsub_def fle_def fneg.simps fkey_fadd_Finite fkey_Finite
      by (simp add: representable_units a)
  qed
qed

text \<open>Adding a value that is not negative, to a finite value, does not decrease it.\<close>

lemma fadd_ge:
  assumes "fisfinite x" and "f32_ok x" and "fle fzero y"
  shows "fle x (fadd x y)"
proof -
  obtain s a where x: "x = Finite s a" and a: "representable a"
    using assms by (auto simp: fisfinite_iff)
  show ?thesis
  proof (cases y)
    case NaN with assms show ?thesis by (simp add: fle_def)
  next
    case (Infinity t)
    with assms have "\<not> t" by (auto simp: fle_def)
    with Infinity x a show ?thesis by (auto simp: fle_def representable_def)
  next
    case (Finite t b)
    with assms have "0 \<le> signed_units t b" by (auto simp: fle_def signed_units_def)
    then have "key_round (signed_units s a) \<le> key_round (signed_units s a + signed_units t b)"
      by (intro key_round_mono) simp
    then show ?thesis
      unfolding x Finite fle_def fkey_fadd_Finite fkey_Finite by (simp add: representable_units a)
  qed
qed

lemma fadd_nonneg:
  "fle fzero x \<Longrightarrow> fle fzero y \<Longrightarrow> fle fzero (fadd x y)"
proof (induction x y rule: fadd.induct)
  case (7 s a t b)
  then have "0 \<le> signed_units s a + signed_units t b"
    by (auto simp: fle_def signed_units_def split: if_splits)
  then show ?case unfolding fle_def fkey_fadd_Finite by (simp add: key_round_nonneg)
qed (auto simp: fle_def split: if_splits)

section \<open>Whole numbers\<close>

text \<open>Below $2^{24}$ the whole numbers are binary32 values, and their sums are exact.\<close>

definition watts :: "nat \<Rightarrow> f32" where
  "watts n = Finite False (n * one_units)"

lemma representable_watts: "n < 2 ^ 24 \<Longrightarrow> representable (n * one_units)"
proof -
  assume n: "n < 2 ^ 24"
  have "n * one_units < 2 ^ 24 * one_units" using n by simp
  also have "2 ^ 24 * one_units \<le> overflow_units"
    by (simp add: one_units_def overflow_units_def)
  finally have "n * one_units < overflow_units" .
  moreover have "\<exists>m k. n * one_units = m * 2 ^ k \<and> m < 2 ^ 24"
    unfolding one_units_def using n by blast
  ultimately show ?thesis by (simp add: representable_form)
qed

lemma f32_ok_watts: "n < 2 ^ 24 \<Longrightarrow> f32_ok (watts n)"
  by (simp add: watts_def representable_watts)

lemma fkey_watts [simp]: "fkey (watts n) = Some (int (n * one_units))"
  by (simp add: watts_def)

lemma fle_watts [simp]: "fle (watts m) (watts n) \<longleftrightarrow> m \<le> n"
  by (simp add: fle_def one_units_def)

lemma fisfinite_watts [simp]: "fisfinite (watts n)"
  by (simp add: watts_def)

lemma not_flt_watts [simp]: "\<not> flt (watts n) fzero"
  by (simp add: flt_def mult_less_0_iff)

lemma watts_0: "fzero = watts 0"
  by (simp add: watts_def)

lemma fadd_watts: "a + b < 2 ^ 24 \<Longrightarrow> fadd (watts a) (watts b) = watts (a + b)"
proof -
  assume ab: "a + b < 2 ^ 24"
  have u: "signed_units False (a * one_units) + signed_units False (b * one_units)
           = int ((a + b) * one_units)"
    by (simp add: signed_units_def algebra_simps)
  have "round_ratio ((a + b) * one_units) 1 = (a + b) * one_units"
    and "(a + b) * one_units < overflow_units"
    using representable_watts [OF ab] by (auto simp: representable_def)
  then show ?thesis
    unfolding watts_def fadd.simps Let_def u round_int_def make_f32_def
    by (simp only: nat_int abs_of_nat of_nat_less_0_iff of_nat_eq_0_iff) auto
qed


text \<open>Evaluation of closed terms by the simplifier.\<close>

lemmas f32_eval =
  watts_def flit_def fnat_def fint_def make_f32_def round_int_def signed_units_def
  round_ratio_def round_even_def Let_def bit_length.simps one_units_def overflow_units_def
  fadd.simps(7) fsub_def flt_def fle_def feq_def fmax_def fmin_def representable_def

end
