(* ===== verification/Loads.thy ===== *)
theory Loads
  imports Float32
begin

text \<open>
  The \<open>Load\<close> class and its parts (\<open>lib/LoadManager/Load.h\<close>, \<open>Load.cpp\<close>), the
  classification of Loads into planning groups (\<open>LoadFilter\<close>) and the evaluation of an
  Auto Load's window against local time (\<open>LoadScheduleEvaluator\<close>).

  An \<open>enum class\<close> over a byte holds any byte once a raw value has been cast to it, so each
  enumeration has a constructor for the bytes that name no enumerator.
\<close>

section \<open>Modes and power types\<close>

datatype LoadModeValue = FIXED_OFF | FIXED_ON | AUTO_OFF | AUTO_ON | UNNAMED_MODE u8

datatype LoadPowerType = AC | DC | UNNAMED_POWER_TYPE u8

definition mode_of_byte :: "u8 \<Rightarrow> LoadModeValue" where
  "mode_of_byte b =
     (if b = 0 then FIXED_OFF else if b = 1 then FIXED_ON
      else if b = 2 then AUTO_OFF else if b = 3 then AUTO_ON else UNNAMED_MODE b)"

fun mode_byte :: "LoadModeValue \<Rightarrow> u8" where
  "mode_byte FIXED_OFF = 0"
| "mode_byte FIXED_ON = 1"
| "mode_byte AUTO_OFF = 2"
| "mode_byte AUTO_ON = 3"
| "mode_byte (UNNAMED_MODE b) = b"

definition power_type_of_byte :: "u8 \<Rightarrow> LoadPowerType" where
  "power_type_of_byte b = (if b = 0 then AC else if b = 1 then DC else UNNAMED_POWER_TYPE b)"

fun power_type_byte :: "LoadPowerType \<Rightarrow> u8" where
  "power_type_byte AC = 0"
| "power_type_byte DC = 1"
| "power_type_byte (UNNAMED_POWER_TYPE b) = b"

definition named_mode :: "LoadModeValue \<Rightarrow> bool" where
  "named_mode m \<longleftrightarrow> m \<in> {FIXED_OFF, FIXED_ON, AUTO_OFF, AUTO_ON}"

definition named_power_type :: "LoadPowerType \<Rightarrow> bool" where
  "named_power_type t \<longleftrightarrow> t \<in> {AC, DC}"

lemma mode_byte_of_byte [simp]: "mode_byte (mode_of_byte b) = b"
  by (simp add: mode_of_byte_def)

lemma mode_of_byte_byte [simp]: "named_mode m \<Longrightarrow> mode_of_byte (mode_byte m) = m"
  by (auto simp: named_mode_def mode_of_byte_def)

lemma power_type_byte_of_byte [simp]: "power_type_byte (power_type_of_byte b) = b"
  by (simp add: power_type_of_byte_def)

lemma power_type_of_byte_byte [simp]:
  "named_power_type t \<Longrightarrow> power_type_of_byte (power_type_byte t) = t"
  by (auto simp: named_power_type_def power_type_of_byte_def)

section \<open>Schedules\<close>

record AutoSchedule =
  enabled :: bool
  startHour :: u8
  startMinute :: u8
  endHour :: u8
  endMinute :: u8

definition no_schedule :: AutoSchedule where
  "no_schedule = \<lparr>enabled = False, startHour = 0, startMinute = 0, endHour = 0, endMinute = 0\<rparr>"

definition AutoSchedule5 :: "bool \<Rightarrow> u8 \<Rightarrow> u8 \<Rightarrow> u8 \<Rightarrow> u8 \<Rightarrow> AutoSchedule" where
  "AutoSchedule5 en sh sm eh em =
     \<lparr>enabled = en,
      startHour = (if en then sh else 0),
      startMinute = (if en then sm else 0),
      endHour = (if en then eh else 0),
      endMinute = (if en then em else 0)\<rparr>"

text \<open>The start-only constructor: a window of one hour. The sum is computed in \<open>unsigned\<close>.\<close>

definition AutoSchedule3 :: "bool \<Rightarrow> u8 \<Rightarrow> u8 \<Rightarrow> AutoSchedule" where
  "AutoSchedule3 en sh sm =
     \<lparr>enabled = en,
      startHour = (if en then sh else 0),
      startMinute = (if en then sm else 0),
      endHour = (if en then of_nat ((unat sh + 1) mod 24) else 0),
      endMinute = (if en then sm else 0)\<rparr>"

definition minutes_of_day :: "u8 \<Rightarrow> u8 \<Rightarrow> u16" where
  "minutes_of_day h m = ucast h * 60 + ucast m"

definition times_in_range :: "AutoSchedule \<Rightarrow> bool" where
  "times_in_range s \<longleftrightarrow>
     \<not> (startHour s > 23 \<or> startMinute s > 59 \<or> endHour s > 23 \<or> endMinute s > 59)"

definition schedule_valid :: "AutoSchedule \<Rightarrow> bool" where
  "schedule_valid s \<longleftrightarrow>
     (if \<not> enabled s then True
      else if \<not> times_in_range s then False
      else minutes_of_day (startHour s) (startMinute s) \<noteq> minutes_of_day (endHour s) (endMinute s))"

lemma AutoSchedule5_disabled [simp]: "AutoSchedule5 False sh sm eh em = no_schedule"
  by (simp add: AutoSchedule5_def no_schedule_def)

lemma AutoSchedule5_fields [simp]:
  "AutoSchedule5 True (startHour s) (startMinute s) (endHour s) (endMinute s) = s\<lparr>enabled := True\<rparr>"
  by (simp add: AutoSchedule5_def)

lemma AutoSchedule5_self:
  "enabled s \<or> s = no_schedule \<Longrightarrow>
   AutoSchedule5 (enabled s) (startHour s) (startMinute s) (endHour s) (endMinute s) = s"
  by (cases s) (auto simp: AutoSchedule5_def no_schedule_def)

lemma no_schedule_valid [simp]: "schedule_valid no_schedule"
  by (simp add: schedule_valid_def no_schedule_def)

lemma no_schedule_disabled [simp]: "\<not> enabled no_schedule"
  by (simp add: no_schedule_def)

lemma unat_minutes_of_day:
  assumes "\<not> h > 23" and "\<not> m > 59"
  shows "unat (minutes_of_day h m) = unat h * 60 + unat m"
proof -
  from assms have h: "unat h \<le> 23" and m: "unat m \<le> 59"
    by (simp_all add: word_less_nat_alt)
  have "unat (ucast h :: u16) = unat h" and "unat (ucast m :: u16) = unat m"
    using h m by (simp_all add: unsigned_ucast_eq take_bit_nat_eq_self_iff take_bit_nat_eq_self)
  then show ?thesis using h m
    by (simp add: minutes_of_day_def unat_word_ariths)
qed

lemma minutes_of_day_bound:
  "\<not> h > 23 \<Longrightarrow> \<not> m > 59 \<Longrightarrow> unat (minutes_of_day h m) < 1440"
proof -
  assume a: "\<not> h > 23" "\<not> m > 59"
  then have "unat h \<le> 23" and "unat m \<le> 59" by (simp_all add: word_less_nat_alt)
  then show ?thesis using unat_minutes_of_day [OF a] by simp
qed

section \<open>The Load class\<close>

record LoadId =
  id_mac :: MacAddress
  id_pin :: u8

record Load =
  load_id :: LoadId
  load_name :: string
  load_reason :: u8
  load_power :: f32
  load_powerType :: LoadPowerType
  load_priority :: u16
  load_mode :: LoadModeValue
  load_schedule :: AutoSchedule

definition getMacAddress :: "Load \<Rightarrow> MacAddress" where
  "getMacAddress l = id_mac (load_id l)"

definition getRelayPin :: "Load \<Rightarrow> u8" where
  "getRelayPin l = id_pin (load_id l)"

definition isFixed :: "Load \<Rightarrow> bool" where
  "isFixed l \<longleftrightarrow> load_mode l = FIXED_ON \<or> load_mode l = FIXED_OFF"

definition isAuto :: "Load \<Rightarrow> bool" where
  "isAuto l \<longleftrightarrow> load_mode l = AUTO_ON \<or> load_mode l = AUTO_OFF"

definition isOn :: "Load \<Rightarrow> bool" where
  "isOn l \<longleftrightarrow> load_mode l = FIXED_ON \<or> load_mode l = AUTO_ON"

definition isOff :: "Load \<Rightarrow> bool" where
  "isOff l \<longleftrightarrow> load_mode l = FIXED_OFF \<or> load_mode l = AUTO_OFF"

definition setName :: "string \<Rightarrow> Load \<Rightarrow> Load" where
  [step_defs]: "setName s l = l\<lparr>load_name := s\<rparr>"

definition clearSchedule :: "Load \<Rightarrow> Load" where
  [step_defs]: "clearSchedule l = l\<lparr>load_schedule := no_schedule\<rparr>"

definition setMode :: "LoadModeValue \<Rightarrow> Load \<Rightarrow> Load" where
  [step_defs]: "setMode m l =
     (let l' = l\<lparr>load_mode := m\<rparr> in if isFixed l' then clearSchedule l' else l')"

definition setLastBestFirstRejectionReason :: "u8 \<Rightarrow> Load \<Rightarrow> Load" where
  [step_defs]: "setLastBestFirstRejectionReason r l = l\<lparr>load_reason := r\<rparr>"

definition setPowerRatingWatts :: "f32 \<Rightarrow> Load \<Rightarrow> bool \<times> Load" where
  [step_defs]: "setPowerRatingWatts p l =
     (if \<not> fisfinite p \<or> flt p fzero then (False, l) else (True, l\<lparr>load_power := p\<rparr>))"

definition setPowerType :: "LoadPowerType \<Rightarrow> Load \<Rightarrow> Load" where
  [step_defs]: "setPowerType t l = l\<lparr>load_powerType := t\<rparr>"

definition setPriority :: "u16 \<Rightarrow> Load \<Rightarrow> Load" where
  [step_defs]: "setPriority p l = l\<lparr>load_priority := p\<rparr>"

definition setSchedule :: "AutoSchedule \<Rightarrow> Load \<Rightarrow> bool \<times> Load" where
  [step_defs]: "setSchedule s l =
     (if \<not> isAuto l then (False, l)
      else if \<not> enabled s then (True, clearSchedule l)
      else if startHour s > 23 \<or> startMinute s > 59 \<or> endHour s > 23 \<or> endMinute s > 59
      then (False, l)
      else if minutes_of_day (startHour s) (startMinute s) = minutes_of_day (endHour s) (endMinute s)
      then (False, l)
      else (True, l\<lparr>load_schedule := s\<rparr>))"

definition new_Load ::
  "LoadId \<Rightarrow> string \<Rightarrow> f32 \<Rightarrow> u16 \<Rightarrow> LoadPowerType \<Rightarrow> LoadModeValue \<Rightarrow> Load" where
  "new_Load i nm p prio ty m =
     snd (setPowerRatingWatts p
       \<lparr>load_id = i, load_name = nm, load_reason = 0, load_power = fzero, load_powerType = ty,
        load_priority = prio, load_mode = m, load_schedule = AutoSchedule5 False 0 0 0 0\<rparr>)"

text \<open>
  \<open>formatMacAddressText\<close>: \<open>"%02X:%02X:%02X:%02X:%02X:%02X"\<close>, cut to the buffer.
\<close>

definition hex_digit :: "nat \<Rightarrow> char" where
  "hex_digit n = ''0123456789ABCDEF'' ! n"

definition hex_byte :: "u8 \<Rightarrow> string" where
  "hex_byte b = [hex_digit (unat b div 16), hex_digit (unat b mod 16)]"

definition formatMacAddressText :: "nat \<Rightarrow> MacAddress \<Rightarrow> string" where
  "formatMacAddressText bufferSize mac =
     (case mac of (a, b, c, d, e, f) \<Rightarrow>
        take (bufferSize - 1)
          (hex_byte a @ '':'' @ hex_byte b @ '':'' @ hex_byte c @ '':'' @
           hex_byte d @ '':'' @ hex_byte e @ '':'' @ hex_byte f))"


section \<open>What every Load satisfies\<close>

text \<open>
  A finite rating that is not negative, and a schedule only on an Auto Load, with times in
  range and two different times. Every setter keeps it, whatever it is given.
\<close>

definition Load_wf :: "Load \<Rightarrow> bool" where
  "Load_wf l \<longleftrightarrow>
     fisfinite (load_power l) \<and> fle fzero (load_power l) \<and>
     schedule_valid (load_schedule l) \<and> (enabled (load_schedule l) \<longrightarrow> isAuto l)"

lemma finite_not_flt_zero: "fisfinite p \<Longrightarrow> \<not> flt p fzero \<longleftrightarrow> fle fzero p"
  by (rule not_flt_iff) (auto simp: fisfinite_iff)

lemma new_Load_wf [inv_intros]: "Load_wf (new_Load i nm p prio ty m)"
  by (auto simp: Load_wf_def new_Load_def setPowerRatingWatts_def finite_not_flt_zero)

lemma setName_wf [inv_intros]: "Load_wf l \<Longrightarrow> Load_wf (setName s l)"
  by (simp add: Load_wf_def setName_def isAuto_def)

lemma clearSchedule_wf [inv_intros]: "Load_wf l \<Longrightarrow> Load_wf (clearSchedule l)"
  by (simp add: Load_wf_def clearSchedule_def)

lemma setMode_wf_named:
  "Load_wf l \<Longrightarrow> named_mode m \<Longrightarrow> Load_wf (setMode m l)"
  by (auto simp: Load_wf_def setMode_def Let_def isFixed_def isAuto_def clearSchedule_def
      named_mode_def)

lemma setReason_wf [inv_intros]: "Load_wf l \<Longrightarrow> Load_wf (setLastBestFirstRejectionReason r l)"
  by (simp add: Load_wf_def setLastBestFirstRejectionReason_def isAuto_def)

lemma setPower_wf [inv_intros]: "Load_wf l \<Longrightarrow> Load_wf (snd (setPowerRatingWatts p l))"
  by (auto simp: Load_wf_def setPowerRatingWatts_def isAuto_def finite_not_flt_zero)

lemma setPowerType_wf [inv_intros]: "Load_wf l \<Longrightarrow> Load_wf (setPowerType t l)"
  by (simp add: Load_wf_def setPowerType_def isAuto_def)

lemma setPriority_wf [inv_intros]: "Load_wf l \<Longrightarrow> Load_wf (setPriority p l)"
  by (simp add: Load_wf_def setPriority_def isAuto_def)

lemma setSchedule_wf [inv_intros]: "Load_wf l \<Longrightarrow> Load_wf (snd (setSchedule s l))"
  by (auto simp: Load_wf_def setSchedule_def isAuto_def clearSchedule_def schedule_valid_def
      times_in_range_def)

text \<open>\<open>setSchedule\<close> accepts exactly the windows \<open>schedule_valid\<close> describes.\<close>

lemma setSchedule_accepts: "fst (setSchedule s l) \<longleftrightarrow> isAuto l \<and> schedule_valid s"
  by (auto simp: setSchedule_def schedule_valid_def times_in_range_def)

lemma setSchedule_rejects_unchanged: "\<not> fst (setSchedule s l) \<Longrightarrow> snd (setSchedule s l) = l"
  by (auto simp: setSchedule_def split: if_splits)

lemma setSchedule_stored:
  "fst (setSchedule s l) \<Longrightarrow>
   load_schedule (snd (setSchedule s l)) = (if enabled s then s else no_schedule)"
  by (auto simp: setSchedule_def clearSchedule_def split: if_splits)

lemma setSchedule_auto:
  "isAuto l \<Longrightarrow> schedule_valid s \<Longrightarrow>
   setSchedule s l = (True, l\<lparr>load_schedule := (if enabled s then s else no_schedule)\<rparr>)"
  by (cases "enabled s")
     (simp_all add: setSchedule_def clearSchedule_def schedule_valid_def times_in_range_def
       split: if_splits)

text \<open>The identity of a Load is never written.\<close>

lemma load_id_setters [simp]:
  "load_id (setName s l) = load_id l"
  "load_id (clearSchedule l) = load_id l"
  "load_id (setMode m l) = load_id l"
  "load_id (setLastBestFirstRejectionReason r l) = load_id l"
  "load_id (snd (setPowerRatingWatts p l)) = load_id l"
  "load_id (setPowerType t l) = load_id l"
  "load_id (setPriority pr l) = load_id l"
  "load_id (snd (setSchedule sc l)) = load_id l"
  "load_id (new_Load i nm p prio ty m) = i"
  by (simp_all add: step_defs Let_def new_Load_def)

lemma id_accessors:
  "load_id l' = load_id l \<Longrightarrow> getMacAddress l' = getMacAddress l"
  "load_id l' = load_id l \<Longrightarrow> getRelayPin l' = getRelayPin l"
  by (simp_all add: getMacAddress_def getRelayPin_def)

lemma load_mode_setters [simp]:
  "load_mode (setMode m l) = m"
  "load_mode (setPriority pr l) = load_mode l"
  "load_mode (setLastBestFirstRejectionReason r l) = load_mode l"
  "load_mode (snd (setSchedule sc l)) = load_mode l"
  "load_mode (setName s l) = load_mode l"
  "load_mode (setPowerType t l) = load_mode l"
  "load_mode (snd (setPowerRatingWatts p l)) = load_mode l"
  "load_mode (clearSchedule l) = load_mode l"
  "load_mode (new_Load i nm p prio ty m) = m"
  by (simp_all add: step_defs Let_def new_Load_def)

lemma load_power_setters [simp]:
  "load_power (setMode m l) = load_power l"
  "load_power (setPriority pr l) = load_power l"
  "load_power (setLastBestFirstRejectionReason r l) = load_power l"
  "load_power (snd (setSchedule sc l)) = load_power l"
  "load_power (clearSchedule l) = load_power l"
  by (simp_all add: step_defs Let_def)

lemma load_priority_setters [simp]:
  "load_priority (setMode m l) = load_priority l"
  "load_priority (setPriority pr l) = pr"
  "load_priority (setLastBestFirstRejectionReason r l) = load_priority l"
  "load_priority (snd (setSchedule sc l)) = load_priority l"
  "load_priority (clearSchedule l) = load_priority l"
  by (simp_all add: step_defs Let_def)

section \<open>LoadFilter\<close>

text \<open>
  The filter keeps pointers to Loads that live elsewhere. A pointer is a value of any type;
  the Load it points at is passed beside it.
\<close>

record 'p LoadFilter =
  fixedOnLoads :: "'p list"
  fixedOffLoads :: "'p list"
  autoCandidateLoads :: "'p list"

definition new_LoadFilter :: "'p LoadFilter" where
  "new_LoadFilter = \<lparr>fixedOnLoads = [], fixedOffLoads = [], autoCandidateLoads = []\<rparr>"

definition filter_reset :: "'p LoadFilter \<Rightarrow> 'p LoadFilter" where
  "filter_reset f = f\<lparr>fixedOnLoads := [], fixedOffLoads := [], autoCandidateLoads := []\<rparr>"

definition filter_addLoad :: "'p \<Rightarrow> Load \<Rightarrow> 'p LoadFilter \<Rightarrow> bool \<times> 'p LoadFilter" where
  "filter_addLoad p l f =
     (if load_mode l = FIXED_ON then (True, f\<lparr>fixedOnLoads := fixedOnLoads f @ [p]\<rparr>)
      else if load_mode l = FIXED_OFF then (True, f\<lparr>fixedOffLoads := fixedOffLoads f @ [p]\<rparr>)
      else if isAuto l then (True, f\<lparr>autoCandidateLoads := autoCandidateLoads f @ [p]\<rparr>)
      else (False, f))"

fun filter_addAll :: "('p \<times> Load) list \<Rightarrow> 'p LoadFilter \<Rightarrow> 'p LoadFilter" where
  "filter_addAll [] f = f"
| "filter_addAll ((p, l) # pls) f = filter_addAll pls (snd (filter_addLoad p l f))"

text \<open>Adding Loads one by one partitions them by mode, in the order they were added.\<close>

lemma filter_addAll_partition:
  "fixedOnLoads (filter_addAll pls f) =
     fixedOnLoads f @ map fst (filter (\<lambda>(p, l). load_mode l = FIXED_ON) pls)"
  "fixedOffLoads (filter_addAll pls f) =
     fixedOffLoads f @ map fst (filter (\<lambda>(p, l). load_mode l = FIXED_OFF) pls)"
  "autoCandidateLoads (filter_addAll pls f) =
     autoCandidateLoads f @ map fst (filter (\<lambda>(p, l). isAuto l) pls)"
  by (induction pls f rule: filter_addAll.induct) (auto simp: filter_addLoad_def isAuto_def)

section \<open>LoadScheduleEvaluator\<close>

text \<open>
  What \<open>CurrentTimeProvider\<close> answers for the local hour and minute: \<open>None\<close> while no valid
  time is known.
\<close>

record LocalClock =
  currentLocalHour :: "u8 option"
  currentLocalMinute :: "u8 option"

record LoadScheduleEvaluation =
  hasEnabledSchedule :: bool
  scheduleActive :: bool

definition isTimeWithinSchedule :: "AutoSchedule \<Rightarrow> u8 \<Rightarrow> u8 \<Rightarrow> bool" where
  "isTimeWithinSchedule s currentHour currentMinute =
     (if \<not> enabled s \<or> startHour s > 23 \<or> startMinute s > 59 \<or> endHour s > 23 \<or>
         endMinute s > 59 \<or> currentHour > 23 \<or> currentMinute > 59
      then False
      else
        let currentMinutes = minutes_of_day currentHour currentMinute;
            startMinutes = minutes_of_day (startHour s) (startMinute s);
            endMinutes = minutes_of_day (endHour s) (endMinute s)
        in if startMinutes = endMinutes then False
           else if startMinutes < endMinutes
           then currentMinutes \<ge> startMinutes \<and> currentMinutes < endMinutes
           else currentMinutes \<ge> startMinutes \<or> currentMinutes < endMinutes)"

definition isScheduleActive :: "AutoSchedule \<Rightarrow> LocalClock \<Rightarrow> bool" where
  "isScheduleActive s clock =
     (case (currentLocalHour clock, currentLocalMinute clock) of
        (Some h, Some m) \<Rightarrow> isTimeWithinSchedule s h m
      | _ \<Rightarrow> False)"

definition evaluateSchedule ::
  "Load \<Rightarrow> LocalClock \<Rightarrow> LoadScheduleEvaluation \<Rightarrow> bool \<times> LoadScheduleEvaluation" where
  "evaluateSchedule l clock result =
     (if \<not> isAuto l then (False, result)
      else (True,
        \<lparr>hasEnabledSchedule = enabled (load_schedule l),
         scheduleActive = enabled (load_schedule l) \<and> isScheduleActive (load_schedule l) clock\<rparr>))"

text \<open>
  The window as an arc of the 1440-minute circle: the current time is inside when it lies
  less far after the start than the end does. One formula covers windows that cross
  midnight and windows that do not.
\<close>

definition minutes_after :: "nat \<Rightarrow> nat \<Rightarrow> nat" where
  "minutes_after a b = (b + 1440 - a) mod 1440"

lemma arc_cases:
  assumes "a < 1440" "b < 1440" "c < 1440"
  shows "minutes_after a c < minutes_after a b \<longleftrightarrow>
         (if a = b then False else if a < b then a \<le> c \<and> c < b else a \<le> c \<or> c < b)"
proof -
  have ge: "minutes_after a x = x - a" if "a \<le> x" "x < 1440" for x
  proof -
    from that have eq: "x + 1440 - a = (x - a) + 1440" and small: "x - a < 1440" by arith+
    show ?thesis unfolding minutes_after_def eq mod_add_self2 by (rule mod_less [OF small])
  qed
  have lt: "minutes_after a x = x + 1440 - a" if "x < a" for x
  proof -
    from that have "x + 1440 - a < 1440" by arith
    then show ?thesis unfolding minutes_after_def by (rule mod_less)
  qed
  consider "a \<le> b" "a \<le> c" | "a \<le> b" "c < a" | "b < a" "a \<le> c" | "b < a" "c < a"
    by linarith
  then show ?thesis
  proof cases
    case 1 with ge [of b] ge [of c] assms show ?thesis by (simp split: if_split) arith?
  next
    case 2 with ge [of b] lt [of c] assms show ?thesis by (simp split: if_split) arith?
  next
    case 3 with lt [of b] ge [of c] assms show ?thesis by (simp split: if_split) arith?
  next
    case 4 with lt [of b] lt [of c] assms show ?thesis by (simp split: if_split) arith?
  qed
qed

text \<open>
  C12: The evaluation of an Auto Load's window is right on the whole clock: for a stored
  schedule and a valid local time, the window is active exactly when the time lies on the
  arc of the 24-hour circle that runs from the start (included) to the end (excluded),
  whether or not the arc crosses midnight.
\<close>

theorem isTimeWithinSchedule_arc:
  assumes "enabled s" and "schedule_valid s" and "\<not> h > 23" and "\<not> m > 59"
  shows "isTimeWithinSchedule s h m \<longleftrightarrow>
    minutes_after (unat (startHour s) * 60 + unat (startMinute s)) (unat h * 60 + unat m)
    < minutes_after (unat (startHour s) * 60 + unat (startMinute s))
        (unat (endHour s) * 60 + unat (endMinute s))"
proof -
  let ?t = "unat (minutes_of_day h m)"
    and ?s = "unat (minutes_of_day (startHour s) (startMinute s))"
    and ?e = "unat (minutes_of_day (endHour s) (endMinute s))"
  from assms have r: "\<not> startHour s > 23" "\<not> startMinute s > 59" "\<not> endHour s > 23"
      "\<not> endMinute s > 59"
    by (auto simp: schedule_valid_def times_in_range_def split: if_splits)
  have eqs: "?t = unat h * 60 + unat m"
    "?s = unat (startHour s) * 60 + unat (startMinute s)"
    "?e = unat (endHour s) * 60 + unat (endMinute s)"
    using r assms(3,4) by (auto intro!: unat_minutes_of_day)
  have bounds: "?s < 1440" "?e < 1440" "?t < 1440"
    using r assms(3,4) by (simp_all add: minutes_of_day_bound)
  have "isTimeWithinSchedule s h m \<longleftrightarrow>
      (if ?s = ?e then False else if ?s < ?e then ?s \<le> ?t \<and> ?t < ?e else ?s \<le> ?t \<or> ?t < ?e)"
    using assms r
    by (auto simp: isTimeWithinSchedule_def Let_def word_less_nat_alt word_le_nat_alt
        word_unat_eq_iff)
  also have "\<dots> \<longleftrightarrow> minutes_after ?s ?t < minutes_after ?s ?e"
    by (rule arc_cases [symmetric]) (rule bounds)+
  finally show ?thesis unfolding eqs .
qed

text \<open>A window from 22:30 to 06:00, at 01:15.\<close>

theorem isTimeWithinSchedule_arc_witness:
  "isTimeWithinSchedule (AutoSchedule5 True 22 30 6 0) 1 15 \<longleftrightarrow>
   minutes_after (22 * 60 + 30) (1 * 60 + 15) < minutes_after (22 * 60 + 30) (6 * 60 + 0)"
  using isTimeWithinSchedule_arc [of "AutoSchedule5 True 22 30 6 0" 1 15]
  by (simp add: AutoSchedule5_def schedule_valid_def times_in_range_def minutes_of_day_def)

end
