(* ===== verification/Best_First.thy ===== *)
theory Best_First
  imports Loads "HOL-Library.While_Combinator" "HOL-Library.Product_Lexorder"
begin

text \<open>
  \<open>BestFirstSearch\<close> (\<open>lib/BestFirstSearch/BestFirstSearch.cpp\<close>): the choice of the
  combination of Auto Loads that a planning cycle switches on.

  A \<open>const Load*\<close> is a value of a type \<open>'p\<close>, and \<open>mem\<close> gives the Load behind it, \<open>None\<close>
  for the null pointer. The open list, the closed list and the best state are the search's
  local variables; its \<open>while\<close> loop is \<open>while_option\<close>, which is \<open>None\<close> if the loop did not
  end. The asserts repeat conditions the code also tests, so nothing depends on them being
  compiled in.
\<close>

section \<open>Search states\<close>

record 'p SearchState =
  combination :: "'p list"
  totalPowerWatts :: f32
  state_g :: f32
  state_h :: f32
  state_f :: f32
  totalConfiguredPriority :: u64
  totalEffectivePriority :: u64

record 'p BestFirstSearch =
  availablePowerWatts :: f32
  currentTimeProvider :: LocalClock
  automaticLoads :: "'p list"
  bestCombination :: "'p list"

definition containsLoad :: "'p list \<Rightarrow> 'p \<Rightarrow> bool" where
  "containsLoad c p \<longleftrightarrow> find (\<lambda>q. q = p) c \<noteq> None"

definition representsSameCombination :: "'p list \<Rightarrow> 'p list \<Rightarrow> bool" where
  "representsSameCombination a b =
     (if length a \<noteq> length b then False else list_all (containsLoad b) a)"

definition combinationAlreadyKnown ::
  "'p list \<Rightarrow> 'p SearchState list \<Rightarrow> 'p list list \<Rightarrow> bool" where
  "combinationAlreadyKnown c openStates closedCombinations =
     (list_ex (\<lambda>s. representsSameCombination c (combination s)) openStates \<or>
      list_ex (representsSameCombination c) closedCombinations)"

definition hasBetterSearchMerit :: "'p SearchState \<Rightarrow> 'p SearchState \<Rightarrow> bool" where
  "hasBetterSearchMerit a b =
     (if totalEffectivePriority a \<noteq> totalEffectivePriority b
      then totalEffectivePriority a > totalEffectivePriority b
      else if totalConfiguredPriority a \<noteq> totalConfiguredPriority b
      then totalConfiguredPriority a > totalConfiguredPriority b
      else if \<not> feq (state_f a) (state_f b) then flt (state_f a) (state_f b)
      else if length (combination a) \<noteq> length (combination b)
      then length (combination a) > length (combination b)
      else flt (totalPowerWatts a) (totalPowerWatts b))"

definition isBetterReturnedCombination :: "'p SearchState \<Rightarrow> 'p SearchState \<Rightarrow> bool" where
  "isBetterReturnedCombination a b =
     (if totalEffectivePriority a \<noteq> totalEffectivePriority b
      then totalEffectivePriority a > totalEffectivePriority b
      else if totalConfiguredPriority a \<noteq> totalConfiguredPriority b
      then totalConfiguredPriority a > totalConfiguredPriority b
      else if length (combination a) \<noteq> length (combination b)
      then length (combination a) > length (combination b)
      else flt (totalPowerWatts a) (totalPowerWatts b))"

section \<open>Totals and costs of a combination\<close>

definition calculateTotalPowerWatts :: "('p \<Rightarrow> Load option) \<Rightarrow> 'p list \<Rightarrow> f32" where
  "calculateTotalPowerWatts mem c =
     foldl (\<lambda>t p. case mem p of None \<Rightarrow> t | Some l \<Rightarrow> fadd t (load_power l)) fzero c"

definition isWithinAvailablePower ::
  "('p \<Rightarrow> Load option) \<Rightarrow> 'p BestFirstSearch \<Rightarrow> 'p list \<Rightarrow> bool" where
  "isWithinAvailablePower mem b c =
     (let total = calculateTotalPowerWatts mem c
      in fisfinite total \<and> fle total (availablePowerWatts b))"

definition calculateTotalConfiguredPriority :: "('p \<Rightarrow> Load option) \<Rightarrow> 'p list \<Rightarrow> u64" where
  "calculateTotalConfiguredPriority mem c =
     foldl (\<lambda>t p. case mem p of None \<Rightarrow> t | Some l \<Rightarrow> t + ucast (load_priority l)) 0 c"

definition ACTIVE_SCHEDULE_PRIORITY_BOOST :: u64 where
  "ACTIVE_SCHEDULE_PRIORITY_BOOST = 5"

definition loadEffectivePriority :: "LocalClock \<Rightarrow> Load \<Rightarrow> u64" where
  "loadEffectivePriority clock l =
     (case evaluateSchedule l clock \<lparr>hasEnabledSchedule = False, scheduleActive = False\<rparr> of
        (evaluated, evaluation) \<Rightarrow>
          if evaluated \<and> scheduleActive evaluation
          then ucast (load_priority l) + ACTIVE_SCHEDULE_PRIORITY_BOOST
          else ucast (load_priority l))"

definition calculateTotalEffectivePriority ::
  "('p \<Rightarrow> Load option) \<Rightarrow> LocalClock \<Rightarrow> 'p list \<Rightarrow> u64" where
  "calculateTotalEffectivePriority mem clock c =
     foldl (\<lambda>t p. case mem p of None \<Rightarrow> t | Some l \<Rightarrow> t + loadEffectivePriority clock l) 0 c"

definition calculateG :: "'p list \<Rightarrow> f32" where
  "calculateG c = fnat (length c)"

definition calculateH :: "('p \<Rightarrow> Load option) \<Rightarrow> 'p list \<Rightarrow> f32" where
  "calculateH mem c =
     (if c = [] then fzero
      else fdiv
        (foldl (\<lambda>t p. case mem p of None \<Rightarrow> t | Some l \<Rightarrow> fadd t (load_power l)) fzero c)
        (fnat (length c)))"

definition calculateF :: "f32 \<Rightarrow> f32 \<Rightarrow> f32" where
  "calculateF g h = fadd g h"

section \<open>The search\<close>

definition makeState ::
  "('p \<Rightarrow> Load option) \<Rightarrow> 'p BestFirstSearch \<Rightarrow> 'p list \<Rightarrow> 'p SearchState" where
  "makeState mem b c =
     \<lparr>combination = c,
      totalPowerWatts = calculateTotalPowerWatts mem c,
      state_g = calculateG c,
      state_h = calculateH mem c,
      state_f = calculateF (calculateG c) (calculateH mem c),
      totalConfiguredPriority = calculateTotalConfiguredPriority mem c,
      totalEffectivePriority =
        calculateTotalEffectivePriority mem (currentTimeProvider b) c\<rparr>"

definition startState :: "('p \<Rightarrow> Load option) \<Rightarrow> 'p SearchState" where
  "startState mem =
     \<lparr>combination = [], totalPowerWatts = fzero,
      state_g = calculateG ([] :: 'p list), state_h = calculateH mem [],
      state_f = calculateF (calculateG ([] :: 'p list)) (calculateH mem []),
      totalConfiguredPriority = 0, totalEffectivePriority = 0\<rparr>"

definition keepBetter :: "'p SearchState \<Rightarrow> 'p SearchState \<Rightarrow> 'p SearchState" where
  "keepBetter s best = (if isBetterReturnedCombination s best then s else best)"

text \<open>One turn of the inner \<open>for\<close> loop over the automatic Loads.\<close>

definition considerLoad ::
  "('p \<Rightarrow> Load option) \<Rightarrow> 'p BestFirstSearch \<Rightarrow> 'p list list \<Rightarrow> 'p SearchState \<Rightarrow> 'p \<Rightarrow>
   'p SearchState list \<times> 'p SearchState \<Rightarrow> 'p SearchState list \<times> 'p SearchState" where
  "considerLoad mem b closedCombinations current p = (\<lambda>(openStates, bestState).
     (case mem p of
        None \<Rightarrow> (openStates, bestState)
      | Some l \<Rightarrow>
          if \<not> isAuto l \<or> containsLoad (combination current) p then (openStates, bestState)
          else
            let child = combination current @ [p]
            in if \<not> isWithinAvailablePower mem b child then (openStates, bestState)
               else if combinationAlreadyKnown child openStates closedCombinations
               then (openStates, bestState)
               else (openStates @ [makeState mem b child],
                     keepBetter (makeState mem b child) bestState)))"

text \<open>One turn of the \<open>while\<close> loop: sort, take the front, expand it, close it.\<close>

definition searchStep ::
  "('p \<Rightarrow> Load option) \<Rightarrow> 'p BestFirstSearch \<Rightarrow>
   'p SearchState list \<times> 'p list list \<times> 'p SearchState \<Rightarrow>
   'p SearchState list \<times> 'p list list \<times> 'p SearchState" where
  "searchStep mem b = (\<lambda>(openStates, closedCombinations, bestState).
     (case stable_sort hasBetterSearchMerit openStates of
        [] \<Rightarrow> (openStates, closedCombinations, bestState)
      | current # rest \<Rightarrow>
          (case fold (considerLoad mem b closedCombinations current) (automaticLoads b)
                  (rest, keepBetter current bestState) of
             (openStates', bestState') \<Rightarrow>
               (openStates', closedCombinations @ [combination current], bestState'))))"

definition runSearch ::
  "('p \<Rightarrow> Load option) \<Rightarrow> 'p BestFirstSearch \<Rightarrow> 'p BestFirstSearch option" where
  "runSearch mem b =
     (if \<not> fisfinite (availablePowerWatts b) \<or> flt (availablePowerWatts b) fzero
      then Some (b\<lparr>bestCombination := []\<rparr>)
      else map_option (\<lambda>(_, _, bestState). b\<lparr>bestCombination := combination bestState\<rparr>)
             (while_option (\<lambda>(openStates, _, _). openStates \<noteq> []) (searchStep mem b)
                ([startState mem], [], startState mem)))"

definition new_BestFirstSearch ::
  "('p \<Rightarrow> Load option) \<Rightarrow> f32 \<Rightarrow> 'p list \<Rightarrow> LocalClock \<Rightarrow> 'p BestFirstSearch option" where
  "new_BestFirstSearch mem avail loads clock =
     runSearch mem
       \<lparr>availablePowerWatts = avail, currentTimeProvider = clock, automaticLoads = loads,
        bestCombination = []\<rparr>"

text \<open>The Loads the search may choose: those in the list that are Auto.\<close>

definition candidates :: "('p \<Rightarrow> Load option) \<Rightarrow> 'p list \<Rightarrow> 'p set" where
  "candidates mem ps = {p \<in> set ps. case mem p of None \<Rightarrow> False | Some l \<Rightarrow> isAuto l}"

section \<open>Comparing combinations and states\<close>

lemma containsLoad_iff [simp]: "containsLoad c p \<longleftrightarrow> p \<in> set c"
  by (auto simp: containsLoad_def find_None_iff)

lemma same_combination_iff:
  assumes "distinct a" and "distinct b"
  shows "representsSameCombination a b \<longleftrightarrow> set a = set b"
proof
  assume "representsSameCombination a b"
  then have "length a = length b" and sub: "set a \<subseteq> set b"
    by (auto simp: representsSameCombination_def list_all_iff split: if_splits)
  then have "card (set a) = card (set b)" using assms by (simp add: distinct_card)
  with sub show "set a = set b" by (simp add: card_subset_eq)
next
  assume "set a = set b"
  then have "length a = length b" using assms by (metis distinct_card)
  with \<open>set a = set b\<close> show "representsSameCombination a b"
    by (simp add: representsSameCombination_def list_all_iff)
qed

text \<open>
  Both comparisons are the strict part of a linear order on a key, as long as no NaN is
  compared; they are strict weak orders, as \<open>std::stable_sort\<close> requires.
\<close>

definition returned_rank :: "'p SearchState \<Rightarrow> u64 \<times> u64 \<times> nat \<times> int" where
  "returned_rank s =
     (totalEffectivePriority s, totalConfiguredPriority s, length (combination s),
      - the (fkey (totalPowerWatts s)))"

definition merit_rank :: "'p SearchState \<Rightarrow> u64 \<times> u64 \<times> int \<times> nat \<times> int" where
  "merit_rank s =
     (totalEffectivePriority s, totalConfiguredPriority s, - the (fkey (state_f s)),
      length (combination s), - the (fkey (totalPowerWatts s)))"

lemma flt_key: "x \<noteq> NaN \<Longrightarrow> y \<noteq> NaN \<Longrightarrow> flt x y \<longleftrightarrow> the (fkey x) < the (fkey y)"
  by (cases "fkey x"; cases "fkey y") (auto simp: flt_def)

lemma feq_key: "x \<noteq> NaN \<Longrightarrow> y \<noteq> NaN \<Longrightarrow> feq x y \<longleftrightarrow> the (fkey x) = the (fkey y)"
  by (cases "fkey x"; cases "fkey y") (auto simp: feq_def)

lemma better_returned_iff:
  "totalPowerWatts a \<noteq> NaN \<Longrightarrow> totalPowerWatts b \<noteq> NaN \<Longrightarrow>
   isBetterReturnedCombination a b \<longleftrightarrow> returned_rank b < returned_rank a"
  by (auto simp: isBetterReturnedCombination_def returned_rank_def less_prod_def' flt_key)

lemma better_merit_iff:
  "totalPowerWatts a \<noteq> NaN \<Longrightarrow> totalPowerWatts b \<noteq> NaN \<Longrightarrow> state_f a \<noteq> NaN \<Longrightarrow> state_f b \<noteq> NaN \<Longrightarrow>
   hasBetterSearchMerit a b \<longleftrightarrow> merit_rank b < merit_rank a"
  by (auto simp: hasBetterSearchMerit_def merit_rank_def less_prod_def' flt_key feq_key)

section \<open>What the search keeps true\<close>

definition good_combination ::
  "('p \<Rightarrow> Load option) \<Rightarrow> 'p BestFirstSearch \<Rightarrow> 'p list \<Rightarrow> bool" where
  "good_combination mem b c \<longleftrightarrow>
     distinct c \<and> set c \<subseteq> candidates mem (automaticLoads b) \<and> isWithinAvailablePower mem b c"

text \<open>
  \<open>known_ok\<close>: the combinations seen so far are good and pairwise different as sets, the
  queued states carry the totals of their combination, and nothing seen beats the best.
\<close>

definition known_ok ::
  "('p \<Rightarrow> Load option) \<Rightarrow> 'p BestFirstSearch \<Rightarrow> 'p list list \<Rightarrow> 'p SearchState list \<Rightarrow>
   'p SearchState \<Rightarrow> bool" where
  "known_ok mem b done openStates best \<longleftrightarrow>
     (\<forall>s \<in> set openStates. s = makeState mem b (combination s)) \<and>
     (\<forall>c \<in> set done \<union> combination ` set openStates. good_combination mem b c) \<and>
     distinct (map set (done @ map combination openStates)) \<and>
     best = makeState mem b (combination best) \<and>
     combination best \<in> set done \<union> combination ` set openStates \<and>
     (\<forall>c \<in> set done \<union> combination ` set openStates.
        \<not> isBetterReturnedCombination (makeState mem b c) best)"

definition expanded ::
  "('p \<Rightarrow> Load option) \<Rightarrow> 'p BestFirstSearch \<Rightarrow> 'p list list \<Rightarrow> 'p list \<Rightarrow> 'p \<Rightarrow> bool" where
  "expanded mem b known c p \<longleftrightarrow>
     (p \<in> candidates mem (automaticLoads b) \<and> p \<notin> set c \<and> isWithinAvailablePower mem b (c @ [p])
      \<longrightarrow> (\<exists>d \<in> set known. set d = insert p (set c)))"

lemma makeState_sel [simp]:
  "combination (makeState mem b c) = c"
  "totalPowerWatts (makeState mem b c) = calculateTotalPowerWatts mem c"
  "totalConfiguredPriority (makeState mem b c) = calculateTotalConfiguredPriority mem c"
  "totalEffectivePriority (makeState mem b c) =
     calculateTotalEffectivePriority mem (currentTimeProvider b) c"
  by (simp_all add: makeState_def)

lemma startState_makeState: "startState mem = makeState mem b []"
  by (simp add: startState_def makeState_def calculateTotalPowerWatts_def
      calculateTotalConfiguredPriority_def calculateTotalEffectivePriority_def)

lemma within_not_NaN: "isWithinAvailablePower mem b c \<Longrightarrow> calculateTotalPowerWatts mem c \<noteq> NaN"
  by (auto simp: isWithinAvailablePower_def Let_def)

lemma good_not_NaN: "good_combination mem b c \<Longrightarrow> calculateTotalPowerWatts mem c \<noteq> NaN"
  by (auto simp: good_combination_def dest: within_not_NaN)

lemma keepBetter_cases:
  "keepBetter s best = s \<and> isBetterReturnedCombination s best \<or>
   keepBetter s best = best \<and> \<not> isBetterReturnedCombination s best"
  by (simp add: keepBetter_def)

lemma known_ok_keepBetter:
  assumes ok: "known_ok mem b done openStates best" and new: "good_combination mem b c"
  shows "\<forall>d \<in> insert c (set done \<union> combination ` set openStates).
           \<not> isBetterReturnedCombination (makeState mem b d) (keepBetter (makeState mem b c) best)"
    and "keepBetter (makeState mem b c) best =
         makeState mem b (combination (keepBetter (makeState mem b c) best))"
    and "combination (keepBetter (makeState mem b c) best)
         \<in> insert c (set done \<union> combination ` set openStates)"
proof -
  from ok have best: "best = makeState mem b (combination best)"
    "combination best \<in> set done \<union> combination ` set openStates"
    and good: "\<forall>d \<in> set done \<union> combination ` set openStates. good_combination mem b d"
    and top: "\<forall>d \<in> set done \<union> combination ` set openStates.
        \<not> isBetterReturnedCombination (makeState mem b d) best"
    unfolding known_ok_def by blast+
  have nn: "totalPowerWatts (makeState mem b d) \<noteq> NaN"
    if "d \<in> insert c (set done \<union> combination ` set openStates)" for d
    using that good new good_not_NaN by fastforce
  have nnb: "totalPowerWatts best \<noteq> NaN"
    by (subst best(1)) (rule nn, use best(2) in blast)
  show "keepBetter (makeState mem b c) best =
        makeState mem b (combination (keepBetter (makeState mem b c) best))"
    using best(1) by (simp add: keepBetter_def)
  show "combination (keepBetter (makeState mem b c) best)
        \<in> insert c (set done \<union> combination ` set openStates)"
    using best(2) by (simp add: keepBetter_def)
  show "\<forall>d \<in> insert c (set done \<union> combination ` set openStates).
          \<not> isBetterReturnedCombination (makeState mem b d) (keepBetter (makeState mem b c) best)"
  proof
    fix d assume d: "d \<in> insert c (set done \<union> combination ` set openStates)"
    show "\<not> isBetterReturnedCombination (makeState mem b d) (keepBetter (makeState mem b c) best)"
    proof (cases "isBetterReturnedCombination (makeState mem b c) best")
      case True
      then have lt: "returned_rank best < returned_rank (makeState mem b c)"
        using nn nnb by (simp add: better_returned_iff)
      have "\<not> returned_rank (makeState mem b c) < returned_rank (makeState mem b d)"
      proof (cases "d = c")
        case False
        with d top nn nnb have "\<not> returned_rank best < returned_rank (makeState mem b d)"
          by (auto simp: better_returned_iff)
        with lt show ?thesis by order
      qed simp
      with True nn d show ?thesis by (simp add: keepBetter_def better_returned_iff)
    next
      case False
      with d top show ?thesis by (auto simp: keepBetter_def)
    qed
  qed
qed

text \<open>One turn of the inner loop keeps \<open>known_ok\<close> and leaves the Load expanded.\<close>

lemma known_of_not_already:
  assumes ok: "known_ok mem b (c0 # done) openStates best"
    and p: "p \<notin> set c0" and new: "distinct (c0 @ [p])"
    and "\<not> combinationAlreadyKnown (c0 @ [p]) openStates done"
  shows "set (c0 @ [p]) \<notin> set ` (set (c0 # done) \<union> combination ` set openStates)"
proof
  assume "set (c0 @ [p]) \<in> set ` (set (c0 # done) \<union> combination ` set openStates)"
  then obtain d where d: "d \<in> set (c0 # done) \<union> combination ` set openStates"
    and eq: "set (c0 @ [p]) = set d" by blast
  from ok d have "distinct d" by (auto simp: known_ok_def good_combination_def)
  with new eq have "representsSameCombination (c0 @ [p]) d"
    by (simp only: same_combination_iff)
  moreover from eq p have "d \<noteq> c0" by auto
  ultimately show False
    using d assms(4) by (auto simp: combinationAlreadyKnown_def list_ex_iff)
qed

lemma already_known_found:
  assumes ok: "known_ok mem b (c0 # done) openStates best"
    and new: "distinct (c0 @ [p])"
    and "combinationAlreadyKnown (c0 @ [p]) openStates done"
  shows "\<exists>d \<in> set (c0 # done @ map combination openStates). set d = insert p (set c0)"
proof -
  from assms(3) obtain d where d: "d \<in> set done \<union> combination ` set openStates"
    and same: "representsSameCombination (c0 @ [p]) d"
    by (auto simp: combinationAlreadyKnown_def list_ex_iff)
  with ok have "distinct d" by (auto simp: known_ok_def good_combination_def)
  with new same have "set (c0 @ [p]) = set d" by (simp only: same_combination_iff)
  with d show ?thesis by auto
qed

lemma candidates_iff:
  "p \<in> candidates mem ps \<longleftrightarrow> p \<in> set ps \<and> (\<exists>l. mem p = Some l \<and> isAuto l)"
  by (auto simp: candidates_def split: option.splits)

lemma considerLoad_cases:
  assumes ok: "known_ok mem b (c0 # done) openStates best"
    and cur: "combination cur = c0" and p: "p \<in> set (automaticLoads b)"
    and step: "considerLoad mem b done cur p (openStates, best) = (openStates', best')"
  shows "known_ok mem b (c0 # done) openStates' best' \<and>
         set openStates \<subseteq> set openStates' \<and>
         expanded mem b (c0 # done @ map combination openStates') c0 p"
proof (cases "p \<in> candidates mem (automaticLoads b) \<and> p \<notin> set c0 \<and>
              isWithinAvailablePower mem b (c0 @ [p])")
  case False
  with p cur step have "openStates' = openStates" "best' = best"
    by (auto simp: considerLoad_def candidates_iff Let_def split: option.splits if_splits)
  with ok False show ?thesis by (auto simp: expanded_def)
next
  case True
  then obtain l where l: "mem p = Some l" "isAuto l" by (auto simp: candidates_iff)
  from ok have gc0: "good_combination mem b c0" by (auto simp: known_ok_def)
  with True have good: "good_combination mem b (c0 @ [p])"
    by (auto simp: good_combination_def)
  then have new: "distinct (c0 @ [p])" by (simp only: good_combination_def)
  show ?thesis
  proof (cases "combinationAlreadyKnown (c0 @ [p]) openStates done")
    case already: True
    with True l cur step have "openStates' = openStates" "best' = best"
      by (auto simp: considerLoad_def Let_def)
    with ok already_known_found [OF ok new already] show ?thesis
      by (simp add: expanded_def)
  next
    case fresh: False
    with True l cur step
    have o': "openStates' = openStates @ [makeState mem b (c0 @ [p])]"
      and b': "best' = keepBetter (makeState mem b (c0 @ [p])) best"
      by (auto simp: considerLoad_def Let_def)
    note kb = known_ok_keepBetter [OF ok good, folded b']
    from known_of_not_already [OF ok _ new fresh] True
    have notin: "insert p (set c0) \<notin> set ` (set (c0 # done) \<union> combination ` set openStates)"
      by simp
    have "known_ok mem b (c0 # done) openStates' best'"
      unfolding known_ok_def
    proof (intro conjI)
      show "\<forall>s \<in> set openStates'. s = makeState mem b (combination s)"
        using ok by (auto simp: known_ok_def o')
      show "\<forall>c \<in> set (c0 # done) \<union> combination ` set openStates'. good_combination mem b c"
        using ok good by (auto simp: known_ok_def o')
      have "map set ((c0 # done) @ map combination openStates') =
            map set ((c0 # done) @ map combination openStates) @ [insert p (set c0)]"
        by (simp add: o')
      moreover have "distinct (map set ((c0 # done) @ map combination openStates))"
        using ok by (simp only: known_ok_def)
      ultimately show "distinct (map set ((c0 # done) @ map combination openStates'))"
        using notin by (auto simp: image_Un image_image)
      show "best' = makeState mem b (combination best')" by (rule kb(2))
      show "combination best' \<in> set (c0 # done) \<union> combination ` set openStates'"
        using kb(3) by (auto simp: o')
      show "\<forall>c \<in> set (c0 # done) \<union> combination ` set openStates'.
              \<not> isBetterReturnedCombination (makeState mem b c) best'"
        using kb(1) by (auto simp: o')
    qed
    then show ?thesis by (auto simp: o' expanded_def)
  qed
qed

lemma expanded_mono: "expanded mem b known c p \<Longrightarrow> set known \<subseteq> set known' \<Longrightarrow> expanded mem b known' c p"
  by (auto simp: expanded_def)

lemma fold_considerLoad:
  assumes "known_ok mem b (c0 # done) openStates best"
    and cur: "combination cur = c0" and "set ps \<subseteq> set (automaticLoads b)"
    and "fold (considerLoad mem b done cur) ps (openStates, best) = (openStates', best')"
  shows "known_ok mem b (c0 # done) openStates' best' \<and>
         set openStates \<subseteq> set openStates' \<and>
         (\<forall>p \<in> set ps. expanded mem b (c0 # done @ map combination openStates') c0 p)"
  using assms(1,3,4)
proof (induction ps arbitrary: openStates best)
  case Nil
  then show ?case by simp
next
  case (Cons p ps)
  obtain openStates1 best1
    where step: "considerLoad mem b done cur p (openStates, best) = (openStates1, best1)"
    by (cases "considerLoad mem b done cur p (openStates, best)")
  from Cons.prems have p: "p \<in> set (automaticLoads b)" by simp
  note one = considerLoad_cases [OF Cons.prems(1) cur p step]
  have rest: "known_ok mem b (c0 # done) openStates' best' \<and>
         set openStates1 \<subseteq> set openStates' \<and>
         (\<forall>p \<in> set ps. expanded mem b (c0 # done @ map combination openStates') c0 p)"
    by (rule Cons.IH) (use one Cons.prems step in auto)
  have "expanded mem b (c0 # done @ map combination openStates') c0 p"
  proof (rule expanded_mono)
    show "expanded mem b (c0 # done @ map combination openStates1) c0 p" using one by blast
    have "combination ` set openStates1 \<subseteq> combination ` set openStates'"
      using rest by (intro image_mono) blast
    then show "set (c0 # done @ map combination openStates1)
               \<subseteq> set (c0 # done @ map combination openStates')"
      by auto
  qed
  with one rest show ?case by auto
qed

text \<open>The invariant of the outer loop: every closed combination has been expanded fully.\<close>

definition search_ok ::
  "('p \<Rightarrow> Load option) \<Rightarrow> 'p BestFirstSearch \<Rightarrow>
   'p SearchState list \<times> 'p list list \<times> 'p SearchState \<Rightarrow> bool" where
  "search_ok mem b = (\<lambda>(openStates, closedCombinations, best).
     known_ok mem b closedCombinations openStates best \<and>
     [] \<in> set (closedCombinations @ map combination openStates) \<and>
     (\<forall>c \<in> set closedCombinations. \<forall>p \<in> set (automaticLoads b).
        expanded mem b (closedCombinations @ map combination openStates) c p))"

lemma known_ok_reorder:
  assumes ok: "known_ok mem b done openStates best"
    and "set openStates' = set openStates"
    and "distinct (map (set \<circ> combination) openStates') = distinct (map (set \<circ> combination) openStates)"
  shows "known_ok mem b done openStates' best"
  using assms by (simp add: known_ok_def)

lemma known_ok_close:
  "known_ok mem b (combination s # done) openStates best = known_ok mem b (done @ [combination s]) openStates best"
  by (auto simp: known_ok_def)

lemma known_ok_take:
  assumes "known_ok mem b done (s # openStates) best"
  shows "known_ok mem b (combination s # done) openStates best"
  using assms unfolding known_ok_def by (auto simp: image_iff)

lemma keepBetter_known:
  assumes "known_ok mem b done openStates best" and "c \<in> set done \<union> combination ` set openStates"
  shows "keepBetter (makeState mem b c) best = best"
  using assms by (auto simp: known_ok_def keepBetter_def)

lemma searchStep_ok:
  assumes inv: "search_ok mem b (openStates, closed, best)" and "openStates \<noteq> []"
    and step: "searchStep mem b (openStates, closed, best) = (openStates', closed', best')"
  shows "search_ok mem b (openStates', closed', best') \<and> length closed' = Suc (length closed)"
proof -
  obtain cur rest where sorted: "stable_sort hasBetterSearchMerit openStates = cur # rest"
    using assms(2) by (metis list.exhaust stable_sort_eq_Nil)
  let ?c0 = "combination cur"
  have sets: "set (cur # rest) = set openStates"
    using set_stable_sort [of hasBetterSearchMerit openStates] sorted by simp
  have ok: "known_ok mem b closed (cur # rest) best"
  proof (rule known_ok_reorder)
    show "known_ok mem b closed openStates best" using inv by (simp add: search_ok_def)
    show "set (cur # rest) = set openStates" by (rule sets)
    show "distinct (map (set \<circ> combination) (cur # rest)) =
          distinct (map (set \<circ> combination) openStates)"
      unfolding sorted [symmetric] by (rule distinct_map_stable_sort)
  qed
  have cur: "cur = makeState mem b ?c0" using ok by (simp add: known_ok_def)
  have "keepBetter (makeState mem b ?c0) best = best" by (rule keepBetter_known [OF ok]) simp
  with cur have kb: "keepBetter cur best = best" by simp
  obtain o1 b1 where f: "fold (considerLoad mem b closed cur) (automaticLoads b) (rest, best) = (o1, b1)"
    by (cases "fold (considerLoad mem b closed cur) (automaticLoads b) (rest, best)")
  with step sorted kb have eqs: "openStates' = o1" "best' = b1" "closed' = closed @ [?c0]"
    by (simp_all add: searchStep_def)
  note fold = fold_considerLoad [OF known_ok_take [OF ok] refl subset_refl f]
  have mono: "set (closed @ map combination openStates) \<subseteq> set (closed' @ map combination o1)"
    using fold sets [symmetric] by (auto simp: eqs)
  have "search_ok mem b (openStates', closed', best')"
    unfolding search_ok_def prod.case
  proof (intro conjI)
    show "known_ok mem b closed' openStates' best'"
      using fold by (simp add: eqs flip: known_ok_close)
    show "[] \<in> set (closed' @ map combination openStates')"
      using inv mono by (auto simp: search_ok_def eqs(1))
    show "\<forall>c \<in> set closed'. \<forall>p \<in> set (automaticLoads b).
            expanded mem b (closed' @ map combination openStates') c p"
    proof (intro ballI)
      fix c p assume c: "c \<in> set closed'" and p: "p \<in> set (automaticLoads b)"
      show "expanded mem b (closed' @ map combination openStates') c p"
      proof (cases "c \<in> set closed")
        case True
        with inv p have "expanded mem b (closed @ map combination openStates) c p"
          by (simp add: search_ok_def)
        then show ?thesis unfolding eqs(1) by (rule expanded_mono) (rule mono)
      next
        case False
        with c have "c = ?c0" by (simp add: eqs)
        with fold p have "expanded mem b (?c0 # closed @ map combination o1) c p" by blast
        then show ?thesis by (rule expanded_mono) (auto simp: eqs)
      qed
    qed
  qed
  then show ?thesis by (simp add: eqs)
qed

lemma closed_bound:
  assumes "search_ok mem b (openStates, closed, best)"
  shows "length closed + length openStates \<le> 2 ^ card (candidates mem (automaticLoads b))"
proof -
  let ?known = "closed @ map combination openStates"
  let ?A = "candidates mem (automaticLoads b)"
  have fin: "finite ?A" by (rule finite_subset [of _ "set (automaticLoads b)"]) (auto simp: candidates_iff)
  from assms have d: "distinct (map set ?known)" and sub: "set ` set ?known \<subseteq> Pow ?A"
    by (auto simp: search_ok_def known_ok_def good_combination_def)
  have "length ?known = card (set (map set ?known))" using distinct_card [OF d] by simp
  also have "\<dots> \<le> card (Pow ?A)" by (rule card_mono) (use fin sub in auto)
  finally show ?thesis using fin by (simp add: card_Pow)
qed

lemma budget_ok:
  "fisfinite a \<Longrightarrow> \<not> flt a fzero \<Longrightarrow> fle fzero a"
  by (subst (asm) not_flt_iff) auto

lemma start_ok:
  assumes "fisfinite (availablePowerWatts b)" and "\<not> flt (availablePowerWatts b) fzero"
  shows "search_ok mem b ([startState mem], [], startState mem)"
proof -
  have "good_combination mem b []"
    using budget_ok [OF assms]
    by (simp add: good_combination_def isWithinAvailablePower_def calculateTotalPowerWatts_def)
  then show ?thesis
    unfolding startState_makeState [of mem b]
    by (simp add: search_ok_def known_ok_def isBetterReturnedCombination_def)
qed

lemma search_reaches_ok:
  assumes "fisfinite (availablePowerWatts b)" and "\<not> flt (availablePowerWatts b) fzero"
  shows "search_ok mem b ((searchStep mem b ^^ k) ([startState mem], [], startState mem))"
proof (induction k)
  case 0
  show ?case using start_ok [OF assms] by simp
next
  case (Suc k)
  obtain openStates closed best
    where st: "(searchStep mem b ^^ k) ([startState mem], [], startState mem) = (openStates, closed, best)"
    by (cases "(searchStep mem b ^^ k) ([startState mem], [], startState mem)")
  obtain o' c' b' where s: "searchStep mem b (openStates, closed, best) = (o', c', b')"
    by (cases "searchStep mem b (openStates, closed, best)")
  show ?case
  proof (cases "openStates = []")
    case True
    with Suc.IH st show ?thesis by (simp add: searchStep_def)
  next
    case False
    with Suc.IH searchStep_ok [OF _ False s] show ?thesis by (simp add: st s)
  qed
qed

text \<open>The loop ends, in a state that satisfies the invariant.\<close>

lemma search_ends:
  assumes "fisfinite (availablePowerWatts b)" and "\<not> flt (availablePowerWatts b) fzero"
  shows "\<exists>closed best.
    while_option (\<lambda>(openStates, _, _). openStates \<noteq> []) (searchStep mem b)
      ([startState mem], [], startState mem) = Some ([], closed, best) \<and>
    search_ok mem b ([], closed, best)"
proof -
  let ?test = "\<lambda>(openStates, _, _). openStates \<noteq> []"
  let ?start = "([startState mem], [], startState mem)"
  let ?N = "2 ^ card (candidates mem (automaticLoads b))"
  let ?m = "\<lambda>(_, closed, _). ?N - length closed"
  have keep: "search_ok mem b (searchStep mem b st) \<and> ?m (searchStep mem b st) < ?m st"
    if inv: "search_ok mem b st" and t: "?test st" for st
  proof -
    obtain openStates closed best where st: "st = (openStates, closed, best)" by (cases st)
    obtain o' c' b' where s: "searchStep mem b st = (o', c', b')" by (cases "searchStep mem b st")
    from inv t st searchStep_ok [of mem b openStates closed best o' c' b'] s
    have "search_ok mem b (o', c', b')" "length c' = Suc (length closed)" by simp_all
    moreover have "length closed < ?N"
      using closed_bound inv t unfolding st by (cases openStates) fastforce+
    ultimately show ?thesis unfolding s by (simp add: st)
  qed
  have start: "search_ok mem b ?start" by (rule start_ok [OF assms])
  obtain st where w: "while_option ?test (searchStep mem b) ?start = Some st"
    using measure_while_option_Some [of "search_ok mem b" ?test "searchStep mem b" ?m ?start]
      keep start by blast
  have "\<not> ?test st" by (rule while_option_stop [OF w])
  moreover have "search_ok mem b st"
    by (rule while_option_rule [where P = "search_ok mem b", OF _ w start]) (use keep in blast)
  ultimately show ?thesis using w by (cases st) auto
qed

lemma runSearch_result:
  assumes "fisfinite (availablePowerWatts b)" and "\<not> flt (availablePowerWatts b) fzero"
  shows "\<exists>closed best. runSearch mem b = Some (b\<lparr>bestCombination := combination best\<rparr>) \<and>
           search_ok mem b ([], closed, best)"
proof -
  obtain closed best where w: "while_option (\<lambda>(openStates, _, _). openStates \<noteq> []) (searchStep mem b)
      ([startState mem], [], startState mem) = Some ([], closed, best)"
    and ok: "search_ok mem b ([], closed, best)"
    using search_ends [OF assms, of mem] by blast
  have "runSearch mem b = Some (b\<lparr>bestCombination := combination best\<rparr>)"
    unfolding runSearch_def w using assms by simp
  with ok show ?thesis by blast
qed

section \<open>What the search returns\<close>

text \<open>
  Every feasible combination whose parts are feasible too, whatever the order they are
  added up in, has been closed when the search ends.
\<close>

definition order_free ::
  "('p \<Rightarrow> Load option) \<Rightarrow> 'p BestFirstSearch \<Rightarrow> bool" where
  "order_free mem b \<longleftrightarrow>
     (\<forall>xs ys. distinct xs \<and> set xs \<subseteq> set ys \<and> good_combination mem b ys
        \<longrightarrow> isWithinAvailablePower mem b xs)"

lemma good_butlast:
  "order_free mem b \<Longrightarrow> good_combination mem b (xs @ [p]) \<Longrightarrow> good_combination mem b xs"
proof -
  assume free: "order_free mem b" and good: "good_combination mem b (xs @ [p])"
  then have "distinct xs" and "set xs \<subseteq> set (xs @ [p])"
    by (auto simp: good_combination_def)
  with free good have "isWithinAvailablePower mem b xs" unfolding order_free_def by blast
  with good show ?thesis by (simp add: good_combination_def)
qed

lemma search_complete:
  assumes inv: "search_ok mem b ([], closed, best)" and free: "order_free mem b"
  shows "good_combination mem b xs \<Longrightarrow> \<exists>c \<in> set closed. set c = set xs"
proof (induction xs rule: rev_induct)
  case Nil
  from inv have "[] \<in> set closed" by (simp add: search_ok_def)
  then show ?case by force
next
  case (snoc p xs)
  obtain c where c: "c \<in> set closed" "set c = set xs"
    using snoc.IH good_butlast [OF free snoc.prems] by blast
  from inv c(1) have gc: "good_combination mem b c"
    by (auto simp: search_ok_def known_ok_def)
  from snoc.prems have p: "p \<in> candidates mem (automaticLoads b)" "p \<notin> set c"
    by (auto simp: good_combination_def c(2))
  with gc have "distinct (c @ [p])" by (simp add: good_combination_def)
  moreover have "set (c @ [p]) \<subseteq> set (xs @ [p])" by (simp add: c(2))
  ultimately have "isWithinAvailablePower mem b (c @ [p])"
    using free snoc.prems unfolding order_free_def by blast
  moreover have "expanded mem b closed c p"
    using inv c(1) p(1) by (simp add: search_ok_def candidates_iff)
  ultimately show ?case using p by (simp add: expanded_def c(2))
qed

text \<open>Sums over a combination depend on its set only: exactly for the integer priorities, \<close>

lemma foldl_add_sum:
  fixes f :: "'p \<Rightarrow> 'a::comm_monoid_add"
  shows "distinct xs \<Longrightarrow> foldl (\<lambda>t p. t + f p) a xs = a + sum f (set xs)"
  by (induction xs arbitrary: a) (auto simp: algebra_simps)

lemma configuredPriority_sum:
  "distinct xs \<Longrightarrow> calculateTotalConfiguredPriority mem xs =
     (\<Sum>p \<in> set xs. case mem p of None \<Rightarrow> 0 | Some l \<Rightarrow> ucast (load_priority l))"
proof -
  assume d: "distinct xs"
  have "calculateTotalConfiguredPriority mem xs =
    foldl (\<lambda>t p. t + (case mem p of None \<Rightarrow> 0 | Some l \<Rightarrow> ucast (load_priority l))) 0 xs"
    unfolding calculateTotalConfiguredPriority_def
    by (rule arg_cong2 [where f = "\<lambda>f a. foldl f a xs"]) (auto simp: fun_eq_iff split: option.splits)
  with d show ?thesis by (simp add: foldl_add_sum)
qed

lemma effectivePriority_sum:
  "distinct xs \<Longrightarrow> calculateTotalEffectivePriority mem clock xs =
     (\<Sum>p \<in> set xs. case mem p of None \<Rightarrow> 0 | Some l \<Rightarrow> loadEffectivePriority clock l)"
proof -
  assume d: "distinct xs"
  have "calculateTotalEffectivePriority mem clock xs =
    foldl (\<lambda>t p. t + (case mem p of None \<Rightarrow> 0 | Some l \<Rightarrow> loadEffectivePriority clock l)) 0 xs"
    unfolding calculateTotalEffectivePriority_def
    by (rule arg_cong2 [where f = "\<lambda>f a. foldl f a xs"]) (auto simp: fun_eq_iff split: option.splits)
  with d show ?thesis by (simp add: foldl_add_sum)
qed

text \<open>and for ratings in whole watts whose sum stays below $2^{24}$.\<close>

definition whole_watts :: "('p \<Rightarrow> Load option) \<Rightarrow> 'p set \<Rightarrow> ('p \<Rightarrow> nat) \<Rightarrow> bool" where
  "whole_watts mem A w \<longleftrightarrow>
     (\<forall>p \<in> A. \<exists>l. mem p = Some l \<and> load_power l = watts (w p)) \<and> sum w A < 2 ^ 24"

lemma foldl_watts:
  assumes "\<forall>p \<in> set xs. \<exists>l. mem p = Some l \<and> load_power l = watts (w p)"
    and "n + sum_list (map w xs) < 2 ^ 24"
  shows "foldl (\<lambda>t p. case mem p of None \<Rightarrow> t | Some l \<Rightarrow> fadd t (load_power l)) (watts n) xs =
         watts (n + sum_list (map w xs))"
  using assms
proof (induction xs arbitrary: n)
  case (Cons p xs)
  then obtain l where "mem p = Some l" "load_power l = watts (w p)" by auto
  moreover from Cons.prems have "n + w p < 2 ^ 24" by simp
  ultimately show ?case using Cons.IH [of "n + w p"] Cons.prems
    by (simp add: fadd_watts add.assoc)
qed simp

lemma totalPower_watts:
  assumes w: "whole_watts mem A w" and "finite A" and xs: "distinct xs" "set xs \<subseteq> A"
  shows "calculateTotalPowerWatts mem xs = watts (sum w (set xs))"
proof -
  have "sum w (set xs) \<le> sum w A" by (rule sum_mono2) (use assms in auto)
  with w have lt: "sum w (set xs) < 2 ^ 24" by (simp add: whole_watts_def)
  have eq: "sum_list (map w xs) = sum w (set xs)" by (rule sum_list_distinct_conv_sum_set [OF xs(1)])
  have "\<forall>p \<in> set xs. \<exists>l. mem p = Some l \<and> load_power l = watts (w p)"
    using w xs(2) by (auto simp: whole_watts_def)
  from foldl_watts [of xs mem w 0, OF this] lt show ?thesis
    unfolding calculateTotalPowerWatts_def watts_0 eq by simp
qed

lemma finite_candidates [simp]: "finite (candidates mem ps)"
  by (rule finite_subset [of _ "set ps"]) (auto simp: candidates_iff)

lemma whole_watts_order_free:
  assumes w: "whole_watts mem (candidates mem (automaticLoads b)) w"
  shows "order_free mem b"
  unfolding order_free_def
proof (intro allI impI)
  fix xs ys assume a: "distinct xs \<and> set xs \<subseteq> set ys \<and> good_combination mem b ys"
  then have ys: "distinct ys" "set ys \<subseteq> candidates mem (automaticLoads b)"
    and "isWithinAvailablePower mem b ys"
    by (auto simp: good_combination_def)
  then have le: "fle (watts (sum w (set ys))) (availablePowerWatts b)"
    by (simp add: isWithinAvailablePower_def Let_def totalPower_watts [OF w])
  have "sum w (set xs) \<le> sum w (set ys)" by (rule sum_mono2) (use a in auto)
  then have "fle (watts (sum w (set xs))) (watts (sum w (set ys)))" by simp
  from fle_trans [OF this le] have "fle (watts (sum w (set xs))) (availablePowerWatts b)" .
  moreover have "set xs \<subseteq> candidates mem (automaticLoads b)" using a ys by blast
  ultimately show "isWithinAvailablePower mem b xs"
    using a by (simp add: isWithinAvailablePower_def Let_def totalPower_watts [OF w])
qed

lemma rank_same_set:
  assumes w: "whole_watts mem (candidates mem (automaticLoads b)) w"
    and "good_combination mem b c" and "good_combination mem b xs" and "set c = set xs"
  shows "returned_rank (makeState mem b c) = returned_rank (makeState mem b xs)"
proof -
  from assms(2-4) have d: "distinct c" "distinct xs" "set xs \<subseteq> candidates mem (automaticLoads b)"
    by (auto simp: good_combination_def)
  moreover from d assms(4) have "length c = length xs" by (metis distinct_card)
  ultimately show ?thesis
    by (simp add: returned_rank_def effectivePriority_sum configuredPriority_sum
        totalPower_watts [OF w] assms(4))
qed

text \<open>The two comparisons of the search meet what the standard library asks of them.\<close>

interpretation merit: strict_weak_order hasBetterSearchMerit
  "{s. totalPowerWatts s \<noteq> NaN \<and> state_f s \<noteq> NaN}"
  by unfold_locales (auto simp: better_merit_iff)

interpretation returned: strict_weak_order isBetterReturnedCombination
  "{s. totalPowerWatts s \<noteq> NaN}"
  by unfold_locales (auto simp: better_returned_iff)

lemma total_nonneg:
  "\<forall>p \<in> set xs. \<forall>l. mem p = Some l \<longrightarrow> fle fzero (load_power l) \<Longrightarrow> fle fzero a \<Longrightarrow>
   fle fzero (foldl (\<lambda>t p. case mem p of None \<Rightarrow> t | Some l \<Rightarrow> fadd t (load_power l)) a xs)"
  by (induction xs arbitrary: a) (auto simp: fadd_nonneg split: option.splits)

lemma fnat_pos: "flt fzero (fnat (Suc n))"
proof -
  have "round_ratio (1 * 2 ^ 149 * 1) 1 = 1 * 2 ^ 149" by (rule round_ratio_exact) simp_all
  then have "one_units = round_ratio (1 * one_units) 1" by (simp add: one_units_def)
  also have "\<dots> \<le> round_ratio (Suc n * one_units) 1"
    by (rule round_ratio_mono) auto
  finally have "0 < round_ratio (Suc n * one_units) 1" using one_units_pos by linarith
  then show ?thesis by (simp add: fnat_def flit_def make_f32_def flt_def)
qed

lemma fdiv_fnat_not_NaN: "fisfinite x \<Longrightarrow> flt fzero y \<Longrightarrow> fdiv x y \<noteq> NaN"
  by (cases x; cases y) (auto simp: make_f32_def flt_def split: if_splits)

lemma state_f_not_NaN:
  assumes good: "good_combination mem b c"
    and nonneg: "\<forall>p \<in> set (automaticLoads b). \<forall>l. mem p = Some l \<longrightarrow> fle fzero (load_power l)"
  shows "state_f (makeState mem b c) \<noteq> NaN"
proof -
  have sub: "set c \<subseteq> set (automaticLoads b)"
    using good by (auto simp: good_combination_def candidates_iff)
  have g: "fle fzero (calculateG c)"
    by (cases "length c") (auto simp: calculateG_def fnat_pos flt_imp_fle, simp add: fnat_def flit_def make_f32_def)
  have h: "fle fzero (calculateH mem c)"
  proof (cases "c = []")
    case False
    then obtain n where n: "length c = Suc n" by (cases c) auto
    let ?t = "calculateTotalPowerWatts mem c"
    have "fisfinite ?t" using good by (simp add: good_combination_def isWithinAvailablePower_def Let_def)
    moreover have "fle fzero ?t"
      unfolding calculateTotalPowerWatts_def by (rule total_nonneg) (use nonneg sub in auto)
    ultimately have "fle fzero (fdiv ?t (fnat (Suc n)))"
      by (intro fdiv_nonneg fdiv_fnat_not_NaN fnat_pos)
    with False n show ?thesis by (simp add: calculateH_def calculateTotalPowerWatts_def)
  qed (simp add: calculateH_def)
  from fadd_nonneg [OF g h] show ?thesis
    by (simp add: makeState_def calculateF_def fle_not_NaN)
qed

section \<open>The properties of the search\<close>

text \<open>What the constructor computes, in one place: it returns, and its answer is feasible.\<close>

lemma new_search_sound:
  "\<exists>b. new_BestFirstSearch mem avail loads clock = Some b \<and>
     distinct (bestCombination b) \<and> set (bestCombination b) \<subseteq> candidates mem loads \<and>
     (bestCombination b = [] \<or>
      fle fzero avail \<and> fle (calculateTotalPowerWatts mem (bestCombination b)) avail)"
proof -
  let ?b = "\<lparr>availablePowerWatts = avail, currentTimeProvider = clock, automaticLoads = loads,
             bestCombination = []\<rparr>"
  show ?thesis
  proof (cases "\<not> fisfinite avail \<or> flt avail fzero")
    case True
    then show ?thesis by (auto simp: new_BestFirstSearch_def runSearch_def)
  next
    case False
    then obtain closed best where r: "runSearch mem ?b = Some (?b\<lparr>bestCombination := combination best\<rparr>)"
      and ok: "search_ok mem ?b ([], closed, best)"
      using runSearch_result [of ?b mem] by auto
    from ok have "good_combination mem ?b (combination best)"
      by (auto simp: search_ok_def known_ok_def)
    then show ?thesis using False budget_ok r
      by (auto simp: new_BestFirstSearch_def good_combination_def isWithinAvailablePower_def Let_def)
  qed
qed

text \<open>
  C1: The search always ends: whatever the Loads, the budget and the clock are, the
  \<open>while\<close> loop of \<open>runSearch\<close> runs out of open states.
\<close>

theorem runSearch_returns: "\<exists>b'. runSearch mem b = Some b'"
proof (cases "\<not> fisfinite (availablePowerWatts b) \<or> flt (availablePowerWatts b) fzero")
  case True then show ?thesis by (simp add: runSearch_def)
next
  case False then show ?thesis using runSearch_result [of b mem] by blast
qed

text \<open>
  C2: What the search returns can be switched on: no Load twice, only Auto Loads of the
  list it was given, and a combined rating, added up in \<open>float\<close> in the order of the
  combination, that does not exceed the available power. With a budget that is NaN,
  infinite or negative nothing is returned. This holds for every float rating.
\<close>

theorem search_result_within_budget:
  assumes "new_BestFirstSearch mem avail loads clock = Some b"
  shows "distinct (bestCombination b) \<and>
         set (bestCombination b) \<subseteq> candidates mem loads \<and>
         (bestCombination b = [] \<or>
          fle fzero avail \<and> fle (calculateTotalPowerWatts mem (bestCombination b)) avail)"
  using new_search_sound [of mem avail loads clock] assms by auto

text \<open>
  C3: The search is optimal. When the candidates' ratings are whole watts that add up to less
  than $2^{24}$ W (so that no sum is rounded), no combination of different candidates that
  fits the available power is better than the one returned: it has no higher total
  effective priority, and with the same one no higher total configured priority, and with
  the same again not more Loads, and with the same number not less power.
\<close>

theorem search_result_optimal:
  assumes run: "new_BestFirstSearch mem avail loads clock = Some b"
    and w: "whole_watts mem (candidates mem loads) w"
    and avail: "fisfinite avail" "\<not> flt avail fzero"
    and xs: "distinct xs" "set xs \<subseteq> candidates mem loads" "isWithinAvailablePower mem b xs"
  shows "\<not> isBetterReturnedCombination (makeState mem b xs) (makeState mem b (bestCombination b))"
proof -
  let ?b = "\<lparr>availablePowerWatts = avail, currentTimeProvider = clock, automaticLoads = loads,
             bestCombination = []\<rparr>"
  obtain closed best where r: "runSearch mem ?b = Some (?b\<lparr>bestCombination := combination best\<rparr>)"
    and ok: "search_ok mem ?b ([], closed, best)"
    using runSearch_result [of ?b mem] avail by auto
  from run r have b: "b = ?b\<lparr>bestCombination := combination best\<rparr>"
    by (simp add: new_BestFirstSearch_def)
  have good: "good_combination mem ?b xs"
    using xs by (simp add: good_combination_def isWithinAvailablePower_def b)
  have w': "whole_watts mem (candidates mem (automaticLoads ?b)) w" using w by simp
  obtain c where c: "c \<in> set closed" "set c = set xs"
    using search_complete [OF ok whole_watts_order_free [OF w'] good] by blast
  from ok have known: "known_ok mem ?b closed [] best" by (simp add: search_ok_def)
  then have gc: "good_combination mem ?b c" and gb: "good_combination mem ?b (combination best)"
    and best: "best = makeState mem ?b (combination best)"
    and "\<not> isBetterReturnedCombination (makeState mem ?b c) best"
    using c(1) by (auto simp: known_ok_def)
  then have "\<not> isBetterReturnedCombination (makeState mem ?b c) (makeState mem ?b (combination best))"
    by simp
  then have "\<not> isBetterReturnedCombination (makeState mem ?b xs) (makeState mem ?b (combination best))"
    using rank_same_set [OF w' gc good c(2)] good_not_NaN [OF good] good_not_NaN [OF gc]
      good_not_NaN [OF gb]
    by (simp add: better_returned_iff)
  then show ?thesis by (simp add: b makeState_def)
qed

text \<open>Three Auto Loads, of 600 W, 500 W and 400 W; the pointers are the numbers 0, 1 and 2.\<close>

definition example_mem :: "nat \<Rightarrow> Load option" where
  "example_mem p =
     (if p < 3 then
        Some (new_Load \<lparr>id_mac = zero_mac, id_pin = of_nat p\<rparr> ''L''
          (watts ([600, 500, 400] ! p)) ([8, 6, 5] ! p) AC AUTO_OFF)
      else None)"

definition example_clock :: LocalClock where
  "example_clock = \<lparr>currentLocalHour = None, currentLocalMinute = None\<rparr>"

lemma example_mem_simps:
  "example_mem 0 = Some (new_Load \<lparr>id_mac = zero_mac, id_pin = 0\<rparr> ''L'' (watts 600) 8 AC AUTO_OFF)"
  "example_mem (Suc 0) = Some (new_Load \<lparr>id_mac = zero_mac, id_pin = 1\<rparr> ''L'' (watts 500) 6 AC AUTO_OFF)"
  "example_mem 2 = Some (new_Load \<lparr>id_mac = zero_mac, id_pin = 2\<rparr> ''L'' (watts 400) 5 AC AUTO_OFF)"
  by (simp_all add: example_mem_def)

lemma example_candidates: "candidates example_mem [0, 1, 2] = {0, 1, 2}"
  by (auto simp: candidates_iff example_mem_def isAuto_def less_Suc_eq numeral_nat)

lemma example_power:
  "p < 3 \<Longrightarrow> \<exists>l. example_mem p = Some l \<and> load_power l = watts ([600, 500, 400] ! p)"
proof -
  assume "p < 3"
  then consider "p = 0" | "p = Suc 0" | "p = 2" by arith
  moreover have "load_power (new_Load i nm (watts n) prio ty m) = watts n" for i nm n prio ty m
    by (simp add: new_Load_def setPowerRatingWatts_def)
  ultimately show ?thesis by cases (simp_all add: example_mem_simps)
qed

lemma example_whole_watts: "whole_watts example_mem {0, 1, 2} (\<lambda>p. [600, 500, 400] ! p)"
  using example_power [of 0] example_power [of 1] example_power [of 2]
  by (simp add: whole_watts_def)

lemma search_exists:
  "fisfinite avail \<Longrightarrow> \<not> flt avail fzero \<Longrightarrow> \<exists>b. new_BestFirstSearch mem avail loads clock = Some b \<and>
     availablePowerWatts b = avail"
  using runSearch_result
    [of "\<lparr>availablePowerWatts = avail, currentTimeProvider = clock, automaticLoads = loads,
         bestCombination = []\<rparr>" mem]
  by (auto simp: new_BestFirstSearch_def)

lemma example_budget: "fisfinite (watts n)" "\<not> flt (watts n) fzero"
  by simp_all

theorem search_result_within_budget_witness:
  "\<exists>b. new_BestFirstSearch example_mem (watts 1000) [0, 1, 2] example_clock = Some b \<and>
       distinct (bestCombination b) \<and> set (bestCombination b) \<subseteq> {0, 1, 2} \<and>
       (bestCombination b = [] \<or>
        fle fzero (watts 1000) \<and>
        fle (calculateTotalPowerWatts example_mem (bestCombination b)) (watts 1000))"
proof -
  obtain b where b: "new_BestFirstSearch example_mem (watts 1000) [0, 1, 2] example_clock = Some b"
    using search_exists [OF example_budget] by blast
  from search_result_within_budget [OF b] b show ?thesis unfolding example_candidates by blast
qed

theorem search_result_optimal_witness:
  "\<exists>b. new_BestFirstSearch example_mem (watts 1000) [0, 1, 2] example_clock = Some b \<and>
       \<not> isBetterReturnedCombination (makeState example_mem b [0, 2])
           (makeState example_mem b (bestCombination b))"
proof -
  obtain b where b: "new_BestFirstSearch example_mem (watts 1000) [0, 1, 2] example_clock = Some b"
    and avail: "availablePowerWatts b = watts 1000"
    using search_exists [OF example_budget] by blast
  have w: "whole_watts example_mem (candidates example_mem [0, 1, 2]) (\<lambda>p. [600, 500, 400] ! p)"
    by (simp only: example_candidates example_whole_watts)
  have "calculateTotalPowerWatts example_mem [0, 2] = watts 1000"
    using totalPower_watts [OF example_whole_watts, of "[0, 2]"] by simp
  then have "isWithinAvailablePower example_mem b [0, 2]"
    by (simp add: isWithinAvailablePower_def avail) (simp add: watts_def)
  moreover have "set [0, 2] \<subseteq> candidates example_mem [0, 1, 2]"
    unfolding example_candidates by simp
  ultimately show ?thesis
    using search_result_optimal [OF b w example_budget, of "[0, 2]"] b by auto
qed

text \<open>
  The search is best-first: whenever the loop, after any number of turns, still has open
  states, the state it expands next is one of them and none of them has better search
  merit. The ratings are only asked not to be negative.
\<close>

theorem search_expands_best_merit:
  assumes avail: "fisfinite (availablePowerWatts b)" "\<not> flt (availablePowerWatts b) fzero"
    and nonneg: "\<forall>p \<in> set (automaticLoads b). \<forall>l. mem p = Some l \<longrightarrow> fle fzero (load_power l)"
    and st: "(searchStep mem b ^^ k) ([startState mem], [], startState mem) = (openStates, closed, best)"
    and sorted: "stable_sort hasBetterSearchMerit openStates = current # rest"
  shows "current \<in> set openStates \<and> (\<forall>s \<in> set openStates. \<not> hasBetterSearchMerit s current)"
proof
  have inv: "search_ok mem b (openStates, closed, best)"
    using search_reaches_ok [OF avail, of mem k] unfolding st .
  show "current \<in> set openStates"
    using set_stable_sort [of hasBetterSearchMerit openStates] sorted by auto
  have "s \<in> {s. totalPowerWatts s \<noteq> NaN \<and> state_f s \<noteq> NaN}" if "s \<in> set openStates" for s
  proof -
    from inv that have s: "s = makeState mem b (combination s)"
      and good: "good_combination mem b (combination s)"
      by (auto simp: search_ok_def known_ok_def)
    from state_f_not_NaN [OF good nonneg] good_not_NaN [OF good]
    have "state_f (makeState mem b (combination s)) \<noteq> NaN \<and>
          totalPowerWatts (makeState mem b (combination s)) \<noteq> NaN" by simp
    then show ?thesis by (simp only: flip: s) simp
  qed
  then have "set openStates \<subseteq> {s. totalPowerWatts s \<noteq> NaN \<and> state_f s \<noteq> NaN}" by blast
  then show "\<forall>s \<in> set openStates. \<not> hasBetterSearchMerit s current"
    using merit.front_of_stable_sort sorted by blast
qed

theorem search_expands_best_merit_witness:
  "stable_sort hasBetterSearchMerit [startState example_mem] = [startState example_mem] \<and>
   \<not> hasBetterSearchMerit (startState example_mem) (startState example_mem)"
proof -
  let ?b = "\<lparr>availablePowerWatts = watts 1000, currentTimeProvider = example_clock,
             automaticLoads = [0, 1, 2], bestCombination = []\<rparr>"
  have "\<forall>p \<in> set (automaticLoads ?b). \<forall>l. example_mem p = Some l \<longrightarrow> fle fzero (load_power l)"
    using example_power by (fastforce simp: watts_0)
  from search_expands_best_merit [of ?b example_mem 0, OF _ _ this] example_budget show ?thesis
    by simp
qed

end
