(* ===== verification/Persistence.thy ===== *)
theory Persistence
  imports Float32
begin

text \<open>
  What the stores of the firmware need to keep their state across a reboot: the operations
  of the platform's non-volatile storage (NVS), which is not part of the repository and is
  therefore a parameter; the bytes of packed C structures; and the division of a blob into
  records of one size.

  A value of type \<open>'n NvsApi\<close> is the NVS interface over a storage state \<open>'n\<close> (one opened
  namespace). Reading returns \<open>None\<close> for any result other than \<open>ESP_OK\<close>; writing returns
  whether it succeeded and the state it leaves, which after a failure may be anything.
  \<open>nvs_not_found\<close> says that reading or erasing the key gives \<open>ESP_ERR_NVS_NOT_FOUND\<close>.
\<close>

section \<open>Non-volatile storage\<close>

record 'n NvsApi =
  nvs_open_readonly :: "'n \<Rightarrow> bool"
  nvs_open_readwrite :: "'n \<Rightarrow> bool"
  nvs_get_u8 :: "'n \<Rightarrow> string \<Rightarrow> u8 option"
  nvs_get_u32 :: "'n \<Rightarrow> string \<Rightarrow> u32 option"
  nvs_get_str :: "'n \<Rightarrow> string \<Rightarrow> string option"
  nvs_get_blob :: "'n \<Rightarrow> string \<Rightarrow> u8 list option"
  nvs_not_found :: "'n \<Rightarrow> string \<Rightarrow> bool"
  nvs_set_u8 :: "string \<Rightarrow> u8 \<Rightarrow> 'n \<Rightarrow> bool \<times> 'n"
  nvs_set_u32 :: "string \<Rightarrow> u32 \<Rightarrow> 'n \<Rightarrow> bool \<times> 'n"
  nvs_set_str :: "string \<Rightarrow> string \<Rightarrow> 'n \<Rightarrow> bool \<times> 'n"
  nvs_set_blob :: "string \<Rightarrow> u8 list \<Rightarrow> 'n \<Rightarrow> bool \<times> 'n"
  nvs_erase_key :: "string \<Rightarrow> 'n \<Rightarrow> bool \<times> 'n"
  nvs_commit :: "'n \<Rightarrow> bool \<times> 'n"

text \<open>\<open>if (result == ESP_OK) result = next(...)\<close>\<close>

fun nvs_then :: "bool \<times> 'n \<Rightarrow> ('n \<Rightarrow> bool \<times> 'n) \<Rightarrow> bool \<times> 'n" where
  "nvs_then (ok, n) f = (if ok then f n else (False, n))"

definition nvs_same_but :: "'n NvsApi \<Rightarrow> string \<Rightarrow> 'n \<Rightarrow> 'n \<Rightarrow> bool" where
  "nvs_same_but api k n n' \<longleftrightarrow>
     (\<forall>k'. k' \<noteq> k \<longrightarrow>
        nvs_get_u8 api n' k' = nvs_get_u8 api n k' \<and>
        nvs_get_u32 api n' k' = nvs_get_u32 api n k' \<and>
        nvs_get_str api n' k' = nvs_get_str api n k' \<and>
        nvs_get_blob api n' k' = nvs_get_blob api n k' \<and>
        nvs_not_found api n' k' = nvs_not_found api n k')"

text \<open>
  The documented behaviour the stores rely on: a write that succeeds is what the next read
  of the key returns, it leaves the other keys alone, the namespace it wrote to can be
  opened for reading, an erased key has no value, a key that is not found has none and
  erasing it changes nothing, and a commit changes no value.
\<close>

definition nvs_laws :: "'n NvsApi \<Rightarrow> bool" where
  "nvs_laws api \<longleftrightarrow>
     (\<forall>k v n n'. nvs_set_u8 api k v n = (True, n') \<longrightarrow>
        nvs_get_u8 api n' k = Some v \<and> nvs_same_but api k n n' \<and> nvs_open_readonly api n') \<and>
     (\<forall>k v n n'. nvs_set_u32 api k v n = (True, n') \<longrightarrow>
        nvs_get_u32 api n' k = Some v \<and> nvs_same_but api k n n' \<and> nvs_open_readonly api n') \<and>
     (\<forall>k v n n'. nvs_set_str api k v n = (True, n') \<longrightarrow>
        nvs_get_str api n' k = Some v \<and> nvs_same_but api k n n' \<and> nvs_open_readonly api n') \<and>
     (\<forall>k v n n'. nvs_set_blob api k v n = (True, n') \<longrightarrow>
        nvs_get_blob api n' k = Some v \<and> nvs_same_but api k n n' \<and> nvs_open_readonly api n') \<and>
     (\<forall>k n n'. nvs_erase_key api k n = (True, n') \<longrightarrow>
        nvs_not_found api n' k \<and> nvs_same_but api k n n' \<and>
        nvs_open_readonly api n' = nvs_open_readonly api n) \<and>
     (\<forall>k n. nvs_not_found api n k \<longrightarrow>
        nvs_get_blob api n k = None \<and> nvs_erase_key api k n = (False, n)) \<and>
     (\<forall>n n'. nvs_commit api n = (True, n') \<longrightarrow>
        (\<forall>k. nvs_get_u8 api n' k = nvs_get_u8 api n k \<and>
             nvs_get_u32 api n' k = nvs_get_u32 api n k \<and>
             nvs_get_str api n' k = nvs_get_str api n k \<and>
             nvs_get_blob api n' k = nvs_get_blob api n k \<and>
             nvs_not_found api n' k = nvs_not_found api n k) \<and>
        nvs_open_readonly api n' = nvs_open_readonly api n)"

lemma nvs_set_u8D:
  "nvs_laws api \<Longrightarrow> nvs_set_u8 api k v n = (True, n') \<Longrightarrow>
   nvs_get_u8 api n' k = Some v \<and> nvs_same_but api k n n' \<and> nvs_open_readonly api n'"
  by (simp add: nvs_laws_def)

lemma nvs_set_u32D:
  "nvs_laws api \<Longrightarrow> nvs_set_u32 api k v n = (True, n') \<Longrightarrow>
   nvs_get_u32 api n' k = Some v \<and> nvs_same_but api k n n' \<and> nvs_open_readonly api n'"
  by (simp add: nvs_laws_def)

lemma nvs_set_strD:
  "nvs_laws api \<Longrightarrow> nvs_set_str api k v n = (True, n') \<Longrightarrow>
   nvs_get_str api n' k = Some v \<and> nvs_same_but api k n n' \<and> nvs_open_readonly api n'"
  by (simp add: nvs_laws_def)

lemma nvs_set_blobD:
  "nvs_laws api \<Longrightarrow> nvs_set_blob api k v n = (True, n') \<Longrightarrow>
   nvs_get_blob api n' k = Some v \<and> nvs_same_but api k n n' \<and> nvs_open_readonly api n'"
  by (simp add: nvs_laws_def)

lemma nvs_erase_keyD:
  "nvs_laws api \<Longrightarrow> nvs_erase_key api k n = (True, n') \<Longrightarrow>
   nvs_not_found api n' k \<and> nvs_same_but api k n n' \<and>
   nvs_open_readonly api n' = nvs_open_readonly api n"
  by (simp add: nvs_laws_def)

lemma nvs_not_foundD:
  "nvs_laws api \<Longrightarrow> nvs_not_found api n k \<Longrightarrow>
   nvs_get_blob api n k = None \<and> nvs_erase_key api k n = (False, n)"
  by (simp add: nvs_laws_def)

lemma nvs_commitD:
  "nvs_laws api \<Longrightarrow> nvs_commit api n = (True, n') \<Longrightarrow>
   nvs_get_u8 api n' k = nvs_get_u8 api n k \<and> nvs_get_u32 api n' k = nvs_get_u32 api n k \<and>
   nvs_get_str api n' k = nvs_get_str api n k \<and> nvs_get_blob api n' k = nvs_get_blob api n k \<and>
   nvs_not_found api n' k = nvs_not_found api n k \<and>
   nvs_open_readonly api n' = nvs_open_readonly api n"
  by (simp add: nvs_laws_def)

lemma nvs_same_butD:
  "nvs_same_but api k n n' \<Longrightarrow> k' \<noteq> k \<Longrightarrow>
   nvs_get_u8 api n' k' = nvs_get_u8 api n k' \<and> nvs_get_u32 api n' k' = nvs_get_u32 api n k' \<and>
   nvs_get_str api n' k' = nvs_get_str api n k' \<and> nvs_get_blob api n' k' = nvs_get_blob api n k' \<and>
   nvs_not_found api n' k' = nvs_not_found api n k'"
  by (simp add: nvs_same_but_def)

lemma nvs_then_True:
  "nvs_then r f = (True, n) \<longleftrightarrow> (\<exists>m. r = (True, m) \<and> f m = (True, n))"
  by (cases r) auto

text \<open>A storage that keeps the values in memory and never fails: the laws can hold.\<close>

datatype nvs_value = NvsU8 u8 | NvsU32 u32 | NvsStr string | NvsBlob "u8 list"

definition ram_nvs :: "(string \<Rightarrow> nvs_value option) NvsApi" where
  "ram_nvs =
     \<lparr>nvs_open_readonly = (\<lambda>n. True), nvs_open_readwrite = (\<lambda>n. True),
      nvs_get_u8 = (\<lambda>n k. case n k of Some (NvsU8 v) \<Rightarrow> Some v | _ \<Rightarrow> None),
      nvs_get_u32 = (\<lambda>n k. case n k of Some (NvsU32 v) \<Rightarrow> Some v | _ \<Rightarrow> None),
      nvs_get_str = (\<lambda>n k. case n k of Some (NvsStr v) \<Rightarrow> Some v | _ \<Rightarrow> None),
      nvs_get_blob = (\<lambda>n k. case n k of Some (NvsBlob v) \<Rightarrow> Some v | _ \<Rightarrow> None),
      nvs_not_found = (\<lambda>n k. n k = None),
      nvs_set_u8 = (\<lambda>k v n. (True, n(k \<mapsto> NvsU8 v))),
      nvs_set_u32 = (\<lambda>k v n. (True, n(k \<mapsto> NvsU32 v))),
      nvs_set_str = (\<lambda>k v n. (True, n(k \<mapsto> NvsStr v))),
      nvs_set_blob = (\<lambda>k v n. (True, n(k \<mapsto> NvsBlob v))),
      nvs_erase_key = (\<lambda>k n. if n k = None then (False, n) else (True, n(k := None))),
      nvs_commit = (\<lambda>n. (True, n))\<rparr>"

lemma ram_nvs_laws: "nvs_laws ram_nvs"
  by (simp add: nvs_laws_def ram_nvs_def nvs_same_but_def)

section \<open>Bytes of packed structures\<close>

definition byte_of_nat :: "nat \<Rightarrow> u8" where
  "byte_of_nat n = of_nat n"

definition u16_bytes :: "u16 \<Rightarrow> u8 list" where
  "u16_bytes w = [byte_of_nat (unat w mod 256), byte_of_nat (unat w div 256)]"

fun u16_of_bytes :: "u8 list \<Rightarrow> u16" where
  "u16_of_bytes [a, b] = of_nat (unat a + 256 * unat b)"
| "u16_of_bytes _ = 0"

definition u32_bytes :: "u32 \<Rightarrow> u8 list" where
  "u32_bytes w =
     [byte_of_nat (unat w mod 256), byte_of_nat (unat w div 256 mod 256),
      byte_of_nat (unat w div 65536 mod 256), byte_of_nat (unat w div 16777216)]"

fun u32_of_bytes :: "u8 list \<Rightarrow> u32" where
  "u32_of_bytes [a, b, c, d] =
     of_nat (unat a + 256 * unat b + 65536 * unat c + 16777216 * unat d)"
| "u32_of_bytes _ = 0"

fun mac_bytes :: "MacAddress \<Rightarrow> u8 list" where
  "mac_bytes (a, b, c, d, e, f) = [a, b, c, d, e, f]"

fun mac_of_bytes :: "u8 list \<Rightarrow> MacAddress" where
  "mac_of_bytes [a, b, c, d, e, f] = (a, b, c, d, e, f)"
| "mac_of_bytes _ = zero_mac"

definition bool_byte :: "bool \<Rightarrow> u8" where
  "bool_byte b = (if b then 1 else 0)"

text \<open>A \<open>char[size]\<close>: the characters, then NULs up to the size.\<close>

definition char_array :: "nat \<Rightarrow> string \<Rightarrow> u8 list" where
  "char_array n s = take n (map (\<lambda>c. byte_of_nat (of_char c)) s @ replicate n 0)"

definition string_of_bytes :: "u8 list \<Rightarrow> string" where
  "string_of_bytes bs = map (\<lambda>b. char_of (unat b)) bs"

lemma length_byte_encodings [simp]:
  "length (u16_bytes w) = 2" "length (u32_bytes v) = 4" "length (mac_bytes m) = 6"
  "length (char_array n s) = n"
  by (cases m; simp add: u16_bytes_def u32_bytes_def char_array_def)+

lemma mac_of_mac_bytes [simp]: "mac_of_bytes (mac_bytes m) = m"
  by (cases m) simp

lemma unat_byte_of_nat [simp]: "n < 256 \<Longrightarrow> unat (byte_of_nat n) = n"
  by (simp add: byte_of_nat_def unsigned_of_nat take_bit_nat_eq_self)

lemma u16_of_u16_bytes [simp]: "u16_of_bytes (u16_bytes w) = w"
proof -
  have "unat w < 65536" using unsigned_less [of w, where ?'a = nat] by simp
  then have "unat w div 256 < 256" by (simp add: div_less_iff_less_mult)
  then show ?thesis by (simp add: u16_bytes_def)
qed

lemma u32_digits:
  "n mod 256 + 256 * (n div 256 mod 256) + 65536 * (n div 65536 mod 256) + 16777216 * (n div 16777216)
   = (n::nat)"
proof -
  have a: "n = n mod 256 + 256 * (n div 256)" by simp
  have b: "n div 256 = n div 256 mod 256 + 256 * (n div 65536)"
    using mod_mult_div_eq [of "n div 256" 256] by (simp add: div_mult2_eq [of n 256 256, simplified])
  have c: "n div 65536 = n div 65536 mod 256 + 256 * (n div 16777216)"
    using mod_mult_div_eq [of "n div 65536" 256] by (simp add: div_mult2_eq [of n 65536 256, simplified])
  from a b c show ?thesis by linarith
qed

lemma u32_of_u32_bytes [simp]: "u32_of_bytes (u32_bytes w) = w"
proof -
  have "unat w < 4294967296" using unsigned_less [of w, where ?'a = nat] by simp
  then have "unat w div 16777216 < 256" by (simp add: div_less_iff_less_mult)
  then show ?thesis by (simp add: u32_bytes_def u32_digits)
qed

lemma char_of_byte [simp]: "char_of (unat (byte_of_nat (of_char c))) = c"
proof -
  have "of_char c mod 256 < (256::nat)" by (rule mod_less_divisor) simp
  then have "of_char c < (256::nat)" by (simp only: of_char_mod_256)
  then show ?thesis by simp
qed

text \<open>Reading a \<open>char[n]\<close> back as a C string gives the string, if it fits.\<close>

lemma c_text_replicate_nul: "c_text (s @ replicate n (CHR 0x00)) = c_text s"
  by (induction s) (cases n; simp add: c_text_def)+

lemma c_text_char_array:
  assumes "length s \<le> n"
  shows "c_text (string_of_bytes (char_array n s)) = c_text s"
proof -
  have "(char_of (unat (0 :: u8)) :: char) = CHR 0x00" by (simp add: char_of_def)
  then have "string_of_bytes (char_array n s) = s @ replicate (n - length s) (CHR 0x00)"
    using assms by (simp add: string_of_bytes_def char_array_def o_def)
  then show ?thesis by (simp add: c_text_replicate_nul)
qed

section \<open>A blob of records of one size\<close>

definition record_bytes :: "nat \<Rightarrow> u8 list \<Rightarrow> u8 list list" where
  "record_bytes n bs = map (\<lambda>i. take n (drop (i * n) bs)) [0..<length bs div n]"

lemma length_concat_records:
  "(\<And>r. r \<in> set rs \<Longrightarrow> length r = n) \<Longrightarrow> length (concat rs) = length rs * n"
  by (induction rs) auto

lemma record_bytes_concat:
  assumes "0 < n" and "\<And>r. r \<in> set rs \<Longrightarrow> length r = n"
  shows "record_bytes n (concat rs) = rs"
proof (rule nth_equalityI)
  have len: "length (concat rs) div n = length rs"
    using assms length_concat_records [of rs n] by simp
  then show "length (record_bytes n (concat rs)) = length rs" by (simp add: record_bytes_def)
  fix i assume "i < length (record_bytes n (concat rs))"
  then have i: "i < length rs" by (simp add: record_bytes_def len)
  have "take n (drop (i * n) (concat rs)) = rs ! i"
    using assms(2) i
  proof (induction rs arbitrary: i)
    case (Cons r rs)
    then show ?case by (cases i) (auto simp: Cons.prems)
  qed simp
  with i show "record_bytes n (concat rs) ! i = rs ! i" by (simp add: record_bytes_def len)
qed

lemma whole_records: "0 < k \<Longrightarrow> 0 < n \<Longrightarrow> (k * n = 0 \<or> k * n mod n \<noteq> (0::nat)) = False"
  by simp

lemma those_map_Some: "(\<And>x. x \<in> set xs \<Longrightarrow> f x = Some (g x)) \<Longrightarrow> those (map f xs) = Some (map g xs)"
  by (induction xs) auto

section \<open>The bytes of a \<open>float\<close>\<close>

text \<open>Sign, 8 exponent bits, 23 fraction bits; every NaN is written as the quiet one.\<close>

definition sign_bit :: "bool \<Rightarrow> nat" where
  "sign_bit s = (if s then 1 else 0)"

definition pack_bits :: "bool \<Rightarrow> nat \<Rightarrow> nat \<Rightarrow> nat" where
  "pack_bits s e f = sign_bit s * 2 ^ 31 + e * 2 ^ 23 + f"

fun f32_bits :: "f32 \<Rightarrow> nat" where
  "f32_bits NaN = pack_bits False 255 (2 ^ 22)"
| "f32_bits (Infinity s) = pack_bits s 255 0"
| "f32_bits (Finite s n) =
     (if n < 2 ^ 23 then pack_bits s 0 n
      else let k = bit_length n - 24 in pack_bits s (k + 1) (n div 2 ^ k - 2 ^ 23))"

definition f32_of_bits :: "nat \<Rightarrow> f32" where
  "f32_of_bits b =
     (let s = odd (b div 2 ^ 31); e = b div 2 ^ 23 mod 256; f = b mod 2 ^ 23
      in if e = 0 then Finite s f
         else if e = 255 then (if f = 0 then Infinity s else NaN)
         else Finite s ((2 ^ 23 + f) * 2 ^ (e - 1)))"

definition f32_bytes :: "f32 \<Rightarrow> u8 list" where
  "f32_bytes x = u32_bytes (of_nat (f32_bits x))"

definition f32_of_bytes :: "u8 list \<Rightarrow> f32" where
  "f32_of_bytes bs = f32_of_bits (unat (u32_of_bytes bs))"

lemma unpack_bits:
  assumes e: "e < 256" and f: "f < 2 ^ 23"
  shows "odd (pack_bits s e f div 2 ^ 31) = s"
    and "pack_bits s e f div 2 ^ 23 mod 256 = e"
    and "pack_bits s e f mod 2 ^ 23 = f"
    and "pack_bits s e f < 2 ^ 32"
proof -
  have lt: "e * 2 ^ 23 + f < 2 ^ 31" using e f by simp
  then have "pack_bits s e f div 2 ^ 31 = sign_bit s"
    by (simp add: pack_bits_def sign_bit_def div_add1_eq [of _ "e * 2 ^ 23 + f"])
  then show "odd (pack_bits s e f div 2 ^ 31) = s" by (simp add: sign_bit_def)
  have eq: "pack_bits s e f = (sign_bit s * 256 + e) * 2 ^ 23 + f"
    by (simp add: pack_bits_def algebra_simps)
  have "((sign_bit s * 256 + e) * 2 ^ 23 + f) div 2 ^ 23 = sign_bit s * 256 + e" using f by simp
  then show "pack_bits s e f div 2 ^ 23 mod 256 = e" unfolding eq using e by simp
  show "pack_bits s e f mod 2 ^ 23 = f"
    unfolding eq mod_mult_self3 using f by (rule mod_less)
  show "pack_bits s e f < 2 ^ 32" using lt by (simp add: pack_bits_def sign_bit_def)
qed

lemma representable_split:
  assumes n: "representable n" and big: "\<not> n < 2 ^ 23"
  defines "k \<equiv> bit_length n - 24"
  shows "k + 1 < 255 \<and> 2 ^ 23 \<le> n div 2 ^ k \<and> n div 2 ^ k < 2 ^ 24 \<and> n div 2 ^ k * 2 ^ k = n"
proof -
  obtain m j where nm: "n = m * 2 ^ j" and m: "m < 2 ^ 24" and lt: "n < overflow_units"
    using n by (auto simp: representable_form)
  have "n < 2 ^ 277" using lt by (simp only: overflow_units_def)
  then have "bit_length n \<le> 277" by (simp only: bit_length_le_iff)
  moreover have "24 \<le> bit_length n"
    using big bit_length_le_iff [of n 23] by simp
  ultimately have kb: "bit_length n = k + 24" and k: "k + 1 < 255" by (auto simp: k_def)
  have "n < 2 ^ (24 + j)" using m nm by (simp add: power_add)
  then have "k \<le> j" using kb by (simp add: bit_length_le_iff flip: bit_length_le_iff)
  then have "2 ^ k dvd n" unfolding nm by (simp add: le_imp_power_dvd)
  moreover have "2 ^ 23 \<le> n div 2 ^ k"
  proof -
    have "2 ^ (bit_length n - 1) \<le> n" using big by (intro bit_length_lower) simp
    moreover have "bit_length n - 1 = k + 23" using kb by simp
    ultimately have "2 ^ (k + 23) \<le> n" by simp
    then show ?thesis by (simp add: less_eq_div_iff_mult_less_eq power_add mult.commute)
  qed
  moreover have "n div 2 ^ k < 2 ^ 24"
  proof -
    have "n < 2 ^ (k + 24)" using bit_length_upper [of n] kb by simp
    then show ?thesis by (simp add: div_less_iff_less_mult power_add mult.commute)
  qed
  ultimately show ?thesis using k by simp
qed

lemma f32_bits_unpacked:
  assumes "f32_ok x"
  shows "f32_of_bits (f32_bits x) = x \<and> f32_bits x < 2 ^ 32"
proof (cases x)
  case NaN
  have e: "(255::nat) < 256" "(2::nat) ^ 22 < 2 ^ 23" by simp_all
  note u = unpack_bits [OF e, of False]
  show ?thesis unfolding NaN f32_bits.simps f32_of_bits_def u Let_def using u(4) by simp
next
  case (Infinity s)
  have e: "(255::nat) < 256" "(0::nat) < 2 ^ 23" by simp_all
  note u = unpack_bits [OF e, of s]
  show ?thesis unfolding Infinity f32_bits.simps f32_of_bits_def u Let_def using u(4) by simp
next
  case (Finite s n)
  show ?thesis
  proof (cases "n < 2 ^ 23")
    case True
    have e: "(0::nat) < 256" by simp
    note u = unpack_bits [OF e True, of s]
    show ?thesis unfolding Finite f32_bits.simps f32_of_bits_def using True u by simp
  next
    case False
    let ?k = "bit_length n - 24"
    from assms Finite have "representable n" by simp
    note r = representable_split [OF this False]
    have "(2::nat) ^ 24 = 2 ^ 23 + 2 ^ 23" by simp
    with r have e: "?k + 1 < 256" and f: "n div 2 ^ ?k - 2 ^ 23 < 2 ^ 23" by linarith+
    note u = unpack_bits [OF e f, of s]
    have b: "f32_bits x = pack_bits s (?k + 1) (n div 2 ^ ?k - 2 ^ 23)"
      using Finite False by (simp only: f32_bits.simps Let_def if_False)
    have "2 ^ 23 + (n div 2 ^ ?k - 2 ^ 23) = n div 2 ^ ?k" using r by linarith
    then show ?thesis unfolding b f32_of_bits_def u Let_def
      using r u(4) Finite by (simp del: One_nat_def)
  qed
qed

lemma f32_of_f32_bytes [simp]: "f32_ok x \<Longrightarrow> f32_of_bytes (f32_bytes x) = x"
  using f32_bits_unpacked [of x]
  by (simp add: f32_of_bytes_def f32_bytes_def unsigned_of_nat take_bit_nat_eq_self)

lemma length_f32_bytes [simp]: "length (f32_bytes x) = 4"
  by (simp add: f32_bytes_def)

end
