(* ===== verification/Lifecycle.thy ===== *)
theory Lifecycle
  imports Persistence
begin

text \<open>
  The commissioning lifecycle shared by both firmware roles
  (\<open>lib/NodeManager/NodeLifecycle.cpp\<close>) and a Smart Node's own persisted identity
  (\<open>lib/NodeManager/Smart/NodeIdentityStore.cpp\<close>).
\<close>

section \<open>Lifecycle states and transitions\<close>

datatype NodeRole = CENTRAL | SMART | UNNAMED_ROLE u8

datatype NodeLifecycleState =
  FACTORY | UNCOMMISSIONED | DISCOVERED | CONFIGURING | COMMISSIONED | OPERATIONAL
| DECOMMISSIONED | UNNAMED_STATE u8

definition role_of_byte :: "u8 \<Rightarrow> NodeRole" where
  "role_of_byte b = (if b = 0 then CENTRAL else if b = 1 then SMART else UNNAMED_ROLE b)"

fun role_byte :: "NodeRole \<Rightarrow> u8" where
  "role_byte CENTRAL = 0"
| "role_byte SMART = 1"
| "role_byte (UNNAMED_ROLE b) = b"

definition state_of_byte :: "u8 \<Rightarrow> NodeLifecycleState" where
  "state_of_byte b =
     (if b = 0 then FACTORY else if b = 1 then UNCOMMISSIONED else if b = 2 then DISCOVERED
      else if b = 3 then CONFIGURING else if b = 4 then COMMISSIONED
      else if b = 5 then OPERATIONAL else if b = 6 then DECOMMISSIONED else UNNAMED_STATE b)"

fun state_byte :: "NodeLifecycleState \<Rightarrow> u8" where
  "state_byte FACTORY = 0"
| "state_byte UNCOMMISSIONED = 1"
| "state_byte DISCOVERED = 2"
| "state_byte CONFIGURING = 3"
| "state_byte COMMISSIONED = 4"
| "state_byte OPERATIONAL = 5"
| "state_byte DECOMMISSIONED = 6"
| "state_byte (UNNAMED_STATE b) = b"

fun isValidNodeLifecycleTransition :: "NodeLifecycleState \<Rightarrow> NodeLifecycleState \<Rightarrow> bool" where
  "isValidNodeLifecycleTransition FACTORY t = (t = UNCOMMISSIONED)"
| "isValidNodeLifecycleTransition UNCOMMISSIONED t =
     (t = DISCOVERED \<or> t = CONFIGURING \<or> t = DECOMMISSIONED)"
| "isValidNodeLifecycleTransition DISCOVERED t = (t = CONFIGURING \<or> t = DECOMMISSIONED)"
| "isValidNodeLifecycleTransition CONFIGURING t =
     (t = COMMISSIONED \<or> t = UNCOMMISSIONED \<or> t = DECOMMISSIONED)"
| "isValidNodeLifecycleTransition COMMISSIONED t = (t = OPERATIONAL \<or> t = DECOMMISSIONED)"
| "isValidNodeLifecycleTransition OPERATIONAL t = (t = DECOMMISSIONED)"
| "isValidNodeLifecycleTransition DECOMMISSIONED t = (t = UNCOMMISSIONED)"
| "isValidNodeLifecycleTransition (UNNAMED_STATE b) t = False"

fun lifecycle_text :: "NodeLifecycleState \<Rightarrow> string" where
  "lifecycle_text FACTORY = ''factory''"
| "lifecycle_text UNCOMMISSIONED = ''uncommissioned''"
| "lifecycle_text DISCOVERED = ''discovered''"
| "lifecycle_text CONFIGURING = ''configuring''"
| "lifecycle_text COMMISSIONED = ''commissioned''"
| "lifecycle_text OPERATIONAL = ''operational''"
| "lifecycle_text DECOMMISSIONED = ''decommissioned''"
| "lifecycle_text (UNNAMED_STATE b) = ''unknown''"

lemma state_byte_of_byte [simp]: "state_byte (state_of_byte b) = b"
  by (simp add: state_of_byte_def)

lemma state_of_byte_byte [simp]:
  "s \<in> {FACTORY, UNCOMMISSIONED, DISCOVERED, CONFIGURING, COMMISSIONED, OPERATIONAL, DECOMMISSIONED} \<Longrightarrow>
   state_of_byte (state_byte s) = s"
  by (auto simp: state_of_byte_def)

lemma role_byte_of_byte [simp]: "role_byte (role_of_byte b) = b"
  by (simp add: role_of_byte_def)

lemma role_of_byte_byte [simp]: "r \<in> {CENTRAL, SMART} \<Longrightarrow> role_of_byte (role_byte r) = r"
  by (auto simp: role_of_byte_def)

text \<open>The machine as a step relation, and the paths through it.\<close>

inductive lifecycle_step :: "NodeLifecycleState \<Rightarrow> NodeLifecycleState \<Rightarrow> bool" where
  "isValidNodeLifecycleTransition s t \<Longrightarrow> lifecycle_step s t"

inductive_cases lifecycle_stepE: "lifecycle_step s t"

inductive lifecycle_path :: "NodeLifecycleState \<Rightarrow> NodeLifecycleState set \<Rightarrow> NodeLifecycleState \<Rightarrow> bool"
where
  stay: "lifecycle_path s {s} s"
| more: "lifecycle_path s visited t \<Longrightarrow> lifecycle_step t u \<Longrightarrow> lifecycle_path s (insert u visited) u"

text \<open>Whoever is commissioned has come through \<open>CONFIGURING\<close>, and has left it for \<open>COMMISSIONED\<close>.\<close>

lemma entered_through_configuring:
  assumes "lifecycle_path s visited t"
  shows "s \<notin> {CONFIGURING, COMMISSIONED, OPERATIONAL} \<Longrightarrow>
         (t \<in> {CONFIGURING, COMMISSIONED, OPERATIONAL} \<longrightarrow> CONFIGURING \<in> visited) \<and>
         (t = OPERATIONAL \<longrightarrow> COMMISSIONED \<in> visited) \<and> t \<in> visited \<and> s \<in> visited"
  using assms
proof (induction rule: lifecycle_path.induct)
  case (more s visited t u)
  then show ?case
    by (cases t; auto elim!: lifecycle_stepE)
qed auto

lemma left_decommissioned:
  assumes "lifecycle_path s visited t"
  shows "s = DECOMMISSIONED \<Longrightarrow> t \<noteq> DECOMMISSIONED \<Longrightarrow> UNCOMMISSIONED \<in> visited"
  using assms
proof (induction rule: lifecycle_path.induct)
  case (more s visited t u)
  then show ?case by (cases "t = DECOMMISSIONED") (auto elim!: lifecycle_stepE)
qed auto

section \<open>NodeIdentityStore\<close>

definition IDENTITY_NAME_SIZE :: nat where
  "IDENTITY_NAME_SIZE = 20"

record NodeIdentityStore =
  identity_state :: NodeLifecycleState
  identity_name :: string

definition new_NodeIdentityStore :: NodeIdentityStore where
  "new_NodeIdentityStore = \<lparr>identity_state = UNCOMMISSIONED, identity_name = []\<rparr>"

definition applyCommission :: "c_str \<Rightarrow> NodeIdentityStore \<Rightarrow> bool \<times> NodeIdentityStore" where
  "applyCommission friendlyName st =
     (if \<not> isValidFriendlyName IDENTITY_NAME_SIZE friendlyName then (False, st)
      else
        let isFirstCommissioning = (identity_state st = UNCOMMISSIONED);
            isRename = (identity_state st = COMMISSIONED \<or> identity_state st = OPERATIONAL)
        in if \<not> isFirstCommissioning \<and> \<not> isRename then (False, st)
           else
             let st1 = (if isFirstCommissioning then st\<lparr>identity_state := COMMISSIONED\<rparr> else st)
             in (True, st1\<lparr>identity_name := copyTruncated IDENTITY_NAME_SIZE friendlyName\<rparr>))"

definition applyDecommission :: "NodeIdentityStore \<Rightarrow> NodeIdentityStore" where
  "applyDecommission st = st\<lparr>identity_state := UNCOMMISSIONED, identity_name := []\<rparr>"

text \<open>\<open>nvs_get_str\<close> into a buffer fails when the string and its NUL do not fit.\<close>

definition nvs_get_str_into :: "'n NvsApi \<Rightarrow> 'n \<Rightarrow> string \<Rightarrow> nat \<Rightarrow> string option" where
  "nvs_get_str_into api n k bufferSize =
     (case nvs_get_str api n k of
        None \<Rightarrow> None
      | Some s \<Rightarrow> if length s < bufferSize then Some s else None)"

definition identity_loadPersisted ::
  "'n NvsApi \<Rightarrow> 'n \<Rightarrow> NodeIdentityStore \<Rightarrow> bool \<times> NodeIdentityStore" where
  "identity_loadPersisted api n st =
     (if \<not> nvs_open_readonly api n then (False, st)
      else case nvs_get_u8 api n ''schema'' of
        None \<Rightarrow> (False, st)
      | Some schemaVersion \<Rightarrow>
          if schemaVersion \<noteq> 1 then (False, st)
          else case nvs_get_u8 api n ''state'' of
            None \<Rightarrow> (False, st)
          | Some raw \<Rightarrow>
              let s = state_of_byte raw
              in if s \<noteq> UNCOMMISSIONED \<and> s \<noteq> COMMISSIONED \<and> s \<noteq> OPERATIONAL then (False, st)
                 else case nvs_get_str_into api n ''name'' IDENTITY_NAME_SIZE of
                   None \<Rightarrow> (False, st)
                 | Some friendlyName \<Rightarrow>
                     if s \<noteq> UNCOMMISSIONED \<and>
                        \<not> isValidFriendlyName IDENTITY_NAME_SIZE (Some friendlyName)
                     then (False, st)
                     else (True,
                       st\<lparr>identity_state := s,
                          identity_name := copyTruncated IDENTITY_NAME_SIZE (Some friendlyName)\<rparr>))"

definition identity_persist :: "'n NvsApi \<Rightarrow> NodeIdentityStore \<Rightarrow> 'n \<Rightarrow> bool \<times> 'n" where
  "identity_persist api st n =
     (if \<not> nvs_open_readwrite api n then (False, n)
      else
        nvs_then
          (nvs_then
            (nvs_then (nvs_set_u8 api ''schema'' 1 n)
              (nvs_set_u8 api ''state'' (state_byte (identity_state st))))
            (nvs_set_str api ''name'' (identity_name st)))
          (nvs_commit api))"

text \<open>What every identity satisfies.\<close>

definition identity_ok :: "NodeIdentityStore \<Rightarrow> bool" where
  "identity_ok st \<longleftrightarrow>
     identity_state st \<in> {UNCOMMISSIONED, COMMISSIONED, OPERATIONAL} \<and>
     length (identity_name st) < IDENTITY_NAME_SIZE \<and>
     c_text (identity_name st) = identity_name st \<and>
     (identity_state st = UNCOMMISSIONED \<or> identity_name st \<noteq> [])"

lemma new_identity_ok [inv_intros]: "identity_ok new_NodeIdentityStore"
  by (simp add: identity_ok_def new_NodeIdentityStore_def IDENTITY_NAME_SIZE_def)

lemma valid_name_nonempty:
  "isValidFriendlyName IDENTITY_NAME_SIZE s \<Longrightarrow> copyTruncated IDENTITY_NAME_SIZE s \<noteq> []"
  by (cases s) (auto simp: isValidFriendlyName_def copyTruncated_def IDENTITY_NAME_SIZE_def)

lemma identity_name_fits [simp]: "length (copyTruncated IDENTITY_NAME_SIZE s) < IDENTITY_NAME_SIZE"
  by (rule length_copyTruncated) (simp add: IDENTITY_NAME_SIZE_def)

lemma applyCommission_ok [inv_intros]:
  "identity_ok st \<Longrightarrow> identity_ok (snd (applyCommission s st))"
  by (auto simp: applyCommission_def identity_ok_def Let_def valid_name_nonempty)

lemma applyDecommission_ok [inv_intros]: "identity_ok (applyDecommission st)"
  by (simp add: applyDecommission_def identity_ok_def IDENTITY_NAME_SIZE_def)

lemma identity_loadPersisted_ok [inv_intros]:
  "identity_ok st \<Longrightarrow> identity_ok (snd (identity_loadPersisted api n st))"
  by (auto simp: identity_loadPersisted_def Let_def identity_ok_def valid_name_nonempty
      split: option.splits)

lemma identity_loadPersisted_fails:
  "\<not> fst (identity_loadPersisted api n st) \<Longrightarrow> snd (identity_loadPersisted api n st) = st"
  by (auto simp: identity_loadPersisted_def Let_def split: option.splits if_splits)

lemma copyTruncated_fits:
  "length s < n \<Longrightarrow> c_text s = s \<Longrightarrow> copyTruncated n (Some s) = s"
  by (simp add: copyTruncated_def)

section \<open>The properties of the lifecycle and of a Node's identity\<close>

text \<open>
  A Node that was decommissioned is commissioned again only through the whole procedure:
  every path of legal transitions from \<open>DECOMMISSIONED\<close> to \<open>COMMISSIONED\<close> or
  \<open>OPERATIONAL\<close>, however long, visits \<open>UNCOMMISSIONED\<close>, \<open>CONFIGURING\<close> and
  \<open>COMMISSIONED\<close>.
\<close>

theorem recommissioning_path:
  assumes path: "lifecycle_path DECOMMISSIONED visited t" and t: "t \<in> {COMMISSIONED, OPERATIONAL}"
  shows "{UNCOMMISSIONED, CONFIGURING, COMMISSIONED} \<subseteq> visited"
proof -
  have "CONFIGURING \<in> visited" and "t = OPERATIONAL \<longrightarrow> COMMISSIONED \<in> visited" and "t \<in> visited"
    using entered_through_configuring [OF path] t by auto
  moreover have "UNCOMMISSIONED \<in> visited" using left_decommissioned [OF path] t by auto
  ultimately show ?thesis using t by auto
qed

theorem recommissioning_path_witness:
  "{UNCOMMISSIONED, CONFIGURING, COMMISSIONED} \<subseteq>
   insert COMMISSIONED (insert CONFIGURING (insert UNCOMMISSIONED {DECOMMISSIONED}))"
proof (rule recommissioning_path)
  show "lifecycle_path DECOMMISSIONED
     (insert COMMISSIONED (insert CONFIGURING (insert UNCOMMISSIONED {DECOMMISSIONED}))) COMMISSIONED"
    by (rule lifecycle_path.more lifecycle_path.stay lifecycle_step.intros | simp)+
qed simp

text \<open>The operations of a Node on its own identity, in any order.\<close>

datatype 'n identity_op = Commission c_str | Decommission | Reload 'n

fun identity_run :: "'n NvsApi \<Rightarrow> 'n identity_op list \<Rightarrow> NodeIdentityStore \<Rightarrow> NodeIdentityStore" where
  "identity_run api [] st = st"
| "identity_run api (Commission s # ops) st = identity_run api ops (snd (applyCommission s st))"
| "identity_run api (Decommission # ops) st = identity_run api ops (applyDecommission st)"
| "identity_run api (Reload n # ops) st =
     identity_run api ops (snd (identity_loadPersisted api n st))"

lemma identity_run_ok: "identity_ok st \<Longrightarrow> identity_ok (identity_run api ops st)"
  by (induction api ops st rule: identity_run.induct) (simp_all add: inv_intros)

text \<open>
  A Smart Node's identity is always sound: after any sequence of commission commands
  (with any string, null included), decommission commands and reloads from a storage with
  any content, the state is one of the three a Node knows of itself, the name is a C string
  that fits its buffer, and a Node that is not uncommissioned has a name.
\<close>

theorem identity_always_ok: "identity_ok (identity_run api ops new_NodeIdentityStore)"
  by (rule identity_run_ok) (rule new_identity_ok)

text \<open>
  What a Node persists is what it restores: when every write of \<open>persist\<close> succeeded,
  loading from the storage it left gives back the same lifecycle state and name, whatever
  the loading object held before.
\<close>

theorem identity_roundtrip:
  assumes laws: "nvs_laws api" and ok: "identity_ok st"
    and persist: "identity_persist api st n = (True, n')"
  shows "identity_loadPersisted api n' other = (True, st)"
proof -
  obtain n1 n2 n3 where w: "nvs_set_u8 api ''schema'' 1 n = (True, n1)"
    "nvs_set_u8 api ''state'' (state_byte (identity_state st)) n1 = (True, n2)"
    "nvs_set_str api ''name'' (identity_name st) n2 = (True, n3)" "nvs_commit api n3 = (True, n')"
    using persist by (auto simp: identity_persist_def nvs_then_True split: if_splits)
  note d = nvs_set_u8D [OF laws w(1)] nvs_set_u8D [OF laws w(2)] nvs_set_strD [OF laws w(3)]
    nvs_commitD [OF laws w(4)]
  have gets: "nvs_get_u8 api n' ''schema'' = Some 1"
    "nvs_get_u8 api n' ''state'' = Some (state_byte (identity_state st))"
    "nvs_get_str api n' ''name'' = Some (identity_name st)" "nvs_open_readonly api n'"
    using d by (simp_all add: nvs_same_but_def)
  have s: "state_of_byte (state_byte (identity_state st)) = identity_state st"
    by (rule state_of_byte_byte) (use ok in \<open>auto simp: identity_ok_def\<close>)
  have "copyTruncated IDENTITY_NAME_SIZE (Some (identity_name st)) = identity_name st"
    and "identity_state st \<noteq> UNCOMMISSIONED \<longrightarrow>
         isValidFriendlyName IDENTITY_NAME_SIZE (Some (identity_name st))"
    and "length (identity_name st) < IDENTITY_NAME_SIZE"
    and "identity_state st \<in> {UNCOMMISSIONED, COMMISSIONED, OPERATIONAL}"
    using ok by (auto simp: identity_ok_def isValidFriendlyName_def copyTruncated_fits)
  then show ?thesis
    using gets s by (auto simp: identity_loadPersisted_def nvs_get_str_into_def)
qed

theorem identity_roundtrip_witness:
  "identity_loadPersisted ram_nvs
     (snd (identity_persist ram_nvs \<lparr>identity_state = COMMISSIONED, identity_name = ''Pump''\<rparr>
        (\<lambda>k. None))) new_NodeIdentityStore
   = (True, \<lparr>identity_state = COMMISSIONED, identity_name = ''Pump''\<rparr>)"
proof (rule identity_roundtrip [OF ram_nvs_laws])
  show "identity_ok \<lparr>identity_state = COMMISSIONED, identity_name = ''Pump''\<rparr>"
    by (simp add: identity_ok_def IDENTITY_NAME_SIZE_def c_text_def)
  show "identity_persist ram_nvs \<lparr>identity_state = COMMISSIONED, identity_name = ''Pump''\<rparr> (\<lambda>k. None) =
    (True, snd (identity_persist ram_nvs
       \<lparr>identity_state = COMMISSIONED, identity_name = ''Pump''\<rparr> (\<lambda>k. None)))"
    by (simp add: identity_persist_def ram_nvs_def)
qed

end
