(* ===== verification/Commissioning.thy ===== *)
theory Commissioning
  imports Lifecycle
begin

text \<open>
  Central's record of every Node's identity and lifecycle
  (\<open>lib/NodeManager/Central/NodeCommissioningRegistry.cpp\<close>): discovery, commissioning and
  its acknowledgement, decommissioning, and the packed 75-byte records it keeps in NVS.

  The vector of records is a list; \<open>findMutable\<close> followed by writes through the pointer is
  \<open>setRecord\<close>, which replaces the first record of that MAC address.
\<close>

section \<open>Records\<close>

datatype SyncState = SYNCED | PENDING | FAILED

record Diagnostics =
  freeHeapBytes :: u32
  minFreeHeapBytes :: u32
  flashSizeBytes :: u32
  psramSizeBytes :: u32
  siliconRevision :: u16
  cpuCores :: u8
  resetReason :: string
  cpuFrequencyMhz :: u32
  temperatureAvailable :: bool
  temperatureCelsius :: f32

definition new_Diagnostics :: Diagnostics where
  "new_Diagnostics =
     \<lparr>freeHeapBytes = 0, minFreeHeapBytes = 0, flashSizeBytes = 0, psramSizeBytes = 0,
      siliconRevision = 0, cpuCores = 0, resetReason = [], cpuFrequencyMhz = 0,
      temperatureAvailable = False, temperatureCelsius = fzero\<rparr>"

record CommissioningRecord =
  rec_macAddress :: MacAddress
  rec_role :: NodeRole
  rec_lifecycleState :: NodeLifecycleState
  rec_friendlyName :: string
  rec_pendingFriendlyName :: string
  rec_pendingCommandId :: u32
  rec_firmwareVersion :: string
  rec_chipModel :: string
  rec_relayCapabilityCount :: u8
  rec_relayPins :: "u8 list"
  rec_discoveredAtMilliseconds :: u32
  rec_syncState :: SyncState
  rec_diagnostics :: Diagnostics

type_synonym NodeCommissioningRegistry = "CommissioningRecord list"

definition FRIENDLY_NAME_BUFFER_SIZE :: nat where "FRIENDLY_NAME_BUFFER_SIZE = 20"
definition FIRMWARE_VERSION_BUFFER_SIZE :: nat where "FIRMWARE_VERSION_BUFFER_SIZE = 12"
definition CHIP_MODEL_BUFFER_SIZE :: nat where "CHIP_MODEL_BUFFER_SIZE = 16"
definition MAX_RELAY_GPIO_CAPABILITIES :: nat where "MAX_RELAY_GPIO_CAPABILITIES = 18"

lemmas buffer_sizes = FRIENDLY_NAME_BUFFER_SIZE_def FIRMWARE_VERSION_BUFFER_SIZE_def
  CHIP_MODEL_BUFFER_SIZE_def MAX_RELAY_GPIO_CAPABILITIES_def

text \<open>\<open>CommissioningRecord record{}\<close> with the MAC address and role set.\<close>

definition empty_record :: "MacAddress \<Rightarrow> NodeRole \<Rightarrow> NodeLifecycleState \<Rightarrow> CommissioningRecord" where
  "empty_record mac role s =
     \<lparr>rec_macAddress = mac, rec_role = role, rec_lifecycleState = s, rec_friendlyName = [],
      rec_pendingFriendlyName = [], rec_pendingCommandId = 0, rec_firmwareVersion = [],
      rec_chipModel = [], rec_relayCapabilityCount = 0,
      rec_relayPins = replicate MAX_RELAY_GPIO_CAPABILITIES 0, rec_discoveredAtMilliseconds = 0,
      rec_syncState = SYNCED, rec_diagnostics = new_Diagnostics\<rparr>"

definition findByMac :: "MacAddress \<Rightarrow> NodeCommissioningRegistry \<Rightarrow> CommissioningRecord option" where
  "findByMac mac rs = find (\<lambda>r. rec_macAddress r = mac) rs"

definition setRecord ::
  "MacAddress \<Rightarrow> CommissioningRecord \<Rightarrow> NodeCommissioningRegistry \<Rightarrow> NodeCommissioningRegistry" where
  "setRecord mac r rs = update_first (\<lambda>r. rec_macAddress r = mac) (\<lambda>_. r) rs"

section \<open>Discovery and self-registration\<close>

definition clampCapabilities :: "nat \<Rightarrow> nat" where
  "clampCapabilities n = (if n > MAX_RELAY_GPIO_CAPABILITIES then MAX_RELAY_GPIO_CAPABILITIES else n)"

definition copyCapabilities ::
  "u8 list option \<Rightarrow> nat \<Rightarrow> CommissioningRecord \<Rightarrow> CommissioningRecord" where
  "copyCapabilities relayPins relayCapabilityCount r =
     r\<lparr>rec_relayCapabilityCount := of_nat relayCapabilityCount,
       rec_relayPins :=
         (case relayPins of
            None \<Rightarrow> replicate MAX_RELAY_GPIO_CAPABILITIES 0
          | Some ps \<Rightarrow> map (\<lambda>i. if i < relayCapabilityCount then ps ! i else 0)
                         [0..<MAX_RELAY_GPIO_CAPABILITIES])\<rparr>"

definition recordDiscovered ::
  "MacAddress \<Rightarrow> NodeRole \<Rightarrow> c_str \<Rightarrow> c_str \<Rightarrow> u8 list option \<Rightarrow> nat \<Rightarrow> u32 \<Rightarrow>
   NodeCommissioningRegistry \<Rightarrow> bool \<times> NodeCommissioningRegistry" where
  "recordDiscovered mac role firmwareVersion chipModel relayPins count now rs =
     (let n = clampCapabilities count;
          refresh = (\<lambda>r. copyCapabilities relayPins n
             (r\<lparr>rec_firmwareVersion := copyTruncated FIRMWARE_VERSION_BUFFER_SIZE firmwareVersion,
                rec_chipModel := copyTruncated CHIP_MODEL_BUFFER_SIZE chipModel,
                rec_discoveredAtMilliseconds := now\<rparr>))
      in case findByMac mac rs of
        None \<Rightarrow> (True, rs @ [refresh (empty_record mac role UNCOMMISSIONED)])
      | Some existing \<Rightarrow>
          let r = (if rec_lifecycleState existing = DECOMMISSIONED
                   then existing\<lparr>rec_lifecycleState := UNCOMMISSIONED\<rparr> else existing)
          in (False, setRecord mac (refresh r) rs))"

definition updateDiagnostics ::
  "MacAddress \<Rightarrow> Diagnostics \<Rightarrow> NodeCommissioningRegistry \<Rightarrow> bool \<times> NodeCommissioningRegistry" where
  "updateDiagnostics mac d rs =
     (case findByMac mac rs of
        None \<Rightarrow> (False, rs)
      | Some existing \<Rightarrow> (True, setRecord mac (existing\<lparr>rec_diagnostics := d\<rparr>) rs))"

definition registerSelf ::
  "MacAddress \<Rightarrow> NodeRole \<Rightarrow> c_str \<Rightarrow> c_str \<Rightarrow> c_str \<Rightarrow> u8 list option \<Rightarrow> nat \<Rightarrow> u32 \<Rightarrow>
   NodeCommissioningRegistry \<Rightarrow> bool \<times> NodeCommissioningRegistry" where
  "registerSelf mac role friendlyName firmwareVersion chipModel relayPins count now rs =
     (if findByMac mac rs \<noteq> None then (False, rs)
      else
        (True, rs @ [copyCapabilities relayPins (clampCapabilities count)
           ((empty_record mac role COMMISSIONED)
              \<lparr>rec_friendlyName := copyTruncated FRIENDLY_NAME_BUFFER_SIZE friendlyName,
               rec_firmwareVersion := copyTruncated FIRMWARE_VERSION_BUFFER_SIZE firmwareVersion,
               rec_chipModel := copyTruncated CHIP_MODEL_BUFFER_SIZE chipModel,
               rec_discoveredAtMilliseconds := now\<rparr>)]))"

section \<open>Commissioning, its acknowledgement, decommissioning\<close>

definition requestCommissioning ::
  "MacAddress \<Rightarrow> c_str \<Rightarrow> u32 \<Rightarrow> NodeCommissioningRegistry \<Rightarrow> bool \<times> NodeCommissioningRegistry" where
  "requestCommissioning mac friendlyName commandId rs =
     (if \<not> isValidFriendlyName FRIENDLY_NAME_BUFFER_SIZE friendlyName then (False, rs)
      else case findByMac mac rs of
        None \<Rightarrow> (False, rs)
      | Some r \<Rightarrow>
          let s = rec_lifecycleState r;
              isFirstCommissioning = (s = UNCOMMISSIONED \<or> s = DISCOVERED);
              isRename = (s = COMMISSIONED \<or> s = OPERATIONAL)
          in if \<not> isFirstCommissioning \<and> \<not> isRename then (False, rs)
             else if isFirstCommissioning \<and> \<not> isValidNodeLifecycleTransition s CONFIGURING
             then (False, rs)
             else
               let r1 = (if isFirstCommissioning then r\<lparr>rec_lifecycleState := CONFIGURING\<rparr> else r)
               in (True, setRecord mac
                     (r1\<lparr>rec_pendingFriendlyName :=
                           copyTruncated FRIENDLY_NAME_BUFFER_SIZE friendlyName,
                         rec_pendingCommandId := commandId,
                         rec_syncState := PENDING\<rparr>) rs))"

definition applyCommissionResult ::
  "MacAddress \<Rightarrow> u32 \<Rightarrow> bool \<Rightarrow> NodeLifecycleState \<Rightarrow> NodeCommissioningRegistry \<Rightarrow>
   bool \<times> NodeCommissioningRegistry" where
  "applyCommissionResult mac commandId success resultingState rs =
     (case findByMac mac rs of
        None \<Rightarrow> (False, rs)
      | Some r \<Rightarrow>
          if rec_syncState r \<noteq> PENDING \<or> rec_pendingCommandId r \<noteq> commandId then (False, rs)
          else
            let r1 = r\<lparr>rec_lifecycleState := resultingState\<rparr>;
                r2 = (if success
                      then r1\<lparr>rec_friendlyName :=
                               copyTruncated FRIENDLY_NAME_BUFFER_SIZE
                                 (Some (rec_pendingFriendlyName r1)),
                              rec_syncState := SYNCED\<rparr>
                      else r1\<lparr>rec_syncState := FAILED\<rparr>)
            in (True, setRecord mac (r2\<lparr>rec_pendingFriendlyName := []\<rparr>) rs))"

definition decommission ::
  "MacAddress \<Rightarrow> NodeCommissioningRegistry \<Rightarrow> bool \<times> NodeCommissioningRegistry" where
  "decommission mac rs =
     (case findByMac mac rs of
        None \<Rightarrow> (False, rs)
      | Some r \<Rightarrow>
          if \<not> isValidNodeLifecycleTransition (rec_lifecycleState r) DECOMMISSIONED then (False, rs)
          else (True, setRecord mac
                 (r\<lparr>rec_lifecycleState := DECOMMISSIONED, rec_friendlyName := [],
                    rec_pendingFriendlyName := [], rec_syncState := SYNCED\<rparr>) rs))"

section \<open>Persistence\<close>

definition persisted_state :: "NodeLifecycleState \<Rightarrow> bool" where
  "persisted_state s \<longleftrightarrow> \<not> (s \<noteq> COMMISSIONED \<and> s \<noteq> OPERATIONAL \<and> s \<noteq> DECOMMISSIONED)"

definition COMMISSIONING_RECORD_SIZE :: nat where
  "COMMISSIONING_RECORD_SIZE = 75"

definition commissioning_record_bytes :: "CommissioningRecord \<Rightarrow> u8 list" where
  "commissioning_record_bytes r =
     mac_bytes (rec_macAddress r) @ [role_byte (rec_role r)] @ [state_byte (rec_lifecycleState r)] @
     char_array FRIENDLY_NAME_BUFFER_SIZE
       (copyTruncated FRIENDLY_NAME_BUFFER_SIZE (Some (rec_friendlyName r))) @
     char_array FIRMWARE_VERSION_BUFFER_SIZE
       (copyTruncated FIRMWARE_VERSION_BUFFER_SIZE (Some (rec_firmwareVersion r))) @
     char_array CHIP_MODEL_BUFFER_SIZE
       (copyTruncated CHIP_MODEL_BUFFER_SIZE (Some (rec_chipModel r))) @
     [rec_relayCapabilityCount r] @
     take MAX_RELAY_GPIO_CAPABILITIES (rec_relayPins r)"

definition commissioning_record_of_bytes :: "u8 list \<Rightarrow> CommissioningRecord option" where
  "commissioning_record_of_bytes bs =
     (let lifecycleState = state_of_byte (bs ! 7);
          text = (\<lambda>from size. copyTruncated size (Some (string_of_bytes (take size (drop from bs)))));
          count = bs ! 56
      in if \<not> persisted_state lifecycleState then None
         else if unat count > MAX_RELAY_GPIO_CAPABILITIES then None
         else Some
           ((empty_record (mac_of_bytes (take 6 bs)) (role_of_byte (bs ! 6)) lifecycleState)
              \<lparr>rec_friendlyName := text 8 FRIENDLY_NAME_BUFFER_SIZE,
               rec_firmwareVersion := text 28 FIRMWARE_VERSION_BUFFER_SIZE,
               rec_chipModel := text 40 CHIP_MODEL_BUFFER_SIZE,
               rec_relayCapabilityCount := count,
               rec_relayPins := map (\<lambda>i. if i < unat count then bs ! (57 + i) else 0)
                                  [0..<MAX_RELAY_GPIO_CAPABILITIES]\<rparr>))"

definition registry_loadPersisted ::
  "'n NvsApi \<Rightarrow> 'n \<Rightarrow> NodeCommissioningRegistry \<Rightarrow> bool \<times> NodeCommissioningRegistry" where
  "registry_loadPersisted api n rs =
     (if \<not> nvs_open_readonly api n then (False, rs)
      else case nvs_get_u8 api n ''schema'' of
        None \<Rightarrow> (False, rs)
      | Some schemaVersion \<Rightarrow>
          if schemaVersion \<noteq> 2 then (False, rs)
          else case nvs_get_blob api n ''records'' of
            None \<Rightarrow> (False, rs)
          | Some buffer \<Rightarrow>
              if length buffer = 0 \<or> length buffer mod COMMISSIONING_RECORD_SIZE \<noteq> 0
              then (False, rs)
              else case those (map commissioning_record_of_bytes
                          (record_bytes COMMISSIONING_RECORD_SIZE buffer)) of
                None \<Rightarrow> (False, rs)
              | Some restored \<Rightarrow> (True, restored))"

definition registry_persist ::
  "'n NvsApi \<Rightarrow> NodeCommissioningRegistry \<Rightarrow> 'n \<Rightarrow> bool \<times> 'n" where
  "registry_persist api rs n =
     (if \<not> nvs_open_readwrite api n then (False, n)
      else
        let records = map commissioning_record_bytes
                        (filter (\<lambda>r. persisted_state (rec_lifecycleState r)) rs)
        in nvs_then
             (nvs_then (nvs_set_u8 api ''schema'' 2 n)
               (nvs_set_blob api ''records'' (concat records)))
             (nvs_commit api))"

section \<open>What the registry keeps true\<close>

definition record_ok :: "CommissioningRecord \<Rightarrow> bool" where
  "record_ok r \<longleftrightarrow>
     role_of_byte (role_byte (rec_role r)) = rec_role r \<and>
     length (rec_friendlyName r) < FRIENDLY_NAME_BUFFER_SIZE \<and>
     c_text (rec_friendlyName r) = rec_friendlyName r \<and>
     length (rec_pendingFriendlyName r) < FRIENDLY_NAME_BUFFER_SIZE \<and>
     c_text (rec_pendingFriendlyName r) = rec_pendingFriendlyName r \<and>
     length (rec_firmwareVersion r) < FIRMWARE_VERSION_BUFFER_SIZE \<and>
     c_text (rec_firmwareVersion r) = rec_firmwareVersion r \<and>
     length (rec_chipModel r) < CHIP_MODEL_BUFFER_SIZE \<and>
     c_text (rec_chipModel r) = rec_chipModel r \<and>
     unat (rec_relayCapabilityCount r) \<le> MAX_RELAY_GPIO_CAPABILITIES \<and>
     length (rec_relayPins r) = MAX_RELAY_GPIO_CAPABILITIES \<and>
     (\<forall>i < MAX_RELAY_GPIO_CAPABILITIES. unat (rec_relayCapabilityCount r) \<le> i \<longrightarrow> rec_relayPins r ! i = 0) \<and>
     (rec_syncState r = PENDING \<longleftrightarrow> rec_pendingFriendlyName r \<noteq> [])"

definition registry_ok :: "NodeCommissioningRegistry \<Rightarrow> bool" where
  "registry_ok rs \<longleftrightarrow> distinct (map rec_macAddress rs) \<and> list_all record_ok rs"

lemma findByMac_Some: "findByMac mac rs = Some r \<Longrightarrow> r \<in> set rs \<and> rec_macAddress r = mac"
  by (auto simp: findByMac_def dest: find_Some_in)

lemma findByMac_setRecord [simp]:
  "rec_macAddress r = mac \<Longrightarrow>
   findByMac mac' (setRecord mac r rs) =
     (if mac' = mac then map_option (\<lambda>_. r) (findByMac mac rs) else findByMac mac' rs)"
proof (cases "mac' = mac")
  case True
  assume "rec_macAddress r = mac"
  then show ?thesis unfolding findByMac_def setRecord_def if_P [OF True]
    unfolding True by (rule find_update_first_same)
next
  case False
  assume "rec_macAddress r = mac"
  with False show ?thesis unfolding findByMac_def setRecord_def if_not_P [OF False]
    by (intro find_update_first_other) auto
qed

lemma findByMac_append:
  "findByMac mac (rs @ [r]) =
     (case findByMac mac rs of
        None \<Rightarrow> if rec_macAddress r = mac then Some r else None
      | Some x \<Rightarrow> Some x)"
  by (simp add: findByMac_def find_append split: option.splits)

lemma registry_ok_found:
  "registry_ok rs \<Longrightarrow> findByMac mac rs = Some r \<Longrightarrow> record_ok r \<and> rec_macAddress r = mac"
  by (auto simp: registry_ok_def list_all_iff dest: findByMac_Some)

lemma registry_ok_setRecord:
  "registry_ok rs \<Longrightarrow> record_ok r \<Longrightarrow> rec_macAddress r = mac \<Longrightarrow> registry_ok (setRecord mac r rs)"
proof -
  assume ok: "registry_ok rs" and r: "record_ok r" and mac: "rec_macAddress r = mac"
  have "map rec_macAddress (setRecord mac r rs) = map rec_macAddress rs"
    unfolding setRecord_def by (rule map_update_first) (simp add: mac)
  moreover have "list_all record_ok (setRecord mac r rs)"
    unfolding setRecord_def by (rule list_all_update_first) (use ok r in \<open>auto simp: registry_ok_def\<close>)
  ultimately show ?thesis using ok by (simp add: registry_ok_def)
qed

lemma registry_ok_update:
  "registry_ok rs \<Longrightarrow> findByMac mac rs = Some r \<Longrightarrow> (record_ok r \<Longrightarrow> record_ok r') \<Longrightarrow>
   rec_macAddress r' = rec_macAddress r \<Longrightarrow> registry_ok (setRecord mac r' rs)"
  by (rule registry_ok_setRecord) (auto dest: registry_ok_found)

lemma registry_ok_append:
  "registry_ok rs \<Longrightarrow> record_ok r \<Longrightarrow> findByMac (rec_macAddress r) rs = None \<Longrightarrow>
   registry_ok (rs @ [r])"
  by (auto simp: registry_ok_def findByMac_def find_None_iff)

lemma registry_ok_Nil [inv_intros]: "registry_ok []"
  by (simp add: registry_ok_def)

lemma buffers_pos [simp]: "0 < FRIENDLY_NAME_BUFFER_SIZE" "0 < FIRMWARE_VERSION_BUFFER_SIZE"
  "0 < CHIP_MODEL_BUFFER_SIZE"
  by (simp_all add: buffer_sizes)

lemma copyTruncated_buffers [simp]:
  "length (copyTruncated FRIENDLY_NAME_BUFFER_SIZE s) < FRIENDLY_NAME_BUFFER_SIZE"
  "length (copyTruncated FIRMWARE_VERSION_BUFFER_SIZE s) < FIRMWARE_VERSION_BUFFER_SIZE"
  "length (copyTruncated CHIP_MODEL_BUFFER_SIZE s) < CHIP_MODEL_BUFFER_SIZE"
  by (rule length_copyTruncated, simp add: buffer_sizes)+

lemma valid_friendly_nonempty:
  "isValidFriendlyName FRIENDLY_NAME_BUFFER_SIZE s \<Longrightarrow>
   copyTruncated FRIENDLY_NAME_BUFFER_SIZE s \<noteq> []"
  by (cases s) (auto simp: isValidFriendlyName_def copyTruncated_def FRIENDLY_NAME_BUFFER_SIZE_def)

lemma empty_record_ok:
  "role_of_byte (role_byte role) = role \<Longrightarrow> record_ok (empty_record mac role s)"
  by (simp add: record_ok_def empty_record_def buffer_sizes)

lemma empty_record_mac [simp]: "rec_macAddress (empty_record mac role s) = mac"
  by (simp add: empty_record_def)

lemma copyCapabilities_mac [simp]: "rec_macAddress (copyCapabilities ps n r) = rec_macAddress r"
  by (simp add: copyCapabilities_def)

lemma clampCapabilities_le: "clampCapabilities n \<le> MAX_RELAY_GPIO_CAPABILITIES"
  by (simp add: clampCapabilities_def)

lemma copyCapabilities_ok:
  assumes "record_ok r" and n: "n \<le> MAX_RELAY_GPIO_CAPABILITIES"
  shows "record_ok (copyCapabilities ps n r)"
proof -
  have "unat (of_nat n :: u8) = n"
    using n by (simp add: buffer_sizes unsigned_of_nat take_bit_nat_eq_self)
  with assms show ?thesis
    by (auto simp: record_ok_def copyCapabilities_def split: option.splits)
qed

lemma recordDiscovered_ok [inv_intros]:
  "registry_ok rs \<Longrightarrow> role_of_byte (role_byte role) = role \<Longrightarrow>
   registry_ok (snd (recordDiscovered mac role fw chip pins count now rs))"
  unfolding recordDiscovered_def Let_def
  by (auto split: option.splits intro!: registry_ok_append
      registry_ok_update copyCapabilities_ok clampCapabilities_le)
     (auto simp: record_ok_def empty_record_def)

lemma updateDiagnostics_ok [inv_intros]:
  "registry_ok rs \<Longrightarrow> registry_ok (snd (updateDiagnostics mac d rs))"
  unfolding updateDiagnostics_def
  by (auto split: option.splits intro!: registry_ok_update)
     (simp add: record_ok_def)

lemma registerSelf_ok [inv_intros]:
  "registry_ok rs \<Longrightarrow> role_of_byte (role_byte role) = role \<Longrightarrow>
   registry_ok (snd (registerSelf mac role nm fw chip pins count now rs))"
  unfolding registerSelf_def
  by (auto intro!: registry_ok_append copyCapabilities_ok clampCapabilities_le)
     (auto simp: record_ok_def empty_record_def)

lemma requestCommissioning_ok [inv_intros]:
  "registry_ok rs \<Longrightarrow> registry_ok (snd (requestCommissioning mac nm i rs))"
  unfolding requestCommissioning_def Let_def
  by (auto split: option.splits intro!: registry_ok_update)
     (auto simp: record_ok_def valid_friendly_nonempty)

lemma applyCommissionResult_ok [inv_intros]:
  "registry_ok rs \<Longrightarrow> registry_ok (snd (applyCommissionResult mac i ok s rs))"
  unfolding applyCommissionResult_def Let_def
  by (auto split: option.splits intro!: registry_ok_update)
     (auto simp: record_ok_def)

lemma decommission_ok [inv_intros]:
  "registry_ok rs \<Longrightarrow> registry_ok (snd (decommission mac rs))"
  unfolding decommission_def
  by (auto split: option.splits intro!: registry_ok_update)
     (auto simp: record_ok_def buffer_sizes)

section \<open>The packed records\<close>

definition restored_record :: "CommissioningRecord \<Rightarrow> CommissioningRecord" where
  "restored_record r =
     r\<lparr>rec_pendingFriendlyName := [], rec_pendingCommandId := 0,
       rec_discoveredAtMilliseconds := 0, rec_syncState := SYNCED,
       rec_diagnostics := new_Diagnostics\<rparr>"

lemma copyTruncated_of_array:
  assumes "length s < n" and "c_text s = s"
  shows "copyTruncated n (Some (string_of_bytes (char_array n s))) = s"
  using assms c_text_char_array [of s n] by (simp add: copyTruncated_def)

lemma copyTruncated_self: "length s < n \<Longrightarrow> c_text s = s \<Longrightarrow> copyTruncated n (Some s) = s"
  by (rule copyTruncated_fits)

lemma length_commissioning_record_bytes [simp]:
  "record_ok r \<Longrightarrow> length (commissioning_record_bytes r) = COMMISSIONING_RECORD_SIZE"
  by (simp add: commissioning_record_bytes_def record_ok_def COMMISSIONING_RECORD_SIZE_def buffer_sizes)

lemma state_of_persisted: "persisted_state s \<Longrightarrow> state_of_byte (state_byte s) = s"
  by (rule state_of_byte_byte) (auto simp: persisted_state_def)

lemma record_slices:
  assumes "length m = 6" "length a = 20" "length b = 12" "length c = 16"
    and bs_def: "bs = m @ [x] @ [y] @ a @ b @ c @ [z] @ ps"
  shows "take 6 bs = m" "bs ! 6 = x" "bs ! 7 = y" "take 20 (drop 8 bs) = a"
    "take 12 (drop 28 bs) = b" "take 16 (drop 40 bs) = c" "bs ! 56 = z"
    "bs ! (57 + i) = ps ! i"
  using assms(1-4) by (simp_all add: bs_def nth_append)

lemma commissioning_record_roundtrip:
  assumes ok: "record_ok r" and st: "persisted_state (rec_lifecycleState r)"
  shows "commissioning_record_of_bytes (commissioning_record_bytes r) = Some (restored_record r)"
proof -
  let ?a = "char_array 20 (copyTruncated 20 (Some (rec_friendlyName r)))"
  let ?b = "char_array 12 (copyTruncated 12 (Some (rec_firmwareVersion r)))"
  let ?c = "char_array 16 (copyTruncated 16 (Some (rec_chipModel r)))"
  have len: "length (mac_bytes (rec_macAddress r)) = 6" "length ?a = 20" "length ?b = 12" "length ?c = 16"
    by simp_all
  note sl = record_slices [OF len refl, of "role_byte (rec_role r)" "state_byte (rec_lifecycleState r)"
      "rec_relayCapabilityCount r" "rec_relayPins r"]
  have bytes: "commissioning_record_bytes r =
    mac_bytes (rec_macAddress r) @ [role_byte (rec_role r)] @ [state_byte (rec_lifecycleState r)] @
    ?a @ ?b @ ?c @ [rec_relayCapabilityCount r] @ rec_relayPins r"
    using ok by (simp add: commissioning_record_bytes_def record_ok_def buffer_sizes)
  have texts: "copyTruncated 20 (Some (string_of_bytes ?a)) = rec_friendlyName r"
    "copyTruncated 12 (Some (string_of_bytes ?b)) = rec_firmwareVersion r"
    "copyTruncated 16 (Some (string_of_bytes ?c)) = rec_chipModel r"
    using ok by (simp_all add: record_ok_def buffer_sizes copyTruncated_of_array copyTruncated_self)
  have pins: "map (\<lambda>i. if i < unat (rec_relayCapabilityCount r) then rec_relayPins r ! i else 0) [0..<18]
              = rec_relayPins r"
    using ok by (intro nth_equalityI) (auto simp: record_ok_def buffer_sizes)
  have "unat (rec_relayCapabilityCount r) \<le> 18" and "role_of_byte (role_byte (rec_role r)) = rec_role r"
    using ok by (auto simp: record_ok_def buffer_sizes)
  then show ?thesis
    unfolding commissioning_record_of_bytes_def Let_def bytes buffer_sizes sl texts pins
      state_of_persisted [OF st] mac_of_mac_bytes
    using st by (simp add: restored_record_def empty_record_def)
qed

section \<open>The properties of the registry\<close>

text \<open>Everything Central's firmware does to the registry, with raw bytes where it casts them.\<close>

datatype 'n registry_op =
  Discovered MacAddress u8 c_str c_str "u8 list option" nat u32
| NewDiagnostics MacAddress Diagnostics
| RegisterSelf MacAddress c_str c_str c_str "u8 list option" nat u32
| Request MacAddress c_str u32
| Result MacAddress u32 bool u8
| DecommissionNode MacAddress

fun registry_step :: "'n registry_op \<Rightarrow> NodeCommissioningRegistry \<Rightarrow> NodeCommissioningRegistry" where
  "registry_step (Discovered mac role fw chip pins count now) rs =
     snd (recordDiscovered mac (role_of_byte role) fw chip pins count now rs)"
| "registry_step (NewDiagnostics mac d) rs = snd (updateDiagnostics mac d rs)"
| "registry_step (RegisterSelf mac nm fw chip pins count now) rs =
     snd (registerSelf mac CENTRAL nm fw chip pins count now rs)"
| "registry_step (Request mac nm i) rs = snd (requestCommissioning mac nm i rs)"
| "registry_step (Result mac i ok s) rs = snd (applyCommissionResult mac i ok (state_of_byte s) rs)"
| "registry_step (DecommissionNode mac) rs = snd (decommission mac rs)"

lemma role_of_byte_normal: "role_of_byte (role_byte (role_of_byte b)) = role_of_byte b"
  by simp

lemma registry_step_ok: "registry_ok rs \<Longrightarrow> registry_ok (registry_step ev rs)"
  by (cases ev) (auto intro!: inv_intros simp: role_of_byte_def)

text \<open>
  Whatever packets arrive and whatever commands are given, in whatever order, Central's
  registry holds at most one record per MAC address, every text of a record fits its buffer,
  no record claims more relay pins than the array holds, and a record carries a pending name
  exactly while a commissioning command is in flight.
\<close>

theorem registry_always_ok: "registry_ok (fold registry_step events [])"
proof -
  have "registry_ok rs \<Longrightarrow> registry_ok (fold registry_step events rs)" for rs
    by (induction events arbitrary: rs) (simp_all add: registry_step_ok)
  then show ?thesis by (simp add: registry_ok_Nil)
qed

lemma requestCommissioning_found:
  "requestCommissioning mac nm i rs = (True, rs') \<Longrightarrow>
   \<exists>r. findByMac mac rs = Some r \<and> findByMac mac rs' = Some
     (r\<lparr>rec_lifecycleState :=
          (if rec_lifecycleState r \<in> {UNCOMMISSIONED, DISCOVERED} then CONFIGURING
           else rec_lifecycleState r),
        rec_pendingFriendlyName := copyTruncated FRIENDLY_NAME_BUFFER_SIZE nm,
        rec_pendingCommandId := i, rec_syncState := PENDING\<rparr>)"
proof -
  assume req: "requestCommissioning mac nm i rs = (True, rs')"
  then obtain r where r: "findByMac mac rs = Some r"
    by (auto simp: requestCommissioning_def split: if_splits option.splits)
  then have mac: "rec_macAddress r = mac" by (simp add: findByMac_Some)
  show ?thesis
    using req r mac by (auto simp: requestCommissioning_def Let_def split: if_splits)
qed

text \<open>
  A late answer to a superseded commissioning command changes nothing: after a second
  request or a decommissioning was accepted, the acknowledgement of the first request is
  rejected, whatever result and state it carries, as long as the two command identifiers
  differ.
\<close>

theorem stale_ack_ignored:
  assumes later: "decommission mac rs = (True, rs') \<or>
                (requestCommissioning mac name2 id2 rs = (True, rs') \<and> id2 \<noteq> id1)"
  shows "applyCommissionResult mac id1 success s rs' = (False, rs')"
  using later
proof
  assume "decommission mac rs = (True, rs')"
  then obtain r where "findByMac mac rs = Some r"
    and "rs' = setRecord mac (r\<lparr>rec_lifecycleState := DECOMMISSIONED, rec_friendlyName := [],
                    rec_pendingFriendlyName := [], rec_syncState := SYNCED\<rparr>) rs"
    by (auto simp: decommission_def split: option.splits if_splits)
  then show ?thesis by (simp add: applyCommissionResult_def findByMac_Some)
next
  assume "requestCommissioning mac name2 id2 rs = (True, rs') \<and> id2 \<noteq> id1"
  then show ?thesis using requestCommissioning_found [of mac name2 id2 rs rs']
    by (auto simp: applyCommissionResult_def)
qed

theorem stale_ack_ignored_witness:
  "applyCommissionResult (1, 2, 3, 4, 5, 6) 7 True COMMISSIONED
     (snd (decommission (1, 2, 3, 4, 5, 6) [empty_record (1, 2, 3, 4, 5, 6) SMART COMMISSIONED]))
   = (False, snd (decommission (1, 2, 3, 4, 5, 6)
        [empty_record (1, 2, 3, 4, 5, 6) SMART COMMISSIONED]))"
  by (rule stale_ack_ignored [of _ "[empty_record (1, 2, 3, 4, 5, 6) SMART COMMISSIONED]"], rule disjI1)
     (simp add: decommission_def findByMac_def empty_record_def)



text \<open>
  C34: What Central persists is what it restores after a reboot: when every write succeeded and
  there is a record worth keeping, loading gives exactly the records that are commissioned,
  operational or decommissioned, in their order, with their role, name, versions and relay
  pins, and with the transient fields reset.
\<close>

theorem registry_roundtrip:
  assumes laws: "nvs_laws api" and ok: "registry_ok rs"
    and keep: "list_ex (\<lambda>r. persisted_state (rec_lifecycleState r)) rs"
    and persist: "registry_persist api rs n = (True, n')"
  shows "registry_loadPersisted api n' other =
         (True, map restored_record (filter (\<lambda>r. persisted_state (rec_lifecycleState r)) rs))"
proof -
  let ?kept = "filter (\<lambda>r. persisted_state (rec_lifecycleState r)) rs"
  let ?bytes = "map commissioning_record_bytes ?kept"
  obtain n1 n2 where w: "nvs_set_u8 api ''schema'' 2 n = (True, n1)"
    "nvs_set_blob api ''records'' (concat ?bytes) n1 = (True, n2)" "nvs_commit api n2 = (True, n')"
    using persist by (auto simp: registry_persist_def nvs_then_True Let_def split: if_splits)
  note d = nvs_set_u8D [OF laws w(1)] nvs_set_blobD [OF laws w(2)] nvs_commitD [OF laws w(3)]
  have gets: "nvs_get_u8 api n' ''schema'' = Some 2"
    "nvs_get_blob api n' ''records'' = Some (concat ?bytes)" "nvs_open_readonly api n'"
    using d by (simp_all add: nvs_same_but_def)
  have each: "record_ok r \<and> persisted_state (rec_lifecycleState r)" if "r \<in> set ?kept" for r
    using that ok by (auto simp: registry_ok_def list_all_iff)
  have sizes: "length b = COMMISSIONING_RECORD_SIZE" if b: "b \<in> set ?bytes" for b
  proof -
    from b obtain r where "r \<in> set ?kept" and "b = commissioning_record_bytes r"
      unfolding set_map by blast
    then show ?thesis using each [of r] by simp
  qed
  have len: "length (concat ?bytes) = length ?kept * COMMISSIONING_RECORD_SIZE"
  proof -
    have "length (concat ?bytes) = length ?bytes * COMMISSIONING_RECORD_SIZE"
      by (rule length_concat_records) (rule sizes)
    then show ?thesis by (simp only: length_map)
  qed
  have ne: "?kept \<noteq> []" using keep by (auto simp: list_ex_iff filter_empty_conv)
  have size: "(length (concat ?bytes) = 0 \<or>
      length (concat ?bytes) mod COMMISSIONING_RECORD_SIZE \<noteq> 0) = False"
    unfolding len
  proof (rule whole_records)
    show "0 < length ?kept" using ne by (rule length_greater_0_conv [THEN iffD2])
  qed (simp add: COMMISSIONING_RECORD_SIZE_def)
  have bytes: "record_bytes COMMISSIONING_RECORD_SIZE (concat ?bytes) = ?bytes"
    by (rule record_bytes_concat [OF _ sizes]) (simp add: COMMISSIONING_RECORD_SIZE_def)
  have recs: "those (map commissioning_record_of_bytes ?bytes) = Some (map restored_record ?kept)"
    unfolding map_map o_def by (rule those_map_Some) (use each commissioning_record_roundtrip in blast)
  show ?thesis
    unfolding registry_loadPersisted_def gets(1,2) option.case size bytes recs
    using gets(3) by simp
qed

theorem registry_roundtrip_witness:
  "registry_loadPersisted ram_nvs
     (snd (registry_persist ram_nvs [empty_record (1, 2, 3, 4, 5, 6) SMART COMMISSIONED] (\<lambda>k. None))) []
   = (True, map restored_record
        (filter (\<lambda>r. persisted_state (rec_lifecycleState r))
          [empty_record (1, 2, 3, 4, 5, 6) SMART COMMISSIONED]))"
proof (rule registry_roundtrip [OF ram_nvs_laws])
  have "record_ok (empty_record (1, 2, 3, 4, 5, 6) SMART COMMISSIONED)"
    by (rule empty_record_ok) (simp add: role_of_byte_def)
  then show "registry_ok [empty_record (1, 2, 3, 4, 5, 6) SMART COMMISSIONED]"
    by (simp add: registry_ok_def)
  show "list_ex (\<lambda>r. persisted_state (rec_lifecycleState r))
          [empty_record (1, 2, 3, 4, 5, 6) SMART COMMISSIONED]"
    by (simp add: persisted_state_def empty_record_def)
qed (simp add: registry_persist_def ram_nvs_def Let_def)

text \<open>
  A first commissioning waits for its own answer: once a Node is \<open>CONFIGURING\<close>, no other
  event, however many and in whatever order, takes it out of that state or lets it be
  requested again. Only the acknowledgement with the pending command identifier and an
  explicit decommissioning do: no time-out rolls it back.
\<close>

theorem configuring_waits:
  assumes r: "findByMac mac rs = Some r" "rec_lifecycleState r = CONFIGURING"
      "rec_syncState r = PENDING" "rec_pendingCommandId r = i"
    and events: "\<forall>ev \<in> set events. ev \<noteq> DecommissionNode mac \<and> (\<forall>ok s. ev \<noteq> Result mac i ok s)"
  shows "\<exists>r'. findByMac mac (fold registry_step events rs) = Some r' \<and>
           rec_lifecycleState r' = CONFIGURING \<and> rec_syncState r' = PENDING \<and>
           rec_pendingCommandId r' = i"
  using assms
proof (induction events arbitrary: rs r)
  case Nil
  then show ?case by auto
next
  case (Cons ev events)
  have mac: "rec_macAddress r = mac" using Cons.prems(1) by (simp add: findByMac_Some)
  have "\<exists>r'. findByMac mac (registry_step ev rs) = Some r' \<and>
           rec_lifecycleState r' = CONFIGURING \<and> rec_syncState r' = PENDING \<and>
           rec_pendingCommandId r' = i"
  proof (cases ev)
    case (Discovered m role fw chip pins count now)
    with Cons.prems mac show ?thesis
      by (cases "m = mac")
         (auto simp: recordDiscovered_def Let_def findByMac_append copyCapabilities_def
           findByMac_Some split: option.splits)
  next
    case (NewDiagnostics m d)
    with Cons.prems mac show ?thesis
      by (cases "m = mac") (auto simp: updateDiagnostics_def findByMac_Some split: option.splits)
  next
    case (RegisterSelf m nm fw chip pins count now)
    with Cons.prems mac show ?thesis by (auto simp: registerSelf_def findByMac_append)
  next
    case (Request m nm j)
    with Cons.prems mac show ?thesis
      by (cases "m = mac")
         (auto simp: requestCommissioning_def Let_def findByMac_Some split: option.splits)
  next
    case (Result m j ok s)
    with Cons.prems mac show ?thesis
      by (cases "m = mac")
         (auto simp: applyCommissionResult_def Let_def findByMac_Some split: option.splits)
  next
    case (DecommissionNode m)
    with Cons.prems mac show ?thesis
      by (cases "m = mac") (auto simp: decommission_def findByMac_Some split: option.splits)
  qed
  then show ?case using Cons.IH Cons.prems(5) by fastforce
qed

theorem configuring_waits_witness:
  "\<exists>r'. findByMac (1, 2, 3, 4, 5, 6)
      (fold registry_step [Request (1, 2, 3, 4, 5, 6) (Some ''Fan'') 8]
        (snd (requestCommissioning (1, 2, 3, 4, 5, 6) (Some ''Pump'') 7
          [empty_record (1, 2, 3, 4, 5, 6) SMART UNCOMMISSIONED]))) = Some r' \<and>
    rec_lifecycleState r' = CONFIGURING \<and> rec_syncState r' = PENDING \<and> rec_pendingCommandId r' = 7"
  by (rule configuring_waits)
     (auto simp: requestCommissioning_def findByMac_def empty_record_def isValidFriendlyName_def
       c_text_def FRIENDLY_NAME_BUFFER_SIZE_def setRecord_def)

end
