(* ===== verification/Load_Config.thy ===== *)
theory Load_Config
  imports Loads Persistence
begin

text \<open>
  \<open>LoadConfigurationStore\<close> (\<open>lib/LoadManager/Central/LoadConfigurationStore.cpp\<close>): the
  user's priority, mode and schedule per Load, kept across reboots and applied to the Load
  before every planning cycle.
\<close>

section \<open>The store\<close>

record ConfigurationEntry =
  entry_macAddress :: MacAddress
  entry_relayPin :: u8
  entry_priority :: u16
  entry_mode :: LoadModeValue
  entry_schedule :: AutoSchedule

type_synonym LoadConfigurationStore = "ConfigurationEntry list"

definition entry_key :: "ConfigurationEntry \<Rightarrow> MacAddress \<times> u8" where
  "entry_key e = (entry_macAddress e, entry_relayPin e)"

definition isValidSchedule :: "AutoSchedule \<Rightarrow> bool" where
  "isValidSchedule s =
     (if \<not> enabled s then True
      else if startHour s > 23 \<or> startMinute s > 59 \<or> endHour s > 23 \<or> endMinute s > 59 then False
      else minutes_of_day (startHour s) (startMinute s) \<noteq> minutes_of_day (endHour s) (endMinute s))"

definition findConfiguration ::
  "MacAddress \<Rightarrow> u8 \<Rightarrow> LoadConfigurationStore \<Rightarrow> ConfigurationEntry option" where
  "findConfiguration mac pin es = find (\<lambda>e. entry_macAddress e = mac \<and> entry_relayPin e = pin) es"

definition setConfiguration ::
  "ConfigurationEntry \<Rightarrow> LoadConfigurationStore \<Rightarrow> bool \<times> LoadConfigurationStore" where
  "setConfiguration entry es =
     (if \<not> isValidSchedule (entry_schedule entry) then (False, es)
      else case findConfiguration (entry_macAddress entry) (entry_relayPin entry) es of
        Some existing \<Rightarrow>
          (True, update_first
             (\<lambda>e. entry_macAddress e = entry_macAddress entry \<and> entry_relayPin e = entry_relayPin entry)
             (\<lambda>_. entry) es)
      | None \<Rightarrow> (True, es @ [entry]))"

definition removeConfiguration ::
  "MacAddress \<Rightarrow> u8 \<Rightarrow> LoadConfigurationStore \<Rightarrow> bool \<times> LoadConfigurationStore" where
  "removeConfiguration mac pin es =
     (if list_ex (\<lambda>e. entry_macAddress e = mac \<and> entry_relayPin e = pin) es
      then (True, erase_first (\<lambda>e. entry_macAddress e = mac \<and> entry_relayPin e = pin) es)
      else (False, es))"

definition applyToLoad :: "LoadConfigurationStore \<Rightarrow> Load \<Rightarrow> bool \<times> Load" where
  "applyToLoad es l =
     (case findConfiguration (getMacAddress l) (getRelayPin l) es of
        None \<Rightarrow> (False, l)
      | Some entry \<Rightarrow>
          (True, snd (setSchedule (entry_schedule entry)
                   (setMode (entry_mode entry) (setPriority (entry_priority entry) l)))))"

section \<open>Persistence\<close>

definition ENTRY_RECORD_SIZE :: nat where "ENTRY_RECORD_SIZE = 15"

definition LEGACY_ENTRY_RECORD_SIZE :: nat where "LEGACY_ENTRY_RECORD_SIZE = 13"

definition entry_bytes :: "ConfigurationEntry \<Rightarrow> u8 list" where
  "entry_bytes e =
     mac_bytes (entry_macAddress e) @ [entry_relayPin e] @ u16_bytes (entry_priority e) @
     [mode_byte (entry_mode e), bool_byte (enabled (entry_schedule e)),
      startHour (entry_schedule e), startMinute (entry_schedule e),
      endHour (entry_schedule e), endMinute (entry_schedule e)]"

definition entry_of_bytes :: "u8 list \<Rightarrow> ConfigurationEntry option" where
  "entry_of_bytes bs =
     (let e = \<lparr>entry_macAddress = mac_of_bytes (take 6 bs), entry_relayPin = bs ! 6,
               entry_priority = u16_of_bytes (take 2 (drop 7 bs)),
               entry_mode = mode_of_byte (bs ! 9),
               entry_schedule = AutoSchedule5 (bs ! 10 \<noteq> 0) (bs ! 11) (bs ! 12) (bs ! 13) (bs ! 14)\<rparr>
      in if isValidSchedule (entry_schedule e) then Some e else None)"

definition legacy_entry_of_bytes :: "u8 list \<Rightarrow> ConfigurationEntry" where
  "legacy_entry_of_bytes bs =
     \<lparr>entry_macAddress = mac_of_bytes (take 6 bs), entry_relayPin = bs ! 6,
      entry_priority = u16_of_bytes (take 2 (drop 7 bs)), entry_mode = mode_of_byte (bs ! 9),
      entry_schedule = AutoSchedule5 False 0 0 0 0\<rparr>"

definition load_legacy ::
  "'n NvsApi \<Rightarrow> 'n \<Rightarrow> LoadConfigurationStore \<Rightarrow> bool \<times> LoadConfigurationStore" where
  "load_legacy api n es =
     (case nvs_get_blob api n ''entries'' of
        None \<Rightarrow> (False, es)
      | Some buffer \<Rightarrow>
          if length buffer = 0 \<or> length buffer mod LEGACY_ENTRY_RECORD_SIZE \<noteq> 0 then (False, es)
          else (True, map legacy_entry_of_bytes (record_bytes LEGACY_ENTRY_RECORD_SIZE buffer)))"

definition config_loadPersisted ::
  "'n NvsApi \<Rightarrow> 'n \<Rightarrow> LoadConfigurationStore \<Rightarrow> bool \<times> LoadConfigurationStore" where
  "config_loadPersisted api n es =
     (if \<not> nvs_open_readonly api n then (False, es)
      else case nvs_get_blob api n ''entries_v2'' of
        Some buffer \<Rightarrow>
          if length buffer > 0 \<and> length buffer mod ENTRY_RECORD_SIZE = 0
          then (case those (map entry_of_bytes (record_bytes ENTRY_RECORD_SIZE buffer)) of
                  None \<Rightarrow> (False, es)
                | Some restored \<Rightarrow> (True, restored))
          else load_legacy api n es
      | None \<Rightarrow> load_legacy api n es)"

definition config_persist :: "'n NvsApi \<Rightarrow> LoadConfigurationStore \<Rightarrow> 'n \<Rightarrow> bool \<times> 'n" where
  "config_persist api es n =
     (if \<not> nvs_open_readwrite api n then (False, n)
      else nvs_then (nvs_set_blob api ''entries_v2'' (concat (map entry_bytes es)) n)
             (nvs_commit api))"

section \<open>The store as a map\<close>

definition store_ok :: "LoadConfigurationStore \<Rightarrow> bool" where
  "store_ok es \<longleftrightarrow>
     distinct (map entry_key es) \<and> list_all (\<lambda>e. isValidSchedule (entry_schedule e)) es"

lemma isValidSchedule_eq: "isValidSchedule s = schedule_valid s"
  by (simp add: isValidSchedule_def schedule_valid_def times_in_range_def)

lemma find_key_eq:
  "(\<lambda>e. entry_macAddress e = mac \<and> entry_relayPin e = pin) = (\<lambda>e. entry_key e = (mac, pin))"
  by (auto simp: entry_key_def)

lemma findConfiguration_key:
  "findConfiguration mac pin es = find (\<lambda>e. entry_key e = (mac, pin)) es"
  by (simp add: findConfiguration_def find_key_eq)

lemma set_lookup:
  assumes "setConfiguration entry es = (True, es')"
  shows "findConfiguration mac pin es' =
         (if (mac, pin) = entry_key entry then Some entry else findConfiguration mac pin es)"
proof -
  have key: "entry_key entry = (entry_macAddress entry, entry_relayPin entry)"
    by (simp add: entry_key_def)
  show ?thesis
  proof (cases "findConfiguration (entry_macAddress entry) (entry_relayPin entry) es")
    case None
    with assms have "es' = es @ [entry]"
      by (auto simp: setConfiguration_def split: if_splits)
    with None show ?thesis
      by (auto simp: findConfiguration_key find_append key split: option.splits)
  next
    case (Some old)
    with assms have es': "es' = update_first (\<lambda>e. entry_key e = entry_key entry) (\<lambda>_. entry) es"
      by (auto simp: setConfiguration_def find_key_eq key split: if_splits)
    show ?thesis
    proof (cases "(mac, pin) = entry_key entry")
      case True
      have "find (\<lambda>e. entry_key e = entry_key entry) es' =
            map_option (\<lambda>_. entry) (find (\<lambda>e. entry_key e = entry_key entry) es)"
        unfolding es' by (rule find_update_first_same) simp
      with Some True show ?thesis by (simp add: findConfiguration_key key)
    next
      case False
      have "find (\<lambda>e. entry_key e = (mac, pin)) es' = find (\<lambda>e. entry_key e = (mac, pin)) es"
        unfolding es' by (rule find_update_first_other) (use False in auto)
      with False show ?thesis by (simp add: findConfiguration_key)
    qed
  qed
qed

lemma remove_lookup:
  assumes "store_ok es" and "removeConfiguration mac pin es = (found, es')"
  shows "findConfiguration mac' pin' es' =
         (if (mac', pin') = (mac, pin) then None else findConfiguration mac' pin' es)"
proof -
  have es': "es' = erase_first (\<lambda>e. entry_key e = (mac, pin)) es"
  proof (cases found)
    case True
    with assms(2) show ?thesis
      by (auto simp: removeConfiguration_def find_key_eq split: if_splits)
  next
    case False
    with assms(2) have "es' = es" and "find (\<lambda>e. entry_key e = (mac, pin)) es = None"
      by (auto simp: removeConfiguration_def find_key_eq find_None_iff list_ex_iff split: if_splits)
    then show ?thesis by (simp add: erase_first_id)
  qed
  show ?thesis
  proof (cases "(mac', pin') = (mac, pin)")
    case True
    with assms(1) show ?thesis
      by (simp add: findConfiguration_key es' store_ok_def find_key_erase_first)
  next
    case False
    then have "find (\<lambda>e. entry_key e = (mac', pin')) es' = find (\<lambda>e. entry_key e = (mac', pin')) es"
      unfolding es' by (intro find_erase_first_other) auto
    with False show ?thesis by (auto simp: findConfiguration_key)
  qed
qed

lemma list_all_store: "list_all P es \<longleftrightarrow> (\<forall>e \<in> set es. P e)"
  by (simp add: list_all_iff)

lemma setConfiguration_ok [inv_intros]: "store_ok es \<Longrightarrow> store_ok (snd (setConfiguration entry es))"
proof (cases "isValidSchedule (entry_schedule entry)")
  case valid: True
  assume ok: "store_ok es"
  let ?P = "\<lambda>e. entry_key e = entry_key entry"
  have key: "(\<lambda>e. entry_macAddress e = entry_macAddress entry \<and> entry_relayPin e = entry_relayPin entry)
    = ?P" by (auto simp: entry_key_def)
  show ?thesis
  proof (cases "find ?P es")
    case None
    with valid have "snd (setConfiguration entry es) = es @ [entry]"
      by (simp add: setConfiguration_def findConfiguration_def key)
    with ok valid None show ?thesis
      by (auto simp: store_ok_def find_None_iff list_all_store)
  next
    case (Some old)
    with valid have "snd (setConfiguration entry es) = update_first ?P (\<lambda>_. entry) es"
      by (simp add: setConfiguration_def findConfiguration_def key)
    moreover have "map entry_key (update_first ?P (\<lambda>_. entry) es) = map entry_key es"
      by (rule map_update_first) simp
    moreover have "list_all (\<lambda>e. isValidSchedule (entry_schedule e)) (update_first ?P (\<lambda>_. entry) es)"
      by (rule list_all_update_first) (use ok valid in \<open>auto simp: store_ok_def\<close>)
    ultimately show ?thesis using ok by (simp add: store_ok_def)
  qed
qed (simp add: setConfiguration_def)

lemma removeConfiguration_ok [inv_intros]:
  "store_ok es \<Longrightarrow> store_ok (snd (removeConfiguration mac pin es))"
  by (auto simp: store_ok_def removeConfiguration_def list_all_erase_first distinct_map_erase_first)

lemma setConfiguration_accepts:
  "fst (setConfiguration entry es) = isValidSchedule (entry_schedule entry)"
  by (auto simp: setConfiguration_def split: option.splits)

interpretation config: keyed_store
  "\<lambda>(mac, pin). findConfiguration mac pin" setConfiguration
  "\<lambda>(mac, pin). removeConfiguration mac pin" entry_key
  "\<lambda>e. isValidSchedule (entry_schedule e)" store_ok
proof unfold_locales
  fix v s s' k assume "setConfiguration v s = (True, s')"
  then show "(case k of (mac, pin) \<Rightarrow> findConfiguration mac pin) s' =
    (if k = entry_key v then Some v else (case k of (mac, pin) \<Rightarrow> findConfiguration mac pin) s)"
    using set_lookup [of v s s'] by (cases k) auto
next
  fix v s show "fst (setConfiguration v s) = isValidSchedule (entry_schedule v)"
    by (rule setConfiguration_accepts)
next
  fix v s s' assume "setConfiguration v s = (False, s')"
  then show "s' = s" by (auto simp: setConfiguration_def split: if_splits option.splits)
next
  fix s k found s' k'
  assume "store_ok s" and "(case k of (mac, pin) \<Rightarrow> removeConfiguration mac pin) s = (found, s')"
  then show "(case k' of (mac, pin) \<Rightarrow> findConfiguration mac pin) s' =
    (if k' = k then None else (case k' of (mac, pin) \<Rightarrow> findConfiguration mac pin) s)"
    using remove_lookup [of s "fst k" "snd k" found s' "fst k'" "snd k'"]
    by (cases k; cases k') auto
next
  fix s v assume "store_ok s" then show "store_ok (snd (setConfiguration v s))"
    by (rule setConfiguration_ok)
next
  fix s k assume "store_ok s"
  then show "store_ok (snd ((case k of (mac, pin) \<Rightarrow> removeConfiguration mac pin) s))"
    by (cases k) (simp add: removeConfiguration_ok)
qed

section \<open>The packed entries\<close>

text \<open>
  The two things a byte record cannot carry: an unnamed mode below four, and times in a
  disabled schedule.
\<close>

definition entry_normal :: "ConfigurationEntry \<Rightarrow> bool" where
  "entry_normal e \<longleftrightarrow>
     mode_of_byte (mode_byte (entry_mode e)) = entry_mode e \<and>
     (\<not> enabled (entry_schedule e) \<longrightarrow> entry_schedule e = no_schedule)"

lemma length_entry_bytes [simp]: "length (entry_bytes e) = ENTRY_RECORD_SIZE"
  by (simp add: entry_bytes_def ENTRY_RECORD_SIZE_def)

lemma entry_slices:
  assumes "length m = 6" "length w = 2" and "bs = m @ [a] @ w @ [b, c, d, e, f, g]"
  shows "take 6 bs = m" "bs ! 6 = a" "take 2 (drop 7 bs) = w" "bs ! 9 = b" "bs ! 10 = c"
    "bs ! 11 = d" "bs ! 12 = e" "bs ! 13 = f" "bs ! 14 = g"
  using assms(1,2) by (simp_all add: assms(3) nth_append)

lemma entry_roundtrip:
  assumes valid: "isValidSchedule (entry_schedule e)" and normal: "entry_normal e"
  shows "entry_of_bytes (entry_bytes e) = Some e"
proof -
  have len: "length (mac_bytes (entry_macAddress e)) = 6" "length (u16_bytes (entry_priority e)) = 2"
    by simp_all
  have sched: "AutoSchedule5 (bool_byte (enabled (entry_schedule e)) \<noteq> 0)
      (startHour (entry_schedule e)) (startMinute (entry_schedule e))
      (endHour (entry_schedule e)) (endMinute (entry_schedule e)) = entry_schedule e"
    using normal by (cases "enabled (entry_schedule e)") (simp_all add: bool_byte_def entry_normal_def)
  have mode: "mode_of_byte (mode_byte (entry_mode e)) = entry_mode e"
    using normal by (simp add: entry_normal_def)
  show ?thesis
    unfolding entry_of_bytes_def Let_def entry_slices [OF len entry_bytes_def [of e]]
      mac_of_mac_bytes u16_of_u16_bytes sched mode
    using valid by simp
qed

section \<open>The properties of the store\<close>

text \<open>
  C29: The configuration store is a finite map from (MAC address, relay pin) to entries: after
  any history of settings and removals, starting empty, looking a Load up gives what the
  same history of map updates gives, a setting with an invalid window being no update.
\<close>

theorem configuration_store_is_map:
  "(\<lambda>(mac, pin). findConfiguration mac pin
      (fold (case_sum (\<lambda>e es. snd (setConfiguration e es))
                      (\<lambda>(mac, pin) es. snd (removeConfiguration mac pin es))) history [])) =
   fold (case_sum (\<lambda>e m. if isValidSchedule (entry_schedule e) then m(entry_key e \<mapsto> e) else m)
                  (\<lambda>k m. m(k := None))) history Map.empty"
proof -
  have "store_ok []" by (simp add: store_ok_def)
  from config.history_view [OF this, of history] show ?thesis
    by (simp add: case_prod_unfold findConfiguration_def)
qed

lemma configured_load:
  assumes "named_mode m" and "schedule_valid s"
  shows "snd (setSchedule s (setMode m (setPriority p l))) =
         l\<lparr>load_priority := p, load_mode := m,
           load_schedule := (if m \<in> {AUTO_OFF, AUTO_ON} \<and> enabled s then s else no_schedule)\<rparr>"
proof (cases "m \<in> {AUTO_OFF, AUTO_ON}")
  case True
  then have "isAuto (setMode m (setPriority p l))" and "\<not> isFixed (l\<lparr>load_priority := p, load_mode := m\<rparr>)"
    by (auto simp: isAuto_def isFixed_def)
  then show ?thesis using True assms(2)
    by (simp add: setMode_def setPriority_def setSchedule_auto)
next
  case False
  with assms(1) have "m = FIXED_OFF \<or> m = FIXED_ON" by (auto simp: named_mode_def)
  then show ?thesis
    by (elim disjE)
       (simp_all add: setSchedule_def setMode_def setPriority_def clearSchedule_def isFixed_def isAuto_def)
qed

text \<open>
  The user's settings reach the Load: when the store holds an entry for a Load, applying
  the store gives the Load the entry's priority and mode, and in an Auto mode exactly the
  entry's window (none if it is disabled), in a Fixed mode no window; identity, name, rating
  and power type stay as they are.
\<close>

theorem applyToLoad_sets:
  assumes ok: "store_ok es" and e: "findConfiguration (getMacAddress l) (getRelayPin l) es = Some e"
    and mode: "named_mode (entry_mode e)"
  shows "\<exists>l'. applyToLoad es l = (True, l') \<and>
           l' = l\<lparr>load_priority := entry_priority e, load_mode := entry_mode e,
                  load_schedule :=
                    (if entry_mode e \<in> {AUTO_OFF, AUTO_ON} \<and> enabled (entry_schedule e)
                     then entry_schedule e else no_schedule)\<rparr>"
proof -
  have "e \<in> set es"
    using e unfolding findConfiguration_def by (rule find_Some_in [THEN conjunct1])
  with ok have "schedule_valid (entry_schedule e)"
    by (auto simp: store_ok_def list_all_iff isValidSchedule_eq)
  from configured_load [OF mode this, of "entry_priority e" l] show ?thesis
    by (simp add: applyToLoad_def e)
qed

text \<open>An entry for a water heater.\<close>

definition example_entry :: ConfigurationEntry where
  "example_entry =
     \<lparr>entry_macAddress = (1, 2, 3, 4, 5, 6), entry_relayPin = 25, entry_priority = 9,
      entry_mode = AUTO_OFF, entry_schedule = AutoSchedule5 True 22 30 6 0\<rparr>"

lemma example_entry_ok: "store_ok [example_entry]" "entry_normal example_entry"
  by (simp_all add: store_ok_def example_entry_def isValidSchedule_def AutoSchedule5_def
      minutes_of_day_def entry_normal_def mode_of_byte_def)

theorem applyToLoad_sets_witness:
  "\<exists>l'. applyToLoad [example_entry]
      (new_Load \<lparr>id_mac = (1, 2, 3, 4, 5, 6), id_pin = 25\<rparr> ''Heater'' (watts 800) 1 AC FIXED_ON)
    = (True, l') \<and> load_priority l' = 9"
proof -
  let ?l = "new_Load \<lparr>id_mac = (1, 2, 3, 4, 5, 6), id_pin = 25\<rparr> ''Heater'' (watts 800) 1 AC FIXED_ON"
  have "findConfiguration (getMacAddress ?l) (getRelayPin ?l) [example_entry] = Some example_entry"
    by (simp add: findConfiguration_def example_entry_def getMacAddress_def getRelayPin_def)
  from applyToLoad_sets [OF example_entry_ok(1) this] obtain l'
    where "applyToLoad [example_entry] ?l = (True, l')" and "load_priority l' = entry_priority example_entry"
    by (auto simp: example_entry_def named_mode_def)
  then show ?thesis by (auto simp: example_entry_def)
qed

text \<open>
  What the store persists is what it restores: when both writes succeeded and there is an
  entry, loading gives back the same entries in the same order.
\<close>

theorem configuration_roundtrip:
  assumes laws: "nvs_laws api" and ok: "store_ok es" and normal: "list_all entry_normal es"
    and ne: "es \<noteq> []" and persist: "config_persist api es n = (True, n')"
  shows "config_loadPersisted api n' other = (True, es)"
proof -
  let ?bytes = "map entry_bytes es"
  obtain n1 where w: "nvs_set_blob api ''entries_v2'' (concat ?bytes) n = (True, n1)"
    "nvs_commit api n1 = (True, n')"
    using persist by (auto simp: config_persist_def nvs_then_True split: if_splits)
  have gets: "nvs_get_blob api n' ''entries_v2'' = Some (concat ?bytes)" "nvs_open_readonly api n'"
    using nvs_set_blobD [OF laws w(1)] nvs_commitD [OF laws w(2)] by simp_all
  have sizes: "length b = ENTRY_RECORD_SIZE" if "b \<in> set ?bytes" for b
    using that by auto
  have "length (concat ?bytes) = length ?bytes * ENTRY_RECORD_SIZE"
    by (rule length_concat_records) (rule sizes)
  then have size: "length (concat ?bytes) > 0 \<and> length (concat ?bytes) mod ENTRY_RECORD_SIZE = 0"
    using ne by (simp add: ENTRY_RECORD_SIZE_def)
  have bytes: "record_bytes ENTRY_RECORD_SIZE (concat ?bytes) = ?bytes"
    by (rule record_bytes_concat [OF _ sizes]) (simp add: ENTRY_RECORD_SIZE_def)
  have "those (map entry_of_bytes ?bytes) = Some (map (\<lambda>e. e) es)"
    unfolding map_map o_def
    by (rule those_map_Some) (use ok normal entry_roundtrip in \<open>auto simp: store_ok_def list_all_iff\<close>)
  then show ?thesis
    using gets size bytes by (simp add: config_loadPersisted_def)
qed

theorem configuration_roundtrip_witness:
  "config_loadPersisted ram_nvs (snd (config_persist ram_nvs [example_entry] (\<lambda>k. None))) []
   = (True, [example_entry])"
  by (rule configuration_roundtrip [OF ram_nvs_laws])
     (simp_all add: example_entry_ok config_persist_def ram_nvs_def)

text \<open>
  Settings removed by the user can come back: on a device that still has the records of
  the older format under their own key, persisting an empty store, every write successful,
  makes the next boot restore all of the old records.
\<close>

theorem removed_settings_return:
  assumes laws: "nvs_laws api"
    and old: "nvs_get_blob api n ''entries'' = Some (concat olds)" "olds \<noteq> []"
      "\<forall>r \<in> set olds. length r = LEGACY_ENTRY_RECORD_SIZE"
    and persist: "config_persist api [] n = (True, n')"
  shows "config_loadPersisted api n' [] = (True, map legacy_entry_of_bytes olds)"
proof -
  obtain n1 where w: "nvs_set_blob api ''entries_v2'' [] n = (True, n1)"
    "nvs_commit api n1 = (True, n')"
    using persist by (auto simp: config_persist_def nvs_then_True split: if_splits)
  have gets: "nvs_get_blob api n' ''entries_v2'' = Some []"
    "nvs_get_blob api n' ''entries'' = Some (concat olds)" "nvs_open_readonly api n'"
    using nvs_set_blobD [OF laws w(1)] nvs_commitD [OF laws w(2)] old(1)
    by (simp_all add: nvs_same_but_def)
  have sizes: "length r = LEGACY_ENTRY_RECORD_SIZE" if "r \<in> set olds" for r using that old(3) by blast
  have len: "length (concat olds) = length olds * LEGACY_ENTRY_RECORD_SIZE"
    by (rule length_concat_records) (rule sizes)
  have "record_bytes LEGACY_ENTRY_RECORD_SIZE (concat olds) = olds"
    by (rule record_bytes_concat [OF _ sizes]) (simp add: LEGACY_ENTRY_RECORD_SIZE_def)
  moreover have "(length (concat olds) = 0 \<or> length (concat olds) mod LEGACY_ENTRY_RECORD_SIZE \<noteq> 0) = False"
    unfolding len by (rule whole_records) (use old(2) in \<open>simp_all add: LEGACY_ENTRY_RECORD_SIZE_def\<close>)
  ultimately show ?thesis
    using gets unfolding config_loadPersisted_def load_legacy_def by simp
qed

theorem removed_settings_return_witness:
  "config_loadPersisted ram_nvs
     (snd (config_persist ram_nvs [] [''entries'' \<mapsto> NvsBlob (replicate 13 1)])) []
   = (True, [legacy_entry_of_bytes (replicate 13 1)])"
  using removed_settings_return [OF ram_nvs_laws, of "[''entries'' \<mapsto> NvsBlob (replicate 13 1)]"
      "[replicate 13 1]"]
  by (simp add: config_persist_def ram_nvs_def LEGACY_ENTRY_RECORD_SIZE_def)

end
