(* ===== verification/Dispatcher.thy ===== *)
theory Dispatcher
  imports Loads "HOL-Library.Multiset"
begin

text \<open>
  \<open>RelayCommandDispatcher\<close> (\<open>lib/RelayManager/Central/RelayCommandDispatcher.cpp\<close>): the
  order in which a cycle's relay targets are commanded, and the bookkeeping of commands that
  wait for their acknowledgement.
\<close>

section \<open>Dispatch order\<close>

record RelayTarget =
  target_nodeMacAddress :: MacAddress
  target_relayPin :: u8
  target_desiredOn :: bool

fun split_phases :: "RelayTarget list \<Rightarrow> RelayTarget list \<times> RelayTarget list \<Rightarrow>
  RelayTarget list \<times> RelayTarget list" where
  "split_phases [] (offPhase, onPhase) = (offPhase, onPhase)"
| "split_phases (t # ts) (offPhase, onPhase) =
     (if target_desiredOn t then split_phases ts (offPhase, onPhase @ [t])
      else split_phases ts (offPhase @ [t], onPhase))"

definition buildDispatchOrder :: "RelayTarget list \<Rightarrow> RelayTarget list" where
  "buildDispatchOrder targets =
     (case split_phases targets ([], []) of (offPhase, onPhase) \<Rightarrow> offPhase @ onPhase)"

lemma split_phases_filter:
  "split_phases ts (a, b) =
   (a @ filter (\<lambda>t. \<not> target_desiredOn t) ts, b @ filter target_desiredOn ts)"
  by (induction ts arbitrary: a b) auto

lemma buildDispatchOrder_filter:
  "buildDispatchOrder ts = filter (\<lambda>t. \<not> target_desiredOn t) ts @ filter target_desiredOn ts"
  by (simp add: buildDispatchOrder_def split_phases_filter)

lemma set_buildDispatchOrder [simp]: "set (buildDispatchOrder ts) = set ts"
  by (auto simp: buildDispatchOrder_filter)

lemma mset_buildDispatchOrder: "mset (buildDispatchOrder ts) = mset ts"
  unfolding buildDispatchOrder_filter by (induction ts) auto

lemma sorted_buildDispatchOrder:
  "sorted_wrt (\<lambda>s t. \<not> (target_desiredOn s \<and> \<not> target_desiredOn t)) (buildDispatchOrder ts)"
proof -
  have "sorted_wrt (\<lambda>s t. \<not> (target_desiredOn s \<and> \<not> target_desiredOn t)) (filter P ts)"
    if "P = target_desiredOn \<or> P = (\<lambda>t. \<not> target_desiredOn t)" for P
    using that by (induction ts) auto
  then show ?thesis by (auto simp: buildDispatchOrder_filter sorted_wrt_append)
qed

text \<open>
  C28: Dispatch releases capacity before it uses it: the order holds every target exactly as
  often as it was given and none else, no ON command stands before an OFF command, and
  within the OFF commands and within the ON commands the order is the caller's.
\<close>

theorem dispatch_order_off_before_on:
  "mset (buildDispatchOrder ts) = mset ts \<and>
   sorted_wrt (\<lambda>s t. \<not> (target_desiredOn s \<and> \<not> target_desiredOn t)) (buildDispatchOrder ts) \<and>
   filter target_desiredOn (buildDispatchOrder ts) = filter target_desiredOn ts \<and>
   filter (\<lambda>t. \<not> target_desiredOn t) (buildDispatchOrder ts) = filter (\<lambda>t. \<not> target_desiredOn t) ts"
  by (intro conjI mset_buildDispatchOrder sorted_buildDispatchOrder)
    (simp_all add: buildDispatchOrder_filter filter_empty_conv)

section \<open>Commands and their acknowledgements\<close>

record PendingCommand =
  pending_commandId :: u32
  pending_nodeMacAddress :: MacAddress
  pending_relayPin :: u8
  pending_desiredOn :: bool

record RelayCommandDispatcher =
  pendingCommands :: "PendingCommand list"
  nextCommandId :: u32
  lastCompletedCommandId :: u32
  lastCompletedCommandSuccess :: bool

definition new_RelayCommandDispatcher :: RelayCommandDispatcher where
  "new_RelayCommandDispatcher =
     \<lparr>pendingCommands = [], nextCommandId = 1, lastCompletedCommandId = 0,
      lastCompletedCommandSuccess = False\<rparr>"

definition beginCommand ::
  "RelayTarget \<Rightarrow> RelayCommandDispatcher \<Rightarrow> u32 \<times> RelayCommandDispatcher" where
  "beginCommand t d =
     (let commandId = nextCommandId d
      in (commandId,
          d\<lparr>nextCommandId := nextCommandId d + 1,
            pendingCommands := pendingCommands d @
              [\<lparr>pending_commandId = commandId, pending_nodeMacAddress = target_nodeMacAddress t,
                pending_relayPin = target_relayPin t, pending_desiredOn = target_desiredOn t\<rparr>]\<rparr>))"

definition findPendingCommand :: "u32 \<Rightarrow> RelayCommandDispatcher \<Rightarrow> PendingCommand option" where
  "findPendingCommand commandId d = find (\<lambda>p. pending_commandId p = commandId) (pendingCommands d)"

definition isPending :: "u32 \<Rightarrow> RelayCommandDispatcher \<Rightarrow> bool" where
  "isPending commandId d \<longleftrightarrow> findPendingCommand commandId d \<noteq> None"

definition completeCommand ::
  "u32 \<Rightarrow> bool \<Rightarrow> RelayCommandDispatcher \<Rightarrow> bool \<times> RelayCommandDispatcher" where
  "completeCommand commandId success d =
     (if list_ex (\<lambda>p. pending_commandId p = commandId) (pendingCommands d)
      then (True,
        d\<lparr>pendingCommands := erase_first (\<lambda>p. pending_commandId p = commandId) (pendingCommands d),
          lastCompletedCommandId := commandId,
          lastCompletedCommandSuccess := success\<rparr>)
      else (False, d))"

definition wasCommandSuccessful :: "u32 \<Rightarrow> RelayCommandDispatcher \<Rightarrow> bool" where
  "wasCommandSuccessful commandId d \<longleftrightarrow>
     commandId = lastCompletedCommandId d \<and> lastCompletedCommandSuccess d"

definition clearPendingCommands :: "RelayCommandDispatcher \<Rightarrow> RelayCommandDispatcher" where
  "clearPendingCommands d = d\<lparr>pendingCommands := []\<rparr>"

text \<open>Histories of the dispatcher; a history collects the identifiers it allocated.\<close>

datatype dispatch_op = Begin RelayTarget | Complete u32 bool | ClearPending

fun dispatch_run ::
  "dispatch_op list \<Rightarrow> RelayCommandDispatcher \<Rightarrow> u32 list \<times> RelayCommandDispatcher" where
  "dispatch_run [] d = ([], d)"
| "dispatch_run (Begin t # ops) d =
     (case beginCommand t d of (i, d1) \<Rightarrow>
      case dispatch_run ops d1 of (ids, d2) \<Rightarrow> (i # ids, d2))"
| "dispatch_run (Complete i s # ops) d = dispatch_run ops (snd (completeCommand i s d))"
| "dispatch_run (ClearPending # ops) d = dispatch_run ops (clearPendingCommands d)"

lemma nextCommandId_ops [simp]:
  "nextCommandId (snd (completeCommand i s d)) = nextCommandId d"
  "nextCommandId (clearPendingCommands d) = nextCommandId d"
  by (simp_all add: completeCommand_def clearPendingCommands_def)

text \<open>The identifiers are consecutive words.\<close>

lemma dispatch_run_ids:
  "fst (dispatch_run ops d) =
     map (\<lambda>k. nextCommandId d + of_nat k) [0..<length (fst (dispatch_run ops d))] \<and>
   nextCommandId (snd (dispatch_run ops d)) =
     nextCommandId d + of_nat (length (fst (dispatch_run ops d)))"
proof (induction ops d rule: dispatch_run.induct)
  case (2 t ops d)
  obtain i d1 where b: "beginCommand t d = (i, d1)" by (cases "beginCommand t d")
  then have i: "i = nextCommandId d" and nxt: "nextCommandId d1 = nextCommandId d + 1"
    by (auto simp: beginCommand_def Let_def)
  obtain ids d2 where r: "dispatch_run ops d1 = (ids, d2)" by (cases "dispatch_run ops d1")
  have ih: "ids = map (\<lambda>k. nextCommandId d1 + of_nat k) [0..<length ids]"
    "nextCommandId d2 = nextCommandId d1 + of_nat (length ids)"
    using "2.IH" [OF b [symmetric]] r by simp_all
  have "map (\<lambda>k. nextCommandId d + of_nat k) [0..<Suc (length ids)] =
        nextCommandId d # map (\<lambda>k. nextCommandId d1 + of_nat k) [0..<length ids]"
    by (simp add: upt_rec [of 0] nxt map_Suc_upt [symmetric] add.assoc del: upt_Suc)
  with ih show ?case by (simp add: b r i nxt add.assoc del: upt_Suc)
qed simp_all

lemma of_nat_u32_inj:
  assumes "j < 2 ^ 32" and "k < 2 ^ 32" and "(of_nat j :: u32) = of_nat k"
  shows "j = k"
proof -
  from assms(3) have "unat (of_nat j :: u32) = unat (of_nat k :: u32)" by simp
  with assms(1,2) show ?thesis by (simp add: unsigned_of_nat take_bit_nat_eq_self)
qed

text \<open>
  A command identifier is never given twice in the first $2^{32}$ commands of a
  dispatcher, however the acknowledgements, failures and clearings interleave with them,
  so a late acknowledgement cannot be taken for that of another command.
\<close>

theorem command_ids_distinct:
  assumes "length (fst (dispatch_run ops d)) \<le> 2 ^ 32"
  shows "distinct (fst (dispatch_run ops d))"
proof -
  let ?n = "length (fst (dispatch_run ops d))"
  have "inj_on (\<lambda>k. nextCommandId d + of_nat k) {0..<?n}"
    by (rule inj_onI) (use assms of_nat_u32_inj in \<open>auto\<close>)
  then have "distinct (map (\<lambda>k. nextCommandId d + of_nat k) [0..<?n])"
    by (simp add: distinct_map)
  then show ?thesis using dispatch_run_ids [of ops d] by metis
qed

definition example_target :: RelayTarget where
  "example_target =
     \<lparr>target_nodeMacAddress = (1, 2, 3, 4, 5, 6), target_relayPin = 25, target_desiredOn = True\<rparr>"

theorem command_ids_distinct_witness:
  "distinct (fst (dispatch_run [Begin example_target, Complete 1 True, Begin example_target]
     new_RelayCommandDispatcher))"
  by (rule command_ids_distinct)
     (simp add: beginCommand_def Let_def split: prod.splits)

definition dispatcher_ok :: "RelayCommandDispatcher \<Rightarrow> bool" where
  "dispatcher_ok d \<longleftrightarrow> distinct (map pending_commandId (pendingCommands d))"

text \<open>
  An acknowledgement completes a command exactly once: for a pending command the first
  one is accepted, records its own success flag as the outcome of that command, and leaves
  every other pending command pending; any further one for the same identifier is refused
  and changes nothing.
\<close>

theorem complete_once:
  assumes ok: "dispatcher_ok d" and pending: "isPending i d"
  shows "\<exists>d'. completeCommand i s d = (True, d') \<and>
           (wasCommandSuccessful i d' \<longleftrightarrow> s) \<and>
           (\<forall>j. isPending j d' \<longleftrightarrow> j \<noteq> i \<and> isPending j d) \<and>
           completeCommand i s2 d' = (False, d')"
proof -
  let ?P = "\<lambda>p. pending_commandId p = i"
  let ?d = "d\<lparr>pendingCommands := erase_first ?P (pendingCommands d),
              lastCompletedCommandId := i, lastCompletedCommandSuccess := s\<rparr>"
  have ex: "list_ex ?P (pendingCommands d)"
    using pending by (auto simp: isPending_def findPendingCommand_def find_Some_iff list_ex_iff)
  have erased: "erase_first ?P (pendingCommands d) = filter (\<lambda>p. pending_commandId p \<noteq> i) (pendingCommands d)"
    using ok by (intro erase_first_filter) (simp add: dispatcher_ok_def)
  have "isPending j ?d \<longleftrightarrow> j \<noteq> i \<and> isPending j d" for j
    by (auto simp: isPending_def findPendingCommand_def find_None_iff erased)
  moreover have "completeCommand i s2 ?d = (False, ?d)"
    by (auto simp: completeCommand_def erased list_ex_iff)
  ultimately show ?thesis using ex by (auto simp: completeCommand_def wasCommandSuccessful_def)
qed

theorem complete_once_witness:
  "\<exists>d'. completeCommand 1 True (snd (beginCommand example_target new_RelayCommandDispatcher)) = (True, d') \<and>
        wasCommandSuccessful 1 d'"
proof -
  let ?d = "snd (beginCommand example_target new_RelayCommandDispatcher)"
  have "dispatcher_ok ?d" and "isPending 1 ?d"
    by (simp_all add: dispatcher_ok_def beginCommand_def new_RelayCommandDispatcher_def isPending_def
        findPendingCommand_def Let_def)
  from complete_once [OF this, of True] show ?thesis by auto
qed

end
