(* ===== verification/Node_Registry.thy ===== *)
theory Node_Registry
  imports Loads
begin

unbundle bit_operations_syntax

text \<open>
  \<open>Node\<close> (\<open>lib/NodeManager/Node.cpp\<close>), the node report packets and the pages a Smart Node
  splits its report into (\<open>src/smart/namespace.h\<close>), and Central's planning copy that is
  rebuilt from them (\<open>lib/NodeManager/Central/CentralNodeRegistry.cpp\<close>).
\<close>

section \<open>Node\<close>

record Node =
  node_macAddress :: MacAddress
  node_loads :: "Load list"

definition new_Node :: "MacAddress \<Rightarrow> Node" where
  "new_Node mac = \<lparr>node_macAddress = mac, node_loads = []\<rparr>"

definition getLoadByRelayPin :: "u8 \<Rightarrow> Node \<Rightarrow> Load option" where
  "getLoadByRelayPin pin node = find (\<lambda>l. getRelayPin l = pin) (node_loads node)"

definition isRelayPinAlreadyUsed :: "u8 \<Rightarrow> Node \<Rightarrow> bool" where
  "isRelayPinAlreadyUsed pin node \<longleftrightarrow> getLoadByRelayPin pin node \<noteq> None"

definition addLoad :: "Load \<Rightarrow> Node \<Rightarrow> bool \<times> Node" where
  "addLoad l node =
     (if getMacAddress l \<noteq> node_macAddress node then (False, node)
      else if isRelayPinAlreadyUsed (getRelayPin l) node then (False, node)
      else (True, node\<lparr>node_loads := node_loads node @ [l]\<rparr>))"

definition removeLoadByRelayPin :: "u8 \<Rightarrow> Node \<Rightarrow> bool \<times> Node" where
  "removeLoadByRelayPin pin node =
     (if list_ex (\<lambda>l. getRelayPin l = pin) (node_loads node)
      then (True, node\<lparr>node_loads := erase_first (\<lambda>l. getRelayPin l = pin) (node_loads node)\<rparr>)
      else (False, node))"

text \<open>Writing through the pointer that \<open>getLoadByRelayPin\<close> returns.\<close>

definition updateLoad :: "u8 \<Rightarrow> (Load \<Rightarrow> Load) \<Rightarrow> Node \<Rightarrow> Node" where
  "updateLoad pin f node =
     node\<lparr>node_loads := update_first (\<lambda>l. getRelayPin l = pin) f (node_loads node)\<rparr>"

definition node_ok :: "Node \<Rightarrow> bool" where
  "node_ok node \<longleftrightarrow>
     distinct (map getRelayPin (node_loads node)) \<and>
     list_all (\<lambda>l. getMacAddress l = node_macAddress node) (node_loads node)"

lemma new_Node_ok [inv_intros]: "node_ok (new_Node mac)"
  by (simp add: node_ok_def new_Node_def)

lemma addLoad_ok [inv_intros]: "node_ok node \<Longrightarrow> node_ok (snd (addLoad l node))"
  by (auto simp: node_ok_def addLoad_def isRelayPinAlreadyUsed_def getLoadByRelayPin_def
      find_None_notin)

lemma removeLoad_ok [inv_intros]: "node_ok node \<Longrightarrow> node_ok (snd (removeLoadByRelayPin pin node))"
  by (auto simp: node_ok_def removeLoadByRelayPin_def list_all_erase_first distinct_map_erase_first)

lemma updateLoad_ok [inv_intros]:
  assumes ok: "node_ok node" and id: "\<And>l. load_id (f l) = load_id l"
  shows "node_ok (updateLoad pin f node)"
proof -
  have "map getRelayPin (update_first (\<lambda>l. getRelayPin l = pin) f (node_loads node)) =
        map getRelayPin (node_loads node)"
    by (rule map_update_first) (simp add: getRelayPin_def id)
  moreover have "list_all (\<lambda>l. getMacAddress l = node_macAddress node)
      (update_first (\<lambda>l. getRelayPin l = pin) f (node_loads node))"
    by (rule list_all_update_first) (use ok in \<open>auto simp: node_ok_def getMacAddress_def id\<close>)
  ultimately show ?thesis using ok by (simp add: node_ok_def updateLoad_def)
qed

lemma addLoad_lookup:
  "addLoad l node = (True, node') \<Longrightarrow>
   getLoadByRelayPin pin node' =
     (if pin = getRelayPin l then Some l else getLoadByRelayPin pin node)"
  by (auto simp: addLoad_def isRelayPinAlreadyUsed_def getLoadByRelayPin_def find_append
      split: if_splits option.splits)

lemma removeLoad_lookup:
  assumes "node_ok node"
  shows "getLoadByRelayPin pin' (snd (removeLoadByRelayPin pin node)) =
         (if pin' = pin then None else getLoadByRelayPin pin' node)"
proof -
  have e: "node_loads (snd (removeLoadByRelayPin pin node)) =
           erase_first (\<lambda>l. getRelayPin l = pin) (node_loads node)"
    by (auto simp: removeLoadByRelayPin_def list_ex_iff find_None_iff intro!: erase_first_id [symmetric])
  show ?thesis
  proof (cases "pin' = pin")
    case True
    with assms show ?thesis
      by (simp add: getLoadByRelayPin_def e node_ok_def find_key_erase_first)
  next
    case False
    then have "find (\<lambda>l. getRelayPin l = pin') (erase_first (\<lambda>l. getRelayPin l = pin) (node_loads node)) =
               find (\<lambda>l. getRelayPin l = pin') (node_loads node)"
      by (intro find_erase_first_other) auto
    with False show ?thesis by (simp add: getLoadByRelayPin_def e)
  qed
qed

lemma updateLoad_lookup:
  assumes id: "\<And>l. load_id (f l) = load_id l"
  shows "getLoadByRelayPin pin' (updateLoad pin f node) =
         (if pin' = pin then map_option f (getLoadByRelayPin pin node)
          else getLoadByRelayPin pin' node)"
proof (cases "pin' = pin")
  case True
  have "find (\<lambda>l. getRelayPin l = pin) (update_first (\<lambda>l. getRelayPin l = pin) f (node_loads node)) =
        map_option f (find (\<lambda>l. getRelayPin l = pin) (node_loads node))"
    by (rule find_update_first_same) (simp add: getRelayPin_def id)
  with True show ?thesis by (simp add: getLoadByRelayPin_def updateLoad_def)
next
  case False
  then have "find (\<lambda>l. getRelayPin l = pin') (update_first (\<lambda>l. getRelayPin l = pin) f (node_loads node)) =
             find (\<lambda>l. getRelayPin l = pin') (node_loads node)"
    by (intro find_update_first_other) (auto simp: getRelayPin_def id)
  with False show ?thesis by (simp add: getLoadByRelayPin_def updateLoad_def)
qed

lemma node_mac_ops [simp]:
  "node_macAddress (snd (addLoad l node)) = node_macAddress node"
  "node_macAddress (snd (removeLoadByRelayPin pin node)) = node_macAddress node"
  "node_macAddress (updateLoad pin f node) = node_macAddress node"
  by (simp_all add: addLoad_def removeLoadByRelayPin_def updateLoad_def)

section \<open>The report packets\<close>

definition MAX_LOADS_PER_NODE_PACKET :: nat where "MAX_LOADS_PER_NODE_PACKET = 4"

definition MAX_LOADS_PER_NODE :: nat where "MAX_LOADS_PER_NODE = 16"

text \<open>A \<open>char[]\<close> field is the string of its characters, with no trailing NULs.\<close>

record LoadReportPacket =
  report_name :: string
  report_relayPin :: u8
  report_mode :: u8
  report_powerType :: u8
  report_priority :: u16
  report_powerRatingWatts :: f32
  report_scheduleEnabled :: u8
  report_scheduleStartHour :: u8
  report_scheduleStartMinute :: u8
  report_scheduleEndHour :: u8
  report_scheduleEndMinute :: u8

record NodeReportPacket =
  packet_nodeName :: string
  packet_nodeMacAddress :: MacAddress
  packet_upstreamNodeMacAddress :: MacAddress
  packet_hopCountToCentral :: u16
  packet_numberOfLoads :: u8
  packet_reportSequenceId :: u16
  packet_pageIndex :: u8
  packet_totalPages :: u8
  packet_loads :: "LoadReportPacket list"

definition empty_LoadReport :: LoadReportPacket where
  "empty_LoadReport =
     \<lparr>report_name = [], report_relayPin = 0, report_mode = 0, report_powerType = 0,
      report_priority = 0, report_powerRatingWatts = fzero, report_scheduleEnabled = 0,
      report_scheduleStartHour = 0, report_scheduleStartMinute = 0, report_scheduleEndHour = 0,
      report_scheduleEndMinute = 0\<rparr>"

subsection \<open>The Smart Node's side\<close>

definition load_report :: "Load \<Rightarrow> LoadReportPacket" where
  "load_report l =
     \<lparr>report_name = copyTruncated 16 (Some (load_name l)),
      report_relayPin = getRelayPin l,
      report_mode = mode_byte (load_mode l),
      report_powerType = power_type_byte (load_powerType l),
      report_priority = load_priority l,
      report_powerRatingWatts = load_power l,
      report_scheduleEnabled = (if enabled (load_schedule l) then 1 else 0),
      report_scheduleStartHour = startHour (load_schedule l),
      report_scheduleStartMinute = startMinute (load_schedule l),
      report_scheduleEndHour = endHour (load_schedule l),
      report_scheduleEndMinute = endMinute (load_schedule l)\<rparr>"

text \<open>
  \<open>upstream\<close> is the upstream Node's MAC address when the radio has one; \<open>node\<close> is \<open>None\<close>
  while the Node object does not exist yet; \<open>locked\<close> says whether the mutex was taken in time.
\<close>

definition buildNodeReportPacket ::
  "string \<Rightarrow> MacAddress option \<Rightarrow> u16 \<Rightarrow> bool \<Rightarrow> Node option \<Rightarrow>
   MacAddress \<Rightarrow> u16 \<Rightarrow> u8 \<Rightarrow> u8 \<Rightarrow> NodeReportPacket" where
  "buildNodeReportPacket localName upstream hopCount locked thisSmartNode localMac sequence pageIndex totalPages =
     (let packet = \<lparr>packet_nodeName = copyTruncated 20 (Some localName),
                    packet_nodeMacAddress = localMac,
                    packet_upstreamNodeMacAddress = (case upstream of Some m \<Rightarrow> m | None \<Rightarrow> localMac),
                    packet_hopCountToCentral = hopCount,
                    packet_numberOfLoads = 0,
                    packet_reportSequenceId = sequence,
                    packet_pageIndex = pageIndex,
                    packet_totalPages = totalPages,
                    packet_loads = replicate MAX_LOADS_PER_NODE_PACKET empty_LoadReport\<rparr>
      in case thisSmartNode of
           None \<Rightarrow> packet
         | Some node \<Rightarrow>
             if \<not> locked then packet
             else
               let totalLoads = min (length (node_loads node)) MAX_LOADS_PER_NODE;
                   startIndex = unat pageIndex * MAX_LOADS_PER_NODE_PACKET;
                   endIndex = min (startIndex + MAX_LOADS_PER_NODE_PACKET) totalLoads;
                   count = (if startIndex < endIndex then endIndex - startIndex else 0)
               in packet\<lparr>packet_numberOfLoads := of_nat count,
                         packet_loads :=
                           map (\<lambda>i. if i < count then load_report (node_loads node ! (startIndex + i))
                                     else empty_LoadReport)
                             [0..<MAX_LOADS_PER_NODE_PACKET]\<rparr>)"

definition computeReportPageCount :: "nat \<Rightarrow> u8" where
  "computeReportPageCount loadCount =
     (let bounded = min loadCount MAX_LOADS_PER_NODE;
          pages = (bounded + MAX_LOADS_PER_NODE_PACKET - 1) div MAX_LOADS_PER_NODE_PACKET
      in of_nat (if pages = 0 then 1 else pages))"

subsection \<open>Central's side\<close>

definition validMode :: "u8 \<Rightarrow> bool" where
  "validMode m \<longleftrightarrow> m = mode_byte FIXED_OFF \<or> m = mode_byte FIXED_ON \<or> m = mode_byte AUTO_OFF \<or>
     m = mode_byte AUTO_ON"

definition validPowerType :: "u8 \<Rightarrow> bool" where
  "validPowerType t \<longleftrightarrow> t = power_type_byte AC \<or> t = power_type_byte DC"

definition validSchedule :: "LoadReportPacket \<Rightarrow> bool" where
  "validSchedule p =
     (if report_scheduleEnabled p = 0 then True
      else if report_scheduleStartHour p > 23 \<or> report_scheduleStartMinute p > 59 \<or>
              report_scheduleEndHour p > 23 \<or> report_scheduleEndMinute p > 59 then False
      else minutes_of_day (report_scheduleStartHour p) (report_scheduleStartMinute p) \<noteq>
           minutes_of_day (report_scheduleEndHour p) (report_scheduleEndMinute p))"

definition validLoadReport :: "LoadReportPacket \<Rightarrow> bool" where
  "validLoadReport p \<longleftrightarrow>
     (let nameLength = boundedLength (report_name p) 16
      in nameLength > 0 \<and> nameLength < 16 \<and> validMode (report_mode p) \<and>
         validPowerType (report_powerType p) \<and> report_priority p \<le> 10 \<and>
         fisfinite (report_powerRatingWatts p) \<and> fle fzero (report_powerRatingWatts p) \<and>
         validSchedule p)"

record PendingNodeReport =
  pendingReport_sequenceId :: u16
  pendingReport_totalPages :: u8
  pendingReport_pagesReceivedMask :: u8
  pendingReport_reportedRelayPins :: "u8 list"

definition new_PendingNodeReport :: PendingNodeReport where
  "new_PendingNodeReport =
     \<lparr>pendingReport_sequenceId = 0, pendingReport_totalPages = 0,
      pendingReport_pagesReceivedMask = 0, pendingReport_reportedRelayPins = []\<rparr>"

record PlanningNode =
  plan_node :: Node
  plan_nodeName :: string
  plan_nextHop :: MacAddress
  plan_hopCount :: u16
  plan_isCentralNode :: bool
  plan_lastSeen :: u32
  plan_pendingReport :: PendingNodeReport

type_synonym CentralNodeRegistry = "PlanningNode list"

definition plan_mac :: "PlanningNode \<Rightarrow> MacAddress" where
  "plan_mac pn = node_macAddress (plan_node pn)"

definition findNodeByMacAddress :: "MacAddress \<Rightarrow> CentralNodeRegistry \<Rightarrow> PlanningNode option" where
  "findNodeByMacAddress mac ns = find (\<lambda>pn. plan_mac pn = mac) ns"

definition setPlanningNode ::
  "MacAddress \<Rightarrow> PlanningNode \<Rightarrow> CentralNodeRegistry \<Rightarrow> CentralNodeRegistry" where
  "setPlanningNode mac pn ns = update_first (\<lambda>x. plan_mac x = mac) (\<lambda>_. pn) ns"

definition addLocalCentralNode ::
  "string \<Rightarrow> Node \<Rightarrow> u32 \<Rightarrow> CentralNodeRegistry \<Rightarrow> CentralNodeRegistry" where
  "addLocalCentralNode nodeName centralNode now ns =
     (let mac = node_macAddress centralNode
      in case findNodeByMacAddress mac ns of
           None \<Rightarrow> ns @ [\<lparr>plan_node = centralNode, plan_nodeName = nodeName, plan_nextHop = mac,
                           plan_hopCount = 0, plan_isCentralNode = True, plan_lastSeen = now,
                           plan_pendingReport = new_PendingNodeReport\<rparr>]
         | Some existing \<Rightarrow>
             setPlanningNode mac
               (existing\<lparr>plan_node := centralNode, plan_nodeName := nodeName, plan_nextHop := mac,
                         plan_hopCount := 0, plan_isCentralNode := True, plan_lastSeen := now\<rparr>) ns)"

definition MAX_TRACKED_REPORT_PAGES :: u8 where "MAX_TRACKED_REPORT_PAGES = 8"

text \<open>One turn of the loop over a packet's Loads: the reported pins and the Node.\<close>

definition reported_schedule :: "LoadReportPacket \<Rightarrow> AutoSchedule" where
  "reported_schedule report =
     AutoSchedule5 (report_scheduleEnabled report \<noteq> 0)
       (report_scheduleStartHour report) (report_scheduleStartMinute report)
       (report_scheduleEndHour report) (report_scheduleEndMinute report)"

definition scheduleReportedLoad :: "LoadReportPacket \<Rightarrow> Load \<Rightarrow> Load" where
  "scheduleReportedLoad report l =
     (if isAuto l then snd (setSchedule (reported_schedule report) l) else clearSchedule l)"

definition updateReportedLoad :: "LoadReportPacket \<Rightarrow> Load \<Rightarrow> Load" where
  "updateReportedLoad report l =
     setPriority (report_priority report)
       (setPowerType (power_type_of_byte (report_powerType report))
         (snd (setPowerRatingWatts (report_powerRatingWatts report)
           (setMode (mode_of_byte (report_mode report))
             (setName (c_text (report_name report)) l)))))"

definition applyLoadReport ::
  "MacAddress \<Rightarrow> LoadReportPacket \<Rightarrow> u8 list \<times> Node \<Rightarrow> u8 list \<times> Node" where
  "applyLoadReport mac report = (\<lambda>(pins, node).
     if \<not> validLoadReport report then (pins, node)
     else
       let pin = report_relayPin report; pins' = pins @ [pin]
       in case getLoadByRelayPin pin node of
            None \<Rightarrow>
              (case addLoad (new_Load \<lparr>id_mac = mac, id_pin = pin\<rparr> (c_text (report_name report))
                       (report_powerRatingWatts report) (report_priority report)
                       (power_type_of_byte (report_powerType report))
                       (mode_of_byte (report_mode report))) node of
                 (added, node') \<Rightarrow>
                   if \<not> added then (pins', node)
                   else (pins', updateLoad pin (scheduleReportedLoad report) node'))
          | Some l \<Rightarrow>
              (pins', updateLoad pin (scheduleReportedLoad report)
                        (updateLoad pin (updateReportedLoad report) node)))"

definition pruneLoads :: "u8 list \<Rightarrow> Node \<Rightarrow> Node" where
  "pruneLoads reportedPins node =
     fold (\<lambda>pin n. snd (removeLoadByRelayPin pin n))
       (filter (\<lambda>pin. pin \<notin> set reportedPins) (map getRelayPin (node_loads node))) node"

definition pendingFor :: "u16 \<Rightarrow> u8 \<Rightarrow> PendingNodeReport \<Rightarrow> PendingNodeReport" where
  "pendingFor sq pages pending =
     (if pendingReport_sequenceId pending \<noteq> sq \<or> pendingReport_totalPages pending \<noteq> pages
      then \<lparr>pendingReport_sequenceId = sq, pendingReport_totalPages = pages,
            pendingReport_pagesReceivedMask = 0, pendingReport_reportedRelayPins = []\<rparr>
      else pending)"

definition applyReportPage :: "NodeReportPacket \<Rightarrow> u32 \<Rightarrow> PlanningNode \<Rightarrow> PlanningNode" where
  "applyReportPage packet now pn =
     (let pn1 = pn\<lparr>plan_nodeName := take (boundedLength (packet_nodeName packet) 20) (packet_nodeName packet),
                   plan_nextHop := packet_upstreamNodeMacAddress packet,
                   plan_hopCount := packet_hopCountToCentral packet,
                   plan_lastSeen := now\<rparr>;
          pending1 = pendingFor (packet_reportSequenceId packet) (packet_totalPages packet)
                       (plan_pendingReport pn1);
          pageBit = push_bit (unat (packet_pageIndex packet)) (1 :: u8)
      in if (pendingReport_pagesReceivedMask pending1 AND pageBit) \<noteq> 0
         then pn1\<lparr>plan_pendingReport := pending1\<rparr>
         else
           let numberOfLoads = min (unat (packet_numberOfLoads packet)) MAX_LOADS_PER_NODE_PACKET
           in case fold (applyLoadReport (packet_nodeMacAddress packet))
                     (take numberOfLoads (packet_loads packet))
                     (pendingReport_reportedRelayPins pending1, plan_node pn1) of
                (pins, node) \<Rightarrow>
                  let received = pendingReport_pagesReceivedMask pending1 OR pageBit;
                      allPagesMask = ucast (push_bit (unat (packet_totalPages packet)) (1 :: u32) - 1)
                  in if received \<noteq> allPagesMask
                     then pn1\<lparr>plan_node := node,
                              plan_pendingReport :=
                                pending1\<lparr>pendingReport_pagesReceivedMask := received,
                                         pendingReport_reportedRelayPins := pins\<rparr>\<rparr>
                     else pn1\<lparr>plan_node := pruneLoads pins node,
                              plan_pendingReport :=
                                pending1\<lparr>pendingReport_pagesReceivedMask := 0,
                                         pendingReport_reportedRelayPins := []\<rparr>\<rparr>)"

definition applyNodeReport :: "NodeReportPacket \<Rightarrow> u32 \<Rightarrow> CentralNodeRegistry \<Rightarrow> CentralNodeRegistry" where
  "applyNodeReport packet now ns =
     (if packet_totalPages packet = 0 \<or> packet_totalPages packet > MAX_TRACKED_REPORT_PAGES \<or>
         packet_pageIndex packet \<ge> packet_totalPages packet
      then ns
      else
        let mac = packet_nodeMacAddress packet;
            ns1 = (case findNodeByMacAddress mac ns of
                     Some pn \<Rightarrow> ns
                   | None \<Rightarrow> ns @ [\<lparr>plan_node = new_Node mac, plan_nodeName = [],
                                     plan_nextHop = zero_mac, plan_hopCount = 0,
                                     plan_isCentralNode = False, plan_lastSeen = now,
                                     plan_pendingReport = new_PendingNodeReport\<rparr>])
        in update_first (\<lambda>pn. plan_mac pn = mac) (applyReportPage packet now) ns1)"

definition removeRegistryLoad ::
  "MacAddress \<Rightarrow> u8 \<Rightarrow> CentralNodeRegistry \<Rightarrow> bool \<times> CentralNodeRegistry" where
  "removeRegistryLoad mac pin ns =
     (case findNodeByMacAddress mac ns of
        None \<Rightarrow> (False, ns)
      | Some pn \<Rightarrow>
          (case removeLoadByRelayPin pin (plan_node pn) of
             (removed, node') \<Rightarrow> (removed, setPlanningNode mac (pn\<lparr>plan_node := node'\<rparr>) ns)))"

section \<open>A reported Load arrives unchanged\<close>

text \<open>The one field a report does not carry is the rejection reason.\<close>

definition strip :: "Load \<Rightarrow> Load" where
  "strip l = l\<lparr>load_reason := 0\<rparr>"

definition reportable :: "Load \<Rightarrow> bool" where
  "reportable l \<longleftrightarrow>
     load_name l \<noteq> [] \<and> length (load_name l) < 16 \<and> c_text (load_name l) = load_name l \<and>
     named_mode (load_mode l) \<and> named_power_type (load_powerType l) \<and> load_priority l \<le> 10 \<and>
     Load_wf l \<and> (\<not> enabled (load_schedule l) \<longrightarrow> load_schedule l = no_schedule)"

lemma reported_schedule_eq:
  "reportable l \<Longrightarrow> reported_schedule (load_report l) = load_schedule l"
  using AutoSchedule5_self [of "load_schedule l"]
  by (auto simp: reported_schedule_def load_report_def reportable_def)

lemma load_report_simps:
  assumes "reportable l"
  shows "report_relayPin (load_report l) = getRelayPin l"
    "c_text (report_name (load_report l)) = load_name l"
    "mode_of_byte (report_mode (load_report l)) = load_mode l"
    "power_type_of_byte (report_powerType (load_report l)) = load_powerType l"
    "report_priority (load_report l) = load_priority l"
    "report_powerRatingWatts (load_report l) = load_power l"
  using assms by (simp_all add: load_report_def reportable_def copyTruncated_def)

lemma validLoadReport_reportable:
  assumes "reportable l"
  shows "validLoadReport (load_report l)"
proof -
  have "boundedLength (report_name (load_report l)) 16 = length (load_name l)"
    using assms by (simp add: boundedLength_c_text load_report_simps) (simp add: reportable_def)
  moreover have "validSchedule (load_report l)"
    using assms by (simp add: reportable_def Load_wf_def validSchedule_def load_report_def
        schedule_valid_def times_in_range_def split: if_splits)
  moreover have "validMode (report_mode (load_report l))"
    using assms by (auto simp: reportable_def named_mode_def validMode_def load_report_def)
  moreover have "validPowerType (report_powerType (load_report l))"
    using assms by (auto simp: reportable_def named_power_type_def validPowerType_def load_report_def)
  ultimately show ?thesis
    using assms by (simp add: validLoadReport_def load_report_simps)
      (simp add: reportable_def Load_wf_def)
qed

lemma setPower_ok: "fisfinite p \<Longrightarrow> fle fzero p \<Longrightarrow> setPowerRatingWatts p l = (True, l\<lparr>load_power := p\<rparr>)"
  by (simp add: setPowerRatingWatts_def finite_not_flt_zero)

lemma scheduled_as_reported:
  assumes l: "reportable l" and same: "strip (k\<lparr>load_schedule := load_schedule l\<rparr>) = strip l"
  shows "strip (scheduleReportedLoad (load_report l) k) = strip l"
proof -
  have mode: "load_mode k = load_mode l"
    using arg_cong [OF same, of load_mode] by (simp add: strip_def)
  have valid: "schedule_valid (load_schedule l)" using l by (simp add: reportable_def Load_wf_def)
  show ?thesis
  proof (cases "isAuto l")
    case True
    then have "isAuto k" using mode by (simp add: isAuto_def)
    moreover have "(if enabled (load_schedule l) then load_schedule l else no_schedule) = load_schedule l"
      using l by (auto simp: reportable_def)
    ultimately show ?thesis
      using same by (simp add: scheduleReportedLoad_def reported_schedule_eq [OF l] setSchedule_auto valid)
  next
    case False
    then have "\<not> isAuto k" using mode by (simp add: isAuto_def)
    moreover have "load_schedule l = no_schedule" using l False by (simp add: reportable_def Load_wf_def)
    ultimately show ?thesis using same by (simp add: scheduleReportedLoad_def clearSchedule_def)
  qed
qed

lemma created_as_reported:
  assumes l: "reportable l" and mac: "getMacAddress l = mac"
  shows "strip (scheduleReportedLoad (load_report l)
           (new_Load \<lparr>id_mac = mac, id_pin = getRelayPin l\<rparr> (load_name l) (load_power l)
             (load_priority l) (load_powerType l) (load_mode l))) = strip l"
proof (rule scheduled_as_reported [OF l])
  have "fisfinite (load_power l)" "fle fzero (load_power l)"
    using l by (simp_all add: reportable_def Load_wf_def)
  moreover have "\<lparr>id_mac = mac, id_pin = getRelayPin l\<rparr> = load_id l"
    using mac by (simp add: getMacAddress_def getRelayPin_def)
  ultimately show "strip ((new_Load \<lparr>id_mac = mac, id_pin = getRelayPin l\<rparr> (load_name l) (load_power l)
             (load_priority l) (load_powerType l) (load_mode l))\<lparr>load_schedule := load_schedule l\<rparr>) = strip l"
    by (simp add: new_Load_def setPower_ok strip_def)
qed

lemma updated_as_reported:
  assumes l: "reportable l" and id: "load_id k = load_id l"
  shows "strip (scheduleReportedLoad (load_report l) (updateReportedLoad (load_report l) k)) = strip l"
proof (rule scheduled_as_reported [OF l])
  have "fisfinite (load_power l)" "fle fzero (load_power l)"
    using l by (simp_all add: reportable_def Load_wf_def)
  then show "strip ((updateReportedLoad (load_report l) k)\<lparr>load_schedule := load_schedule l\<rparr>) = strip l"
    using id unfolding updateReportedLoad_def load_report_simps [OF l]
    by (cases k; cases l)
      (simp add: setPower_ok strip_def setName_def setMode_def clearSchedule_def setPowerType_def
        setPriority_def Let_def)
qed

section \<open>Reports converge\<close>

definition view :: "Node \<Rightarrow> u8 \<Rightarrow> Load option" where
  "view node pin = map_option strip (getLoadByRelayPin pin node)"

lemma load_id_reported [simp]:
  "load_id (scheduleReportedLoad r l) = load_id l" "load_id (updateReportedLoad r l) = load_id l"
  by (simp_all add: scheduleReportedLoad_def updateReportedLoad_def)

lemma getLoadByRelayPin_Some:
  "node_ok node \<Longrightarrow> getLoadByRelayPin pin node = Some l \<Longrightarrow>
   l \<in> set (node_loads node) \<and> getRelayPin l = pin \<and> getMacAddress l = node_macAddress node"
  unfolding getLoadByRelayPin_def node_ok_def by (auto dest: find_Some_in simp: list_all_iff)

lemma load_id_eqI:
  "getMacAddress k = getMacAddress l \<Longrightarrow> getRelayPin k = getRelayPin l \<Longrightarrow> load_id k = load_id l"
  by (cases "load_id k"; cases "load_id l") (simp add: getMacAddress_def getRelayPin_def)

lemma applyLoadReport_reportable:
  assumes l: "reportable l" and mac: "getMacAddress l = node_macAddress node" and ok: "node_ok node"
  shows "\<exists>node'. applyLoadReport (node_macAddress node) (load_report l) (pins, node) =
             (pins @ [getRelayPin l], node') \<and>
           node_ok node' \<and> node_macAddress node' = node_macAddress node \<and>
           view node' = (view node)(getRelayPin l \<mapsto> strip l)"
proof (cases "getLoadByRelayPin (getRelayPin l) node")
  case None
  let ?new = "new_Load \<lparr>id_mac = node_macAddress node, id_pin = getRelayPin l\<rparr> (load_name l)
       (load_power l) (load_priority l) (load_powerType l) (load_mode l)"
  have pin: "getRelayPin ?new = getRelayPin l" and "getMacAddress ?new = node_macAddress node"
    by (simp_all add: getRelayPin_def getMacAddress_def)
  with None obtain node1 where add: "addLoad ?new node = (True, node1)"
    by (simp add: addLoad_def isRelayPinAlreadyUsed_def)
  let ?node' = "updateLoad (getRelayPin l) (scheduleReportedLoad (load_report l)) node1"
  have "applyLoadReport (node_macAddress node) (load_report l) (pins, node) = (pins @ [getRelayPin l], ?node')"
    using None add by (simp add: applyLoadReport_def validLoadReport_reportable [OF l] load_report_simps [OF l] Let_def)
  moreover have "node_ok ?node'" and "node_macAddress ?node' = node_macAddress node"
    using addLoad_ok [OF ok, of ?new] node_mac_ops(1) [of ?new node] add
    by (simp_all add: updateLoad_ok)
  moreover have "view ?node' pin' = ((view node)(getRelayPin l \<mapsto> strip l)) pin'" for pin'
    using created_as_reported [OF l mac] addLoad_lookup [OF add] pin
    by (simp add: view_def updateLoad_lookup)
  ultimately show ?thesis by blast
next
  case (Some k)
  let ?f = "scheduleReportedLoad (load_report l)" and ?g = "updateReportedLoad (load_report l)"
  let ?node' = "updateLoad (getRelayPin l) ?f (updateLoad (getRelayPin l) ?g node)"
  have id: "load_id k = load_id l"
    using getLoadByRelayPin_Some [OF ok Some] mac by (intro load_id_eqI) simp_all
  have "applyLoadReport (node_macAddress node) (load_report l) (pins, node) = (pins @ [getRelayPin l], ?node')"
    using Some by (simp add: applyLoadReport_def validLoadReport_reportable [OF l] load_report_simps [OF l] Let_def)
  moreover have "node_ok ?node'" and "node_macAddress ?node' = node_macAddress node"
    using ok by (simp_all add: updateLoad_ok)
  moreover have "view ?node' pin' = ((view node)(getRelayPin l \<mapsto> strip l)) pin'" for pin'
    using updated_as_reported [OF l id] Some by (simp add: view_def updateLoad_lookup)
  ultimately show ?thesis by blast
qed

lemma fold_applyLoadReport:
  assumes "list_all reportable ls" and "list_all (\<lambda>l. getMacAddress l = mac) ls"
    and "distinct (map getRelayPin ls)" and "node_ok node" and "node_macAddress node = mac"
  shows "\<exists>node'. fold (applyLoadReport mac) (map load_report ls) (pins, node) =
             (pins @ map getRelayPin ls, node') \<and>
           node_ok node' \<and> node_macAddress node' = mac \<and>
           (\<forall>l \<in> set ls. view node' (getRelayPin l) = Some (strip l)) \<and>
           (\<forall>pin. pin \<notin> getRelayPin ` set ls \<longrightarrow> view node' pin = view node pin)"
  using assms
proof (induction ls arbitrary: pins node)
  case Nil
  then show ?case by auto
next
  case (Cons l ls)
  obtain node1 where one: "applyLoadReport mac (load_report l) (pins, node) = (pins @ [getRelayPin l], node1)"
    "node_ok node1" "node_macAddress node1 = mac" "view node1 = (view node)(getRelayPin l \<mapsto> strip l)"
    using applyLoadReport_reportable [of l node pins] Cons.prems by auto
  obtain node' where rest: "fold (applyLoadReport mac) (map load_report ls) (pins @ [getRelayPin l], node1) =
       ((pins @ [getRelayPin l]) @ map getRelayPin ls, node')"
    "node_ok node'" "node_macAddress node' = mac"
    "\<forall>l \<in> set ls. view node' (getRelayPin l) = Some (strip l)"
    "\<forall>pin. pin \<notin> getRelayPin ` set ls \<longrightarrow> view node' pin = view node1 pin"
    using Cons.IH [of node1 "pins @ [getRelayPin l]"] Cons.prems one by auto
  have "getRelayPin l \<notin> getRelayPin ` set ls" using Cons.prems by simp
  then have "view node' (getRelayPin l) = Some (strip l)" using rest(5) one(4) by simp
  then show ?case using one rest by (intro exI [of _ node']) auto
qed

lemma view_removeLoad:
  "node_ok node \<Longrightarrow> view (snd (removeLoadByRelayPin pin node)) = (view node)(pin := None)"
  by (auto simp: view_def removeLoad_lookup fun_eq_iff)

lemma fold_removeLoad:
  "node_ok node \<Longrightarrow>
   node_ok (fold (\<lambda>pin n. snd (removeLoadByRelayPin pin n)) qs node) \<and>
   node_macAddress (fold (\<lambda>pin n. snd (removeLoadByRelayPin pin n)) qs node) = node_macAddress node \<and>
   view (fold (\<lambda>pin n. snd (removeLoadByRelayPin pin n)) qs node) pin' =
     (if pin' \<in> set qs then None else view node pin')"
proof (induction qs arbitrary: node)
  case (Cons q qs)
  show ?case
    using Cons.IH [OF removeLoad_ok [OF Cons.prems, of q]] view_removeLoad [OF Cons.prems, of q]
    by auto
qed simp

lemma pruneLoads_view:
  assumes "node_ok node"
  shows "node_ok (pruneLoads pins node)"
    and "node_macAddress (pruneLoads pins node) = node_macAddress node"
    and "view (pruneLoads pins node) pin = (if pin \<in> set pins then view node pin else None)"
proof -
  note f = fold_removeLoad [OF assms,
      of "filter (\<lambda>pin. pin \<notin> set pins) (map getRelayPin (node_loads node))"]
  show "node_ok (pruneLoads pins node)" "node_macAddress (pruneLoads pins node) = node_macAddress node"
    using f by (simp_all add: pruneLoads_def)
  have "view node pin = None" if "pin \<notin> getRelayPin ` set (node_loads node)"
    using that by (auto simp: view_def getLoadByRelayPin_def find_None_notin)
  then show "view (pruneLoads pins node) pin = (if pin \<in> set pins then view node pin else None)"
    using f [of pin] by (auto simp: pruneLoads_def)
qed

text \<open>The page masks as sets of page numbers.\<close>

lemma bit_page: "k < 8 \<Longrightarrow> bit ((m :: u8) OR push_bit k 1) i \<longleftrightarrow> bit m i \<or> i = k"
  by (auto simp: bit_or_iff bit_exp_iff possible_bit_def)

lemma page_seen: "k < 8 \<Longrightarrow> ((m :: u8) AND push_bit k 1) \<noteq> 0 \<longleftrightarrow> bit m k"
proof -
  assume k: "k < 8"
  have "(m AND push_bit k 1) = (if bit m k then push_bit k 1 else 0)"
    using k by (intro bit_word_eqI) (auto simp: bit_and_iff bit_exp_iff possible_bit_def)
  moreover have "bit (push_bit k (1 :: u8)) k"
    using k unfolding bit_push_bit_iff by simp
  then have "push_bit k (1 :: u8) \<noteq> 0" by (metis bit_0_eq bot_apply bot_bool_def)
  ultimately show ?thesis by simp
qed

lemma all_pages: "n \<le> 8 \<Longrightarrow> bit (ucast (push_bit n (1 :: u32) - 1) :: u8) i \<longleftrightarrow> i < n"
proof -
  assume n: "n \<le> 8"
  have "push_bit n (1 :: u32) - 1 = mask n" by (simp add: mask_eq_exp_minus_1 push_bit_eq_mult)
  then show ?thesis using n by (auto simp: bit_ucast_iff bit_mask_iff)
qed

lemma all_pages_iff:
  assumes "n \<le> 8"
  shows "(m :: u8) = ucast (push_bit n (1 :: u32) - 1) \<longleftrightarrow> (\<forall>i < 8. bit m i \<longleftrightarrow> i < n)"
proof
  assume m: "\<forall>i < 8. bit m i \<longleftrightarrow> i < n"
  show "m = ucast (push_bit n (1 :: u32) - 1)"
  proof (rule bit_word_eqI)
    fix i assume "i < LENGTH(8)"
    with m have "bit m i \<longleftrightarrow> i < n" by simp
    then show "bit m i = bit (ucast (push_bit n (1 :: u32) - 1) :: u8) i"
      unfolding all_pages [OF assms] .
  qed
qed (simp only: all_pages [OF assms] simp_thms)

section \<open>Delivering the pages of a report\<close>

definition page_chunk :: "Node \<Rightarrow> nat \<Rightarrow> Load list" where
  "page_chunk node k = take 4 (drop (k * 4) (node_loads node))"

definition page_count :: "Node \<Rightarrow> nat" where
  "page_count node = max 1 ((3 + length (node_loads node)) div 4)"

text \<open>The pages one call of the report loop sends, for a Node that does not change meanwhile.\<close>

definition report_page :: "string \<Rightarrow> MacAddress option \<Rightarrow> u16 \<Rightarrow> Node \<Rightarrow> u16 \<Rightarrow> nat \<Rightarrow> NodeReportPacket" where
  "report_page localName upstream hops node sequence k =
     buildNodeReportPacket localName upstream hops True (Some node) (node_macAddress node) sequence
       (of_nat k) (computeReportPageCount (length (node_loads node)))"

definition report_ok :: "Node \<Rightarrow> bool" where
  "report_ok node \<longleftrightarrow>
     node_ok node \<and> length (node_loads node) \<le> MAX_LOADS_PER_NODE \<and>
     list_all reportable (node_loads node)"

lemma page_count_bounds: "report_ok node \<Longrightarrow> 0 < page_count node \<and> page_count node \<le> 4"
  by (auto simp: report_ok_def page_count_def MAX_LOADS_PER_NODE_def)

lemma unat_page_count:
  assumes "report_ok node"
  shows "unat (computeReportPageCount (length (node_loads node))) = page_count node"
proof -
  let ?n = "length (node_loads node)"
  have n: "?n \<le> 16" using assms by (simp add: report_ok_def MAX_LOADS_PER_NODE_def)
  have "?n + 4 - 1 = 3 + ?n" by simp
  then have "computeReportPageCount ?n = of_nat (if (3 + ?n) div 4 = 0 then 1 else (3 + ?n) div 4)"
    using n unfolding computeReportPageCount_def Let_def MAX_LOADS_PER_NODE_def
      MAX_LOADS_PER_NODE_PACKET_def by (simp only: min_absorb1)
  also have "(if (3 + ?n) div 4 = 0 then 1 else (3 + ?n) div 4) = page_count node"
    by (simp add: page_count_def max_def)
  finally show ?thesis
    using page_count_bounds [OF assms] by (simp add: unsigned_of_nat take_bit_nat_eq_self)
qed

lemma page_fields:
  "packet_nodeMacAddress (report_page ln up h node sq k) = node_macAddress node"
  "packet_reportSequenceId (report_page ln up h node sq k) = sq"
  "packet_pageIndex (report_page ln up h node sq k) = of_nat k"
  "packet_totalPages (report_page ln up h node sq k) = computeReportPageCount (length (node_loads node))"
  by (simp_all add: report_page_def buildNodeReportPacket_def Let_def)

lemma page_loads:
  assumes ok: "report_ok node" and k: "k < page_count node"
  shows "take (min (unat (packet_numberOfLoads (report_page ln up h node sq k))) MAX_LOADS_PER_NODE_PACKET)
           (packet_loads (report_page ln up h node sq k)) =
         map load_report (page_chunk node k)"
proof -
  let ?ls = "node_loads node" and ?p = "report_page ln up h node sq k"
  have len: "length ?ls \<le> 16" using ok by (simp add: report_ok_def MAX_LOADS_PER_NODE_def)
  have k4: "k < 4" using k page_count_bounds [OF ok] by simp
  then have uk: "unat (of_nat k :: u8) = k" by (simp add: unsigned_of_nat take_bit_nat_eq_self)
  define count where "count = min 4 (length ?ls - k * 4)"
  have fields: "packet_numberOfLoads ?p = of_nat count \<and>
     packet_loads ?p = map (\<lambda>i. if i < count then load_report (?ls ! (k * 4 + i)) else empty_LoadReport) [0..<4]"
  proof -
    have "(if k * 4 < min (k * 4 + 4) (length ?ls) then min (k * 4 + 4) (length ?ls) - k * 4 else 0) = count"
      unfolding count_def by (simp add: min_def) arith
    then show ?thesis
      using len unfolding report_page_def buildNodeReportPacket_def Let_def uk option.case
        MAX_LOADS_PER_NODE_def MAX_LOADS_PER_NODE_PACKET_def
      by (simp only: min_absorb1 simp_thms if_False NodeReportPacket.simps)
  qed
  have c4: "count \<le> 4" by (simp add: count_def)
  then have uc: "unat (of_nat count :: u8) = count" by (simp add: unsigned_of_nat take_bit_nat_eq_self)
  have clen: "length (page_chunk node k) = count" by (simp add: page_chunk_def count_def min_def)
  have "take count (map (\<lambda>i. if i < count then load_report (?ls ! (k * 4 + i)) else empty_LoadReport) [0..<4]) =
        map load_report (page_chunk node k)"
  proof (rule nth_equalityI)
    show "length (take count (map (\<lambda>i. if i < count then load_report (?ls ! (k * 4 + i)) else empty_LoadReport) [0..<4])) =
          length (map load_report (page_chunk node k))"
      using c4 clen by simp
    fix i assume "i < length (take count (map (\<lambda>i. if i < count then load_report (?ls ! (k * 4 + i)) else empty_LoadReport) [0..<4]))"
    then have i: "i < count" by simp
    then have "k * 4 + i < length ?ls" and "i < 4" by (auto simp: count_def)
    with i clen show "take count (map (\<lambda>i. if i < count then load_report (?ls ! (k * 4 + i)) else empty_LoadReport) [0..<4]) ! i =
        map load_report (page_chunk node k) ! i"
      by (simp add: page_chunk_def)
  qed
  then show ?thesis using fields uc c4 by (simp add: MAX_LOADS_PER_NODE_PACKET_def)
qed

lemma chunk_subset: "set (page_chunk node k) \<subseteq> set (node_loads node)"
  unfolding page_chunk_def by (meson set_drop_subset set_take_subset subset_trans)

lemma chunks_cover:
  assumes "l \<in> set (node_loads node)"
  shows "\<exists>k < page_count node. l \<in> set (page_chunk node k)"
proof -
  obtain i where i: "i < length (node_loads node)" "node_loads node ! i = l"
    using assms by (auto simp: in_set_conv_nth)
  let ?k = "i div 4"
  have eq: "?k * 4 + i mod 4 = i" by simp
  then have "i mod 4 < min 4 (length (node_loads node) - ?k * 4)"
    using i(1) mod_less_divisor [of 4 i] by linarith
  then have "i mod 4 < length (page_chunk node ?k)" by (simp add: page_chunk_def min.commute)
  moreover from this have "page_chunk node ?k ! (i mod 4) = l"
    using i(2) by (simp add: page_chunk_def)
  ultimately have "l \<in> set (page_chunk node ?k)" by (metis nth_mem)
  moreover have "?k < page_count node" using i(1) by (simp add: page_count_def)
  ultimately show ?thesis by blast
qed

text \<open>
  \<open>converging\<close>: what holds of Central's planning Node while the pages \<open>received\<close> of one
  report have been delivered, \<open>S\<close> of them since the last time all were there.
\<close>

definition chunk_pins :: "Node \<Rightarrow> nat set \<Rightarrow> u8 set" where
  "chunk_pins node S = (\<Union>k \<in> S. getRelayPin ` set (page_chunk node k))"

definition converging :: "Node \<Rightarrow> u16 \<Rightarrow> nat set \<Rightarrow> nat set \<Rightarrow> PlanningNode \<Rightarrow> bool" where
  "converging node sq received S pn \<longleftrightarrow>
     (let pending = pendingFor sq (computeReportPageCount (length (node_loads node)))
                      (plan_pendingReport pn)
      in node_ok (plan_node pn) \<and> plan_mac pn = node_macAddress node \<and>
         S \<subseteq> received \<and> received \<subseteq> {..<page_count node} \<and> S \<noteq> {..<page_count node} \<and>
         (\<forall>i < 8. bit (pendingReport_pagesReceivedMask pending) i \<longleftrightarrow> i \<in> S) \<and>
         set (pendingReport_reportedRelayPins pending) = chunk_pins node S \<and>
         (\<forall>k \<in> received. \<forall>l \<in> set (page_chunk node k).
            view (plan_node pn) (getRelayPin l) = Some (strip l)) \<and>
         (if received = {..<page_count node} then view (plan_node pn) = view node else S = received))"

lemma chunk_pins_all: "chunk_pins node {..<page_count node} = getRelayPin ` set (node_loads node)"
  unfolding chunk_pins_def using chunks_cover chunk_subset by fastforce

lemma view_own:
  "node_ok node \<Longrightarrow> l \<in> set (node_loads node) \<Longrightarrow> view node (getRelayPin l) = Some (strip l)"
  unfolding view_def getLoadByRelayPin_def node_ok_def by (simp add: find_distinct_key)

lemma view_other: "pin \<notin> getRelayPin ` set (node_loads node) \<Longrightarrow> view node pin = None"
  by (simp add: view_def getLoadByRelayPin_def find_None_notin)

lemma view_complete:
  assumes "node_ok node"
    and "\<And>l. l \<in> set (node_loads node) \<Longrightarrow> v (getRelayPin l) = Some (strip l)"
    and "\<And>pin. pin \<notin> getRelayPin ` set (node_loads node) \<Longrightarrow> v pin = None"
  shows "v = view node"
proof
  fix pin show "v pin = view node pin"
    using assms view_own [OF assms(1)] view_other by (cases "pin \<in> getRelayPin ` set (node_loads node)") auto
qed

lemma chunk_fold:
  assumes ok: "report_ok node" and pn: "node_ok pnode" "node_macAddress pnode = node_macAddress node"
  shows "\<exists>node'. fold (applyLoadReport (node_macAddress node)) (map load_report (page_chunk node k)) (pins, pnode) =
             (pins @ map getRelayPin (page_chunk node k), node') \<and>
           node_ok node' \<and> node_macAddress node' = node_macAddress node \<and>
           (\<forall>l \<in> set (page_chunk node k). view node' (getRelayPin l) = Some (strip l)) \<and>
           (\<forall>pin. pin \<notin> getRelayPin ` set (page_chunk node k) \<longrightarrow> view node' pin = view pnode pin)"
proof (rule fold_applyLoadReport [OF _ _ _ pn])
  show "list_all reportable (page_chunk node k)"
    and "list_all (\<lambda>l. getMacAddress l = node_macAddress node) (page_chunk node k)"
    using ok chunk_subset [of node k] by (auto simp: report_ok_def node_ok_def list_all_iff)
  have "distinct (map getRelayPin (node_loads node))" using ok by (simp add: report_ok_def node_ok_def)
  then show "distinct (map getRelayPin (page_chunk node k))"
    by (simp add: page_chunk_def drop_map take_map flip: take_map drop_map)
qed

lemma applyReportPage_unfold:
  fixes packet pn
  defines "pending1 \<equiv> pendingFor (packet_reportSequenceId packet) (packet_totalPages packet)
                        (plan_pendingReport pn)"
    and "loads \<equiv> take (min (unat (packet_numberOfLoads packet)) MAX_LOADS_PER_NODE_PACKET) (packet_loads packet)"
    and "pageBit \<equiv> push_bit (unat (packet_pageIndex packet)) (1 :: u8)"
    and "all \<equiv> (ucast (push_bit (unat (packet_totalPages packet)) (1 :: u32) - 1) :: u8)"
  shows "(pendingReport_pagesReceivedMask pending1 AND pageBit) \<noteq> 0 \<Longrightarrow>
           plan_node (applyReportPage packet now pn) = plan_node pn \<and>
           plan_pendingReport (applyReportPage packet now pn) = pending1"
    and "(pendingReport_pagesReceivedMask pending1 AND pageBit) = 0 \<Longrightarrow>
         fold (applyLoadReport (packet_nodeMacAddress packet)) loads
           (pendingReport_reportedRelayPins pending1, plan_node pn) = (pins, node') \<Longrightarrow>
         pendingReport_pagesReceivedMask pending1 OR pageBit \<noteq> all \<Longrightarrow>
           plan_node (applyReportPage packet now pn) = node' \<and>
           plan_pendingReport (applyReportPage packet now pn) =
             pending1\<lparr>pendingReport_pagesReceivedMask := pendingReport_pagesReceivedMask pending1 OR pageBit,
                      pendingReport_reportedRelayPins := pins\<rparr>"
    and "(pendingReport_pagesReceivedMask pending1 AND pageBit) = 0 \<Longrightarrow>
         fold (applyLoadReport (packet_nodeMacAddress packet)) loads
           (pendingReport_reportedRelayPins pending1, plan_node pn) = (pins, node') \<Longrightarrow>
         pendingReport_pagesReceivedMask pending1 OR pageBit = all \<Longrightarrow>
           plan_node (applyReportPage packet now pn) = pruneLoads pins node' \<and>
           plan_pendingReport (applyReportPage packet now pn) =
             pending1\<lparr>pendingReport_pagesReceivedMask := 0, pendingReport_reportedRelayPins := []\<rparr>"
  unfolding applyReportPage_def Let_def assms by simp_all

lemma pendingFor_stable [simp]:
  "pendingReport_sequenceId (pendingFor sq n pr) = sq"
  "pendingReport_totalPages (pendingFor sq n pr) = n"
  "pendingReport_sequenceId pr' = sq \<Longrightarrow> pendingReport_totalPages pr' = n \<Longrightarrow> pendingFor sq n pr' = pr'"
  by (simp_all add: pendingFor_def)

lemma page_set_iff:
  assumes sub: "T \<subseteq> {..<n}" and n: "n \<le> (8::nat)"
  shows "(\<forall>i < 8. i \<in> T \<longleftrightarrow> i < n) \<longleftrightarrow> T = {..<n}"
proof
  assume bits: "\<forall>i < 8. i \<in> T \<longleftrightarrow> i < n"
  have "{..<n} \<subseteq> T"
  proof
    fix i assume "i \<in> {..<n}"
    then have "i < n" and "i < 8" using n by simp_all
    with bits show "i \<in> T" by blast
  qed
  with sub show "T = {..<n}" by blast
qed auto

lemma converging_step:
  assumes ok: "report_ok node" and inv: "converging node sq received S pn" and k: "k < page_count node"
  shows "\<exists>S'. converging node sq (insert k received) S'
           (applyReportPage (report_page ln up h node sq k) now pn)"
proof -
  let ?p = "report_page ln up h node sq k" and ?n = "page_count node"
  let ?pages = "computeReportPageCount (length (node_loads node))"
  let ?pn' = "applyReportPage ?p now pn"
  define pending where "pending = pendingFor sq ?pages (plan_pendingReport pn)"
  let ?mask = "pendingReport_pagesReceivedMask pending"
  let ?all = "ucast (push_bit ?n (1 :: u32) - 1) :: u8"
  have n4: "?n \<le> 4" "0 < ?n" using page_count_bounds [OF ok] by simp_all
  have k8: "k < 8" "unat (of_nat k :: u8) = k"
    using k n4 by (simp_all add: unsigned_of_nat take_bit_nat_eq_self)
  have inv': "node_ok (plan_node pn)" "node_macAddress (plan_node pn) = node_macAddress node"
      "S \<subseteq> received" "received \<subseteq> {..<?n}" "S \<noteq> {..<?n}"
      "\<And>i. i < 8 \<Longrightarrow> bit ?mask i \<longleftrightarrow> i \<in> S"
      "set (pendingReport_reportedRelayPins pending) = chunk_pins node S"
      "\<And>j l. j \<in> received \<Longrightarrow> l \<in> set (page_chunk node j) \<Longrightarrow>
         view (plan_node pn) (getRelayPin l) = Some (strip l)"
      "if received = {..<?n} then view (plan_node pn) = view node else S = received"
    using inv by (simp_all add: converging_def Let_def pending_def plan_mac_def)
  have own: "node_ok node" using ok by (simp add: report_ok_def)
  note unf = applyReportPage_unfold [of ?p pn, unfolded page_fields page_loads [OF ok k] k8
      unat_page_count [OF ok], folded pending_def]
  show ?thesis
  proof (cases "k \<in> S")
    case True
    then have "(?mask AND push_bit k 1) \<noteq> 0"
      using inv'(6) [OF k8(1)] page_seen [OF k8(1), of ?mask] by simp
    from unf(1) [OF this]
    have "plan_node ?pn' = plan_node pn" "plan_pendingReport ?pn' = pending" by simp_all
    moreover have "insert k received = received" using True inv'(3) by blast
    ultimately have "converging node sq (insert k received) S ?pn'"
      using inv by (simp add: converging_def plan_mac_def Let_def pending_def)
    then show ?thesis by blast
  next
    case False
    then have fresh: "(?mask AND push_bit k 1) = 0"
      using inv'(6) k8 page_seen [of k ?mask] by simp
    obtain node' where f: "fold (applyLoadReport (node_macAddress node)) (map load_report (page_chunk node k))
          (pendingReport_reportedRelayPins pending, plan_node pn) =
        (pendingReport_reportedRelayPins pending @ map getRelayPin (page_chunk node k), node')"
      and n': "node_ok node'" "node_macAddress node' = node_macAddress node"
      and new: "\<And>l. l \<in> set (page_chunk node k) \<Longrightarrow> view node' (getRelayPin l) = Some (strip l)"
      and kept: "\<And>pin. pin \<notin> getRelayPin ` set (page_chunk node k) \<Longrightarrow> view node' pin = view (plan_node pn) pin"
      using chunk_fold [OF ok inv'(1,2), of k "pendingReport_reportedRelayPins pending"] by blast
    have all: "view node' (getRelayPin l) = Some (strip l)"
      if "j \<in> insert k received" "l \<in> set (page_chunk node j)" for j l
    proof (cases "getRelayPin l \<in> getRelayPin ` set (page_chunk node k)")
      case True
      then obtain l' where l': "l' \<in> set (page_chunk node k)" "getRelayPin l' = getRelayPin l" by auto
      moreover from l'(1) that(2) chunk_subset have "l' \<in> set (node_loads node)" "l \<in> set (node_loads node)" by blast+
      ultimately have "strip l' = strip l" using view_own [OF own, of l] view_own [OF own, of l'] by simp
      with new [OF l'(1)] l'(2) show ?thesis by simp
    next
      case False
      with that kept inv'(8) show ?thesis by auto
    qed
    have pins': "set (pendingReport_reportedRelayPins pending @ map getRelayPin (page_chunk node k)) =
                 chunk_pins node (insert k S)"
      using inv'(7) by (auto simp: chunk_pins_def)
    have same: "view node' = view node" if full: "received = {..<?n}"
    proof
      fix pin show "view node' pin = view node pin"
        using inv'(9) full kept [of pin] new chunk_subset [of node k] view_own [OF own]
        by (cases "pin \<in> getRelayPin ` set (page_chunk node k)") auto
    qed
    have mask': "bit (?mask OR push_bit k 1) i \<longleftrightarrow> i \<in> insert k S" if "i < 8" for i
      using inv'(6) [OF that] bit_page [OF k8(1), of ?mask i] by auto
    have full_iff: "?mask OR push_bit k 1 = ?all \<longleftrightarrow> insert k S = {..<?n}"
    proof -
      have "?mask OR push_bit k 1 = ?all \<longleftrightarrow> (\<forall>i < 8. i \<in> insert k S \<longleftrightarrow> i < ?n)"
        using all_pages_iff [of ?n "?mask OR push_bit k 1"] n4 mask' by simp
      also have "\<dots> \<longleftrightarrow> insert k S = {..<?n}"
        by (rule page_set_iff) (use inv'(3,4) k n4 in auto)
      finally show ?thesis .
    qed
    show ?thesis
    proof (cases "insert k S = {..<?n}")
      case False
      with unf(2) [OF fresh f] full_iff
      have "plan_node ?pn' = node'" "plan_pendingReport ?pn' =
          pending\<lparr>pendingReport_pagesReceivedMask := ?mask OR push_bit k 1,
                  pendingReport_reportedRelayPins :=
                    pendingReport_reportedRelayPins pending @ map getRelayPin (page_chunk node k)\<rparr>"
        by simp_all
      moreover have "if insert k received = {..<?n} then view node' = view node else insert k S = insert k received"
      proof (cases "received = {..<?n}")
        case True
        with k have "insert k received = {..<?n}" by auto
        with same [OF True] show ?thesis by simp
      next
        case False
        with inv'(9) have "S = received" by simp
        with \<open>insert k S \<noteq> {..<?n}\<close> show ?thesis by simp
      qed
      ultimately have "converging node sq (insert k received) (insert k S) ?pn'"
        using False n' inv'(3,4) k all pins' mask'
        by (auto simp: converging_def Let_def plan_mac_def pending_def)
      then show ?thesis by blast
    next
      case True
      with unf(3) [OF fresh f] full_iff
      have p': "plan_node ?pn' =
          pruneLoads (pendingReport_reportedRelayPins pending @ map getRelayPin (page_chunk node k)) node'"
        "plan_pendingReport ?pn' =
          pending\<lparr>pendingReport_pagesReceivedMask := 0, pendingReport_reportedRelayPins := []\<rparr>"
        by simp_all
      have full: "insert k received = {..<?n}" using True inv'(3,4) k by auto
      have pins: "set (pendingReport_reportedRelayPins pending @ map getRelayPin (page_chunk node k)) =
                  getRelayPin ` set (node_loads node)"
        using pins' True chunk_pins_all by simp
      have v: "view (plan_node ?pn') = view node"
      proof (rule view_complete [OF own])
        fix l assume l: "l \<in> set (node_loads node)"
        obtain j where "j < ?n" "l \<in> set (page_chunk node j)" using chunks_cover [OF l] by blast
        then have "view node' (getRelayPin l) = Some (strip l)" using all [of j l] full by simp
        then show "view (plan_node ?pn') (getRelayPin l) = Some (strip l)"
          using l pins by (simp add: p'(1) pruneLoads_view(3) [OF n'(1)] del: set_append)
      next
        fix pin assume "pin \<notin> getRelayPin ` set (node_loads node)"
        then show "view (plan_node ?pn') pin = None"
          using pins by (simp add: p'(1) pruneLoads_view(3) [OF n'(1)] del: set_append)
      qed
      have "view node (getRelayPin l) = Some (strip l)" if "l \<in> set (page_chunk node j)" for j l
        using that chunk_subset view_own [OF own] by blast
      then have "converging node sq (insert k received) {} ?pn'"
        using v n' full n4
        by (auto simp: converging_def Let_def plan_mac_def pending_def p' chunk_pins_def
            pruneLoads_view [OF n'(1)] lessThan_empty_iff)
      then show ?thesis by blast
    qed
  qed
qed

lemma converging_pages:
  assumes ok: "report_ok node" and "converging node sq received S pn"
    and "\<forall>(k, now) \<in> set deliveries. k < page_count node"
  shows "\<exists>S'. converging node sq (received \<union> fst ` set deliveries) S'
           (fold (\<lambda>(k, now). applyReportPage (report_page ln up h node sq k) now) deliveries pn)"
  using assms(2,3)
proof (induction deliveries arbitrary: received S pn)
  case (Cons d deliveries)
  obtain k now where d: "d = (k, now)" by (cases d)
  then have "k < page_count node" using Cons.prems(2) by simp
  from converging_step [OF ok Cons.prems(1) this]
  obtain S1 where "converging node sq (insert k received) S1
      (applyReportPage (report_page ln up h node sq k) now pn)" by blast
  from Cons.IH [OF this] Cons.prems(2) show ?case by (simp add: d)
qed auto

definition planningNodeFor :: "MacAddress \<Rightarrow> u32 \<Rightarrow> CentralNodeRegistry \<Rightarrow> PlanningNode" where
  "planningNodeFor mac now ns =
     (case findNodeByMacAddress mac ns of
        Some pn \<Rightarrow> pn
      | None \<Rightarrow> \<lparr>plan_node = new_Node mac, plan_nodeName = [], plan_nextHop = zero_mac,
                 plan_hopCount = 0, plan_isCentralNode = False, plan_lastSeen = now,
                 plan_pendingReport = new_PendingNodeReport\<rparr>)"

lemma plan_mac_applyReportPage [simp]:
  "plan_mac (applyReportPage packet now pn) = plan_mac pn"
proof -
  have one: "node_macAddress (snd (applyLoadReport mac r (pins, n))) = node_macAddress n" for mac r pins n
    by (auto simp: applyLoadReport_def Let_def split: option.splits prod.splits)
       (metis node_mac_ops(1) snd_conv)
  have fold: "node_macAddress (snd (fold (applyLoadReport mac) rs (pins, n))) = node_macAddress n" for mac rs pins n
  proof (induction rs arbitrary: pins n)
    case (Cons r rs)
    then show ?case using one [of mac r pins n] by (cases "applyLoadReport mac r (pins, n)") simp
  qed simp
  have rm: "node_macAddress (fold (\<lambda>pin n. snd (removeLoadByRelayPin pin n)) qs n) = node_macAddress n" for qs n
    by (induction qs arbitrary: n) simp_all
  obtain pins node where f: "fold (applyLoadReport (packet_nodeMacAddress packet))
      (take (min (unat (packet_numberOfLoads packet)) MAX_LOADS_PER_NODE_PACKET) (packet_loads packet))
      (pendingReport_reportedRelayPins (pendingFor (packet_reportSequenceId packet)
          (packet_totalPages packet) (plan_pendingReport pn)), plan_node pn) = (pins, node)"
    by fastforce
  have "node_macAddress node = node_macAddress (plan_node pn)"
    using fold [of "packet_nodeMacAddress packet"
        "take (min (unat (packet_numberOfLoads packet)) MAX_LOADS_PER_NODE_PACKET) (packet_loads packet)"
        "pendingReport_reportedRelayPins (pendingFor (packet_reportSequenceId packet)
          (packet_totalPages packet) (plan_pendingReport pn))" "plan_node pn"]
    unfolding f by simp
  then show ?thesis
    using f by (simp add: applyReportPage_def Let_def plan_mac_def pruneLoads_def rm)
qed

lemma findNode_update:
  assumes "\<And>pn. plan_mac (f pn) = plan_mac pn"
  shows "findNodeByMacAddress mac' (update_first (\<lambda>pn. plan_mac pn = mac) f ns) =
         (if mac' = mac then map_option f (findNodeByMacAddress mac ns) else findNodeByMacAddress mac' ns)"
proof (cases "mac' = mac")
  case True
  have "find (\<lambda>pn. plan_mac pn = mac) (update_first (\<lambda>pn. plan_mac pn = mac) f ns) =
        map_option f (find (\<lambda>pn. plan_mac pn = mac) ns)"
    by (rule find_update_first_same) (simp add: assms)
  with True show ?thesis by (simp add: findNodeByMacAddress_def)
next
  case False
  then have "find (\<lambda>pn. plan_mac pn = mac') (update_first (\<lambda>pn. plan_mac pn = mac) f ns) =
             find (\<lambda>pn. plan_mac pn = mac') ns"
    by (intro find_update_first_other) (auto simp: assms)
  with False show ?thesis by (simp add: findNodeByMacAddress_def)
qed

lemma applyNodeReport_find:
  assumes "packet_totalPages packet \<noteq> 0" "\<not> packet_totalPages packet > MAX_TRACKED_REPORT_PAGES"
    and "\<not> packet_pageIndex packet \<ge> packet_totalPages packet"
  shows "findNodeByMacAddress mac (applyNodeReport packet now ns) =
         (if mac = packet_nodeMacAddress packet
          then Some (applyReportPage packet now (planningNodeFor mac now ns))
          else findNodeByMacAddress mac ns)"
proof (cases "findNodeByMacAddress (packet_nodeMacAddress packet) ns")
  case None
  then have "find (\<lambda>pn. plan_mac pn = packet_nodeMacAddress packet) ns = None"
    by (simp add: findNodeByMacAddress_def)
  with None assms show ?thesis
    by (auto simp: applyNodeReport_def Let_def findNode_update planningNodeFor_def)
       (auto simp: findNodeByMacAddress_def find_append plan_mac_def new_Node_def split: option.splits)
next
  case (Some pn)
  with assms show ?thesis
    by (auto simp: applyNodeReport_def Let_def findNode_update planningNodeFor_def)
qed

lemma page_accepted:
  assumes ok: "report_ok node" and k: "k < page_count node"
  shows "packet_totalPages (report_page ln up h node sq k) \<noteq> 0"
    and "\<not> packet_totalPages (report_page ln up h node sq k) > MAX_TRACKED_REPORT_PAGES"
    and "\<not> packet_pageIndex (report_page ln up h node sq k) \<ge> packet_totalPages (report_page ln up h node sq k)"
proof -
  have n: "unat (computeReportPageCount (length (node_loads node))) = page_count node"
    "0 < page_count node" "page_count node \<le> 4"
    using unat_page_count [OF ok] page_count_bounds [OF ok] by simp_all
  then have "unat (of_nat k :: u8) = k" using k by (simp add: unsigned_of_nat take_bit_nat_eq_self)
  with n k show "packet_totalPages (report_page ln up h node sq k) \<noteq> 0"
    "\<not> packet_totalPages (report_page ln up h node sq k) > MAX_TRACKED_REPORT_PAGES"
    "\<not> packet_pageIndex (report_page ln up h node sq k) \<ge> packet_totalPages (report_page ln up h node sq k)"
    by (auto simp: page_fields MAX_TRACKED_REPORT_PAGES_def word_less_nat_alt word_le_nat_alt)
qed

definition deliver ::
  "string \<Rightarrow> MacAddress option \<Rightarrow> u16 \<Rightarrow> Node \<Rightarrow> u16 \<Rightarrow> (nat \<times> u32) list \<Rightarrow>
   CentralNodeRegistry \<Rightarrow> CentralNodeRegistry" where
  "deliver ln up h node sq deliveries ns =
     fold (\<lambda>(k, now). applyNodeReport (report_page ln up h node sq k) now) deliveries ns"

lemma deliver_find:
  assumes ok: "report_ok node" and ks: "\<forall>(k, now) \<in> set deliveries. k < page_count node"
    and pn: "findNodeByMacAddress (node_macAddress node) ns = Some pn"
  shows "findNodeByMacAddress (node_macAddress node) (deliver ln up h node sq deliveries ns) =
         Some (fold (\<lambda>(k, now). applyReportPage (report_page ln up h node sq k) now) deliveries pn)"
  using ks pn
proof (induction deliveries arbitrary: ns pn)
  case (Cons d deliveries)
  obtain k now where d: "d = (k, now)" by (cases d)
  then have k: "k < page_count node" using Cons.prems(1) by simp
  have "findNodeByMacAddress (node_macAddress node)
      (applyNodeReport (report_page ln up h node sq k) now ns) =
      Some (applyReportPage (report_page ln up h node sq k) now pn)"
    using applyNodeReport_find [OF page_accepted [OF ok k]] Cons.prems(2)
    by (simp add: page_fields planningNodeFor_def)
  from Cons.IH [OF _ this] Cons.prems(1) show ?case by (simp add: d deliver_def)
qed (simp add: deliver_def)

text \<open>
  C22: A Node's report reaches Central whole: once every page of a Smart Node's report has been
  delivered, in any order, with any page repeated any number of times at any point, Central's
  planning copy of that Node has exactly the Node's Loads, each with its name, rating, power
  type, priority, mode and schedule. Loads Central knew before and the report lacks are gone.
  The sequence identifier only has to be new to Central or the number of pages different.
\<close>

theorem report_delivered_whole:
  assumes ok: "report_ok node"
    and pages: "fst ` set deliveries = {..<page_count node}"
    and before: "\<And>pn. findNodeByMacAddress (node_macAddress node) ns = Some pn \<Longrightarrow>
      node_ok (plan_node pn) \<and>
      (pendingReport_sequenceId (plan_pendingReport pn) \<noteq> sq \<or>
       pendingReport_totalPages (plan_pendingReport pn) \<noteq>
         computeReportPageCount (length (node_loads node)))"
  shows "\<exists>pn. findNodeByMacAddress (node_macAddress node) (deliver ln up h node sq deliveries ns) = Some pn \<and>
           view (plan_node pn) = view node"
proof -
  let ?mac = "node_macAddress node" and ?page = "report_page ln up h node sq"
  have n: "0 < page_count node" using page_count_bounds [OF ok] by simp
  obtain k now rest where ds: "deliveries = (k, now) # rest"
    using pages n by (cases deliveries) auto
  have ks: "\<forall>(k, now) \<in> set deliveries. k < page_count node"
  proof (clarify)
    fix k now assume "(k, now) \<in> set deliveries"
    then have "k \<in> fst ` set deliveries" by force
    with pages show "k < page_count node" by simp
  qed
  then have k: "k < page_count node" using ds by simp
  let ?pn = "planningNodeFor ?mac now ns"
  have count: "computeReportPageCount (length (node_loads node)) \<noteq> 0"
    using unat_page_count [OF ok] n by (auto simp: unat_eq_0)
  have start: "node_ok (plan_node ?pn) \<and> plan_mac ?pn = ?mac \<and>
      (pendingReport_sequenceId (plan_pendingReport ?pn) \<noteq> sq \<or>
       pendingReport_totalPages (plan_pendingReport ?pn) \<noteq> computeReportPageCount (length (node_loads node)))"
  proof (cases "findNodeByMacAddress ?mac ns")
    case None
    with count show ?thesis
      by (simp add: planningNodeFor_def new_Node_ok plan_mac_def new_Node_def node_ok_def
          new_PendingNodeReport_def)
  next
    case (Some pn)
    then have "plan_mac pn = ?mac" unfolding findNodeByMacAddress_def by (auto dest: find_Some_in)
    with Some before [OF Some] show ?thesis by (simp add: planningNodeFor_def)
  qed
  then have "converging node sq {} {} ?pn"
    using n by (auto simp: converging_def Let_def pendingFor_def chunk_pins_def lessThan_empty_iff)
  from converging_pages [OF ok this ks, of ln up h]
  obtain S' where conv: "converging node sq (fst ` set deliveries) S'
      (fold (\<lambda>(k, now). applyReportPage (?page k) now) deliveries ?pn)" by auto
  have "findNodeByMacAddress ?mac (applyNodeReport (?page k) now ns) =
        Some (applyReportPage (?page k) now ?pn)"
    using applyNodeReport_find [OF page_accepted [OF ok k]] by (simp add: page_fields)
  from deliver_find [OF ok _ this, of rest ln up h sq] ks ds
  have "findNodeByMacAddress ?mac (deliver ln up h node sq deliveries ns) =
        Some (fold (\<lambda>(k, now). applyReportPage (?page k) now) deliveries ?pn)"
    by (simp add: deliver_def)
  moreover have "view (plan_node (fold (\<lambda>(k, now). applyReportPage (?page k) now) deliveries ?pn)) = view node"
    using conv pages by (simp add: converging_def Let_def)
  ultimately show ?thesis by blast
qed

text \<open>A Node with one Load, reported in one page that arrives twice.\<close>

definition example_node :: Node where
  "example_node =
     \<lparr>node_macAddress = (1, 2, 3, 4, 5, 6),
      node_loads = [new_Load \<lparr>id_mac = (1, 2, 3, 4, 5, 6), id_pin = 25\<rparr> ''Pump'' (watts 300) 4 AC AUTO_OFF]\<rparr>"

lemma example_node_ok: "report_ok example_node" "page_count example_node = 1"
proof -
  let ?l = "new_Load \<lparr>id_mac = (1, 2, 3, 4, 5, 6), id_pin = 25\<rparr> ''Pump'' (watts 300) 4 AC AUTO_OFF"
  have "reportable ?l"
    using new_Load_wf [of "\<lparr>id_mac = (1, 2, 3, 4, 5, 6), id_pin = 25\<rparr>" "''Pump''" "watts 300" 4 AC AUTO_OFF]
    by (simp add: reportable_def named_mode_def named_power_type_def)
       (simp add: new_Load_def setPowerRatingWatts_def c_text_def)
  then show "report_ok example_node"
    by (simp add: report_ok_def node_ok_def example_node_def getMacAddress_def MAX_LOADS_PER_NODE_def)
  show "page_count example_node = 1" by (simp add: page_count_def example_node_def)
qed

theorem report_delivered_whole_witness:
  "\<exists>pn. findNodeByMacAddress (1, 2, 3, 4, 5, 6) (deliver ''Shed'' None 1 example_node 7 [(0, 10), (0, 20)] [])
      = Some pn \<and> view (plan_node pn) = view example_node"
proof -
  have pages: "fst ` set [(0, 10 :: u32), (0, 20)] = {..<page_count example_node}"
    by (auto simp: example_node_ok(2))
  have mac: "node_macAddress example_node = (1, 2, 3, 4, 5, 6)" by (simp add: example_node_def)
  from report_delivered_whole [OF example_node_ok(1) pages, of "[]"] show ?thesis
    unfolding mac by (simp add: findNodeByMacAddress_def)
qed

text \<open>
  A Smart Node that could not take its mutex in time still sends the page, without any
  Load in it, and Central believes it: for a Node whose report is one page, applying such a
  packet removes every Load of that Node from Central's planning copy.
\<close>

theorem busy_report_clears_loads:
  assumes packet: "packet = buildNodeReportPacket ln up h False (Some node) (node_macAddress node) sq 0 1"
    and before: "\<And>pn. findNodeByMacAddress (node_macAddress node) ns = Some pn \<Longrightarrow>
      node_ok (plan_node pn) \<and> pendingReport_sequenceId (plan_pendingReport pn) \<noteq> sq"
  shows "\<exists>pn. findNodeByMacAddress (node_macAddress node) (applyNodeReport packet now ns) = Some pn \<and>
           view (plan_node pn) = (\<lambda>pin. None)"
proof -
  let ?pn = "planningNodeFor (node_macAddress node) now ns"
  have f: "packet_totalPages packet = 1" "packet_pageIndex packet = 0" "packet_numberOfLoads packet = 0"
    "packet_nodeMacAddress packet = node_macAddress node" "packet_reportSequenceId packet = sq"
    by (simp_all add: packet buildNodeReportPacket_def Let_def)
  have "node_ok (plan_node ?pn) \<and>
      (pendingReport_sequenceId (plan_pendingReport ?pn) \<noteq> sq \<or>
       pendingReport_totalPages (plan_pendingReport ?pn) \<noteq> 1)"
    using before by (auto simp: planningNodeFor_def new_Node_ok new_PendingNodeReport_def split: option.splits)
  then have start: "node_ok (plan_node ?pn)"
    and fresh: "pendingFor sq 1 (plan_pendingReport ?pn) =
      \<lparr>pendingReport_sequenceId = sq, pendingReport_totalPages = 1,
       pendingReport_pagesReceivedMask = 0, pendingReport_reportedRelayPins = []\<rparr>"
    by (auto simp: pendingFor_def)
  have one: "(0 OR push_bit (unat (0 :: u8)) 1 :: u8) = ucast (push_bit (unat (1 :: u8)) (1 :: u32) - 1)"
    by simp
  have "plan_node (applyReportPage packet now ?pn) = pruneLoads [] (plan_node ?pn)"
    using applyReportPage_unfold(3) [of packet ?pn "[]" "plan_node ?pn" now, unfolded f fresh]
    by simp
  then have "view (plan_node (applyReportPage packet now ?pn)) = (\<lambda>pin. None)"
    using pruneLoads_view(3) [OF start] by auto
  moreover have "findNodeByMacAddress (node_macAddress node) (applyNodeReport packet now ns) =
      Some (applyReportPage packet now ?pn)"
    using applyNodeReport_find [of packet "node_macAddress node" now ns, unfolded f]
    by (simp add: MAX_TRACKED_REPORT_PAGES_def)
  ultimately show ?thesis by blast
qed

theorem busy_report_clears_loads_witness:
  "\<exists>pn. findNodeByMacAddress (1, 2, 3, 4, 5, 6)
      (applyNodeReport (buildNodeReportPacket ''Shed'' None 1 False (Some example_node) (1, 2, 3, 4, 5, 6) 8 0 1) 30 [])
      = Some pn \<and> view (plan_node pn) = (\<lambda>pin. None)"
proof -
  have mac: "node_macAddress example_node = (1, 2, 3, 4, 5, 6)" by (simp add: example_node_def)
  from busy_report_clears_loads [OF refl, where node = example_node and ns = "[]" and sq = 8
      and now = 30 and ln = "''Shed''" and up = None and h = 1] show ?thesis
    unfolding mac by (simp add: findNodeByMacAddress_def)
qed

end
