(* ===== verification/Relay_Controller.thy ===== *)
theory Relay_Controller
  imports Prelude
begin

text \<open>
  \<open>RelayController\<close> (\<open>lib/RelayManager/RelayController.cpp\<close>), as built for the ESP32: the relay
  channels of a Node and the GPIO levels that drive them. The GPIO driver is not part of the
  repository: it is a parameter, a record of its calls over a driver state \<open>'g\<close>. Each call
  returns whether its result was \<open>ESP_OK\<close> and the state it leaves.
\<close>

section \<open>The GPIO driver\<close>

text \<open>
  \<open>gpio_config pin pullUp pullDown\<close> is the call for one pin in output mode without interrupt.
  \<open>gpio_level\<close> and \<open>gpio_is_output\<close> are what an observer of the pin sees.
\<close>

record 'g GpioApi =
  gpio_set_level :: "u8 \<Rightarrow> bool \<Rightarrow> 'g \<Rightarrow> bool \<times> 'g"
  gpio_config :: "u8 \<Rightarrow> bool \<Rightarrow> bool \<Rightarrow> 'g \<Rightarrow> bool \<times> 'g"
  gpio_reset_pin :: "u8 \<Rightarrow> 'g \<Rightarrow> bool \<times> 'g"
  gpio_level :: "'g \<Rightarrow> u8 \<Rightarrow> bool"
  gpio_is_output :: "'g \<Rightarrow> u8 \<Rightarrow> bool"

definition gpio_others_kept :: "'g GpioApi \<Rightarrow> u8 \<Rightarrow> 'g \<Rightarrow> 'g \<Rightarrow> bool" where
  "gpio_others_kept api pin g g' \<longleftrightarrow>
     (\<forall>q. q \<noteq> pin \<longrightarrow> gpio_level api g' q = gpio_level api g q \<and>
                   gpio_is_output api g' q = gpio_is_output api g q)"

text \<open>
  The documented behaviour: a level that was set is the level of the pin and leaves its mode
  alone; a pin configured as output is one; no call touches another pin.
\<close>

definition gpio_laws :: "'g GpioApi \<Rightarrow> bool" where
  "gpio_laws api \<longleftrightarrow>
     (\<forall>pin b g ok g'. gpio_set_level api pin b g = (ok, g') \<longrightarrow>
        (ok \<longrightarrow> gpio_level api g' pin = b) \<and>
        gpio_is_output api g' pin = gpio_is_output api g pin \<and> gpio_others_kept api pin g g') \<and>
     (\<forall>pin up down g ok g'. gpio_config api pin up down g = (ok, g') \<longrightarrow>
        (ok \<longrightarrow> gpio_is_output api g' pin) \<and> gpio_others_kept api pin g g') \<and>
     (\<forall>pin g ok g'. gpio_reset_pin api pin g = (ok, g') \<longrightarrow> gpio_others_kept api pin g g')"

lemma gpio_set_levelD:
  "gpio_laws api \<Longrightarrow> gpio_set_level api pin b g = (ok, g') \<Longrightarrow>
   (ok \<longrightarrow> gpio_level api g' pin = b) \<and>
   gpio_is_output api g' pin = gpio_is_output api g pin \<and> gpio_others_kept api pin g g'"
  by (simp add: gpio_laws_def)

lemma gpio_configD:
  "gpio_laws api \<Longrightarrow> gpio_config api pin up down g = (ok, g') \<Longrightarrow>
   (ok \<longrightarrow> gpio_is_output api g' pin) \<and> gpio_others_kept api pin g g'"
  by (simp add: gpio_laws_def)

lemma gpio_resetD:
  "gpio_laws api \<Longrightarrow> gpio_reset_pin api pin g = (ok, g') \<Longrightarrow> gpio_others_kept api pin g g'"
  by (simp add: gpio_laws_def)

lemma gpio_others_kept_refl [simp]: "gpio_others_kept api pin g g"
  by (simp add: gpio_others_kept_def)

lemma gpio_others_kept_trans:
  "gpio_others_kept api pin g g' \<Longrightarrow> gpio_others_kept api pin g' g'' \<Longrightarrow> gpio_others_kept api pin g g''"
  by (simp add: gpio_others_kept_def)

text \<open>
  A driver whose state is the levels and modes of the pins: the laws can hold. The pins of
  \<open>broken\<close> cannot be driven once they are outputs, so that the error paths can be run too.
\<close>

definition ram_gpio :: "u8 set \<Rightarrow> ((u8 \<Rightarrow> bool) \<times> (u8 \<Rightarrow> bool)) GpioApi" where
  "ram_gpio broken =
     \<lparr>gpio_set_level = (\<lambda>pin b (lv, out).
        if pin \<in> broken \<and> out pin then (False, (lv, out)) else (True, (lv(pin := b), out))),
      gpio_config = (\<lambda>pin up down (lv, out). (True, (lv, out(pin := True)))),
      gpio_reset_pin = (\<lambda>pin (lv, out). (True, (lv, out(pin := False)))),
      gpio_level = fst, gpio_is_output = snd\<rparr>"

lemma ram_gpio_laws: "gpio_laws (ram_gpio broken)"
  by (auto simp: gpio_laws_def ram_gpio_def gpio_others_kept_def split: if_splits)

section \<open>The relay channels\<close>

record RelayConfiguration =
  relay_pin :: u8
  activeHigh :: bool
  initialStateOn :: bool

record RegisteredRelay =
  configuration :: RelayConfiguration
  hardwareApplied :: bool

type_synonym RelayController = "RegisteredRelay list"

definition registered_pin :: "RegisteredRelay \<Rightarrow> u8" where
  "registered_pin r = relay_pin (configuration r)"

definition findRelay :: "u8 \<Rightarrow> RelayController \<Rightarrow> RegisteredRelay option" where
  "findRelay pin rs = find (\<lambda>r. registered_pin r = pin) rs"

definition isRelayRegistered :: "u8 \<Rightarrow> RelayController \<Rightarrow> bool" where
  "isRelayRegistered pin rs \<longleftrightarrow> findRelay pin rs \<noteq> None"

definition isHardwareApplied :: "u8 \<Rightarrow> RelayController \<Rightarrow> bool" where
  "isHardwareApplied pin rs \<longleftrightarrow>
     (case findRelay pin rs of None \<Rightarrow> False | Some r \<Rightarrow> hardwareApplied r)"

definition writeGpioLevel :: "'g GpioApi \<Rightarrow> RegisteredRelay \<Rightarrow> bool \<Rightarrow> 'g \<Rightarrow> bool \<times> 'g" where
  "writeGpioLevel api relay on g =
     (if \<not> hardwareApplied relay then (False, g)
      else let driveHigh = (if on then activeHigh (configuration relay)
                            else \<not> activeHigh (configuration relay))
           in gpio_set_level api (registered_pin relay) driveHigh g)"

text \<open>The result, the relay the call wrote to, and the driver.\<close>

definition configureGpio ::
  "'g GpioApi \<Rightarrow> RegisteredRelay \<Rightarrow> 'g \<Rightarrow> bool \<times> RegisteredRelay \<times> 'g" where
  "configureGpio api relay g =
     (let pin = registered_pin relay;
          high = activeHigh (configuration relay);
          initialDriveHigh = (if initialStateOn (configuration relay) then high else \<not> high);
          g1 = snd (gpio_set_level api pin initialDriveHigh g)
      in case gpio_config api pin (\<not> high) high g1 of (configured, g2) \<Rightarrow>
           if \<not> configured then (False, relay, g2)
           else
             let relay' = relay\<lparr>hardwareApplied := True\<rparr>
             in case writeGpioLevel api relay' (initialStateOn (configuration relay)) g2 of
                  (written, g3) \<Rightarrow> (written, relay', g3))"

definition removeRelay :: "'g GpioApi \<Rightarrow> u8 \<Rightarrow> RelayController \<times> 'g \<Rightarrow> bool \<times> RelayController \<times> 'g" where
  "removeRelay api pin = (\<lambda>(rs, g).
     case findRelay pin rs of
       None \<Rightarrow> (False, rs, g)
     | Some relay \<Rightarrow>
         let g' = (if hardwareApplied relay
                   then snd (gpio_reset_pin api (registered_pin relay)
                              (snd (writeGpioLevel api relay False g)))
                   else g)
         in (True, erase_first (\<lambda>r. registered_pin r = pin) rs, g'))"

definition addRelay ::
  "'g GpioApi \<Rightarrow> RelayConfiguration \<Rightarrow> RelayController \<times> 'g \<Rightarrow> bool \<times> RelayController \<times> 'g" where
  "addRelay api cfg = (\<lambda>(rs, g).
     if isRelayRegistered (relay_pin cfg) rs then (False, rs, g)
     else
       case configureGpio api \<lparr>configuration = cfg, hardwareApplied = False\<rparr> g of
         (hardwareConfigured, relay, g') \<Rightarrow>
           let rs' = rs @ [relay\<lparr>hardwareApplied := hardwareConfigured\<rparr>]
           in if \<not> hardwareConfigured
              then (False, snd (removeRelay api (relay_pin cfg) (rs', g')))
              else (True, rs', g'))"

definition setRelayState ::
  "'g GpioApi \<Rightarrow> u8 \<Rightarrow> bool \<Rightarrow> RelayController \<times> 'g \<Rightarrow> bool \<times> RelayController \<times> 'g" where
  "setRelayState api pin on = (\<lambda>(rs, g).
     case findRelay pin rs of
       None \<Rightarrow> (False, rs, g)
     | Some relay \<Rightarrow> (case writeGpioLevel api relay on g of (written, g') \<Rightarrow> (written, rs, g')))"

section \<open>What the operations do\<close>

lemma configureGpio_relay:
  "configureGpio api relay g = (ok, relay', g') \<Longrightarrow>
   configuration relay' = configuration relay \<and> (ok \<longrightarrow> hardwareApplied relay')"
  by (auto simp: configureGpio_def Let_def split: prod.splits if_splits)

lemma writeGpioLevel_level:
  "gpio_laws api \<Longrightarrow> writeGpioLevel api relay on g = (ok, g') \<Longrightarrow>
   (ok \<longrightarrow> gpio_level api g' (registered_pin relay) = (on = activeHigh (configuration relay))) \<and>
   gpio_others_kept api (registered_pin relay) g g'"
  by (auto simp: writeGpioLevel_def Let_def split: if_splits dest!: gpio_set_levelD)

lemma configureGpio_level:
  assumes laws: "gpio_laws api" and c: "configureGpio api relay g = (ok, relay', g')"
  shows "(ok \<longrightarrow> gpio_level api g' (registered_pin relay) =
            (initialStateOn (configuration relay) = activeHigh (configuration relay))) \<and>
         gpio_others_kept api (registered_pin relay) g g'"
proof -
  let ?pin = "registered_pin relay" and ?high = "activeHigh (configuration relay)"
  obtain b g1 where set: "gpio_set_level api ?pin
      (if initialStateOn (configuration relay) then ?high else \<not> ?high) g = (b, g1)"
    by (cases "gpio_set_level api ?pin
      (if initialStateOn (configuration relay) then ?high else \<not> ?high) g") auto
  obtain k g2 where conf: "gpio_config api ?pin (\<not> ?high) ?high g1 = (k, g2)"
    by (cases "gpio_config api ?pin (\<not> ?high) ?high g1") auto
  have keep2: "gpio_others_kept api ?pin g g2"
    using gpio_set_levelD [OF laws set] gpio_configD [OF laws conf]
    by (blast intro: gpio_others_kept_trans)
  show ?thesis
  proof (cases k)
    case False
    then show ?thesis using c set conf keep2 by (simp add: configureGpio_def Let_def)
  next
    case True
    let ?r = "relay\<lparr>hardwareApplied := True\<rparr>"
    obtain w where w: "writeGpioLevel api ?r (initialStateOn (configuration relay)) g2 = (w, g')"
      and ok: "ok = w"
      using c set conf True by (auto simp: configureGpio_def Let_def split: prod.splits)
    have pin: "registered_pin ?r = ?pin" by (simp add: registered_pin_def)
    show ?thesis
      using writeGpioLevel_level [OF laws w] keep2 ok unfolding pin
      by (auto intro: gpio_others_kept_trans)
  qed
qed

text \<open>
  A channel is registered, with its GPIO configured, or nothing is registered at all.
\<close>

lemma addRelay_result:
  assumes a: "addRelay api cfg (rs, g) = (ok, rs', g')"
  shows "rs' = (if ok then rs @ [\<lparr>configuration = cfg, hardwareApplied = True\<rparr>] else rs)"
    and "ok \<Longrightarrow> \<not> isRelayRegistered (relay_pin cfg) rs"
proof -
  show "ok \<Longrightarrow> \<not> isRelayRegistered (relay_pin cfg) rs"
    using a by (auto simp: addRelay_def split: if_splits)
  show "rs' = (if ok then rs @ [\<lparr>configuration = cfg, hardwareApplied = True\<rparr>] else rs)"
  proof (cases "isRelayRegistered (relay_pin cfg) rs")
    case True
    then show ?thesis using a by (auto simp: addRelay_def)
  next
    case False
    obtain hc relay g1 where c:
      "configureGpio api \<lparr>configuration = cfg, hardwareApplied = False\<rparr> g = (hc, relay, g1)"
      by (cases "configureGpio api \<lparr>configuration = cfg, hardwareApplied = False\<rparr> g") auto
    have relay: "configuration relay = cfg" using configureGpio_relay [OF c] by simp
    have none: "find (\<lambda>r. registered_pin r = relay_pin cfg) rs = None"
      using False by (simp add: isRelayRegistered_def findRelay_def)
    have erased: "erase_first (\<lambda>r. registered_pin r = relay_pin cfg) (rs @ [relay\<lparr>hardwareApplied := hc\<rparr>]) = rs"
      by (rule erase_first_append_new [OF none]) (simp add: registered_pin_def relay)
    have found: "findRelay (relay_pin cfg) (rs @ [relay\<lparr>hardwareApplied := hc\<rparr>]) = Some (relay\<lparr>hardwareApplied := hc\<rparr>)"
      using none by (simp add: findRelay_def find_append registered_pin_def relay)
    have eq: "relay\<lparr>hardwareApplied := True\<rparr> = \<lparr>configuration = cfg, hardwareApplied = True\<rparr>"
      by (rule RegisteredRelay.equality) (simp_all add: relay)
    show ?thesis
      using a False c erased found eq
      by (auto simp: addRelay_def removeRelay_def Let_def split: if_splits)
  qed
qed

lemma addRelay_level:
  assumes laws: "gpio_laws api" and a: "addRelay api cfg (rs, g) = (True, rs', g')"
  shows "gpio_level api g' (relay_pin cfg) = (initialStateOn cfg = activeHigh cfg)"
    and "gpio_others_kept api (relay_pin cfg) g g'"
proof -
  obtain relay where c:
    "configureGpio api \<lparr>configuration = cfg, hardwareApplied = False\<rparr> g = (True, relay, g')"
    using a by (auto simp: addRelay_def Let_def split: if_splits prod.splits)
  note l = configureGpio_level [OF laws c, unfolded registered_pin_def, simplified]
  show "gpio_level api g' (relay_pin cfg) = (initialStateOn cfg = activeHigh cfg)"
    and "gpio_others_kept api (relay_pin cfg) g g'" using l by simp_all
qed

lemma removeRelay_relays:
  "fst (snd (removeRelay api pin (rs, g))) = erase_first (\<lambda>r. registered_pin r = pin) rs"
  by (auto simp: removeRelay_def findRelay_def Let_def split: option.splits
      intro!: erase_first_id [symmetric])

lemma setRelayState_relays: "fst (snd (setRelayState api pin on (rs, g))) = rs"
  by (auto simp: setRelayState_def split: option.splits prod.splits)

lemma setRelayState_level:
  assumes laws: "gpio_laws api" and s: "setRelayState api pin on (rs, g) = (ok, rs', g')"
    and found: "findRelay pin rs = Some relay"
  shows "(ok \<longrightarrow> gpio_level api g' pin = (on = activeHigh (configuration relay))) \<and>
         gpio_others_kept api pin g g'"
proof -
  have pin: "registered_pin relay = pin"
    by (rule find_Some_in [OF found [unfolded findRelay_def], THEN conjunct2])
  have "writeGpioLevel api relay on g = (ok, g')"
    using s found by (auto simp: setRelayState_def split: prod.splits)
  from writeGpioLevel_level [OF laws this] show ?thesis unfolding pin .
qed

section \<open>Properties\<close>

text \<open>
  A command that \<open>setRelayState\<close> reports as done drives the pin to the level the relay's
  polarity gives to the requested state (on an active-low channel, ON is the low level), and
  neither this call nor a failing one touches another pin or any registration.
\<close>

theorem relay_polarity:
  assumes laws: "gpio_laws api" and found: "findRelay pin rs = Some relay"
    and s: "setRelayState api pin on (rs, g) = (ok, rs', g')"
  shows "rs' = rs \<and>
    (ok \<longrightarrow> gpio_level api g' pin =
       (if on then activeHigh (configuration relay) else \<not> activeHigh (configuration relay))) \<and>
    (\<forall>q. q \<noteq> pin \<longrightarrow> gpio_level api g' q = gpio_level api g q)"
  using setRelayState_relays [of api pin on rs g] setRelayState_level [OF laws s found] s
  by (auto simp: gpio_others_kept_def)

definition example_relay :: RegisteredRelay where
  "example_relay =
     \<lparr>configuration = \<lparr>relay_pin = 16, activeHigh = False, initialStateOn = False\<rparr>,
      hardwareApplied = True\<rparr>"

theorem relay_polarity_witness:
  "\<exists>g'. setRelayState (ram_gpio {}) 16 True ([example_relay], (\<lambda>p. True, \<lambda>p. p = 16)) =
          (True, [example_relay], g') \<and>
        \<not> gpio_level (ram_gpio {}) g' 16 \<and> gpio_level (ram_gpio {}) g' 17"
proof -
  have s: "setRelayState (ram_gpio {}) 16 True ([example_relay], (\<lambda>p. True, \<lambda>p. p = 16)) =
        (True, [example_relay], ((\<lambda>p. True)(16 := False), \<lambda>p. p = 16))"
    by (simp add: setRelayState_def findRelay_def registered_pin_def example_relay_def
        writeGpioLevel_def ram_gpio_def)
  have f: "findRelay 16 [example_relay] = Some example_relay"
    by (simp add: findRelay_def registered_pin_def example_relay_def)
  show ?thesis
    using relay_polarity [OF ram_gpio_laws f s] s
    by (simp add: example_relay_def ram_gpio_def)
qed

text \<open>
  \<open>addRelay\<close> clears \<open>hardwareApplied\<close> again when the initial level cannot be written after
  the pin became an output. The clean-up in \<open>removeRelay\<close>, which only resets channels with
  the flag set, then skips it: the registration is gone, and the pin stays an output.
\<close>

theorem failed_initial_write_leaves_output:
  assumes laws: "gpio_laws api" and fresh: "\<not> isRelayRegistered (relay_pin cfg) rs"
    and config: "\<And>up down h. fst (gpio_config api (relay_pin cfg) up down h)"
    and broken: "\<And>b h. gpio_is_output api h (relay_pin cfg) \<Longrightarrow>
      \<not> fst (gpio_set_level api (relay_pin cfg) b h)"
  shows "\<exists>g'. addRelay api cfg (rs, g) = (False, rs, g') \<and> gpio_is_output api g' (relay_pin cfg)"
proof -
  let ?relay = "\<lparr>configuration = cfg, hardwareApplied = False\<rparr>"
  let ?pin = "relay_pin cfg"
  let ?g1 = "snd (gpio_set_level api ?pin (if initialStateOn cfg then activeHigh cfg else \<not> activeHigh cfg) g)"
  obtain g2 where conf: "gpio_config api ?pin (\<not> activeHigh cfg) (activeHigh cfg) ?g1 = (True, g2)"
    using config [of "\<not> activeHigh cfg" "activeHigh cfg" ?g1]
    by (cases "gpio_config api ?pin (\<not> activeHigh cfg) (activeHigh cfg) ?g1") auto
  have out2: "gpio_is_output api g2 ?pin" using gpio_configD [OF laws conf] by simp
  let ?high = "if initialStateOn cfg then activeHigh cfg else \<not> activeHigh cfg"
  obtain g3 where w: "gpio_set_level api ?pin ?high g2 = (False, g3)"
    using broken [OF out2, of ?high] by (cases "gpio_set_level api ?pin ?high g2") auto
  have c: "configureGpio api ?relay g = (False, ?relay\<lparr>hardwareApplied := True\<rparr>, g3)"
    using conf w
    by (cases "initialStateOn cfg")
      (simp_all add: configureGpio_def writeGpioLevel_def registered_pin_def Let_def)
  have none: "find (\<lambda>r. registered_pin r = ?pin) rs = None"
    using fresh by (simp add: isRelayRegistered_def findRelay_def)
  have "findRelay ?pin (rs @ [?relay]) = Some ?relay"
    using none by (simp add: findRelay_def find_append registered_pin_def)
  moreover have "erase_first (\<lambda>r. registered_pin r = ?pin) (rs @ [?relay]) = rs"
    by (rule erase_first_append_new [OF none]) (simp add: registered_pin_def)
  ultimately have "addRelay api cfg (rs, g) = (False, rs, g3)"
    using fresh c by (simp add: addRelay_def removeRelay_def Let_def)
  moreover have "gpio_is_output api g3 ?pin"
    using gpio_set_levelD [OF laws w] out2 by simp
  ultimately show ?thesis by blast
qed

theorem failed_initial_write_leaves_output_witness:
  "\<exists>g'. addRelay (ram_gpio {16}) \<lparr>relay_pin = 16, activeHigh = True, initialStateOn = False\<rparr>
          ([], (\<lambda>p. False, \<lambda>p. False)) = (False, [], g') \<and> gpio_is_output (ram_gpio {16}) g' 16"
proof -
  let ?cfg = "\<lparr>relay_pin = 16, activeHigh = True, initialStateOn = False\<rparr>"
  have "\<not> isRelayRegistered (relay_pin ?cfg) []" by (simp add: isRelayRegistered_def findRelay_def)
  moreover have "\<And>up down h. fst (gpio_config (ram_gpio {16}) (relay_pin ?cfg) up down h)"
    by (simp add: ram_gpio_def split_beta)
  moreover have "\<And>b h. gpio_is_output (ram_gpio {16}) h (relay_pin ?cfg) \<Longrightarrow>
      \<not> fst (gpio_set_level (ram_gpio {16}) (relay_pin ?cfg) b h)"
    by (simp add: ram_gpio_def split_beta)
  ultimately have "\<exists>g'. addRelay (ram_gpio {16}) ?cfg ([], (\<lambda>p. False, \<lambda>p. False)) = (False, [], g') \<and>
      gpio_is_output (ram_gpio {16}) g' (relay_pin ?cfg)"
    by (rule failed_initial_write_leaves_output [OF ram_gpio_laws])
  then show ?thesis by simp
qed

end
