(* ===== verification/Load_Hardware.thy ===== *)
theory Load_Hardware
  imports Persistence Node_Registry Relay_Controller
begin

text \<open>
  \<open>NodeLoadHardwareStore\<close> (\<open>lib/NodeManager/NodeLoadHardwareStore.cpp\<close>): the Loads wired to one
  Node. Adding a Load is a transaction over the stored configurations, the relay channels,
  the Node's Loads and the non-volatile storage. Every operation of the source returns a
  success flag and a failure reason, and returns true exactly where it sets the reason
  \<open>NONE\<close>: the model returns the reason.
\<close>

section \<open>State\<close>

datatype HardwareConfigurationFailureReason =
  NONE | NODE_NOT_COMMISSIONED | UNSUPPORTED_RELAY_PIN | DUPLICATE_RELAY_PIN
| INVALID_POWER_RATING | INVALID_CONFIGURATION | HARDWARE_INITIALIZATION_FAILED
| PERSISTENCE_FAILED | CAPACITY_REACHED

text \<open>\<open>char name[16]\<close> is its characters up to the first NUL, all 16 when there is none.\<close>

record LoadConfiguration =
  conf_name :: string
  conf_relayPin :: u8
  conf_relayActiveHigh :: bool
  conf_powerRatingWatts :: f32
  conf_powerType :: LoadPowerType
  conf_mode :: LoadModeValue
  conf_priority :: u16
  conf_schedule :: AutoSchedule

text \<open>The store with everything its operations are handed by reference.\<close>

record ('g, 'n) NodeHardware =
  hw_configurations :: "LoadConfiguration list"
  hw_relays :: RelayController
  hw_gpio :: 'g
  hw_node :: Node
  hw_nvs :: 'n

definition MAX_CONFIGURED_LOADS :: nat where "MAX_CONFIGURED_LOADS = 16"

definition NAME_SIZE :: nat where "NAME_SIZE = 16"

definition new_NodeHardware :: "MacAddress \<Rightarrow> 'g \<Rightarrow> 'n \<Rightarrow> ('g, 'n) NodeHardware" where
  "new_NodeHardware mac g n =
     \<lparr>hw_configurations = [], hw_relays = [], hw_gpio = g, hw_node = new_Node mac, hw_nvs = n\<rparr>"

section \<open>Validation\<close>

definition findByRelayPin :: "u8 \<Rightarrow> LoadConfiguration list \<Rightarrow> LoadConfiguration option" where
  "findByRelayPin pin cs = find (\<lambda>c. conf_relayPin c = pin) cs"

definition conf_scheduleValid :: "AutoSchedule \<Rightarrow> bool" where
  "conf_scheduleValid s \<longleftrightarrow>
     (if enabled s
      then (if startHour s \<le> 23 \<and> startMinute s \<le> 59 \<and> endHour s \<le> 23 \<and> endMinute s \<le> 59
            then minutes_of_day (startHour s) (startMinute s) \<noteq> minutes_of_day (endHour s) (endMinute s)
            else False)
      else True)"

definition isValidNewConfiguration ::
  "LoadConfiguration list \<Rightarrow> LoadConfiguration \<Rightarrow> HardwareConfigurationFailureReason" where
  "isValidNewConfiguration cs v =
     (let nameLength = boundedLength (conf_name v) NAME_SIZE
      in if nameLength = 0 \<or> nameLength \<ge> NAME_SIZE \<or>
            \<not> named_mode (conf_mode v) \<or> \<not> named_power_type (conf_powerType v) \<or>
            conf_priority v > 10 \<or> \<not> conf_scheduleValid (conf_schedule v)
         then INVALID_CONFIGURATION
         else if \<not> fisfinite (conf_powerRatingWatts v) \<or> flt (conf_powerRatingWatts v) fzero
         then INVALID_POWER_RATING
         else if length cs \<ge> MAX_CONFIGURED_LOADS then CAPACITY_REACHED
         else if findByRelayPin (conf_relayPin v) cs \<noteq> None then DUPLICATE_RELAY_PIN
         else NONE)"

section \<open>Persistence\<close>

definition HARDWARE_SCHEMA_VERSION :: u8 where "HARDWARE_SCHEMA_VERSION = 5"

definition LOAD_RECORD_SIZE :: nat where "LOAD_RECORD_SIZE = 31"

definition toPersisted :: "LoadConfiguration \<Rightarrow> u8 list" where
  "toPersisted v =
     char_array (NAME_SIZE - 1) (conf_name v) @ [0] @
     [conf_relayPin v, bool_byte (conf_relayActiveHigh v)] @
     f32_bytes (conf_powerRatingWatts v) @
     [power_type_byte (conf_powerType v), mode_byte (conf_mode v)] @
     u16_bytes (conf_priority v) @
     [bool_byte (enabled (conf_schedule v)),
      startHour (conf_schedule v), startMinute (conf_schedule v),
      endHour (conf_schedule v), endMinute (conf_schedule v)]"

definition fromPersisted :: "u8 list \<Rightarrow> LoadConfiguration" where
  "fromPersisted bs =
     \<lparr>conf_name = c_text (string_of_bytes (take (NAME_SIZE - 1) bs)),
      conf_relayPin = bs ! 16, conf_relayActiveHigh = (bs ! 17 \<noteq> 0),
      conf_powerRatingWatts = f32_of_bytes (take 4 (drop 18 bs)),
      conf_powerType = power_type_of_byte (bs ! 22), conf_mode = mode_of_byte (bs ! 23),
      conf_priority = u16_of_bytes (take 2 (drop 24 bs)),
      conf_schedule = AutoSchedule5 (bs ! 26 \<noteq> 0) (bs ! 27) (bs ! 28) (bs ! 29) (bs ! 30)\<rparr>"

text \<open>
  The validator is a new, empty store in every turn of the loop: what was restored before is
  not in it.
\<close>

fun restore_records :: "u8 list list \<Rightarrow> LoadConfiguration list option" where
  "restore_records [] = Some []"
| "restore_records (bs # records) =
     (let v = fromPersisted bs
      in if isValidNewConfiguration [] v \<noteq> NONE then None
         else map_option (\<lambda>restored. v # restored) (restore_records records))"

definition hardware_loadPersisted ::
  "'n NvsApi \<Rightarrow> 'n \<Rightarrow> LoadConfiguration list \<Rightarrow> bool \<times> LoadConfiguration list" where
  "hardware_loadPersisted api n cs =
     (if \<not> nvs_open_readonly api n then (False, cs)
      else if nvs_get_u8 api n ''schema'' \<noteq> Some HARDWARE_SCHEMA_VERSION then (False, cs)
      else if nvs_not_found api n ''loads'' then (True, [])
      else case nvs_get_blob api n ''loads'' of
             None \<Rightarrow> (False, cs)
           | Some bs \<Rightarrow>
               if length bs mod LOAD_RECORD_SIZE \<noteq> 0 then (False, cs)
               else if length bs div LOAD_RECORD_SIZE > MAX_CONFIGURED_LOADS then (False, cs)
               else case restore_records (record_bytes LOAD_RECORD_SIZE bs) of
                      None \<Rightarrow> (False, cs)
                    | Some restored \<Rightarrow> (True, restored))"

definition erase_loads :: "'n NvsApi \<Rightarrow> 'n \<Rightarrow> bool \<times> 'n" where
  "erase_loads api n =
     (if nvs_not_found api n ''loads'' then (True, snd (nvs_erase_key api ''loads'' n))
      else nvs_erase_key api ''loads'' n)"

definition hardware_persist :: "'n NvsApi \<Rightarrow> LoadConfiguration list \<Rightarrow> 'n \<Rightarrow> bool \<times> 'n" where
  "hardware_persist api cs n =
     (if \<not> nvs_open_readwrite api n then (False, n)
      else nvs_then
             (nvs_then (nvs_set_u8 api ''schema'' HARDWARE_SCHEMA_VERSION n)
                (if cs = [] then erase_loads api
                 else nvs_set_blob api ''loads'' (concat (map toPersisted cs))))
             (nvs_commit api))"

section \<open>Operations\<close>

text \<open>The two clean-up calls: the relay channel, and the Node's Load with it.\<close>

definition dropRelay :: "'g GpioApi \<Rightarrow> u8 \<Rightarrow> ('g, 'n) NodeHardware \<Rightarrow> ('g, 'n) NodeHardware" where
  "dropRelay gpio pin s =
     (case removeRelay gpio pin (hw_relays s, hw_gpio s) of
        (_, rs, g) \<Rightarrow> s\<lparr>hw_relays := rs, hw_gpio := g\<rparr>)"

definition rollbackOne :: "'g GpioApi \<Rightarrow> u8 \<Rightarrow> ('g, 'n) NodeHardware \<Rightarrow> ('g, 'n) NodeHardware" where
  "rollbackOne gpio pin s =
     dropRelay gpio pin (s\<lparr>hw_node := snd (removeLoadByRelayPin pin (hw_node s))\<rparr>)"

definition configured_load :: "MacAddress \<Rightarrow> LoadConfiguration \<Rightarrow> Load" where
  "configured_load mac v =
     new_Load \<lparr>id_mac = mac, id_pin = conf_relayPin v\<rparr> (c_text (conf_name v))
       (conf_powerRatingWatts v) (conf_priority v) (conf_powerType v) (conf_mode v)"

definition initial_relay :: "LoadConfiguration \<Rightarrow> RelayConfiguration" where
  "initial_relay v =
     \<lparr>relay_pin = conf_relayPin v, activeHigh = conf_relayActiveHigh v,
      initialStateOn = (conf_mode v = FIXED_ON \<or> conf_mode v = AUTO_ON)\<rparr>"

text \<open>The Load is on the Node: give it its schedule, or roll everything back.\<close>

definition scheduleApplied ::
  "'g GpioApi \<Rightarrow> LoadConfiguration \<Rightarrow> ('g, 'n) NodeHardware \<Rightarrow>
   HardwareConfigurationFailureReason \<times> ('g, 'n) NodeHardware" where
  "scheduleApplied gpio v s =
     (let pin = conf_relayPin v
      in case getLoadByRelayPin pin (hw_node s) of
           None \<Rightarrow> (HARDWARE_INITIALIZATION_FAILED, rollbackOne gpio pin s)
         | Some applied \<Rightarrow>
             if \<not> isAuto applied then (NONE, s)
             else (case setSchedule (conf_schedule v) applied of
                     (accepted, applied') \<Rightarrow>
                       let s' = s\<lparr>hw_node := updateLoad pin (\<lambda>_. applied') (hw_node s)\<rparr>
                       in if \<not> accepted then (INVALID_CONFIGURATION, rollbackOne gpio pin s')
                          else (NONE, s')))"

definition applyOne ::
  "'g GpioApi \<Rightarrow> LoadConfiguration \<Rightarrow> ('g, 'n) NodeHardware \<Rightarrow>
   HardwareConfigurationFailureReason \<times> ('g, 'n) NodeHardware" where
  "applyOne gpio v s =
     (let pin = conf_relayPin v
      in if isRelayRegistered pin (hw_relays s) \<or> getLoadByRelayPin pin (hw_node s) \<noteq> None
         then (DUPLICATE_RELAY_PIN, s)
         else case addRelay gpio (initial_relay v) (hw_relays s, hw_gpio s) of
           (added, rs, g) \<Rightarrow>
             let s1 = s\<lparr>hw_relays := rs, hw_gpio := g\<rparr>
             in if \<not> added then (HARDWARE_INITIALIZATION_FAILED, s1)
                else if \<not> isHardwareApplied pin rs
                then (HARDWARE_INITIALIZATION_FAILED, dropRelay gpio pin s1)
                else case addLoad (configured_load (node_macAddress (hw_node s)) v) (hw_node s) of
                  (ok, node) \<Rightarrow>
                    if \<not> ok then (HARDWARE_INITIALIZATION_FAILED, dropRelay gpio pin s1)
                    else scheduleApplied gpio v (s1\<lparr>hw_node := node\<rparr>))"

definition configureNewLoad ::
  "'g GpioApi \<Rightarrow> 'n NvsApi \<Rightarrow> LoadConfiguration \<Rightarrow> ('g, 'n) NodeHardware \<Rightarrow>
   HardwareConfigurationFailureReason \<times> ('g, 'n) NodeHardware" where
  "configureNewLoad gpio nvs v s =
     (let valid = isValidNewConfiguration (hw_configurations s) v
      in if valid \<noteq> NONE then (valid, s)
         else case applyOne gpio v s of
           (reason, s1) \<Rightarrow>
             if reason \<noteq> NONE then (reason, s1)
             else
               let pushed = hw_configurations s1 @ [v]
               in case hardware_persist nvs pushed (hw_nvs s1) of
                 (persisted, n) \<Rightarrow>
                   if \<not> persisted
                   then (PERSISTENCE_FAILED,
                         rollbackOne gpio (conf_relayPin v)
                           (s1\<lparr>hw_configurations := butlast pushed, hw_nvs := n\<rparr>))
                   else (NONE, s1\<lparr>hw_configurations := pushed, hw_nvs := n\<rparr>))"

definition hw_setRelayState ::
  "'g GpioApi \<Rightarrow> u8 \<Rightarrow> bool \<Rightarrow> ('g, 'n) NodeHardware \<Rightarrow> bool \<times> ('g, 'n) NodeHardware" where
  "hw_setRelayState gpio pin on s =
     (case setRelayState gpio pin on (hw_relays s, hw_gpio s) of
        (ok, rs, g) \<Rightarrow> (ok, s\<lparr>hw_relays := rs, hw_gpio := g\<rparr>))"

definition hw_removeLoad ::
  "'g GpioApi \<Rightarrow> 'n NvsApi \<Rightarrow> u8 \<Rightarrow> ('g, 'n) NodeHardware \<Rightarrow>
   HardwareConfigurationFailureReason \<times> ('g, 'n) NodeHardware" where
  "hw_removeLoad gpio nvs pin s =
     (if findByRelayPin pin (hw_configurations s) = None then (INVALID_CONFIGURATION, s)
      else case hw_setRelayState gpio pin False s of
        (off, s1) \<Rightarrow>
          if \<not> off then (HARDWARE_INITIALIZATION_FAILED, s1)
          else
            let erased = erase_first (\<lambda>c. conf_relayPin c = pin) (hw_configurations s1)
            in case hardware_persist nvs erased (hw_nvs s1) of
              (persisted, n) \<Rightarrow>
                if \<not> persisted then (PERSISTENCE_FAILED, s1\<lparr>hw_nvs := n\<rparr>)
                else (NONE, rollbackOne gpio pin (s1\<lparr>hw_configurations := erased, hw_nvs := n\<rparr>)))"

fun switchAllOff ::
  "'g GpioApi \<Rightarrow> LoadConfiguration list \<Rightarrow> ('g, 'n) NodeHardware \<Rightarrow> bool \<times> ('g, 'n) NodeHardware" where
  "switchAllOff gpio [] s = (True, s)"
| "switchAllOff gpio (v # vs) s =
     (case hw_setRelayState gpio (conf_relayPin v) False s of
        (off, s') \<Rightarrow> if \<not> off then (False, s') else switchAllOff gpio vs s')"

definition clearAllConfigurations ::
  "'g GpioApi \<Rightarrow> 'n NvsApi \<Rightarrow> ('g, 'n) NodeHardware \<Rightarrow>
   HardwareConfigurationFailureReason \<times> ('g, 'n) NodeHardware" where
  "clearAllConfigurations gpio nvs s =
     (case switchAllOff gpio (hw_configurations s) s of
        (off, s1) \<Rightarrow>
          if \<not> off then (HARDWARE_INITIALIZATION_FAILED, s1)
          else case hardware_persist nvs [] (hw_nvs s1) of
            (persisted, n) \<Rightarrow>
              if \<not> persisted then (PERSISTENCE_FAILED, s1\<lparr>hw_nvs := n\<rparr>)
              else (NONE, fold (\<lambda>v. rollbackOne gpio (conf_relayPin v)) (hw_configurations s1)
                            (s1\<lparr>hw_configurations := [], hw_nvs := n\<rparr>)))"

fun applyAll ::
  "'g GpioApi \<Rightarrow> u8 list \<Rightarrow> LoadConfiguration list \<Rightarrow> ('g, 'n) NodeHardware \<Rightarrow>
   HardwareConfigurationFailureReason \<times> ('g, 'n) NodeHardware" where
  "applyAll gpio appliedPins [] s = (NONE, s)"
| "applyAll gpio appliedPins (v # vs) s =
     (case applyOne gpio v s of
        (reason, s') \<Rightarrow>
          if reason \<noteq> NONE then (reason, fold (rollbackOne gpio) appliedPins s')
          else applyAll gpio (appliedPins @ [conf_relayPin v]) vs s')"

definition applyPersistedConfigurations ::
  "'g GpioApi \<Rightarrow> ('g, 'n) NodeHardware \<Rightarrow>
   HardwareConfigurationFailureReason \<times> ('g, 'n) NodeHardware" where
  "applyPersistedConfigurations gpio s = applyAll gpio [] (hw_configurations s) s"

section \<open>Adding one Load\<close>

definition settled_load :: "MacAddress \<Rightarrow> LoadConfiguration \<Rightarrow> Load" where
  "settled_load mac v =
     (let l = configured_load mac v
      in if isAuto l then snd (setSchedule (conf_schedule v) l) else l)"

lemma configured_load_id [simp]:
  "load_id (configured_load mac v) = \<lparr>id_mac = mac, id_pin = conf_relayPin v\<rparr>"
  by (simp add: configured_load_def)

lemma settled_load_id [simp]:
  "load_id (settled_load mac v) = \<lparr>id_mac = mac, id_pin = conf_relayPin v\<rparr>"
  by (simp add: settled_load_def Let_def)

lemma settled_load_wf: "Load_wf (settled_load mac v)"
  by (simp add: settled_load_def configured_load_def Let_def setSchedule_wf new_Load_wf)

lemma rollback_fields [simp]:
  "hw_configurations (rollbackOne gpio pin s) = hw_configurations s"
  "hw_nvs (rollbackOne gpio pin s) = hw_nvs s"
  "hw_relays (rollbackOne gpio pin s) = erase_first (\<lambda>r. registered_pin r = pin) (hw_relays s)"
  "hw_node (rollbackOne gpio pin s) = snd (removeLoadByRelayPin pin (hw_node s))"
  using removeRelay_relays [of gpio pin "hw_relays s" "hw_gpio s"]
  by (simp_all add: rollbackOne_def dropRelay_def split_beta)

lemma dropRelay_fields [simp]:
  "hw_configurations (dropRelay gpio pin s) = hw_configurations s"
  "hw_nvs (dropRelay gpio pin s) = hw_nvs s"
  "hw_relays (dropRelay gpio pin s) = erase_first (\<lambda>r. registered_pin r = pin) (hw_relays s)"
  "hw_node (dropRelay gpio pin s) = hw_node s"
  using removeRelay_relays [of gpio pin "hw_relays s" "hw_gpio s"]
  by (simp_all add: dropRelay_def split_beta)

definition add_to_node :: "Load \<Rightarrow> Node \<Rightarrow> Node" where
  "add_to_node l node = node\<lparr>node_loads := node_loads node @ [l]\<rparr>"

lemma remove_added:
  assumes "getLoadByRelayPin (getRelayPin l) node = None"
  shows "snd (removeLoadByRelayPin (getRelayPin l) (add_to_node l node)) = node"
  using assms erase_first_append_new [of "\<lambda>x. getRelayPin x = getRelayPin l" "node_loads node" l]
  by (simp add: removeLoadByRelayPin_def add_to_node_def getLoadByRelayPin_def)

lemma update_added:
  assumes "getLoadByRelayPin pin node = None" and "getRelayPin l = pin"
  shows "updateLoad pin f (add_to_node l node) = add_to_node (f l) node"
proof -
  have "update_first (\<lambda>x. getRelayPin x = pin) f (xs @ [l]) = xs @ [f l]"
    if "find (\<lambda>x. getRelayPin x = pin) xs = None" for xs
    using that assms(2) by (induction xs) (auto split: if_splits)
  from this [OF assms(1) [unfolded getLoadByRelayPin_def]] show ?thesis
    by (simp add: updateLoad_def add_to_node_def)
qed

text \<open>
  \<open>applyOne\<close> registers the channel and adds the Load, or leaves channels and Loads as they
  were; it writes neither the configurations nor the storage.
\<close>

definition relay_of :: "LoadConfiguration \<Rightarrow> RegisteredRelay" where
  "relay_of v = \<lparr>configuration = initial_relay v, hardwareApplied = True\<rparr>"

lemma relay_of_pin [simp]: "registered_pin (relay_of v) = conf_relayPin v"
  by (simp add: relay_of_def registered_pin_def initial_relay_def)

lemma scheduleApplied_result:
  assumes node: "hw_node s = add_to_node (configured_load (node_macAddress old) v) old"
    and none: "getLoadByRelayPin (conf_relayPin v) old = None"
    and relays: "hw_relays s = rs @ [relay_of v]" "\<not> isRelayRegistered (conf_relayPin v) rs"
    and r: "scheduleApplied gpio v s = (reason, s')"
  shows "hw_configurations s' = hw_configurations s \<and> hw_nvs s' = hw_nvs s \<and>
    (if reason = NONE
     then hw_relays s' = rs @ [relay_of v] \<and> hw_gpio s' = hw_gpio s \<and>
          hw_node s' = add_to_node (settled_load (node_macAddress old) v) old \<and>
          (isAuto (configured_load (node_macAddress old) v) \<longrightarrow> schedule_valid (conf_schedule v))
     else hw_relays s' = rs \<and> hw_node s' = old)"
proof -
  let ?pin = "conf_relayPin v" and ?l = "configured_load (node_macAddress old) v"
  have pin: "getRelayPin ?l = ?pin" by (simp add: getRelayPin_def)
  have found: "getLoadByRelayPin ?pin (hw_node s) = Some ?l"
    using none pin by (simp add: node getLoadByRelayPin_def add_to_node_def find_append)
  have "find (\<lambda>r. registered_pin r = ?pin) rs = None"
    using relays(2) by (simp add: isRelayRegistered_def findRelay_def)
  then have erased: "erase_first (\<lambda>r. registered_pin r = ?pin) (hw_relays s) = rs"
    unfolding relays(1) by (rule erase_first_append_new) simp
  obtain ok l' where set: "setSchedule (conf_schedule v) ?l = (ok, l')"
    by (cases "setSchedule (conf_schedule v) ?l") auto
  have l': "getRelayPin l' = ?pin"
    using load_id_setters(8) [of "conf_schedule v" ?l] set by (simp add: getRelayPin_def)
  have upd: "updateLoad ?pin (\<lambda>_. l') (hw_node s) = add_to_node l' old"
    unfolding node by (rule update_added [OF none pin])
  have undone: "snd (removeLoadByRelayPin ?pin (add_to_node l' old)) = old"
    using remove_added [of l' old] none l' by simp
  show ?thesis
  proof (cases "isAuto ?l")
    case False
    then show ?thesis using r found relays(1) node
      by (auto simp: scheduleApplied_def settled_load_def)
  next
    case True
    have valid: "ok \<longleftrightarrow> schedule_valid (conf_schedule v)"
      using setSchedule_accepts [of "conf_schedule v" ?l] True set by simp
    from True show ?thesis using r found relays(1) node upd undone erased set valid
      by (cases ok) (auto simp: scheduleApplied_def settled_load_def Let_def)
  qed
qed

lemma applyOne_result:
  assumes a: "applyOne gpio v s = (reason, s')"
  shows "hw_configurations s' = hw_configurations s \<and> hw_nvs s' = hw_nvs s \<and>
    (if reason = NONE
     then \<not> isRelayRegistered (conf_relayPin v) (hw_relays s) \<and>
          getLoadByRelayPin (conf_relayPin v) (hw_node s) = None \<and>
          hw_relays s' = hw_relays s @ [relay_of v] \<and>
          hw_node s' = add_to_node (settled_load (node_macAddress (hw_node s)) v) (hw_node s) \<and>
          fst (addRelay gpio (initial_relay v) (hw_relays s, hw_gpio s)) \<and>
          hw_gpio s' = snd (snd (addRelay gpio (initial_relay v) (hw_relays s, hw_gpio s)))
     else hw_relays s' = hw_relays s \<and> hw_node s' = hw_node s)"
proof (cases "isRelayRegistered (conf_relayPin v) (hw_relays s) \<or>
    getLoadByRelayPin (conf_relayPin v) (hw_node s) \<noteq> None")
  case True
  then show ?thesis using a by (auto simp: applyOne_def)
next
  case False
  let ?pin = "conf_relayPin v" and ?l = "configured_load (node_macAddress (hw_node s)) v"
  obtain added rs g where add: "addRelay gpio (initial_relay v) (hw_relays s, hw_gpio s) = (added, rs, g)"
    by (cases "addRelay gpio (initial_relay v) (hw_relays s, hw_gpio s)") auto
  note rs = addRelay_result(1) [OF add]
  show ?thesis
  proof (cases added)
    case no: False
    then show ?thesis using a False add rs by (auto simp: applyOne_def)
  next
    case True
    then have rs': "rs = hw_relays s @ [relay_of v]" using rs by (simp add: relay_of_def)
    have applied: "isHardwareApplied ?pin rs"
      using False relay_of_pin [of v]
      by (simp add: rs' isHardwareApplied_def findRelay_def find_append isRelayRegistered_def)
        (simp add: relay_of_def)
    have lpin: "getRelayPin ?l = ?pin" "getMacAddress ?l = node_macAddress (hw_node s)"
      by (simp_all add: getRelayPin_def getMacAddress_def)
    have "addLoad ?l (hw_node s) = (True, add_to_node ?l (hw_node s))"
      using False lpin by (simp add: addLoad_def isRelayPinAlreadyUsed_def add_to_node_def)
    with a False add True applied have
      "scheduleApplied gpio v (s\<lparr>hw_relays := rs, hw_gpio := g, hw_node := add_to_node ?l (hw_node s)\<rparr>)
       = (reason, s')"
      by (simp add: applyOne_def Let_def)
    from scheduleApplied_result [OF _ _ _ _ this, of "hw_node s" "hw_relays s"]
    show ?thesis using False True add rs' by (auto split: if_splits)
  qed
qed

section \<open>The invariant\<close>

text \<open>
  The stored configurations, the relay channels and the Node's Loads name the same pins, in
  the same order and each once; every channel has been configured in hardware, with the
  polarity of its configuration.
\<close>

definition relay_view :: "RegisteredRelay \<Rightarrow> u8 \<times> bool \<times> bool" where
  "relay_view r = (registered_pin r, activeHigh (configuration r), hardwareApplied r)"

definition conf_view :: "LoadConfiguration \<Rightarrow> u8 \<times> bool \<times> bool" where
  "conf_view c = (conf_relayPin c, conf_relayActiveHigh c, True)"

definition aligned :: "LoadConfiguration list \<Rightarrow> RelayController \<Rightarrow> Node \<Rightarrow> bool" where
  "aligned cs rs node \<longleftrightarrow>
     node_ok node \<and> list_all Load_wf (node_loads node) \<and>
     map relay_view rs = map conf_view cs \<and>
     map getRelayPin (node_loads node) = map conf_relayPin cs \<and> distinct (map conf_relayPin cs)"

definition hw_ok :: "('g, 'n) NodeHardware \<Rightarrow> bool" where
  "hw_ok s \<longleftrightarrow>
     aligned (hw_configurations s) (hw_relays s) (hw_node s) \<and>
     length (hw_configurations s) \<le> MAX_CONFIGURED_LOADS \<and>
     list_all (\<lambda>c. isValidNewConfiguration [] c = NONE) (hw_configurations s)"

lemma map_erase_first_key: "map f (erase_first (\<lambda>x. P (f x)) xs) = erase_first P (map f xs)"
  by (induction xs) auto

lemma erase_first_views:
  "map relay_view (erase_first (\<lambda>r. registered_pin r = pin) rs) =
     erase_first (\<lambda>v. fst v = pin) (map relay_view rs)"
  "map conf_view (erase_first (\<lambda>c. conf_relayPin c = pin) cs) =
     erase_first (\<lambda>v. fst v = pin) (map conf_view cs)"
  "map conf_relayPin (erase_first (\<lambda>c. conf_relayPin c = pin) cs) =
     erase_first (\<lambda>p. p = pin) (map conf_relayPin cs)"
  "map getRelayPin (erase_first (\<lambda>l. getRelayPin l = pin) ls) =
     erase_first (\<lambda>p. p = pin) (map getRelayPin ls)"
  using map_erase_first_key [of relay_view "\<lambda>v. fst v = pin" rs]
    map_erase_first_key [of conf_view "\<lambda>v. fst v = pin" cs]
    map_erase_first_key [of conf_relayPin "\<lambda>p. p = pin" cs]
    map_erase_first_key [of getRelayPin "\<lambda>p. p = pin" ls]
  by (simp_all add: relay_view_def conf_view_def)

lemma node_loads_remove:
  "node_loads (snd (removeLoadByRelayPin pin node)) = erase_first (\<lambda>l. getRelayPin l = pin) (node_loads node)"
  by (auto simp: removeLoadByRelayPin_def list_ex_iff find_None_iff intro!: erase_first_id [symmetric])

lemma aligned_Nil [inv_intros]: "aligned [] [] (new_Node mac)"
  by (simp add: aligned_def new_Node_ok) (simp add: new_Node_def)

lemma aligned_empty: "aligned [] rs node \<Longrightarrow> rs = [] \<and> node_loads node = []"
  by (simp add: aligned_def)

lemma aligned_append:
  assumes "aligned cs rs node" and none: "getLoadByRelayPin (conf_relayPin v) node = None"
  shows "aligned (cs @ [v]) (rs @ [relay_of v]) (add_to_node (settled_load (node_macAddress node) v) node)"
proof -
  let ?l = "settled_load (node_macAddress node) v"
  have l: "getRelayPin ?l = conf_relayPin v" "getMacAddress ?l = node_macAddress node"
    by (simp_all add: getRelayPin_def getMacAddress_def)
  have pins: "map getRelayPin (node_loads node) = map conf_relayPin cs"
    using assms(1) by (simp add: aligned_def)
  have "conf_relayPin v \<notin> set (map getRelayPin (node_loads node))"
    using none by (simp add: getLoadByRelayPin_def find_None_notin)
  then have "conf_relayPin v \<notin> conf_relayPin ` set cs" unfolding pins by simp
  moreover have "relay_view (relay_of v) = conf_view v"
    by (simp add: relay_view_def conf_view_def) (simp add: relay_of_def initial_relay_def)
  ultimately show ?thesis
    using assms(1) l pins by (simp add: aligned_def node_ok_def add_to_node_def settled_load_wf)
qed

lemma aligned_erase:
  assumes "aligned cs rs node"
  shows "aligned (erase_first (\<lambda>c. conf_relayPin c = pin) cs)
           (erase_first (\<lambda>r. registered_pin r = pin) rs) (snd (removeLoadByRelayPin pin node))"
  using assms distinct_map_erase_first [of conf_relayPin cs "\<lambda>c. conf_relayPin c = pin"]
  unfolding aligned_def erase_first_views node_loads_remove
  by (simp add: removeLoad_ok list_all_erase_first)

lemma aligned_erase_all:
  "aligned cs (hw_relays s) (hw_node s) \<Longrightarrow>
   s' = fold (\<lambda>v. rollbackOne gpio (conf_relayPin v)) cs s \<Longrightarrow>
   hw_relays s' = [] \<and> node_loads (hw_node s') = [] \<and> aligned [] [] (hw_node s')"
proof (induction cs arbitrary: s)
  case Nil
  then show ?case using aligned_empty [of "hw_relays s" "hw_node s"] by auto
next
  case (Cons c cs)
  show ?case
  proof (rule Cons.IH)
    show "aligned cs (hw_relays (rollbackOne gpio (conf_relayPin c) s))
        (hw_node (rollbackOne gpio (conf_relayPin c) s))"
      using aligned_erase [OF Cons.prems(1), of "conf_relayPin c"] by simp
  qed (simp add: Cons.prems(2))
qed

lemma rollback_all_fields [simp]:
  "hw_configurations (fold (\<lambda>v. rollbackOne gpio (conf_relayPin v)) cs s) = hw_configurations s"
  by (induction cs arbitrary: s) auto

lemma hw_setRelayState_fields:
  "hw_setRelayState gpio pin on s = (ok, s') \<Longrightarrow>
   hw_configurations s' = hw_configurations s \<and> hw_relays s' = hw_relays s \<and>
   hw_node s' = hw_node s \<and> hw_nvs s' = hw_nvs s"
  using setRelayState_relays [of gpio pin on "hw_relays s" "hw_gpio s"]
  by (auto simp: hw_setRelayState_def split: prod.splits)

lemma switchAllOff_fields:
  "switchAllOff gpio vs s = (ok, s') \<Longrightarrow>
   hw_configurations s' = hw_configurations s \<and> hw_relays s' = hw_relays s \<and>
   hw_node s' = hw_node s \<and> hw_nvs s' = hw_nvs s"
  by (induction gpio vs s rule: switchAllOff.induct)
     (auto split: prod.splits if_splits dest!: hw_setRelayState_fields)

lemma valid_in_context:
  "isValidNewConfiguration cs v = NONE \<longleftrightarrow>
     isValidNewConfiguration [] v = NONE \<and> length cs < MAX_CONFIGURED_LOADS \<and> findByRelayPin (conf_relayPin v) cs = None"
  by (auto simp: isValidNewConfiguration_def Let_def findByRelayPin_def MAX_CONFIGURED_LOADS_def)

lemma hw_ok_fields:
  "hw_ok s \<Longrightarrow> hw_configurations s' = hw_configurations s \<Longrightarrow> hw_relays s' = hw_relays s \<Longrightarrow>
   hw_node s' = hw_node s \<Longrightarrow> hw_ok s'"
  by (simp add: hw_ok_def)

text \<open>\<open>configureNewLoad\<close> changes all three, or none of them.\<close>

lemma configureNewLoad_result:
  assumes c: "configureNewLoad gpio nvs v s = (reason, s')"
  shows "if reason = NONE
         then isValidNewConfiguration (hw_configurations s) v = NONE \<and>
              getLoadByRelayPin (conf_relayPin v) (hw_node s) = None \<and>
              hw_configurations s' = hw_configurations s @ [v] \<and>
              hw_relays s' = hw_relays s @ [relay_of v] \<and>
              hw_node s' = add_to_node (settled_load (node_macAddress (hw_node s)) v) (hw_node s) \<and>
              fst (addRelay gpio (initial_relay v) (hw_relays s, hw_gpio s)) \<and>
              hw_gpio s' = snd (snd (addRelay gpio (initial_relay v) (hw_relays s, hw_gpio s))) \<and>
              hardware_persist nvs (hw_configurations s') (hw_nvs s) = (True, hw_nvs s')
         else hw_configurations s' = hw_configurations s \<and> hw_relays s' = hw_relays s \<and>
              hw_node s' = hw_node s"
proof (cases "isValidNewConfiguration (hw_configurations s) v = NONE")
  case False
  then show ?thesis using c by (auto simp: configureNewLoad_def)
next
  case valid: True
  obtain r1 s1 where a: "applyOne gpio v s = (r1, s1)" by (cases "applyOne gpio v s") auto
  note res = applyOne_result [OF a]
  show ?thesis
  proof (cases "r1 = NONE")
    case False
    then show ?thesis using c valid a res by (auto simp: configureNewLoad_def)
  next
    case True
    obtain ok n where p: "hardware_persist nvs (hw_configurations s1 @ [v]) (hw_nvs s1) = (ok, n)"
      by (cases "hardware_persist nvs (hw_configurations s1 @ [v]) (hw_nvs s1)") auto
    let ?l = "settled_load (node_macAddress (hw_node s)) v"
    have lpin: "getRelayPin ?l = conf_relayPin v" by (simp add: getRelayPin_def)
    have none: "getLoadByRelayPin (conf_relayPin v) (hw_node s) = None"
      and "find (\<lambda>r. registered_pin r = conf_relayPin v) (hw_relays s) = None"
      using res True by (simp_all add: isRelayRegistered_def findRelay_def)
    then have "erase_first (\<lambda>r. registered_pin r = conf_relayPin v) (hw_relays s @ [relay_of v]) = hw_relays s"
      "snd (removeLoadByRelayPin (conf_relayPin v) (add_to_node ?l (hw_node s))) = hw_node s"
      using remove_added [of ?l "hw_node s"] by (simp_all add: erase_first_append_new lpin)
    with c valid a res True p none show ?thesis
      by (cases ok) (auto simp: configureNewLoad_def Let_def)
  qed
qed

lemma configureNewLoad_ok [inv_intros]:
  assumes "hw_ok s"
  shows "hw_ok (snd (configureNewLoad gpio nvs v s))"
proof -
  obtain reason s' where c: "configureNewLoad gpio nvs v s = (reason, s')"
    by (cases "configureNewLoad gpio nvs v s") auto
  note res = configureNewLoad_result [OF c]
  show ?thesis
  proof (cases "reason = NONE")
    case True
    then have "aligned (hw_configurations s') (hw_relays s') (hw_node s')"
      using res aligned_append [of "hw_configurations s" "hw_relays s" "hw_node s" v] assms
      by (simp add: hw_ok_def)
    moreover have "isValidNewConfiguration (hw_configurations s) v = NONE"
      using res True by simp
    then have "isValidNewConfiguration [] v = NONE" "length (hw_configurations s) < MAX_CONFIGURED_LOADS"
      using valid_in_context [of "hw_configurations s" v] by blast+
    ultimately show ?thesis using res True assms c by (simp add: hw_ok_def)
  next
    case False
    then show ?thesis using res c hw_ok_fields [OF assms, of s'] by simp
  qed
qed

lemma hw_removeLoad_result:
  assumes r: "hw_removeLoad gpio nvs pin s = (reason, s')"
  shows "if reason = NONE
         then findByRelayPin pin (hw_configurations s) \<noteq> None \<and>
              hw_configurations s' = erase_first (\<lambda>c. conf_relayPin c = pin) (hw_configurations s) \<and>
              hw_relays s' = erase_first (\<lambda>r. registered_pin r = pin) (hw_relays s) \<and>
              hw_node s' = snd (removeLoadByRelayPin pin (hw_node s)) \<and>
              hardware_persist nvs (hw_configurations s') (hw_nvs s) = (True, hw_nvs s')
         else hw_configurations s' = hw_configurations s \<and> hw_relays s' = hw_relays s \<and>
              hw_node s' = hw_node s"
proof (cases "findByRelayPin pin (hw_configurations s) = None")
  case True
  then show ?thesis using r by (auto simp: hw_removeLoad_def)
next
  case False
  obtain off s1 where o: "hw_setRelayState gpio pin False s = (off, s1)"
    by (cases "hw_setRelayState gpio pin False s") auto
  then show ?thesis using r False hw_setRelayState_fields [OF o]
    by (auto simp: hw_removeLoad_def Let_def split: if_splits prod.splits)
qed

lemma hw_removeLoad_ok [inv_intros]:
  assumes "hw_ok s"
  shows "hw_ok (snd (hw_removeLoad gpio nvs pin s))"
proof -
  obtain reason s' where c: "hw_removeLoad gpio nvs pin s = (reason, s')"
    by (cases "hw_removeLoad gpio nvs pin s") auto
  note res = hw_removeLoad_result [OF c]
  have len: "length (erase_first P xs) \<le> length xs" for P and xs :: "LoadConfiguration list"
    by (induction xs) auto
  show ?thesis
  proof (cases "reason = NONE")
    case True
    then show ?thesis
      using res c assms aligned_erase [of "hw_configurations s" "hw_relays s" "hw_node s" pin]
        len [of "\<lambda>c. conf_relayPin c = pin" "hw_configurations s"]
      by (auto simp: hw_ok_def list_all_erase_first)
  next
    case False
    then show ?thesis using res c hw_ok_fields [OF assms, of s'] by simp
  qed
qed

lemma clearAllConfigurations_ok [inv_intros]:
  assumes "hw_ok s"
  shows "hw_ok (snd (clearAllConfigurations gpio nvs s))"
proof -
  obtain off s1 where o: "switchAllOff gpio (hw_configurations s) s = (off, s1)"
    by (cases "switchAllOff gpio (hw_configurations s) s") auto
  note f = switchAllOff_fields [OF o]
  obtain ok n where p: "hardware_persist nvs [] (hw_nvs s1) = (ok, n)"
    by (cases "hardware_persist nvs [] (hw_nvs s1)") auto
  let ?s2 = "s1\<lparr>hw_configurations := [], hw_nvs := n\<rparr>"
  have "aligned (hw_configurations s) (hw_relays ?s2) (hw_node ?s2)"
    using f assms by (simp add: hw_ok_def)
  from aligned_erase_all [OF this refl, of gpio]
  have "hw_ok (fold (\<lambda>v. rollbackOne gpio (conf_relayPin v)) (hw_configurations s) ?s2)"
    by (simp add: hw_ok_def)
  moreover have "hw_ok s1" "hw_ok (s1\<lparr>hw_nvs := n\<rparr>)" using f by (auto intro: hw_ok_fields [OF assms])
  ultimately show ?thesis using o p f by (simp add: clearAllConfigurations_def)
qed

datatype hw_op =
  ConfigureNewLoad LoadConfiguration | RemoveLoad u8 | ClearAllConfigurations | SetRelayState u8 bool

fun hw_step :: "'g GpioApi \<Rightarrow> 'n NvsApi \<Rightarrow> hw_op \<Rightarrow> ('g, 'n) NodeHardware \<Rightarrow> ('g, 'n) NodeHardware" where
  "hw_step gpio nvs (ConfigureNewLoad v) s = snd (configureNewLoad gpio nvs v s)"
| "hw_step gpio nvs (RemoveLoad pin) s = snd (hw_removeLoad gpio nvs pin s)"
| "hw_step gpio nvs ClearAllConfigurations s = snd (clearAllConfigurations gpio nvs s)"
| "hw_step gpio nvs (SetRelayState pin on) s = snd (hw_setRelayState gpio pin on s)"

lemma hw_step_ok: "hw_ok s \<Longrightarrow> hw_ok (hw_step gpio nvs op s)"
proof (cases op)
  case (SetRelayState pin on)
  assume "hw_ok s"
  moreover obtain ok s' where "hw_setRelayState gpio pin on s = (ok, s')"
    by (cases "hw_setRelayState gpio pin on s") auto
  ultimately show ?thesis
    using SetRelayState hw_setRelayState_fields [of gpio pin on s ok s'] hw_ok_fields [of s s'] by simp
qed (simp_all add: inv_intros)

text \<open>
  C24: Whatever is configured, removed, cleared or switched on a new Node, with any GPIO driver and any
  storage, failing at any point: the stored configurations, the relay channels and the Node's
  Loads stay aligned (same pins, same order, each pin once, at most 16, every configuration
  valid, every Load well-formed).
\<close>

theorem hardware_always_consistent:
  "hw_ok (fold (hw_step gpio nvs) ops (new_NodeHardware mac g n))"
proof -
  have "hw_ok (new_NodeHardware mac g n)"
    by (simp add: hw_ok_def new_NodeHardware_def aligned_Nil)
  then show ?thesis by (induction ops rule: rev_induct) (simp_all add: hw_step_ok)
qed

section \<open>Success and failure of a configuration\<close>

text \<open>
  C35: Adding a Load is a transaction. When \<open>configureNewLoad\<close> reports a failure, for whatever
  reason (validation, GPIO, storage), the configurations, the relay channels and the Node's
  Loads are those from before. When it reports success, the configuration was valid and is
  stored, the Node has the Load with the configured rating, priority, power type and mode,
  and the pin is driven to the level its polarity gives to that mode.
\<close>

theorem configure_is_transaction:
  assumes laws: "gpio_laws gpio" and c: "configureNewLoad gpio nvs v s = (reason, s')"
  shows "if reason = NONE
         then isValidNewConfiguration (hw_configurations s) v = NONE \<and>
              hw_configurations s' = hw_configurations s @ [v] \<and>
              isRelayRegistered (conf_relayPin v) (hw_relays s') \<and>
              (\<exists>l. getLoadByRelayPin (conf_relayPin v) (hw_node s') = Some l \<and>
                   load_mode l = conf_mode v \<and> load_priority l = conf_priority v \<and>
                   load_power l = conf_powerRatingWatts v \<and>
                   gpio_level gpio (hw_gpio s') (conf_relayPin v) = (isOn l = conf_relayActiveHigh v))
         else hw_configurations s' = hw_configurations s \<and> hw_relays s' = hw_relays s \<and>
              hw_node s' = hw_node s"
proof (cases "reason = NONE")
  case False
  then show ?thesis using configureNewLoad_result [OF c] by simp
next
  case True
  let ?l = "settled_load (node_macAddress (hw_node s)) v" and ?pin = "conf_relayPin v"
  have res: "isValidNewConfiguration (hw_configurations s) v = NONE"
    "getLoadByRelayPin ?pin (hw_node s) = None"
    "hw_configurations s' = hw_configurations s @ [v]" "hw_relays s' = hw_relays s @ [relay_of v]"
    "hw_node s' = add_to_node ?l (hw_node s)"
    "fst (addRelay gpio (initial_relay v) (hw_relays s, hw_gpio s))"
    "hw_gpio s' = snd (snd (addRelay gpio (initial_relay v) (hw_relays s, hw_gpio s)))"
    using configureNewLoad_result [OF c] True by simp_all
  have "addRelay gpio (initial_relay v) (hw_relays s, hw_gpio s) =
      (True, fst (snd (addRelay gpio (initial_relay v) (hw_relays s, hw_gpio s))), hw_gpio s')"
    using res(6,7) by (simp add: prod_eq_iff)
  from addRelay_level(1) [OF laws this]
  have level: "gpio_level gpio (hw_gpio s') ?pin =
      ((conf_mode v = FIXED_ON \<or> conf_mode v = AUTO_ON) = conf_relayActiveHigh v)"
    by (simp add: initial_relay_def)
  have "getLoadByRelayPin ?pin (hw_node s') = Some ?l"
    using res(2) unfolding res(5)
    by (simp add: getLoadByRelayPin_def add_to_node_def find_append getRelayPin_def)
  moreover have "load_mode ?l = conf_mode v" "load_priority ?l = conf_priority v"
    by (simp_all add: settled_load_def Let_def configured_load_def new_Load_def setPowerRatingWatts_def)
  moreover have "load_power ?l = conf_powerRatingWatts v"
  proof -
    have "fisfinite (conf_powerRatingWatts v)" "\<not> flt (conf_powerRatingWatts v) fzero"
      using res(1) by (auto simp: isValidNewConfiguration_def Let_def split: if_splits)
    then show ?thesis
      by (simp add: settled_load_def Let_def configured_load_def new_Load_def setPowerRatingWatts_def)
  qed
  moreover have "isRelayRegistered ?pin (hw_relays s')"
    using relay_of_pin [of v] by (auto simp: res(4) isRelayRegistered_def findRelay_def find_None_iff)
  ultimately show ?thesis using True res(1,3) level by (simp add: isOn_def)
qed

definition example_conf :: LoadConfiguration where
  "example_conf =
     \<lparr>conf_name = ''Pump'', conf_relayPin = 16, conf_relayActiveHigh = False,
      conf_powerRatingWatts = watts 60, conf_powerType = DC, conf_mode = FIXED_ON,
      conf_priority = 3, conf_schedule = no_schedule\<rparr>"

lemma example_conf_valid: "isValidNewConfiguration [] example_conf = NONE"
  by (simp add: boundedLength_c_text c_text_def isValidNewConfiguration_def example_conf_def NAME_SIZE_def named_mode_def
      named_power_type_def conf_scheduleValid_def not_flt_watts findByRelayPin_def
      MAX_CONFIGURED_LOADS_def f32_eval)

lemma example_configured:
  "\<exists>s'. configureNewLoad (ram_gpio {}) ram_nvs example_conf
     (new_NodeHardware (1, 2, 3, 4, 5, 6) (\<lambda>p. True, \<lambda>p. False) (\<lambda>k. None)) = (NONE, s')"
  using example_conf_valid
  by (simp add: configureNewLoad_def new_NodeHardware_def applyOne_def isRelayRegistered_def findRelay_def
      getLoadByRelayPin_def new_Node_def addRelay_def configureGpio_def ram_gpio_def writeGpioLevel_def
      isHardwareApplied_def registered_pin_def initial_relay_def addLoad_def configured_load_def
      getMacAddress_def getRelayPin_def isRelayPinAlreadyUsed_def scheduleApplied_def isAuto_def
      hardware_persist_def ram_nvs_def Let_def new_Load_def setPowerRatingWatts_def)
    (simp add: example_conf_def)

theorem configure_is_transaction_witness:
  "\<exists>s'. configureNewLoad (ram_gpio {}) ram_nvs example_conf
     (new_NodeHardware (1, 2, 3, 4, 5, 6) (\<lambda>p. True, \<lambda>p. False) (\<lambda>k. None)) = (NONE, s') \<and>
     hw_configurations s' = [example_conf] \<and> \<not> gpio_level (ram_gpio {}) (hw_gpio s') 16"
proof -
  let ?s = "new_NodeHardware (1, 2, 3, 4, 5, 6) (\<lambda>p. True, \<lambda>p. False) (\<lambda>k. None)"
  obtain s' where c: "configureNewLoad (ram_gpio {}) ram_nvs example_conf ?s = (NONE, s')"
    using example_configured by blast
  note res = configure_is_transaction [OF ram_gpio_laws c]
  have "hw_configurations s' = [example_conf]"
    using res by (simp add: new_NodeHardware_def)
  moreover have "\<not> gpio_level (ram_gpio {}) (hw_gpio s') 16"
    using res by (auto simp: isOn_def example_conf_def)
  ultimately show ?thesis using c by blast
qed

section \<open>Restoring the Loads at boot\<close>

text \<open>
  What a configuration is made of when it came from a command or from the storage: a rating
  that is a \<open>float\<close>, a name without a NUL, and no times in a disabled window.
\<close>

definition conf_normal :: "LoadConfiguration \<Rightarrow> bool" where
  "conf_normal v \<longleftrightarrow>
     f32_ok (conf_powerRatingWatts v) \<and> c_text (conf_name v) = conf_name v \<and>
     (\<not> enabled (conf_schedule v) \<longrightarrow> conf_schedule v = no_schedule)"

lemma length_toPersisted [simp]: "length (toPersisted v) = LOAD_RECORD_SIZE"
  by (simp add: toPersisted_def LOAD_RECORD_SIZE_def NAME_SIZE_def)

lemma load_record_slices:
  assumes "length name = 15" "length f = 4" "length w = 2"
    and "bs = name @ [0] @ [a, b] @ f @ [c, d] @ w @ [e, sh, sm, eh, em]"
  shows "take 15 bs = name" "bs ! 16 = a" "bs ! 17 = b" "take 4 (drop 18 bs) = f" "bs ! 22 = c"
    "bs ! 23 = d" "take 2 (drop 24 bs) = w" "bs ! 26 = e" "bs ! 27 = sh" "bs ! 28 = sm"
    "bs ! 29 = eh" "bs ! 30 = em"
  using assms(1-3) by (simp_all add: assms(4) nth_append)

lemma bool_byte_nonzero [simp]: "bool_byte b \<noteq> 0 \<longleftrightarrow> b"
  by (simp add: bool_byte_def)

lemma configuration_record_roundtrip:
  assumes valid: "isValidNewConfiguration [] v = NONE" and normal: "conf_normal v"
  shows "fromPersisted (toPersisted v) = v"
proof -
  have len: "length (char_array 15 (conf_name v)) = 15"
    "length (f32_bytes (conf_powerRatingWatts v)) = 4" "length (u16_bytes (conf_priority v)) = 2"
    by simp_all
  have "toPersisted v = char_array 15 (conf_name v) @ [0] @
      [conf_relayPin v, bool_byte (conf_relayActiveHigh v)] @ f32_bytes (conf_powerRatingWatts v) @
      [power_type_byte (conf_powerType v), mode_byte (conf_mode v)] @ u16_bytes (conf_priority v) @
      [bool_byte (enabled (conf_schedule v)), startHour (conf_schedule v),
       startMinute (conf_schedule v), endHour (conf_schedule v), endMinute (conf_schedule v)]"
    by (simp add: toPersisted_def NAME_SIZE_def)
  note slices = load_record_slices [OF len this]
  have kinds: "named_mode (conf_mode v)" "named_power_type (conf_powerType v)"
    and "\<not> NAME_SIZE \<le> boundedLength (conf_name v) NAME_SIZE"
    using valid by (auto simp: isValidNewConfiguration_def Let_def split: if_splits)
  then have "length (conf_name v) \<le> 15"
    using normal by (auto simp: boundedLength_c_text conf_normal_def NAME_SIZE_def min_def split: if_splits)
  then have name: "c_text (string_of_bytes (char_array 15 (conf_name v))) = conf_name v"
    using normal by (simp add: c_text_char_array conf_normal_def)
  have sched: "AutoSchedule5 (enabled (conf_schedule v)) (startHour (conf_schedule v))
      (startMinute (conf_schedule v)) (endHour (conf_schedule v)) (endMinute (conf_schedule v)) =
      conf_schedule v"
    using normal by (intro AutoSchedule5_self) (auto simp: conf_normal_def)
  have "f32_ok (conf_powerRatingWatts v)" using normal by (simp add: conf_normal_def)
  then show ?thesis
    unfolding fromPersisted_def slices NAME_SIZE_def
    using slices(1) name kinds sched by simp
qed

lemma restore_records_all:
  "(\<And>v. v \<in> set cs \<Longrightarrow> isValidNewConfiguration [] v = NONE \<and> conf_normal v) \<Longrightarrow>
   restore_records (map toPersisted cs) = Some cs"
  by (induction cs) (simp_all add: configuration_record_roundtrip)

lemma loads_stored:
  assumes laws: "nvs_laws api" and ok: "hardware_persist api cs n = (True, n')"
  shows "nvs_open_readonly api n' \<and> nvs_get_u8 api n' ''schema'' = Some HARDWARE_SCHEMA_VERSION \<and>
    (if cs = [] then nvs_not_found api n' ''loads''
     else \<not> nvs_not_found api n' ''loads'' \<and>
          nvs_get_blob api n' ''loads'' = Some (concat (map toPersisted cs)))"
proof -
  obtain n1 n2 where w1: "nvs_set_u8 api ''schema'' HARDWARE_SCHEMA_VERSION n = (True, n1)"
    and w2: "(if cs = [] then erase_loads api
              else nvs_set_blob api ''loads'' (concat (map toPersisted cs))) n1 = (True, n2)"
    and w3: "nvs_commit api n2 = (True, n')"
    using ok by (auto simp: hardware_persist_def nvs_then_True split: if_splits)
  note d1 = nvs_set_u8D [OF laws w1] and d3 = nvs_commitD [OF laws w3]
  have keys: "''schema'' \<noteq> ''loads''" by simp
  show ?thesis
  proof (cases "cs = []")
    case True
    show ?thesis
    proof (cases "nvs_not_found api n1 ''loads''")
      case gone: True
      then have "n2 = n1" using w2 True nvs_not_foundD [OF laws gone] by (simp add: erase_loads_def)
      then show ?thesis using d1 d3 gone True by simp
    next
      case False
      then have "nvs_erase_key api ''loads'' n1 = (True, n2)" using w2 True by (simp add: erase_loads_def)
      from nvs_erase_keyD [OF laws this] show ?thesis
        using d1 d3 True nvs_same_butD [of api "''loads''" n1 n2 "''schema''"] by simp
    qed
  next
    case False
    then have "nvs_set_blob api ''loads'' (concat (map toPersisted cs)) n1 = (True, n2)"
      using w2 by simp
    note d2 = nvs_set_blobD [OF laws this]
    moreover have "\<not> nvs_not_found api n2 ''loads''"
      using d2 nvs_not_foundD [OF laws, of n2 "''loads''"] by auto
    ultimately show ?thesis
      using d1 d3 False nvs_same_butD [of api "''loads''" n1 n2 "''schema''"] by simp
  qed
qed

text \<open>
  C38: What the hardware store persists is what it restores: when every write succeeded, loading
  gives back the same configurations in the same order, the empty list included, whatever the
  loading store held before. The pins need not be distinct: every record is validated by an
  empty store of its own, so nothing detects a pin that occurs twice.
\<close>

theorem hardware_roundtrip:
  assumes laws: "nvs_laws api" and len: "length cs \<le> MAX_CONFIGURED_LOADS"
    and valid: "\<And>v. v \<in> set cs \<Longrightarrow> isValidNewConfiguration [] v = NONE \<and> conf_normal v"
    and persist: "hardware_persist api cs n = (True, n')"
  shows "hardware_loadPersisted api n' other = (True, cs)"
proof (cases "cs = []")
  case True
  then show ?thesis using loads_stored [OF laws persist] by (simp add: hardware_loadPersisted_def)
next
  case False
  have sizes: "length b = LOAD_RECORD_SIZE" if "b \<in> set (map toPersisted cs)" for b
    using that by auto
  have pos: "0 < LOAD_RECORD_SIZE" by (simp add: LOAD_RECORD_SIZE_def)
  have "length (concat (map toPersisted cs)) = length (map toPersisted cs) * LOAD_RECORD_SIZE"
    by (rule length_concat_records) (rule sizes)
  then have size: "length (concat (map toPersisted cs)) = length cs * LOAD_RECORD_SIZE" by simp
  have "record_bytes LOAD_RECORD_SIZE (concat (map toPersisted cs)) = map toPersisted cs"
    by (rule record_bytes_concat [OF pos sizes])
  then show ?thesis
    using loads_stored [OF laws persist] False size pos len restore_records_all [OF valid]
    by (simp add: hardware_loadPersisted_def)
qed

lemma example_conf_normal: "conf_normal example_conf"
  by (simp add: conf_normal_def example_conf_def c_text_def f32_ok_watts)

theorem hardware_roundtrip_witness:
  "hardware_loadPersisted ram_nvs
     (snd (hardware_persist ram_nvs [example_conf, example_conf] (\<lambda>k. None))) []
   = (True, [example_conf, example_conf])"
  by (rule hardware_roundtrip [OF ram_nvs_laws])
     (use example_conf_valid example_conf_normal in
       \<open>auto simp: MAX_CONFIGURED_LOADS_def hardware_persist_def ram_nvs_def\<close>)

lemma applyAll_result:
  "aligned us (hw_relays s) (hw_node s) \<Longrightarrow> applyAll gpio (map conf_relayPin us) vs s = (reason, s') \<Longrightarrow>
   hw_configurations s' = hw_configurations s \<and>
   (if reason = NONE then aligned (us @ vs) (hw_relays s') (hw_node s')
    else hw_relays s' = [] \<and> node_loads (hw_node s') = [])"
proof (induction vs arbitrary: us s)
  case Nil
  then show ?case by simp
next
  case (Cons v vs)
  obtain r1 s1 where a: "applyOne gpio v s = (r1, s1)" by (cases "applyOne gpio v s") auto
  note res = applyOne_result [OF a]
  have pins: "fold (rollbackOne gpio) (map conf_relayPin us) s1 =
      fold (\<lambda>v. rollbackOne gpio (conf_relayPin v)) us s1"
    by (simp add: fold_map o_def)
  show ?case
  proof (cases "r1 = NONE")
    case False
    then have "aligned us (hw_relays s1) (hw_node s1)" using res Cons.prems(1) by simp
    from aligned_erase_all [OF this refl, of gpio] show ?thesis
      using Cons.prems(2) a False res by (auto simp: pins)
  next
    case True
    then have "aligned (us @ [v]) (hw_relays s1) (hw_node s1)"
      using res aligned_append [OF Cons.prems(1), of v] by simp
    moreover have "applyAll gpio (map conf_relayPin (us @ [v])) vs s1 = (reason, s')"
      using Cons.prems(2) a True by simp
    ultimately show ?thesis using Cons.IH [of "us @ [v]" s1] res True by (simp split: if_splits)
  qed
qed

text \<open>
  Applying the restored configurations at boot is all or nothing: on a Node without Loads,
  success leaves every configuration with its relay channel and its Load, in order, and
  failure leaves no Load and no channel at all. With a pin that occurs twice it always fails,
  so one duplicated record in the storage takes every Load of the Node out of service.
\<close>

theorem boot_is_all_or_nothing:
  assumes boot: "applyPersistedConfigurations gpio
      ((new_NodeHardware mac g n)\<lparr>hw_configurations := cs\<rparr>) = (reason, s')"
  shows "(if reason = NONE then aligned cs (hw_relays s') (hw_node s')
          else hw_relays s' = [] \<and> node_loads (hw_node s') = []) \<and>
         (\<not> distinct (map conf_relayPin cs) \<longrightarrow> reason \<noteq> NONE)"
proof -
  let ?s = "(new_NodeHardware mac g n)\<lparr>hw_configurations := cs\<rparr>"
  have "aligned [] (hw_relays ?s) (hw_node ?s)" by (simp add: new_NodeHardware_def aligned_Nil)
  moreover have "applyAll gpio (map conf_relayPin []) cs ?s = (reason, s')"
    using boot by (simp add: applyPersistedConfigurations_def)
  ultimately have "if reason = NONE then aligned cs (hw_relays s') (hw_node s')
      else hw_relays s' = [] \<and> node_loads (hw_node s') = []"
    using applyAll_result [of "[]" ?s gpio cs reason s'] by (simp split: if_splits)
  then show ?thesis by (auto simp: aligned_def split: if_splits)
qed

theorem boot_is_all_or_nothing_witness:
  "\<exists>reason s'. applyPersistedConfigurations (ram_gpio {})
      ((new_NodeHardware (1, 2, 3, 4, 5, 6) (\<lambda>p. True, \<lambda>p. False) ())
         \<lparr>hw_configurations := [example_conf, example_conf]\<rparr>) = (reason, s') \<and>
    reason \<noteq> NONE \<and> node_loads (hw_node s') = []"
proof -
  let ?r = "applyPersistedConfigurations (ram_gpio {})
      ((new_NodeHardware (1, 2, 3, 4, 5, 6) (\<lambda>p. True, \<lambda>p. False) ())
         \<lparr>hw_configurations := [example_conf, example_conf]\<rparr>)"
  obtain reason s' where r: "?r = (reason, s')" by (cases ?r) auto
  have "\<not> distinct (map conf_relayPin [example_conf, example_conf])" by simp
  with boot_is_all_or_nothing [OF r] have "reason \<noteq> NONE \<and> node_loads (hw_node s') = []"
    by (auto split: if_splits)
  with r show ?thesis by blast
qed

end
