(* ===== verification/Power_Manager.thy ===== *)
theory Power_Manager
  imports Persistence
begin

unbundle bit_operations_syntax

text \<open>
  \<open>PowerManager\<close> (\<open>lib/BatteryManager/PowerManager.cpp\<close>), as built for the ESP32: reading and
  filtering the battery measurements, the state of charge, and the power budget the planner
  works with. All values are binary32. The I2C bus is not part of the repository: its calls
  are a record over a bus state \<open>'i\<close>, each returning whether its result was \<open>ESP_OK\<close>.
\<close>

section \<open>Data\<close>

record PowerMeasurements =
  voltageVolts :: f32
  currentAmps :: f32
  powerWatts :: f32

datatype MeasurementSource = SOURCE_NONE | SOURCE_HARDWARE | SOURCE_SIMULATED

datatype StateOfChargeSource =
  SOC_UNKNOWN | SOC_INITIAL | SOC_PERSISTED | SOC_COULOMB_COUNTING | SOC_VOLTAGE_ESTIMATE | SOC_SIMULATED

record PowerBudget =
  batteryVoltageVolts :: f32
  batteryCurrentAmps :: f32
  P_measured :: f32
  P_budget :: f32
  P_reserve :: f32
  P_fixed :: f32
  P_auto_available :: f32
  P_auto :: f32
  P_remaining :: f32
  runtimeBudgetActive :: bool
  requiredRuntimeAchievable :: bool

record BusConfiguration =
  sdaPin :: u8
  sclPin :: u8
  busPort :: u8
  clockSpeedHz :: u32

record SensorConfiguration =
  shuntResistanceOhms :: f32
  maximumExpectedCurrentAmps :: f32
  emaAlpha :: f32

record BatteryConfiguration =
  nameplateVoltageVolts :: f32
  capacityAmpHours :: f32
  minimumStateOfChargePercent :: f32

record Calibration =
  voltageOffsetVolts :: f32
  currentOffsetAmps :: f32
  currentScaleFactor :: f32

text \<open>The handles are modelled by whether they are non-null.\<close>

record PowerManager =
  busConfiguration :: BusConfiguration
  sensorConfiguration :: SensorConfiguration
  batteryConfiguration :: BatteryConfiguration
  calibration :: Calibration
  measurements :: PowerMeasurements
  filteredMeasurements :: PowerMeasurements
  simulatedMeasurements :: PowerMeasurements
  hasFilteredMeasurement :: bool
  measurementSource :: MeasurementSource
  stateOfChargePercent :: f32
  stateOfChargeSource :: StateOfChargeSource
  stateOfChargeInitialized :: bool
  powerBudget :: PowerBudget
  remainingRequiredRuntimeHours :: f32
  pm_initialized :: bool
  simulationEnabled :: bool
  busHandle :: bool
  deviceHandle :: bool

abbreviation fone :: f32 where "fone \<equiv> fnat 1"
abbreviation fhundred :: f32 where "fhundred \<equiv> fnat 100"

definition zero_measurements :: PowerMeasurements where
  "zero_measurements = \<lparr>voltageVolts = fzero, currentAmps = fzero, powerWatts = fzero\<rparr>"

definition zero_budget :: PowerBudget where
  "zero_budget =
     \<lparr>batteryVoltageVolts = fzero, batteryCurrentAmps = fzero, P_measured = fzero,
      P_budget = fzero, P_reserve = fzero, P_fixed = fzero, P_auto_available = fzero,
      P_auto = fzero, P_remaining = fzero, runtimeBudgetActive = False,
      requiredRuntimeAchievable = True\<rparr>"

definition new_PowerManager :: PowerManager where
  "new_PowerManager =
     \<lparr>busConfiguration = \<lparr>sdaPin = 0, sclPin = 0, busPort = 0, clockSpeedHz = 0\<rparr>,
      sensorConfiguration = \<lparr>shuntResistanceOhms = fzero, maximumExpectedCurrentAmps = fzero, emaAlpha = fone\<rparr>,
      batteryConfiguration = \<lparr>nameplateVoltageVolts = fzero, capacityAmpHours = fzero,
                             minimumStateOfChargePercent = fzero\<rparr>,
      calibration = \<lparr>voltageOffsetVolts = fzero, currentOffsetAmps = fzero, currentScaleFactor = fone\<rparr>,
      measurements = zero_measurements, filteredMeasurements = zero_measurements,
      simulatedMeasurements = zero_measurements, hasFilteredMeasurement = False,
      measurementSource = SOURCE_NONE, stateOfChargePercent = fzero,
      stateOfChargeSource = SOC_UNKNOWN, stateOfChargeInitialized = False,
      powerBudget = zero_budget, remainingRequiredRuntimeHours = fzero,
      pm_initialized = False, simulationEnabled = False, busHandle = False, deviceHandle = False\<rparr>"

section \<open>Validation\<close>

definition isFinitePositive :: "f32 \<Rightarrow> bool" where
  "isFinitePositive v \<longleftrightarrow> fisfinite v \<and> flt fzero v"

definition isFiniteNonNegative :: "f32 \<Rightarrow> bool" where
  "isFiniteNonNegative v \<longleftrightarrow> fisfinite v \<and> fle fzero v"

definition isValidPercent :: "f32 \<Rightarrow> bool" where
  "isValidPercent v \<longleftrightarrow> fisfinite v \<and> fle fzero v \<and> fle v fhundred"

definition isValidCalibration :: "Calibration \<Rightarrow> bool" where
  "isValidCalibration c \<longleftrightarrow>
     fisfinite (voltageOffsetVolts c) \<and> fisfinite (currentOffsetAmps c) \<and>
     fisfinite (currentScaleFactor c) \<and> \<not> feq (currentScaleFactor c) fzero"

section \<open>The INA219 on its bus\<close>

record 'i I2cApi =
  i2c_new_master_bus :: "BusConfiguration \<Rightarrow> 'i \<Rightarrow> bool \<times> 'i"
  i2c_master_bus_add_device :: "u8 \<Rightarrow> u32 \<Rightarrow> 'i \<Rightarrow> bool \<times> 'i"
  i2c_master_probe :: "u8 \<Rightarrow> 'i \<Rightarrow> bool \<times> 'i"
  i2c_master_transmit :: "u8 list \<Rightarrow> 'i \<Rightarrow> bool \<times> 'i"
  i2c_master_transmit_receive :: "u8 \<Rightarrow> 'i \<Rightarrow> (u8 \<times> u8) option \<times> 'i"

definition INA219_I2C_ADDRESS :: u8 where "INA219_I2C_ADDRESS = 0x40"
definition REGISTER_CONFIGURATION :: u8 where "REGISTER_CONFIGURATION = 0"
definition REGISTER_SHUNT_VOLTAGE :: u8 where "REGISTER_SHUNT_VOLTAGE = 1"
definition REGISTER_BUS_VOLTAGE :: u8 where "REGISTER_BUS_VOLTAGE = 2"
definition CONFIGURATION_REGISTER_VALUE :: u16 where "CONFIGURATION_REGISTER_VALUE = 0x399F"
definition BUS_VOLTAGE_LSB_VOLTS :: f32 where "BUS_VOLTAGE_LSB_VOLTS = flit 4 1000"
definition SHUNT_VOLTAGE_LSB_VOLTS :: f32 where "SHUNT_VOLTAGE_LSB_VOLTS = flit 1 100000"
definition MAXIMUM_SHUNT_VOLTAGE_VOLTS :: f32 where "MAXIMUM_SHUNT_VOLTAGE_VOLTS = flit 320 1000"
definition BUS_VOLTAGE_OVERFLOW_FLAG :: u16 where "BUS_VOLTAGE_OVERFLOW_FLAG = 2"

definition writeRegister :: "'i I2cApi \<Rightarrow> u8 \<Rightarrow> u16 \<Rightarrow> 'i \<Rightarrow> bool \<times> 'i" where
  "writeRegister api address v i =
     i2c_master_transmit api [address, ucast (drop_bit 8 v AND 0xFF), ucast (v AND 0xFF)] i"

definition readRegister :: "'i I2cApi \<Rightarrow> u8 \<Rightarrow> 'i \<Rightarrow> u16 option \<times> 'i" where
  "readRegister api address i =
     (case i2c_master_transmit_receive api address i of
        (None, i') \<Rightarrow> (None, i')
      | (Some (b0, b1), i') \<Rightarrow> (Some (push_bit 8 (ucast b0) OR ucast b1), i'))"

definition initializeBus :: "'i I2cApi \<Rightarrow> PowerManager \<times> 'i \<Rightarrow> bool \<times> PowerManager \<times> 'i" where
  "initializeBus api = (\<lambda>(p, i).
     if busHandle p then (True, p, i)
     else case i2c_new_master_bus api (busConfiguration p) i of
            (ok, i') \<Rightarrow> if \<not> ok then (False, p, i') else (True, p\<lparr>busHandle := True\<rparr>, i'))"

definition isHardwareSensorPresent :: "'i I2cApi \<Rightarrow> PowerManager \<Rightarrow> 'i \<Rightarrow> bool \<times> 'i" where
  "isHardwareSensorPresent api p i =
     (if busHandle p then i2c_master_probe api INA219_I2C_ADDRESS i else (False, i))"

text \<open>The presence check and the configuration write, once the device handle exists.\<close>

definition configureSensor :: "'i I2cApi \<Rightarrow> PowerManager \<times> 'i \<Rightarrow> bool \<times> PowerManager \<times> 'i" where
  "configureSensor api = (\<lambda>(p, i).
     case isHardwareSensorPresent api p i of
       (present, i1) \<Rightarrow>
         if \<not> present then (False, p, i1)
         else case writeRegister api REGISTER_CONFIGURATION CONFIGURATION_REGISTER_VALUE i1 of
                (ok, i2) \<Rightarrow> (ok, p, i2))"

definition initializeSensor :: "'i I2cApi \<Rightarrow> PowerManager \<times> 'i \<Rightarrow> bool \<times> PowerManager \<times> 'i" where
  "initializeSensor api = (\<lambda>(p, i).
     if \<not> busHandle p then (False, p, i)
     else if deviceHandle p then configureSensor api (p, i)
     else case i2c_master_bus_add_device api INA219_I2C_ADDRESS (clockSpeedHz (busConfiguration p)) i of
            (ok, i1) \<Rightarrow>
              if \<not> ok then (False, p, i1)
              else configureSensor api (p\<lparr>deviceHandle := True\<rparr>, i1))"

definition valid_sensor :: "SensorConfiguration \<Rightarrow> bool" where
  "valid_sensor sc \<longleftrightarrow>
     isFinitePositive (shuntResistanceOhms sc) \<and> isFinitePositive (maximumExpectedCurrentAmps sc) \<and>
     fisfinite (emaAlpha sc) \<and> \<not> fle (emaAlpha sc) fzero \<and> \<not> flt fone (emaAlpha sc) \<and>
     \<not> flt MAXIMUM_SHUNT_VOLTAGE_VOLTS (fmul (shuntResistanceOhms sc) (maximumExpectedCurrentAmps sc))"

definition pm_initialize ::
  "'i I2cApi \<Rightarrow> BusConfiguration \<Rightarrow> SensorConfiguration \<Rightarrow> BatteryConfiguration \<Rightarrow>
   PowerManager \<times> 'i \<Rightarrow> bool \<times> PowerManager \<times> 'i" where
  "pm_initialize api bus sc battery = (\<lambda>(p, i).
     let batteryMetadataProvided =
           \<not> feq (nameplateVoltageVolts battery) fzero \<or> \<not> feq (capacityAmpHours battery) fzero
     in if clockSpeedHz bus = 0 \<or> \<not> isValidPercent (minimumStateOfChargePercent battery)
        then (False, p, i)
        else if batteryMetadataProvided \<and>
                (\<not> isFinitePositive (nameplateVoltageVolts battery) \<or>
                 \<not> isFinitePositive (capacityAmpHours battery))
        then (False, p, i)
        else if \<not> simulationEnabled p \<and> \<not> valid_sensor sc then (False, p, i)
        else
          let p1 = p\<lparr>busConfiguration := bus, sensorConfiguration := sc, batteryConfiguration := battery,
                     measurements := zero_measurements, filteredMeasurements := zero_measurements,
                     hasFilteredMeasurement := False, measurementSource := SOURCE_NONE\<rparr>
          in if simulationEnabled p1 then (True, p1\<lparr>pm_initialized := True\<rparr>, i)
             else case initializeBus api (p1, i) of
               (busOk, p2, i2) \<Rightarrow>
                 if \<not> busOk then (False, p2, i2)
                 else case initializeSensor api (p2, i2) of
                   (sensorOk, p3, i3) \<Rightarrow>
                     if \<not> sensorOk then (False, p3, i3)
                     else (True, p3\<lparr>pm_initialized := True\<rparr>, i3))"

definition measurementsOfRegisters :: "SensorConfiguration \<Rightarrow> u16 \<Rightarrow> u16 \<Rightarrow> PowerMeasurements" where
  "measurementsOfRegisters sc busRaw shuntRaw =
     (let voltage = fmul (fnat (unat (drop_bit 3 busRaw))) BUS_VOLTAGE_LSB_VOLTS;
          shuntVoltage = fmul (fint (sint shuntRaw)) SHUNT_VOLTAGE_LSB_VOLTS;
          current = fdiv shuntVoltage (shuntResistanceOhms sc)
      in \<lparr>voltageVolts = voltage, currentAmps = current, powerWatts = fmul voltage current\<rparr>)"

definition finite_measurements :: "PowerMeasurements \<Rightarrow> bool" where
  "finite_measurements m \<longleftrightarrow>
     fisfinite (voltageVolts m) \<and> fisfinite (currentAmps m) \<and> fisfinite (powerWatts m)"

definition readHardwareMeasurements ::
  "'i I2cApi \<Rightarrow> PowerManager \<Rightarrow> 'i \<Rightarrow> PowerMeasurements option \<times> 'i" where
  "readHardwareMeasurements api p i =
     (if \<not> deviceHandle p then (None, i)
      else case isHardwareSensorPresent api p i of
        (present, i1) \<Rightarrow>
          if \<not> present then (None, i1)
          else case readRegister api REGISTER_BUS_VOLTAGE i1 of
            (None, i2) \<Rightarrow> (None, i2)
          | (Some busRaw, i2) \<Rightarrow>
              (case readRegister api REGISTER_SHUNT_VOLTAGE i2 of
                 (None, i3) \<Rightarrow> (None, i3)
               | (Some shuntRaw, i3) \<Rightarrow>
                   if busRaw AND BUS_VOLTAGE_OVERFLOW_FLAG \<noteq> 0 then (None, i3)
                   else
                     let m = measurementsOfRegisters (sensorConfiguration p) busRaw shuntRaw
                     in if \<not> finite_measurements m then (None, i3) else (Some m, i3)))"

section \<open>Simulation and calibration\<close>

definition enableSimulation :: "bool \<Rightarrow> PowerManager \<Rightarrow> PowerManager" where
  "enableSimulation on p =
     p\<lparr>simulationEnabled := on, hasFilteredMeasurement := False, measurementSource := SOURCE_NONE,
       measurements := zero_measurements, filteredMeasurements := zero_measurements,
       pm_initialized := on\<rparr>"

definition setSimulatedMeasurements :: "f32 \<Rightarrow> f32 \<Rightarrow> PowerManager \<Rightarrow> bool \<times> PowerManager" where
  "setSimulatedMeasurements voltage current p =
     (if \<not> simulationEnabled p \<or> \<not> fisfinite voltage \<or> fle voltage fzero \<or> \<not> fisfinite current
      then (False, p)
      else
        let m = \<lparr>voltageVolts = voltage, currentAmps = current, powerWatts = fmul voltage current\<rparr>
        in (fisfinite (powerWatts m), p\<lparr>simulatedMeasurements := m\<rparr>))"

definition setSimulatedStateOfChargePercent :: "f32 \<Rightarrow> PowerManager \<Rightarrow> bool \<times> PowerManager" where
  "setSimulatedStateOfChargePercent soc p =
     (if \<not> simulationEnabled p \<or> \<not> isValidPercent soc then (False, p)
      else (True, p\<lparr>stateOfChargePercent := soc, stateOfChargeSource := SOC_SIMULATED,
                    stateOfChargeInitialized := True\<rparr>))"

definition readSimulatedMeasurements :: "PowerManager \<Rightarrow> PowerMeasurements option" where
  "readSimulatedMeasurements p =
     (let m = simulatedMeasurements p
      in if \<not> fisfinite (voltageVolts m) \<or> fle (voltageVolts m) fzero \<or>
            \<not> fisfinite (currentAmps m) \<or> \<not> fisfinite (powerWatts m)
         then None else Some m)"

definition setCalibration :: "Calibration \<Rightarrow> PowerManager \<Rightarrow> bool \<times> PowerManager" where
  "setCalibration c p =
     (if \<not> isValidCalibration c then (False, p)
      else (True, p\<lparr>calibration := c, hasFilteredMeasurement := False\<rparr>))"

definition applyCalibration :: "PowerMeasurements \<Rightarrow> Calibration \<Rightarrow> PowerMeasurements" where
  "applyCalibration m c =
     (let v = fadd (voltageVolts m) (voltageOffsetVolts c);
          a = fmul (fadd (currentAmps m) (currentOffsetAmps c)) (currentScaleFactor c)
      in \<lparr>voltageVolts = v, currentAmps = a, powerWatts = fmul v a\<rparr>)"

definition applyExponentialMovingAverage ::
  "PowerMeasurements \<Rightarrow> PowerMeasurements \<Rightarrow> f32 \<Rightarrow> PowerMeasurements" where
  "applyExponentialMovingAverage previous current alpha =
     (let a = fmax fzero (fmin alpha fone);
          b = fsub fone a;
          v = fadd (fmul a (voltageVolts current)) (fmul b (voltageVolts previous));
          c = fadd (fmul a (currentAmps current)) (fmul b (currentAmps previous))
      in \<lparr>voltageVolts = v, currentAmps = c, powerWatts = fmul v c\<rparr>)"

section \<open>Measuring\<close>

text \<open>What \<open>updateMeasurements\<close> does with a raw measurement.\<close>

definition acceptMeasurements :: "PowerMeasurements \<Rightarrow> PowerManager \<Rightarrow> bool \<times> PowerManager" where
  "acceptMeasurements raw p =
     (let calibrated = applyCalibration raw (calibration p)
      in if \<not> finite_measurements calibrated then (False, p)
         else
           let filtered = (if hasFilteredMeasurement p
                           then applyExponentialMovingAverage (filteredMeasurements p) calibrated
                                  (emaAlpha (sensorConfiguration p))
                           else calibrated)
           in (True, p\<lparr>filteredMeasurements := filtered, hasFilteredMeasurement := True,
                       measurements := filtered,
                       powerBudget := (powerBudget p)\<lparr>batteryVoltageVolts := voltageVolts filtered,
                                        batteryCurrentAmps := currentAmps filtered,
                                        P_measured := powerWatts filtered\<rparr>\<rparr>))"

definition updateMeasurements :: "'i I2cApi \<Rightarrow> PowerManager \<times> 'i \<Rightarrow> bool \<times> PowerManager \<times> 'i" where
  "updateMeasurements api = (\<lambda>(p, i).
     if \<not> pm_initialized p then (False, p, i)
     else if simulationEnabled p then
       (case readSimulatedMeasurements p of
          None \<Rightarrow> (False, p, i)
        | Some raw \<Rightarrow>
            (case acceptMeasurements raw (p\<lparr>measurementSource := SOURCE_SIMULATED\<rparr>) of
               (ok, p') \<Rightarrow> (ok, p', i)))
     else
       (case readHardwareMeasurements api p i of
          (None, i') \<Rightarrow> (False, p\<lparr>measurementSource := SOURCE_NONE\<rparr>, i')
        | (Some raw, i') \<Rightarrow>
            (case acceptMeasurements raw (p\<lparr>measurementSource := SOURCE_HARDWARE\<rparr>) of
               (ok, p') \<Rightarrow> (ok, p', i'))))"

section \<open>State of charge\<close>

definition clampStateOfCharge :: "f32 \<Rightarrow> f32" where
  "clampStateOfCharge v = fmax fzero (fmin v fhundred)"

definition readFloat :: "'n NvsApi \<Rightarrow> 'n \<Rightarrow> string \<Rightarrow> f32 option" where
  "readFloat api n k =
     (case nvs_get_u32 api n k of
        None \<Rightarrow> None
      | Some bits \<Rightarrow> let v = f32_of_bits (unat bits) in if fisfinite v then Some v else None)"

definition writeFloat :: "'n NvsApi \<Rightarrow> string \<Rightarrow> f32 \<Rightarrow> 'n \<Rightarrow> bool \<times> 'n" where
  "writeFloat api k v n = nvs_set_u32 api k (of_nat (f32_bits v)) n"

definition loadPersistedStateOfCharge :: "'n NvsApi \<Rightarrow> 'n \<Rightarrow> f32 option" where
  "loadPersistedStateOfCharge api n =
     (if \<not> nvs_open_readonly api n then None
      else case readFloat api n ''soc'' of
             None \<Rightarrow> None
           | Some v \<Rightarrow> if isValidPercent v then Some v else None)"

definition persistStateOfChargeValue :: "'n NvsApi \<Rightarrow> f32 \<Rightarrow> 'n \<Rightarrow> bool \<times> 'n" where
  "persistStateOfChargeValue api v n =
     (if \<not> isValidPercent v then (False, n)
      else if \<not> nvs_open_readwrite api n then (False, n)
      else nvs_then (writeFloat api ''soc'' v n) (nvs_commit api))"

definition initializeStateOfCharge ::
  "'n NvsApi \<Rightarrow> 'n \<Rightarrow> f32 \<Rightarrow> bool \<Rightarrow> PowerManager \<Rightarrow> bool \<times> PowerManager" where
  "initializeStateOfCharge api n starting restorePersistedState p =
     (if \<not> isValidPercent starting then (False, p)
      else
        let p1 = (case (if restorePersistedState then loadPersistedStateOfCharge api n else None) of
                    Some persisted \<Rightarrow>
                      p\<lparr>stateOfChargePercent := persisted, stateOfChargeSource := SOC_PERSISTED\<rparr>
                  | None \<Rightarrow> p\<lparr>stateOfChargePercent := starting, stateOfChargeSource := SOC_INITIAL\<rparr>)
        in (True, p1\<lparr>stateOfChargeInitialized := True\<rparr>))"

definition updateStateOfCharge :: "f32 \<Rightarrow> PowerManager \<Rightarrow> bool \<times> PowerManager" where
  "updateStateOfCharge deltaTimeSeconds p =
     (if \<not> stateOfChargeInitialized p \<or> \<not> isFinitePositive deltaTimeSeconds \<or>
         \<not> fisfinite (currentAmps (measurements p)) \<or>
         \<not> isFinitePositive (capacityAmpHours (batteryConfiguration p))
      then (False, p)
      else
        let change = fdiv (fmul (fmul (currentAmps (measurements p)) deltaTimeSeconds) fhundred)
                          (fmul (fnat 3600) (capacityAmpHours (batteryConfiguration p)))
        in (True, p\<lparr>stateOfChargePercent := clampStateOfCharge (fsub (stateOfChargePercent p) change),
                    stateOfChargeSource := SOC_COULOMB_COUNTING\<rparr>))"

definition applyVoltageStateOfChargeEstimate ::
  "f32 \<Rightarrow> f32 \<Rightarrow> f32 \<Rightarrow> PowerManager \<Rightarrow> bool \<times> PowerManager" where
  "applyVoltageStateOfChargeEstimate emptyV fullV weight p =
     (if \<not> stateOfChargeInitialized p \<or> \<not> isFinitePositive emptyV \<or> \<not> isFinitePositive fullV \<or>
         fle fullV emptyV \<or> \<not> fisfinite weight \<or> flt weight fzero \<or> flt fone weight \<or>
         \<not> fisfinite (voltageVolts (measurements p))
      then (False, p)
      else
        let voltageSoc = clampStateOfCharge
              (fdiv (fmul fhundred (fsub (voltageVolts (measurements p)) emptyV)) (fsub fullV emptyV))
        in (True, p\<lparr>stateOfChargePercent := clampStateOfCharge
                      (fadd (fmul (fsub fone weight) (stateOfChargePercent p)) (fmul weight voltageSoc)),
                    stateOfChargeSource := SOC_VOLTAGE_ESTIMATE\<rparr>))"

definition isStateOfChargeValid :: "PowerManager \<Rightarrow> bool" where
  "isStateOfChargeValid p \<longleftrightarrow>
     stateOfChargeInitialized p \<and> stateOfChargeSource p \<noteq> SOC_UNKNOWN \<and>
     isValidPercent (stateOfChargePercent p)"

definition persistStateOfCharge :: "'n NvsApi \<Rightarrow> PowerManager \<Rightarrow> 'n \<Rightarrow> bool \<times> 'n" where
  "persistStateOfCharge api p n =
     (if \<not> isStateOfChargeValid p then (False, n)
      else persistStateOfChargeValue api (stateOfChargePercent p) n)"

section \<open>The power budget\<close>

definition setPowerBudgetWatts :: "f32 \<Rightarrow> PowerManager \<Rightarrow> bool \<times> PowerManager" where
  "setPowerBudgetWatts w p =
     (if \<not> isFinitePositive w then (False, p) else (True, p\<lparr>powerBudget := (powerBudget p)\<lparr>P_budget := w\<rparr>\<rparr>))"

definition setPowerReserveWatts :: "f32 \<Rightarrow> PowerManager \<Rightarrow> bool \<times> PowerManager" where
  "setPowerReserveWatts w p =
     (if \<not> isFiniteNonNegative w then (False, p)
      else (True, p\<lparr>powerBudget := (powerBudget p)\<lparr>P_reserve := w\<rparr>\<rparr>))"

definition setFixedPowerWatts :: "f32 \<Rightarrow> PowerManager \<Rightarrow> bool \<times> PowerManager" where
  "setFixedPowerWatts w p =
     (if \<not> isFiniteNonNegative w then (False, p)
      else (True, p\<lparr>powerBudget := (powerBudget p)\<lparr>P_fixed := w\<rparr>\<rparr>))"

definition setAutoPowerWatts :: "f32 \<Rightarrow> PowerManager \<Rightarrow> bool \<times> PowerManager" where
  "setAutoPowerWatts w p =
     (if \<not> isFiniteNonNegative w then (False, p)
      else (True, p\<lparr>powerBudget := (powerBudget p)\<lparr>P_auto := w\<rparr>\<rparr>))"

definition setRemainingRequiredRuntimeHours :: "f32 \<Rightarrow> PowerManager \<Rightarrow> bool \<times> PowerManager" where
  "setRemainingRequiredRuntimeHours h p =
     (if \<not> isFiniteNonNegative h then (False, p)
      else (True, p\<lparr>remainingRequiredRuntimeHours := h\<rparr>))"

text \<open>The power the runtime target allows: the usable energy spread over the remaining hours.\<close>

definition runtimeAllowanceWatts :: "PowerManager \<Rightarrow> f32" where
  "runtimeAllowanceWatts p =
     (let battery = batteryConfiguration p;
          usableSocFraction = fmax fzero
            (fdiv (fsub (stateOfChargePercent p) (minimumStateOfChargePercent battery)) fhundred);
          usableEnergyWh = fmul (fmul (capacityAmpHours battery) (nameplateVoltageVolts battery))
                                usableSocFraction
      in fdiv usableEnergyWh (remainingRequiredRuntimeHours p))"

text \<open>
  The planning allowance and whether the required runtime is achievable, \<open>None\<close> where the
  source returns false.
\<close>

definition planningAllowance :: "PowerManager \<Rightarrow> (f32 \<times> bool) option" where
  "planningAllowance p =
     (let b = powerBudget p;
          battery = batteryConfiguration p;
          minimum = minimumStateOfChargePercent battery;
          runtimeActive = flt fzero (remainingRequiredRuntimeHours p);
          stateOfChargeRequired = (flt fzero minimum \<or> runtimeActive)
      in if stateOfChargeRequired \<and> \<not> isStateOfChargeValid p then None
         else
           let powerAfterReserve = fmax fzero (fsub (P_budget b) (P_reserve b))
           in if runtimeActive \<and>
                 (\<not> isFinitePositive (capacityAmpHours battery) \<or>
                  \<not> isFinitePositive (nameplateVoltageVolts battery) \<or>
                  \<not> fisfinite (runtimeAllowanceWatts p))
              then None
              else
                let allowance1 = (if runtimeActive then fmin powerAfterReserve (runtimeAllowanceWatts p)
                                  else powerAfterReserve);
                    achievable1 = (if runtimeActive then fle (P_fixed b) allowance1 else True)
                in if isStateOfChargeValid p \<and> fle (stateOfChargePercent p) minimum
                   then Some (fzero, if runtimeActive \<and> flt fzero (P_fixed b) then False else achievable1)
                   else Some (allowance1, achievable1))"

definition updatePowerBudget :: "PowerManager \<Rightarrow> bool \<times> PowerManager" where
  "updatePowerBudget p =
     (let b = powerBudget p
      in if \<not> isFinitePositive (P_budget b) \<or> \<not> isFiniteNonNegative (P_reserve b) \<or>
            \<not> isFiniteNonNegative (P_fixed b) \<or> \<not> isFiniteNonNegative (P_auto b) \<or>
            flt (P_budget b) (P_reserve b) \<or>
            \<not> isValidPercent (minimumStateOfChargePercent (batteryConfiguration p))
         then (False, p)
         else case planningAllowance p of
           None \<Rightarrow> (False, p)
         | Some (allowance, achievable) \<Rightarrow>
             (True, p\<lparr>powerBudget := b\<lparr>
                P_auto_available := fmax fzero (fsub allowance (P_fixed b)),
                P_remaining := fmax fzero (fsub (P_budget b) (fadd (P_fixed b) (P_auto b))),
                runtimeBudgetActive := flt fzero (remainingRequiredRuntimeHours p),
                requiredRuntimeAchievable := achievable,
                batteryVoltageVolts := voltageVolts (measurements p),
                batteryCurrentAmps := currentAmps (measurements p),
                P_measured := powerWatts (measurements p)\<rparr>\<rparr>))"

section \<open>Ranges\<close>

lemma fhundred_facts [simp]: "fle fzero fhundred" "fisfinite fhundred" "f32_ok fhundred"
  "flt fzero fhundred" "fhundred \<noteq> NaN"
  by (simp_all add: f32_eval)

lemma isValidPercent_zero [simp]: "isValidPercent fzero"
  by (simp add: isValidPercent_def)

lemma isFiniteNonNegative_zero [simp]: "isFiniteNonNegative fzero"
  by (simp add: isFiniteNonNegative_def)

lemma isFinitePositive_nonneg: "isFinitePositive v \<Longrightarrow> isFiniteNonNegative v"
  by (simp add: isFinitePositive_def isFiniteNonNegative_def flt_imp_fle)

text \<open>Clamping gives a percentage, whatever it is given: \<open>clamp(NaN)\<close> is 0.\<close>

lemma fmin_le: "x \<noteq> NaN \<Longrightarrow> c \<noteq> NaN \<Longrightarrow> fle (fmin x c) c"
  by (auto simp: fmin_def not_flt_iff)

lemma clamp_valid [simp]: "isValidPercent (clampStateOfCharge v)"
proof -
  have "fle (clampStateOfCharge v) fhundred"
  proof (cases "v = NaN")
    case True
    then have "clampStateOfCharge v = fzero"
      by (simp add: clampStateOfCharge_def fmin_def fmax_def flt_def split: option.splits)
    then show ?thesis by simp
  next
    case False
    then show ?thesis
      by (simp add: clampStateOfCharge_def fmax_zero_le fmin_le)
  qed
  moreover have "fisfinite (clampStateOfCharge v)"
  proof -
    obtain n where n: "fhundred = Finite False n"
      using fhundred_facts(1,2) by (cases fhundred) (auto simp: f32_eval)
    show ?thesis
      using calculation fhundred_facts(3) unfolding n
      by (intro fle_finite_between [of _ False n]) (simp_all add: clampStateOfCharge_def)
  qed
  ultimately show ?thesis by (simp add: isValidPercent_def) (simp add: clampStateOfCharge_def)
qed

text \<open>
  What holds of the power manager whatever it is told: the state of charge and the minimum
  are percentages, the demands and the runtime are finite and not negative, and no negative
  (or undefined) power is ever published.
\<close>

definition pm_ok :: "PowerManager \<Rightarrow> bool" where
  "pm_ok p \<longleftrightarrow>
     isValidPercent (stateOfChargePercent p) \<and>
     isValidPercent (minimumStateOfChargePercent (batteryConfiguration p)) \<and>
     isFiniteNonNegative (P_budget (powerBudget p)) \<and>
     isFiniteNonNegative (P_reserve (powerBudget p)) \<and>
     isFiniteNonNegative (P_fixed (powerBudget p)) \<and>
     isFiniteNonNegative (P_auto (powerBudget p)) \<and>
     isFiniteNonNegative (remainingRequiredRuntimeHours p) \<and>
     fle fzero (P_auto_available (powerBudget p)) \<and> fle fzero (P_remaining (powerBudget p))"

lemma initializeBus_fields:
  "initializeBus api (p, i) = (ok, p', i') \<Longrightarrow>
   p' = p \<or> p' = p\<lparr>busHandle := True\<rparr>"
  by (auto simp: initializeBus_def split: if_splits prod.splits)

lemma configureSensor_same: "configureSensor api (p, i) = (ok, p', i') \<Longrightarrow> p' = p"
  by (auto simp: configureSensor_def split: if_splits prod.splits)

lemma initializeSensor_fields:
  "initializeSensor api (p, i) = (ok, p', i') \<Longrightarrow> p' = p \<or> p' = p\<lparr>deviceHandle := True\<rparr>"
  by (auto simp: initializeSensor_def split: if_splits prod.splits dest!: configureSensor_same)

lemma pm_ok_handles [simp]:
  "pm_ok (p\<lparr>busHandle := b\<rparr>) = pm_ok p" "pm_ok (p\<lparr>deviceHandle := b\<rparr>) = pm_ok p"
  "pm_ok (p\<lparr>pm_initialized := b\<rparr>) = pm_ok p" "pm_ok (p\<lparr>measurementSource := ms\<rparr>) = pm_ok p"
  by (simp_all add: pm_ok_def)

lemma pm_initialize_ok [inv_intros]:
  assumes "pm_ok p"
  shows "pm_ok (fst (snd (pm_initialize api bus sc battery (p, i))))"
proof -
  let ?p1 = "p\<lparr>busConfiguration := bus, sensorConfiguration := sc, batteryConfiguration := battery,
    measurements := zero_measurements, filteredMeasurements := zero_measurements,
    hasFilteredMeasurement := False, measurementSource := SOURCE_NONE\<rparr>"
  have start: "pm_ok ?p1" if "isValidPercent (minimumStateOfChargePercent battery)"
    using assms that by (simp add: pm_ok_def)
  obtain b p2 i2 where bus: "initializeBus api (?p1, i) = (b, p2, i2)"
    by (cases "initializeBus api (?p1, i)") auto
  obtain c p3 i3 where sensor: "initializeSensor api (p2, i2) = (c, p3, i3)"
    by (cases "initializeSensor api (p2, i2)") auto
  have "pm_ok p2" "pm_ok p3" if "isValidPercent (minimumStateOfChargePercent battery)"
    using start [OF that] initializeBus_fields [OF bus] initializeSensor_fields [OF sensor] by auto
  then show ?thesis
    using assms bus sensor start by (simp add: pm_initialize_def Let_def)
qed

lemma acceptMeasurements_ok: "pm_ok p \<Longrightarrow> pm_ok (snd (acceptMeasurements raw p))"
  by (simp add: acceptMeasurements_def Let_def pm_ok_def)

lemma updateMeasurements_ok [inv_intros]:
  assumes "pm_ok p"
  shows "pm_ok (fst (snd (updateMeasurements api (p, i))))"
proof -
  have acc: "pm_ok (snd (acceptMeasurements raw (p\<lparr>measurementSource := ms\<rparr>)))" for raw ms
    using assms by (simp add: acceptMeasurements_ok)
  show ?thesis
    using assms acc
    by (auto simp: updateMeasurements_def split_beta split: option.splits prod.splits)
qed

lemma pm_simple_ok [inv_intros]:
  assumes "pm_ok p"
  shows "pm_ok (enableSimulation b p)" "pm_ok (snd (setSimulatedMeasurements v c p))"
    "pm_ok (snd (setSimulatedStateOfChargePercent soc p))" "pm_ok (snd (setCalibration cal p))"
    "pm_ok (snd (updateStateOfCharge dt p))" "pm_ok (snd (applyVoltageStateOfChargeEstimate e f w p))"
    "pm_ok (snd (setPowerBudgetWatts x p))" "pm_ok (snd (setPowerReserveWatts x p))"
    "pm_ok (snd (setFixedPowerWatts x p))" "pm_ok (snd (setAutoPowerWatts x p))"
    "pm_ok (snd (setRemainingRequiredRuntimeHours h p))"
  using assms
  by (simp_all add: pm_ok_def enableSimulation_def setSimulatedMeasurements_def
      setSimulatedStateOfChargePercent_def setCalibration_def updateStateOfCharge_def
      applyVoltageStateOfChargeEstimate_def setPowerBudgetWatts_def setPowerReserveWatts_def
      setFixedPowerWatts_def setAutoPowerWatts_def setRemainingRequiredRuntimeHours_def Let_def
      isFinitePositive_nonneg)

lemma loadPersisted_valid: "loadPersistedStateOfCharge api n = Some v \<Longrightarrow> isValidPercent v"
  by (auto simp: loadPersistedStateOfCharge_def split: if_splits option.splits)

lemma initializeStateOfCharge_ok [inv_intros]:
  "pm_ok p \<Longrightarrow> pm_ok (snd (initializeStateOfCharge api n s r p))"
  by (auto simp: initializeStateOfCharge_def pm_ok_def Let_def loadPersisted_valid split: option.splits)

lemma updatePowerBudget_ok [inv_intros]: "pm_ok p \<Longrightarrow> pm_ok (snd (updatePowerBudget p))"
  by (simp add: updatePowerBudget_def Let_def pm_ok_def split: option.splits prod.splits)

datatype ('i, 'n) pm_op =
  PmInitialize BusConfiguration SensorConfiguration BatteryConfiguration 'i
| PmUpdateMeasurements 'i
| PmEnableSimulation bool
| PmSetSimulatedMeasurements f32 f32
| PmSetSimulatedStateOfCharge f32
| PmSetCalibration Calibration
| PmInitializeStateOfCharge 'n f32 bool
| PmUpdateStateOfCharge f32
| PmApplyVoltageEstimate f32 f32 f32
| PmSetPowerBudget f32 | PmSetPowerReserve f32 | PmSetFixedPower f32 | PmSetAutoPower f32
| PmSetRuntime f32
| PmUpdatePowerBudget

fun pm_step :: "'i I2cApi \<Rightarrow> 'n NvsApi \<Rightarrow> ('i, 'n) pm_op \<Rightarrow> PowerManager \<Rightarrow> PowerManager" where
  "pm_step i2c nvs (PmInitialize bus sc b i) p = fst (snd (pm_initialize i2c bus sc b (p, i)))"
| "pm_step i2c nvs (PmUpdateMeasurements i) p = fst (snd (updateMeasurements i2c (p, i)))"
| "pm_step i2c nvs (PmEnableSimulation b) p = enableSimulation b p"
| "pm_step i2c nvs (PmSetSimulatedMeasurements v c) p = snd (setSimulatedMeasurements v c p)"
| "pm_step i2c nvs (PmSetSimulatedStateOfCharge soc) p = snd (setSimulatedStateOfChargePercent soc p)"
| "pm_step i2c nvs (PmSetCalibration c) p = snd (setCalibration c p)"
| "pm_step i2c nvs (PmInitializeStateOfCharge n s r) p = snd (initializeStateOfCharge nvs n s r p)"
| "pm_step i2c nvs (PmUpdateStateOfCharge dt) p = snd (updateStateOfCharge dt p)"
| "pm_step i2c nvs (PmApplyVoltageEstimate e f w) p = snd (applyVoltageStateOfChargeEstimate e f w p)"
| "pm_step i2c nvs (PmSetPowerBudget x) p = snd (setPowerBudgetWatts x p)"
| "pm_step i2c nvs (PmSetPowerReserve x) p = snd (setPowerReserveWatts x p)"
| "pm_step i2c nvs (PmSetFixedPower x) p = snd (setFixedPowerWatts x p)"
| "pm_step i2c nvs (PmSetAutoPower x) p = snd (setAutoPowerWatts x p)"
| "pm_step i2c nvs (PmSetRuntime h) p = snd (setRemainingRequiredRuntimeHours h p)"
| "pm_step i2c nvs PmUpdatePowerBudget p = snd (updatePowerBudget p)"

lemma pm_step_ok: "pm_ok p \<Longrightarrow> pm_ok (pm_step i2c nvs op p)"
  by (cases op) (simp_all add: inv_intros)

lemma new_PowerManager_ok: "pm_ok new_PowerManager"
  by (simp add: pm_ok_def new_PowerManager_def zero_budget_def)

text \<open>
  Whatever the sensor, the storage, the clock and the user deliver, in any order, with any
  float including NaN and the infinities: the state of charge stays between 0 and 100
  percent, the configured demands stay finite and not negative, and the published powers
  \<open>P_auto_available\<close> and \<open>P_remaining\<close> are never negative and never NaN.
\<close>

theorem power_state_always_ok: "pm_ok (fold (pm_step i2c nvs) ops new_PowerManager)"
  by (induction ops rule: rev_induct) (simp_all add: new_PowerManager_ok pm_step_ok)

section \<open>The budget\<close>

lemma fmin_cases: "fmin a b = a \<or> fmin a b = b"
  by (simp add: fmin_def)

lemma fmin_le_both: "a \<noteq> NaN \<Longrightarrow> b \<noteq> NaN \<Longrightarrow> fle (fmin a b) a \<and> fle (fmin a b) b"
  by (auto simp: fmin_def not_flt_iff flt_imp_fle)

lemma finite_not_NaN: "fisfinite x \<Longrightarrow> x \<noteq> NaN"
  by auto

lemma planningAllowance_bounds:
  assumes p: "planningAllowance p = Some (allowance, achievable)"
    and ok: "f32_ok (P_budget (powerBudget p))" and pos: "isFinitePositive (P_budget (powerBudget p))"
    and res: "isFiniteNonNegative (P_reserve (powerBudget p))"
  defines "after \<equiv> fmax fzero (fsub (P_budget (powerBudget p)) (P_reserve (powerBudget p)))"
  shows "fisfinite allowance \<and> f32_ok allowance \<and> fle allowance after \<and>
    fle after (P_budget (powerBudget p)) \<and>
    (flt fzero (remainingRequiredRuntimeHours p) \<longrightarrow> fle allowance (fmax fzero (runtimeAllowanceWatts p)))"
proof -
  let ?budget = "P_budget (powerBudget p)" and ?run = "runtimeAllowanceWatts p"
  have fin: "fisfinite ?budget" "fle fzero ?budget" "fle fzero (P_reserve (powerBudget p))"
    using pos res by (simp_all add: isFinitePositive_def isFiniteNonNegative_def flt_imp_fle)
  have le: "fle after ?budget"
    unfolding after_def by (rule fmax_zero_le [OF fin(2) fsub_le [OF fin(1) ok fin(3)]])
  have after: "fle fzero after" "f32_ok after" "after \<noteq> NaN" by (simp_all add: after_def)
  have finite: "fisfinite after"
  proof -
    obtain sg n where "?budget = Finite sg n" using fin(1) by (cases ?budget) auto
    then show ?thesis using fle_finite_between [OF after(1)] le ok by metis
  qed
  have pos0: "fle x (fmax fzero x)" if "x \<noteq> NaN" for x
    using that by (auto simp: fmax_def not_flt_iff)
  have okr: "f32_ok ?run" by (simp add: runtimeAllowanceWatts_def Let_def)
  consider "allowance = fzero" | "allowance = after" "\<not> flt fzero (remainingRequiredRuntimeHours p)"
    | "allowance = fmin after ?run" "fisfinite ?run"
    using p by (auto simp: planningAllowance_def after_def Let_def split: if_splits)
  then show ?thesis
  proof cases
    case 1
    then show ?thesis using le after by (simp add: representable_def)
  next
    case 2
    then show ?thesis using le after finite by simp
  next
    case 3
    note m = fmin_le_both [OF after(3) finite_not_NaN [OF 3(2)]]
    have "fle allowance (fmax fzero ?run)"
      using m pos0 [OF finite_not_NaN [OF 3(2)]] fle_trans unfolding 3(1) by blast
    then show ?thesis
      using m le 3 finite okr after(2) fmin_cases [of after ?run] by auto
  qed
qed

lemma updatePowerBudget_available:
  assumes u: "updatePowerBudget p = (True, p')" and ok: "f32_ok (P_budget (powerBudget p))"
  shows "fle fzero (P_auto_available (powerBudget p'))"
    and "fle (P_auto_available (powerBudget p'))
           (fmax fzero (fsub (P_budget (powerBudget p)) (P_reserve (powerBudget p))))"
    and "fle (P_auto_available (powerBudget p')) (P_budget (powerBudget p))"
    and "flt fzero (remainingRequiredRuntimeHours p) \<Longrightarrow>
         fle (P_auto_available (powerBudget p')) (fmax fzero (runtimeAllowanceWatts p))"
proof -
  let ?b = "powerBudget p" and ?b' = "powerBudget p'"
  have pos: "isFinitePositive (P_budget ?b)" "isFiniteNonNegative (P_reserve ?b)"
    "isFiniteNonNegative (P_fixed ?b)"
    using u by (auto simp: updatePowerBudget_def Let_def split: if_splits)
  obtain a c where a: "planningAllowance p = Some (a, c)"
    and avail: "P_auto_available ?b' = fmax fzero (fsub a (P_fixed ?b))"
    using u by (auto simp: updatePowerBudget_def Let_def split: if_splits option.splits)
  note bounds = planningAllowance_bounds [OF a ok pos(1,2)]
  have fixed: "fle fzero (P_fixed ?b)" and budget: "fle fzero (P_budget ?b)"
    using pos by (simp_all add: isFiniteNonNegative_def isFinitePositive_def flt_imp_fle)
  have sub: "fle (fsub a (P_fixed ?b)) a" using bounds fixed by (intro fsub_le) auto
  have upto: "fle (P_auto_available ?b') d" if "fle fzero d" "fle a d" for d
    unfolding avail using that sub by (intro fmax_zero_le) (auto intro: fle_trans)
  show "fle fzero (P_auto_available ?b')" by (simp add: avail)
  show "fle (P_auto_available ?b') (fmax fzero (fsub (P_budget ?b) (P_reserve ?b)))"
    using bounds by (intro upto) simp_all
  show "fle (P_auto_available ?b') (P_budget ?b)"
    using bounds fle_trans [of a _ "P_budget ?b"] by (intro upto budget) blast
  show "fle (P_auto_available ?b') (fmax fzero (runtimeAllowanceWatts p))"
    if "flt fzero (remainingRequiredRuntimeHours p)"
    using bounds that by (intro upto) simp_all
qed

text \<open>
  C39: A budget update keeps to the configured installation: when \<open>updatePowerBudget\<close> succeeds,
  the power the planner may use is not negative, at most the budget less the reserve (cut at
  0), at most the budget itself and, if there is a runtime target, at most the power that
  target allows; the remaining power lies between 0 and the budget; and the configured
  demands are untouched. When it fails, nothing at all is changed.
\<close>

theorem budget_update_bounds:
  assumes ok: "f32_ok (P_budget (powerBudget p))" and u: "updatePowerBudget p = (success, p')"
  shows "let b = powerBudget p; b' = powerBudget p' in
    if success
    then fle fzero (P_auto_available b') \<and>
      fle (P_auto_available b') (fmax fzero (fsub (P_budget b) (P_reserve b))) \<and>
      fle (P_auto_available b') (P_budget b) \<and>
      (flt fzero (remainingRequiredRuntimeHours p) \<longrightarrow>
         fle (P_auto_available b') (fmax fzero (runtimeAllowanceWatts p))) \<and>
      fle fzero (P_remaining b') \<and> fle (P_remaining b') (P_budget b) \<and>
      P_budget b' = P_budget b \<and> P_reserve b' = P_reserve b \<and> P_fixed b' = P_fixed b \<and>
      P_auto b' = P_auto b
    else p' = p"
proof (cases success)
  case False
  then show ?thesis using u by (auto simp: updatePowerBudget_def Let_def split: if_splits option.splits)
next
  case True
  let ?b = "powerBudget p" and ?b' = "powerBudget p'"
  have pos: "isFinitePositive (P_budget ?b)" "isFiniteNonNegative (P_reserve ?b)"
    "isFiniteNonNegative (P_fixed ?b)" "isFiniteNonNegative (P_auto ?b)"
    using u True by (auto simp: updatePowerBudget_def Let_def split: if_splits)
  have rest: "P_remaining ?b' = fmax fzero (fsub (P_budget ?b) (fadd (P_fixed ?b) (P_auto ?b)))"
    "P_budget ?b' = P_budget ?b" "P_reserve ?b' = P_reserve ?b" "P_fixed ?b' = P_fixed ?b"
    "P_auto ?b' = P_auto ?b"
    using u True by (auto simp: updatePowerBudget_def Let_def split: if_splits option.splits)
  have budget: "fisfinite (P_budget ?b)" "fle fzero (P_budget ?b)" and
    fixed: "fle fzero (P_fixed ?b)" "fle fzero (P_auto ?b)"
    using pos by (simp_all add: isFiniteNonNegative_def isFinitePositive_def flt_imp_fle)
  have "fle (fsub (P_budget ?b) (fadd (P_fixed ?b) (P_auto ?b))) (P_budget ?b)"
    by (rule fsub_le [OF budget(1) ok fadd_nonneg [OF fixed]])
  then have "fle (P_remaining ?b') (P_budget ?b)"
    unfolding rest(1) by (rule fmax_zero_le [OF budget(2)])
  moreover have "updatePowerBudget p = (True, p')" using u True by simp
  ultimately show ?thesis
    using True updatePowerBudget_available [OF _ ok] rest by (simp add: Let_def)
qed

definition example_power :: PowerManager where
  "example_power = new_PowerManager\<lparr>
     powerBudget := zero_budget\<lparr>P_budget := watts 500, P_reserve := watts 100, P_fixed := watts 60\<rparr>\<rparr>"

lemma example_updated:
  "updatePowerBudget example_power = (True, snd (updatePowerBudget example_power))"
  by (simp add: updatePowerBudget_def planningAllowance_def example_power_def new_PowerManager_def
      zero_budget_def isFinitePositive_def isFiniteNonNegative_def isStateOfChargeValid_def Let_def)
    (simp add: f32_eval)

theorem budget_update_bounds_witness:
  "fle (P_auto_available (powerBudget (snd (updatePowerBudget example_power)))) (watts 500) \<and>
   P_fixed (powerBudget (snd (updatePowerBudget example_power))) = watts 60"
proof -
  have "f32_ok (P_budget (powerBudget example_power))"
    by (simp add: example_power_def f32_ok_watts)
  from budget_update_bounds [OF this example_updated] show ?thesis
    by (simp add: Let_def) (simp add: example_power_def)
qed

lemma fdiv_nonneg_sign:
  "fle fzero x \<Longrightarrow> y = Finite False b \<or> y = Infinity False \<Longrightarrow> fdiv x y \<noteq> NaN \<Longrightarrow>
   fle fzero (fdiv x y)"
  by (cases x) (auto simp: fle_def make_f32_def round_ratio_def round_even_def Let_def split: if_splits)

lemma fmul_positive_sign:
  "\<exists>b. fmul (Finite False a) (Finite False n) = Finite False b \<or>
       fmul (Finite False a) (Finite False n) = Infinity False"
  by (auto simp: make_f32_def)

lemma fsub_zero_nonpos: "fle fzero y \<Longrightarrow> fle (fsub fzero y) fzero"
  by (rule fsub_le) (simp_all add: representable_def)

lemma fmax_zero_nonpos: "fle x fzero \<Longrightarrow> fmax fzero x = fzero"
  by (auto simp: fmax_def fle_def flt_def split: option.splits)

text \<open>
  At or below the minimum state of charge nothing is left for Auto Loads: a successful
  update publishes exactly 0 W as \<open>P_auto_available\<close>, whether or not there is a runtime
  target and however large the budget is, and with a runtime target and a demand of FIXED_ON
  Loads it reports the required runtime as not achievable.
\<close>

theorem low_charge_blocks_auto:
  assumes u: "updatePowerBudget p = (True, p')" and soc: "isStateOfChargeValid p"
    and low: "fle (stateOfChargePercent p) (minimumStateOfChargePercent (batteryConfiguration p))"
  shows "P_auto_available (powerBudget p') = fzero \<and>
    (flt fzero (remainingRequiredRuntimeHours p) \<and> flt fzero (P_fixed (powerBudget p)) \<longrightarrow>
       \<not> requiredRuntimeAchievable (powerBudget p'))"
proof -
  have "isFiniteNonNegative (P_fixed (powerBudget p))"
    using u by (auto simp: updatePowerBudget_def Let_def split: if_splits)
  then have "fle fzero (P_fixed (powerBudget p))" by (simp add: isFiniteNonNegative_def)
  then have zero: "fmax fzero (fsub fzero (P_fixed (powerBudget p))) = fzero"
    by (intro fmax_zero_nonpos fsub_zero_nonpos)
  obtain c where "planningAllowance p = Some (fzero, c)" and
    "flt fzero (remainingRequiredRuntimeHours p) \<and> flt fzero (P_fixed (powerBudget p)) \<longrightarrow> \<not> c"
    using u soc low
    by (auto simp: updatePowerBudget_def planningAllowance_def Let_def split: if_splits option.splits)
  then show ?thesis using u zero by (auto simp: updatePowerBudget_def Let_def split: if_splits)
qed

definition example_low :: PowerManager where
  "example_low = new_PowerManager\<lparr>
     powerBudget := zero_budget\<lparr>P_budget := watts 500\<rparr>,
     batteryConfiguration := \<lparr>nameplateVoltageVolts = fzero, capacityAmpHours = fzero,
                             minimumStateOfChargePercent = watts 20\<rparr>,
     stateOfChargePercent := watts 20, stateOfChargeInitialized := True,
     stateOfChargeSource := SOC_INITIAL\<rparr>"

lemma example_low_facts:
  "updatePowerBudget example_low = (True, snd (updatePowerBudget example_low))"
  "isStateOfChargeValid example_low"
  "fle (stateOfChargePercent example_low) (minimumStateOfChargePercent (batteryConfiguration example_low))"
  by (simp_all add: updatePowerBudget_def planningAllowance_def example_low_def new_PowerManager_def
      zero_budget_def isFinitePositive_def isFiniteNonNegative_def isStateOfChargeValid_def
      isValidPercent_def Let_def)
    (simp_all add: f32_eval)

theorem low_charge_blocks_auto_witness:
  "P_auto_available (powerBudget (snd (updatePowerBudget example_low))) = fzero \<and>
   P_budget (powerBudget example_low) = watts 500"
  using low_charge_blocks_auto [OF example_low_facts]
  by (simp add: example_low_def)

section \<open>Coulomb counting\<close>

lemma fnat_3600: "fnat 3600 = Finite False (3600 * one_units)"
  by (simp add: f32_eval)

text \<open>
  A discharge never raises the state of charge: an accepted update over any interval, with a
  measured current that is not negative, leaves a percentage that is at most the old one,
  also where an intermediate value overflows or has no value.
\<close>

theorem discharge_never_raises_charge:
  assumes u: "updateStateOfCharge dt p = (True, p')"
    and soc: "isValidPercent (stateOfChargePercent p)" "f32_ok (stateOfChargePercent p)"
    and current: "fle fzero (currentAmps (measurements p))"
  shows "isValidPercent (stateOfChargePercent p') \<and>
    fle (stateOfChargePercent p') (stateOfChargePercent p)"
proof -
  let ?soc = "stateOfChargePercent p"
  let ?num = "fmul (fmul (currentAmps (measurements p)) dt) fhundred"
  let ?den = "fmul (fnat 3600) (capacityAmpHours (batteryConfiguration p))"
  let ?rest = "fsub ?soc (fdiv ?num ?den)"
  have p': "stateOfChargePercent p' = clampStateOfCharge ?rest"
    and dt: "fle fzero dt" and cap: "flt fzero (capacityAmpHours (batteryConfiguration p))"
    using u by (auto simp: updateStateOfCharge_def Let_def isFinitePositive_def flt_imp_fle split: if_splits)
  have soc0: "fisfinite ?soc" "fle fzero ?soc" "fle ?soc fhundred"
    using soc by (simp_all add: isValidPercent_def)
  have "fle (clampStateOfCharge ?rest) ?soc"
  proof (cases "?rest = NaN")
    case True
    then have "clampStateOfCharge ?rest = fzero"
      by (simp add: clampStateOfCharge_def fmin_def fmax_def flt_def split: option.splits)
    then show ?thesis using soc0 by simp
  next
    case False
    then have change: "fdiv ?num ?den \<noteq> NaN" by (auto simp: fsub_def) (cases ?soc; auto)
    then have num: "?num \<noteq> NaN" and den: "?den \<noteq> NaN" by auto (cases ?num; auto)
    then have "fmul (currentAmps (measurements p)) dt \<noteq> NaN" by auto
    then have "fle fzero ?num" using current dt num by (simp add: fmul_nonneg)
    moreover obtain n where "capacityAmpHours (batteryConfiguration p) = Finite False n"
      using cap u by (cases "capacityAmpHours (batteryConfiguration p)")
        (auto simp: flt_def updateStateOfCharge_def isFinitePositive_def split: if_splits)
    then have "\<exists>b. ?den = Finite False b \<or> ?den = Infinity False"
      using fmul_positive_sign [of "3600 * one_units" n] by (simp add: fnat_3600)
    ultimately have "fle fzero (fdiv ?num ?den)" using change fdiv_nonneg_sign by blast
    then have "fle ?rest ?soc" using soc0 soc(2) by (intro fsub_le)
    moreover have "fle (fmin ?rest fhundred) ?rest" using False by (simp add: fmin_le_both)
    ultimately have "fle (fmin ?rest fhundred) ?soc" by (rule fle_trans [rotated])
    then show ?thesis unfolding clampStateOfCharge_def by (rule fmax_zero_le [OF soc0(2)])
  qed
  then show ?thesis using p' by simp
qed

definition example_discharge :: PowerManager where
  "example_discharge = example_low\<lparr>
     batteryConfiguration := \<lparr>nameplateVoltageVolts = watts 12, capacityAmpHours = watts 100,
                             minimumStateOfChargePercent = watts 20\<rparr>,
     measurements := \<lparr>voltageVolts = watts 12, currentAmps = watts 5, powerWatts = watts 60\<rparr>\<rparr>"

theorem discharge_never_raises_charge_witness:
  "\<exists>p'. updateStateOfCharge (watts 60) example_discharge = (True, p') \<and>
        isValidPercent (stateOfChargePercent p') \<and> fle (stateOfChargePercent p') (watts 20)"
proof -
  let ?r = "updateStateOfCharge (watts 60) example_discharge"
  have u: "?r = (True, snd ?r)"
    by (simp add: updateStateOfCharge_def example_discharge_def example_low_def isFinitePositive_def Let_def)
      (simp add: f32_eval)
  have "isValidPercent (stateOfChargePercent example_discharge)" "f32_ok (stateOfChargePercent example_discharge)"
    "fle fzero (currentAmps (measurements example_discharge))"
    by (simp_all add: example_discharge_def example_low_def isValidPercent_def f32_ok_watts)
      (simp_all add: f32_eval)
  from discharge_never_raises_charge [OF u this] u show ?thesis
    by (intro exI [of _ "snd ?r"]) (simp add: example_discharge_def example_low_def)
qed

text \<open>
  The state of charge survives a reboot: when persisting it succeeded, an initialisation that
  restores it starts from exactly that percentage, whatever starting value it is offered.
\<close>

theorem charge_roundtrip:
  assumes laws: "nvs_laws api" and ok: "f32_ok (stateOfChargePercent p)"
    and persist: "persistStateOfCharge api p n = (True, n')"
    and start: "isValidPercent starting"
  shows "\<exists>q'. initializeStateOfCharge api n' starting True q = (True, q') \<and>
    stateOfChargePercent q' = stateOfChargePercent p \<and> stateOfChargeSource q' = SOC_PERSISTED \<and>
    isStateOfChargeValid q'"
proof -
  let ?v = "stateOfChargePercent p"
  have valid: "isValidPercent ?v"
    using persist by (auto simp: persistStateOfCharge_def isStateOfChargeValid_def split: if_splits)
  obtain n1 where w: "nvs_set_u32 api ''soc'' (of_nat (f32_bits ?v)) n = (True, n1)"
    "nvs_commit api n1 = (True, n')"
    using persist by (auto simp: persistStateOfCharge_def persistStateOfChargeValue_def writeFloat_def
        nvs_then_True split: if_splits)
  have gets: "nvs_get_u32 api n' ''soc'' = Some (of_nat (f32_bits ?v))" "nvs_open_readonly api n'"
    using nvs_set_u32D [OF laws w(1)] nvs_commitD [OF laws w(2)] by simp_all
  have "f32_of_bits (unat (of_nat (f32_bits ?v) :: u32)) = ?v"
    using f32_bits_unpacked [OF ok] by (simp add: unsigned_of_nat take_bit_nat_eq_self)
  then have "loadPersistedStateOfCharge api n' = Some ?v"
    using gets valid by (simp add: loadPersistedStateOfCharge_def readFloat_def isValidPercent_def)
  then show ?thesis
    using start valid by (simp add: initializeStateOfCharge_def isStateOfChargeValid_def)
qed

theorem charge_roundtrip_witness:
  "\<exists>q'. initializeStateOfCharge ram_nvs (snd (persistStateOfCharge ram_nvs example_low (\<lambda>k. None)))
      (watts 90) True new_PowerManager = (True, q') \<and>
    stateOfChargePercent q' = watts 20 \<and> stateOfChargeSource q' = SOC_PERSISTED \<and>
    isStateOfChargeValid q'"
proof -
  have "f32_ok (stateOfChargePercent example_low)" by (simp add: example_low_def f32_ok_watts)
  moreover have "isValidPercent (stateOfChargePercent example_low)"
    using example_low_facts(2) by (simp add: isStateOfChargeValid_def)
  then have "persistStateOfCharge ram_nvs example_low (\<lambda>k. None) =
      (True, snd (persistStateOfCharge ram_nvs example_low (\<lambda>k. None)))"
    using example_low_facts(2)
    by (simp add: persistStateOfCharge_def persistStateOfChargeValue_def writeFloat_def ram_nvs_def)
  moreover have "isValidPercent (watts 90)" by (simp add: isValidPercent_def) (simp add: f32_eval)
  ultimately show ?thesis
    using charge_roundtrip [OF ram_nvs_laws, of example_low "\<lambda>k. None" _ "watts 90" new_PowerManager]
    by (simp add: example_low_def)
qed

end
