(* ===== verification/Central_Configuration.thy ===== *)
theory Central_Configuration
  imports Power_Manager
begin

unbundle bit_operations_syntax

text \<open>
  \<open>CentralConfigurationStore\<close> (\<open>lib/NodeManager/Central/CentralConfigurationStore.cpp\<close>): the
  battery, sensor and planning settings of Central and their persistence, with the older
  format in which one flag stood for the sensor and the battery data together. The settings
  are not packed: three padding bytes follow each one-byte field.
\<close>

section \<open>The settings\<close>

record BatterySensorConfiguration =
  ina219Configured :: bool
  batteryMetadataConfigured :: bool
  cfg_shuntResistanceOhms :: f32
  cfg_maximumExpectedCurrentAmps :: f32
  cfg_emaAlpha :: f32
  cfg_batteryCapacityAmpHours :: f32
  cfg_initialStateOfChargePercent :: f32
  cfg_nominalVoltageVolts :: f32

record PowerPlanningConfiguration =
  planning_configured :: bool
  planning_P_budget :: f32
  planning_P_reserve :: f32
  planning_minimumStateOfChargePercent :: f32
  planning_requiredRuntimeHours :: f32

record CentralConfiguration =
  batterySensor :: BatterySensorConfiguration
  powerPlanning :: PowerPlanningConfiguration

definition new_CentralConfiguration :: CentralConfiguration where
  "new_CentralConfiguration =
     \<lparr>batterySensor = \<lparr>ina219Configured = False, batteryMetadataConfigured = False,
        cfg_shuntResistanceOhms = fzero, cfg_maximumExpectedCurrentAmps = fzero,
        cfg_emaAlpha = flit 2 10, cfg_batteryCapacityAmpHours = fzero,
        cfg_initialStateOfChargePercent = fzero, cfg_nominalVoltageVolts = fzero\<rparr>,
      powerPlanning = \<lparr>planning_configured = False, planning_P_budget = fzero,
        planning_P_reserve = fzero, planning_minimumStateOfChargePercent = fzero,
        planning_requiredRuntimeHours = fzero\<rparr>\<rparr>"

definition isValidBatterySensor :: "BatterySensorConfiguration \<Rightarrow> bool" where
  "isValidBatterySensor c \<longleftrightarrow>
     (if ina219Configured c \<and>
         (\<not> fisfinite (cfg_shuntResistanceOhms c) \<or> fle (cfg_shuntResistanceOhms c) fzero \<or>
          \<not> fisfinite (cfg_maximumExpectedCurrentAmps c) \<or>
          fle (cfg_maximumExpectedCurrentAmps c) fzero \<or>
          \<not> fisfinite (cfg_emaAlpha c) \<or> fle (cfg_emaAlpha c) fzero \<or> flt fone (cfg_emaAlpha c))
      then False
      else if batteryMetadataConfigured c \<and>
         (\<not> fisfinite (cfg_batteryCapacityAmpHours c) \<or> fle (cfg_batteryCapacityAmpHours c) fzero \<or>
          \<not> isValidPercent (cfg_initialStateOfChargePercent c) \<or>
          \<not> fisfinite (cfg_nominalVoltageVolts c) \<or> fle (cfg_nominalVoltageVolts c) fzero)
      then False
      else True)"

definition isValidPowerPlanning :: "PowerPlanningConfiguration \<Rightarrow> bool" where
  "isValidPowerPlanning c \<longleftrightarrow>
     (if \<not> planning_configured c then True
      else fisfinite (planning_P_budget c) \<and> flt fzero (planning_P_budget c) \<and>
           fisfinite (planning_P_reserve c) \<and> fle fzero (planning_P_reserve c) \<and>
           fle (planning_P_reserve c) (planning_P_budget c) \<and>
           isValidPercent (planning_minimumStateOfChargePercent c) \<and>
           fisfinite (planning_requiredRuntimeHours c) \<and> fle fzero (planning_requiredRuntimeHours c))"

definition setBatterySensor ::
  "BatterySensorConfiguration \<Rightarrow> CentralConfiguration \<Rightarrow> bool \<times> CentralConfiguration" where
  "setBatterySensor c cfg =
     (if \<not> isValidBatterySensor c then (False, cfg) else (True, cfg\<lparr>batterySensor := c\<rparr>))"

definition setPowerPlanning ::
  "PowerPlanningConfiguration \<Rightarrow> CentralConfiguration \<Rightarrow> bool \<times> CentralConfiguration" where
  "setPowerPlanning c cfg =
     (if \<not> isValidPowerPlanning c then (False, cfg) else (True, cfg\<lparr>powerPlanning := c\<rparr>))"

section \<open>Persistence\<close>

definition SAVED_VERSION :: u8 where "SAVED_VERSION = 8"
definition PREVIOUS_SAVED_VERSION :: u8 where "PREVIOUS_SAVED_VERSION = 7"
definition INA219_CONFIGURED_FLAG :: u8 where "INA219_CONFIGURED_FLAG = 1"
definition BATTERY_METADATA_CONFIGURED_FLAG :: u8 where "BATTERY_METADATA_CONFIGURED_FLAG = 2"
definition SAVED_SIZE :: nat where "SAVED_SIZE = 48"

definition battery_flags :: "BatterySensorConfiguration \<Rightarrow> u8" where
  "battery_flags c =
     (if ina219Configured c then INA219_CONFIGURED_FLAG else 0) OR
     (if batteryMetadataConfigured c then BATTERY_METADATA_CONFIGURED_FLAG else 0)"

definition configuration_bytes :: "CentralConfiguration \<Rightarrow> u8 list" where
  "configuration_bytes cfg =
     (let b = batterySensor cfg; p = powerPlanning cfg
      in [battery_flags b, 0, 0, 0] @
         f32_bytes (cfg_shuntResistanceOhms b) @ f32_bytes (cfg_maximumExpectedCurrentAmps b) @
         f32_bytes (cfg_emaAlpha b) @ f32_bytes (cfg_batteryCapacityAmpHours b) @
         f32_bytes (cfg_initialStateOfChargePercent b) @ f32_bytes (cfg_nominalVoltageVolts b) @
         [bool_byte (planning_configured p), 0, 0, 0] @
         f32_bytes (planning_P_budget p) @ f32_bytes (planning_P_reserve p) @
         f32_bytes (planning_minimumStateOfChargePercent p) @
         f32_bytes (planning_requiredRuntimeHours p))"

definition float_at :: "nat \<Rightarrow> u8 list \<Rightarrow> f32" where
  "float_at i bs = f32_of_bytes (take 4 (drop i bs))"

definition restored_configuration :: "u8 \<Rightarrow> u8 list \<Rightarrow> CentralConfiguration" where
  "restored_configuration version bs =
     (let flags = bs ! 0;
          ina = (if version = PREVIOUS_SAVED_VERSION then flags \<noteq> 0
                 else flags AND INA219_CONFIGURED_FLAG \<noteq> 0);
          metadata = (if version = PREVIOUS_SAVED_VERSION then flags \<noteq> 0
                      else flags AND BATTERY_METADATA_CONFIGURED_FLAG \<noteq> 0)
      in \<lparr>batterySensor = \<lparr>ina219Configured = ina, batteryMetadataConfigured = metadata,
            cfg_shuntResistanceOhms = float_at 4 bs,
            cfg_maximumExpectedCurrentAmps = float_at 8 bs, cfg_emaAlpha = float_at 12 bs,
            cfg_batteryCapacityAmpHours = float_at 16 bs,
            cfg_initialStateOfChargePercent = float_at 20 bs,
            cfg_nominalVoltageVolts = float_at 24 bs\<rparr>,
          powerPlanning = \<lparr>planning_configured = (bs ! 28 \<noteq> 0),
            planning_P_budget = float_at 32 bs, planning_P_reserve = float_at 36 bs,
            planning_minimumStateOfChargePercent = float_at 40 bs,
            planning_requiredRuntimeHours = float_at 44 bs\<rparr>\<rparr>)"

definition central_loadPersisted ::
  "'n NvsApi \<Rightarrow> 'n \<Rightarrow> CentralConfiguration \<Rightarrow> bool \<times> CentralConfiguration" where
  "central_loadPersisted api n cfg =
     (if \<not> nvs_open_readonly api n then (False, cfg)
      else case nvs_get_u8 api n ''cfg_ver'' of
        None \<Rightarrow> (False, cfg)
      | Some version \<Rightarrow>
          if version \<noteq> SAVED_VERSION \<and> version \<noteq> PREVIOUS_SAVED_VERSION then (False, cfg)
          else case nvs_get_blob api n ''cfg'' of
            None \<Rightarrow> (False, cfg)
          | Some bs \<Rightarrow>
              if length bs \<noteq> SAVED_SIZE then (False, cfg)
              else let restored = restored_configuration version bs
                   in if \<not> isValidBatterySensor (batterySensor restored) \<or>
                         \<not> isValidPowerPlanning (powerPlanning restored)
                      then (False, cfg) else (True, restored))"

definition central_persist :: "'n NvsApi \<Rightarrow> CentralConfiguration \<Rightarrow> 'n \<Rightarrow> bool \<times> 'n" where
  "central_persist api cfg n =
     (if \<not> isValidBatterySensor (batterySensor cfg) \<or> \<not> isValidPowerPlanning (powerPlanning cfg)
      then (False, n)
      else if \<not> nvs_open_readwrite api n then (False, n)
      else nvs_then
             (nvs_then (nvs_set_u8 api ''cfg_ver'' SAVED_VERSION n)
                (nvs_set_blob api ''cfg'' (configuration_bytes cfg)))
             (nvs_commit api))"

section \<open>The stored settings are always valid\<close>

definition central_ok :: "CentralConfiguration \<Rightarrow> bool" where
  "central_ok cfg \<longleftrightarrow> isValidBatterySensor (batterySensor cfg) \<and> isValidPowerPlanning (powerPlanning cfg)"

datatype 'n central_op =
  SetBatterySensor BatterySensorConfiguration | SetPowerPlanning PowerPlanningConfiguration
| LoadPersistedConfiguration 'n

fun central_step :: "'n NvsApi \<Rightarrow> 'n central_op \<Rightarrow> CentralConfiguration \<Rightarrow> CentralConfiguration" where
  "central_step api (SetBatterySensor c) cfg = snd (setBatterySensor c cfg)"
| "central_step api (SetPowerPlanning c) cfg = snd (setPowerPlanning c cfg)"
| "central_step api (LoadPersistedConfiguration n) cfg = snd (central_loadPersisted api n cfg)"

lemma new_CentralConfiguration_ok: "central_ok new_CentralConfiguration"
  by (simp add: central_ok_def new_CentralConfiguration_def isValidBatterySensor_def isValidPowerPlanning_def)

lemma central_step_ok: "central_ok cfg \<Longrightarrow> central_ok (central_step api op cfg)"
  by (cases op)
    (auto simp: central_ok_def setBatterySensor_def setPowerPlanning_def central_loadPersisted_def
      Let_def split: option.splits)

section \<open>Round trip\<close>

definition floats_ok :: "CentralConfiguration \<Rightarrow> bool" where
  "floats_ok cfg \<longleftrightarrow>
     (let b = batterySensor cfg; p = powerPlanning cfg
      in list_all f32_ok
           [cfg_shuntResistanceOhms b, cfg_maximumExpectedCurrentAmps b, cfg_emaAlpha b,
            cfg_batteryCapacityAmpHours b, cfg_initialStateOfChargePercent b,
            cfg_nominalVoltageVolts b, planning_P_budget p, planning_P_reserve p,
            planning_minimumStateOfChargePercent p, planning_requiredRuntimeHours p])"

lemma saved_slices:
  assumes "length f1 = 4" "length f2 = 4" "length f3 = 4" "length f4 = 4" "length f5 = 4"
    "length f6 = 4" "length f7 = 4" "length f8 = 4" "length f9 = 4" "length f10 = 4"
    and "bs = [a, 0, 0, 0] @ f1 @ f2 @ f3 @ f4 @ f5 @ f6 @ [b, 0, 0, 0] @ f7 @ f8 @ f9 @ f10"
  shows "length bs = 48" "bs ! 0 = a" "bs ! 28 = b"
    "take 4 (drop 4 bs) = f1" "take 4 (drop 8 bs) = f2" "take 4 (drop 12 bs) = f3"
    "take 4 (drop 16 bs) = f4" "take 4 (drop 20 bs) = f5" "take 4 (drop 24 bs) = f6"
    "take 4 (drop 32 bs) = f7" "take 4 (drop 36 bs) = f8" "take 4 (drop 40 bs) = f9"
    "take 4 (drop 44 bs) = f10"
  using assms(1-10) by (simp_all add: assms(11) nth_append)

lemma flags_read:
  "(battery_flags c AND INA219_CONFIGURED_FLAG \<noteq> 0) = ina219Configured c"
  "(battery_flags c AND BATTERY_METADATA_CONFIGURED_FLAG \<noteq> 0) = batteryMetadataConfigured c"
  by (simp_all add: battery_flags_def INA219_CONFIGURED_FLAG_def BATTERY_METADATA_CONFIGURED_FLAG_def)

lemma configuration_bytes_read:
  assumes "floats_ok cfg"
  shows "length (configuration_bytes cfg) = SAVED_SIZE"
    and "restored_configuration SAVED_VERSION (configuration_bytes cfg) = cfg"
proof -
  note slices = saved_slices [OF length_f32_bytes length_f32_bytes length_f32_bytes length_f32_bytes
      length_f32_bytes length_f32_bytes length_f32_bytes length_f32_bytes length_f32_bytes
      length_f32_bytes configuration_bytes_def [of cfg, unfolded Let_def]]
  show "length (configuration_bytes cfg) = SAVED_SIZE" by (simp only: slices(1) SAVED_SIZE_def)
  have v: "(SAVED_VERSION = PREVIOUS_SAVED_VERSION) = False"
    by (simp add: SAVED_VERSION_def PREVIOUS_SAVED_VERSION_def)
  have b: "(bool_byte (planning_configured (powerPlanning cfg)) \<noteq> 0) = planning_configured (powerPlanning cfg)"
    by (simp add: bool_byte_def)
  show "restored_configuration SAVED_VERSION (configuration_bytes cfg) = cfg"
    unfolding restored_configuration_def Let_def float_at_def slices v if_False flags_read b
    using assms by (simp add: floats_ok_def Let_def)
qed

lemma central_run_ok: "central_ok (fold (central_step api) ops new_CentralConfiguration)"
  by (induction ops rule: rev_induct) (simp_all add: new_CentralConfiguration_ok central_step_ok)

text \<open>
  C40: Central's settings are always valid and survive a reboot. Starting from the defaults, after
  any settings, rejected ones included, and any loads from storages with any content, the settings
  in force pass both validations, whether they are persisted or not; and when persisting them
  succeeded (with every float a value of binary32), loading gives back exactly these settings.
\<close>

theorem central_settings_valid_and_restored:
  assumes laws: "nvs_laws api" and cfg: "cfg = fold (central_step api) ops new_CentralConfiguration"
  shows "isValidBatterySensor (batterySensor cfg) \<and> isValidPowerPlanning (powerPlanning cfg) \<and>
    (floats_ok cfg \<and> central_persist api cfg n = (True, n') \<longrightarrow> central_loadPersisted api n' other = (True, cfg))"
proof -
  have ok: "isValidBatterySensor (batterySensor cfg)" "isValidPowerPlanning (powerPlanning cfg)"
    using central_run_ok [of api ops] by (simp_all add: cfg central_ok_def)
  have "central_loadPersisted api n' other = (True, cfg)"
    if floats: "floats_ok cfg" and persist: "central_persist api cfg n = (True, n')"
  proof -
    obtain n1 n2 where w: "nvs_set_u8 api ''cfg_ver'' SAVED_VERSION n = (True, n1)"
      "nvs_set_blob api ''cfg'' (configuration_bytes cfg) n1 = (True, n2)" "nvs_commit api n2 = (True, n')"
      using persist by (auto simp: central_persist_def nvs_then_True split: if_splits)
    have "nvs_get_u8 api n' ''cfg_ver'' = Some SAVED_VERSION"
      "nvs_get_blob api n' ''cfg'' = Some (configuration_bytes cfg)" "nvs_open_readonly api n'"
      using nvs_set_u8D [OF laws w(1)] nvs_set_blobD [OF laws w(2)] nvs_commitD [OF laws w(3)]
        nvs_same_butD [of api "''cfg''" n1 n2 "''cfg_ver''"] by simp_all
    then show ?thesis using ok configuration_bytes_read [OF floats] by (simp add: central_loadPersisted_def)
  qed
  with ok show ?thesis by blast
qed

definition example_settings :: CentralConfiguration where
  "example_settings = fold (central_step ram_nvs)
     [SetPowerPlanning \<lparr>planning_configured = True, planning_P_budget = watts 500,
        planning_P_reserve = watts 50, planning_minimumStateOfChargePercent = watts 20,
        planning_requiredRuntimeHours = fzero\<rparr>] new_CentralConfiguration"

lemma example_planning_valid:
  "isValidPowerPlanning \<lparr>planning_configured = True, planning_P_budget = watts 500,
     planning_P_reserve = watts 50, planning_minimumStateOfChargePercent = watts 20,
     planning_requiredRuntimeHours = fzero\<rparr>"
  by (simp add: isValidPowerPlanning_def isValidPercent_def) (simp add: f32_eval)

lemma example_settings_eq:
  "example_settings = new_CentralConfiguration\<lparr>powerPlanning :=
     \<lparr>planning_configured = True, planning_P_budget = watts 500, planning_P_reserve = watts 50,
      planning_minimumStateOfChargePercent = watts 20, planning_requiredRuntimeHours = fzero\<rparr>\<rparr>"
  using example_planning_valid by (simp add: example_settings_def setPowerPlanning_def)

theorem central_settings_valid_and_restored_witness:
  "isValidPowerPlanning (powerPlanning example_settings) \<and>
   central_loadPersisted ram_nvs (snd (central_persist ram_nvs example_settings (\<lambda>k. None)))
     new_CentralConfiguration = (True, example_settings) \<and>
   planning_P_budget (powerPlanning example_settings) = watts 500"
proof -
  have floats: "floats_ok example_settings"
    by (simp add: example_settings_eq floats_ok_def Let_def new_CentralConfiguration_def f32_ok_watts)
  have "central_ok example_settings"
    using example_planning_valid new_CentralConfiguration_ok
    by (simp add: example_settings_eq central_ok_def)
  then have "central_persist ram_nvs example_settings (\<lambda>k. None) =
      (True, snd (central_persist ram_nvs example_settings (\<lambda>k. None)))"
    by (simp add: central_persist_def central_ok_def ram_nvs_def)
  with central_settings_valid_and_restored [OF ram_nvs_laws example_settings_def] floats
  have "isValidPowerPlanning (powerPlanning example_settings)"
    "central_loadPersisted ram_nvs (snd (central_persist ram_nvs example_settings (\<lambda>k. None)))
       new_CentralConfiguration = (True, example_settings)" by blast+
  then show ?thesis by (simp add: example_settings_eq)
qed

end
