(* ===== verification/Routing.thy ===== *)
theory Routing
  imports Node_Registry
begin

text \<open>
  \<open>findNextHopFromCentral\<close> (\<open>src/central/namespace.h\<close>): from the next hops the Smart Nodes
  report, the neighbour of Central that a packet to a Smart Node is handed to.
\<close>

section \<open>The search\<close>

text \<open>
  The loop over \<open>depth\<close>, from the destination along the next hops towards Central; the
  counter is the number of turns left.
\<close>

fun followNextHops ::
  "nat \<Rightarrow> MacAddress \<Rightarrow> CentralNodeRegistry \<Rightarrow> PlanningNode \<Rightarrow> MacAddress option" where
  "followNextHops 0 centralMac ns current = None"
| "followNextHops (Suc turns) centralMac ns current =
     (if plan_nextHop current = centralMac then Some (plan_mac current)
      else case findNodeByMacAddress (plan_nextHop current) ns of
        None \<Rightarrow> None
      | Some pn \<Rightarrow> if plan_isCentralNode pn then None else followNextHops turns centralMac ns pn)"

definition findNextHopFromCentral ::
  "MacAddress \<Rightarrow> MacAddress \<Rightarrow> CentralNodeRegistry \<Rightarrow> MacAddress option" where
  "findNextHopFromCentral centralMac destinationMac ns =
     (case findNodeByMacAddress destinationMac ns of
        None \<Rightarrow> None
      | Some current \<Rightarrow>
          if plan_isCentralNode current then None
          else followNextHops (length ns + 1) centralMac ns current)"

section \<open>It finds the route if there is one\<close>

text \<open>
  Following the next hops from a Node, the last Node before Central after \<open>k\<close> hops.
\<close>

inductive leads ::
  "MacAddress \<Rightarrow> CentralNodeRegistry \<Rightarrow> nat \<Rightarrow> PlanningNode \<Rightarrow> MacAddress \<Rightarrow> bool"
  for centralMac ns where
  neighbour: "plan_nextHop pn = centralMac \<Longrightarrow> leads centralMac ns 0 pn (plan_mac pn)"
| hop: "plan_nextHop pn \<noteq> centralMac \<Longrightarrow> findNodeByMacAddress (plan_nextHop pn) ns = Some pn' \<Longrightarrow>
    \<not> plan_isCentralNode pn' \<Longrightarrow> leads centralMac ns k pn' mac \<Longrightarrow> leads centralMac ns (Suc k) pn mac"

inductive_cases leadsE: "leads centralMac ns k pn mac"

lemma leads_unique: "leads cm ns k pn mac \<Longrightarrow> leads cm ns k' pn mac' \<Longrightarrow> k = k' \<and> mac = mac'"
proof (induction arbitrary: k' mac' rule: leads.induct)
  case (neighbour pn)
  then show ?case by (auto elim: leadsE)
next
  case (hop pn pn' k mac)
  from hop.prems hop.hyps(1,2) obtain k'' where "k' = Suc k''" "leads cm ns k'' pn' mac'"
    by (auto elim: leadsE)
  with hop.IH show ?case by blast
qed

lemma followNextHops_leads:
  "followNextHops turns cm ns pn = Some mac \<longleftrightarrow> (\<exists>k < turns. leads cm ns k pn mac)"
proof (induction turns arbitrary: pn)
  case (Suc turns)
  show ?case
  proof (cases "plan_nextHop pn = cm")
    case True
    then show ?thesis by (auto intro: leads.neighbour elim: leadsE)
  next
    case False
    have "(\<exists>k < Suc turns. leads cm ns k pn mac) \<longleftrightarrow>
      (\<exists>pn'. findNodeByMacAddress (plan_nextHop pn) ns = Some pn' \<and> \<not> plan_isCentralNode pn' \<and>
        (\<exists>k < turns. leads cm ns k pn' mac))" (is "?l = ?r")
    proof
      assume ?l
      then obtain k where k: "k < Suc turns" "leads cm ns k pn mac" by blast
      from k(2) show ?r by (rule leadsE) (use k(1) False in auto)
    next
      assume ?r
      then obtain pn' k where "k < turns" "leads cm ns (Suc k) pn mac" using leads.hop [OF False] by blast
      then show ?l by auto
    qed
    with False Suc.IH show ?thesis by (auto split: option.splits)
  qed
qed simp

text \<open>A chain never meets a Node twice, so it is no longer than the registry.\<close>

lemma leads_visits:
  "leads cm ns k pn mac \<Longrightarrow> pn \<in> set ns \<Longrightarrow>
   \<exists>xs. length xs = Suc k \<and> distinct xs \<and> set xs \<subseteq> set ns \<and> (\<forall>x \<in> set xs. \<exists>j \<le> k. leads cm ns j x mac)"
proof (induction rule: leads.induct)
  case (neighbour pn)
  then show ?case by (intro exI [of _ "[pn]"]) (auto intro: leads.neighbour)
next
  case (hop pn pn' k mac)
  have "pn' \<in> set ns" using hop.hyps(2) by (auto simp: findNodeByMacAddress_def dest: find_Some_in)
  with hop.IH obtain xs where xs: "length xs = Suc k" "distinct xs" "set xs \<subseteq> set ns"
    "\<forall>x \<in> set xs. \<exists>j \<le> k. leads cm ns j x mac" by blast
  have full: "leads cm ns (Suc k) pn mac" using hop.hyps by (rule leads.hop)
  have "pn \<notin> set xs" using xs(4) leads_unique [OF full] by fastforce
  moreover have "\<exists>j \<le> Suc k. leads cm ns j x mac" if "x \<in> set xs" for x
    using xs(4) that le_SucI by blast
  ultimately show ?case
    using xs(1-3) hop.prems full by (intro exI [of _ "pn # xs"]) auto
qed

lemma leads_bound: "leads cm ns k pn mac \<Longrightarrow> pn \<in> set ns \<Longrightarrow> k < length ns"
  using leads_visits [of cm ns k pn mac] card_mono [of "set ns"] card_length [of ns] distinct_card
  by (metis List.finite_set Suc_le_eq le_trans)

text \<open>
  Routing is exact: \<open>findNextHopFromCentral\<close> finds a neighbour of Central if and only if the
  destination is a known Smart Node from which the reported next hops lead to Central through
  known Smart Nodes, and the neighbour it returns is the last of them. The bound on the loop
  never cuts a chain off, and next hops that run in a circle are answered with no route.
\<close>

theorem findNextHopFromCentral_iff:
  "findNextHopFromCentral centralMac destinationMac ns = Some mac \<longleftrightarrow>
   (\<exists>pn k. findNodeByMacAddress destinationMac ns = Some pn \<and> \<not> plan_isCentralNode pn \<and>
      leads centralMac ns k pn mac)"
proof -
  have "(\<exists>k < Suc (length ns). leads centralMac ns k pn mac) \<longleftrightarrow> (\<exists>k. leads centralMac ns k pn mac)"
    if "findNodeByMacAddress destinationMac ns = Some pn" for pn
  proof -
    have "pn \<in> set ns" using that by (auto simp: findNodeByMacAddress_def dest: find_Some_in)
    then show ?thesis using leads_bound less_SucI by blast
  qed
  then show ?thesis
    by (auto simp: findNextHopFromCentral_def followNextHops_leads simp del: followNextHops.simps
        split: option.splits)
qed

end
