(* ===== verification/Central_Planning.thy ===== *)
theory Central_Planning
  imports Best_First Commissioning Load_Config Dispatcher Load_Hardware Central_Configuration
begin

text \<open>
  The planning half of the Central Node's firmware (\<open>src/central/namespace.h\<close>): its global
  state and the optimisation cycle from the stored settings to the relay targets. The mutex around
  every critical section is taken as obtained; where it is not, the code returns without a change.
\<close>

section \<open>The global state of Central\<close>

record PlanningSnapshot =
  snap_budgetValid :: bool
  snap_budget :: PowerBudget
  snap_fixedOnCount :: nat
  snap_fixedOffCount :: nat
  snap_automaticCandidateCount :: nat
  snap_automaticSelectedCount :: nat

definition new_PlanningSnapshot :: PlanningSnapshot where
  "new_PlanningSnapshot =
     \<lparr>snap_budgetValid = False, snap_budget = zero_budget, snap_fixedOnCount = 0,
      snap_fixedOffCount = 0, snap_automaticCandidateCount = 0, snap_automaticSelectedCount = 0\<rparr>"

record PendingHardwareCommand =
  phc_commandId :: u32
  phc_nodeMacAddress :: MacAddress
  phc_relayPin :: u8
  phc_remove :: bool

text \<open>
  The globals of the source, with the storage of each NVS namespace beside them: \<open>'g\<close> is the
  state of the GPIO driver, \<open>'n\<close> that of a namespace, \<open>'i\<close> that of the I2C bus.
\<close>

record ('g, 'n, 'i) Central =
  batteryMonitor :: PowerManager
  centralConfigurationStore :: CentralConfiguration
  centralLoadConfigurationStore :: LoadConfigurationStore
  registry :: CentralNodeRegistry
  commissioningRegistry :: NodeCommissioningRegistry
  relayCommandDispatcher :: RelayCommandDispatcher
  localHardware :: "('g, 'n) NodeHardware"
  latestBatteryMeasurements :: PowerMeasurements
  batteryReadingValid :: bool
  batteryReadingMilliseconds :: u32
  lastOptimizationEpochSeconds :: int
  relayCommandErrorCount :: u32
  optimizerIntervalMilliseconds :: u32
  latestPlanningSnapshot :: PlanningSnapshot
  runtimeTargetReferenceHours :: f32
  runtimeTargetReferenceEpochSeconds :: int
  runtimeTargetReferenceValid :: bool
  pendingHardwareCommands :: "PendingHardwareCommand list"
  nextConsoleCommandId :: u32
  settings_nvs :: 'n
  loads_nvs :: 'n
  commissioning_nvs :: 'n
  battery_nvs :: 'n
  optimizer_nvs :: 'n
  i2c_bus :: 'i

text \<open>What the tick counter, the clock provider and \<open>std::time\<close> answer.\<close>

record Clock =
  nowMilliseconds :: u32
  currentTimeValid :: bool
  nowEpochSeconds :: int
  localClock :: LocalClock

definition NODE_REPORT_TIMEOUT_MILLISECONDS :: u32 where "NODE_REPORT_TIMEOUT_MILLISECONDS = 10000"
definition BATTERY_TELEMETRY_STALE_TIMEOUT_MILLISECONDS :: u32 where
  "BATTERY_TELEMETRY_STALE_TIMEOUT_MILLISECONDS = 5000"
definition DEFAULT_OPTIMIZATION_PERIOD_MILLISECONDS :: u32 where
  "DEFAULT_OPTIMIZATION_PERIOD_MILLISECONDS = 300000"
definition MIN_OPTIMIZATION_PERIOD_MILLISECONDS :: u32 where
  "MIN_OPTIMIZATION_PERIOD_MILLISECONDS = 5000"
definition MAX_OPTIMIZATION_PERIOD_MILLISECONDS :: u32 where
  "MAX_OPTIMIZATION_PERIOD_MILLISECONDS = 86400000"

definition new_Central :: "MacAddress \<Rightarrow> 'g \<Rightarrow> 'n \<Rightarrow> 'i \<Rightarrow> ('g, 'n, 'i) Central" where
  "new_Central mac g n i =
     \<lparr>batteryMonitor = new_PowerManager, centralConfigurationStore = new_CentralConfiguration,
      centralLoadConfigurationStore = [], registry = [], commissioningRegistry = [],
      relayCommandDispatcher = new_RelayCommandDispatcher, localHardware = new_NodeHardware mac g n,
      latestBatteryMeasurements = zero_measurements, batteryReadingValid = False,
      batteryReadingMilliseconds = 0, lastOptimizationEpochSeconds = 0, relayCommandErrorCount = 0,
      optimizerIntervalMilliseconds = DEFAULT_OPTIMIZATION_PERIOD_MILLISECONDS,
      latestPlanningSnapshot = new_PlanningSnapshot, runtimeTargetReferenceHours = fzero,
      runtimeTargetReferenceEpochSeconds = 0, runtimeTargetReferenceValid = False,
      pendingHardwareCommands = [], nextConsoleCommandId = 0x80000000,
      settings_nvs = n, loads_nvs = n, commissioning_nvs = n, battery_nvs = n, optimizer_nvs = n,
      i2c_bus = i\<rparr>"

section \<open>The optimiser interval and the runtime target\<close>

definition isValidOptimizerIntervalSeconds :: "u32 \<Rightarrow> bool" where
  "isValidOptimizerIntervalSeconds seconds \<longleftrightarrow>
     seconds \<ge> MIN_OPTIMIZATION_PERIOD_MILLISECONDS div 1000 \<and>
     seconds \<le> MAX_OPTIMIZATION_PERIOD_MILLISECONDS div 1000"

definition loadOptimizerIntervalConfiguration ::
  "'n NvsApi \<Rightarrow> ('g, 'n, 'i) Central \<Rightarrow> ('g, 'n, 'i) Central" where
  "loadOptimizerIntervalConfiguration api c =
     (if \<not> nvs_open_readonly api (optimizer_nvs c) then c
      else case nvs_get_u32 api (optimizer_nvs c) ''interval_s'' of
        None \<Rightarrow> c
      | Some saved \<Rightarrow>
          if isValidOptimizerIntervalSeconds saved
          then c\<lparr>optimizerIntervalMilliseconds := saved * 1000\<rparr> else c)"

definition saveOptimizerIntervalSeconds ::
  "'n NvsApi \<Rightarrow> u32 \<Rightarrow> ('g, 'n, 'i) Central \<Rightarrow> bool \<times> ('g, 'n, 'i) Central" where
  "saveOptimizerIntervalSeconds api seconds c =
     (if \<not> isValidOptimizerIntervalSeconds seconds then (False, c)
      else if \<not> nvs_open_readwrite api (optimizer_nvs c) then (False, c)
      else case nvs_then (nvs_set_u32 api ''interval_s'' seconds (optimizer_nvs c)) (nvs_commit api) of
        (ok, n) \<Rightarrow>
          if \<not> ok then (False, c\<lparr>optimizer_nvs := n\<rparr>)
          else (True, c\<lparr>optimizer_nvs := n, optimizerIntervalMilliseconds := seconds * 1000\<rparr>))"

text \<open>
  The hours left of the runtime target, counted from the moment the target was first planned
  with. The epoch seconds are far from the bounds of \<open>int64_t\<close>: they are integers here.
\<close>

definition computeRemainingRequiredRuntimeHours ::
  "f32 \<Rightarrow> bool \<Rightarrow> int \<Rightarrow> ('g, 'n, 'i) Central \<Rightarrow> f32 \<times> ('g, 'n, 'i) Central" where
  "computeRemainingRequiredRuntimeHours configured timeValid nowEpoch c =
     (if fle configured fzero then (fzero, c)
      else if \<not> timeValid then (configured, c)
      else
        let c1 = (if \<not> runtimeTargetReferenceValid c \<or>
                     \<not> feq (runtimeTargetReferenceHours c) configured
                  then c\<lparr>runtimeTargetReferenceHours := configured,
                         runtimeTargetReferenceEpochSeconds := nowEpoch,
                         runtimeTargetReferenceValid := True\<rparr>
                  else c);
            elapsedHours = fdiv (fint (nowEpoch - runtimeTargetReferenceEpochSeconds c1)) (fnat 3600);
            remainingHours = fsub configured elapsedHours
        in (if flt fzero remainingHours then remainingHours else fzero, c1))"

definition allocateConsoleCommandId :: "('g, 'n, 'i) Central \<Rightarrow> u32 \<times> ('g, 'n, 'i) Central" where
  "allocateConsoleCommandId c =
     (let i = nextConsoleCommandId c + 1;
          i' = (if i = 0 then 0x80000001 else i)
      in (i', c\<lparr>nextConsoleCommandId := i'\<rparr>))"

section \<open>Which Nodes take part\<close>

definition isCommissionedLifecycle :: "NodeLifecycleState \<Rightarrow> bool" where
  "isCommissionedLifecycle s \<longleftrightarrow> s = COMMISSIONED \<or> s = OPERATIONAL"

definition isNodeOnline :: "PlanningNode \<Rightarrow> u32 \<Rightarrow> bool" where
  "isNodeOnline pn now \<longleftrightarrow>
     plan_isCentralNode pn \<or> now - plan_lastSeen pn \<le> NODE_REPORT_TIMEOUT_MILLISECONDS"

definition isCommissionedSmartNode :: "MacAddress \<Rightarrow> NodeCommissioningRegistry \<Rightarrow> bool" where
  "isCommissionedSmartNode mac rs =
     (case findByMac mac rs of
        None \<Rightarrow> False
      | Some r \<Rightarrow> rec_role r = SMART \<and> isCommissionedLifecycle (rec_lifecycleState r))"

definition batteryTelemetryIsFresh :: "u32 \<Rightarrow> ('g, 'n, 'i) Central \<Rightarrow> bool" where
  "batteryTelemetryIsFresh now c \<longleftrightarrow>
     batteryReadingValid c \<and>
     now - batteryReadingMilliseconds c \<le> BATTERY_TELEMETRY_STALE_TIMEOUT_MILLISECONDS"

section \<open>Loads by position and by owner\<close>

text \<open>
  A \<open>const Load*\<close> of the source points into the registry; here it is the position of the Node
  and the position of the Load on it. No Load is added or removed during a cycle.
\<close>

type_synonym load_ptr = "nat \<times> nat"

definition getLoadAt :: "CentralNodeRegistry \<Rightarrow> load_ptr \<Rightarrow> Load option" where
  "getLoadAt ns = (\<lambda>(i, j).
     if i < length ns \<and> j < length (node_loads (plan_node (ns ! i)))
     then Some (node_loads (plan_node (ns ! i)) ! j) else None)"

definition pointersOf :: "CentralNodeRegistry \<Rightarrow> nat \<Rightarrow> load_ptr list" where
  "pointersOf ns i = map (Pair i) [0..<length (node_loads (plan_node (ns ! i)))]"

definition findMutableLoad :: "MacAddress \<Rightarrow> u8 \<Rightarrow> CentralNodeRegistry \<Rightarrow> Load option" where
  "findMutableLoad mac pin ns =
     (case findNodeByMacAddress mac ns of
        None \<Rightarrow> None
      | Some pn \<Rightarrow> getLoadByRelayPin pin (plan_node pn))"

text \<open>Writing through the pointer \<open>findMutableLoad\<close> returns; nothing where it is null.\<close>

definition writeMutableLoad ::
  "MacAddress \<Rightarrow> u8 \<Rightarrow> (Load \<Rightarrow> Load) \<Rightarrow> CentralNodeRegistry \<Rightarrow> CentralNodeRegistry" where
  "writeMutableLoad mac pin f ns =
     update_first (\<lambda>pn. plan_mac pn = mac) (\<lambda>pn. pn\<lparr>plan_node := updateLoad pin f (plan_node pn)\<rparr>) ns"

definition writeThrough :: "(Load \<Rightarrow> Load) \<Rightarrow> load_ptr \<Rightarrow> CentralNodeRegistry \<Rightarrow> CentralNodeRegistry" where
  "writeThrough f p ns =
     (case getLoadAt ns p of
        None \<Rightarrow> ns
      | Some l \<Rightarrow> writeMutableLoad (getMacAddress l) (getRelayPin l) f ns)"

definition applyStoredLoadSettings ::
  "LoadConfigurationStore \<Rightarrow> CentralNodeRegistry \<Rightarrow> CentralNodeRegistry" where
  "applyStoredLoadSettings es ns =
     fold (writeThrough (\<lambda>l. snd (applyToLoad es l)))
       (concat (map (pointersOf ns) [0..<length ns])) ns"

definition planned :: "NodeCommissioningRegistry \<Rightarrow> u32 \<Rightarrow> PlanningNode \<Rightarrow> bool" where
  "planned rs now pn \<longleftrightarrow>
     \<not> (\<not> plan_isCentralNode pn \<and>
        (\<not> isNodeOnline pn now \<or> \<not> isCommissionedSmartNode (plan_mac pn) rs))"

definition buildLoadFilter ::
  "NodeCommissioningRegistry \<Rightarrow> CentralNodeRegistry \<Rightarrow> u32 \<Rightarrow> load_ptr LoadFilter \<Rightarrow>
   load_ptr LoadFilter" where
  "buildLoadFilter rs ns now f =
     fold (\<lambda>i f.
        if \<not> planned rs now (ns ! i) then f
        else fold (\<lambda>p f. case getLoadAt ns p of None \<Rightarrow> f | Some l \<Rightarrow> snd (filter_addLoad p l f))
               (pointersOf ns i) f)
       [0..<length ns] (filter_reset f)"

definition sumFixedOnPowerWatts :: "CentralNodeRegistry \<Rightarrow> load_ptr LoadFilter \<Rightarrow> f32" where
  "sumFixedOnPowerWatts ns f =
     foldl (\<lambda>t p. case getLoadAt ns p of None \<Rightarrow> t | Some l \<Rightarrow> fadd t (load_power l)) fzero
       (fixedOnLoads f)"

definition BEST_FIRST_NONE :: u8 where "BEST_FIRST_NONE = 0"
definition BEST_FIRST_POWER_BUDGET_EXCEEDED :: u8 where "BEST_FIRST_POWER_BUDGET_EXCEEDED = 2"

definition resetFixedRejectionReasons ::
  "load_ptr LoadFilter \<Rightarrow> CentralNodeRegistry \<Rightarrow> CentralNodeRegistry" where
  "resetFixedRejectionReasons f ns =
     fold (writeThrough (setLastBestFirstRejectionReason BEST_FIRST_NONE)) (fixedOffLoads f)
       (fold (writeThrough (setLastBestFirstRejectionReason BEST_FIRST_NONE)) (fixedOnLoads f) ns)"

definition recordAutoRejectionReason ::
  "load_ptr LoadFilter \<Rightarrow> u8 \<Rightarrow> CentralNodeRegistry \<Rightarrow> CentralNodeRegistry" where
  "recordAutoRejectionReason f reason ns =
     fold (writeThrough (setLastBestFirstRejectionReason reason)) (autoCandidateLoads f) ns"

definition automaticCandidates :: "CentralNodeRegistry \<Rightarrow> load_ptr LoadFilter \<Rightarrow> load_ptr list" where
  "automaticCandidates ns f = filter (\<lambda>p. getLoadAt ns p \<noteq> None) (autoCandidateLoads f)"

definition relayTargetOf :: "Load \<Rightarrow> RelayTarget" where
  "relayTargetOf l =
     \<lparr>target_nodeMacAddress = getMacAddress l, target_relayPin = getRelayPin l,
      target_desiredOn = isOn l\<rparr>"

definition buildRelayTargets :: "CentralNodeRegistry \<Rightarrow> load_ptr LoadFilter \<Rightarrow> RelayTarget list" where
  "buildRelayTargets ns f =
     buildDispatchOrder
       (map relayTargetOf
          (List.map_filter (getLoadAt ns) (fixedOffLoads f @ autoCandidateLoads f @ fixedOnLoads f)))"

section \<open>The optimisation cycle\<close>

definition schedulesEqual :: "AutoSchedule \<Rightarrow> AutoSchedule \<Rightarrow> bool" where
  "schedulesEqual a b \<longleftrightarrow>
     enabled a = enabled b \<and> startHour a = startHour b \<and> startMinute a = startMinute b"

definition updateAutoRuntimeState ::
  "Load \<Rightarrow> bool \<Rightarrow> LoadConfigurationStore \<Rightarrow> bool \<times> Load \<times> LoadConfigurationStore" where
  "updateAutoRuntimeState l requestedOn es =
     (if \<not> isAuto l then (False, l, es)
      else
        let newMode = (if requestedOn then AUTO_ON else AUTO_OFF);
            entry = \<lparr>entry_macAddress = getMacAddress l, entry_relayPin = getRelayPin l,
                     entry_priority = load_priority l, entry_mode = newMode,
                     entry_schedule = load_schedule l\<rparr>;
            changed = (case findConfiguration (getMacAddress l) (getRelayPin l) es of
                         None \<Rightarrow> True
                       | Some previous \<Rightarrow>
                           entry_priority previous \<noteq> entry_priority entry \<or>
                           entry_mode previous \<noteq> entry_mode entry \<or>
                           \<not> schedulesEqual (entry_schedule previous) (entry_schedule entry) \<or>
                           load_mode l \<noteq> newMode)
        in (changed, setMode newMode l, snd (setConfiguration entry es)))"

text \<open>
  One turn of the loops over the Auto Loads: the Load found by owner and pin gets its
  rejection reason, if one is given, and its runtime state. The state of the loops is the
  registry, the settings and whether anything changed.
\<close>

definition updateAutoLoad ::
  "(Load \<Rightarrow> Load) \<Rightarrow> bool \<Rightarrow> load_ptr \<Rightarrow>
   CentralNodeRegistry \<times> LoadConfigurationStore \<times> bool \<Rightarrow>
   CentralNodeRegistry \<times> LoadConfigurationStore \<times> bool" where
  "updateAutoLoad reason requestedOn p = (\<lambda>(ns, es, changed).
     case getLoadAt ns p of
       None \<Rightarrow> (ns, es, changed)
     | Some l \<Rightarrow>
         (case findMutableLoad (getMacAddress l) (getRelayPin l) ns of
            None \<Rightarrow> (ns, es, changed)
          | Some m \<Rightarrow>
              (case updateAutoRuntimeState (reason m) requestedOn es of
                 (changed', m', es') \<Rightarrow>
                   (writeMutableLoad (getMacAddress l) (getRelayPin l) (\<lambda>_. m') ns, es',
                    changed' \<or> changed))))"

text \<open>The loop after the search also sums up the power and the number of the selected Loads.\<close>

definition applySelection ::
  "load_ptr list \<Rightarrow> load_ptr \<Rightarrow> (CentralNodeRegistry \<times> LoadConfigurationStore \<times> bool) \<times> f32 \<times> nat \<Rightarrow>
   (CentralNodeRegistry \<times> LoadConfigurationStore \<times> bool) \<times> f32 \<times> nat" where
  "applySelection selectedAutoLoads p = (\<lambda>(st, P_auto_watts, selectedCount).
     case getLoadAt (fst st) p of
       None \<Rightarrow> (st, P_auto_watts, selectedCount)
     | Some l \<Rightarrow>
         if findMutableLoad (getMacAddress l) (getRelayPin l) (fst st) = None then (st, P_auto_watts, selectedCount)
         else
           let selected = containsLoad selectedAutoLoads p;
               reason = (if selected then BEST_FIRST_NONE else BEST_FIRST_POWER_BUDGET_EXCEEDED)
           in (updateAutoLoad (setLastBestFirstRejectionReason reason) selected p st,
               if selected then fadd P_auto_watts (load_power l) else P_auto_watts,
               if selected then selectedCount + 1 else selectedCount))"

definition persistIfChanged :: "'n NvsApi \<Rightarrow> bool \<Rightarrow> ('g, 'n, 'i) Central \<Rightarrow> ('g, 'n, 'i) Central" where
  "persistIfChanged api changed c =
     (if changed
      then c\<lparr>loads_nvs := snd (config_persist api (centralLoadConfigurationStore c) (loads_nvs c))\<rparr>
      else c)"

text \<open>The chain of \<open>&&\<close> over the power manager, each call made only after the others succeeded.\<close>

definition planBudget ::
  "PowerPlanningConfiguration \<Rightarrow> f32 \<Rightarrow> f32 \<Rightarrow> PowerManager \<Rightarrow> bool \<times> PowerManager" where
  "planBudget planning P_fixed_watts hours p =
     nvs_then (nvs_then (nvs_then (nvs_then (nvs_then
       (setPowerBudgetWatts (planning_P_budget planning) p)
       (setPowerReserveWatts (planning_P_reserve planning)))
       (setFixedPowerWatts P_fixed_watts))
       (setAutoPowerWatts fzero))
       (setRemainingRequiredRuntimeHours hours))
       updatePowerBudget"

text \<open>
  The branch with a valid budget: search, selection, and the budget again with the selected
  power. \<open>None\<close> would be a search that does not return.
\<close>

definition planAutoLoads ::
  "'n NvsApi \<Rightarrow> LocalClock \<Rightarrow> load_ptr LoadFilter \<Rightarrow> PlanningSnapshot \<Rightarrow> ('g, 'n, 'i) Central \<Rightarrow>
   (PlanningSnapshot \<times> ('g, 'n, 'i) Central) option" where
  "planAutoLoads api clock f snapshot c =
     (let budget = powerBudget (batteryMonitor c);
          autoLoads = automaticCandidates (registry c) f
      in map_option (\<lambda>search.
           case fold (applySelection (bestCombination search)) autoLoads
                  ((registry c, centralLoadConfigurationStore c, False), fzero, 0) of
             ((ns, es, changed), P_auto_watts, selectedCount) \<Rightarrow>
               let c1 = persistIfChanged api changed
                          (c\<lparr>registry := ns, centralLoadConfigurationStore := es\<rparr>)
               in (case nvs_then (setAutoPowerWatts P_auto_watts (batteryMonitor c1)) updatePowerBudget of
                     (ok, pm) \<Rightarrow>
                       (snapshot\<lparr>snap_budgetValid := ok,
                                 snap_budget := (if ok then powerBudget pm else budget),
                                 snap_automaticSelectedCount := selectedCount\<rparr>,
                        c1\<lparr>batteryMonitor := pm\<rparr>)))
         (new_BestFirstSearch (getLoadAt (registry c)) (P_auto_available budget) autoLoads clock))"

text \<open>The branch without one: every Auto Load is switched off.\<close>

definition switchOffAutoLoads ::
  "'n NvsApi \<Rightarrow> load_ptr LoadFilter \<Rightarrow> ('g, 'n, 'i) Central \<Rightarrow> ('g, 'n, 'i) Central" where
  "switchOffAutoLoads api f c =
     (let ns = recordAutoRejectionReason f BEST_FIRST_POWER_BUDGET_EXCEEDED (registry c)
      in case fold (updateAutoLoad id False) (autoCandidateLoads f)
                (ns, centralLoadConfigurationStore c, False) of
           (ns', es', changed) \<Rightarrow>
             persistIfChanged api changed (c\<lparr>registry := ns', centralLoadConfigurationStore := es'\<rparr>))"

definition runtimeInputsReady :: "('g, 'n, 'i) Central \<Rightarrow> bool" where
  "runtimeInputsReady c \<longleftrightarrow>
     (let cfg = centralConfigurationStore c
      in \<not> flt fzero (planning_requiredRuntimeHours (powerPlanning cfg)) \<or>
         batteryMetadataConfigured (batterySensor cfg) \<and> isStateOfChargeValid (batteryMonitor c))"

definition prepareCycle :: "Clock \<Rightarrow> ('g, 'n, 'i) Central \<Rightarrow> load_ptr LoadFilter \<times> ('g, 'n, 'i) Central" where
  "prepareCycle clock c =
     (let ns = applyStoredLoadSettings (centralLoadConfigurationStore c) (registry c);
          f = buildLoadFilter (commissioningRegistry c) ns (nowMilliseconds clock) new_LoadFilter
      in (f, c\<lparr>registry := resetFixedRejectionReasons f ns\<rparr>))"

definition planCycle ::
  "'n NvsApi \<Rightarrow> Clock \<Rightarrow> load_ptr LoadFilter \<Rightarrow> ('g, 'n, 'i) Central \<Rightarrow>
   (PlanningSnapshot \<times> ('g, 'n, 'i) Central) option" where
  "planCycle api clock f c =
     (let snapshot = new_PlanningSnapshot\<lparr>
            snap_fixedOnCount := length (fixedOnLoads f),
            snap_fixedOffCount := length (fixedOffLoads f),
            snap_automaticCandidateCount := length (autoCandidateLoads f)\<rparr>;
          planning = powerPlanning (centralConfigurationStore c);
          P_fixed_watts = sumFixedOnPowerWatts (registry c) f
      in case computeRemainingRequiredRuntimeHours (planning_requiredRuntimeHours planning)
                (currentTimeValid clock) (nowEpochSeconds clock) c of
           (hours, c1) \<Rightarrow>
             if \<not> planning_configured planning \<or> \<not> runtimeInputsReady c1
             then Some (snapshot, switchOffAutoLoads api f c1)
             else case planBudget planning P_fixed_watts hours (batteryMonitor c1) of
               (ok, pm) \<Rightarrow>
                 let c2 = c1\<lparr>batteryMonitor := pm\<rparr>
                 in if ok then planAutoLoads api (localClock clock) f snapshot c2
                    else Some (snapshot, switchOffAutoLoads api f c2))"

text \<open>
  The critical section of \<open>runOptimizationCycle\<close>, up to giving the mutex back: the relay
  targets in dispatch order and the new state.
\<close>

definition runOptimizationCycle ::
  "'n NvsApi \<Rightarrow> Clock \<Rightarrow> ('g, 'n, 'i) Central \<Rightarrow> (RelayTarget list \<times> ('g, 'n, 'i) Central) option" where
  "runOptimizationCycle api clock c =
     (case prepareCycle clock c of
        (f, c1) \<Rightarrow>
          map_option (\<lambda>(snapshot, c2).
             (buildRelayTargets (registry c2) f,
              c2\<lparr>latestPlanningSnapshot := snapshot,
                 lastOptimizationEpochSeconds :=
                   (if currentTimeValid clock then nowEpochSeconds clock
                    else lastOptimizationEpochSeconds c2)\<rparr>))
            (planCycle api clock f c1))"

section \<open>Pointers into a well-formed registry\<close>

lemma update_first_nth:
  "distinct (map k xs) \<Longrightarrow> i < length xs \<Longrightarrow>
   update_first (\<lambda>x. k x = k (xs ! i)) f xs = xs[i := f (xs ! i)]"
proof (induction xs arbitrary: i)
  case (Cons x xs)
  show ?case
  proof (cases i)
    case (Suc j)
    then have "k x \<noteq> k (xs ! j)" using Cons.prems by auto
    then show ?thesis using Cons Suc by simp
  qed simp
qed simp

definition planning_ok :: "CentralNodeRegistry \<Rightarrow> bool" where
  "planning_ok ns \<longleftrightarrow> distinct (map plan_mac ns) \<and> list_all (\<lambda>pn. node_ok (plan_node pn)) ns"

text \<open>What a cycle leaves alone: everything about a Node but the fields of its Loads.\<close>

definition plan_key ::
  "PlanningNode \<Rightarrow> MacAddress \<times> bool \<times> u32 \<times> MacAddress \<times> LoadId list" where
  "plan_key pn =
     (plan_mac pn, plan_isCentralNode pn, plan_lastSeen pn, plan_nextHop pn,
      map load_id (node_loads (plan_node pn)))"

definition same_frame :: "CentralNodeRegistry \<Rightarrow> CentralNodeRegistry \<Rightarrow> bool" where
  "same_frame ns ns' \<longleftrightarrow> map plan_key ns = map plan_key ns'"

definition keeps_id :: "(Load \<Rightarrow> Load) \<Rightarrow> bool" where
  "keeps_id f \<longleftrightarrow> (\<forall>l. load_id (f l) = load_id l)"

lemma keeps_id_ops [simp]:
  "keeps_id (setLastBestFirstRejectionReason r)" "keeps_id (setMode m)" "keeps_id id"
  "keeps_id (\<lambda>l. snd (applyToLoad es l))"
  by (simp_all add: keeps_id_def step_defs applyToLoad_def Let_def split: option.splits)

lemma same_frame_refl [simp]: "same_frame ns ns"
  and same_frame_trans: "same_frame a b \<Longrightarrow> same_frame b c \<Longrightarrow> same_frame a c"
  by (simp_all add: same_frame_def)

lemma same_frame_length: "same_frame ns ns' \<Longrightarrow> length ns' = length ns"
  unfolding same_frame_def by (metis length_map)

lemma same_frame_nth:
  assumes "same_frame ns ns'" and "i < length ns"
  shows "plan_key (ns' ! i) = plan_key (ns ! i)"
proof -
  have "map plan_key ns ! i = map plan_key ns' ! i" using assms(1) by (simp add: same_frame_def)
  then show ?thesis using assms(2) same_frame_length [OF assms(1)] by simp
qed

lemma node_ok_ids:
  "node_ok node \<longleftrightarrow>
   distinct (map id_pin (map load_id (node_loads node))) \<and>
   list_all (\<lambda>i. id_mac i = node_macAddress node) (map load_id (node_loads node))"
  by (simp add: node_ok_def getRelayPin_def [abs_def] getMacAddress_def list_all_iff o_def)

lemma planning_ok_key:
  "planning_ok ns \<longleftrightarrow>
   distinct (map fst (map plan_key ns)) \<and>
   list_all (\<lambda>k. distinct (map id_pin (snd (snd (snd (snd k))))) \<and>
                 list_all (\<lambda>i. id_mac i = fst k) (snd (snd (snd (snd k))))) (map plan_key ns)"
  by (simp add: planning_ok_def list_all_iff plan_key_def node_ok_ids plan_mac_def [abs_def] o_def)

lemma same_frame_ok: "same_frame ns ns' \<Longrightarrow> planning_ok ns' = planning_ok ns"
  by (simp add: planning_ok_key same_frame_def)

lemma writeMutableLoad_frame:
  assumes "keeps_id f"
  shows "same_frame ns (writeMutableLoad mac pin f ns)"
proof -
  have "map load_id (update_first (\<lambda>l. getRelayPin l = pin) f ls) = map load_id ls" for ls
    by (rule map_update_first) (use assms in \<open>simp add: keeps_id_def\<close>)
  then show ?thesis
    unfolding same_frame_def writeMutableLoad_def
    by (intro map_update_first [symmetric]) (simp add: plan_key_def plan_mac_def updateLoad_def)
qed

lemma getLoadAt_Some:
  "getLoadAt ns (i, j) = Some l \<longleftrightarrow>
   i < length ns \<and> j < length (node_loads (plan_node (ns ! i))) \<and> node_loads (plan_node (ns ! i)) ! j = l"
  by (auto simp: getLoadAt_def)

lemma getLoadAt_owner:
  assumes ok: "planning_ok ns" and p: "getLoadAt ns (i, j) = Some l"
  shows "getMacAddress l = plan_mac (ns ! i)" and "findMutableLoad (getMacAddress l) (getRelayPin l) ns = Some l"
proof -
  note ij = p [unfolded getLoadAt_Some]
  have n: "node_ok (plan_node (ns ! i))" using ok ij by (simp add: planning_ok_def list_all_length)
  then show mac: "getMacAddress l = plan_mac (ns ! i)"
    using ij by (auto simp: node_ok_def list_all_length plan_mac_def)
  have "findNodeByMacAddress (plan_mac (ns ! i)) ns = Some (ns ! i)"
    unfolding findNodeByMacAddress_def using ok ij by (intro find_distinct_key) (simp_all add: planning_ok_def)
  moreover have "getLoadByRelayPin (getRelayPin l) (plan_node (ns ! i)) = Some l"
    unfolding getLoadByRelayPin_def using n ij by (intro find_distinct_key) (auto simp: node_ok_def)
  ultimately show "findMutableLoad (getMacAddress l) (getRelayPin l) ns = Some l"
    by (simp add: findMutableLoad_def mac)
qed

lemma writeMutableLoad_at:
  assumes ok: "planning_ok ns" and p: "getLoadAt ns p = Some l" and id: "load_id (f l) = load_id l"
  shows "getLoadAt (writeMutableLoad (getMacAddress l) (getRelayPin l) f ns) q =
         (if q = p then Some (f l) else getLoadAt ns q)"
    and "same_frame ns (writeMutableLoad (getMacAddress l) (getRelayPin l) f ns)"
proof -
  obtain i j where pp: "p = (i, j)" by (cases p)
  note ij = p [unfolded pp getLoadAt_Some]
  let ?n = "plan_node (ns ! i)"
  have n: "distinct (map getRelayPin (node_loads ?n))"
    using ok ij by (simp add: planning_ok_def list_all_length node_ok_def)
  have "update_first (\<lambda>m. getRelayPin m = getRelayPin (node_loads ?n ! j)) f (node_loads ?n) =
        (node_loads ?n)[j := f (node_loads ?n ! j)]"
    using n ij by (intro update_first_nth) auto
  then have u: "updateLoad (getRelayPin l) f ?n = ?n\<lparr>node_loads := (node_loads ?n)[j := f l]\<rparr>"
    using ij by (simp add: updateLoad_def)
  have w: "writeMutableLoad (getMacAddress l) (getRelayPin l) f ns =
    ns[i := (ns ! i)\<lparr>plan_node := updateLoad (getRelayPin l) f ?n\<rparr>]"
    unfolding writeMutableLoad_def getLoadAt_owner(1) [OF ok p [unfolded pp]]
    using ok ij by (intro update_first_nth) (auto simp: planning_ok_def)
  then show "getLoadAt (writeMutableLoad (getMacAddress l) (getRelayPin l) f ns) q =
         (if q = p then Some (f l) else getLoadAt ns q)"
    using ij by (cases q) (auto simp: getLoadAt_def u nth_list_update pp)
  have "(map load_id (node_loads ?n))[j := load_id l] = map load_id (node_loads ?n)"
    using ij by (metis list_update_id nth_map length_map)
  then have "plan_key ((ns ! i)\<lparr>plan_node := updateLoad (getRelayPin l) f ?n\<rparr>) = plan_key (ns ! i)"
    by (simp add: u plan_key_def plan_mac_def map_update id)
  then show "same_frame ns (writeMutableLoad (getMacAddress l) (getRelayPin l) f ns)"
    unfolding w same_frame_def using ij by (simp add: map_update) (metis list_update_id nth_map)
qed

lemma writeThrough_at:
  assumes ok: "planning_ok ns" and f: "keeps_id f"
  shows "getLoadAt (writeThrough f p ns) q =
         (if q = p then map_option f (getLoadAt ns p) else getLoadAt ns q)"
    and "same_frame ns (writeThrough f p ns)"
proof -
  show "getLoadAt (writeThrough f p ns) q =
         (if q = p then map_option f (getLoadAt ns p) else getLoadAt ns q)"
    using writeMutableLoad_at(1) [OF ok] f
    by (cases "getLoadAt ns p") (auto simp: writeThrough_def keeps_id_def)
  show "same_frame ns (writeThrough f p ns)"
    using writeMutableLoad_frame [OF f] by (auto simp: writeThrough_def split: option.splits)
qed

lemma fold_writeThrough:
  assumes "keeps_id f"
  shows "planning_ok ns \<Longrightarrow> distinct ps \<Longrightarrow>
    same_frame ns (fold (writeThrough f) ps ns) \<and>
    getLoadAt (fold (writeThrough f) ps ns) q =
      (if q \<in> set ps then map_option f (getLoadAt ns q) else getLoadAt ns q)"
proof (induction ps arbitrary: ns)
  case (Cons p ps)
  note w = writeThrough_at [OF Cons.prems(1) assms, where p = p]
  have "planning_ok (writeThrough f p ns)" using same_frame_ok [OF w(2)] Cons.prems(1) by simp
  note ih = Cons.IH [OF this]
  show ?case
    using ih Cons.prems(2) same_frame_trans [OF w(2), where c = "fold (writeThrough f) ps (writeThrough f p ns)"]
    by (simp add: w(1))
qed simp

section \<open>The filter of a cycle\<close>

definition at :: "CentralNodeRegistry \<Rightarrow> (Load \<Rightarrow> bool) \<Rightarrow> load_ptr \<Rightarrow> bool" where
  "at ns P p \<longleftrightarrow> (case getLoadAt ns p of None \<Rightarrow> False | Some l \<Rightarrow> P l)"

definition plannedPointers ::
  "NodeCommissioningRegistry \<Rightarrow> u32 \<Rightarrow> CentralNodeRegistry \<Rightarrow> load_ptr list" where
  "plannedPointers rs now ns =
     concat (map (pointersOf ns) (filter (\<lambda>i. planned rs now (ns ! i)) [0..<length ns]))"

definition filterOf :: "CentralNodeRegistry \<Rightarrow> load_ptr list \<Rightarrow> load_ptr LoadFilter" where
  "filterOf ns ps =
     \<lparr>fixedOnLoads = filter (at ns (\<lambda>l. load_mode l = FIXED_ON)) ps,
      fixedOffLoads = filter (at ns (\<lambda>l. load_mode l = FIXED_OFF)) ps,
      autoCandidateLoads = filter (at ns isAuto) ps\<rparr>"

lemma filterOf_append_pointer:
  "(case getLoadAt ns p of None \<Rightarrow> filterOf ns qs | Some l \<Rightarrow> snd (filter_addLoad p l (filterOf ns qs)))
   = filterOf ns (qs @ [p])"
  by (auto simp: filterOf_def at_def filter_addLoad_def isAuto_def split: option.splits)

lemma fold_filter_addLoad:
  "fold (\<lambda>p f. case getLoadAt ns p of None \<Rightarrow> f | Some l \<Rightarrow> snd (filter_addLoad p l f)) ps
     (filterOf ns qs) = filterOf ns (qs @ ps)"
  by (induction ps arbitrary: qs) (simp_all add: filterOf_append_pointer)

lemma buildLoadFilter_filterOf:
  "buildLoadFilter rs ns now f = filterOf ns (plannedPointers rs now ns)"
proof -
  have "fold (\<lambda>i f.
        if \<not> planned rs now (ns ! i) then f
        else fold (\<lambda>p f. case getLoadAt ns p of None \<Rightarrow> f | Some l \<Rightarrow> snd (filter_addLoad p l f))
               (pointersOf ns i) f) is (filterOf ns qs) =
     filterOf ns (qs @ concat (map (pointersOf ns) (filter (\<lambda>i. planned rs now (ns ! i)) is)))" for "is" qs
    by (induction "is" arbitrary: qs) (simp_all add: fold_filter_addLoad)
  moreover have "filter_reset f = filterOf ns []"
    by (cases f) (simp add: filter_reset_def filterOf_def)
  ultimately show ?thesis by (simp add: buildLoadFilter_def plannedPointers_def)
qed

lemma plannedPointers_set:
  "(i, j) \<in> set (plannedPointers rs now ns) \<longleftrightarrow>
   planned rs now (ns ! i) \<and> getLoadAt ns (i, j) \<noteq> None"
  by (auto simp: plannedPointers_def pointersOf_def getLoadAt_def)

lemma distinct_pointers: "distinct is \<Longrightarrow> distinct (concat (map (pointersOf ns) is))"
  by (induction "is") (auto simp: pointersOf_def distinct_map inj_on_def)

lemma distinct_plannedPointers [simp]: "distinct (plannedPointers rs now ns)"
  by (simp add: plannedPointers_def distinct_pointers)

lemma all_pointers: "p \<in> set (concat (map (pointersOf ns) [0..<length ns])) \<longleftrightarrow> getLoadAt ns p \<noteq> None"
  by (cases p) (force simp: pointersOf_def getLoadAt_def image_iff)

lemma applyStoredLoadSettings_at:
  assumes "planning_ok ns"
  shows "same_frame ns (applyStoredLoadSettings es ns)"
    and "getLoadAt (applyStoredLoadSettings es ns) q =
         map_option (\<lambda>l. snd (applyToLoad es l)) (getLoadAt ns q)"
  using fold_writeThrough [OF keeps_id_ops(4) [of es] assms distinct_pointers [OF distinct_upt], where q = q]
  by (auto simp: applyStoredLoadSettings_def all_pointers simp del: set_concat)

lemma resetFixedRejectionReasons_at:
  assumes "planning_ok ns" and "distinct ps"
  shows "same_frame ns (resetFixedRejectionReasons (filterOf ns ps) ns)"
    and "getLoadAt (resetFixedRejectionReasons (filterOf ns ps) ns) q =
         (if q \<in> set ps \<and> at ns isFixed q
          then map_option (setLastBestFirstRejectionReason BEST_FIRST_NONE) (getLoadAt ns q)
          else getLoadAt ns q)"
proof -
  let ?f = "setLastBestFirstRejectionReason BEST_FIRST_NONE"
  let ?on = "filter (at ns (\<lambda>l. load_mode l = FIXED_ON)) ps"
  let ?ns1 = "fold (writeThrough ?f) ?on ns"
  note a = fold_writeThrough [OF keeps_id_ops(1) assms(1) distinct_filter [OF assms(2)]]
  have "planning_ok ?ns1" using same_frame_ok a assms(1) by blast
  note b = fold_writeThrough [OF keeps_id_ops(1) this distinct_filter [OF assms(2)]]
  show "same_frame ns (resetFixedRejectionReasons (filterOf ns ps) ns)"
    unfolding resetFixedRejectionReasons_def filterOf_def using same_frame_trans a b by simp blast
  show "getLoadAt (resetFixedRejectionReasons (filterOf ns ps) ns) q =
         (if q \<in> set ps \<and> at ns isFixed q then map_option ?f (getLoadAt ns q) else getLoadAt ns q)"
    using a b by (auto simp: resetFixedRejectionReasons_def filterOf_def at_def isFixed_def split: option.splits)
qed

section \<open>The loops over the Auto Loads\<close>

definition auto_mode :: "bool \<Rightarrow> LoadModeValue" where
  "auto_mode on = (if on then AUTO_ON else AUTO_OFF)"

lemma setMode_auto [simp]: "setMode (auto_mode on) l = l\<lparr>load_mode := auto_mode on\<rparr>"
  by (simp add: setMode_def isFixed_def auto_mode_def Let_def)

lemma updateAutoRuntimeState_load:
  "fst (snd (updateAutoRuntimeState l on es)) = (if isAuto l then setMode (auto_mode on) l else l)"
  by (simp add: updateAutoRuntimeState_def auto_mode_def Let_def split: option.splits)

lemma updateAutoLoad_at:
  assumes ok: "planning_ok ns" and id: "keeps_id reason" 
  shows "same_frame ns (fst (updateAutoLoad reason on p (ns, es, changed)))"
    and "getLoadAt (fst (updateAutoLoad reason on p (ns, es, changed))) q =
         (if q = p
          then map_option (\<lambda>l. if isAuto (reason l) then setMode (auto_mode on) (reason l) else reason l)
                 (getLoadAt ns p)
          else getLoadAt ns q)"
proof -
  let ?r = "fst (updateAutoLoad reason on p (ns, es, changed))"
  have "same_frame ns ?r \<and> getLoadAt ?r q = (if q = p
          then map_option (\<lambda>l. if isAuto (reason l) then setMode (auto_mode on) (reason l) else reason l)
                 (getLoadAt ns p)
          else getLoadAt ns q)"
  proof (cases "getLoadAt ns p")
    case None
    then show ?thesis by (simp add: updateAutoLoad_def)
  next
    case (Some l)
    let ?m = "fst (snd (updateAutoRuntimeState (reason l) on es))"
    have m: "load_id ?m = load_id l"
      using id by (simp add: updateAutoRuntimeState_load keeps_id_def)
    have f: "findMutableLoad (getMacAddress l) (getRelayPin l) ns = Some l"
      using getLoadAt_owner(2) [OF ok] Some by (cases p) simp
    have "?r = writeMutableLoad (getMacAddress l) (getRelayPin l) (\<lambda>_. ?m) ns"
      using Some f by (simp add: updateAutoLoad_def split: prod.splits)
    then show ?thesis
      using writeMutableLoad_at [OF ok Some, of "\<lambda>_. ?m"] m Some
      by (simp add: updateAutoRuntimeState_load)
  qed
  then show "same_frame ns ?r" and "getLoadAt ?r q = (if q = p
          then map_option (\<lambda>l. if isAuto (reason l) then setMode (auto_mode on) (reason l) else reason l)
                 (getLoadAt ns p)
          else getLoadAt ns q)" by simp_all
qed

lemma updateAutoLoad_store_ok:
  "store_ok es \<Longrightarrow> store_ok (fst (snd (updateAutoLoad reason on p (ns, es, changed))))"
  by (auto simp: updateAutoLoad_def updateAutoRuntimeState_def Let_def setConfiguration_ok
      split: option.splits prod.splits if_splits)

lemma fold_updateAutoLoad:
  assumes "\<And>p. keeps_id (reason p)"
  shows "planning_ok (fst st) \<Longrightarrow> distinct ps \<Longrightarrow>
    same_frame (fst st) (fst (fold (\<lambda>p. updateAutoLoad (reason p) (on p) p) ps st)) \<and>
    getLoadAt (fst (fold (\<lambda>p. updateAutoLoad (reason p) (on p) p) ps st)) q =
      (if q \<in> set ps
       then map_option (\<lambda>l. if isAuto (reason q l) then setMode (auto_mode (on q)) (reason q l) else reason q l)
              (getLoadAt (fst st) q)
       else getLoadAt (fst st) q)"
proof (induction ps arbitrary: st)
  case (Cons p ps)
  obtain ns es ch where st: "st = (ns, es, ch)" by (cases st)
  let ?st1 = "updateAutoLoad (reason p) (on p) p st"
  note u = updateAutoLoad_at [OF Cons.prems(1) [unfolded st fst_conv] assms [of p], where p = p and
      on = "on p" and es = es and changed = ch, folded st]
  have "planning_ok (fst ?st1)" using same_frame_ok [OF u(1)] Cons.prems(1) by (simp add: st)
  note ih = Cons.IH [OF this]
  show ?case
    using ih Cons.prems(2)
      same_frame_trans [OF u(1), where c = "fst (fold (\<lambda>p. updateAutoLoad (reason p) (on p) p) ps ?st1)"]
    by (auto simp: u(2)) (simp_all add: st)
qed simp

lemma fold_updateAutoLoad_store_ok:
  "store_ok (fst (snd st)) \<Longrightarrow>
   store_ok (fst (snd (fold (\<lambda>p. updateAutoLoad (reason p) (on p) p) ps st)))"
proof (induction ps arbitrary: st)
  case (Cons p ps)
  obtain ns es ch where "st = (ns, es, ch)" by (cases st)
  with Cons updateAutoLoad_store_ok show ?case by simp
qed simp

definition selection_reason :: "load_ptr list \<Rightarrow> load_ptr \<Rightarrow> u8" where
  "selection_reason selectedAutoLoads p =
     (if p \<in> set selectedAutoLoads then BEST_FIRST_NONE else BEST_FIRST_POWER_BUDGET_EXCEEDED)"

lemma fst_fold_applySelection:
  "fst (fold (applySelection sel) ps (st, t, k)) =
   fold (\<lambda>p. updateAutoLoad (setLastBestFirstRejectionReason (selection_reason sel p)) (p \<in> set sel) p) ps st"
proof (induction ps arbitrary: st t k)
  case (Cons p ps)
  obtain ns es ch where st: "st = (ns, es, ch)" by (cases st)
  obtain st1 t1 k1 where r: "applySelection sel p (st, t, k) = (st1, t1, k1)"
    by (cases "applySelection sel p (st, t, k)")
  have "st1 = updateAutoLoad (setLastBestFirstRejectionReason (selection_reason sel p)) (p \<in> set sel) p st"
    using r by (auto simp: applySelection_def updateAutoLoad_def st selection_reason_def Let_def
        split: option.splits if_splits)
  with Cons r show ?case by simp
qed simp

end
