(* ===== verification/Planning_Results.thy ===== *)
theory Planning_Results
  imports Central_Planning
begin

text \<open>
  What one optimisation cycle decides and commands, proved over the model of
  \<open>Central_Planning\<close>: which Auto Loads are selected, how their power relates to the budget, and
  which relay commands come out.
\<close>

section \<open>What a cycle decides\<close>

text \<open>
  Two registries that agree on everything but the rejection reasons, as seen through the
  pointers: the same identifiers, modes and ratings.
\<close>

definition summary :: "Load \<Rightarrow> LoadId \<times> LoadModeValue \<times> f32" where
  "summary l = (load_id l, load_mode l, load_power l)"

definition same_loads :: "CentralNodeRegistry \<Rightarrow> CentralNodeRegistry \<Rightarrow> bool" where
  "same_loads ns ns' \<longleftrightarrow>
     (\<forall>q. map_option summary (getLoadAt ns' q) = map_option summary (getLoadAt ns q))"

lemma summary_cong:
  assumes "summary l = summary l'"
  shows "load_mode l = load_mode l'" "load_power l = load_power l'" "load_id l = load_id l'"
    "isAuto l = isAuto l'" "isFixed l = isFixed l'" "isOn l = isOn l'"
  using assms by (auto simp: summary_def isAuto_def isFixed_def isOn_def)

lemma summary_reason [simp]: "summary (setLastBestFirstRejectionReason r l) = summary l"
  by (simp add: summary_def step_defs)

lemma isAuto_reason [simp]: "isAuto (setLastBestFirstRejectionReason r l) = isAuto l"
  by (simp add: isAuto_def step_defs)

lemma same_loads_at:
  assumes "same_loads ns ns'" and "\<And>l l'. summary l = summary l' \<Longrightarrow> P l = P l'"
  shows "at ns' P q = at ns P q"
proof -
  have "map_option summary (getLoadAt ns' q) = map_option summary (getLoadAt ns q)"
    using assms(1) unfolding same_loads_def by blast
  note same = this
  show ?thesis
  proof (cases "getLoadAt ns q")
    case None
    then show ?thesis using same by (simp add: at_def)
  next
    case (Some l)
    then obtain l' where l': "getLoadAt ns' q = Some l'" "summary l' = summary l" using same by auto
    show ?thesis using assms(2) [OF l'(2)] l'(1) Some by (simp add: at_def)
  qed
qed

lemma filterOf_same:
  assumes "same_loads ns ns'"
  shows "filterOf ns' ps = filterOf ns ps"
proof -
  have "at ns' (\<lambda>l. load_mode l = m) = at ns (\<lambda>l. load_mode l = m)" for m
    by (rule ext, rule same_loads_at [OF assms], drule summary_cong(1)) simp
  moreover have "at ns' isAuto = at ns isAuto"
    by (rule ext, rule same_loads_at [OF assms], drule summary_cong(4)) simp
  ultimately show ?thesis by (simp add: filterOf_def)
qed

lemma planningAllowance_cong:
  assumes "P_budget b = P_budget (powerBudget p)" "P_reserve b = P_reserve (powerBudget p)"
    "P_fixed b = P_fixed (powerBudget p)"
  shows "planningAllowance (p\<lparr>powerBudget := b\<rparr>) = planningAllowance p"
  using assms by (simp add: planningAllowance_def isStateOfChargeValid_def runtimeAllowanceWatts_def Let_def)

lemma updatePowerBudget_keeps:
  assumes "updatePowerBudget p = (success, p')"
  shows "\<exists>b. p' = p\<lparr>powerBudget := b\<rparr> \<and> P_budget b = P_budget (powerBudget p) \<and>
    P_reserve b = P_reserve (powerBudget p) \<and> P_fixed b = P_fixed (powerBudget p)"
  using assms by (intro exI [of _ "powerBudget p'"])
    (auto simp: updatePowerBudget_def Let_def split: if_splits option.splits)

lemma updatePowerBudget_allowance:
  assumes "updatePowerBudget p = (True, p')"
  shows "\<exists>a c. planningAllowance p = Some (a, c) \<and>
    P_auto_available (powerBudget p') = fmax fzero (fsub a (P_fixed (powerBudget p)))"
  using assms by (auto simp: updatePowerBudget_def Let_def split: if_splits option.splits)

lemma setAutoPower_keeps:
  assumes u: "updatePowerBudget p = (True, p1)"
    and v: "nvs_then (setAutoPowerWatts w p1) updatePowerBudget = (success, p2)"
  shows "P_auto_available (powerBudget p2) = P_auto_available (powerBudget p1)"
proof -
  obtain b where p1: "p1 = p\<lparr>powerBudget := b\<rparr>" and b: "P_budget b = P_budget (powerBudget p)"
    "P_reserve b = P_reserve (powerBudget p)" "P_fixed b = P_fixed (powerBudget p)"
    using updatePowerBudget_keeps [OF u] by blast
  let ?q = "p\<lparr>powerBudget := b\<lparr>P_auto := w\<rparr>\<rparr>"
  have same: "planningAllowance ?q = planningAllowance p"
    by (rule planningAllowance_cong) (simp_all add: b)
  have "setAutoPowerWatts w p1 = (False, p1) \<or> setAutoPowerWatts w p1 = (True, ?q)"
    by (simp add: setAutoPowerWatts_def p1)
  then consider "p2 = p1" | "updatePowerBudget ?q = (success, p2)" using v by auto
  then show ?thesis
  proof cases
    case 2
    show ?thesis
    proof (cases success)
      case True
      then have "updatePowerBudget ?q = (True, p2)" using 2 by simp
      from updatePowerBudget_allowance [OF this] updatePowerBudget_allowance [OF u] same b(3)
      show ?thesis by auto
    next
      case False
      then have "p2 = ?q"
        using 2 by (auto simp: updatePowerBudget_def Let_def split: if_splits option.splits)
      then show ?thesis by (simp add: p1)
    qed
  qed simp
qed

lemma planBudget_budget:
  assumes "planBudget planning Pf h p = (True, p')"
  shows "\<exists>q. updatePowerBudget q = (True, p') \<and> P_budget (powerBudget q) = planning_P_budget planning \<and>
    P_reserve (powerBudget q) = planning_P_reserve planning"
  using assms
  by (auto simp: planBudget_def nvs_then_True setPowerBudgetWatts_def setPowerReserveWatts_def
      setFixedPowerWatts_def setAutoPowerWatts_def setRemainingRequiredRuntimeHours_def split: if_splits)

definition selected_within :: "CentralNodeRegistry \<Rightarrow> load_ptr list \<Rightarrow> f32 \<Rightarrow> bool" where
  "selected_within ns sel limit \<longleftrightarrow> sel = [] \<or> fle fzero limit \<and> fle (calculateTotalPowerWatts (getLoadAt ns) sel) limit"

text \<open>The effect of a cycle on the Loads: the selected Auto Loads on, the other ones off.\<close>

definition decides :: "CentralNodeRegistry \<Rightarrow> load_ptr list \<Rightarrow> load_ptr list \<Rightarrow> CentralNodeRegistry \<Rightarrow> bool" where
  "decides ns autos sel ns' \<longleftrightarrow>
     same_frame ns ns' \<and> distinct sel \<and> set sel \<subseteq> set autos \<and>
     (\<forall>q. map_option summary (getLoadAt ns' q) =
        map_option (\<lambda>l. summary (if q \<in> set autos then setMode (auto_mode (q \<in> set sel)) l else l))
          (getLoadAt ns q))"

lemma fold_updateAutoLoad_decides:
  assumes ok: "planning_ok ns" and d: "distinct autos" and a: "\<And>q. q \<in> set autos \<Longrightarrow> at ns isAuto q"
    and sel: "distinct sel" "set sel \<subseteq> set autos" and r: "\<And>p l. summary (r p l) = summary l"
  shows "decides ns autos sel
    (fst (fold (\<lambda>p. updateAutoLoad (r p) (p \<in> set sel) p) autos (ns, es, ch)))"
proof -
  have k: "keeps_id (r p)" for p using r by (simp add: keeps_id_def summary_def)
  note f = fold_updateAutoLoad [of r "(ns, es, ch)" autos, OF k _ d, where on = "\<lambda>p. p \<in> set sel"]
  have "map_option summary
      (getLoadAt (fst (fold (\<lambda>p. updateAutoLoad (r p) (p \<in> set sel) p) autos (ns, es, ch))) q) =
    map_option (\<lambda>l. summary (if q \<in> set autos then setMode (auto_mode (q \<in> set sel)) l else l))
      (getLoadAt ns q)" for q
    using f [where q = q] ok a [of q] r summary_cong(4) [OF r]
    by (cases "getLoadAt ns q") (auto simp: at_def summary_def)
  then show ?thesis unfolding decides_def using f ok sel by simp
qed

lemma filterOf_auto:
  "autoCandidateLoads (filterOf ns ps) = filter (at ns isAuto) ps"
  "automaticCandidates ns (filterOf ns ps) = filter (at ns isAuto) ps"
  by (auto simp: filterOf_def automaticCandidates_def at_def intro!: filter_cong split: option.splits)

lemma registry_persistIfChanged [simp]:
  "registry (persistIfChanged api changed c) = registry c"
  "batteryMonitor (persistIfChanged api changed c) = batteryMonitor c"
  by (simp_all add: persistIfChanged_def)

lemma decides_same_loads:
  assumes d: "decides ns1 autos sel ns2" and s: "same_loads ns ns1" and f: "same_frame ns ns1"
  shows "decides ns autos sel ns2"
proof -
  have "map_option (\<lambda>l. summary (if q \<in> set autos then setMode m l else l)) (getLoadAt ns1 q) =
        map_option (\<lambda>l. summary (if q \<in> set autos then setMode m l else l)) (getLoadAt ns q)" for q m
  proof -
    have "map_option summary (getLoadAt ns1 q) = map_option summary (getLoadAt ns q)"
      using s unfolding same_loads_def by blast
    then show ?thesis
      by (cases "getLoadAt ns1 q"; cases "getLoadAt ns q")
        (auto simp: summary_def setMode_def isFixed_def Let_def)
  qed
  then show ?thesis using d same_frame_trans [OF f] unfolding decides_def by simp
qed

lemma switchOffAutoLoads_decides:
  assumes ok: "planning_ok (registry c)" and d: "distinct ps"
  shows "decides (registry c) (filter (at (registry c) isAuto) ps) []
           (registry (switchOffAutoLoads api (filterOf (registry c) ps) c))"
    and "batteryMonitor (switchOffAutoLoads api (filterOf (registry c) ps) c) = batteryMonitor c"
proof -
  let ?autos = "filter (at (registry c) isAuto) ps"
  let ?ns = "recordAutoRejectionReason (filterOf (registry c) ps) BEST_FIRST_POWER_BUDGET_EXCEEDED (registry c)"
  note f = fold_writeThrough [OF keeps_id_ops(1) [of BEST_FIRST_POWER_BUDGET_EXCEEDED] ok distinct_filter [OF d]]
  have frame: "same_frame (registry c) ?ns"
    using f by (simp add: recordAutoRejectionReason_def filterOf_auto)
  have loads: "same_loads (registry c) ?ns"
    unfolding same_loads_def recordAutoRejectionReason_def filterOf_auto
  proof
    fix q
    show "map_option summary (getLoadAt (fold (writeThrough (setLastBestFirstRejectionReason
        BEST_FIRST_POWER_BUDGET_EXCEEDED)) ?autos (registry c)) q) =
      map_option summary (getLoadAt (registry c) q)"
      using f [where q = q] by (simp add: option.map_comp o_def)
  qed
  have "decides ?ns ?autos [] (fst (fold (\<lambda>p. updateAutoLoad id (p \<in> set []) p) ?autos
      (?ns, centralLoadConfigurationStore c, False)))"
  proof (rule fold_updateAutoLoad_decides)
    show "planning_ok ?ns" using same_frame_ok [OF frame] ok by simp
    show "at ?ns isAuto q" if "q \<in> set ?autos" for q
      using that same_loads_at [OF loads, of isAuto q, OF summary_cong(4)] by simp
  qed (use d in simp_all)
  then have "decides (registry c) ?autos [] (fst (fold (updateAutoLoad id False) ?autos
      (?ns, centralLoadConfigurationStore c, False)))"
    using decides_same_loads loads frame by simp
  then show "decides (registry c) (filter (at (registry c) isAuto) ps) []
           (registry (switchOffAutoLoads api (filterOf (registry c) ps) c))"
    by (cases "fold (updateAutoLoad id False) ?autos (?ns, centralLoadConfigurationStore c, False)")
      (simp add: switchOffAutoLoads_def filterOf_auto Let_def)
  show "batteryMonitor (switchOffAutoLoads api (filterOf (registry c) ps) c) = batteryMonitor c"
    by (simp add: switchOffAutoLoads_def Let_def split: prod.splits)
qed

lemma planAutoLoads_decides:
  assumes ok: "planning_ok (registry c)" and d: "distinct ps"
    and u: "updatePowerBudget q = (True, batteryMonitor c)"
  shows "\<exists>snapshot' c' sel.
    planAutoLoads api clock (filterOf (registry c) ps) snapshot c = Some (snapshot', c') \<and>
    decides (registry c) (filter (at (registry c) isAuto) ps) sel (registry c') \<and>
    selected_within (registry c) sel (P_auto_available (powerBudget (batteryMonitor c'))) \<and>
    P_auto_available (powerBudget (batteryMonitor c')) = P_auto_available (powerBudget (batteryMonitor c))"
proof -
  let ?autos = "filter (at (registry c) isAuto) ps"
  let ?avail = "P_auto_available (powerBudget (batteryMonitor c))"
  obtain b where b: "new_BestFirstSearch (getLoadAt (registry c)) ?avail ?autos clock = Some b"
    and sel: "distinct (bestCombination b)" "set (bestCombination b) \<subseteq> candidates (getLoadAt (registry c)) ?autos"
    and within: "selected_within (registry c) (bestCombination b) ?avail"
    using new_search_sound [of "getLoadAt (registry c)" ?avail ?autos clock]
    by (auto simp: selected_within_def)
  let ?sel = "bestCombination b"
  obtain ns es changed w k where
    r: "fold (applySelection ?sel) ?autos ((registry c, centralLoadConfigurationStore c, False), fzero, 0)
        = ((ns, es, changed), w, k)"
    by (cases "fold (applySelection ?sel) ?autos ((registry c, centralLoadConfigurationStore c, False), fzero, 0)")
      auto
  have "fst (fold (applySelection ?sel) ?autos ((registry c, centralLoadConfigurationStore c, False), fzero, 0))
    = (ns, es, changed)" by (simp add: r)
  then have ns: "ns = fst (fold (\<lambda>p. updateAutoLoad (setLastBestFirstRejectionReason (selection_reason ?sel p))
      (p \<in> set ?sel) p) ?autos (registry c, centralLoadConfigurationStore c, False))"
    by (simp add: fst_fold_applySelection)
  have dec: "decides (registry c) ?autos ?sel ns"
    unfolding ns using ok d sel by (intro fold_updateAutoLoad_decides) (auto simp: candidates_def)
  obtain good pm where v: "nvs_then (setAutoPowerWatts w (batteryMonitor c)) updatePowerBudget = (good, pm)"
    by (cases "nvs_then (setAutoPowerWatts w (batteryMonitor c)) updatePowerBudget")
  have keep: "P_auto_available (powerBudget pm) = ?avail" by (rule setAutoPower_keeps [OF u v])
  let ?c' = "persistIfChanged api changed
    (c\<lparr>registry := ns, centralLoadConfigurationStore := es\<rparr>)\<lparr>batteryMonitor := pm\<rparr>"
  have "\<exists>snapshot'. planAutoLoads api clock (filterOf (registry c) ps) snapshot c = Some (snapshot', ?c')"
    by (simp add: planAutoLoads_def Let_def filterOf_auto b r v)
  moreover have "registry ?c' = ns" "P_auto_available (powerBudget (batteryMonitor ?c')) = ?avail"
    by (simp_all add: keep)
  ultimately show ?thesis using dec within by metis
qed

lemma computeRemaining_frame:
  assumes "computeRemainingRequiredRuntimeHours h v n c = (hours, c1)"
  shows "registry c1 = registry c" "batteryMonitor c1 = batteryMonitor c"
    "commissioningRegistry c1 = commissioningRegistry c" "centralLoadConfigurationStore c1 = centralLoadConfigurationStore c"
  using assms by (auto simp: computeRemainingRequiredRuntimeHours_def Let_def split: if_splits)

definition auto_limit :: "PowerPlanningConfiguration \<Rightarrow> f32" where
  "auto_limit planning = fmax fzero (fsub (planning_P_budget planning) (planning_P_reserve planning))"

lemma planCycle_decides:
  assumes ok: "planning_ok (registry c)" and d: "distinct ps"
  shows "\<exists>snapshot c' sel.
    planCycle api clock (filterOf (registry c) ps) c = Some (snapshot, c') \<and>
    decides (registry c) (filter (at (registry c) isAuto) ps) sel (registry c') \<and>
    selected_within (registry c) sel (P_auto_available (powerBudget (batteryMonitor c'))) \<and>
    (f32_ok (planning_P_budget (powerPlanning (centralConfigurationStore c))) \<longrightarrow>
       selected_within (registry c) sel (auto_limit (powerPlanning (centralConfigurationStore c)))) \<and>
    (sel \<noteq> [] \<longrightarrow> planning_configured (powerPlanning (centralConfigurationStore c)))"
proof -
  let ?pl = "powerPlanning (centralConfigurationStore c)"
  let ?f = "filterOf (registry c) ps"
  obtain hours c1 where h: "computeRemainingRequiredRuntimeHours (planning_requiredRuntimeHours ?pl)
      (currentTimeValid clock) (nowEpochSeconds clock) c = (hours, c1)" by fastforce
  note c1 = computeRemaining_frame [OF h]
  obtain good pm where b: "planBudget ?pl (sumFixedOnPowerWatts (registry c) ?f) hours (batteryMonitor c1) = (good, pm)"
    by fastforce
  have off: ?thesis
    if "planCycle api clock ?f c = Some (s, switchOffAutoLoads api ?f c2)" and "registry c2 = registry c" for s c2
    using that switchOffAutoLoads_decides(1) [of c2 ps api] ok d by (auto simp: selected_within_def)
  consider "\<not> planning_configured ?pl \<or> \<not> runtimeInputsReady c1 \<or> \<not> good"
    | "planning_configured ?pl" "runtimeInputsReady c1" good by blast
  then show ?thesis
  proof cases
    case 1
    then have "\<exists>s. planCycle api clock ?f c = Some (s, switchOffAutoLoads api ?f c1) \<or>
        planCycle api clock ?f c = Some (s, switchOffAutoLoads api ?f (c1\<lparr>batteryMonitor := pm\<rparr>))"
      by (simp add: planCycle_def Let_def h b) blast
    then show ?thesis using off [of _ c1] off [of _ "c1\<lparr>batteryMonitor := pm\<rparr>"] c1(1) by auto
  next
    case 2
    let ?c2 = "c1\<lparr>batteryMonitor := pm\<rparr>"
    obtain q where q: "updatePowerBudget q = (True, batteryMonitor ?c2)"
      "P_budget (powerBudget q) = planning_P_budget ?pl" "P_reserve (powerBudget q) = planning_P_reserve ?pl"
      using planBudget_budget b 2 by fastforce
    have reg: "registry ?c2 = registry c" by (simp add: c1)
    obtain s' c' sel where r:
      "planAutoLoads api (localClock clock) ?f (new_PlanningSnapshot\<lparr>
            snap_fixedOnCount := length (fixedOnLoads ?f),
            snap_fixedOffCount := length (fixedOffLoads ?f),
            snap_automaticCandidateCount := length (autoCandidateLoads ?f)\<rparr>) ?c2 = Some (s', c')"
      "decides (registry c) (filter (at (registry c) isAuto) ps) sel (registry c')"
      "selected_within (registry c) sel (P_auto_available (powerBudget (batteryMonitor c')))"
      "P_auto_available (powerBudget (batteryMonitor c')) = P_auto_available (powerBudget (batteryMonitor ?c2))"
      using planAutoLoads_decides [of ?c2, unfolded reg, OF ok d q(1)] by blast
    have "selected_within (registry c) sel (auto_limit ?pl)" if budget: "f32_ok (planning_P_budget ?pl)"
    proof -
      note avail = updatePowerBudget_available(1,2) [OF q(1), unfolded q(2,3), OF budget]
      show ?thesis
        using r(3) fle_trans [OF _ avail(2)] fle_trans [OF avail]
        unfolding selected_within_def auto_limit_def r(4) by blast
    qed
    moreover have "planCycle api clock ?f c = Some (s', c')"
      using 2 r(1) by (simp add: planCycle_def Let_def h b)
    ultimately show ?thesis using r(2,3) 2(1) by blast
  qed
qed

section \<open>The Loads of a cycle\<close>

text \<open>The Loads a cycle plans with: those of the Nodes that take part, with their stored settings.\<close>

definition cycleLoads :: "Clock \<Rightarrow> ('g, 'n, 'i) Central \<Rightarrow> Load list" where
  "cycleLoads clock c =
     concat (map (\<lambda>pn. map (\<lambda>l. snd (applyToLoad (centralLoadConfigurationStore c) l)) (node_loads (plan_node pn)))
       (filter (planned (commissioningRegistry c) (nowMilliseconds clock)) (registry c)))"

lemma map_filter_nth: "map f (filter P xs) = map (\<lambda>i. f (xs ! i)) (filter (\<lambda>i. P (xs ! i)) [0..<length xs])"
proof -
  have "filter P xs = filter P (map ((!) xs) [0..<length xs])" by (simp add: map_nth)
  also have "\<dots> = map ((!) xs) (filter (\<lambda>i. P (xs ! i)) [0..<length xs])" by (simp add: filter_map o_def)
  finally show ?thesis by (simp add: o_def)
qed

lemma planned_key: "plan_key pn = plan_key pn' \<Longrightarrow> planned rs now pn = planned rs now pn'"
  by (simp add: planned_def isNodeOnline_def plan_key_def)

lemma loads_pointersOf:
  "i < length ns \<Longrightarrow> map (the \<circ> getLoadAt ns) (pointersOf ns i) = node_loads (plan_node (ns ! i))"
  by (intro nth_equalityI) (simp_all add: pointersOf_def getLoadAt_def)

lemma cycleLoads_pointers:
  assumes ok: "planning_ok (registry c)"
  shows "map (the \<circ> getLoadAt (applyStoredLoadSettings (centralLoadConfigurationStore c) (registry c)))
      (plannedPointers (commissioningRegistry c) (nowMilliseconds clock)
        (applyStoredLoadSettings (centralLoadConfigurationStore c) (registry c))) = cycleLoads clock c"
proof -
  let ?es = "centralLoadConfigurationStore c" and ?ns = "registry c"
  let ?rs = "commissioningRegistry c" and ?now = "nowMilliseconds clock"
  let ?applied = "applyStoredLoadSettings ?es ?ns"
  note a = applyStoredLoadSettings_at [OF ok, of ?es]
  have len: "length ?applied = length ?ns" by (rule same_frame_length [OF a(1)])
  have key: "plan_key (?applied ! i) = plan_key (?ns ! i)" if "i < length ?ns" for i
    by (rule same_frame_nth [OF a(1) that])
  have loads: "node_loads (plan_node (?applied ! i)) =
      map (\<lambda>l. snd (applyToLoad ?es l)) (node_loads (plan_node (?ns ! i)))" if i: "i < length ?ns" for i
  proof (rule nth_equalityI)
    have "length (map load_id (node_loads (plan_node (?applied ! i)))) =
          length (map load_id (node_loads (plan_node (?ns ! i))))"
      using key [OF i] by (simp add: plan_key_def del: length_map)
    then show l: "length (node_loads (plan_node (?applied ! i))) =
      length (map (\<lambda>l. snd (applyToLoad ?es l)) (node_loads (plan_node (?ns ! i))))" by simp
    fix j assume j: "j < length (node_loads (plan_node (?applied ! i)))"
    show "node_loads (plan_node (?applied ! i)) ! j =
      map (\<lambda>l. snd (applyToLoad ?es l)) (node_loads (plan_node (?ns ! i))) ! j"
      using a(2) [of "(i, j)"] i j l len by (simp add: getLoadAt_def)
  qed
  have "map (the \<circ> getLoadAt ?applied) (plannedPointers ?rs ?now ?applied) =
    concat (map (\<lambda>i. map (the \<circ> getLoadAt ?applied) (pointersOf ?applied i))
      (filter (\<lambda>i. planned ?rs ?now (?applied ! i)) [0..<length ?applied]))"
    by (simp add: plannedPointers_def map_concat o_def)
  also have "\<dots> = concat (map (\<lambda>i. map (\<lambda>l. snd (applyToLoad ?es l)) (node_loads (plan_node (?ns ! i))))
      (filter (\<lambda>i. planned ?rs ?now (?ns ! i)) [0..<length ?ns]))"
  proof -
    have "filter (\<lambda>i. planned ?rs ?now (?applied ! i)) [0..<length ?applied] =
      filter (\<lambda>i. planned ?rs ?now (?ns ! i)) [0..<length ?ns]"
      unfolding len using planned_key [OF key] by (intro filter_cong) auto
    then show ?thesis
      using loads loads_pointersOf [of _ ?applied] len by (intro arg_cong [where f = concat] map_cong) auto
  qed
  also have "\<dots> = cycleLoads clock c"
    by (simp add: cycleLoads_def map_filter_nth [of _ _ "registry c"])
  finally show ?thesis .
qed

definition commandFor :: "Load list \<Rightarrow> Load \<Rightarrow> RelayTarget" where
  "commandFor selected l =
     \<lparr>target_nodeMacAddress = getMacAddress l, target_relayPin = getRelayPin l,
      target_desiredOn = (load_mode l = FIXED_ON \<or> l \<in> set selected)\<rparr>"

definition totalWatts :: "Load list \<Rightarrow> f32" where
  "totalWatts ls = foldl (\<lambda>t l. fadd t (load_power l)) fzero ls"

lemma calculateTotalPowerWatts_loads:
  assumes "\<And>p. p \<in> set ps \<Longrightarrow> \<exists>l. mem p = Some l \<and> load_power l = load_power (g p)"
  shows "calculateTotalPowerWatts mem ps = totalWatts (map g ps)"
proof -
  have "foldl (\<lambda>t p. case mem p of None \<Rightarrow> t | Some l \<Rightarrow> fadd t (load_power l)) t ps =
        foldl (\<lambda>t l. fadd t (load_power l)) t (map g ps)" for t
    using assms by (induction ps arbitrary: t) fastforce+
  then show ?thesis by (simp add: calculateTotalPowerWatts_def totalWatts_def)
qed

lemma mset_filterOf:
  "mset (fixedOffLoads (filterOf ns ps) @ autoCandidateLoads (filterOf ns ps) @ fixedOnLoads (filterOf ns ps)) =
   mset (filter (at ns (\<lambda>l. isFixed l \<or> isAuto l)) ps)"
  by (induction ps) (auto simp: filterOf_def at_def isFixed_def isAuto_def split: option.splits)

lemma map_filter_Some: "(\<And>p. p \<in> set ps \<Longrightarrow> g p = Some (h p)) \<Longrightarrow> List.map_filter g ps = map h ps"
  by (induction ps) (auto simp: List.map_filter_def)

lemma distinct_cycle_ids:
  assumes ok: "planning_ok ns" and d: "distinct ps" and p: "\<And>p. p \<in> set ps \<Longrightarrow> getLoadAt ns p \<noteq> None"
  shows "distinct (map (load_id \<circ> the \<circ> getLoadAt ns) ps)"
proof (subst distinct_map, intro conjI d inj_onI)
  fix p q assume pq: "p \<in> set ps" "q \<in> set ps"
    and eq: "(load_id \<circ> the \<circ> getLoadAt ns) p = (load_id \<circ> the \<circ> getLoadAt ns) q"
  obtain i j k m where ij: "p = (i, j)" "q = (k, m)" by (cases p, cases q)
  obtain l l' where l: "getLoadAt ns (i, j) = Some l" "getLoadAt ns (k, m) = Some l'"
    using p pq ij by blast
  with eq ij have "getMacAddress l = getMacAddress l'" "getRelayPin l = getRelayPin l'"
    by (simp_all add: getMacAddress_def getRelayPin_def)
  note l1 = l(1) [unfolded getLoadAt_Some] and l2 = l(2) [unfolded getLoadAt_Some]
  have "map plan_mac ns ! i = map plan_mac ns ! k"
    using getLoadAt_owner(1) [OF ok l(1)] getLoadAt_owner(1) [OF ok l(2)] l1 l2 \<open>getMacAddress l = _\<close> by simp
  then have ik: "i = k" using ok l1 l2 by (subst (asm) nth_eq_iff_index_eq) (simp_all add: planning_ok_def)
  have "distinct (map getRelayPin (node_loads (plan_node (ns ! i))))"
    using ok l1 by (simp add: planning_ok_def list_all_length node_ok_def)
  moreover have "map getRelayPin (node_loads (plan_node (ns ! i))) ! j =
    map getRelayPin (node_loads (plan_node (ns ! i))) ! m"
    using l1 l2 ik \<open>getRelayPin l = _\<close> by simp
  ultimately have "j = m" using l1 l2 ik by (subst (asm) nth_eq_iff_index_eq) simp_all
  then show "p = q" by (simp add: ij ik)
qed

lemma decides_load:
  "decides ns autos sel ns' \<Longrightarrow> map_option summary (getLoadAt ns' q) =
     map_option (\<lambda>l. summary (if q \<in> set autos then setMode (auto_mode (q \<in> set sel)) l else l))
       (getLoadAt ns q)"
  unfolding decides_def by blast

text \<open>What the targets are, once the selection is made; \<open>g\<close> reads the Load at a pointer.\<close>

lemma decided_command:
  assumes dec: "decides ns (filter (\<lambda>p. isAuto (g p)) ps) sel ns'"
    and some: "getLoadAt ns p = Some (g p)" and p: "p \<in> set ps" and inj: "inj_on g (set ps)"
  shows "\<exists>l. getLoadAt ns' p = Some l \<and> relayTargetOf l = commandFor (map g sel) (g p)"
proof -
  have sel: "p \<in> set sel \<Longrightarrow> isAuto (g p)" and in_sel: "g p \<in> set (map g sel) \<longleftrightarrow> p \<in> set sel"
    using dec p inj by (auto simp: decides_def inj_on_def)
  let ?m = "if isAuto (g p) then setMode (auto_mode (p \<in> set sel)) (g p) else g p"
  have "map_option summary (getLoadAt ns' p) = Some (summary ?m)"
    using decides_load [OF dec, of p] some p by simp
  then obtain l where l: "getLoadAt ns' p = Some l" "summary l = summary ?m" by auto
  have "relayTargetOf l = relayTargetOf ?m"
    using summary_cong(3,6) [OF l(2)] by (simp add: relayTargetOf_def getMacAddress_def getRelayPin_def)
  also have "\<dots> = commandFor (map g sel) (g p)"
    using sel in_sel
    by (auto simp: relayTargetOf_def commandFor_def getMacAddress_def getRelayPin_def isOn_def isAuto_def
        auto_mode_def)
  finally show ?thesis using l(1) by blast
qed

lemma decided_targets:
  assumes dec: "decides ns (filter (\<lambda>p. isAuto (g p)) ps) sel ns'"
    and some: "\<And>p. p \<in> set ps \<Longrightarrow> getLoadAt ns p = Some (g p)" and inj: "inj_on g (set ps)"
  shows "mset (buildRelayTargets ns' (filterOf ns ps)) =
    mset (map (commandFor (map g sel)) (filter (\<lambda>l. isFixed l \<or> isAuto l) (map g ps)))"
proof -
  define h where "h p = the (getLoadAt ns' p)" for p
  let ?f = "filterOf ns ps"
  let ?XS = "fixedOffLoads ?f @ autoCandidateLoads ?f @ fixedOnLoads ?f"
  have XS: "set ?XS \<subseteq> set ps" by (auto simp: filterOf_def)
  have h: "getLoadAt ns' p = Some (h p)" "relayTargetOf (h p) = commandFor (map g sel) (g p)"
    if "p \<in> set ?XS" for p
  proof -
    have "p \<in> set ps" using that XS by blast
    from decided_command [OF dec some [OF this] this inj] show "getLoadAt ns' p = Some (h p)"
      "relayTargetOf (h p) = commandFor (map g sel) (g p)" by (auto simp: h_def)
  qed
  have "mset (buildRelayTargets ns' ?f) = image_mset (\<lambda>p. relayTargetOf (h p)) (mset ?XS)"
    unfolding buildRelayTargets_def mset_buildDispatchOrder
    by (subst map_filter_Some [OF h(1)]) (simp_all add: image_mset.compositionality o_def)
  also have "\<dots> = image_mset (\<lambda>p. commandFor (map g sel) (g p)) (mset ?XS)"
    using h(2) by (intro image_mset_cong) simp
  also have "\<dots> = mset (map (commandFor (map g sel)) (map g (filter (at ns (\<lambda>l. isFixed l \<or> isAuto l)) ps)))"
    unfolding mset_filterOf by (simp add: image_mset.compositionality o_def)
  also have "map g (filter (at ns (\<lambda>l. isFixed l \<or> isAuto l)) ps) = filter (\<lambda>l. isFixed l \<or> isAuto l) (map g ps)"
    unfolding filter_map
    by (intro arg_cong [where f = "map g"] filter_cong refl) (simp add: at_def some)
  finally show ?thesis .
qed

text \<open>The whole cycle, in terms of the Loads it plans with.\<close>

lemma cycle_result:
  assumes ok: "planning_ok (registry c)"
  shows "\<exists>targets c' selected.
    runOptimizationCycle api clock c = Some (targets, c') \<and>
    same_frame (registry c) (registry c') \<and>
    distinct (map load_id (cycleLoads clock c)) \<and>
    distinct selected \<and> set selected \<subseteq> {l \<in> set (cycleLoads clock c). isAuto l} \<and>
    mset targets = mset (map (commandFor selected)
      (filter (\<lambda>l. isFixed l \<or> isAuto l) (cycleLoads clock c))) \<and>
    (\<exists>ts. targets = buildDispatchOrder ts) \<and>
    (selected = [] \<or>
      planning_configured (powerPlanning (centralConfigurationStore c)) \<and>
      fle (totalWatts selected) (P_auto_available (powerBudget (batteryMonitor c'))) \<and>
      (f32_ok (planning_P_budget (powerPlanning (centralConfigurationStore c))) \<longrightarrow>
         fle (totalWatts selected) (auto_limit (powerPlanning (centralConfigurationStore c)))))"
proof -
  let ?pl = "powerPlanning (centralConfigurationStore c)"
  define ns where "ns = applyStoredLoadSettings (centralLoadConfigurationStore c) (registry c)"
  define ps where "ps = plannedPointers (commissioningRegistry c) (nowMilliseconds clock) ns"
  define g where "g = the \<circ> getLoadAt ns"
  have L: "map g ps = cycleLoads clock c"
    unfolding g_def ps_def ns_def by (rule cycleLoads_pointers [OF ok])
  have frame0: "same_frame (registry c) ns"
    unfolding ns_def by (rule applyStoredLoadSettings_at(1) [OF ok])
  have ok0: "planning_ok ns" using same_frame_ok [OF frame0] ok by simp
  have d: "distinct ps" by (simp add: ps_def)
  have some: "getLoadAt ns p = Some (g p)" if "p \<in> set ps" for p
    using that plannedPointers_set [of "fst p" "snd p"] by (auto simp: ps_def g_def)
  have "distinct (map (load_id \<circ> the \<circ> getLoadAt ns) ps)"
    by (rule distinct_cycle_ids [OF ok0 d], drule some) simp
  then have ids: "distinct (map (load_id \<circ> g) ps)" by (simp add: g_def comp_assoc)
  define ns1 where "ns1 = resetFixedRejectionReasons (filterOf ns ps) ns"
  note reset = resetFixedRejectionReasons_at [OF ok0 d, folded ns1_def]
  have loads1: "same_loads ns ns1"
    unfolding same_loads_def by (auto simp: reset(2) option.map_comp o_def)
  define c1 where "c1 = c\<lparr>registry := ns1\<rparr>"
  have prep: "prepareCycle clock c = (filterOf ns ps, c1)"
    by (simp add: prepareCycle_def Let_def buildLoadFilter_filterOf c1_def ns1_def ns_def ps_def)
  have c1: "registry c1 = ns1" "centralConfigurationStore c1 = centralConfigurationStore c"
    by (simp_all add: c1_def)
  have "planning_ok (registry c1)" using same_frame_ok [OF reset(1)] ok0 by (simp add: c1)
  from planCycle_decides [OF this d, unfolded c1, of api clock] obtain s c2 sel where
    r: "planCycle api clock (filterOf ns ps) c1 = Some (s, c2)"
      "decides ns1 (filter (at ns1 isAuto) ps) sel (registry c2)"
      "selected_within ns1 sel (P_auto_available (powerBudget (batteryMonitor c2)))"
      "f32_ok (planning_P_budget ?pl) \<longrightarrow> selected_within ns1 sel (auto_limit ?pl)" "sel \<noteq> [] \<longrightarrow> planning_configured ?pl"
    by (auto simp: filterOf_same [OF loads1])
  have at_ps: "at ns P p = P (g p)" if "p \<in> set ps" for P p using some [OF that] by (simp add: at_def)
  have "at ns1 isAuto p = at ns isAuto p" for p
    by (rule same_loads_at [OF loads1], drule summary_cong(4)) simp
  then have autos: "filter (at ns1 isAuto) ps = filter (\<lambda>p. isAuto (g p)) ps"
    by (intro filter_cong refl) (simp add: at_ps)
  have dec: "decides ns (filter (\<lambda>p. isAuto (g p)) ps) sel (registry c2)"
    using decides_same_loads [OF r(2) loads1 reset(1)] by (simp add: autos)
  then have sel: "distinct sel" "set sel \<subseteq> set ps" "\<And>p. p \<in> set sel \<Longrightarrow> isAuto (g p)"
    and frame2: "same_frame ns (registry c2)" by (auto simp: decides_def)
  have inj: "inj_on g (set ps)"
    using ids by (auto simp: distinct_map comp_assoc intro: inj_on_imageI2)
  have targets: "mset (buildRelayTargets (registry c2) (filterOf ns ps)) = mset (map (commandFor (map g sel))
      (filter (\<lambda>l. isFixed l \<or> isAuto l) (cycleLoads clock c)))"
    using decided_targets [OF dec some inj] by (simp add: L)
  have "\<exists>l. getLoadAt ns1 p = Some l \<and> load_power l = load_power (g p)" if "p \<in> set sel" for p
    using some [of p] that sel(2) reset(2) [of p] by (auto simp: step_defs)
  then have total: "calculateTotalPowerWatts (getLoadAt ns1) sel = totalWatts (map g sel)"
    by (rule calculateTotalPowerWatts_loads)
  define c3 where "c3 = c2\<lparr>latestPlanningSnapshot := s, lastOptimizationEpochSeconds :=
    (if currentTimeValid clock then nowEpochSeconds clock else lastOptimizationEpochSeconds c2)\<rparr>"
  have run: "runOptimizationCycle api clock c = Some (buildRelayTargets (registry c2) (filterOf ns ps), c3)"
    by (simp add: runOptimizationCycle_def prep r(1) c3_def)
  have "distinct (map g sel)"
    using sel inj by (auto simp: distinct_map intro: inj_on_subset)
  moreover have "set (map g sel) \<subseteq> {l \<in> set (cycleLoads clock c). isAuto l}"
    using sel(2,3) by (auto simp flip: L)
  moreover have "distinct (map load_id (cycleLoads clock c))"
    using ids by (simp flip: L)
  moreover have "same_frame (registry c) (registry c3)"
    using same_frame_trans [OF frame0 frame2] by (simp add: c3_def)
  moreover have "\<exists>ts. buildRelayTargets (registry c2) (filterOf ns ps) = buildDispatchOrder ts"
    by (auto simp: buildRelayTargets_def)
  moreover have "map g sel = [] \<or> planning_configured ?pl \<and>
      fle (totalWatts (map g sel)) (P_auto_available (powerBudget (batteryMonitor c3))) \<and>
      (f32_ok (planning_P_budget ?pl) \<longrightarrow> fle (totalWatts (map g sel)) (auto_limit ?pl))"
    using r(3-5) by (auto simp: selected_within_def total c3_def)
  ultimately show ?thesis using run targets by blast
qed

section \<open>What a cycle commands\<close>

text \<open>
  C4: What a cycle switches on fits the budget. In a well-formed registry the optimisation cycle
  always returns, and the Auto Loads it commands ON are pairwise different Auto Loads of the
  Nodes that take part, whose ratings add up, in binary32, to at most the power the battery
  monitor publishes for Auto Loads and at most the configured budget less the reserve (0 where
  that is negative). Every other command ON is for a FIXED_ON Load. Without a planning
  configuration no Auto Load is commanded ON.
\<close>

theorem auto_commands_within_budget:
  assumes ok: "planning_ok (registry c)"
    and budget: "f32_ok (planning_P_budget (powerPlanning (centralConfigurationStore c)))"
  shows "\<exists>targets c' selected.
    runOptimizationCycle api clock c = Some (targets, c') \<and>
    distinct selected \<and> set selected \<subseteq> {l \<in> set (cycleLoads clock c). isAuto l} \<and>
    (\<lambda>t. (target_nodeMacAddress t, target_relayPin t)) ` {t \<in> set targets. target_desiredOn t} =
      (\<lambda>l. (getMacAddress l, getRelayPin l)) `
        ({l \<in> set (cycleLoads clock c). load_mode l = FIXED_ON} \<union> set selected) \<and>
    (let planning = powerPlanning (centralConfigurationStore c)
     in selected = [] \<or>
        planning_configured planning \<and>
        fle (totalWatts selected) (P_auto_available (powerBudget (batteryMonitor c'))) \<and>
        fle (totalWatts selected)
          (fmax fzero (fsub (planning_P_budget planning) (planning_P_reserve planning))))"
proof -
  obtain targets c' selected where r: "runOptimizationCycle api clock c = Some (targets, c')"
    "distinct selected" "set selected \<subseteq> {l \<in> set (cycleLoads clock c). isAuto l}"
    and t: "mset targets = mset (map (commandFor selected)
      (filter (\<lambda>l. isFixed l \<or> isAuto l) (cycleLoads clock c)))"
    and b: "selected = [] \<or>
      planning_configured (powerPlanning (centralConfigurationStore c)) \<and>
      fle (totalWatts selected) (P_auto_available (powerBudget (batteryMonitor c'))) \<and>
      fle (totalWatts selected) (auto_limit (powerPlanning (centralConfigurationStore c)))"
    using cycle_result [OF ok, of api clock] budget by blast
  have "set targets = commandFor selected ` {l \<in> set (cycleLoads clock c). isFixed l \<or> isAuto l}"
    using mset_eq_setD [OF t] by simp
  then have "{t \<in> set targets. target_desiredOn t} = commandFor selected `
      {l \<in> set (cycleLoads clock c). (isFixed l \<or> isAuto l) \<and> (load_mode l = FIXED_ON \<or> l \<in> set selected)}"
    by (simp add: Compr_image_eq) (auto simp: commandFor_def)
  also have "{l \<in> set (cycleLoads clock c). (isFixed l \<or> isAuto l) \<and> (load_mode l = FIXED_ON \<or> l \<in> set selected)} =
    {l \<in> set (cycleLoads clock c). load_mode l = FIXED_ON} \<union> set selected"
    using r(3) by (auto simp: isFixed_def)
  finally have "(\<lambda>t. (target_nodeMacAddress t, target_relayPin t)) ` {t \<in> set targets. target_desiredOn t} =
      (\<lambda>l. (getMacAddress l, getRelayPin l)) `
        ({l \<in> set (cycleLoads clock c). load_mode l = FIXED_ON} \<union> set selected)"
    by (simp add: image_image commandFor_def)
  with r b show ?thesis unfolding Let_def auto_limit_def by blast
qed

text \<open>
  C5: A cycle commands every Load exactly once and releases power before it uses it. For a
  well-formed registry the commands are, up to their order, one for each Load with a fixed or
  an Auto mode on the Nodes that take part (Central itself, and the Smart Nodes that are
  commissioned and have reported within the last ten seconds), with the stored settings
  applied: ON for FIXED_ON, OFF for FIXED_OFF. No Load occurs twice, no ON command stands
  before an OFF command, and the set of Nodes, their identity and the identity of their Loads
  are left as they were.
\<close>

theorem cycle_commands_every_load:
  assumes ok: "planning_ok (registry c)"
  shows "\<exists>targets c' on.
    runOptimizationCycle api clock c = Some (targets, c') \<and>
    mset targets = mset (map (\<lambda>l. \<lparr>target_nodeMacAddress = getMacAddress l,
        target_relayPin = getRelayPin l, target_desiredOn = on l\<rparr>)
      (filter (\<lambda>l. isFixed l \<or> isAuto l) (cycleLoads clock c))) \<and>
    (\<forall>l \<in> set (cycleLoads clock c). isFixed l \<longrightarrow> on l = (load_mode l = FIXED_ON)) \<and>
    distinct (map (\<lambda>t. (target_nodeMacAddress t, target_relayPin t)) targets) \<and>
    sorted_wrt (\<lambda>s t. \<not> (target_desiredOn s \<and> \<not> target_desiredOn t)) targets \<and>
    map plan_key (registry c') = map plan_key (registry c)"
proof -
  obtain targets c' selected ts where r: "runOptimizationCycle api clock c = Some (targets, c')"
    and frame: "same_frame (registry c) (registry c')" and d: "distinct (map load_id (cycleLoads clock c))"
    and sel: "set selected \<subseteq> {l \<in> set (cycleLoads clock c). isAuto l}"
    and t: "mset targets = mset (map (commandFor selected)
      (filter (\<lambda>l. isFixed l \<or> isAuto l) (cycleLoads clock c)))" and ts: "targets = buildDispatchOrder ts"
    using cycle_result [OF ok, of api clock] by blast
  let ?on = "\<lambda>l. load_mode l = FIXED_ON \<or> l \<in> set selected"
  have "distinct (map (\<lambda>l. (getMacAddress l, getRelayPin l)) (filter (\<lambda>l. isFixed l \<or> isAuto l) (cycleLoads clock c)))"
    using d by (auto simp: distinct_map getMacAddress_def getRelayPin_def inj_on_def intro!: LoadId.equality)
  moreover have "mset (map (\<lambda>t. (target_nodeMacAddress t, target_relayPin t)) targets) =
    mset (map (\<lambda>l. (getMacAddress l, getRelayPin l)) (filter (\<lambda>l. isFixed l \<or> isAuto l) (cycleLoads clock c)))"
    by (simp add: t image_mset.compositionality o_def commandFor_def)
  ultimately have "distinct (map (\<lambda>t. (target_nodeMacAddress t, target_relayPin t)) targets)"
    using mset_eq_imp_distinct_iff by blast
  moreover have "sorted_wrt (\<lambda>s t. \<not> (target_desiredOn s \<and> \<not> target_desiredOn t)) targets"
    unfolding ts by (rule sorted_buildDispatchOrder)
  moreover have "\<forall>l \<in> set (cycleLoads clock c). isFixed l \<longrightarrow> ?on l = (load_mode l = FIXED_ON)"
    using sel by (auto simp: isFixed_def isAuto_def)
  ultimately show ?thesis
    using r t frame unfolding same_frame_def commandFor_def by (intro exI [of _ ?on] exI) simp
qed

definition example_loads :: "Load list" where
  "example_loads =
     [new_Load \<lparr>id_mac = zero_mac, id_pin = 4\<rparr> ''pump'' (watts 100) 5 AC AUTO_OFF,
      new_Load \<lparr>id_mac = zero_mac, id_pin = 5\<rparr> ''light'' (watts 20) 1 AC FIXED_ON]"

definition example_central :: "(unit, string \<Rightarrow> nvs_value option, unit) Central" where
  "example_central = (new_Central zero_mac () (\<lambda>_. None) ())
     \<lparr>registry := addLocalCentralNode ''central'' \<lparr>node_macAddress = zero_mac, node_loads = example_loads\<rparr> 0 [],
      centralConfigurationStore := new_CentralConfiguration\<lparr>powerPlanning :=
        \<lparr>planning_configured = True, planning_P_budget = watts 500, planning_P_reserve = watts 50,
         planning_minimumStateOfChargePercent = fzero, planning_requiredRuntimeHours = fzero\<rparr>\<rparr>\<rparr>"

definition example_now :: Clock where
  "example_now = \<lparr>nowMilliseconds = 60000, currentTimeValid = False, nowEpochSeconds = 0,
     localClock = \<lparr>currentLocalHour = None, currentLocalMinute = None\<rparr>\<rparr>"

lemma example_loads_eq:
  "example_loads =
     [\<lparr>load_id = \<lparr>id_mac = zero_mac, id_pin = 4\<rparr>, load_name = ''pump'', load_reason = 0,
       load_power = watts 100, load_powerType = AC, load_priority = 5, load_mode = AUTO_OFF,
       load_schedule = no_schedule\<rparr>,
      \<lparr>load_id = \<lparr>id_mac = zero_mac, id_pin = 5\<rparr>, load_name = ''light'', load_reason = 0,
       load_power = watts 20, load_powerType = AC, load_priority = 1, load_mode = FIXED_ON,
       load_schedule = no_schedule\<rparr>]"
  by (simp add: example_loads_def new_Load_def setPowerRatingWatts_def not_flt_watts)

lemma example_registry:
  "registry example_central =
     [\<lparr>plan_node = \<lparr>node_macAddress = zero_mac, node_loads = example_loads\<rparr>, plan_nodeName = ''central'',
       plan_nextHop = zero_mac, plan_hopCount = 0, plan_isCentralNode = True, plan_lastSeen = 0,
       plan_pendingReport = new_PendingNodeReport\<rparr>]"
  by (simp add: example_central_def addLocalCentralNode_def findNodeByMacAddress_def new_Central_def)

lemma example_central_ok:
  "planning_ok (registry example_central)"
  "f32_ok (planning_P_budget (powerPlanning (centralConfigurationStore example_central)))"
  by (simp add: example_registry planning_ok_def node_ok_def example_loads_eq getRelayPin_def getMacAddress_def)
    (simp add: example_central_def f32_ok_watts)

lemma example_cycleLoads: "cycleLoads example_now example_central = example_loads"
proof -
  have "centralLoadConfigurationStore example_central = []"
    by (simp add: example_central_def new_Central_def)
  then show ?thesis
    by (simp add: cycleLoads_def example_registry planned_def applyToLoad_def findConfiguration_def)
qed

theorem auto_commands_within_budget_witness:
  "\<exists>targets c' selected. runOptimizationCycle ram_nvs example_now example_central = Some (targets, c') \<and>
     set selected \<subseteq> set example_loads \<and>
     (selected = [] \<or> fle (totalWatts selected) (fmax fzero (fsub (watts 500) (watts 50))))"
proof -
  have "powerPlanning (centralConfigurationStore example_central) =
    \<lparr>planning_configured = True, planning_P_budget = watts 500, planning_P_reserve = watts 50,
     planning_minimumStateOfChargePercent = fzero, planning_requiredRuntimeHours = fzero\<rparr>"
    by (simp add: example_central_def)
  with auto_commands_within_budget [OF example_central_ok, of ram_nvs example_now]
  obtain targets c' selected where "runOptimizationCycle ram_nvs example_now example_central = Some (targets, c')"
    "set selected \<subseteq> {l \<in> set example_loads. isAuto l}"
    "selected = [] \<or> fle (totalWatts selected) (fmax fzero (fsub (watts 500) (watts 50)))"
    unfolding Let_def example_cycleLoads by auto
  then show ?thesis by blast
qed

theorem cycle_commands_every_load_witness:
  "\<exists>targets c'. runOptimizationCycle ram_nvs example_now example_central = Some (targets, c') \<and>
     length targets = 2 \<and> sorted_wrt (\<lambda>s t. \<not> (target_desiredOn s \<and> \<not> target_desiredOn t)) targets"
proof -
  obtain targets c' on where r: "runOptimizationCycle ram_nvs example_now example_central = Some (targets, c')"
    and t: "mset targets = mset (map (\<lambda>l. \<lparr>target_nodeMacAddress = getMacAddress l,
        target_relayPin = getRelayPin l, target_desiredOn = on l\<rparr>)
      (filter (\<lambda>l. isFixed l \<or> isAuto l) (cycleLoads example_now example_central)))"
    and s: "sorted_wrt (\<lambda>s t. \<not> (target_desiredOn s \<and> \<not> target_desiredOn t)) targets"
    using cycle_commands_every_load [OF example_central_ok(1), of ram_nvs example_now] by blast
  have "size (mset targets) = 2"
    unfolding t example_cycleLoads by (simp add: example_loads_eq isFixed_def isAuto_def)
  with r s show ?thesis by auto
qed

end
