(* ===== verification/Central_Commands.thy ===== *)
theory Central_Commands
  imports Routing Planning_Results
begin

text \<open>
  The handlers of the Central Node's firmware (\<open>src/central/namespace.h\<close>): the relay command
  and the wait for its acknowledgement, the packets that arrive from the Smart Nodes, and the
  commands of the user. The calls into the ESP-IDF drivers and the radio are a record of
  functions; the mutex is taken as obtained, except in the dispatch of a relay command, where every
  attempt to take it may fail. The semaphore that brings the next cycle forward,
  the MQTT messages and the console output are left out.
\<close>

section \<open>Requests, packets and results\<close>

record CommandResult =
  accepted :: bool
  completed :: bool
  reason :: string

definition commandResult :: "bool \<Rightarrow> bool \<Rightarrow> string \<Rightarrow> CommandResult" where
  "commandResult a c text = \<lparr>accepted = a, completed = c, reason = copyTruncated 128 (Some text)\<rparr>"

text \<open>A flag with the value it guards is an option.\<close>

record LoadCommandRequest =
  lc_nodeMacAddress :: MacAddress
  lc_relayPin :: u8
  lc_priority :: "u16 option"
  lc_mode :: "LoadModeValue option"
  lc_schedule :: "AutoSchedule option"

datatype ConfigCommandAction =
  ACTION_UNKNOWN | COMMISSION_NODE | RENAME_NODE | DECOMMISSION_NODE | CONFIGURE_LOAD
| CONFIGURE_BATTERY_SENSOR | REMOVE_LOAD | CONFIGURE_POWER_PLANNING

record ConfigCommandRequest =
  cc_commandId :: u32
  cc_action :: ConfigCommandAction
  cc_nodeMacAddress :: MacAddress
  cc_hasFriendlyName :: bool
  cc_friendlyName :: string
  cc_hasLoadConfiguration :: bool
  cc_loadName :: string
  cc_relayPin :: u8
  cc_relayActiveHigh :: bool
  cc_mode :: LoadModeValue
  cc_priority :: u16
  cc_powerType :: LoadPowerType
  cc_powerRatingWatts :: f32
  cc_schedule :: AutoSchedule
  cc_hasRelayPin :: bool
  cc_hasBatterySensorConfiguration :: bool
  cc_batteryShuntResistanceOhms :: f32
  cc_batteryMaximumExpectedCurrentAmps :: f32
  cc_batteryEmaAlpha :: f32
  cc_batteryCapacityAmpHours :: f32
  cc_batteryInitialStateOfChargePercent :: f32
  cc_batteryNominalVoltageVolts :: f32
  cc_hasPowerPlanningConfiguration :: bool
  cc_P_budget :: f32
  cc_P_reserve :: f32
  cc_minimumStateOfChargePercent :: f32
  cc_requiredRuntimeHours :: f32

datatype SimulationCommandRequest =
  ENABLE | DISABLE | SET_VALUES "(f32 \<times> f32) option" "f32 option"

text \<open>
  The packets of \<open>HardwareConfigurationPackets.h\<close>, \<open>NodeReportPackets.h\<close> and
  \<open>CommissioningPackets.h\<close> that Central sends or receives. \<open>scheduleHour\<close> and
  \<open>scheduleStartHour\<close> are two names of the same byte.
\<close>

record ConfigureLoadCommandPacket =
  clp_commandId :: u32
  clp_loadName :: string
  clp_relayPin :: u8
  clp_relayActiveHigh :: u8
  clp_mode :: u8
  clp_powerType :: u8
  clp_priority :: u16
  clp_powerRatingWatts :: f32
  clp_scheduleEnabled :: u8
  clp_scheduleStartHour :: u8
  clp_scheduleStartMinute :: u8
  clp_scheduleEndHour :: u8
  clp_scheduleEndMinute :: u8

record RelayCommandPacket =
  rcp_relayPin :: u8
  rcp_desiredState :: u8
  rcp_commandId :: u32

record RelayCommandAcknowledgementPacket =
  rca_relayPin :: u8
  rca_commandId :: u32
  rca_requestedState :: u8
  rca_success :: u8
  rca_failureReason :: u8

record ConfigureLoadAcknowledgementPacket =
  cla_commandId :: u32
  cla_relayPin :: u8
  cla_success :: u8
  cla_failureReason :: u8

record CommissionAckPacket =
  cap_commandId :: u32
  cap_success :: u8
  cap_resultingState :: u8

record IdentityReportPacket =
  irp_role :: u8
  irp_lifecycleState :: u8
  irp_firmwareVersion :: string
  irp_chipModel :: string
  irp_relayCapabilityCount :: u8
  irp_relayPins :: "u8 list"
  irp_diagnostics :: Diagnostics

datatype Packet =
  RELAY_COMMAND RelayCommandPacket
| CONFIGURE_LOAD_COMMAND ConfigureLoadCommandPacket
| REMOVE_LOAD_COMMAND u32 u8
| COMMISSION_COMMAND u32 string
| DECOMMISSION_COMMAND u32
| FACTORY_RESET_COMMAND u32 u8

text \<open>
  What the firmware calls: the drivers, the radio, which reports whether a packet was sent, and
  \<open>nvs_flash_erase\<close>, which fails or gives what it leaves of a namespace.
\<close>

record ('g, 'n, 'i) Platform =
  gpio :: "'g GpioApi"
  nvs :: "'n NvsApi"
  i2c :: "'i I2cApi"
  localMac :: MacAddress
  sendTo :: "MacAddress \<Rightarrow> MacAddress \<Rightarrow> Packet \<Rightarrow> bool"
  flashErase :: "('n \<Rightarrow> 'n) option"

definition routeToSmartNode ::
  "('g, 'n, 'i) Platform \<Rightarrow> MacAddress \<Rightarrow> ('g, 'n, 'i) Central \<Rightarrow> MacAddress option" where
  "routeToSmartNode pf mac c = findNextHopFromCentral (localMac pf) mac (registry c)"

section \<open>Commanding a relay\<close>

text \<open>\<open>handleRelayAcknowledgement\<close>: only an acknowledgement that matches the pending command in every field completes it.\<close>

definition handleRelayAcknowledgement ::
  "MacAddress \<Rightarrow> RelayCommandAcknowledgementPacket \<Rightarrow> ('g, 'n, 'i) Central \<Rightarrow> ('g, 'n, 'i) Central" where
  "handleRelayAcknowledgement originMac ack c =
     (case findPendingCommand (rca_commandId ack) (relayCommandDispatcher c) of
        None \<Rightarrow> c
      | Some p \<Rightarrow>
          if pending_nodeMacAddress p = originMac \<and> pending_relayPin p = rca_relayPin ack \<and>
             pending_desiredOn p = (rca_requestedState ack = 1)
          then
            let success = (rca_success ack \<noteq> 0)
            in c\<lparr>relayCommandErrorCount :=
                   (if \<not> success then relayCommandErrorCount c + 1 else relayCommandErrorCount c),
                 relayCommandDispatcher :=
                   snd (completeCommand (rca_commandId ack) success (relayCommandDispatcher c))\<rparr>
          else c)"

text \<open>
  The wait for the acknowledgement. A turn of the polling loop: the acknowledgements the
  communication task handles before it, whether \<open>stateMutex\<close> is obtained to see if the command is
  still pending, the acknowledgements handled before the result is read, and whether the mutex is
  obtained for that. A whole dispatch: the turns before the deadline, and whether the mutex is
  obtained to route the command, to count a failure of an own relay, to end a command that could
  not be sent, and to end one at the deadline.
\<close>

type_synonym RelayAcknowledgements = "(MacAddress \<times> RelayCommandAcknowledgementPacket) list"

record RelayPoll =
  poll_arrived :: RelayAcknowledgements
  poll_looks :: bool
  poll_late :: RelayAcknowledgements
  poll_reads :: bool

record RelayWait =
  wait_polls :: "RelayPoll list"
  taken_to_route :: bool
  taken_own_relay :: bool
  taken_after_send :: bool
  taken_at_deadline :: bool

definition handleRelayAcknowledgements ::
  "RelayAcknowledgements \<Rightarrow> ('g, 'n, 'i) Central \<Rightarrow> ('g, 'n, 'i) Central" where
  "handleRelayAcknowledgements acks = fold (\<lambda>(mac, ack). handleRelayAcknowledgement mac ack) acks"

fun awaitCompletion ::
  "u32 \<Rightarrow> bool \<Rightarrow> RelayPoll list \<Rightarrow> ('g, 'n, 'i) Central \<Rightarrow> bool \<times> ('g, 'n, 'i) Central" where
  "awaitCompletion commandId deadlineTaken [] c =
     (if \<not> deadlineTaken then (False, c)
      else case completeCommand commandId False (relayCommandDispatcher c) of
        (wasPending, d) \<Rightarrow>
          (False, c\<lparr>relayCommandDispatcher := d,
                    relayCommandErrorCount :=
                      (if wasPending then relayCommandErrorCount c + 1 else relayCommandErrorCount c)\<rparr>))"
| "awaitCompletion commandId deadlineTaken (p # later) c =
     (let c1 = handleRelayAcknowledgements (poll_arrived p) c
      in if poll_looks p \<and> \<not> isPending commandId (relayCommandDispatcher c1)
         then let c2 = handleRelayAcknowledgements (poll_late p) c1
              in (poll_reads p \<and> wasCommandSuccessful commandId (relayCommandDispatcher c2), c2)
         else awaitCompletion commandId deadlineTaken later c1)"

definition dispatchRelayTargetAndWait ::
  "('g, 'n, 'i) Platform \<Rightarrow> RelayTarget \<Rightarrow> RelayWait \<Rightarrow> ('g, 'n, 'i) Central \<Rightarrow> bool \<times> ('g, 'n, 'i) Central" where
  "dispatchRelayTargetAndWait pf t w c =
     (if target_nodeMacAddress t = localMac pf
      then case hw_setRelayState (gpio pf) (target_relayPin t) (target_desiredOn t) (localHardware c) of
             (success, h) \<Rightarrow>
               (success, c\<lparr>localHardware := h,
                           relayCommandErrorCount :=
                             (if \<not> success \<and> taken_own_relay w then relayCommandErrorCount c + 1
                              else relayCommandErrorCount c)\<rparr>)
      else if \<not> taken_to_route w then (False, c)
      else case routeToSmartNode pf (target_nodeMacAddress t) c of
        None \<Rightarrow> (False, c\<lparr>relayCommandErrorCount := relayCommandErrorCount c + 1\<rparr>)
      | Some nextHop \<Rightarrow>
          (case beginCommand t (relayCommandDispatcher c) of
             (commandId, d) \<Rightarrow>
               let c1 = c\<lparr>relayCommandDispatcher := d\<rparr>
               in if commandId = 0
                  then (False, c1\<lparr>relayCommandErrorCount := relayCommandErrorCount c1 + 1\<rparr>)
                  else if \<not> sendTo pf nextHop (target_nodeMacAddress t)
                              (RELAY_COMMAND \<lparr>rcp_relayPin = target_relayPin t,
                                 rcp_desiredState = (if target_desiredOn t then 1 else 0),
                                 rcp_commandId = commandId\<rparr>)
                  then (False,
                        if \<not> taken_after_send w then c1
                        else c1\<lparr>relayCommandDispatcher :=
                                  snd (completeCommand commandId False (relayCommandDispatcher c1)),
                                relayCommandErrorCount := relayCommandErrorCount c1 + 1\<rparr>)
                  else awaitCompletion commandId (taken_at_deadline w) (wait_polls w) c1))"

section \<open>Packets from the Smart Nodes\<close>

definition handleHardwareConfigurationAcknowledgement ::
  "('g, 'n, 'i) Platform \<Rightarrow> MacAddress \<Rightarrow> ConfigureLoadAcknowledgementPacket \<Rightarrow>
   ('g, 'n, 'i) Central \<Rightarrow> bool \<times> ('g, 'n, 'i) Central" where
  "handleHardwareConfigurationAcknowledgement pf originMac ack c =
     (case find (\<lambda>p. phc_commandId p = cla_commandId ack) (pendingHardwareCommands c) of
        None \<Rightarrow> (False, c)
      | Some p \<Rightarrow>
          if phc_nodeMacAddress p = originMac \<and> phc_relayPin p = cla_relayPin ack
          then
            let c1 = (if cla_success ack \<noteq> 0 \<and> phc_remove p
                      then
                        let es = snd (removeConfiguration originMac (cla_relayPin ack)
                                   (centralLoadConfigurationStore c))
                        in c\<lparr>registry := snd (removeRegistryLoad originMac (cla_relayPin ack) (registry c)),
                             centralLoadConfigurationStore := es,
                             loads_nvs := snd (config_persist (nvs pf) es (loads_nvs c))\<rparr>
                      else c)
            in (True, c1\<lparr>pendingHardwareCommands :=
                          filter (\<lambda>p. phc_commandId p \<noteq> cla_commandId ack) (pendingHardwareCommands c1)\<rparr>)
          else (False, c))"

definition handleCommissionAcknowledgement ::
  "('g, 'n, 'i) Platform \<Rightarrow> MacAddress \<Rightarrow> CommissionAckPacket \<Rightarrow> ('g, 'n, 'i) Central \<Rightarrow>
   bool \<times> ('g, 'n, 'i) Central" where
  "handleCommissionAcknowledgement pf originMac ack c =
     (case applyCommissionResult originMac (cap_commandId ack) (cap_success ack \<noteq> 0)
             (state_of_byte (cap_resultingState ack)) (commissioningRegistry c) of
        (applied, rs) \<Rightarrow>
          if \<not> applied then (False, c\<lparr>commissioningRegistry := rs\<rparr>)
          else (True, c\<lparr>commissioningRegistry := rs,
                        commissioning_nvs := snd (registry_persist (nvs pf) rs (commissioning_nvs c))\<rparr>))"

definition handleIdentityReport ::
  "MacAddress \<Rightarrow> IdentityReportPacket \<Rightarrow> u32 \<Rightarrow> ('g, 'n, 'i) Central \<Rightarrow> ('g, 'n, 'i) Central" where
  "handleIdentityReport originMac report now c =
     (if irp_role report > role_byte SMART \<or> unat (irp_relayCapabilityCount report) > MAX_RELAY_GPIO_CAPABILITIES
      then c
      else
        let rs = snd (recordDiscovered originMac (role_of_byte (irp_role report))
                   (Some (irp_firmwareVersion report)) (Some (irp_chipModel report))
                   (Some (irp_relayPins report)) (unat (irp_relayCapabilityCount report)) now
                   (commissioningRegistry c))
        in c\<lparr>commissioningRegistry := snd (updateDiagnostics originMac (irp_diagnostics report) rs)\<rparr>)"

text \<open>
  The branch of \<open>espNowCommunicationTask\<close> for a report: whether it was accepted, and the state.
  The settings are applied to every Load of the Node that reported.
\<close>

definition handleNodeReport ::
  "MacAddress \<Rightarrow> NodeReportPacket \<Rightarrow> u32 \<Rightarrow> ('g, 'n, 'i) Central \<Rightarrow> bool \<times> ('g, 'n, 'i) Central" where
  "handleNodeReport originMac report now c =
     (if packet_nodeMacAddress report \<noteq> originMac then (False, c)
      else
        let ns = applyNodeReport report now (registry c)
        in (True, c\<lparr>registry :=
             (case findNodeByMacAddress originMac ns of
                None \<Rightarrow> ns
              | Some pn \<Rightarrow>
                  fold (\<lambda>pin. writeMutableLoad originMac pin
                          (\<lambda>l. snd (applyToLoad (centralLoadConfigurationStore c) l)))
                    (map getRelayPin (node_loads (plan_node pn))) ns)\<rparr>))"

section \<open>The battery configuration\<close>

definition bus_configuration :: BusConfiguration where
  "bus_configuration = \<lparr>sdaPin = 21, sclPin = 22, busPort = 0, clockSpeedHz = 400000\<rparr>"

definition applyBatteryConfiguration ::
  "('g, 'n, 'i) Platform \<Rightarrow> BatterySensorConfiguration \<Rightarrow> bool \<Rightarrow> ('g, 'n, 'i) Central \<Rightarrow>
   bool \<times> ('g, 'n, 'i) Central" where
  "applyBatteryConfiguration pf cfg restorePersisted c =
     (if \<not> isValidBatterySensor cfg then (False, c)
      else if \<not> simulationEnabled (batteryMonitor c) \<and> \<not> ina219Configured cfg then (False, c)
      else
        let planning = powerPlanning (centralConfigurationStore c);
            battery =
              \<lparr>nameplateVoltageVolts =
                 (if batteryMetadataConfigured cfg then cfg_nominalVoltageVolts cfg else fzero),
               capacityAmpHours =
                 (if batteryMetadataConfigured cfg then cfg_batteryCapacityAmpHours cfg else fzero),
               minimumStateOfChargePercent =
                 (if planning_configured planning then planning_minimumStateOfChargePercent planning
                  else fzero)\<rparr>;
            sensor =
              \<lparr>shuntResistanceOhms = cfg_shuntResistanceOhms cfg,
               maximumExpectedCurrentAmps = cfg_maximumExpectedCurrentAmps cfg,
               emaAlpha = cfg_emaAlpha cfg\<rparr>
        in case pm_initialize (i2c pf) bus_configuration sensor battery (batteryMonitor c, i2c_bus c) of
          (ok, pm, i) \<Rightarrow>
            let c1 = c\<lparr>batteryMonitor := pm, i2c_bus := i\<rparr>
            in if \<not> ok then (False, c1)
               else if \<not> batteryMetadataConfigured cfg then (True, c1)
               else case initializeStateOfCharge (nvs pf) (battery_nvs c1)
                           (cfg_initialStateOfChargePercent cfg) restorePersisted pm of
                 (ok2, pm2) \<Rightarrow> (ok2, c1\<lparr>batteryMonitor := pm2\<rparr>))"

definition applyPersistedBatterySensorConfiguration ::
  "('g, 'n, 'i) Platform \<Rightarrow> ('g, 'n, 'i) Central \<Rightarrow> bool \<times> ('g, 'n, 'i) Central" where
  "applyPersistedBatterySensorConfiguration pf c =
     (let battery = batterySensor (centralConfigurationStore c)
      in if \<not> ina219Configured battery \<and> \<not> batteryMetadataConfigured battery then (False, c)
         else applyBatteryConfiguration pf battery True c)"

text \<open>
  One turn of \<open>sensorAcquisitionTask\<close> after \<open>elapsed\<close> milliseconds; the counter of turns since
  the last write is its local variable.
\<close>

definition sensorAcquisition ::
  "('g, 'n, 'i) Platform \<Rightarrow> nat \<Rightarrow> u32 \<Rightarrow> u32 \<times> ('g, 'n, 'i) Central \<Rightarrow> u32 \<times> ('g, 'n, 'i) Central" where
  "sensorAcquisition pf elapsed now = (\<lambda>(cyclesSincePersist, c).
     let deltaSeconds = fdiv (fnat elapsed) (fnat 1000);
         canRead = (simulationEnabled (batteryMonitor c) \<or> pm_initialized (batteryMonitor c))
     in if \<not> canRead then (cyclesSincePersist, c\<lparr>batteryReadingValid := False\<rparr>)
        else case updateMeasurements (i2c pf) (batteryMonitor c, i2c_bus c) of
          (False, pm, i) \<Rightarrow>
            (cyclesSincePersist, c\<lparr>batteryMonitor := pm, i2c_bus := i, batteryReadingValid := False\<rparr>)
        | (True, pm, i) \<Rightarrow>
            let pm1 = (if isStateOfChargeValid pm then snd (updateStateOfCharge deltaSeconds pm) else pm);
                c1 = c\<lparr>batteryMonitor := pm1, i2c_bus := i, latestBatteryMeasurements := measurements pm,
                       batteryReadingValid := True, batteryReadingMilliseconds := now\<rparr>
            in if cyclesSincePersist + 1 \<ge> 60
               then (0, c1\<lparr>battery_nvs := snd (persistStateOfCharge (nvs pf) pm1 (battery_nvs c1))\<rparr>)
               else (cyclesSincePersist + 1, c1))"

section \<open>Commands of the user\<close>

definition handleLoadCommand ::
  "('g, 'n, 'i) Platform \<Rightarrow> LoadCommandRequest \<Rightarrow> ('g, 'n, 'i) Central \<Rightarrow>
   CommandResult \<times> ('g, 'n, 'i) Central" where
  "handleLoadCommand pf request c =
     (let mac = lc_nodeMacAddress request; pin = lc_relayPin request;
          validOwner = (mac = localMac pf \<or> isCommissionedSmartNode mac (commissioningRegistry c))
      in case findMutableLoad mac pin (registry c) of
        None \<Rightarrow> (commandResult False False ''unknown or unavailable Load'', c)
      | Some load \<Rightarrow>
          if \<not> validOwner then (commandResult False False ''unknown or unavailable Load'', c)
          else
            let mode = (case lc_mode request of None \<Rightarrow> load_mode load | Some m \<Rightarrow> m);
                entry = \<lparr>entry_macAddress = mac, entry_relayPin = pin,
                  entry_priority = (case lc_priority request of None \<Rightarrow> load_priority load | Some p \<Rightarrow> p),
                  entry_mode = mode,
                  entry_schedule =
                    (if mode = FIXED_ON \<or> mode = FIXED_OFF then AutoSchedule3 False 0 0
                     else case lc_schedule request of None \<Rightarrow> load_schedule load | Some s \<Rightarrow> s)\<rparr>
            in case setConfiguration entry (centralLoadConfigurationStore c) of
              (False, es) \<Rightarrow>
                (commandResult False False ''could not save Load settings'',
                 c\<lparr>centralLoadConfigurationStore := es\<rparr>)
            | (True, es) \<Rightarrow>
                (case applyToLoad es load of
                   (found, load') \<Rightarrow>
                     let c1 = c\<lparr>centralLoadConfigurationStore := es,
                                registry := writeMutableLoad mac pin (\<lambda>_. load') (registry c)\<rparr>
                     in if \<not> found then (commandResult False False ''could not save Load settings'', c1)
                        else case config_persist (nvs pf) es (loads_nvs c1) of
                          (saved, n) \<Rightarrow>
                            (if saved then commandResult True True ''applied''
                             else commandResult False False ''could not save Load settings'',
                             c1\<lparr>loads_nvs := n\<rparr>)))"

text \<open>A setter of the configuration store followed by \<open>persist\<close>, joined by \<open>&&\<close>.\<close>

definition storeSettings ::
  "('g, 'n, 'i) Platform \<Rightarrow> (CentralConfiguration \<Rightarrow> bool \<times> CentralConfiguration) \<Rightarrow>
   ('g, 'n, 'i) Central \<Rightarrow> bool \<times> ('g, 'n, 'i) Central" where
  "storeSettings pf setter c =
     (case setter (centralConfigurationStore c) of
        (False, cfg) \<Rightarrow> (False, c\<lparr>centralConfigurationStore := cfg\<rparr>)
      | (True, cfg) \<Rightarrow>
          (case central_persist (nvs pf) cfg (settings_nvs c) of
             (ok, n) \<Rightarrow> (ok, c\<lparr>centralConfigurationStore := cfg, settings_nvs := n\<rparr>)))"

definition configureBatterySensor ::
  "('g, 'n, 'i) Platform \<Rightarrow> ConfigCommandRequest \<Rightarrow> ('g, 'n, 'i) Central \<Rightarrow>
   CommandResult \<times> ('g, 'n, 'i) Central" where
  "configureBatterySensor pf request c =
     (if \<not> cc_hasBatterySensorConfiguration request \<or> cc_nodeMacAddress request \<noteq> localMac pf
      then (commandResult False False ''battery sensor configuration targets Central only'', c)
      else
        let cfg = \<lparr>ina219Configured = True, batteryMetadataConfigured = True,
              cfg_shuntResistanceOhms = cc_batteryShuntResistanceOhms request,
              cfg_maximumExpectedCurrentAmps = cc_batteryMaximumExpectedCurrentAmps request,
              cfg_emaAlpha = cc_batteryEmaAlpha request,
              cfg_batteryCapacityAmpHours = cc_batteryCapacityAmpHours request,
              cfg_initialStateOfChargePercent = cc_batteryInitialStateOfChargePercent request,
              cfg_nominalVoltageVolts = cc_batteryNominalVoltageVolts request\<rparr>
        in if \<not> isValidBatterySensor cfg
           then (commandResult False False ''invalid battery monitor configuration'', c)
           else
             let previous = batterySensor (centralConfigurationStore c)
             in case storeSettings pf (setBatterySensor cfg) c of
               (stored, c1) \<Rightarrow>
                 if \<not> stored
                 then (commandResult False False ''could not persist battery monitor configuration'', c1)
                 else case applyBatteryConfiguration pf cfg (batteryMetadataConfigured previous) c1 of
                   (monitorReady, c2) \<Rightarrow>
                     (commandResult True True
                        (if monitorReady then ''battery monitor configured''
                         else ''configuration saved; INA219 is not currently responding''),
                      c2\<lparr>batteryReadingValid := False\<rparr>))"

definition commissionNode ::
  "('g, 'n, 'i) Platform \<Rightarrow> ConfigCommandRequest \<Rightarrow> ('g, 'n, 'i) Central \<Rightarrow>
   CommandResult \<times> ('g, 'n, 'i) Central" where
  "commissionNode pf request c =
     (let mac = cc_nodeMacAddress request
      in if \<not> cc_hasFriendlyName request \<or> mac = localMac pf
         then (commandResult False False ''valid Smart Node and friendlyName required'', c)
         else
           let known = (findByMac mac (commissioningRegistry c) \<noteq> None);
               route = routeToSmartNode pf mac c
           in case (if known \<and> route \<noteq> None
                    then requestCommissioning mac (Some (cc_friendlyName request)) (cc_commandId request)
                           (commissioningRegistry c)
                    else (False, commissioningRegistry c)) of
             (False, rs) \<Rightarrow>
               (commandResult False False
                  (if known then ''commissioning request rejected or no route''
                   else ''Node has not been discovered''), c\<lparr>commissioningRegistry := rs\<rparr>)
           | (True, rs) \<Rightarrow>
               let c1 = c\<lparr>commissioningRegistry := rs,
                          commissioning_nvs := snd (registry_persist (nvs pf) rs (commissioning_nvs c))\<rparr>;
                   sent = (case route of None \<Rightarrow> False
                           | Some nextHop \<Rightarrow> sendTo pf nextHop mac
                               (COMMISSION_COMMAND (cc_commandId request)
                                  (copyTruncated 20 (Some (cc_friendlyName request)))))
               in (commandResult sent False
                     (if sent then ''dispatched; awaiting Node confirmation'' else ''ESP-NOW send failed''), c1))"

definition decommissionNode ::
  "('g, 'n, 'i) Platform \<Rightarrow> ConfigCommandRequest \<Rightarrow> ('g, 'n, 'i) Central \<Rightarrow>
   CommandResult \<times> ('g, 'n, 'i) Central" where
  "decommissionNode pf request c =
     (let mac = cc_nodeMacAddress request
      in if mac = localMac pf then (commandResult False False ''Central cannot decommission itself'', c)
         else
           let route = routeToSmartNode pf mac c
           in case decommission mac (commissioningRegistry c) of
             (False, rs) \<Rightarrow>
               (commandResult False False ''unknown Node or invalid lifecycle transition'',
                c\<lparr>commissioningRegistry := rs\<rparr>)
           | (True, rs) \<Rightarrow>
               (commandResult True (route = None)
                  (if route \<noteq> None then ''decommission dispatched''
                   else ''decommissioned at Central; Node is offline''),
                c\<lparr>commissioningRegistry := rs,
                  loads_nvs := snd (config_persist (nvs pf) (centralLoadConfigurationStore c) (loads_nvs c)),
                  commissioning_nvs := snd (registry_persist (nvs pf) rs (commissioning_nvs c))\<rparr>))"

fun hardwareConfigurationFailureText :: "HardwareConfigurationFailureReason \<Rightarrow> string" where
  "hardwareConfigurationFailureText NONE = ''applied''"
| "hardwareConfigurationFailureText NODE_NOT_COMMISSIONED = ''Node is not commissioned''"
| "hardwareConfigurationFailureText UNSUPPORTED_RELAY_PIN = ''relay pin is not supported''"
| "hardwareConfigurationFailureText DUPLICATE_RELAY_PIN = ''relay pin is already configured''"
| "hardwareConfigurationFailureText INVALID_POWER_RATING = ''invalid Load power rating''"
| "hardwareConfigurationFailureText INVALID_CONFIGURATION = ''invalid Load configuration''"
| "hardwareConfigurationFailureText HARDWARE_INITIALIZATION_FAILED = ''relay hardware initialization failed''"
| "hardwareConfigurationFailureText PERSISTENCE_FAILED = ''Node could not persist configuration''"
| "hardwareConfigurationFailureText CAPACITY_REACHED = ''Node configuration capacity reached''"

definition CENTRAL_NODE_NAME :: string where "CENTRAL_NODE_NAME = ''Central''"

definition addLocalNode :: "u32 \<Rightarrow> ('g, 'n, 'i) Central \<Rightarrow> ('g, 'n, 'i) Central" where
  "addLocalNode now c =
     c\<lparr>registry := addLocalCentralNode CENTRAL_NODE_NAME (hw_node (localHardware c)) now (registry c)\<rparr>"

definition configureLocalLoad ::
  "('g, 'n, 'i) Platform \<Rightarrow> ConfigCommandRequest \<Rightarrow> u32 \<Rightarrow> ('g, 'n, 'i) Central \<Rightarrow>
   CommandResult \<times> ('g, 'n, 'i) Central" where
  "configureLocalLoad pf request now c =
     (let configuration = \<lparr>conf_name = copyTruncated 16 (Some (cc_loadName request)),
            conf_relayPin = cc_relayPin request, conf_relayActiveHigh = cc_relayActiveHigh request,
            conf_powerRatingWatts = cc_powerRatingWatts request, conf_powerType = cc_powerType request,
            conf_mode = cc_mode request, conf_priority = cc_priority request,
            conf_schedule = cc_schedule request\<rparr>
      in case configureNewLoad (gpio pf) (nvs pf) configuration (localHardware c) of
        (failure, h) \<Rightarrow>
          if failure \<noteq> NONE
          then (commandResult False False (hardwareConfigurationFailureText failure), c\<lparr>localHardware := h\<rparr>)
          else (commandResult True True ''Central Load configured'',
                addLocalNode now (c\<lparr>localHardware := h\<rparr>)))"

definition configureLoadPacket :: "ConfigCommandRequest \<Rightarrow> ConfigureLoadCommandPacket" where
  "configureLoadPacket request =
     \<lparr>clp_commandId = cc_commandId request,
      clp_loadName = copyTruncated 16 (Some (cc_loadName request)),
      clp_relayPin = cc_relayPin request,
      clp_relayActiveHigh = (if cc_relayActiveHigh request then 1 else 0),
      clp_mode = mode_byte (cc_mode request),
      clp_powerType = power_type_byte (cc_powerType request),
      clp_priority = cc_priority request,
      clp_powerRatingWatts = cc_powerRatingWatts request,
      clp_scheduleEnabled = (if enabled (cc_schedule request) then 1 else 0),
      clp_scheduleStartHour = startHour (cc_schedule request),
      clp_scheduleStartMinute = startMinute (cc_schedule request),
      clp_scheduleEndHour = 0, clp_scheduleEndMinute = 0\<rparr>"

text \<open>The route to a commissioned Smart Node, or the refusal.\<close>

definition smartNodeRoute ::
  "('g, 'n, 'i) Platform \<Rightarrow> MacAddress \<Rightarrow> ('g, 'n, 'i) Central \<Rightarrow> CommandResult + MacAddress" where
  "smartNodeRoute pf mac c =
     (let allowed = isCommissionedSmartNode mac (commissioningRegistry c)
      in if \<not> allowed then Inl (commandResult False False ''Smart Node is not commissioned'')
         else case routeToSmartNode pf mac c of
           None \<Rightarrow> Inl (commandResult False False ''no ESP-NOW route to Smart Node'')
         | Some nextHop \<Rightarrow> Inr nextHop)"

definition configureLoad ::
  "('g, 'n, 'i) Platform \<Rightarrow> ConfigCommandRequest \<Rightarrow> u32 \<Rightarrow> ('g, 'n, 'i) Central \<Rightarrow>
   CommandResult \<times> ('g, 'n, 'i) Central" where
  "configureLoad pf request now c =
     (if \<not> cc_hasLoadConfiguration request
      then (commandResult False False ''loadConfiguration required'', c)
      else if cc_nodeMacAddress request = localMac pf then configureLocalLoad pf request now c
      else case smartNodeRoute pf (cc_nodeMacAddress request) c of
        Inl refused \<Rightarrow> (refused, c)
      | Inr nextHop \<Rightarrow>
          let sent = sendTo pf nextHop (cc_nodeMacAddress request)
                       (CONFIGURE_LOAD_COMMAND (configureLoadPacket request))
          in (commandResult sent False
                (if sent then ''configuration dispatched'' else ''ESP-NOW send failed''), c))"

definition configurePowerPlanning ::
  "('g, 'n, 'i) Platform \<Rightarrow> ConfigCommandRequest \<Rightarrow> ('g, 'n, 'i) Central \<Rightarrow>
   CommandResult \<times> ('g, 'n, 'i) Central" where
  "configurePowerPlanning pf request c =
     (if \<not> cc_hasPowerPlanningConfiguration request \<or> cc_nodeMacAddress request \<noteq> localMac pf
      then (commandResult False False ''power planning configuration targets Central only'', c)
      else
        let cfg = \<lparr>planning_configured = True, planning_P_budget = cc_P_budget request,
              planning_P_reserve = cc_P_reserve request,
              planning_minimumStateOfChargePercent = cc_minimumStateOfChargePercent request,
              planning_requiredRuntimeHours = cc_requiredRuntimeHours request\<rparr>
        in if \<not> isValidPowerPlanning cfg
           then (commandResult False False ''invalid power planning configuration'', c)
           else case storeSettings pf (setPowerPlanning cfg) c of
             (stored, c1) \<Rightarrow>
               if \<not> stored
               then (commandResult False False ''could not persist power planning configuration'', c1)
               else
                 let battery = batterySensor (centralConfigurationStore c1)
                 in (commandResult True True ''power planning configured'',
                     if ina219Configured battery \<or> batteryMetadataConfigured battery
                     then (snd (applyBatteryConfiguration pf battery True c1))\<lparr>batteryReadingValid := False\<rparr>
                     else c1))"

definition removeLocalLoad ::
  "('g, 'n, 'i) Platform \<Rightarrow> u8 \<Rightarrow> u32 \<Rightarrow> ('g, 'n, 'i) Central \<Rightarrow> CommandResult \<times> ('g, 'n, 'i) Central" where
  "removeLocalLoad pf pin now c =
     (case hw_removeLoad (gpio pf) (nvs pf) pin (localHardware c) of
        (failure, h) \<Rightarrow>
          if failure \<noteq> NONE
          then (commandResult False False (hardwareConfigurationFailureText failure), c\<lparr>localHardware := h\<rparr>)
          else
            let es = snd (removeConfiguration (localMac pf) pin (centralLoadConfigurationStore c))
            in (commandResult True True ''Central Load removed'',
                addLocalNode now
                  (c\<lparr>localHardware := h, centralLoadConfigurationStore := es,
                     loads_nvs := snd (config_persist (nvs pf) es (loads_nvs c))\<rparr>)))"

definition removeLoad ::
  "('g, 'n, 'i) Platform \<Rightarrow> ConfigCommandRequest \<Rightarrow> u32 \<Rightarrow> ('g, 'n, 'i) Central \<Rightarrow>
   CommandResult \<times> ('g, 'n, 'i) Central" where
  "removeLoad pf request now c =
     (let mac = cc_nodeMacAddress request; pin = cc_relayPin request
      in if \<not> cc_hasRelayPin request then (commandResult False False ''relayPin required'', c)
         else if mac = localMac pf then removeLocalLoad pf pin now c
         else case smartNodeRoute pf mac c of
           Inl refused \<Rightarrow> (refused, c)
         | Inr nextHop \<Rightarrow>
             let sent = sendTo pf nextHop mac (REMOVE_LOAD_COMMAND (cc_commandId request) pin)
             in if sent
                then (commandResult True False ''remove dispatched; awaiting Smart Node confirmation'',
                      c\<lparr>pendingHardwareCommands := pendingHardwareCommands c @
                          [\<lparr>phc_commandId = cc_commandId request, phc_nodeMacAddress = mac,
                            phc_relayPin = pin, phc_remove = True\<rparr>]\<rparr>)
                else (commandResult False False ''ESP-NOW send failed'', c))"

definition handleConfigCommand ::
  "('g, 'n, 'i) Platform \<Rightarrow> ConfigCommandRequest \<Rightarrow> u32 \<Rightarrow> ('g, 'n, 'i) Central \<Rightarrow>
   CommandResult \<times> ('g, 'n, 'i) Central" where
  "handleConfigCommand pf request now c =
     (case cc_action request of
        CONFIGURE_BATTERY_SENSOR \<Rightarrow> configureBatterySensor pf request c
      | COMMISSION_NODE \<Rightarrow> commissionNode pf request c
      | RENAME_NODE \<Rightarrow> commissionNode pf request c
      | DECOMMISSION_NODE \<Rightarrow> decommissionNode pf request c
      | CONFIGURE_LOAD \<Rightarrow> configureLoad pf request now c
      | CONFIGURE_POWER_PLANNING \<Rightarrow> configurePowerPlanning pf request c
      | REMOVE_LOAD \<Rightarrow> removeLoad pf request now c
      | ACTION_UNKNOWN \<Rightarrow> (commandResult False False ''unsupported configuration command'', c))"

section \<open>Simulation and console\<close>

definition simulationResult :: "bool \<Rightarrow> string \<Rightarrow> string \<Rightarrow> CommandResult" where
  "simulationResult ok yes no = commandResult ok ok (if ok then yes else no)"

definition setSimulationValues ::
  "('g, 'n, 'i) Platform \<Rightarrow> (f32 \<times> f32) option \<Rightarrow> f32 option \<Rightarrow> u32 \<Rightarrow> ('g, 'n, 'i) Central \<Rightarrow>
   CommandResult \<times> ('g, 'n, 'i) Central" where
  "setSimulationValues pf electrical soc now c =
     (if electrical = None \<and> soc = None then (commandResult False False ''simulation values required'', c)
      else if \<not> simulationEnabled (batteryMonitor c)
      then (commandResult False False ''enable simulation before setting values'', c)
      else
        let (ok1, pm1) = (case electrical of
              None \<Rightarrow> (True, batteryMonitor c)
            | Some (voltage, current) \<Rightarrow> setSimulatedMeasurements voltage current (batteryMonitor c));
            (ok2, pm2) = (case soc of
              None \<Rightarrow> (ok1, pm1)
            | Some percent \<Rightarrow> if ok1 then setSimulatedStateOfChargePercent percent pm1 else (ok1, pm1))
        in if ok2 \<and> electrical \<noteq> None
           then case updateMeasurements (i2c pf) (pm2, i2c_bus c) of
             (ok3, pm3, i) \<Rightarrow>
               let c1 = c\<lparr>batteryMonitor := pm3, i2c_bus := i\<rparr>
               in (simulationResult ok3 ''simulation values applied'' ''invalid simulation values'',
                   if ok3
                   then c1\<lparr>latestBatteryMeasurements := measurements pm3, batteryReadingValid := True,
                           batteryReadingMilliseconds := now\<rparr>
                   else c1)
           else (simulationResult ok2 ''simulation values applied'' ''invalid simulation values'',
                 c\<lparr>batteryMonitor := pm2\<rparr>))"

definition handleSimulationCommand ::
  "('g, 'n, 'i) Platform \<Rightarrow> SimulationCommandRequest \<Rightarrow> u32 \<Rightarrow> ('g, 'n, 'i) Central \<Rightarrow>
   CommandResult \<times> ('g, 'n, 'i) Central" where
  "handleSimulationCommand pf request now c =
     (let battery = batterySensor (centralConfigurationStore c)
      in case request of
        ENABLE \<Rightarrow>
          let c1 = c\<lparr>batteryMonitor := enableSimulation True (batteryMonitor c), batteryReadingValid := False\<rparr>;
              (ok, c2) = (if batteryMetadataConfigured battery
                          then applyBatteryConfiguration pf battery True c1 else (True, c1))
          in (simulationResult ok ''simulation input enabled'' ''simulation could not start'', c2)
      | DISABLE \<Rightarrow>
          let c1 = c\<lparr>batteryMonitor := enableSimulation False (batteryMonitor c), batteryReadingValid := False\<rparr>;
              (ok, c2) = (if \<not> ina219Configured battery then (False, c1)
                          else applyBatteryConfiguration pf battery True c1)
          in (simulationResult ok ''INA219 input selected'' ''INA219 is not configured or not detected'', c2)
      | SET_VALUES electrical soc \<Rightarrow> setSimulationValues pf electrical soc now c)"

definition consoleConfigureIna219 ::
  "('g, 'n, 'i) Platform \<Rightarrow> f32 \<Rightarrow> f32 \<Rightarrow> f32 \<Rightarrow> ('g, 'n, 'i) Central \<Rightarrow>
   CommandResult \<times> ('g, 'n, 'i) Central" where
  "consoleConfigureIna219 pf shunt maximumCurrent alpha c =
     (let cfg = (batterySensor (centralConfigurationStore c))
            \<lparr>ina219Configured := True, cfg_shuntResistanceOhms := shunt,
             cfg_maximumExpectedCurrentAmps := maximumCurrent, cfg_emaAlpha := alpha\<rparr>
      in case (if isValidBatterySensor cfg then storeSettings pf (setBatterySensor cfg) c else (False, c)) of
        (stored, c1) \<Rightarrow>
          if \<not> stored then (commandResult False False ''could not save INA219 setup'', c1)
          else if simulationEnabled (batteryMonitor c1)
          then (commandResult True True ''INA219 setup saved; simulation remains active'', c1)
          else case applyBatteryConfiguration pf cfg True c1 of
            (sensorReady, c2) \<Rightarrow>
              (commandResult True True
                 (if sensorReady then ''INA219 setup saved; sensor detected''
                  else ''INA219 setup saved; sensor not detected''),
               c2\<lparr>batteryReadingValid := False\<rparr>))"

definition consoleConfigureBatterySetup ::
  "('g, 'n, 'i) Platform \<Rightarrow> f32 \<Rightarrow> f32 \<Rightarrow> f32 \<Rightarrow> ('g, 'n, 'i) Central \<Rightarrow>
   CommandResult \<times> ('g, 'n, 'i) Central" where
  "consoleConfigureBatterySetup pf capacity initialPercent voltage c =
     (let before = batterySensor (centralConfigurationStore c);
          cfg = before\<lparr>batteryMetadataConfigured := True, cfg_batteryCapacityAmpHours := capacity,
                       cfg_initialStateOfChargePercent := initialPercent, cfg_nominalVoltageVolts := voltage\<rparr>
      in case (if isValidBatterySensor cfg then storeSettings pf (setBatterySensor cfg) c else (False, c)) of
        (stored, c1) \<Rightarrow>
          if \<not> stored then (commandResult False False ''could not save battery setup'', c1)
          else (commandResult True True ''battery setup saved'',
                if simulationEnabled (batteryMonitor c1) \<or> ina219Configured cfg
                then (snd (applyBatteryConfiguration pf cfg (batteryMetadataConfigured before) c1))
                       \<lparr>batteryReadingValid := False\<rparr>
                else c1))"

text \<open>A request with every field zero, as \<open>ConfigCommandRequest command{}\<close> leaves it.\<close>

definition empty_request :: ConfigCommandRequest where
  "empty_request =
     \<lparr>cc_commandId = 0, cc_action = ACTION_UNKNOWN, cc_nodeMacAddress = zero_mac,
      cc_hasFriendlyName = False, cc_friendlyName = [], cc_hasLoadConfiguration = False,
      cc_loadName = [], cc_relayPin = 0, cc_relayActiveHigh = False,
      cc_mode = mode_of_byte 0, cc_priority = 0, cc_powerType = power_type_of_byte 0,
      cc_powerRatingWatts = fzero, cc_schedule = no_schedule, cc_hasRelayPin = False,
      cc_hasBatterySensorConfiguration = False, cc_batteryShuntResistanceOhms = fzero,
      cc_batteryMaximumExpectedCurrentAmps = fzero, cc_batteryEmaAlpha = fzero,
      cc_batteryCapacityAmpHours = fzero, cc_batteryInitialStateOfChargePercent = fzero,
      cc_batteryNominalVoltageVolts = fzero, cc_hasPowerPlanningConfiguration = False,
      cc_P_budget = fzero, cc_P_reserve = fzero, cc_minimumStateOfChargePercent = fzero,
      cc_requiredRuntimeHours = fzero\<rparr>"

definition consoleCommand ::
  "('g, 'n, 'i) Platform \<Rightarrow> (ConfigCommandRequest \<Rightarrow> ConfigCommandRequest) \<Rightarrow> u32 \<Rightarrow>
   ('g, 'n, 'i) Central \<Rightarrow> CommandResult \<times> ('g, 'n, 'i) Central" where
  "consoleCommand pf fill now c =
     (case allocateConsoleCommandId c of
        (commandId, c1) \<Rightarrow> handleConfigCommand pf (fill (empty_request\<lparr>cc_commandId := commandId\<rparr>)) now c1)"

definition consoleConfigurePowerPlanning ::
  "('g, 'n, 'i) Platform \<Rightarrow> f32 \<Rightarrow> f32 \<Rightarrow> f32 \<Rightarrow> f32 \<Rightarrow> u32 \<Rightarrow> ('g, 'n, 'i) Central \<Rightarrow>
   CommandResult \<times> ('g, 'n, 'i) Central" where
  "consoleConfigurePowerPlanning pf budget reserve minimum runtime =
     consoleCommand pf (\<lambda>r. r\<lparr>cc_action := CONFIGURE_POWER_PLANNING, cc_nodeMacAddress := localMac pf,
       cc_hasPowerPlanningConfiguration := True, cc_P_budget := budget, cc_P_reserve := reserve,
       cc_minimumStateOfChargePercent := minimum, cc_requiredRuntimeHours := runtime\<rparr>)"

definition consoleNodeCommand ::
  "('g, 'n, 'i) Platform \<Rightarrow> ConfigCommandAction \<Rightarrow> MacAddress \<Rightarrow> string \<Rightarrow> u32 \<Rightarrow> ('g, 'n, 'i) Central \<Rightarrow>
   CommandResult \<times> ('g, 'n, 'i) Central" where
  "consoleNodeCommand pf action mac friendlyName =
     consoleCommand pf (\<lambda>r.
       if action = DECOMMISSION_NODE then r\<lparr>cc_nodeMacAddress := mac, cc_action := DECOMMISSION_NODE\<rparr>
       else r\<lparr>cc_nodeMacAddress := mac,
              cc_action := (if action = COMMISSION_NODE then COMMISSION_NODE else RENAME_NODE),
              cc_hasFriendlyName := True,
              cc_friendlyName := copyTruncated 20 (Some friendlyName)\<rparr>)"

definition consoleConfigureLoad ::
  "('g, 'n, 'i) Platform \<Rightarrow> MacAddress \<Rightarrow> LoadConfiguration \<Rightarrow> u32 \<Rightarrow> ('g, 'n, 'i) Central \<Rightarrow>
   CommandResult \<times> ('g, 'n, 'i) Central" where
  "consoleConfigureLoad pf mac request =
     consoleCommand pf (\<lambda>r. r\<lparr>cc_action := CONFIGURE_LOAD, cc_nodeMacAddress := mac,
       cc_hasLoadConfiguration := True, cc_loadName := copyTruncated 16 (Some (conf_name request)),
       cc_relayPin := conf_relayPin request, cc_relayActiveHigh := conf_relayActiveHigh request,
       cc_mode := conf_mode request, cc_powerType := conf_powerType request,
       cc_priority := conf_priority request, cc_powerRatingWatts := conf_powerRatingWatts request,
       cc_schedule := conf_schedule request\<rparr>)"

definition consoleRemoveLoad ::
  "('g, 'n, 'i) Platform \<Rightarrow> MacAddress \<Rightarrow> u8 \<Rightarrow> u32 \<Rightarrow> ('g, 'n, 'i) Central \<Rightarrow>
   CommandResult \<times> ('g, 'n, 'i) Central" where
  "consoleRemoveLoad pf mac pin =
     consoleCommand pf (\<lambda>r. r\<lparr>cc_action := REMOVE_LOAD, cc_nodeMacAddress := mac,
       cc_hasRelayPin := True, cc_relayPin := pin\<rparr>)"

section \<open>A platform\<close>

text \<open>In memory, with a radio that always sends and no sensor on the bus.\<close>

definition example_i2c :: "unit I2cApi" where
  "example_i2c =
     \<lparr>i2c_new_master_bus = (\<lambda>b i. (True, i)), i2c_master_bus_add_device = (\<lambda>a s i. (True, i)),
      i2c_master_probe = (\<lambda>a i. (False, i)), i2c_master_transmit = (\<lambda>bs i. (False, i)),
      i2c_master_transmit_receive = (\<lambda>r i. (None, i))\<rparr>"

definition example_platform ::
  "((u8 \<Rightarrow> bool) \<times> (u8 \<Rightarrow> bool), string \<Rightarrow> nvs_value option, unit) Platform" where
  "example_platform =
     \<lparr>gpio = ram_gpio {}, nvs = ram_nvs, i2c = example_i2c, localMac = (1, 2, 3, 4, 5, 6),
      sendTo = (\<lambda>hop to p. True), flashErase = Some (\<lambda>_ _. None)\<rparr>"

end
