(* ===== verification/Mesh.thy ===== *)
theory Mesh
  imports Persistence
begin

text \<open>
  \<open>EspNowCommunication\<close> (\<open>lib/EspNowCommunication/EspNowCommunication.cpp\<close>): the frames the
  Nodes exchange over ESP-NOW, the discovery of an upstream Node, the connection handshake and
  the forwarding of messages. The radio and its peer table are a record of functions; every
  operation gives the frames it hands to the radio.
\<close>

section \<open>Messages and frames\<close>

datatype MessageType =
  NODE_REPORT_TYPE | LOAD_REPORT_TYPE | RELAY_COMMAND_TYPE | ACKNOWLEDGEMENT_TYPE | ERROR_TYPE
| HANDSHAKE_TYPE | DISCOVERY_REQUEST_TYPE | DISCOVERY_RESPONSE_TYPE | IDENTITY_REPORT_TYPE
| COMMISSION_COMMAND_TYPE | COMMISSION_ACK_TYPE | DECOMMISSION_COMMAND_TYPE | DECOMMISSION_ACK_TYPE
| NODE_REPORT_ACK_TYPE | FACTORY_RESET_COMMAND_TYPE | FACTORY_RESET_ACK_TYPE
| CONFIGURE_LOAD_COMMAND_TYPE | CONFIGURE_LOAD_ACK_TYPE | UNNAMED_TYPE u8

fun type_byte :: "MessageType \<Rightarrow> u8" where
  "type_byte NODE_REPORT_TYPE = 1"
| "type_byte LOAD_REPORT_TYPE = 2"
| "type_byte RELAY_COMMAND_TYPE = 3"
| "type_byte ACKNOWLEDGEMENT_TYPE = 4"
| "type_byte ERROR_TYPE = 5"
| "type_byte HANDSHAKE_TYPE = 6"
| "type_byte DISCOVERY_REQUEST_TYPE = 7"
| "type_byte DISCOVERY_RESPONSE_TYPE = 8"
| "type_byte IDENTITY_REPORT_TYPE = 9"
| "type_byte COMMISSION_COMMAND_TYPE = 10"
| "type_byte COMMISSION_ACK_TYPE = 11"
| "type_byte DECOMMISSION_COMMAND_TYPE = 12"
| "type_byte DECOMMISSION_ACK_TYPE = 13"
| "type_byte NODE_REPORT_ACK_TYPE = 14"
| "type_byte FACTORY_RESET_COMMAND_TYPE = 18"
| "type_byte FACTORY_RESET_ACK_TYPE = 19"
| "type_byte CONFIGURE_LOAD_COMMAND_TYPE = 20"
| "type_byte CONFIGURE_LOAD_ACK_TYPE = 21"
| "type_byte (UNNAMED_TYPE b) = b"

definition named_types :: "MessageType list" where
  "named_types =
     [NODE_REPORT_TYPE, LOAD_REPORT_TYPE, RELAY_COMMAND_TYPE, ACKNOWLEDGEMENT_TYPE, ERROR_TYPE,
      HANDSHAKE_TYPE, DISCOVERY_REQUEST_TYPE, DISCOVERY_RESPONSE_TYPE, IDENTITY_REPORT_TYPE,
      COMMISSION_COMMAND_TYPE, COMMISSION_ACK_TYPE, DECOMMISSION_COMMAND_TYPE, DECOMMISSION_ACK_TYPE,
      NODE_REPORT_ACK_TYPE, FACTORY_RESET_COMMAND_TYPE, FACTORY_RESET_ACK_TYPE,
      CONFIGURE_LOAD_COMMAND_TYPE, CONFIGURE_LOAD_ACK_TYPE]"

definition type_of_byte :: "u8 \<Rightarrow> MessageType" where
  "type_of_byte b =
     (case find (\<lambda>t. type_byte t = b) named_types of None \<Rightarrow> UNNAMED_TYPE b | Some t \<Rightarrow> t)"

record EspMessage =
  msg_protocolVersion :: u8
  msg_messageType :: MessageType
  msg_messageId :: u32
  msg_originMacAddress :: MacAddress
  msg_destinationMacAddress :: MacAddress
  msg_hopsRemaining :: u8
  msg_payload :: "u8 list"

definition MESSAGE_HEADER_SIZE :: nat where "MESSAGE_HEADER_SIZE = 24"
definition MAX_MESSAGE_SIZE :: nat where "MAX_MESSAGE_SIZE = 250"
definition MAX_PAYLOAD_SIZE :: nat where "MAX_PAYLOAD_SIZE = MAX_MESSAGE_SIZE - MESSAGE_HEADER_SIZE"
definition PROTOCOL_VERSION :: u8 where "PROTOCOL_VERSION = 1"
definition DEFAULT_HOP_LIMIT :: u8 where "DEFAULT_HOP_LIMIT = 16"
definition UNKNOWN_HOP_COUNT :: u16 where "UNKNOWN_HOP_COUNT = 65535"

definition BROADCAST_MAC_ADDRESS :: MacAddress where
  "BROADCAST_MAC_ADDRESS = (0xFF, 0xFF, 0xFF, 0xFF, 0xFF, 0xFF)"

text \<open>
  The header as it lies in memory, with three bytes of padding, then the payload.
  \<open>payloadLength\<close> is the length of the payload.
\<close>

definition frame_of_message :: "EspMessage \<Rightarrow> u8 list" where
  "frame_of_message m =
     [msg_protocolVersion m, type_byte (msg_messageType m)] @
     u16_bytes (of_nat (length (msg_payload m))) @ u32_bytes (msg_messageId m) @
     mac_bytes (msg_originMacAddress m) @ mac_bytes (msg_destinationMacAddress m) @
     [msg_hopsRemaining m, 0, 0, 0] @ msg_payload m"

text \<open>The checks of \<open>processRawReceivedPacket\<close>: length, version, declared payload length.\<close>

definition message_of_frame :: "u8 list \<Rightarrow> EspMessage option" where
  "message_of_frame bs =
     (if length bs < MESSAGE_HEADER_SIZE \<or> length bs > MAX_MESSAGE_SIZE then None
      else if bs ! 0 \<noteq> PROTOCOL_VERSION then None
      else
        let payloadLength = unat (u16_of_bytes (take 2 (drop 2 bs)))
        in if payloadLength > MAX_PAYLOAD_SIZE then None
           else if MESSAGE_HEADER_SIZE + payloadLength > length bs then None
           else Some
             \<lparr>msg_protocolVersion = bs ! 0, msg_messageType = type_of_byte (bs ! 1),
              msg_messageId = u32_of_bytes (take 4 (drop 4 bs)),
              msg_originMacAddress = mac_of_bytes (take 6 (drop 8 bs)),
              msg_destinationMacAddress = mac_of_bytes (take 6 (drop 14 bs)),
              msg_hopsRemaining = bs ! 20,
              msg_payload = take payloadLength (drop 24 bs)\<rparr>)"

section \<open>State\<close>

type_synonym i8 = "8 word"

record DirectDownstreamNodeInfo =
  down_nodeName :: string
  down_macAddress :: MacAddress
  down_signalStrengthDbm :: i8
  down_signalStrengthKnown :: bool
  down_hopCountToCentral :: u16

text \<open>The last field is the driver's table of peers.\<close>

record EspNow =
  esp_localNodeName :: string
  esp_localMacAddress :: MacAddress
  esp_channel :: u8
  esp_initialized :: bool
  centralNode :: bool
  upstreamNodeSelected :: bool
  upstreamNodeMacAddress :: MacAddress
  upstreamNodeSignalStrengthDbm :: i8
  centralMacAddressKnown :: bool
  centralMacAddress :: MacAddress
  hopCountToCentral :: u16
  directDownstreamNodes :: "DirectDownstreamNodeInfo list"
  discoveryInProgress :: bool
  activeDiscoveryId :: u32
  discoveryCandidateFound :: bool
  bestUpstreamCandidateMacAddress :: MacAddress
  bestUpstreamCandidateSignalStrengthDbm :: i8
  bestUpstreamCandidateHopCount :: u16
  bestUpstreamCandidateCentralMacAddress :: MacAddress
  nextMessageId :: u32
  esp_peers :: "MacAddress list"

definition NODE_NAME_LENGTH :: nat where "NODE_NAME_LENGTH = 20"

definition new_EspNow :: "u8 \<Rightarrow> MacAddress \<Rightarrow> EspNow" where
  "new_EspNow channel mac =
     \<lparr>esp_localNodeName = ''Unnamed'', esp_localMacAddress = mac, esp_channel = channel,
      esp_initialized = False, centralNode = False, upstreamNodeSelected = False,
      upstreamNodeMacAddress = zero_mac, upstreamNodeSignalStrengthDbm = - 128,
      centralMacAddressKnown = False, centralMacAddress = zero_mac,
      hopCountToCentral = UNKNOWN_HOP_COUNT, directDownstreamNodes = [],
      discoveryInProgress = False, activeDiscoveryId = 0, discoveryCandidateFound = False,
      bestUpstreamCandidateMacAddress = zero_mac, bestUpstreamCandidateSignalStrengthDbm = - 128,
      bestUpstreamCandidateHopCount = UNKNOWN_HOP_COUNT,
      bestUpstreamCandidateCentralMacAddress = zero_mac, nextMessageId = 1, esp_peers = []\<rparr>"

definition nameToStore :: "string \<Rightarrow> string" where
  "nameToStore nodeName =
     copyTruncated NODE_NAME_LENGTH (Some (if c_text nodeName \<noteq> [] then nodeName else ''Unnamed''))"

definition setLocalNodeName :: "string \<Rightarrow> EspNow \<Rightarrow> EspNow" where
  "setLocalNodeName nodeName e = e\<lparr>esp_localNodeName := nameToStore nodeName\<rparr>"

definition setChannel :: "u8 \<Rightarrow> EspNow \<Rightarrow> bool \<times> EspNow" where
  "setChannel channel e =
     (if esp_initialized e \<or> channel = 0 \<or> channel > 14 then (False, e)
      else (True, e\<lparr>esp_channel := channel\<rparr>))"

text \<open>
  \<open>initialize\<close> with what the drivers answer: the MAC address of the chip, when it is reached
  and read, and whether every later step succeeds.
\<close>

definition esp_initialize :: "MacAddress option \<Rightarrow> bool \<Rightarrow> EspNow \<Rightarrow> bool \<times> EspNow" where
  "esp_initialize chipMac driversReady e =
     (if esp_initialized e then (True, e)
      else if esp_channel e = 0 \<or> esp_channel e > 14 then (False, e)
      else case chipMac of
        None \<Rightarrow> (False, e)
      | Some mac \<Rightarrow> (driversReady, e\<lparr>esp_localMacAddress := mac, esp_initialized := driversReady\<rparr>))"

definition setAsCentralNode :: "EspNow \<Rightarrow> bool \<times> EspNow" where
  "setAsCentralNode e =
     (if \<not> esp_initialized e then (False, e)
      else (True, e\<lparr>centralNode := True, upstreamNodeSelected := False,
                    upstreamNodeMacAddress := zero_mac, centralMacAddress := esp_localMacAddress e,
                    centralMacAddressKnown := True, hopCountToCentral := 0,
                    directDownstreamNodes := []\<rparr>))"

definition isBroadcastMacAddress :: "MacAddress \<Rightarrow> bool" where
  "isBroadcastMacAddress mac \<longleftrightarrow> mac = BROADCAST_MAC_ADDRESS"

definition isMessageForThisNode :: "MacAddress \<Rightarrow> MacAddress \<Rightarrow> bool" where
  "isMessageForThisNode localMacAddress destination \<longleftrightarrow>
     destination = localMacAddress \<or> isBroadcastMacAddress destination"

text \<open>Whether this Node may advertise itself: it has a route to Central.\<close>

definition routeAvailable :: "EspNow \<Rightarrow> bool" where
  "routeAvailable e \<longleftrightarrow> centralMacAddressKnown e \<and> hopCountToCentral e \<noteq> UNKNOWN_HOP_COUNT"

section \<open>Sending\<close>

text \<open>
  What the driver answers: whether a peer can be added or deleted, and whether the frame handed to the
  radio for a next hop is acknowledged by its MAC layer. The last field tells whether the queue of
  received messages, which the application empties, has room for one more.
\<close>

record RadioApi =
  esp_now_add_peer :: "MacAddress \<Rightarrow> bool"
  esp_now_del_peer :: "MacAddress \<Rightarrow> bool"
  esp_now_send :: "MacAddress \<Rightarrow> u8 list \<Rightarrow> bool"
  application_queue_has_room :: bool

type_synonym frames = "(MacAddress \<times> u8 list) list"

definition hasPeer :: "MacAddress \<Rightarrow> EspNow \<Rightarrow> bool" where
  "hasPeer mac e \<longleftrightarrow> mac \<in> set (esp_peers e)"

definition addPeer :: "RadioApi \<Rightarrow> MacAddress \<Rightarrow> EspNow \<Rightarrow> bool \<times> EspNow" where
  "addPeer api mac e =
     (if \<not> esp_initialized e then (False, e)
      else if hasPeer mac e then (True, e)
      else if \<not> esp_now_add_peer api mac then (False, e)
      else (True, e\<lparr>esp_peers := esp_peers e @ [mac]\<rparr>))"

definition removePeer :: "RadioApi \<Rightarrow> MacAddress \<Rightarrow> EspNow \<Rightarrow> bool \<times> EspNow" where
  "removePeer api mac e =
     (if \<not> hasPeer mac e then (True, e)
      else if \<not> esp_now_del_peer api mac then (False, e)
      else (True, e\<lparr>esp_peers := filter (\<lambda>p. p \<noteq> mac) (esp_peers e)\<rparr>))"

definition buildMessage ::
  "MacAddress \<Rightarrow> MessageType \<Rightarrow> u8 list \<Rightarrow> EspNow \<Rightarrow> EspMessage option \<times> EspNow" where
  "buildMessage destination t payload e =
     (if \<not> esp_initialized e \<or> length payload > MAX_PAYLOAD_SIZE then (None, e)
      else (Some \<lparr>msg_protocolVersion = PROTOCOL_VERSION, msg_messageType = t,
                  msg_messageId = nextMessageId e, msg_originMacAddress = esp_localMacAddress e,
                  msg_destinationMacAddress = destination, msg_hopsRemaining = DEFAULT_HOP_LIMIT,
                  msg_payload = payload\<rparr>,
            e\<lparr>nextMessageId := nextMessageId e + 1\<rparr>))"

definition sendMessageTo ::
  "RadioApi \<Rightarrow> MacAddress \<Rightarrow> EspMessage \<Rightarrow> EspNow \<Rightarrow> bool \<times> frames \<times> EspNow" where
  "sendMessageTo api nextHop m e =
     (if \<not> esp_initialized e then (False, [], e)
      else if length (msg_payload m) > MAX_PAYLOAD_SIZE then (False, [], e)
      else case (if isBroadcastMacAddress nextHop then (True, e) else addPeer api nextHop e) of
        (peer, e1) \<Rightarrow>
          if \<not> peer then (False, [], e1)
          else (esp_now_send api nextHop (frame_of_message m), [(nextHop, frame_of_message m)], e1))"

definition sendTo_message ::
  "RadioApi \<Rightarrow> MacAddress \<Rightarrow> MacAddress \<Rightarrow> MessageType \<Rightarrow> u8 list \<Rightarrow> EspNow \<Rightarrow> bool \<times> frames \<times> EspNow" where
  "sendTo_message api nextHop destination t payload e =
     (case buildMessage destination t payload e of
        (None, e1) \<Rightarrow> (False, [], e1)
      | (Some m, e1) \<Rightarrow> sendMessageTo api nextHop m e1)"

definition sendToCentral ::
  "RadioApi \<Rightarrow> MessageType \<Rightarrow> u8 list \<Rightarrow> EspNow \<Rightarrow> bool \<times> frames \<times> EspNow" where
  "sendToCentral api t payload e =
     (if \<not> (upstreamNodeSelected e \<and> centralMacAddressKnown e) then (False, [], e)
      else sendTo_message api (upstreamNodeMacAddress e) (centralMacAddress e) t payload e)"

definition forwardMessageTo ::
  "RadioApi \<Rightarrow> MacAddress \<Rightarrow> EspMessage \<Rightarrow> EspNow \<Rightarrow> bool \<times> frames \<times> EspNow" where
  "forwardMessageTo api nextHop m e =
     (if length (msg_payload m) > MAX_PAYLOAD_SIZE then (False, [], e)
      else if msg_hopsRemaining m = 0 then (False, [], e)
      else sendMessageTo api nextHop (m\<lparr>msg_hopsRemaining := msg_hopsRemaining m - 1\<rparr>) e)"

section \<open>Downstream Nodes\<close>

definition registerOrUpdateDirectDownstreamNode ::
  "string \<Rightarrow> MacAddress \<Rightarrow> i8 \<Rightarrow> bool \<Rightarrow> u16 \<Rightarrow> EspNow \<Rightarrow> bool \<times> EspNow" where
  "registerOrUpdateDirectDownstreamNode nodeName mac signal known hops e =
     (let info = \<lparr>down_nodeName = nameToStore nodeName, down_macAddress = mac,
            down_signalStrengthDbm = signal, down_signalStrengthKnown = known,
            down_hopCountToCentral = hops\<rparr>;
          newNode = \<not> list_ex (\<lambda>d. down_macAddress d = mac) (directDownstreamNodes e)
      in (newNode,
          e\<lparr>directDownstreamNodes :=
              (if newNode then directDownstreamNodes e @ [info]
               else update_first (\<lambda>d. down_macAddress d = mac) (\<lambda>_. info) (directDownstreamNodes e))\<rparr>))"

definition refreshDirectDownstreamNodeSignalStrength :: "MacAddress \<Rightarrow> i8 \<Rightarrow> EspNow \<Rightarrow> EspNow" where
  "refreshDirectDownstreamNodeSignalStrength mac signal e =
     e\<lparr>directDownstreamNodes :=
        update_first (\<lambda>d. down_macAddress d = mac)
          (\<lambda>d. d\<lparr>down_signalStrengthDbm := signal, down_signalStrengthKnown := True\<rparr>)
          (directDownstreamNodes e)\<rparr>"

text \<open>The two overloads of \<open>registerDirectDownstreamNode\<close>: without and with a signal strength.\<close>

definition registerDirectDownstreamNode ::
  "string \<Rightarrow> MacAddress \<Rightarrow> i8 option \<Rightarrow> u16 \<Rightarrow> EspNow \<Rightarrow> bool \<times> EspNow" where
  "registerDirectDownstreamNode nodeName mac signal hops e =
     (if \<not> esp_initialized e \<or> \<not> routeAvailable e then (False, e)
      else if hops \<noteq> hopCountToCentral e + 1 then (False, e)
      else case signal of
        None \<Rightarrow> registerOrUpdateDirectDownstreamNode nodeName mac 0 False hops e
      | Some s \<Rightarrow> registerOrUpdateDirectDownstreamNode nodeName mac s True hops e)"

section \<open>Discovery\<close>

text \<open>The payloads of the three messages the service task handles itself.\<close>

record DiscoveryResponse =
  response_discoveryId :: u32
  response_hopCountToCentral :: u16
  response_centralMacAddress :: MacAddress

record ConnectionHandshake =
  handshake_nodeName :: string
  handshake_hopCountToCentral :: u16
  handshake_centralMacAddress :: MacAddress

definition DISCOVERY_REQUEST_SIZE :: nat where "DISCOVERY_REQUEST_SIZE = 4"
definition DISCOVERY_RESPONSE_SIZE :: nat where "DISCOVERY_RESPONSE_SIZE = 12"
definition CONNECTION_HANDSHAKE_SIZE :: nat where "CONNECTION_HANDSHAKE_SIZE = 28"

definition response_bytes :: "DiscoveryResponse \<Rightarrow> u8 list" where
  "response_bytes r =
     u32_bytes (response_discoveryId r) @ u16_bytes (response_hopCountToCentral r) @
     mac_bytes (response_centralMacAddress r)"

definition response_of_bytes :: "u8 list \<Rightarrow> DiscoveryResponse" where
  "response_of_bytes bs =
     \<lparr>response_discoveryId = u32_of_bytes (take 4 bs),
      response_hopCountToCentral = u16_of_bytes (take 2 (drop 4 bs)),
      response_centralMacAddress = mac_of_bytes (take 6 (drop 6 bs))\<rparr>"

definition handshake_bytes :: "ConnectionHandshake \<Rightarrow> u8 list" where
  "handshake_bytes h =
     char_array NODE_NAME_LENGTH (copyTruncated NODE_NAME_LENGTH (Some (handshake_nodeName h))) @
     u16_bytes (handshake_hopCountToCentral h) @ mac_bytes (handshake_centralMacAddress h)"

text \<open>The last character of the name is overwritten by a NUL.\<close>

definition handshake_of_bytes :: "u8 list \<Rightarrow> ConnectionHandshake" where
  "handshake_of_bytes bs =
     \<lparr>handshake_nodeName = c_text (string_of_bytes (take (NODE_NAME_LENGTH - 1) bs)),
      handshake_hopCountToCentral = u16_of_bytes (take 2 (drop 20 bs)),
      handshake_centralMacAddress = mac_of_bytes (take 6 (drop 22 bs))\<rparr>"

text \<open>
  \<open>discoverUpstreamNode\<close> up to the wait, with the random number it draws. The result is
  whether it goes on to wait.
\<close>

definition beginDiscovery :: "RadioApi \<Rightarrow> u32 \<Rightarrow> u32 \<Rightarrow> EspNow \<Rightarrow> bool \<times> frames \<times> EspNow" where
  "beginDiscovery api window random e =
     (if \<not> esp_initialized e \<or> centralNode e \<or> window = 0 then (False, [], e)
      else
        let discoveryId = (if random = 0 then 1 else random);
            e1 = e\<lparr>discoveryInProgress := True, activeDiscoveryId := discoveryId,
                   discoveryCandidateFound := False, bestUpstreamCandidateMacAddress := zero_mac,
                   bestUpstreamCandidateSignalStrengthDbm := - 128,
                   bestUpstreamCandidateHopCount := UNKNOWN_HOP_COUNT,
                   bestUpstreamCandidateCentralMacAddress := zero_mac\<rparr>
        in case sendTo_message api BROADCAST_MAC_ADDRESS BROADCAST_MAC_ADDRESS DISCOVERY_REQUEST_TYPE
                  (u32_bytes discoveryId) e1 of
          (sent, fs, e2) \<Rightarrow>
            if sent then (True, fs, e2) else (False, fs, e2\<lparr>discoveryInProgress := False\<rparr>))"

definition sendConnectionHandshakeToUpstreamNode :: "RadioApi \<Rightarrow> EspNow \<Rightarrow> bool \<times> frames \<times> EspNow" where
  "sendConnectionHandshakeToUpstreamNode api e =
     (if \<not> (upstreamNodeSelected e \<and> routeAvailable e) then (False, [], e)
      else sendTo_message api (upstreamNodeMacAddress e) (upstreamNodeMacAddress e) HANDSHAKE_TYPE
             (handshake_bytes \<lparr>handshake_nodeName = esp_localNodeName e,
                handshake_hopCountToCentral = hopCountToCentral e,
                handshake_centralMacAddress = centralMacAddress e\<rparr>) e)"

text \<open>\<open>discoverUpstreamNode\<close> after the wait.\<close>

definition finishDiscovery :: "RadioApi \<Rightarrow> EspNow \<Rightarrow> bool \<times> frames \<times> EspNow" where
  "finishDiscovery api e =
     (let e1 = e\<lparr>discoveryInProgress := False\<rparr>
      in if \<not> discoveryCandidateFound e1 then (False, [], e1)
         else case addPeer api (bestUpstreamCandidateMacAddress e1) e1 of
           (False, e2) \<Rightarrow> (False, [], e2)
         | (True, e2) \<Rightarrow>
             (case sendConnectionHandshakeToUpstreamNode api
                     (e2\<lparr>upstreamNodeMacAddress := bestUpstreamCandidateMacAddress e1,
                         upstreamNodeSignalStrengthDbm := bestUpstreamCandidateSignalStrengthDbm e1,
                         upstreamNodeSelected := True,
                         centralMacAddress := bestUpstreamCandidateCentralMacAddress e1,
                         centralMacAddressKnown := True,
                         hopCountToCentral := bestUpstreamCandidateHopCount e1 + 1\<rparr>) of
                (_, fs, e3) \<Rightarrow> (True, fs, e3)))"

definition processDiscoveryRequest :: "RadioApi \<Rightarrow> EspMessage \<Rightarrow> EspNow \<Rightarrow> frames \<times> EspNow" where
  "processDiscoveryRequest api m e =
     (if \<not> routeAvailable e then ([], e)
      else if msg_originMacAddress m = esp_localMacAddress e then ([], e)
      else if length (msg_payload m) \<noteq> DISCOVERY_REQUEST_SIZE then ([], e)
      else snd (sendTo_message api BROADCAST_MAC_ADDRESS (msg_originMacAddress m) DISCOVERY_RESPONSE_TYPE
             (response_bytes \<lparr>response_discoveryId = u32_of_bytes (msg_payload m),
                response_hopCountToCentral = hopCountToCentral e,
                response_centralMacAddress = centralMacAddress e\<rparr>) e))"

text \<open>Whether a response improves on the best candidate so far.\<close>

definition betterCandidate :: "u16 \<Rightarrow> i8 \<Rightarrow> EspNow \<Rightarrow> bool" where
  "betterCandidate hops signal e \<longleftrightarrow>
     (\<not> discoveryCandidateFound e \<or> hops < bestUpstreamCandidateHopCount e) \<or>
     (discoveryCandidateFound e \<and> hops = bestUpstreamCandidateHopCount e \<and>
      sint signal > sint (bestUpstreamCandidateSignalStrengthDbm e))"

definition processDiscoveryResponse :: "i8 \<Rightarrow> EspMessage \<Rightarrow> EspNow \<Rightarrow> EspNow" where
  "processDiscoveryResponse signal m e =
     (if msg_destinationMacAddress m \<noteq> esp_localMacAddress e then e
      else if length (msg_payload m) \<noteq> DISCOVERY_RESPONSE_SIZE then e
      else
        let response = response_of_bytes (msg_payload m); hops = response_hopCountToCentral response
        in if \<not> (discoveryInProgress e \<and> response_discoveryId response = activeDiscoveryId e) then e
           else if hops = UNKNOWN_HOP_COUNT then e
           else if hopCountToCentral e \<noteq> UNKNOWN_HOP_COUNT \<and> hops \<ge> hopCountToCentral e then e
           else if betterCandidate hops signal e
           then e\<lparr>discoveryCandidateFound := True,
                  bestUpstreamCandidateMacAddress := msg_originMacAddress m,
                  bestUpstreamCandidateSignalStrengthDbm := signal,
                  bestUpstreamCandidateHopCount := hops,
                  bestUpstreamCandidateCentralMacAddress := response_centralMacAddress response\<rparr>
           else e)"

definition processConnectionHandshake :: "RadioApi \<Rightarrow> MacAddress \<Rightarrow> i8 \<Rightarrow> EspMessage \<Rightarrow> EspNow \<Rightarrow> EspNow" where
  "processConnectionHandshake api sender signal m e =
     (if \<not> isMessageForThisNode (esp_localMacAddress e) (msg_destinationMacAddress m) then e
      else if length (msg_payload m) \<noteq> CONNECTION_HANDSHAKE_SIZE then e
      else
        let handshake = handshake_of_bytes (msg_payload m)
        in if sender \<noteq> msg_originMacAddress m then e
           else if \<not> routeAvailable e then e
           else if handshake_hopCountToCentral handshake \<noteq> hopCountToCentral e + 1 then e
           else if handshake_centralMacAddress handshake \<noteq> centralMacAddress e then e
           else snd (registerOrUpdateDirectDownstreamNode (handshake_nodeName handshake)
                  (msg_originMacAddress m) signal True (handshake_hopCountToCentral handshake)
                  (snd (addPeer api (msg_originMacAddress m) e))))"

section \<open>The service task\<close>

text \<open>
  One packet: the message put into the queue of the application, if it is one for it, the frames
  sent and the state. When the queue is full the message is dropped.
\<close>

definition processRawReceivedPacket ::
  "RadioApi \<Rightarrow> MacAddress \<Rightarrow> i8 \<Rightarrow> u8 list \<Rightarrow> EspNow \<Rightarrow> EspMessage option \<times> frames \<times> EspNow" where
  "processRawReceivedPacket api sender signal bs e =
     (let e1 = refreshDirectDownstreamNodeSignalStrength sender signal e
      in case message_of_frame bs of
        None \<Rightarrow> (None, [], e1)
      | Some m \<Rightarrow>
          if msg_messageType m = DISCOVERY_REQUEST_TYPE then (None, processDiscoveryRequest api m e1)
          else if msg_messageType m = DISCOVERY_RESPONSE_TYPE
          then (None, [], processDiscoveryResponse signal m e1)
          else if msg_messageType m = HANDSHAKE_TYPE
          then (None, [], processConnectionHandshake api sender signal m e1)
          else (if application_queue_has_room api then Some m else None, [], e1))"

end
