(* ===== verification/Json.thy ===== *)
theory Json
  imports Float32
begin

text \<open>
  JSON text. The firmware builds it by appending to a string (\<open>appendString\<close>, \<open>std::to_string\<close>,
  \<open>snprintf\<close>); what that text means is said by a reader for JSON (\<open>parse_json\<close>) and by
  the values it gives. The reader accepts the texts of RFC 8259 that have no white space, no
  exponents and no \<open>\u\<close> escapes; what it accepts is JSON.
\<close>

section \<open>Numbers as text\<close>

definition digit_char :: "nat \<Rightarrow> char" where
  "digit_char d = char_of (48 + d)"

text \<open>\<open>std::to_string\<close> of an unsigned integer.\<close>

fun decimal :: "nat \<Rightarrow> string" where
  "decimal n = (if n < 10 then [digit_char n] else decimal (n div 10) @ [digit_char (n mod 10)])"

declare decimal.simps [simp del]

definition signed_text :: "int \<Rightarrow> string" where
  "signed_text i = (if i < 0 then ''-'' @ decimal (nat (- i)) else decimal (nat i))"

definition zero_padded :: "nat \<Rightarrow> nat \<Rightarrow> string" where
  "zero_padded k v = replicate (k - length (decimal v)) (CHR ''0'') @ decimal v"

text \<open>\<open>printf\<close> with \<open>%.<k>f\<close>: the exact value rounded to \<open>k\<close> decimals, ties to even.\<close>

fun fixed_text :: "nat \<Rightarrow> f32 \<Rightarrow> string" where
  "fixed_text k NaN = ''nan''"
| "fixed_text k (Infinity s) = (if s then ''-inf'' else ''inf'')"
| "fixed_text k (Finite s n) =
     (let v = round_even (n * 10 ^ k) one_units
      in (if s then ''-'' else []) @ decimal (v div 10 ^ k) @ ''.'' @ zero_padded k (v mod 10 ^ k))"

section \<open>Strings as text\<close>

definition escape_char :: "char \<Rightarrow> string" where
  "escape_char c = (if c = CHR 0x22 \<or> c = CHR 0x5C then [CHR 0x5C, c] else [c])"

definition quoted :: "string \<Rightarrow> string" where
  "quoted s = [CHR 0x22] @ concat (map escape_char s) @ [CHR 0x22]"

definition appendString :: "string \<Rightarrow> string \<Rightarrow> string" where
  "appendString out value = out @ quoted value"

text \<open>The member names the code writes out literally, with their colon.\<close>

definition json_key :: "string \<Rightarrow> string" where
  "json_key k = [CHR 0x22] @ k @ [CHR 0x22, CHR '':'']"

definition bool_text :: "bool \<Rightarrow> string" where
  "bool_text b = (if b then ''true'' else ''false'')"

text \<open>The loop that writes a comma before every element but the first.\<close>

definition append_separated :: "('a \<Rightarrow> string \<Rightarrow> string) \<Rightarrow> 'a list \<Rightarrow> string \<Rightarrow> string" where
  "append_separated f xs out =
     fst (fold (\<lambda>x (o', first). (f x (if first then o' else o' @ '',''), False)) xs (out, True))"

section \<open>JSON values\<close>

datatype json =
  JNull | JBool bool | JNumber string | JString string
| JArray "json list" | JObject "(string \<times> json) list"

fun render :: "json \<Rightarrow> string" and render_items :: "json list \<Rightarrow> string"
  and render_members :: "(string \<times> json) list \<Rightarrow> string" where
  "render JNull = ''null''"
| "render (JBool b) = bool_text b"
| "render (JNumber t) = t"
| "render (JString s) = quoted s"
| "render (JArray vs) = ''['' @ render_items vs @ '']''"
| "render (JObject ms) = ''{'' @ render_members ms @ ''}''"
| "render_items [] = []"
| "render_items [v] = render v"
| "render_items (v # w # vs) = render v @ '','' @ render_items (w # vs)"
| "render_members [] = []"
| "render_members [(k, v)] = quoted k @ '':'' @ render v"
| "render_members ((k, v) # m # ms) = quoted k @ '':'' @ render v @ '','' @ render_members (m # ms)"

section \<open>Reading JSON\<close>

definition is_digit :: "char \<Rightarrow> bool" where
  "is_digit c \<longleftrightarrow> 48 \<le> (of_char c :: nat) \<and> (of_char c :: nat) \<le> 57"

definition number_char :: "char \<Rightarrow> bool" where
  "number_char c \<longleftrightarrow> is_digit c \<or> c \<in> set ''+-.eE''"

definition fraction :: "string \<Rightarrow> bool" where
  "fraction r \<longleftrightarrow> r = [] \<or> (hd r = CHR ''.'' \<and> tl r \<noteq> [] \<and> list_all is_digit (tl r))"

definition unsigned_number :: "string \<Rightarrow> bool" where
  "unsigned_number u \<longleftrightarrow>
     (let i = takeWhile is_digit u
      in i \<noteq> [] \<and> (i = ''0'' \<or> hd i \<noteq> CHR ''0'') \<and> fraction (dropWhile is_digit u))"

definition is_number :: "string \<Rightarrow> bool" where
  "is_number t \<longleftrightarrow> unsigned_number (if take 1 t = ''-'' then tl t else t)"

definition unescape :: "char \<Rightarrow> char option" where
  "unescape c =
     (if c = CHR 0x22 \<or> c = CHR 0x5C \<or> c = CHR ''/'' then Some c
      else if c = CHR ''b'' then Some (CHR 0x08) else if c = CHR ''f'' then Some (CHR 0x0C)
      else if c = CHR ''n'' then Some (CHR 0x0A) else if c = CHR ''r'' then Some (CHR 0x0D)
      else if c = CHR ''t'' then Some (CHR 0x09) else None)"

text \<open>The rest of a string after its opening quote. Control characters are not allowed.\<close>

fun read_string :: "string \<Rightarrow> (string \<times> string) option" where
  "read_string [] = None"
| "read_string [c] = (if c = CHR 0x22 then Some ([], []) else None)"
| "read_string (c # d # cs) =
     (if c = CHR 0x22 then Some ([], d # cs)
      else if c = CHR 0x5C
      then (case unescape d of
              None \<Rightarrow> None
            | Some e \<Rightarrow> map_option (apfst ((#) e)) (read_string cs))
      else if (of_char c :: nat) < 32 then None
      else map_option (apfst ((#) c)) (read_string (d # cs)))"

fun read_value :: "nat \<Rightarrow> string \<Rightarrow> (json \<times> string) option"
  and read_items :: "nat \<Rightarrow> string \<Rightarrow> (json list \<times> string) option"
  and read_members :: "nat \<Rightarrow> string \<Rightarrow> ((string \<times> json) list \<times> string) option" where
  "read_value 0 s = None"
| "read_value (Suc n) s =
     (case s of
        [] \<Rightarrow> None
      | c # cs \<Rightarrow>
          if c = CHR 0x22 then map_option (apfst JString) (read_string cs)
          else if c = CHR ''['' then
            (if take 1 cs = '']'' then Some (JArray [], tl cs)
             else map_option (apfst JArray) (read_items n cs))
          else if c = CHR ''{'' then
            (if take 1 cs = ''}'' then Some (JObject [], tl cs)
             else map_option (apfst JObject) (read_members n cs))
          else if take 4 s = ''null'' then Some (JNull, drop 4 s)
          else if take 4 s = ''true'' then Some (JBool True, drop 4 s)
          else if take 5 s = ''false'' then Some (JBool False, drop 5 s)
          else if is_number (takeWhile number_char s)
          then Some (JNumber (takeWhile number_char s), dropWhile number_char s)
          else None)"
| "read_items 0 s = None"
| "read_items (Suc n) s =
     (case read_value n s of
        None \<Rightarrow> None
      | Some (v, []) \<Rightarrow> None
      | Some (v, c # cs) \<Rightarrow>
          if c = CHR '']'' then Some ([v], cs)
          else if c = CHR '','' then map_option (apfst ((#) v)) (read_items n cs)
          else None)"
| "read_members 0 s = None"
| "read_members (Suc n) s =
     (if take 1 s \<noteq> [CHR 0x22] then None
      else case read_string (tl s) of
        None \<Rightarrow> None
      | Some (k, r) \<Rightarrow>
          if take 1 r \<noteq> '':'' then None
          else case read_value n (tl r) of
            None \<Rightarrow> None
          | Some (v, []) \<Rightarrow> None
          | Some (v, c # cs) \<Rightarrow>
              if c = CHR ''}'' then Some ([(k, v)], cs)
              else if c = CHR '','' then map_option (apfst ((#) (k, v))) (read_members n cs)
              else None)"

text \<open>Every call consumes a character, so the length of the text is fuel enough.\<close>

definition parse_json :: "string \<Rightarrow> json option" where
  "parse_json s = (case read_value (Suc (length s)) s of Some (v, []) \<Rightarrow> Some v | _ \<Rightarrow> None)"

section \<open>What is written is read back\<close>

definition json_string :: "string \<Rightarrow> bool" where
  "json_string s \<longleftrightarrow> list_all (\<lambda>c. 32 \<le> (of_char c :: nat)) s"

fun json_ok :: "json \<Rightarrow> bool" where
  "json_ok (JNumber t) \<longleftrightarrow> is_number t"
| "json_ok (JString s) \<longleftrightarrow> json_string s"
| "json_ok (JArray vs) \<longleftrightarrow> (\<forall>v \<in> set vs. json_ok v)"
| "json_ok (JObject ms) \<longleftrightarrow> (\<forall>(k, v) \<in> set ms. json_string k \<and> json_ok v)"
| "json_ok v \<longleftrightarrow> True"

fun numbers_ok :: "json \<Rightarrow> bool" where
  "numbers_ok (JNumber t) \<longleftrightarrow> is_number t"
| "numbers_ok (JArray vs) \<longleftrightarrow> (\<forall>v \<in> set vs. numbers_ok v)"
| "numbers_ok (JObject ms) \<longleftrightarrow> (\<forall>(k, v) \<in> set ms. numbers_ok v)"
| "numbers_ok v \<longleftrightarrow> True"

lemma json_ok_numbers: "json_ok v \<Longrightarrow> numbers_ok v"
  by (induction v rule: json_ok.induct) auto

lemma read_string_escaped:
  "read_string (concat (map escape_char s) @ CHR 0x22 # r) = (if json_string s then Some (s, r) else None)"
proof (induction s)
  case Nil
  show ?case by (cases r) (simp_all add: json_string_def)
next
  case (Cons c s)
  obtain x xs where x: "concat (map escape_char s) @ CHR 0x22 # r = x # xs"
    by (cases "concat (map escape_char s) @ CHR 0x22 # r") auto
  have ih: "read_string (x # xs) = (if json_string s then Some (s, r) else None)" using Cons x by simp
  have e: "concat (map escape_char (c # s)) @ CHR 0x22 # r = escape_char c @ x # xs" by (simp add: x)
  show ?case unfolding e using ih
    by (auto simp: escape_char_def json_string_def unescape_def)
qed

text \<open>What may follow a value: not a character of a number.\<close>

definition stops :: "string \<Rightarrow> bool" where
  "stops r \<longleftrightarrow> (case r of [] \<Rightarrow> True | c # cs \<Rightarrow> \<not> number_char c)"

lemma digits_number_chars: "list_all is_digit t \<Longrightarrow> list_all number_char t"
  by (simp add: list_all_iff number_char_def)

lemma fraction_number_chars: "fraction r \<Longrightarrow> list_all number_char r"
proof (cases r)
  case (Cons c cs)
  assume "fraction r"
  then have "c = CHR ''.''" "list_all is_digit cs" by (simp_all add: Cons fraction_def)
  then show ?thesis by (simp add: Cons digits_number_chars) (simp add: number_char_def)
qed simp

lemma unsigned_number_chars:
  assumes "unsigned_number u"
  shows "list_all number_char u \<and> u \<noteq> []"
proof -
  have f: "fraction (dropWhile is_digit u)" and i: "takeWhile is_digit u \<noteq> []"
    using assms unfolding unsigned_number_def Let_def by blast+
  have "list_all number_char (takeWhile is_digit u)"
    by (rule digits_number_chars) (auto simp: list_all_iff dest: set_takeWhileD)
  then have "list_all number_char (takeWhile is_digit u @ dropWhile is_digit u)"
    using fraction_number_chars [OF f] by (simp only: list_all_append simp_thms)
  then have "list_all number_char u" by (simp only: takeWhile_dropWhile_id)
  moreover have "u \<noteq> []" using i by auto
  ultimately show ?thesis by blast
qed

lemma number_chars:
  assumes "is_number t"
  obtains c cs where "t = c # cs" and "number_char c" and "list_all number_char t"
proof (cases "take 1 t = ''-''")
  case True
  then have t: "t = CHR ''-'' # tl t" by (cases t) auto
  have "unsigned_number (tl t)" using assms True by (simp add: is_number_def)
  then have "list_all number_char (tl t)" by (simp add: unsigned_number_chars)
  moreover have "number_char (CHR ''-'')" by (simp add: number_char_def)
  ultimately show ?thesis using t that [of "CHR ''-''" "tl t"] by (metis list.pred_inject(2))
next
  case False
  then have "unsigned_number t" using assms by (simp add: is_number_def)
  then show ?thesis using unsigned_number_chars [of t] that by (cases t) auto
qed

lemma takeWhile_stops:
  "list_all P t \<Longrightarrow> (case r of [] \<Rightarrow> True | c # cs \<Rightarrow> \<not> P c) \<Longrightarrow>
   takeWhile P (t @ r) = t \<and> dropWhile P (t @ r) = r"
  by (induction t) (auto split: list.splits)

lemma read_number:
  assumes "is_number t" and "stops r"
  shows "read_value (Suc n) (t @ r) = Some (JNumber t, r)"
proof -
  obtain c cs where t: "t = c # cs" and c: "number_char c" and all: "list_all number_char t"
    by (rule number_chars [OF assms(1)])
  have "takeWhile number_char (t @ r) = t \<and> dropWhile number_char (t @ r) = r"
    by (rule takeWhile_stops [OF all]) (use assms(2) in \<open>simp add: stops_def\<close>)
  moreover have "c \<notin> {CHR 0x22, CHR ''['', CHR ''{'', CHR ''n'', CHR ''t'', CHR ''f''}"
    using c by (auto simp: number_char_def is_digit_def)
  ultimately show ?thesis using assms(1) unfolding t by auto
qed

lemma render_nonempty:
  "numbers_ok v \<Longrightarrow> render v \<noteq> [] \<and> hd (render v) \<notin> {CHR '']'', CHR ''}''}"
proof (cases v)
  case (JNumber t)
  assume "numbers_ok v"
  then obtain c cs where "t = c # cs" "number_char c" by (auto simp: JNumber elim: number_chars)
  then show ?thesis by (auto simp: JNumber number_char_def is_digit_def)
qed (auto simp: bool_text_def quoted_def)

text \<open>
  Written text is read back to the value it came from, and when a string of the value has a
  control character, it is not read at all.
\<close>

lemma render_read_aux:
  "(\<forall>v r. length (render v) \<le> n \<and> numbers_ok v \<and> stops r \<longrightarrow>
      read_value n (render v @ r) = (if json_ok v then Some (v, r) else None)) \<and>
   (\<forall>vs r. vs \<noteq> [] \<and> length (render_items vs) < n \<and> (\<forall>v \<in> set vs. numbers_ok v) \<longrightarrow>
      read_items n (render_items vs @ CHR '']'' # r) = (if \<forall>v \<in> set vs. json_ok v then Some (vs, r) else None)) \<and>
   (\<forall>ms r. ms \<noteq> [] \<and> length (render_members ms) < n \<and> (\<forall>(k, v) \<in> set ms. numbers_ok v) \<longrightarrow>
      read_members n (render_members ms @ CHR ''}'' # r) =
        (if \<forall>(k, v) \<in> set ms. json_string k \<and> json_ok v then Some (ms, r) else None))"
proof (induction n)
  case 0
  show ?case using render_nonempty by auto
next
  case (Suc n)
  have stop: "stops (c # x)" if "c \<in> {CHR '']'', CHR ''}'', CHR '',''}" for c x
    using that by (auto simp: stops_def number_char_def is_digit_def)
  show ?case
  proof (intro conjI allI impI)
    fix v r assume a: "length (render v) \<le> Suc n \<and> numbers_ok v \<and> stops r"
    show "read_value (Suc n) (render v @ r) = (if json_ok v then Some (v, r) else None)"
    proof (cases v)
      case (JArray vs)
      show ?thesis
      proof (cases "vs = []")
        case False
        then obtain w ws where vs: "vs = w # ws" by (cases vs) auto
        have "numbers_ok w" using a by (simp add: JArray vs)
        then have "take 1 (render_items vs @ '']'' @ r) \<noteq> '']''"
          using render_nonempty [of w] by (cases ws; cases "render w") (auto simp: vs)
        moreover have "read_items n (render_items vs @ CHR '']'' # r) =
            (if \<forall>v \<in> set vs. json_ok v then Some (vs, r) else None)"
          using Suc.IH a False by (simp add: JArray)
        ultimately show ?thesis by (simp add: JArray)
      qed (simp add: JArray)
    next
      case (JObject ms)
      show ?thesis
      proof (cases "ms = []")
        case False
        then obtain k w ws where ms: "ms = (k, w) # ws" by (cases ms) auto
        have "take 1 (render_members ms @ ''}'' @ r) \<noteq> ''}''"
          by (cases ws) (auto simp: ms quoted_def)
        moreover have "read_members n (render_members ms @ CHR ''}'' # r) =
            (if \<forall>(k, v) \<in> set ms. json_string k \<and> json_ok v then Some (ms, r) else None)"
          using Suc.IH a False by (simp add: JObject)
        ultimately show ?thesis by (simp add: JObject)
      qed (simp add: JObject)
    next
      case (JNumber t)
      with a show ?thesis by (simp add: read_number del: read_value.simps)
    next
      case (JString s)
      then show ?thesis by (simp add: quoted_def read_string_escaped)
    qed (simp_all add: bool_text_def)
  next
    fix vs r assume a: "vs \<noteq> [] \<and> length (render_items vs) < Suc n \<and> (\<forall>v \<in> set vs. numbers_ok v)"
    then obtain v ws where vs: "vs = v # ws" by (cases vs) auto
    have v: "read_value n (render v @ c # x) = (if json_ok v then Some (v, c # x) else None)"
      if "c \<in> {CHR '']'', CHR ''}'', CHR '',''}" for c x
      using Suc.IH a stop [OF that] by (cases ws) (simp_all add: vs)
    show "read_items (Suc n) (render_items vs @ CHR '']'' # r) = (if \<forall>v \<in> set vs. json_ok v then Some (vs, r) else None)"
    proof (cases ws)
      case Nil
      show ?thesis by (simp add: vs Nil v)
    next
      case (Cons w ws')
      have "read_items n (render_items ws @ CHR '']'' # r) = (if \<forall>v \<in> set ws. json_ok v then Some (ws, r) else None)"
        using Suc.IH a by (simp add: vs Cons)
      then show ?thesis by (simp add: vs Cons v)
    qed
  next
    fix ms r assume a: "ms \<noteq> [] \<and> length (render_members ms) < Suc n \<and> (\<forall>(k, v) \<in> set ms. numbers_ok v)"
    then obtain k v ws where ms: "ms = (k, v) # ws" by (cases ms) auto
    have v: "read_value n (render v @ c # x) = (if json_ok v then Some (v, c # x) else None)"
      if "c \<in> {CHR '']'', CHR ''}'', CHR '',''}" for c x
      using Suc.IH a stop [OF that] by (cases ws) (simp_all add: ms)
    show "read_members (Suc n) (render_members ms @ CHR ''}'' # r) =
        (if \<forall>(k, v) \<in> set ms. json_string k \<and> json_ok v then Some (ms, r) else None)"
    proof (cases ws)
      case Nil
      show ?thesis by (simp add: ms Nil quoted_def read_string_escaped v)
    next
      case (Cons w ws')
      have "read_members n (render_members ws @ CHR ''}'' # r) =
          (if \<forall>(k, v) \<in> set ws. json_string k \<and> json_ok v then Some (ws, r) else None)"
        using Suc.IH a by (simp add: ms Cons)
      then show ?thesis by (simp add: ms Cons quoted_def read_string_escaped v)
    qed
  qed
qed

lemma parse_render_iff:
  assumes "numbers_ok v"
  shows "parse_json (render v) = (if json_ok v then Some v else None)"
proof -
  have "stops []" by (simp add: stops_def)
  then have "read_value (Suc (length (render v))) (render v @ []) = (if json_ok v then Some (v, []) else None)"
    using render_read_aux [of "Suc (length (render v))"] le_SucI [OF order_refl] assms by blast
  then show ?thesis by (simp add: parse_json_def del: read_value.simps)
qed

lemma parse_render: "json_ok v \<Longrightarrow> parse_json (render v) = Some v"
  by (simp add: parse_render_iff json_ok_numbers)

section \<open>The texts the code appends\<close>

definition digits_value :: "string \<Rightarrow> nat" where
  "digits_value t = foldl (\<lambda>a c. 10 * a + (of_char c - 48)) 0 t"

lemma is_digit_char: "d < 10 \<Longrightarrow> is_digit (digit_char d) \<and> (of_char (digit_char d) :: nat) = 48 + d"
  by (simp add: is_digit_def digit_char_def)

lemma decimal_digits: "list_all is_digit (decimal n) \<and> decimal n \<noteq> [] \<and> (n \<noteq> 0 \<longrightarrow> hd (decimal n) \<noteq> CHR ''0'')"
proof (induction n rule: decimal.induct)
  case (1 n)
  show ?case
  proof (cases "n < 10")
    case True
    have "digit_char n \<noteq> CHR ''0''" if "n \<noteq> 0"
    proof
      assume "digit_char n = CHR ''0''"
      then have "(of_char (digit_char n) :: nat) = 48" by simp
      with True that is_digit_char [of n] show False by simp
    qed
    with True show ?thesis by (simp add: decimal.simps [of n] is_digit_char)
  next
    case False
    then have "n div 10 \<noteq> 0" by simp
    with 1 False show ?thesis by (simp add: decimal.simps [of n] is_digit_char)
  qed
qed

lemma digits_value_decimal [simp]: "digits_value (decimal n) = n"
proof (induction n rule: decimal.induct)
  case (1 n)
  then show ?case by (simp add: decimal.simps [of n] digits_value_def is_digit_char)
qed

lemma decimal_eq_iff [simp]: "decimal m = decimal n \<longleftrightarrow> m = n"
  by (metis digits_value_decimal)

lemma takeWhile_digits:
  "list_all is_digit t \<Longrightarrow> (case r of [] \<Rightarrow> True | c # cs \<Rightarrow> \<not> is_digit c) \<Longrightarrow>
   takeWhile is_digit (t @ r) = t \<and> dropWhile is_digit (t @ r) = r"
  by (rule takeWhile_stops)

lemma unsigned_number_decimal:
  assumes "fraction r"
  shows "unsigned_number (decimal n @ r)"
proof -
  have "case r of [] \<Rightarrow> True | c # cs \<Rightarrow> \<not> is_digit c"
    using assms by (cases r) (auto simp: fraction_def is_digit_def)
  from takeWhile_digits [OF _ this, of "decimal n"] decimal_digits [of n] assms
  show ?thesis by (cases "n = 0") (auto simp: unsigned_number_def Let_def decimal.simps [of 0] digit_char_def)
qed

lemma minus_no_digit: "take 1 (decimal n @ r) \<noteq> ''-''"
  using decimal_digits [of n] by (cases "decimal n") (auto simp: is_digit_def)

lemma is_number_decimal [simp]: "is_number (decimal n)"
  using unsigned_number_decimal [of "[]" n] minus_no_digit [of n "[]"] by (simp add: is_number_def fraction_def)

lemma is_number_zero [simp]: "is_number ''0''"
  by (simp add: is_number_def unsigned_number_def Let_def fraction_def is_digit_def)

lemma is_number_signed [simp]: "is_number (signed_text i)"
proof -
  have "unsigned_number (decimal m)" for m
    using unsigned_number_decimal [of "[]" m] by (simp add: fraction_def)
  then have "is_number (''-'' @ decimal m)" for m by (simp add: is_number_def)
  then show ?thesis by (simp add: signed_text_def)
qed

lemma zero_padded_digits: "list_all is_digit (zero_padded k v) \<and> zero_padded k v \<noteq> []"
proof -
  have "is_digit (CHR ''0'')" by (simp add: is_digit_def)
  then show ?thesis using decimal_digits [of v] by (auto simp: zero_padded_def list_all_iff)
qed

lemma is_number_fixed: "fisfinite x \<Longrightarrow> is_number (fixed_text k x)"
proof -
  assume "fisfinite x"
  then obtain s n where x: "x = Finite s n" by (auto simp: fisfinite_iff)
  have f: "fraction (CHR ''.'' # zero_padded k v)" for v
    using zero_padded_digits [of k v] by (simp add: fraction_def)
  have "is_number (decimal m @ CHR ''.'' # zero_padded k v)" for m v
    using unsigned_number_decimal [OF f, of m v] minus_no_digit [of m] by (simp add: is_number_def)
  moreover have "is_number (CHR ''-'' # decimal m @ CHR ''.'' # zero_padded k v)" for m v
    using unsigned_number_decimal [OF f, of m v] by (simp add: is_number_def)
  ultimately show ?thesis by (simp add: x Let_def)
qed

lemma render_items_Cons:
  "render_items (v # vs) = render v @ concat (map (\<lambda>w. '','' @ render w) vs)"
  by (induction vs arbitrary: v) auto

text \<open>The loop with its commas writes the elements of an array.\<close>

lemma append_separated_render:
  assumes "\<And>x out. x \<in> set xs \<Longrightarrow> f x out = out @ render (g x)"
  shows "append_separated f xs out = out @ render_items (map g xs)"
proof -
  have rest: "fold (\<lambda>x (o', first). (f x (if first then o' else o' @ '',''), False)) ys (o', False) =
      (o' @ concat (map (\<lambda>y. '','' @ render (g y)) ys), False)" if "set ys \<subseteq> set xs" for ys o'
    using that assms by (induction ys arbitrary: o') auto
  show ?thesis
  proof (cases xs)
    case (Cons y ys)
    then have "set ys \<subseteq> set xs" by auto
    from rest [OF this] show ?thesis using assms
      by (simp add: append_separated_def Cons render_items_Cons comp_def)
  qed (simp add: append_separated_def)
qed

lemma render_bool: "render (JBool b) = bool_text b" by simp

lemma json_key_quoted: "list_all (\<lambda>c. c \<noteq> CHR 0x22 \<and> c \<noteq> CHR 0x5C) k \<Longrightarrow> json_key k = quoted k @ '':''"
proof -
  assume "list_all (\<lambda>c. c \<noteq> CHR 0x22 \<and> c \<noteq> CHR 0x5C) k"
  then have "concat (map escape_char k) = k" by (induction k) (auto simp: escape_char_def)
  then show ?thesis by (simp add: json_key_def quoted_def)
qed

end
