(* ===== verification/Central_Application.thy ===== *)
theory Central_Application
  imports Central_Commands Mesh Json
begin

text \<open>
  \<open>CentralApplication.cpp\<close> and the parts of \<open>src/central/namespace.h\<close> that tie the handlers
  together: start-up, the system commands, the turn of the radio task, the optimisation task
  with the dispatch of its targets, and the event loop of the whole node.
\<close>

section \<open>Start-up\<close>

definition configureLocalHardware ::
  "('g, 'n, 'i) Platform \<Rightarrow> u32 \<Rightarrow> ('g, 'n, 'i) Central \<Rightarrow> ('g, 'n, 'i) Central" where
  "configureLocalHardware pf now c =
     (let h = (localHardware c)\<lparr>hw_node := new_Node (localMac pf)\<rparr>
      in case hardware_loadPersisted (nvs pf) (hw_nvs h) (hw_configurations h) of
        (loaded, cs) \<Rightarrow>
          let h1 = h\<lparr>hw_configurations := cs\<rparr>;
              h2 = (if loaded then snd (applyPersistedConfigurations (gpio pf) h1) else h1)
          in addLocalNode now (c\<lparr>localHardware := h2\<rparr>))"

text \<open>The part of \<open>runApp\<close> that restores the state; a failed load leaves the default in place.\<close>

definition restoreState :: "('g, 'n, 'i) Platform \<Rightarrow> u32 \<Rightarrow> ('g, 'n, 'i) Central \<Rightarrow> ('g, 'n, 'i) Central" where
  "restoreState pf now c =
     (let c1 = configureLocalHardware pf now c;
          c2 = c1\<lparr>centralConfigurationStore :=
                 snd (central_loadPersisted (nvs pf) (settings_nvs c1) (centralConfigurationStore c1))\<rparr>;
          c3 = loadOptimizerIntervalConfiguration (nvs pf) c2;
          c4 = snd (applyPersistedBatterySensorConfiguration pf c3);
          es = snd (config_loadPersisted (nvs pf) (loads_nvs c4) (centralLoadConfigurationStore c4))
      in c4\<lparr>centralLoadConfigurationStore := es,
            registry := applyStoredLoadSettings es (registry c4),
            commissioningRegistry :=
              snd (registry_loadPersisted (nvs pf) (commissioning_nvs c4) (commissioningRegistry c4))\<rparr>)"

definition startCentral ::
  "('g, 'n, 'i) Platform \<Rightarrow> string \<Rightarrow> string \<Rightarrow> Diagnostics \<Rightarrow> u32 \<Rightarrow> ('g, 'n, 'i) Central \<Rightarrow> ('g, 'n, 'i) Central" where
  "startCentral pf firmwareVersion chipModel diagnostics now c =
     (let c1 = restoreState pf now c;
          rs = snd (registerSelf (localMac pf) CENTRAL (Some CENTRAL_NODE_NAME) (Some firmwareVersion)
                 (Some chipModel) None 0 now (commissioningRegistry c1));
          rs' = snd (updateDiagnostics (localMac pf) diagnostics rs)
      in c1\<lparr>commissioningRegistry := rs',
            commissioning_nvs := snd (registry_persist (nvs pf) rs' (commissioning_nvs c1))\<rparr>)"

section \<open>System commands\<close>

datatype SystemCommandRequest =
  SYSTEM_UNKNOWN
| REQUEST_OPTIMIZATION_CYCLE
| FACTORY_RESET_CENTRAL string
| FACTORY_RESET_NODE u32 string "MacAddress option"
| SET_OPTIMIZER_INTERVAL "u32 option"
| REPORT_OPTIMIZER_INTERVAL
| REBOOT_CENTRAL

definition FACTORY_RESET_CONFIRM_TOKEN :: u8 where "FACTORY_RESET_CONFIRM_TOKEN = 0x5A"

definition eraseStorage :: "('n \<Rightarrow> 'n) \<Rightarrow> ('g, 'n, 'i) Central \<Rightarrow> ('g, 'n, 'i) Central" where
  "eraseStorage e c =
     c\<lparr>settings_nvs := e (settings_nvs c), loads_nvs := e (loads_nvs c),
       commissioning_nvs := e (commissioning_nvs c), battery_nvs := e (battery_nvs c),
       optimizer_nvs := e (optimizer_nvs c),
       localHardware := (localHardware c)\<lparr>hw_nvs := e (hw_nvs (localHardware c))\<rparr>\<rparr>"

definition intervalRefused :: CommandResult where
  "intervalRefused =
     commandResult False False
       (''optimizer interval must be '' @ decimal (unat (MIN_OPTIMIZATION_PERIOD_MILLISECONDS div 1000)) @ ''..'' @
        decimal (unat (MAX_OPTIMIZATION_PERIOD_MILLISECONDS div 1000)) @ '' seconds'')"

text \<open>The result is \<open>None\<close> where \<open>esp_restart\<close> does not return.\<close>

definition handleSystemCommand ::
  "('g, 'n, 'i) Platform \<Rightarrow> SystemCommandRequest \<Rightarrow> ('g, 'n, 'i) Central \<Rightarrow>
   CommandResult option \<times> ('g, 'n, 'i) Central" where
  "handleSystemCommand pf request c =
     (case request of
        REQUEST_OPTIMIZATION_CYCLE \<Rightarrow> (Some (commandResult True True ''optimization requested''), c)
      | REPORT_OPTIMIZER_INTERVAL \<Rightarrow>
          (Some (commandResult True True
             (''optimizer interval is '' @ decimal (unat (optimizerIntervalMilliseconds c div 1000)) @ '' seconds'')), c)
      | SET_OPTIMIZER_INTERVAL seconds \<Rightarrow>
          (case seconds of
             Some s \<Rightarrow>
               if \<not> isValidOptimizerIntervalSeconds s then (Some intervalRefused, c)
               else (case saveOptimizerIntervalSeconds (nvs pf) s c of
                       (False, c') \<Rightarrow> (Some (commandResult False False ''could not save optimizer interval''), c')
                     | (True, c') \<Rightarrow>
                         (Some (commandResult True True
                            (''optimizer interval set to '' @ decimal (unat s) @ '' seconds'')), c'))
           | None \<Rightarrow> (Some intervalRefused, c))
      | REBOOT_CENTRAL \<Rightarrow> (Some (commandResult True True ''Central restarting in 1.5 seconds''), c)
      | FACTORY_RESET_CENTRAL confirmText \<Rightarrow>
          if confirmText \<noteq> ''RESET'' \<and> confirmText \<noteq> ''FACTORY_RESET_CONFIRMED''
          then (Some (commandResult False False ''reset confirmation required''), c)
          else (case flashErase pf of
                  None \<Rightarrow> (Some (commandResult False False ''Central NVS erase failed''), c)
                | Some e \<Rightarrow> (None, eraseStorage e c))
      | FACTORY_RESET_NODE commandId confirmText target \<Rightarrow>
          (case target of
             None \<Rightarrow> (Some (commandResult False False ''targetNodeMac required''), c)
           | Some mac \<Rightarrow>
               (case routeToSmartNode pf mac c of
                  None \<Rightarrow> (Some (commandResult False False ''no ESP-NOW route to target Node''), c)
                | Some nextHop \<Rightarrow>
                    let sent = sendTo pf nextHop mac (FACTORY_RESET_COMMAND commandId FACTORY_RESET_CONFIRM_TOKEN)
                    in (Some (commandResult sent False
                          (if sent then ''factory reset dispatched'' else ''ESP-NOW send failed'')), c)))
      | SYSTEM_UNKNOWN \<Rightarrow> (Some (commandResult False False ''unsupported system command''), c))"

section \<open>Validated console commands\<close>

definition consoleSensorMode ::
  "('g, 'n, 'i) Platform \<Rightarrow> bool \<Rightarrow> u32 \<Rightarrow> ('g, 'n, 'i) Central \<Rightarrow> bool \<times> ('g, 'n, 'i) Central" where
  "consoleSensorMode pf simulated now c =
     (case handleSimulationCommand pf (if simulated then ENABLE else DISABLE) now
             (snd (allocateConsoleCommandId c)) of
        (result, c') \<Rightarrow> (accepted result, c'))"

definition consoleSensorModeConfigured ::
  "('g, 'n, 'i) Platform \<Rightarrow> bool \<Rightarrow> u32 \<Rightarrow> ('g, 'n, 'i) Central \<Rightarrow> bool \<times> ('g, 'n, 'i) Central" where
  "consoleSensorModeConfigured pf simulated now c =
     (case consoleSensorMode pf simulated now c of
        (changed, c1) \<Rightarrow>
          if \<not> changed \<or> \<not> simulated then (changed, c1)
          else applyBatteryConfiguration pf (batterySensor (centralConfigurationStore c1)) True c1)"

text \<open>A plan with a runtime target needs a battery it can be computed for.\<close>

definition consoleConfigurePowerPlanningValidated ::
  "('g, 'n, 'i) Platform \<Rightarrow> f32 \<Rightarrow> f32 \<Rightarrow> f32 \<Rightarrow> f32 \<Rightarrow> u32 \<Rightarrow> ('g, 'n, 'i) Central \<Rightarrow>
   CommandResult \<times> ('g, 'n, 'i) Central" where
  "consoleConfigurePowerPlanningValidated pf budget reserve minimum runtime now c =
     (let battery = batterySensor (centralConfigurationStore c);
          target = flt fzero runtime
      in if target \<and> (\<not> batteryMetadataConfigured battery \<or> fle (cfg_batteryCapacityAmpHours battery) fzero \<or>
                       fle (cfg_nominalVoltageVolts battery) fzero)
         then (commandResult False False
                 ''runtime requires battery setup (capacity and voltage); existing power plan was not changed'', c)
         else if target \<and> \<not> isStateOfChargeValid (batteryMonitor c)
         then (commandResult False False
                 ''runtime requires a valid battery state of charge; existing power plan was not changed'', c)
         else case consoleConfigurePowerPlanning pf budget reserve minimum runtime now c of
           (result, c1) \<Rightarrow>
             if \<not> accepted result \<or> \<not> simulationEnabled (batteryMonitor c1) then (result, c1)
             else (result, snd (applyBatteryConfiguration pf (batterySensor (centralConfigurationStore c1)) True c1)))"

section \<open>The tasks\<close>

text \<open>
  What the radio delivers; every other type, or a payload of the wrong length, is
  \<open>OTHER_MESSAGE\<close>. The acknowledgement of a decommissioning is only published.
\<close>

datatype Message =
  NODE_REPORT NodeReportPacket
| IDENTITY_REPORT IdentityReportPacket
| COMMISSION_ACK CommissionAckPacket
| ACKNOWLEDGEMENT RelayCommandAcknowledgementPacket
| CONFIGURE_LOAD_ACK ConfigureLoadAcknowledgementPacket
| DECOMMISSION_ACK u32 u8
| OTHER_MESSAGE

definition handleMessage ::
  "('g, 'n, 'i) Platform \<Rightarrow> MacAddress \<Rightarrow> Message \<Rightarrow> u32 \<Rightarrow> ('g, 'n, 'i) Central \<Rightarrow> ('g, 'n, 'i) Central" where
  "handleMessage pf originMac msg now c =
     (case msg of
        NODE_REPORT report \<Rightarrow> snd (handleNodeReport originMac report now c)
      | IDENTITY_REPORT report \<Rightarrow> handleIdentityReport originMac report now c
      | COMMISSION_ACK ack \<Rightarrow> snd (handleCommissionAcknowledgement pf originMac ack c)
      | ACKNOWLEDGEMENT ack \<Rightarrow> handleRelayAcknowledgement originMac ack c
      | CONFIGURE_LOAD_ACK ack \<Rightarrow> snd (handleHardwareConfigurationAcknowledgement pf originMac ack c)
      | DECOMMISSION_ACK commandId success \<Rightarrow> c
      | OTHER_MESSAGE \<Rightarrow> c)"

text \<open>
  A turn of \<open>espNowCommunicationTask\<close>: the next hop the message is forwarded to, when it is for
  another Node, and the state.
\<close>

definition receiveMessage ::
  "('g, 'n, 'i) Platform \<Rightarrow> MacAddress \<Rightarrow> MacAddress \<Rightarrow> Message \<Rightarrow> u32 \<Rightarrow> ('g, 'n, 'i) Central \<Rightarrow>
   MacAddress option \<times> ('g, 'n, 'i) Central" where
  "receiveMessage pf originMac destination msg now c =
     (if \<not> isMessageForThisNode (localMac pf) destination
      then (findNextHopFromCentral (localMac pf) destination (registry c), c)
      else (None, handleMessage pf originMac msg now c))"

text \<open>\<open>dispatchRelayOrderWithOnStagger\<close>, with what happens while each target waits; the delays are left out.\<close>

fun dispatchRelayOrder ::
  "('g, 'n, 'i) Platform \<Rightarrow> (RelayTarget \<Rightarrow> RelayWait) \<Rightarrow>
   RelayTarget list \<Rightarrow> ('g, 'n, 'i) Central \<Rightarrow> ('g, 'n, 'i) Central" where
  "dispatchRelayOrder pf waits [] c = c"
| "dispatchRelayOrder pf waits (t # ts) c =
     dispatchRelayOrder pf waits ts (snd (dispatchRelayTargetAndWait pf t (waits t) c))"

definition optimizationTurn ::
  "('g, 'n, 'i) Platform \<Rightarrow> Clock \<Rightarrow> (RelayTarget \<Rightarrow> RelayWait) \<Rightarrow>
   ('g, 'n, 'i) Central \<Rightarrow> ('g, 'n, 'i) Central option" where
  "optimizationTurn pf clock waits c =
     map_option (\<lambda>(targets, c'). dispatchRelayOrder pf waits targets c')
       (runOptimizationCycle (nvs pf) clock c)"

end
