(* ===== verification/Central_Invariant.thy ===== *)
theory Central_Invariant
  imports Central_Application
begin

text \<open>
  Central as one machine: the invariant its parts keep together, the preservation of it by
  the optimisation cycle and by every handler, and the runs over an arbitrary sequence of
  events from the first start.
\<close>

section \<open>The planning copy stays well formed\<close>

lemma planning_ok_Nil [inv_intros]: "planning_ok []" by (simp add: planning_ok_def)

lemma planning_ok_update_first:
  assumes ok: "planning_ok ns" and mac: "\<And>pn. plan_mac (f pn) = plan_mac pn"
    and node: "\<And>pn. node_ok (plan_node pn) \<Longrightarrow> node_ok (plan_node (f pn))"
  shows "planning_ok (update_first P f ns)"
proof -
  have "map plan_mac (update_first P f ns) = map plan_mac ns" by (rule map_update_first) (rule mac)
  then show ?thesis
    using ok list_all_update_first [of "\<lambda>pn. node_ok (plan_node pn)" ns P f] node
    by (simp add: planning_ok_def)
qed

lemma applyLoadReport_ok:
  assumes "node_ok node"
  shows "node_ok (snd (applyLoadReport mac report (pins, node)))"
proof -
  have u: "node_ok n \<Longrightarrow> node_ok (updateLoad pin (scheduleReportedLoad report) n)"
    "node_ok n \<Longrightarrow> node_ok (updateLoad pin (updateReportedLoad report) n)" for n pin
    by (intro updateLoad_ok; simp add: scheduleReportedLoad_def updateReportedLoad_def step_defs Let_def)+
  have a: "node_ok node'" if "addLoad l node = (b, node')" for l b node'
    using addLoad_ok [OF assms, of l] that by simp
  show ?thesis
    using assms u a by (auto simp: applyLoadReport_def Let_def split: option.splits prod.splits)
qed

lemma applyReportPage_ok:
  assumes ok: "node_ok (plan_node pn)"
  shows "node_ok (plan_node (applyReportPage packet now pn))"
proof -
  have fold: "node_ok n \<Longrightarrow> node_ok (snd (fold (applyLoadReport mac) rs (pins, n)))" for mac rs pins n
  proof (induction rs arbitrary: pins n)
    case (Cons r rs)
    then show ?case
      using applyLoadReport_ok [OF Cons.prems, of mac r pins] by (cases "applyLoadReport mac r (pins, n)") simp
  qed simp
  have rm: "node_ok n \<Longrightarrow> node_ok (fold (\<lambda>pin n. snd (removeLoadByRelayPin pin n)) qs n)" for qs n
    by (induction qs arbitrary: n) (simp_all add: removeLoad_ok)
  obtain pins node where f: "fold (applyLoadReport (packet_nodeMacAddress packet))
      (take (min (unat (packet_numberOfLoads packet)) MAX_LOADS_PER_NODE_PACKET) (packet_loads packet))
      (pendingReport_reportedRelayPins (pendingFor (packet_reportSequenceId packet)
          (packet_totalPages packet) (plan_pendingReport pn)), plan_node pn) = (pins, node)"
    by fastforce
  have "node_ok node" using fold [OF ok] f by (metis snd_conv)
  then show ?thesis
    using f ok by (simp add: applyReportPage_def Let_def pruneLoads_def rm)
qed

lemma applyNodeReport_ok [inv_intros]:
  assumes ok: "planning_ok ns"
  shows "planning_ok (applyNodeReport packet now ns)"
proof -
  let ?mac = "packet_nodeMacAddress packet"
  let ?new = "\<lparr>plan_node = new_Node ?mac, plan_nodeName = [],
      plan_nextHop = zero_mac, plan_hopCount = 0, plan_isCentralNode = False, plan_lastSeen = now,
      plan_pendingReport = new_PendingNodeReport\<rparr>"
  have "planning_ok (ns @ [?new])" if "findNodeByMacAddress ?mac ns = None"
    using ok that new_Node_ok [of ?mac]
    by (auto simp: planning_ok_def findNodeByMacAddress_def find_None_iff plan_mac_def new_Node_def)
  moreover have "planning_ok (update_first (\<lambda>pn. plan_mac pn = ?mac) (applyReportPage packet now) ns')"
    if "planning_ok ns'" for ns'
    by (rule planning_ok_update_first [OF that]) (simp_all add: applyReportPage_ok)
  ultimately show ?thesis
    using ok by (auto simp: applyNodeReport_def Let_def split: option.splits)
qed

lemma addLocalCentralNode_ok [inv_intros]:
  assumes ok: "planning_ok ns" and node: "node_ok node"
  shows "planning_ok (addLocalCentralNode name node now ns)"
proof -
  let ?mac = "node_macAddress node"
  show ?thesis
  proof (cases "findNodeByMacAddress ?mac ns")
    case None
    then have "?mac \<notin> plan_mac ` set ns" by (auto simp: findNodeByMacAddress_def find_None_iff)
    then show ?thesis
      using ok node None by (simp add: addLocalCentralNode_def planning_ok_def) (simp add: plan_mac_def)
  next
    case (Some pn)
    let ?f = "\<lambda>_. pn\<lparr>plan_node := node, plan_nodeName := name, plan_nextHop := ?mac,
      plan_hopCount := 0, plan_isCentralNode := True, plan_lastSeen := now\<rparr>"
    have "map plan_mac (update_first (\<lambda>x. plan_mac x = ?mac) ?f ns) = map plan_mac ns"
      by (rule map_update_first) (simp add: plan_mac_def)
    moreover have "list_all (\<lambda>pn. node_ok (plan_node pn)) (update_first (\<lambda>x. plan_mac x = ?mac) ?f ns)"
      by (rule list_all_update_first) (use ok node in \<open>simp_all add: planning_ok_def\<close>)
    ultimately show ?thesis
      using ok Some by (simp add: addLocalCentralNode_def Let_def setPlanningNode_def planning_ok_def)
  qed
qed

lemma removeRegistryLoad_ok [inv_intros]:
  assumes ok: "planning_ok ns"
  shows "planning_ok (snd (removeRegistryLoad mac pin ns))"
proof (cases "findNodeByMacAddress mac ns")
  case None
  then show ?thesis using ok by (simp add: removeRegistryLoad_def)
next
  case (Some pn)
  obtain removed node where r: "removeLoadByRelayPin pin (plan_node pn) = (removed, node)" by fastforce
  have pn: "pn \<in> set ns" "plan_mac pn = mac"
    using Some by (auto simp: findNodeByMacAddress_def dest: find_Some_in)
  have node: "node_ok node" "node_macAddress node = mac"
    using removeLoad_ok [of "plan_node pn" pin] node_mac_ops(2) [of pin "plan_node pn"] ok pn r
    by (auto simp: planning_ok_def list_all_iff plan_mac_def)
  have "map plan_mac (update_first (\<lambda>x. plan_mac x = mac) (\<lambda>_. pn\<lparr>plan_node := node\<rparr>) ns) = map plan_mac ns"
    by (rule map_update_first) (simp add: plan_mac_def node)
  moreover have "list_all (\<lambda>pn. node_ok (plan_node pn))
      (update_first (\<lambda>x. plan_mac x = mac) (\<lambda>_. pn\<lparr>plan_node := node\<rparr>) ns)"
    by (rule list_all_update_first) (use ok node in \<open>simp_all add: planning_ok_def\<close>)
  ultimately show ?thesis
    using ok Some r by (simp add: removeRegistryLoad_def setPlanningNode_def planning_ok_def)
qed

lemma writeMutableLoad_ok [inv_intros]: "planning_ok ns \<Longrightarrow> keeps_id f \<Longrightarrow> planning_ok (writeMutableLoad mac pin f ns)"
  using same_frame_ok [OF writeMutableLoad_frame] by blast

lemma fold_writeMutableLoad_ok:
  "planning_ok ns \<Longrightarrow> keeps_id f \<Longrightarrow> planning_ok (fold (\<lambda>pin. writeMutableLoad mac pin f) pins ns)"
  by (induction pins arbitrary: ns) (simp_all add: writeMutableLoad_ok)

text \<open>Overwriting the Load just found by one with the same identifier.\<close>

lemma map_update_first_found:
  "find P xs = Some x \<Longrightarrow> k (f x) = k x \<Longrightarrow> map k (update_first P f xs) = map k xs"
  by (induction xs) (auto split: if_splits)

lemma writeMutableLoad_found:
  assumes f: "findMutableLoad mac pin ns = Some l" and id: "load_id l' = load_id l"
  shows "same_frame ns (writeMutableLoad mac pin (\<lambda>_. l') ns)"
proof -
  obtain pn where pn: "findNodeByMacAddress mac ns = Some pn" "getLoadByRelayPin pin (plan_node pn) = Some l"
    using f by (auto simp: findMutableLoad_def split: option.splits)
  have "map load_id (update_first (\<lambda>l. getRelayPin l = pin) (\<lambda>_. l') (node_loads (plan_node pn))) =
      map load_id (node_loads (plan_node pn))"
    using pn(2) id unfolding getLoadByRelayPin_def by (rule map_update_first_found)
  then show ?thesis
    unfolding same_frame_def writeMutableLoad_def
    by (intro map_update_first_found [OF pn(1) [unfolded findNodeByMacAddress_def], symmetric])
      (simp add: plan_key_def plan_mac_def updateLoad_def)
qed

section \<open>The invariant of Central\<close>

text \<open>
  Every part satisfies its own invariant; the only commands that wait for a hardware
  acknowledgement are removals; and the interval of the optimiser stays in its bounds.
\<close>

definition central_inv :: "('g, 'n, 'i) Central \<Rightarrow> bool" where
  "central_inv c \<longleftrightarrow>
     planning_ok (registry c) \<and> store_ok (centralLoadConfigurationStore c) \<and>
     registry_ok (commissioningRegistry c) \<and> pm_ok (batteryMonitor c) \<and>
     central_ok (centralConfigurationStore c) \<and> hw_ok (localHardware c) \<and>
     list_all phc_remove (pendingHardwareCommands c) \<and>
     MIN_OPTIMIZATION_PERIOD_MILLISECONDS \<le> optimizerIntervalMilliseconds c \<and>
     optimizerIntervalMilliseconds c \<le> MAX_OPTIMIZATION_PERIOD_MILLISECONDS"

named_theorems central_inv_intros \<open>preservation of the invariant of Central by its handlers\<close>

subsection \<open>The optimisation cycle\<close>

lemma pm_then_ok:
  "pm_ok (snd r) \<Longrightarrow> (\<And>p. pm_ok p \<Longrightarrow> pm_ok (snd (f p))) \<Longrightarrow> pm_ok (snd (nvs_then r f))"
  by (cases r) simp

lemma planBudget_ok: "pm_ok p \<Longrightarrow> pm_ok (snd (planBudget planning w h p))"
  unfolding planBudget_def by (intro pm_then_ok inv_intros)

lemma persistIfChanged_inv: "central_inv (persistIfChanged api changed c) = central_inv c"
  by (simp add: persistIfChanged_def central_inv_def)

lemma applySelection_store_ok:
  "store_ok (fst (snd (fst st))) \<Longrightarrow> store_ok (fst (snd (fst (fold (applySelection sel) ps st))))"
proof -
  obtain a t k where st: "st = (a, t, k)" by (cases st)
  show "store_ok (fst (snd (fst st))) \<Longrightarrow> ?thesis"
    unfolding st fst_fold_applySelection by (simp add: fold_updateAutoLoad_store_ok)
qed

definition cycle_frame :: "('g, 'n, 'i) Central \<Rightarrow>
  CentralConfiguration \<times> NodeCommissioningRegistry \<times> ('g, 'n) NodeHardware \<times> PendingHardwareCommand list \<times> u32" where
  "cycle_frame c =
     (centralConfigurationStore c, commissioningRegistry c, localHardware c, pendingHardwareCommands c,
      optimizerIntervalMilliseconds c)"

lemma computeRemaining_cycle_frame:
  assumes "computeRemainingRequiredRuntimeHours h v n c = (hours, c1)"
  shows "cycle_frame c1 = cycle_frame c"
  using assms by (auto simp: computeRemainingRequiredRuntimeHours_def Let_def cycle_frame_def split: if_splits)

lemma switchOffAutoLoads_frame:
  assumes "store_ok (centralLoadConfigurationStore c)"
  shows "cycle_frame (switchOffAutoLoads api f c) = cycle_frame c"
    and "store_ok (centralLoadConfigurationStore (switchOffAutoLoads api f c))"
    and "batteryMonitor (switchOffAutoLoads api f c) = batteryMonitor c"
proof -
  let ?ns = "recordAutoRejectionReason f BEST_FIRST_POWER_BUDGET_EXCEEDED (registry c)"
  obtain ns es changed where r: "fold (updateAutoLoad id False) (autoCandidateLoads f)
      (?ns, centralLoadConfigurationStore c, False) = (ns, es, changed)"
    by (cases "fold (updateAutoLoad id False) (autoCandidateLoads f) (?ns, centralLoadConfigurationStore c, False)")
  have "store_ok es"
    using fold_updateAutoLoad_store_ok [of "(?ns, centralLoadConfigurationStore c, False)" "\<lambda>_. id" "\<lambda>_. False"
        "autoCandidateLoads f"] assms by (simp add: r)
  then show "cycle_frame (switchOffAutoLoads api f c) = cycle_frame c"
    and "store_ok (centralLoadConfigurationStore (switchOffAutoLoads api f c))"
    and "batteryMonitor (switchOffAutoLoads api f c) = batteryMonitor c"
    by (simp_all add: switchOffAutoLoads_def Let_def r persistIfChanged_def cycle_frame_def)
qed

lemma planAutoLoads_frame:
  assumes p: "planAutoLoads api clock f s c = Some (s', c')"
    and ok: "store_ok (centralLoadConfigurationStore c)" "pm_ok (batteryMonitor c)"
  shows "cycle_frame c' = cycle_frame c \<and> store_ok (centralLoadConfigurationStore c') \<and> pm_ok (batteryMonitor c')"
proof -
  let ?autos = "automaticCandidates (registry c) f"
  obtain b where b: "new_BestFirstSearch (getLoadAt (registry c)) (P_auto_available (powerBudget (batteryMonitor c)))
      ?autos clock = Some b" using p by (auto simp: planAutoLoads_def Let_def)
  obtain ns es changed w k where r: "fold (applySelection (bestCombination b)) ?autos
      ((registry c, centralLoadConfigurationStore c, False), fzero, 0) = ((ns, es, changed), w, k)"
    by (cases "fold (applySelection (bestCombination b)) ?autos
        ((registry c, centralLoadConfigurationStore c, False), fzero, 0)") auto
  obtain good pm where v: "nvs_then (setAutoPowerWatts w (batteryMonitor c)) updatePowerBudget = (good, pm)"
    by (cases "nvs_then (setAutoPowerWatts w (batteryMonitor c)) updatePowerBudget")
  have "pm_ok (snd (nvs_then (setAutoPowerWatts w (batteryMonitor c)) updatePowerBudget))"
    using ok(2) by (intro pm_then_ok inv_intros)
  moreover have "store_ok (fst (snd (fst (fold (applySelection (bestCombination b)) ?autos
      ((registry c, centralLoadConfigurationStore c, False), fzero, 0)))))"
    using ok(1) by (intro applySelection_store_ok) simp
  ultimately show ?thesis
    using p by (auto simp: planAutoLoads_def Let_def b r v persistIfChanged_def cycle_frame_def split: if_splits)
qed

lemma runOptimizationCycle_inv:
  assumes inv: "central_inv c" and run: "runOptimizationCycle api clock c = Some (targets, c')"
  shows "central_inv c'"
proof -
  obtain f c1 where prep: "prepareCycle clock c = (f, c1)" by fastforce
  then have c1: "cycle_frame c1 = cycle_frame c" "centralLoadConfigurationStore c1 = centralLoadConfigurationStore c"
    "batteryMonitor c1 = batteryMonitor c"
    by (auto simp: prepareCycle_def Let_def cycle_frame_def)
  obtain s c2 where p: "planCycle api clock f c1 = Some (s, c2)"
    and c': "cycle_frame c' = cycle_frame c2" "centralLoadConfigurationStore c' = centralLoadConfigurationStore c2"
      "batteryMonitor c' = batteryMonitor c2"
    using run by (auto simp: runOptimizationCycle_def prep cycle_frame_def)
  let ?pl = "powerPlanning (centralConfigurationStore c1)"
  obtain hours c3 where h: "computeRemainingRequiredRuntimeHours (planning_requiredRuntimeHours ?pl)
      (currentTimeValid clock) (nowEpochSeconds clock) c1 = (hours, c3)" by fastforce
  note c3 = computeRemaining_frame [OF h] computeRemaining_cycle_frame [OF h]
  have st: "store_ok (centralLoadConfigurationStore c3)" "pm_ok (batteryMonitor c3)"
    using inv c1 c3 by (simp_all add: central_inv_def)
  obtain good pm where b: "planBudget ?pl (sumFixedOnPowerWatts (registry c1) f) hours (batteryMonitor c3) = (good, pm)"
    by fastforce
  have pm: "pm_ok pm" using planBudget_ok [OF st(2)] b by (metis snd_conv)
  let ?c4 = "c3\<lparr>batteryMonitor := pm\<rparr>"
  have c4: "cycle_frame ?c4 = cycle_frame c3" by (simp add: cycle_frame_def)
  have res: "cycle_frame c2 = cycle_frame c3 \<and> store_ok (centralLoadConfigurationStore c2) \<and> pm_ok (batteryMonitor c2)"
    using p switchOffAutoLoads_frame [of c3 api f] switchOffAutoLoads_frame [of ?c4 api f]
      planAutoLoads_frame [of api "localClock clock" f _ ?c4 s c2] st pm c4
    by (auto simp: planCycle_def Let_def h b split: if_splits)
  have "planning_ok (registry c')"
    using cycle_result [of c api clock] run inv same_frame_ok by (fastforce simp: central_inv_def)
  then show ?thesis
    using inv res c' c3 c1 by (simp add: central_inv_def cycle_frame_def)
qed

subsection \<open>Single updates\<close>

lemma central_inv_update:
  assumes "central_inv c"
  shows "planning_ok ns \<Longrightarrow> central_inv (c\<lparr>registry := ns\<rparr>)"
    "store_ok es \<Longrightarrow> central_inv (c\<lparr>centralLoadConfigurationStore := es\<rparr>)"
    "registry_ok rs \<Longrightarrow> central_inv (c\<lparr>commissioningRegistry := rs\<rparr>)"
    "pm_ok p \<Longrightarrow> central_inv (c\<lparr>batteryMonitor := p\<rparr>)"
    "central_ok cfg \<Longrightarrow> central_inv (c\<lparr>centralConfigurationStore := cfg\<rparr>)"
    "hw_ok h \<Longrightarrow> central_inv (c\<lparr>localHardware := h\<rparr>)"
    "list_all phc_remove ps \<Longrightarrow> central_inv (c\<lparr>pendingHardwareCommands := ps\<rparr>)"
  using assms by (simp_all add: central_inv_def)

lemma central_inv_free [simp]:
  "central_inv (c\<lparr>relayCommandErrorCount := v1\<rparr>) = central_inv c"
  "central_inv (c\<lparr>relayCommandDispatcher := v2\<rparr>) = central_inv c"
  "central_inv (c\<lparr>loads_nvs := v3\<rparr>) = central_inv c"
  "central_inv (c\<lparr>commissioning_nvs := v3\<rparr>) = central_inv c"
  "central_inv (c\<lparr>settings_nvs := v3\<rparr>) = central_inv c"
  "central_inv (c\<lparr>battery_nvs := v3\<rparr>) = central_inv c"
  "central_inv (c\<lparr>optimizer_nvs := v3\<rparr>) = central_inv c"
  "central_inv (c\<lparr>i2c_bus := v4\<rparr>) = central_inv c"
  "central_inv (c\<lparr>latestBatteryMeasurements := v5\<rparr>) = central_inv c"
  "central_inv (c\<lparr>batteryReadingValid := v6\<rparr>) = central_inv c"
  "central_inv (c\<lparr>batteryReadingMilliseconds := v7\<rparr>) = central_inv c"
  "central_inv (c\<lparr>nextConsoleCommandId := v7\<rparr>) = central_inv c"
  by (simp_all add: central_inv_def)

lemma central_invD:
  assumes "central_inv c"
  shows "planning_ok (registry c)" "store_ok (centralLoadConfigurationStore c)"
    "registry_ok (commissioningRegistry c)" "pm_ok (batteryMonitor c)"
    "central_ok (centralConfigurationStore c)" "hw_ok (localHardware c)"
    "list_all phc_remove (pendingHardwareCommands c)"
  using assms by (simp_all add: central_inv_def)

lemma hw_node_ok: "hw_ok h \<Longrightarrow> node_ok (hw_node h)"
  by (simp add: hw_ok_def aligned_def)

lemma addLocalNode_inv [central_inv_intros]: "central_inv c \<Longrightarrow> central_inv (addLocalNode now c)"
  unfolding addLocalNode_def
  by (intro central_inv_update(1) addLocalCentralNode_ok hw_node_ok central_invD)

subsection \<open>The interval of the optimiser\<close>

lemma optimizer_interval_bounds:
  assumes "isValidOptimizerIntervalSeconds seconds"
  shows "MIN_OPTIMIZATION_PERIOD_MILLISECONDS \<le> seconds * 1000"
    "seconds * 1000 \<le> MAX_OPTIMIZATION_PERIOD_MILLISECONDS"
proof -
  have b: "MIN_OPTIMIZATION_PERIOD_MILLISECONDS div 1000 \<le> seconds"
    "seconds \<le> MAX_OPTIMIZATION_PERIOD_MILLISECONDS div 1000"
    using assms by (simp_all add: isValidOptimizerIntervalSeconds_def)
  then have n: "5 \<le> unat seconds" "unat seconds \<le> 86400"
    by (simp_all add: word_le_nat_alt unat_div MIN_OPTIMIZATION_PERIOD_MILLISECONDS_def
        MAX_OPTIMIZATION_PERIOD_MILLISECONDS_def)
  then have "unat (seconds * 1000) = unat seconds * 1000"
    by (subst unat_mult_lem [THEN iffD1]) simp_all
  with n show "MIN_OPTIMIZATION_PERIOD_MILLISECONDS \<le> seconds * 1000"
    "seconds * 1000 \<le> MAX_OPTIMIZATION_PERIOD_MILLISECONDS"
    by (simp_all add: word_le_nat_alt MIN_OPTIMIZATION_PERIOD_MILLISECONDS_def
        MAX_OPTIMIZATION_PERIOD_MILLISECONDS_def)
qed

lemma saveOptimizerIntervalSeconds_inv [central_inv_intros]:
  "central_inv c \<Longrightarrow> central_inv (snd (saveOptimizerIntervalSeconds api seconds c))"
  by (simp add: saveOptimizerIntervalSeconds_def central_inv_def optimizer_interval_bounds split: prod.splits)

lemma loadOptimizerIntervalConfiguration_inv [central_inv_intros]:
  "central_inv c \<Longrightarrow> central_inv (loadOptimizerIntervalConfiguration api c)"
  by (simp add: loadOptimizerIntervalConfiguration_def central_inv_def optimizer_interval_bounds split: option.splits)

subsection \<open>The relays\<close>

lemma handleRelayAcknowledgement_inv [central_inv_intros]:
  "central_inv c \<Longrightarrow> central_inv (handleRelayAcknowledgement mac ack c)"
  by (simp add: handleRelayAcknowledgement_def Let_def split: option.splits)

lemma handleRelayAcknowledgements_inv:
  "central_inv c \<Longrightarrow> central_inv (handleRelayAcknowledgements acks c)"
  unfolding handleRelayAcknowledgements_def
  by (induction acks arbitrary: c) (auto simp: handleRelayAcknowledgement_inv)

lemma awaitCompletion_inv: "central_inv c \<Longrightarrow> central_inv (snd (awaitCompletion i taken polls c))"
  by (induction i taken polls c rule: awaitCompletion.induct)
    (simp_all add: Let_def handleRelayAcknowledgements_inv split: prod.splits)

lemma dispatchRelayTargetAndWait_inv [central_inv_intros]:
  assumes inv: "central_inv c"
  shows "central_inv (snd (dispatchRelayTargetAndWait pf t w c))"
proof -
  have "hw_ok h" if "hw_setRelayState gpio pin on (localHardware c) = (ok, h)" for gpio pin on ok h
    using hw_ok_fields [OF central_invD(6) [OF inv]] hw_setRelayState_fields [OF that] by blast
  then show ?thesis
    using inv
    by (auto simp: dispatchRelayTargetAndWait_def Let_def
        intro!: central_inv_update awaitCompletion_inv split: prod.splits option.splits)
qed

subsection \<open>Packets\<close>

lemma handleHardwareConfigurationAcknowledgement_inv [central_inv_intros]:
  assumes "central_inv c"
  shows "central_inv (snd (handleHardwareConfigurationAcknowledgement pf mac ack c))"
  using central_invD [OF assms] assms
  by (auto simp: handleHardwareConfigurationAcknowledgement_def Let_def list_all_iff
      intro!: central_inv_update removeRegistryLoad_ok removeConfiguration_ok split: option.splits)

lemma handleCommissionAcknowledgement_inv [central_inv_intros]:
  assumes inv: "central_inv c"
  shows "central_inv (snd (handleCommissionAcknowledgement pf mac ack c))"
proof -
  obtain applied rs where r: "applyCommissionResult mac (cap_commandId ack) (cap_success ack \<noteq> 0)
      (state_of_byte (cap_resultingState ack)) (commissioningRegistry c) = (applied, rs)" by fastforce
  have "registry_ok rs" using applyCommissionResult_ok [OF central_invD(3) [OF inv]] r by (metis snd_conv)
  then show ?thesis by (simp add: handleCommissionAcknowledgement_def r central_inv_update(3) [OF inv])
qed

lemma handleIdentityReport_inv [central_inv_intros]:
  assumes "central_inv c"
  shows "central_inv (handleIdentityReport mac report now c)"
  using assms central_invD(3) [OF assms]
  by (auto simp: handleIdentityReport_def Let_def
      intro!: central_inv_update updateDiagnostics_ok recordDiscovered_ok role_of_byte_normal)

lemma handleNodeReport_inv [central_inv_intros]:
  assumes "central_inv c"
  shows "central_inv (snd (handleNodeReport mac report now c))"
proof -
  have "planning_ok (fold (\<lambda>pin. writeMutableLoad mac pin
      (\<lambda>l. snd (applyToLoad (centralLoadConfigurationStore c) l))) pins
      (applyNodeReport report now (registry c)))" for pins
    by (intro fold_writeMutableLoad_ok applyNodeReport_ok central_invD [OF assms]) (simp add: keeps_id_def)
  then show ?thesis
    using assms central_invD(1) [OF assms]
    by (auto simp: handleNodeReport_def Let_def applyNodeReport_ok intro!: central_inv_update split: option.splits)
qed

subsection \<open>The battery\<close>

lemma applyBatteryConfiguration_inv [central_inv_intros]:
  assumes inv: "central_inv c"
  shows "central_inv (snd (applyBatteryConfiguration pf cfg restore c))"
proof -
  have step: "central_inv (snd (case r of (ok, pm, i) \<Rightarrow>
      let c1 = c\<lparr>batteryMonitor := pm, i2c_bus := i\<rparr>
      in if \<not> ok then (False, c1)
         else if \<not> b then (True, c1)
         else case initializeStateOfCharge api (battery_nvs c1) soc restore pm of
           (ok2, pm2) \<Rightarrow> (ok2, c1\<lparr>batteryMonitor := pm2\<rparr>)))"
    if pm: "pm_ok (fst (snd r))" for r b api soc
  proof -
    obtain ok pm i where r: "r = (ok, pm, i)" by (metis prod_cases3)
    obtain ok2 pm2 where soc: "initializeStateOfCharge api (battery_nvs c) soc restore pm = (ok2, pm2)" by fastforce
    have "pm_ok pm" using pm r by simp
    moreover have "pm_ok pm2" using initializeStateOfCharge_ok [OF calculation, of api "battery_nvs c" soc restore] soc by simp
    ultimately show ?thesis by (simp add: r soc Let_def central_inv_update inv)
  qed
  have guard: "central_inv (snd (if v then (False, c) else if w then (False, c) else x))"
    if "central_inv (snd x)" for v w and x :: "bool \<times> ('a, 'b, 'c) Central" using that inv by simp
  show ?thesis
    unfolding applyBatteryConfiguration_def Let_def [of "powerPlanning _"] Let_def [of "_ :: BatteryConfiguration"]
      Let_def [of "_ :: SensorConfiguration"]
    by (rule guard, rule step, rule pm_initialize_ok, rule central_invD(4) [OF inv])
qed

lemma applyPersistedBatterySensorConfiguration_inv [central_inv_intros]:
  "central_inv c \<Longrightarrow> central_inv (snd (applyPersistedBatterySensorConfiguration pf c))"
  by (simp add: applyPersistedBatterySensorConfiguration_def Let_def applyBatteryConfiguration_inv)

lemma sensorAcquisition_inv [central_inv_intros]:
  assumes inv: "central_inv c"
  shows "central_inv (snd (sensorAcquisition pf elapsed now (k, c)))"
proof -
  obtain ok pm i where u: "updateMeasurements (i2c pf) (batteryMonitor c, i2c_bus c) = (ok, pm, i)"
    by (metis prod_cases3)
  have "pm_ok pm" using updateMeasurements_ok [OF central_invD(4) [OF inv], of "i2c pf" "i2c_bus c"] u by simp
  then have "pm_ok (if b then snd (updateStateOfCharge dt pm) else pm)" for b dt by (simp add: pm_simple_ok)
  with \<open>pm_ok pm\<close> inv show ?thesis
    by (simp add: sensorAcquisition_def Let_def u central_inv_update split: bool.splits)
qed

subsection \<open>Commands of the user\<close>

lemma applyToLoad_keeps_id: "applyToLoad es l = (found, l') \<Longrightarrow> load_id l' = load_id l"
  using keeps_id_ops(4) [of es] unfolding keeps_id_def by (metis snd_conv)

lemma handleLoadCommand_inv [central_inv_intros]:
  assumes inv: "central_inv c"
  shows "central_inv (snd (handleLoadCommand pf request c))"
proof -
  let ?mac = "lc_nodeMacAddress request" and ?pin = "lc_relayPin request"
  have accepted: "central_inv (snd (case setConfiguration e (centralLoadConfigurationStore c) of
        (False, es) \<Rightarrow> (r1, c\<lparr>centralLoadConfigurationStore := es\<rparr>)
      | (True, es) \<Rightarrow>
          (case applyToLoad es load of
             (found, load') \<Rightarrow>
               let c1 = c\<lparr>centralLoadConfigurationStore := es,
                          registry := writeMutableLoad ?mac ?pin (\<lambda>_. load') (registry c)\<rparr>
               in if \<not> found then (r2, c1)
                  else case config_persist (nvs pf) es (loads_nvs c1) of
                    (saved, n) \<Rightarrow> (if saved then r3 else r4, c1\<lparr>loads_nvs := n\<rparr>))))"
    if load: "findMutableLoad ?mac ?pin (registry c) = Some load" for load e r1 r2 r3 r4
  proof -
    obtain b es where s: "setConfiguration e (centralLoadConfigurationStore c) = (b, es)" by fastforce
    obtain found load' where a: "applyToLoad es load = (found, load')" by fastforce
    have "store_ok es" using setConfiguration_ok [OF central_invD(2) [OF inv], of e] s by simp
    moreover have "planning_ok (writeMutableLoad ?mac ?pin (\<lambda>_. load') (registry c))"
      using same_frame_ok [OF writeMutableLoad_found [OF load applyToLoad_keeps_id [OF a]]] central_invD(1) [OF inv]
      by simp
    ultimately show ?thesis
      by (cases b) (simp_all add: s a Let_def central_inv_update inv split: prod.splits)
  qed
  show ?thesis
  proof (cases "findMutableLoad ?mac ?pin (registry c)")
    case None
    then show ?thesis by (simp add: handleLoadCommand_def Let_def inv)
  next
    case (Some load)
    then show ?thesis
      unfolding handleLoadCommand_def Let_def [of ?mac] Let_def [of ?pin] Let_def [of "_ :: bool"]
        Let_def [of "_ :: LoadModeValue"] Let_def [of "_ :: ConfigurationEntry"]
      by (simp only: option.case if_distrib [of snd] if_distrib [of central_inv] accepted inv snd_conv simp_thms if_cancel cong: if_cong)
  qed
qed

lemma storeSettings_inv:
  assumes inv: "central_inv c" and ok: "central_ok (snd (setter (centralConfigurationStore c)))"
  shows "central_inv (snd (storeSettings pf setter c))"
proof -
  obtain b cfg where s: "setter (centralConfigurationStore c) = (b, cfg)" by fastforce
  with ok inv show ?thesis
    by (cases b) (simp_all add: storeSettings_def central_inv_update split: prod.splits)
qed

lemma setters_ok:
  "central_ok cfg \<Longrightarrow> central_ok (snd (setBatterySensor b cfg))"
  "central_ok cfg \<Longrightarrow> central_ok (snd (setPowerPlanning p cfg))"
  by (simp_all add: central_ok_def setBatterySensor_def setPowerPlanning_def)

lemma storeSettings_setters_inv [central_inv_intros]:
  "central_inv c \<Longrightarrow> central_inv (snd (storeSettings pf (setBatterySensor b) c))"
  "central_inv c \<Longrightarrow> central_inv (snd (storeSettings pf (setPowerPlanning p) c))"
  by (intro storeSettings_inv setters_ok central_invD; assumption)+

lemma configureBatterySensor_inv [central_inv_intros]:
  assumes "central_inv c"
  shows "central_inv (snd (configureBatterySensor pf request c))"
proof -
  have st: "central_inv c1" if "storeSettings pf (setBatterySensor b) c = (ok, c1)" for b ok c1
    using storeSettings_setters_inv(1) [OF assms, of pf b] that by simp
  have bat: "central_inv c2" if "central_inv c1" "applyBatteryConfiguration pf cfg r c1 = (ok, c2)" for cfg r c1 ok c2
    using applyBatteryConfiguration_inv [OF that(1), of pf cfg r] that(2) by simp
  show ?thesis
    using assms st bat by (simp add: configureBatterySensor_def Let_def split: prod.splits) blast
qed

lemma configurePowerPlanning_inv [central_inv_intros]:
  assumes "central_inv c"
  shows "central_inv (snd (configurePowerPlanning pf request c))"
proof -
  have st: "central_inv c1" if "storeSettings pf (setPowerPlanning b) c = (ok, c1)" for b ok c1
    using storeSettings_setters_inv(2) [OF assms, of pf b] that by simp
  show ?thesis
    using assms st applyBatteryConfiguration_inv
    by (simp add: configurePowerPlanning_def Let_def split: prod.splits) blast
qed

lemma commissionNode_inv [central_inv_intros]:
  assumes inv: "central_inv c"
  shows "central_inv (snd (commissionNode pf request c))"
proof -
  have "registry_ok rs" if "requestCommissioning mac nm i (commissioningRegistry c) = (ok, rs)" for mac nm i ok rs
    using requestCommissioning_ok [OF central_invD(3) [OF inv], of mac nm i] that by simp
  then show ?thesis
    using inv central_invD(3) [OF inv]
    by (simp add: commissionNode_def Let_def central_inv_update split: prod.splits bool.splits)
qed

lemma decommissionNode_inv [central_inv_intros]:
  assumes inv: "central_inv c"
  shows "central_inv (snd (decommissionNode pf request c))"
proof -
  have "registry_ok rs" if "decommission mac (commissioningRegistry c) = (ok, rs)" for mac ok rs
    using decommission_ok [OF central_invD(3) [OF inv], of mac] that by simp
  then show ?thesis
    using inv by (simp add: decommissionNode_def Let_def central_inv_update split: prod.splits bool.splits)
qed

lemma configureLocalLoad_inv [central_inv_intros]:
  assumes inv: "central_inv c"
  shows "central_inv (snd (configureLocalLoad pf request now c))"
proof -
  have "hw_ok h" if "configureNewLoad api1 api2 v (localHardware c) = (r, h)" for api1 api2 v r h
    using configureNewLoad_ok [OF central_invD(6) [OF inv], of api1 api2 v] that by simp
  then have "central_inv (c\<lparr>localHardware := h\<rparr>)"
    if "configureNewLoad api1 api2 v (localHardware c) = (r, h)" for api1 api2 v r h
    using that by (intro central_inv_update inv) blast
  then show ?thesis
    by (auto simp: configureLocalLoad_def Let_def intro!: addLocalNode_inv split: prod.splits)
qed

lemma configureLoad_inv [central_inv_intros]:
  "central_inv c \<Longrightarrow> central_inv (snd (configureLoad pf request now c))"
  by (simp add: configureLoad_def Let_def configureLocalLoad_inv split: sum.splits)

lemma removeLocalLoad_inv [central_inv_intros]:
  assumes inv: "central_inv c"
  shows "central_inv (snd (removeLocalLoad pf pin now c))"
proof -
  obtain r h where h: "hw_removeLoad (gpio pf) (nvs pf) pin (localHardware c) = (r, h)" by fastforce
  have "hw_ok h" using hw_removeLoad_ok [OF central_invD(6) [OF inv], of "gpio pf" "nvs pf" pin] h by simp
  moreover have "store_ok (snd (removeConfiguration (localMac pf) pin (centralLoadConfigurationStore c)))"
    by (intro removeConfiguration_ok central_invD(2) [OF inv])
  ultimately show ?thesis
    by (simp add: removeLocalLoad_def h Let_def addLocalNode_inv central_inv_update inv)
qed

lemma removeLoad_inv [central_inv_intros]:
  assumes inv: "central_inv c"
  shows "central_inv (snd (removeLoad pf request now c))"
  using removeLocalLoad_inv [OF inv] inv central_invD(7) [OF inv]
  by (simp add: removeLoad_def Let_def central_inv_update split: sum.splits)

lemma handleConfigCommand_inv [central_inv_intros]:
  "central_inv c \<Longrightarrow> central_inv (snd (handleConfigCommand pf request now c))"
  by (simp add: handleConfigCommand_def central_inv_intros split: ConfigCommandAction.splits)

subsection \<open>Simulation and console\<close>

lemma setSimulationValues_inv [central_inv_intros]:
  assumes inv: "central_inv c"
  shows "central_inv (snd (setSimulationValues pf electrical soc now c))"
proof -
  let ?r1 = "case electrical of None \<Rightarrow> (True, batteryMonitor c)
    | Some (voltage, current) \<Rightarrow> setSimulatedMeasurements voltage current (batteryMonitor c)"
  obtain ok1 pm1 where r1: "?r1 = (ok1, pm1)" by fastforce
  have pm1: "pm_ok (snd ?r1)" using central_invD(4) [OF inv] by (simp add: pm_simple_ok split: option.splits prod.splits)
  let ?r2 = "case soc of None \<Rightarrow> (ok1, pm1)
    | Some percent \<Rightarrow> if ok1 then setSimulatedStateOfChargePercent percent pm1 else (ok1, pm1)"
  obtain ok2 pm2 where r2: "?r2 = (ok2, pm2)" by fastforce
  have pm2: "pm_ok (snd ?r2)" using pm1 unfolding r1 by (simp add: pm_simple_ok split: option.splits)
  obtain ok3 pm3 i where r3: "updateMeasurements (i2c pf) (pm2, i2c_bus c) = (ok3, pm3, i)" by (metis prod_cases3)
  have "pm_ok pm3" using updateMeasurements_ok [of pm2 "i2c pf" "i2c_bus c"] pm2 r2 r3 by simp
  then show ?thesis
    using pm2 unfolding setSimulationValues_def r1 r2 Let_def prod.case
    by (simp add: r2 r3 central_inv_update inv)
qed

lemma handleSimulationCommand_inv [central_inv_intros]:
  assumes inv: "central_inv c"
  shows "central_inv (snd (handleSimulationCommand pf request now c))"
proof -
  have "central_inv (c\<lparr>batteryMonitor := enableSimulation b (batteryMonitor c), batteryReadingValid := v\<rparr>)" for b v
    by (simp add: central_inv_update inv pm_simple_ok central_invD(4) [OF inv])
  then have "central_inv (snd (applyBatteryConfiguration pf cfg r
      (c\<lparr>batteryMonitor := enableSimulation b (batteryMonitor c), batteryReadingValid := v\<rparr>)))"
    "central_inv (c\<lparr>batteryMonitor := enableSimulation b (batteryMonitor c), batteryReadingValid := v\<rparr>)" for b v cfg r
    by (simp_all add: applyBatteryConfiguration_inv)
  then show ?thesis
    by (cases request)
      (simp_all add: handleSimulationCommand_def Let_def split_beta setSimulationValues_inv inv)
qed

lemma storeSettings_if_inv:
  assumes "central_inv c" and "(if v then storeSettings pf (setBatterySensor b) c else (False, c)) = (ok, c1)"
  shows "central_inv c1"
  using storeSettings_setters_inv(1) [OF assms(1), of pf b] assms by (auto split: if_splits)

lemma consoleConfigureIna219_inv [central_inv_intros]:
  assumes inv: "central_inv c"
  shows "central_inv (snd (consoleConfigureIna219 pf shunt current alpha c))"
proof -
  let ?cfg = "(batterySensor (centralConfigurationStore c))
    \<lparr>ina219Configured := True, cfg_shuntResistanceOhms := shunt,
     cfg_maximumExpectedCurrentAmps := current, cfg_emaAlpha := alpha\<rparr>"
  obtain ok c1 where st: "(if isValidBatterySensor ?cfg then storeSettings pf (setBatterySensor ?cfg) c
      else (False, c)) = (ok, c1)" by fastforce
  note c1 = storeSettings_if_inv [OF inv st]
  obtain ready c2 where bat: "applyBatteryConfiguration pf ?cfg True c1 = (ready, c2)" by fastforce
  then have "central_inv c2" using applyBatteryConfiguration_inv [OF c1, of pf ?cfg True] by simp
  with c1 show ?thesis unfolding consoleConfigureIna219_def Let_def st by (simp add: bat)
qed

lemma consoleConfigureBatterySetup_inv [central_inv_intros]:
  assumes inv: "central_inv c"
  shows "central_inv (snd (consoleConfigureBatterySetup pf capacity initial voltage c))"
proof -
  let ?cfg = "(batterySensor (centralConfigurationStore c))
    \<lparr>batteryMetadataConfigured := True, cfg_batteryCapacityAmpHours := capacity,
     cfg_initialStateOfChargePercent := initial, cfg_nominalVoltageVolts := voltage\<rparr>"
  obtain ok c1 where st: "(if isValidBatterySensor ?cfg then storeSettings pf (setBatterySensor ?cfg) c
      else (False, c)) = (ok, c1)" by fastforce
  from storeSettings_if_inv [OF inv st] show ?thesis
    unfolding consoleConfigureBatterySetup_def Let_def st by (simp add: applyBatteryConfiguration_inv)
qed

lemma consoleCommand_inv [central_inv_intros]:
  assumes inv: "central_inv c"
  shows "central_inv (snd (consoleCommand pf fill now c))"
proof -
  have "central_inv (snd (allocateConsoleCommandId c))"
    using inv by (simp add: allocateConsoleCommandId_def Let_def)
  then show ?thesis
    by (simp add: consoleCommand_def handleConfigCommand_inv split_beta)
qed

lemma handleSystemCommand_inv [central_inv_intros]:
  assumes inv: "central_inv c"
  shows "central_inv (snd (handleSystemCommand pf request c))"
proof -
  have erase: "central_inv (eraseStorage e c)" for e
  proof -
    have "hw_ok ((localHardware c)\<lparr>hw_nvs := e (hw_nvs (localHardware c))\<rparr>)"
      by (rule hw_ok_fields [OF central_invD(6) [OF inv]]) simp_all
    then show ?thesis by (simp add: eraseStorage_def central_inv_update inv)
  qed
  have save: "central_inv c'" if "saveOptimizerIntervalSeconds api s c = (ok, c')" for api s ok c'
    using saveOptimizerIntervalSeconds_inv [OF inv, of api s] that by simp
  show ?thesis
    using inv erase save
    by (simp add: handleSystemCommand_def Let_def split: SystemCommandRequest.splits option.splits prod.splits bool.splits)
qed

lemma allocateConsoleCommandId_inv: "central_inv c \<Longrightarrow> central_inv (snd (allocateConsoleCommandId c))"
  by (simp add: allocateConsoleCommandId_def Let_def)

lemma consoleSensorModeConfigured_inv [central_inv_intros]:
  assumes "central_inv c"
  shows "central_inv (snd (consoleSensorModeConfigured pf simulated now c))"
proof -
  obtain changed c1 where m: "consoleSensorMode pf simulated now c = (changed, c1)" by fastforce
  have "central_inv (snd (consoleSensorMode pf simulated now c))"
    by (simp add: consoleSensorMode_def split_beta handleSimulationCommand_inv allocateConsoleCommandId_inv assms)
  then show ?thesis
    by (simp add: consoleSensorModeConfigured_def m applyBatteryConfiguration_inv)
qed

lemma consoleConfigurePowerPlanningValidated_inv [central_inv_intros]:
  assumes "central_inv c"
  shows "central_inv (snd (consoleConfigurePowerPlanningValidated pf budget reserve minimum runtime now c))"
proof -
  obtain result c1 where m: "consoleConfigurePowerPlanning pf budget reserve minimum runtime now c = (result, c1)"
    by fastforce
  have "central_inv (snd (consoleConfigurePowerPlanning pf budget reserve minimum runtime now c))"
    unfolding consoleConfigurePowerPlanning_def by (rule consoleCommand_inv [OF assms])
  then show ?thesis
    by (simp add: consoleConfigurePowerPlanningValidated_def Let_def m applyBatteryConfiguration_inv assms)
qed

lemma receiveMessage_inv [central_inv_intros]:
  "central_inv c \<Longrightarrow> central_inv (snd (receiveMessage pf mac destination msg now c))"
  by (simp add: receiveMessage_def handleMessage_def central_inv_intros split: Message.splits)

lemma dispatchRelayOrder_inv: "central_inv c \<Longrightarrow> central_inv (dispatchRelayOrder pf waits ts c)"
  by (induction ts arbitrary: c) (simp_all add: dispatchRelayTargetAndWait_inv)

lemma optimizationTurn_inv:
  "central_inv c \<Longrightarrow> optimizationTurn pf clock waits c = Some c' \<Longrightarrow> central_inv c'"
  by (auto simp: optimizationTurn_def intro!: dispatchRelayOrder_inv dest: runOptimizationCycle_inv)

section \<open>Runs of Central\<close>

text \<open>
  One activation of a task or of a console or MQTT callback. The mutex serialises the critical
  sections; the relay acknowledgements that arrive while a command waits belong to that event.
\<close>

datatype central_event =
  OptimizationTurn Clock "RelayTarget \<Rightarrow> RelayWait"
| SensorTurn nat u32 u32
| Receive MacAddress MacAddress Message u32
| WatchdogTurn Diagnostics
| LoadCommand LoadCommandRequest
| SystemCommand SystemCommandRequest
| ConfigCommand ConfigCommandRequest u32
| SimulationCommand SimulationCommandRequest u32
| ConsoleSensorMode bool u32
| ConsoleIna219 f32 f32 f32
| ConsoleBatterySetup f32 f32 f32
| ConsolePowerPlanning f32 f32 f32 f32 u32
| ConsoleNode ConfigCommandAction MacAddress string u32
| ConsoleConfigureLoad MacAddress LoadConfiguration u32
| ConsoleRemoveLoad MacAddress u8 u32

fun central_step ::
  "('g, 'n, 'i) Platform \<Rightarrow> central_event \<Rightarrow> ('g, 'n, 'i) Central \<Rightarrow> ('g, 'n, 'i) Central" where
  "central_step pf (OptimizationTurn clock waits) c =
     (case optimizationTurn pf clock waits c of None \<Rightarrow> c | Some c' \<Rightarrow> c')"
| "central_step pf (SensorTurn elapsed now cycles) c = snd (sensorAcquisition pf elapsed now (cycles, c))"
| "central_step pf (Receive mac destination msg now) c = snd (receiveMessage pf mac destination msg now c)"
| "central_step pf (WatchdogTurn d) c =
     c\<lparr>commissioningRegistry := snd (updateDiagnostics (localMac pf) d (commissioningRegistry c))\<rparr>"
| "central_step pf (LoadCommand request) c = snd (handleLoadCommand pf request c)"
| "central_step pf (SystemCommand request) c = snd (handleSystemCommand pf request c)"
| "central_step pf (ConfigCommand request now) c = snd (handleConfigCommand pf request now c)"
| "central_step pf (SimulationCommand request now) c = snd (handleSimulationCommand pf request now c)"
| "central_step pf (ConsoleSensorMode simulated now) c = snd (consoleSensorModeConfigured pf simulated now c)"
| "central_step pf (ConsoleIna219 shunt current alpha) c = snd (consoleConfigureIna219 pf shunt current alpha c)"
| "central_step pf (ConsoleBatterySetup capacity initial voltage) c =
     snd (consoleConfigureBatterySetup pf capacity initial voltage c)"
| "central_step pf (ConsolePowerPlanning budget reserve minimum runtime now) c =
     snd (consoleConfigurePowerPlanningValidated pf budget reserve minimum runtime now c)"
| "central_step pf (ConsoleNode action mac name now) c = snd (consoleNodeCommand pf action mac name now c)"
| "central_step pf (ConsoleConfigureLoad mac v now) c = snd (consoleConfigureLoad pf mac v now c)"
| "central_step pf (ConsoleRemoveLoad mac pin now) c = snd (consoleRemoveLoad pf mac pin now c)"

lemma central_step_inv:
  assumes inv: "central_inv c"
  shows "central_inv (central_step pf ev c)"
proof (cases ev)
  case (OptimizationTurn clock waits)
  with inv show ?thesis by (simp add: optimizationTurn_inv split: option.splits)
next
  case (WatchdogTurn d)
  with inv show ?thesis by (simp add: central_inv_update updateDiagnostics_ok central_invD)
qed (simp_all add: central_inv_intros inv consoleNodeCommand_def consoleConfigureLoad_def consoleRemoveLoad_def)

lemma central_run_inv: "central_inv c \<Longrightarrow> central_inv (fold (central_step pf) events c)"
  by (induction events arbitrary: c) (simp_all add: central_step_inv)

subsection \<open>Start on blank storage\<close>

definition blank_storage :: "'n NvsApi \<Rightarrow> 'n \<Rightarrow> bool" where
  "blank_storage api n \<longleftrightarrow>
     (\<forall>k. nvs_get_u8 api n k = None \<and> nvs_get_u32 api n k = None \<and> nvs_get_blob api n k = None)"

lemma new_Central_inv: "central_inv (new_Central mac g n i)"
proof -
  have "hw_ok (new_NodeHardware mac g n)"
    by (simp add: hw_ok_def new_NodeHardware_def aligned_Nil)
  then show ?thesis
    by (simp add: central_inv_def new_Central_def planning_ok_Nil registry_ok_Nil new_PowerManager_ok
        new_CentralConfiguration_ok store_ok_def MIN_OPTIMIZATION_PERIOD_MILLISECONDS_def
        MAX_OPTIMIZATION_PERIOD_MILLISECONDS_def DEFAULT_OPTIMIZATION_PERIOD_MILLISECONDS_def)
qed

lemma blank_loads:
  assumes "blank_storage api n"
  shows "hardware_loadPersisted api n cs = (False, cs)" "central_loadPersisted api n cfg = (False, cfg)"
    "config_loadPersisted api n es = (False, es)" "registry_loadPersisted api n rs = (False, rs)"
    "optimizer_nvs c = n \<Longrightarrow> loadOptimizerIntervalConfiguration api c = c"
  using assms
  by (simp_all add: blank_storage_def hardware_loadPersisted_def central_loadPersisted_def config_loadPersisted_def
      load_legacy_def registry_loadPersisted_def loadOptimizerIntervalConfiguration_def)

lemma restoreState_blank:
  assumes blank: "blank_storage (nvs pf) n"
  shows "central_inv (restoreState pf now (new_Central (localMac pf) g n i))"
proof -
  let ?c = "new_Central (localMac pf) g n i"
  let ?c1 = "addLocalNode now ?c"
  have f: "settings_nvs ?c = n" "loads_nvs ?c = n" "commissioning_nvs ?c = n" "optimizer_nvs ?c = n"
    "hw_nvs (localHardware ?c) = n" "hw_configurations (localHardware ?c) = []"
    "centralConfigurationStore ?c = new_CentralConfiguration"
    "centralLoadConfigurationStore ?c = []" "commissioningRegistry ?c = []"
    "(localHardware ?c)\<lparr>hw_node := new_Node (localMac pf)\<rparr> = localHardware ?c"
    by (simp_all add: new_Central_def new_NodeHardware_def)
  note load = blank_loads [OF blank]
  have same: "?c\<lparr>localHardware := (localHardware ?c)\<lparr>hw_configurations := []\<rparr>\<rparr> = ?c"
    by (simp add: new_Central_def new_NodeHardware_def)
  have c1: "configureLocalHardware pf now ?c = ?c1"
    unfolding configureLocalHardware_def f(10) Let_def by (simp add: f(5,6) load) (rule arg_cong [OF same])
  have f1: "settings_nvs ?c1 = n" "loads_nvs ?c1 = n" "commissioning_nvs ?c1 = n" "optimizer_nvs ?c1 = n"
    "centralConfigurationStore ?c1 = new_CentralConfiguration"
    "centralLoadConfigurationStore ?c1 = []" "commissioningRegistry ?c1 = []"
    by (simp_all add: addLocalNode_def f)
  have c2: "?c1\<lparr>centralConfigurationStore := new_CentralConfiguration\<rparr> = ?c1"
    by (simp add: addLocalNode_def new_Central_def)
  have c4: "applyPersistedBatterySensorConfiguration pf ?c1 = (False, ?c1)"
    by (simp add: applyPersistedBatterySensorConfiguration_def f1 new_CentralConfiguration_def)
  have inv: "central_inv ?c1" by (intro addLocalNode_inv new_Central_inv)
  have reg: "planning_ok (applyStoredLoadSettings [] (registry ?c1))"
    using same_frame_ok [OF applyStoredLoadSettings_at(1)] central_invD(1) [OF inv] by blast
  have "restoreState pf now ?c = ?c1\<lparr>centralLoadConfigurationStore := [],
      registry := applyStoredLoadSettings [] (registry ?c1), commissioningRegistry := []\<rparr>"
    unfolding restoreState_def c1 Let_def f1 load snd_conv c2 by (simp add: f1 load c4)
  then show ?thesis
    using inv reg by (simp add: central_inv_def store_ok_def registry_ok_Nil)
qed

lemma startCentral_blank:
  assumes "blank_storage (nvs pf) n"
  shows "central_inv (startCentral pf firmware chip d now (new_Central (localMac pf) g n i))"
proof -
  have "role_of_byte (role_byte CENTRAL) = CENTRAL" by (simp add: role_of_byte_def)
  with restoreState_blank [OF assms, of now g i] show ?thesis
    by (simp add: startCentral_def Let_def central_inv_update central_invD registerSelf_ok updateDiagnostics_ok)
qed

text \<open>
  C6: A Central that starts on blank storage stays well formed for ever: after any sequence of
  sensor turns, optimisation cycles, received packets, console and MQTT commands, whatever the
  drivers and the radio answer and whatever acknowledgements arrive, the planning copy holds each
  Node once and each of its Loads once, the settings store is a map with valid schedules, the
  commissioning records fit their buffers, the budget is a budget of non-negative powers, the
  persisted settings are valid, Central's own configurations, relay channels and Loads agree,
  every command that waits for a hardware acknowledgement is a removal, and the optimiser's
  interval lies between 5 seconds and a day.
\<close>

theorem central_always_ok:
  assumes "blank_storage (nvs pf) n"
  shows "central_inv (fold (central_step pf) events
           (startCentral pf firmware chip d now (new_Central (localMac pf) g n i)))"
  by (rule central_run_inv [OF startCentral_blank [OF assms]])

theorem central_always_ok_witness:
  "central_inv (fold (central_step example_platform)
     [ConsoleConfigureLoad (1, 2, 3, 4, 5, 6) example_conf 5, SensorTurn 1000 1000 0,
      SystemCommand (SET_OPTIMIZER_INTERVAL (Some 5))]
     (startCentral example_platform ''1.0'' ''ESP32'' new_Diagnostics 0
        (new_Central (localMac example_platform) (\<lambda>p. True, \<lambda>p. False) (\<lambda>_. None) ())))"
  by (rule central_always_ok) (simp add: blank_storage_def example_platform_def ram_nvs_def)

end
