(* ===== verification/Relay_Handshake.thy ===== *)
theory Relay_Handshake
  imports Central_Commands
begin

text \<open>
  The relay command and its acknowledgement: \<open>dispatchRelayTargetAndWait\<close> with the
  acknowledgements \<open>handleRelayAcknowledgement\<close> takes while it waits.
\<close>

section \<open>The command that is waited for\<close>

definition confirms :: "RelayTarget \<Rightarrow> u32 \<Rightarrow> MacAddress \<times> RelayCommandAcknowledgementPacket \<Rightarrow> bool" where
  "confirms t i x \<longleftrightarrow>
     fst x = target_nodeMacAddress t \<and> rca_relayPin (snd x) = target_relayPin t \<and>
     rca_commandId (snd x) = i \<and> (rca_requestedState (snd x) = 1) = target_desiredOn t \<and>
     rca_success (snd x) \<noteq> 0"

definition command_of :: "u32 \<Rightarrow> RelayTarget \<Rightarrow> PendingCommand" where
  "command_of i t =
     \<lparr>pending_commandId = i, pending_nodeMacAddress = target_nodeMacAddress t,
      pending_relayPin = target_relayPin t, pending_desiredOn = target_desiredOn t\<rparr>"

text \<open>Command \<open>i\<close> still waits, or one of the acknowledgements seen explains its success.\<close>

definition tracked ::
  "RelayTarget \<Rightarrow> u32 \<Rightarrow> (MacAddress \<times> RelayCommandAcknowledgementPacket) set \<Rightarrow> RelayCommandDispatcher \<Rightarrow> bool" where
  "tracked t i seen d \<longleftrightarrow>
     dispatcher_ok d \<and>
     (findPendingCommand i d = Some (command_of i t) \<or>
      \<not> isPending i d \<and> (wasCommandSuccessful i d \<longrightarrow> (\<exists>x \<in> seen. confirms t i x)))"

lemma dispatcher_erase:
  assumes "dispatcher_ok d"
  shows "erase_first (\<lambda>p. pending_commandId p = i) (pendingCommands d) =
    filter (\<lambda>p. pending_commandId p \<noteq> i) (pendingCommands d)"
  using assms by (intro erase_first_filter) (simp add: dispatcher_ok_def)

lemma completeCommand_effect:
  assumes ok: "dispatcher_ok d" and pending: "isPending i d"
  shows "dispatcher_ok (snd (completeCommand i s d))"
    and "findPendingCommand j (snd (completeCommand i s d)) = (if j = i then None else findPendingCommand j d)"
    and "wasCommandSuccessful j (snd (completeCommand i s d)) = (j = i \<and> s)"
proof -
  have ex: "list_ex (\<lambda>p. pending_commandId p = i) (pendingCommands d)"
    using pending by (auto simp: isPending_def findPendingCommand_def find_Some_iff list_ex_iff)
  have "find (\<lambda>p. pending_commandId p = i) (filter (\<lambda>p. pending_commandId p \<noteq> i) ps) = None"
    "j \<noteq> i \<Longrightarrow> find (\<lambda>p. pending_commandId p = j) (filter (\<lambda>p. pending_commandId p \<noteq> i) ps) =
      find (\<lambda>p. pending_commandId p = j) ps" for ps
    by (induction ps) auto
  with ex show "findPendingCommand j (snd (completeCommand i s d)) = (if j = i then None else findPendingCommand j d)"
    by (cases "j = i") (simp_all add: completeCommand_def findPendingCommand_def dispatcher_erase [OF ok])
  show "wasCommandSuccessful j (snd (completeCommand i s d)) = (j = i \<and> s)"
    using ex by (auto simp: completeCommand_def wasCommandSuccessful_def)
  show "dispatcher_ok (snd (completeCommand i s d))"
    using ex ok by (simp add: completeCommand_def dispatcher_ok_def dispatcher_erase [OF ok] distinct_map_filter)
qed

lemma completeCommand_refused: "\<not> isPending i d \<Longrightarrow> completeCommand i s d = (False, d)"
  by (auto simp: completeCommand_def isPending_def findPendingCommand_def find_None_iff list_ex_iff)

text \<open>The two cases of an acknowledgement.\<close>

lemma handleRelayAcknowledgement_cases:
  "relayCommandDispatcher (handleRelayAcknowledgement mac ack c) = relayCommandDispatcher c \<or>
   (\<exists>p. findPendingCommand (rca_commandId ack) (relayCommandDispatcher c) = Some p \<and>
      pending_nodeMacAddress p = mac \<and> pending_relayPin p = rca_relayPin ack \<and>
      pending_desiredOn p = (rca_requestedState ack = 1) \<and>
      relayCommandDispatcher (handleRelayAcknowledgement mac ack c) =
        snd (completeCommand (rca_commandId ack) (rca_success ack \<noteq> 0) (relayCommandDispatcher c)))"
  by (simp add: handleRelayAcknowledgement_def Let_def split: option.splits)

lemma handleRelayAcknowledgement_tracked:
  assumes "tracked t i seen (relayCommandDispatcher c)"
  shows "tracked t i (insert (mac, ack) seen) (relayCommandDispatcher (handleRelayAcknowledgement mac ack c))"
  using handleRelayAcknowledgement_cases [of mac ack c]
proof (elim disjE exE conjE)
  assume "relayCommandDispatcher (handleRelayAcknowledgement mac ack c) = relayCommandDispatcher c"
  with assms show ?thesis by (auto simp: tracked_def)
next
  fix p
  assume 2: "findPendingCommand (rca_commandId ack) (relayCommandDispatcher c) = Some p"
      "pending_nodeMacAddress p = mac" "pending_relayPin p = rca_relayPin ack"
      "pending_desiredOn p = (rca_requestedState ack = 1)"
      "relayCommandDispatcher (handleRelayAcknowledgement mac ack c) =
         snd (completeCommand (rca_commandId ack) (rca_success ack \<noteq> 0) (relayCommandDispatcher c))"
  let ?j = "rca_commandId ack"
  have ok: "dispatcher_ok (relayCommandDispatcher c)" and pending: "isPending ?j (relayCommandDispatcher c)"
    using assms 2 by (auto simp: tracked_def isPending_def)
  note effect = completeCommand_effect [OF ok pending]
  show ?thesis
  proof (cases "?j = i")
    case True
    then have "p = command_of i t" using assms 2 by (auto simp: tracked_def isPending_def)
    then have "rca_success ack \<noteq> 0 \<Longrightarrow> confirms t i (mac, ack)"
      using 2 True by (simp add: confirms_def command_of_def)
    with True 2 effect show ?thesis by (auto simp: tracked_def isPending_def)
  next
    case False
    with assms 2 effect show ?thesis by (auto simp: tracked_def isPending_def)
  qed
qed

lemma handleRelayAcknowledgement_settled:
  assumes "dispatcher_ok (relayCommandDispatcher c)" and "\<not> isPending i (relayCommandDispatcher c)"
  shows "\<not> isPending i (relayCommandDispatcher (handleRelayAcknowledgement mac ack c))"
  using handleRelayAcknowledgement_cases [of mac ack c]
proof (elim disjE exE conjE)
  fix p
  assume p: "findPendingCommand (rca_commandId ack) (relayCommandDispatcher c) = Some p"
    and d: "relayCommandDispatcher (handleRelayAcknowledgement mac ack c) =
         snd (completeCommand (rca_commandId ack) (rca_success ack \<noteq> 0) (relayCommandDispatcher c))"
  have "isPending (rca_commandId ack) (relayCommandDispatcher c)" using p by (simp add: isPending_def)
  from completeCommand_effect(2) [OF assms(1) this] assms(2) show ?thesis by (simp add: d isPending_def)
qed (use assms in simp)

lemma handleRelayAcknowledgements_tracked:
  "tracked t i seen (relayCommandDispatcher c) \<Longrightarrow>
   tracked t i (set acks \<union> seen) (relayCommandDispatcher (handleRelayAcknowledgements acks c)) \<and>
   (\<not> isPending i (relayCommandDispatcher c) \<longrightarrow>
    \<not> isPending i (relayCommandDispatcher (handleRelayAcknowledgements acks c)))"
proof (induction acks arbitrary: c seen)
  case (Cons x acks)
  obtain mac ack where x: "x = (mac, ack)" by fastforce
  have "dispatcher_ok (relayCommandDispatcher c)" using Cons.prems by (simp add: tracked_def)
  from handleRelayAcknowledgement_settled [OF this, of i mac ack]
    Cons.IH [OF handleRelayAcknowledgement_tracked [OF Cons.prems, of mac ack]]
  show ?case by (simp add: x handleRelayAcknowledgements_def)
qed (simp add: handleRelayAcknowledgements_def)

text \<open>Every acknowledgement that is handled while a command waits.\<close>

definition polled :: "RelayPoll list \<Rightarrow> (MacAddress \<times> RelayCommandAcknowledgementPacket) set" where
  "polled ps = (\<Union>p \<in> set ps. set (poll_arrived p) \<union> set (poll_late p))"

lemma polled_simps [simp]:
  "polled [] = {}"
  "polled (p # ps) = set (poll_arrived p) \<union> set (poll_late p) \<union> polled ps"
  by (simp_all add: polled_def)

lemma awaitCompletion_settles:
  assumes "tracked t i seen (relayCommandDispatcher c)" and "awaitCompletion i taken polls c = (ok, c')"
  shows "dispatcher_ok (relayCommandDispatcher c') \<and> (isPending i (relayCommandDispatcher c') \<longrightarrow> \<not> taken \<and> \<not> ok) \<and>
    (ok \<longrightarrow> (\<exists>x \<in> polled polls \<union> seen. confirms t i x))"
  using assms
proof (induction i taken polls c arbitrary: seen rule: awaitCompletion.induct)
  case (1 i taken c)
  then have d: "dispatcher_ok (relayCommandDispatcher c)" by (simp add: tracked_def)
  show ?case
  proof (cases "isPending i (relayCommandDispatcher c)")
    case True
    with 1 d completeCommand_effect [where s = False, OF d True] show ?thesis
      by (auto simp: isPending_def split: prod.splits if_splits)
  next
    case False
    with 1 d show ?thesis by (auto simp: completeCommand_refused split: if_splits)
  qed
next
  case (2 i taken p later c)
  let ?c1 = "handleRelayAcknowledgements (poll_arrived p) c"
  let ?c2 = "handleRelayAcknowledgements (poll_late p) ?c1"
  have t1: "tracked t i (set (poll_arrived p) \<union> seen) (relayCommandDispatcher ?c1)"
    using handleRelayAcknowledgements_tracked [OF "2.prems"(1)] by blast
  note t2 = handleRelayAcknowledgements_tracked [OF t1, of "poll_late p"]
  show ?case
  proof (cases "poll_looks p \<and> \<not> isPending i (relayCommandDispatcher ?c1)")
    case True
    with "2.prems"(2) have "c' = ?c2" "ok \<longrightarrow> wasCommandSuccessful i (relayCommandDispatcher ?c2)"
      by (auto simp: Let_def)
    with t2 True show ?thesis by (auto simp: tracked_def isPending_def)
  next
    case False
    with "2.prems"(2) have "awaitCompletion i taken later ?c1 = (ok, c')" by (auto simp: Let_def)
    with "2.IH" [OF refl False t1] show ?thesis by auto
  qed
qed

lemma beginCommand_tracked:
  assumes ok: "dispatcher_ok d" and new: "\<not> isPending (nextCommandId d) d"
    and b: "beginCommand t d = (i, d')"
  shows "i = nextCommandId d" "tracked t i {} d'" "isPending i d'"
proof -
  have none: "find (\<lambda>p. pending_commandId p = nextCommandId d) (pendingCommands d) = None"
    using new by (simp add: isPending_def findPendingCommand_def)
  then have fresh: "nextCommandId d \<notin> pending_commandId ` set (pendingCommands d)"
    by (auto simp: find_None_iff)
  have i: "i = nextCommandId d" and d': "d' = d\<lparr>nextCommandId := nextCommandId d + 1,
      pendingCommands := pendingCommands d @ [command_of (nextCommandId d) t]\<rparr>"
    using b by (auto simp: beginCommand_def Let_def command_of_def)
  have id: "pending_commandId (command_of j t) = j" for j by (simp add: command_of_def)
  show "i = nextCommandId d" by (rule i)
  have "findPendingCommand i d' = Some (command_of i t)"
    by (simp add: i d' findPendingCommand_def find_append none id)
  moreover have "dispatcher_ok d'" using ok fresh by (simp add: d' dispatcher_ok_def id)
  ultimately show "tracked t i {} d'" "isPending i d'" by (simp_all add: tracked_def isPending_def)
qed

text \<open>
  C11: A relay command to a Smart Node settles, or is reported as failed. Whatever acknowledgements
  arrive while it waits, in whatever order and from whatever Node, and whichever of the attempts to
  take the state mutex fail: provided the next command identifier is not that of a command still
  pending (the counter wraps), the command is reported as successful only if its packet was sent over
  the route of the Node and one of the acknowledgements handled came from that very Node, for the same
  pin, state and identifier, with its success flag set. Afterwards it is not pending, with two
  exceptions, both reported as failures: the mutex was not obtained to end a command that could not be
  sent or that timed out, and the identifier 0, under which the command is always left pending.
\<close>

theorem relay_command_settled:
  assumes ok: "dispatcher_ok (relayCommandDispatcher c)"
    and i: "i = nextCommandId (relayCommandDispatcher c)"
    and new: "\<not> isPending i (relayCommandDispatcher c)"
    and remote: "target_nodeMacAddress t \<noteq> localMac pf"
    and run: "dispatchRelayTargetAndWait pf t w c = (success, c')"
    and sent: "sent = (\<lambda>nextHop. sendTo pf nextHop (target_nodeMacAddress t)
        (RELAY_COMMAND \<lparr>rcp_relayPin = target_relayPin t,
           rcp_desiredState = (if target_desiredOn t then 1 else 0), rcp_commandId = i\<rparr>))"
  shows "dispatcher_ok (relayCommandDispatcher c') \<and>
    (success \<longrightarrow>
       (\<exists>nextHop. routeToSmartNode pf (target_nodeMacAddress t) c = Some nextHop \<and> sent nextHop) \<and>
       (\<exists>x \<in> polled (wait_polls w). confirms t i x)) \<and>
    (isPending i (relayCommandDispatcher c') \<longrightarrow> \<not> success \<and>
       (\<exists>nextHop. routeToSmartNode pf (target_nodeMacAddress t) c = Some nextHop \<and>
          (i = 0 \<or> (if sent nextHop then \<not> taken_at_deadline w else \<not> taken_after_send w)))) \<and>
    (i = 0 \<and> taken_to_route w \<and> routeToSmartNode pf (target_nodeMacAddress t) c \<noteq> None \<longrightarrow>
       isPending i (relayCommandDispatcher c'))"
proof (cases "taken_to_route w \<and> routeToSmartNode pf (target_nodeMacAddress t) c \<noteq> None")
  case False
  then have "\<not> success \<and> relayCommandDispatcher c' = relayCommandDispatcher c"
    using run remote by (cases "taken_to_route w"; cases "routeToSmartNode pf (target_nodeMacAddress t) c")
      (auto simp: dispatchRelayTargetAndWait_def)
  with ok new False show ?thesis by auto
next
  case True
  then obtain nextHop where Some: "routeToSmartNode pf (target_nodeMacAddress t) c = Some nextHop" by blast
  obtain j d where b: "beginCommand t (relayCommandDispatcher c) = (j, d)" by fastforce
  note begun = beginCommand_tracked [OF ok new [unfolded i] b]
  have j: "j = i" using begun(1) i by simp
  have d: "dispatcher_ok d" using begun(2) by (simp add: tracked_def)
  let ?c1 = "c\<lparr>relayCommandDispatcher := d\<rparr>"
  consider (zero) "i = 0" | (await) "i \<noteq> 0" "sent nextHop" | (unsent) "i \<noteq> 0" "\<not> sent nextHop" by blast
  then show ?thesis
  proof cases
    case zero
    with run remote True Some b j have "\<not> success" "relayCommandDispatcher c' = d"
      by (auto simp: dispatchRelayTargetAndWait_def Let_def)
    with zero d begun(3) j Some show ?thesis by blast
  next
    case await
    with run remote True Some b j have "awaitCompletion i (taken_at_deadline w) (wait_polls w) ?c1 = (success, c')"
      by (simp add: dispatchRelayTargetAndWait_def Let_def sent)
    with awaitCompletion_settles [of t i "{}" ?c1 "taken_at_deadline w" "wait_polls w" success c']
      begun(2) j await Some
    show ?thesis by auto
  next
    case unsent
    with run remote True Some b j
    have "\<not> success" "relayCommandDispatcher c' =
        (if taken_after_send w then snd (completeCommand i False d) else d)"
      by (auto simp: dispatchRelayTargetAndWait_def Let_def sent split: if_splits)
    with completeCommand_effect [where s = False and i = i, OF d] begun(3) j unsent d Some
    show ?thesis by (auto simp: isPending_def)
  qed
qed

text \<open>A Smart Node next to Central, and its acknowledgement.\<close>

definition handshake_central ::
  "((u8 \<Rightarrow> bool) \<times> (u8 \<Rightarrow> bool), string \<Rightarrow> nvs_value option, unit) Central" where
  "handshake_central = (new_Central (1, 1, 1, 1, 1, 1) (\<lambda>p. True, \<lambda>p. False) (\<lambda>_. None) ())
     \<lparr>registry := [\<lparr>plan_node = new_Node (1, 2, 3, 4, 5, 6), plan_nodeName = [],
        plan_nextHop = (1, 1, 1, 1, 1, 1), plan_hopCount = 1, plan_isCentralNode = False,
        plan_lastSeen = 0, plan_pendingReport = new_PendingNodeReport\<rparr>]\<rparr>"

definition handshake_ack :: "MacAddress \<times> RelayCommandAcknowledgementPacket" where
  "handshake_ack = ((1, 2, 3, 4, 5, 6),
     \<lparr>rca_relayPin = 25, rca_commandId = 1, rca_requestedState = 1, rca_success = 1, rca_failureReason = 0\<rparr>)"

lemma handshake_route:
  "routeToSmartNode (example_platform\<lparr>localMac := (1, 1, 1, 1, 1, 1)\<rparr>) (1, 2, 3, 4, 5, 6) handshake_central =
    Some (1, 2, 3, 4, 5, 6)"
  by (simp add: handshake_central_def routeToSmartNode_def findNextHopFromCentral_def findNodeByMacAddress_def
      plan_mac_def new_Node_def)

text \<open>The acknowledgement arrives before the second turn of the loop; the mutex is obtained every time.\<close>

definition handshake_wait :: RelayWait where
  "handshake_wait = \<lparr>wait_polls =
       [\<lparr>poll_arrived = [], poll_looks = True, poll_late = [], poll_reads = True\<rparr>,
        \<lparr>poll_arrived = [handshake_ack], poll_looks = True, poll_late = [], poll_reads = True\<rparr>],
     taken_to_route = True, taken_own_relay = True, taken_after_send = True, taken_at_deadline = True\<rparr>"

lemma handshake_run:
  "fst (dispatchRelayTargetAndWait (example_platform\<lparr>localMac := (1, 1, 1, 1, 1, 1)\<rparr>) example_target
     handshake_wait handshake_central)"
proof -
  have d: "relayCommandDispatcher handshake_central = new_RelayCommandDispatcher"
    by (simp add: handshake_central_def new_Central_def)
  let ?d = "new_RelayCommandDispatcher\<lparr>nextCommandId := 2, pendingCommands := [command_of 1 example_target]\<rparr>"
  have b: "beginCommand example_target new_RelayCommandDispatcher = (1, ?d)"
    by (simp add: beginCommand_def new_RelayCommandDispatcher_def command_of_def)
  have p: "findPendingCommand 1 ?d = Some (command_of 1 example_target)"
    by (simp add: findPendingCommand_def command_of_def)
  have s: "sendTo example_platform h t k" for h t k
    by (simp add: example_platform_def)
  have t: "target_nodeMacAddress example_target = (1, 2, 3, 4, 5, 6)" by (simp add: example_target_def)
  have c: "completeCommand 1 True ?d = (True, ?d\<lparr>pendingCommands := [], lastCompletedCommandId := 1,
      lastCompletedCommandSuccess := True\<rparr>)"
    by (simp add: completeCommand_def command_of_def)
  show ?thesis
    by (simp add: dispatchRelayTargetAndWait_def handshake_wait_def handleRelayAcknowledgements_def
        t handshake_route d b s Let_def isPending_def p handshake_ack_def handleRelayAcknowledgement_def c)
      (simp add: command_of_def example_target_def findPendingCommand_def wasCommandSuccessful_def)
qed

theorem relay_command_settled_witness:
  "\<exists>c'. dispatchRelayTargetAndWait (example_platform\<lparr>localMac := (1, 1, 1, 1, 1, 1)\<rparr>) example_target
      handshake_wait handshake_central = (True, c') \<and>
    \<not> isPending 1 (relayCommandDispatcher c') \<and> confirms example_target 1 handshake_ack"
proof -
  obtain c' where run: "dispatchRelayTargetAndWait (example_platform\<lparr>localMac := (1, 1, 1, 1, 1, 1)\<rparr>)
      example_target handshake_wait handshake_central = (True, c')"
    using handshake_run by (cases "dispatchRelayTargetAndWait (example_platform\<lparr>localMac := (1, 1, 1, 1, 1, 1)\<rparr>)
      example_target handshake_wait handshake_central") auto
  have d: "relayCommandDispatcher handshake_central = new_RelayCommandDispatcher"
    by (simp add: handshake_central_def new_Central_def)
  have ok: "dispatcher_ok (relayCommandDispatcher handshake_central)"
    "1 = nextCommandId (relayCommandDispatcher handshake_central)"
    "\<not> isPending 1 (relayCommandDispatcher handshake_central)"
    unfolding d by (simp_all add: dispatcher_ok_def isPending_def findPendingCommand_def new_RelayCommandDispatcher_def)
  have remote: "target_nodeMacAddress example_target \<noteq>
      localMac (example_platform\<lparr>localMac := (1, 1, 1, 1, 1, 1)\<rparr>)"
    by (simp add: example_target_def)
  have "polled (wait_polls handshake_wait) = {handshake_ack}" by (simp add: handshake_wait_def)
  with relay_command_settled [OF ok remote run refl] run show ?thesis by auto
qed

end
