(* ===== verification/Mesh_Results.thy ===== *)
theory Mesh_Results
  imports Mesh
begin

text \<open>
  The frames of the mesh: a frame is read back as the message it was made of, with the lemmas on
  frames and on unchanged routes that the theory \<open>Mesh_Network\<close> uses.
\<close>

section \<open>Frames\<close>

lemma type_byte_of_byte [simp]: "type_byte (type_of_byte b) = b"
  by (auto simp: type_of_byte_def find_Some_iff split: option.splits)

definition named_type :: "MessageType \<Rightarrow> bool" where
  "named_type t \<longleftrightarrow> t \<in> set named_types"

lemma type_of_byte_byte: "named_type t \<Longrightarrow> type_of_byte (type_byte t) = t"
  by (auto simp: named_type_def type_of_byte_def named_types_def)

lemma length_frame: "length (frame_of_message m) = MESSAGE_HEADER_SIZE + length (msg_payload m)"
  by (simp add: frame_of_message_def MESSAGE_HEADER_SIZE_def)

lemma u16_of_nat: "n < 65536 \<Longrightarrow> unat (of_nat n :: u16) = n"
  by (simp add: unsigned_of_nat take_bit_nat_eq_self)

text \<open>The fields of a frame.\<close>

lemma frame_slices:
  "frame_of_message m ! 0 = msg_protocolVersion m"
  "frame_of_message m ! 1 = type_byte (msg_messageType m)"
  "take 2 (drop 2 (frame_of_message m)) = u16_bytes (of_nat (length (msg_payload m)))"
  "take 4 (drop 4 (frame_of_message m)) = u32_bytes (msg_messageId m)"
  "take 6 (drop 8 (frame_of_message m)) = mac_bytes (msg_originMacAddress m)"
  "take 6 (drop 14 (frame_of_message m)) = mac_bytes (msg_destinationMacAddress m)"
  "frame_of_message m ! 20 = msg_hopsRemaining m"
  "drop 24 (frame_of_message m) = msg_payload m"
  by (simp_all add: frame_of_message_def nth_append)

lemma message_of_frame_of_message:
  assumes "msg_protocolVersion m = PROTOCOL_VERSION" and "named_type (msg_messageType m)"
    and len: "length (msg_payload m) \<le> MAX_PAYLOAD_SIZE"
  shows "message_of_frame (frame_of_message m) = Some m"
proof -
  have "length (msg_payload m) \<le> 226" using len by (simp add: MAX_PAYLOAD_SIZE_def MAX_MESSAGE_SIZE_def MESSAGE_HEADER_SIZE_def)
  then have "unat (of_nat (length (msg_payload m)) :: u16) = length (msg_payload m)"
    by (intro u16_of_nat) simp
  with assms show ?thesis
    unfolding message_of_frame_def length_frame frame_slices
    by (simp add: type_of_byte_byte Let_def)
      (simp add: MAX_PAYLOAD_SIZE_def MAX_MESSAGE_SIZE_def MESSAGE_HEADER_SIZE_def)
qed

lemma buildMessage_Some:
  "buildMessage d t payload e = (Some m, e') \<Longrightarrow>
   esp_initialized e \<and> length payload \<le> MAX_PAYLOAD_SIZE \<and> e' = e\<lparr>nextMessageId := nextMessageId e + 1\<rparr> \<and>
   msg_protocolVersion m = PROTOCOL_VERSION \<and> msg_messageType m = t \<and>
   msg_originMacAddress m = esp_localMacAddress e \<and> msg_destinationMacAddress m = d \<and>
   msg_hopsRemaining m = DEFAULT_HOP_LIMIT \<and> msg_payload m = payload"
  by (auto simp: buildMessage_def split: if_splits)

text \<open>
  What the routes do not depend on: the name, the table of downstream Nodes, the identifier counter
  and the peer table.
\<close>

definition same_route :: "EspNow \<Rightarrow> EspNow \<Rightarrow> bool" where
  "same_route e e' \<longleftrightarrow>
     e\<lparr>esp_localNodeName := [], directDownstreamNodes := [], nextMessageId := 0, esp_peers := []\<rparr> =
     e'\<lparr>esp_localNodeName := [], directDownstreamNodes := [], nextMessageId := 0, esp_peers := []\<rparr>"

lemma same_route_refl [simp]: "same_route e e"
  by (simp add: same_route_def)

lemma same_route_trans: "same_route a b \<Longrightarrow> same_route b c \<Longrightarrow> same_route a c"
  by (simp add: same_route_def)

lemma same_route_id [simp]: "same_route e (e\<lparr>nextMessageId := i\<rparr>)"
  by (simp add: same_route_def)

lemma same_route_peers [simp]: "same_route e (e\<lparr>esp_peers := ps\<rparr>)"
  by (simp add: same_route_def)

lemma same_route_name [simp]: "same_route e (e\<lparr>esp_localNodeName := n\<rparr>)"
  by (simp add: same_route_def)

lemma same_route_downstream [simp]: "same_route e (e\<lparr>directDownstreamNodes := ds\<rparr>)"
  by (simp add: same_route_def)

lemma addPeer_same: "addPeer api mac e = (ok, e') \<Longrightarrow> same_route e e'"
  by (auto simp: addPeer_def split: if_splits)

lemma sendMessageTo_cases:
  assumes "sendMessageTo api hop m e = (ok, fs, e')"
  shows "same_route e e' \<and> (fs = [] \<and> \<not> ok \<or> fs = [(hop, frame_of_message m)] \<and> length (msg_payload m) \<le> MAX_PAYLOAD_SIZE)"
proof -
  obtain peer e1 where p: "(if isBroadcastMacAddress hop then (True, e) else addPeer api hop e) = (peer, e1)"
    by fastforce
  then have "same_route e e1" by (auto split: if_splits dest: addPeer_same)
  with assms p show ?thesis by (auto simp: sendMessageTo_def split: if_splits)
qed

lemma sendTo_message_cases:
  assumes s: "sendTo_message api hop d t payload e = (ok, fs, e')"
  shows "same_route e e' \<and> (fs = [] \<and> \<not> ok \<or> (\<exists>m. fs = [(hop, frame_of_message m)] \<and>
      msg_protocolVersion m = PROTOCOL_VERSION \<and> msg_messageType m = t \<and>
      msg_originMacAddress m = esp_localMacAddress e \<and> msg_destinationMacAddress m = d \<and>
      msg_hopsRemaining m = DEFAULT_HOP_LIMIT \<and> msg_payload m = payload \<and>
      length payload \<le> MAX_PAYLOAD_SIZE))"
proof (cases "fst (buildMessage d t payload e)")
  case None
  then show ?thesis using s by (auto simp: sendTo_message_def buildMessage_def split: if_splits)
next
  case (Some m)
  then obtain e1 where b: "buildMessage d t payload e = (Some m, e1)" by (metis prod.collapse)
  note bm = buildMessage_Some [OF b]
  have sr: "same_route e e1" using bm by simp
  have "sendMessageTo api hop m e1 = (ok, fs, e')" using s by (simp add: sendTo_message_def b)
  from sendMessageTo_cases [OF this] have sm: "same_route e1 e'"
      "fs = [] \<and> \<not> ok \<or> fs = [(hop, frame_of_message m)]" by blast+
  from sm(2) bm have "fs = [] \<and> \<not> ok \<or> (fs = [(hop, frame_of_message m)] \<and>
      msg_protocolVersion m = PROTOCOL_VERSION \<and> msg_messageType m = t \<and>
      msg_originMacAddress m = esp_localMacAddress e \<and> msg_destinationMacAddress m = d \<and>
      msg_hopsRemaining m = DEFAULT_HOP_LIMIT \<and> msg_payload m = payload \<and>
      length payload \<le> MAX_PAYLOAD_SIZE)" by blast
  then show ?thesis using same_route_trans [OF sr sm(1)] by blast
qed

end
