(* ===== verification/Mesh_Network.thy ===== *)
theory Mesh_Network
  imports Mesh_Results
begin

text \<open>
  A network of Nodes running \<open>EspNowCommunication\<close>: its steps, the invariant of its routes, and what
  one discovery round does. While no Node restarts, every route leads to a Central.
\<close>

section \<open>The network\<close>

text \<open>
  The Nodes by MAC address and every frame ever handed to a radio, with its sender. A frame may be
  lost, delayed, repeated and heard by any Node with any signal strength.
\<close>

record MeshState =
  mesh_nodes :: "MacAddress \<Rightarrow> EspNow"
  air :: "(MacAddress \<times> u8 list) list"

definition blank_mesh :: "(MacAddress \<Rightarrow> u8) \<Rightarrow> MeshState" where
  "blank_mesh channel = \<lparr>mesh_nodes = (\<lambda>m. new_EspNow (channel m) m), air = []\<rparr>"

definition put_node :: "MacAddress \<Rightarrow> frames \<Rightarrow> EspNow \<Rightarrow> MeshState \<Rightarrow> MeshState" where
  "put_node m fs e S = S\<lparr>mesh_nodes := (mesh_nodes S)(m := e), air := air S @ map (\<lambda>f. (m, snd f)) fs\<rparr>"

definition start_node :: "bool \<Rightarrow> bool \<Rightarrow> MacAddress \<Rightarrow> MeshState \<Rightarrow> MeshState" where
  "start_node central ready m S =
     put_node m []
       (let e = snd (esp_initialize (Some m) ready (mesh_nodes S m))
        in if central then snd (setAsCentralNode e) else e) S"

definition begin_node :: "RadioApi \<Rightarrow> u32 \<Rightarrow> u32 \<Rightarrow> MacAddress \<Rightarrow> MeshState \<Rightarrow> MeshState" where
  "begin_node api window random m S =
     (case beginDiscovery api window random (mesh_nodes S m) of (_, fs, e) \<Rightarrow> put_node m fs e S)"

definition finish_node :: "RadioApi \<Rightarrow> MacAddress \<Rightarrow> MeshState \<Rightarrow> MeshState" where
  "finish_node api m S =
     (case finishDiscovery api (mesh_nodes S m) of (_, fs, e) \<Rightarrow> put_node m fs e S)"

definition deliver_node :: "RadioApi \<Rightarrow> i8 \<Rightarrow> MacAddress \<times> u8 list \<Rightarrow> MacAddress \<Rightarrow> MeshState \<Rightarrow> MeshState" where
  "deliver_node api signal f m S =
     (case processRawReceivedPacket api (fst f) signal (snd f) (mesh_nodes S m) of
        (_, fs, e) \<Rightarrow> put_node m fs e S)"

definition application_type :: "MessageType \<Rightarrow> bool" where
  "application_type t \<longleftrightarrow> type_byte t \<noteq> type_byte DISCOVERY_RESPONSE_TYPE"

inductive mesh_step :: "MeshState \<Rightarrow> MeshState \<Rightarrow> bool" where
  mesh_start: "\<not> esp_initialized (mesh_nodes S m) \<Longrightarrow> mesh_step S (start_node central ready m S)"
| mesh_begin: "mesh_step S (begin_node api window random m S)"
| mesh_finish: "discoveryInProgress (mesh_nodes S m) \<Longrightarrow> mesh_step S (finish_node api m S)"
| mesh_deliver: "f \<in> set (air S) \<Longrightarrow> mesh_step S (deliver_node api signal f m S)"
| mesh_send: "application_type t \<Longrightarrow>
     sendTo_message api hop d t payload (mesh_nodes S m) = (ok, fs, e) \<Longrightarrow>
     mesh_step S (put_node m fs e S)"
| mesh_report: "application_type t \<Longrightarrow>
     sendToCentral api t payload (mesh_nodes S m) = (ok, fs, e) \<Longrightarrow>
     mesh_step S (put_node m fs e S)"
| mesh_forward: "f \<in> set (air S) \<Longrightarrow> message_of_frame (snd f) = Some msg \<Longrightarrow>
     application_type (msg_messageType msg) \<Longrightarrow>
     forwardMessageTo api hop msg (mesh_nodes S m) = (ok, fs, e) \<Longrightarrow>
     mesh_step S (put_node m fs e S)"
| mesh_peer: "addPeer api mac (mesh_nodes S m) = (ok, e) \<Longrightarrow> mesh_step S (put_node m [] e S)"
| mesh_unpeer: "removePeer api mac (mesh_nodes S m) = (ok, e) \<Longrightarrow> mesh_step S (put_node m [] e S)"
| mesh_name: "mesh_step S (put_node m [] (setLocalNodeName nodeName (mesh_nodes S m)) S)"
| mesh_downstream: "registerDirectDownstreamNode nodeName mac signal hops (mesh_nodes S m) = (ok, e) \<Longrightarrow>
     mesh_step S (put_node m [] e S)"

inductive mesh_reachable :: "MeshState \<Rightarrow> bool" where
  reach_blank: "mesh_reachable (blank_mesh channel)"
| reach_step: "mesh_reachable S \<Longrightarrow> mesh_step S S' \<Longrightarrow> mesh_reachable S'"

text \<open>The Nodes a frame visits on its way to Central.\<close>

fun upstream_path :: "nat \<Rightarrow> (MacAddress \<Rightarrow> EspNow) \<Rightarrow> MacAddress \<Rightarrow> MacAddress list option" where
  "upstream_path fuel N m =
     (if centralNode (N m) then Some [m]
      else if \<not> upstreamNodeSelected (N m) then None
      else case fuel of
        0 \<Rightarrow> None
      | Suc k \<Rightarrow> map_option ((#) m) (upstream_path k N (upstreamNodeMacAddress (N m))))"

declare upstream_path.simps [simp del]

section \<open>The invariant of the network\<close>

definition node_route_ok :: "(MacAddress \<Rightarrow> EspNow) \<Rightarrow> MacAddress \<Rightarrow> EspNow \<Rightarrow> bool" where
  "node_route_ok N m e \<longleftrightarrow>
     esp_localMacAddress e = m \<and>
     (\<not> esp_initialized e \<longrightarrow> \<not> discoveryInProgress e) \<and>
     (centralMacAddressKnown e \<longrightarrow> centralNode (N (centralMacAddress e))) \<and>
     (centralMacAddressKnown e \<longrightarrow> centralNode e \<or> upstreamNodeSelected e) \<and>
     (centralNode e \<longrightarrow> hopCountToCentral e = 0 \<and> centralMacAddressKnown e \<and>
        \<not> upstreamNodeSelected e \<and> \<not> discoveryInProgress e) \<and>
     (upstreamNodeSelected e \<longrightarrow> routeAvailable (N (upstreamNodeMacAddress e)) \<and>
        unat (hopCountToCentral (N (upstreamNodeMacAddress e))) < unat (hopCountToCentral e)) \<and>
     (discoveryInProgress e \<and> discoveryCandidateFound e \<longrightarrow>
        routeAvailable (N (bestUpstreamCandidateMacAddress e)) \<and>
        unat (hopCountToCentral (N (bestUpstreamCandidateMacAddress e))) \<le> unat (bestUpstreamCandidateHopCount e) \<and>
        unat (bestUpstreamCandidateHopCount e) < unat (hopCountToCentral e) \<and>
        centralNode (N (bestUpstreamCandidateCentralMacAddress e)))"

definition honest_frame :: "(MacAddress \<Rightarrow> EspNow) \<Rightarrow> u8 list \<Rightarrow> bool" where
  "honest_frame N bs \<longleftrightarrow>
     (\<forall>m r. message_of_frame bs = Some m \<longrightarrow> msg_messageType m = DISCOVERY_RESPONSE_TYPE \<longrightarrow>
        length (msg_payload m) = DISCOVERY_RESPONSE_SIZE \<longrightarrow> r = response_of_bytes (msg_payload m) \<longrightarrow>
        routeAvailable (N (msg_originMacAddress m)) \<and>
        unat (hopCountToCentral (N (msg_originMacAddress m))) \<le> unat (response_hopCountToCentral r) \<and>
        centralNode (N (response_centralMacAddress r)))"

definition mesh_inv :: "MeshState \<Rightarrow> bool" where
  "mesh_inv S \<longleftrightarrow> (\<forall>m. node_route_ok (mesh_nodes S) m (mesh_nodes S m)) \<and>
                 (\<forall>f \<in> set (air S). honest_frame (mesh_nodes S) (snd f))"

definition improves :: "EspNow \<Rightarrow> EspNow \<Rightarrow> bool" where
  "improves e e' \<longleftrightarrow>
     (routeAvailable e \<longrightarrow> routeAvailable e') \<and> (centralNode e \<longrightarrow> centralNode e') \<and>
     unat (hopCountToCentral e') \<le> unat (hopCountToCentral e)"

lemma improves_refl [simp]: "improves e e"
  by (simp add: improves_def)

lemma improves_update:
  assumes "improves (N m) e"
  shows "improves (N x) ((N(m := e)) x)"
  using assms by simp

lemma node_route_ok_mono:
  assumes ok: "node_route_ok N m e" and up: "\<And>x. improves (N x) (N' x)"
  shows "node_route_ok N' m e"
proof -
  have up': "routeAvailable (N x) \<Longrightarrow> routeAvailable (N' x)"
    "centralNode (N x) \<Longrightarrow> centralNode (N' x)"
    "unat (hopCountToCentral (N' x)) \<le> unat (hopCountToCentral (N x))" for x
    using up [of x] by (simp_all add: improves_def)
  show ?thesis
    using ok unfolding node_route_ok_def
    by (elim conjE, intro conjI) (blast intro: up' le_less_trans [OF up'(3)] order_trans [OF up'(3)])+
qed

lemma honest_frame_mono:
  assumes ok: "honest_frame N bs" and up: "\<And>x. improves (N x) (N' x)"
  shows "honest_frame N' bs"
  unfolding honest_frame_def
proof (intro allI impI)
  fix m r
  assume "message_of_frame bs = Some m" and "msg_messageType m = DISCOVERY_RESPONSE_TYPE"
    and "length (msg_payload m) = DISCOVERY_RESPONSE_SIZE" and "r = response_of_bytes (msg_payload m)"
  then have "routeAvailable (N (msg_originMacAddress m)) \<and>
        unat (hopCountToCentral (N (msg_originMacAddress m))) \<le> unat (response_hopCountToCentral r) \<and>
        centralNode (N (response_centralMacAddress r))"
    using ok unfolding honest_frame_def by blast
  then show "routeAvailable (N' (msg_originMacAddress m)) \<and>
        unat (hopCountToCentral (N' (msg_originMacAddress m))) \<le> unat (response_hopCountToCentral r) \<and>
        centralNode (N' (response_centralMacAddress r))"
    using up [of "msg_originMacAddress m"] up [of "response_centralMacAddress r"]
    unfolding improves_def by linarith
qed

lemma put_node_inv:
  assumes inv: "mesh_inv S" and up: "improves (mesh_nodes S m) e"
    and ok: "node_route_ok ((mesh_nodes S)(m := e)) m e"
    and fs: "\<And>f. f \<in> set fs \<Longrightarrow> honest_frame ((mesh_nodes S)(m := e)) (snd f)"
  shows "mesh_inv (put_node m fs e S)"
proof -
  note mono = improves_update [of "mesh_nodes S", OF up]
  have "node_route_ok ((mesh_nodes S)(m := e)) x (((mesh_nodes S)(m := e)) x)" for x
  proof (cases "x = m")
    case False
    have "node_route_ok (mesh_nodes S) x (mesh_nodes S x)" using inv unfolding mesh_inv_def by blast
    from node_route_ok_mono [OF this mono] show ?thesis unfolding fun_upd_other [OF False] .
  qed (use ok in simp)
  moreover have "honest_frame ((mesh_nodes S)(m := e)) (snd f)" if "f \<in> set (air S)" for f
  proof -
    have "honest_frame (mesh_nodes S) (snd f)" using inv that unfolding mesh_inv_def by blast
    from honest_frame_mono [OF this mono] show ?thesis .
  qed
  ultimately show ?thesis using fs by (auto simp: mesh_inv_def put_node_def)
qed

lemma put_node_inv_old:
  assumes "mesh_inv S" and "improves (mesh_nodes S m) e" and ok: "node_route_ok (mesh_nodes S) m e"
    and fs: "\<And>f. f \<in> set fs \<Longrightarrow> honest_frame (mesh_nodes S) (snd f)"
  shows "mesh_inv (put_node m fs e S)"
  using assms(1,2) node_route_ok_mono [OF ok improves_update [of "mesh_nodes S", OF assms(2)]]
    honest_frame_mono [OF fs improves_update [of "mesh_nodes S", OF assms(2)]]
  by (rule put_node_inv)

text \<open>Sending keeps the route; what is sent is honest when it is no discovery response.\<close>

lemma same_routeD:
  assumes "same_route e e'"
  shows "esp_localMacAddress e' = esp_localMacAddress e" "esp_initialized e' = esp_initialized e"
    "discoveryInProgress e' = discoveryInProgress e" "centralMacAddressKnown e' = centralMacAddressKnown e"
    "centralMacAddress e' = centralMacAddress e" "centralNode e' = centralNode e"
    "upstreamNodeSelected e' = upstreamNodeSelected e" "hopCountToCentral e' = hopCountToCentral e"
    "upstreamNodeMacAddress e' = upstreamNodeMacAddress e"
    "discoveryCandidateFound e' = discoveryCandidateFound e"
    "bestUpstreamCandidateMacAddress e' = bestUpstreamCandidateMacAddress e"
    "bestUpstreamCandidateHopCount e' = bestUpstreamCandidateHopCount e"
    "bestUpstreamCandidateCentralMacAddress e' = bestUpstreamCandidateCentralMacAddress e"
  using assms by (cases e, cases e', simp add: same_route_def)+

lemma same_route_ok:
  assumes "same_route e e'" and "node_route_ok N m e"
  shows "node_route_ok N m e'"
  using assms(2) unfolding node_route_ok_def same_routeD [OF assms(1)] .

lemma same_route_improves: "same_route e e' \<Longrightarrow> improves e e'"
  by (simp add: improves_def routeAvailable_def same_routeD)

lemma message_of_frame_type:
  assumes "message_of_frame (frame_of_message m) = Some m'"
  shows "msg_messageType m' = type_of_byte (type_byte (msg_messageType m))"
  using assms unfolding message_of_frame_def frame_slices by (auto simp: Let_def split: if_splits)

lemma application_frame_honest:
  assumes "application_type (msg_messageType m)"
  shows "honest_frame N (frame_of_message m)"
proof -
  have "msg_messageType m' \<noteq> DISCOVERY_RESPONSE_TYPE"
    if "message_of_frame (frame_of_message m) = Some m'" for m'
  proof
    assume t: "msg_messageType m' = DISCOVERY_RESPONSE_TYPE"
    have "type_byte (msg_messageType m') = type_byte (msg_messageType m)"
      unfolding message_of_frame_type [OF that] by simp
    with t assms show False by (simp add: application_type_def)
  qed
  then show ?thesis unfolding honest_frame_def by blast
qed

lemma sendMessageTo_inv:
  assumes inv: "mesh_inv S" and t: "application_type (msg_messageType msg)"
    and s: "sendMessageTo api hop msg (mesh_nodes S m) = (ok, fs, e)"
  shows "mesh_inv (put_node m fs e S)"
proof -
  from sendMessageTo_cases [OF s] have sr: "same_route (mesh_nodes S m) e"
    and fs: "fs = [] \<or> fs = [(hop, frame_of_message msg)]" by blast+
  have ok: "node_route_ok (mesh_nodes S) m (mesh_nodes S m)" using inv unfolding mesh_inv_def by blast
  show ?thesis
    using inv same_route_improves [OF sr] same_route_ok [OF sr ok]
  proof (rule put_node_inv_old)
    fix f assume "f \<in> set fs"
    with fs have "snd f = frame_of_message msg" by auto
    then show "honest_frame (mesh_nodes S) (snd f)" using application_frame_honest [OF t] by simp
  qed
qed

lemma sendTo_inv:
  assumes inv: "mesh_inv S" and t: "application_type t"
    and s: "sendTo_message api hop d t payload (mesh_nodes S m) = (ok, fs, e)"
  shows "mesh_inv (put_node m fs e S)"
proof -
  from sendTo_message_cases [OF s] have sr: "same_route (mesh_nodes S m) e"
    and fs: "fs = [] \<or> (\<exists>msg. fs = [(hop, frame_of_message msg)] \<and> msg_messageType msg = t)" by blast+
  have ok: "node_route_ok (mesh_nodes S) m (mesh_nodes S m)" using inv unfolding mesh_inv_def by blast
  show ?thesis
    using inv same_route_improves [OF sr] same_route_ok [OF sr ok]
  proof (rule put_node_inv_old)
    fix f assume "f \<in> set fs"
    with fs obtain msg where "snd f = frame_of_message msg" "msg_messageType msg = t" by auto
    then show "honest_frame (mesh_nodes S) (snd f)" using application_frame_honest [of msg] t by simp
  qed
qed

lemma same_route_inv:
  assumes inv: "mesh_inv S" and sr: "same_route (mesh_nodes S m) e"
  shows "mesh_inv (put_node m [] e S)"
proof -
  have "node_route_ok (mesh_nodes S) m (mesh_nodes S m)" using inv unfolding mesh_inv_def by blast
  from inv same_route_improves [OF sr] same_route_ok [OF sr this] show ?thesis
    by (rule put_node_inv_old) simp
qed

lemma removePeer_same: "removePeer api mac e = (ok, e') \<Longrightarrow> same_route e e'"
  by (auto simp: removePeer_def split: if_splits)

lemma setLocalNodeName_same: "same_route e (setLocalNodeName n e)"
  by (simp add: setLocalNodeName_def)

lemma registerOrUpdate_same: "registerOrUpdateDirectDownstreamNode n mac s k h e = (ok, e') \<Longrightarrow> same_route e e'"
  by (auto simp: registerOrUpdateDirectDownstreamNode_def Let_def)

lemma registerDirectDownstreamNode_same: "registerDirectDownstreamNode n mac s h e = (ok, e') \<Longrightarrow> same_route e e'"
  by (auto simp: registerDirectDownstreamNode_def split: if_splits option.splits dest: registerOrUpdate_same)

lemma refresh_same: "same_route e (refreshDirectDownstreamNodeSignalStrength mac s e)"
  by (simp add: refreshDirectDownstreamNodeSignalStrength_def)

lemma processConnectionHandshake_same: "same_route e (processConnectionHandshake api sender s m e)"
proof -
  obtain ok e1 where a: "addPeer api (msg_originMacAddress m) e = (ok, e1)" by fastforce
  have "same_route e (snd (registerOrUpdateDirectDownstreamNode n mac s k h e1))" for n mac s k h
    by (rule same_route_trans [OF addPeer_same [OF a] registerOrUpdate_same [OF prod.collapse [symmetric]]])
  then show ?thesis by (simp add: processConnectionHandshake_def Let_def a)
qed

section \<open>Every step keeps the invariant\<close>

lemma mesh_inv_node: "mesh_inv S \<Longrightarrow> node_route_ok (mesh_nodes S) m (mesh_nodes S m)"
  unfolding mesh_inv_def by blast

lemma start_inv:
  assumes inv: "mesh_inv S" and off: "\<not> esp_initialized (mesh_nodes S m)"
  shows "mesh_inv (start_node central ready m S)"
proof -
  define e where "e = mesh_nodes S m"
  have ok: "node_route_ok (mesh_nodes S) m e" unfolding e_def by (rule mesh_inv_node [OF inv])
  define e1 where "e1 = snd (esp_initialize (Some m) ready e)"
  have e1: "e1 = e \<or> (e1 = e\<lparr>esp_localMacAddress := m, esp_initialized := ready\<rparr>)"
    using off by (simp add: e1_def esp_initialize_def e_def)
  have nd: "\<not> discoveryInProgress e" using ok off by (simp add: node_route_ok_def e_def)
  have ok1: "node_route_ok (mesh_nodes S) m e1" and im1: "improves e e1"
    using e1 ok nd by (auto simp: node_route_ok_def improves_def routeAvailable_def)
  define e2 where "e2 = (if central then snd (setAsCentralNode e1) else e1)"
  have im2: "improves e1 e2"
    by (simp add: e2_def setAsCentralNode_def improves_def routeAvailable_def UNKNOWN_HOP_COUNT_def)
  have im: "improves e e2" using im1 im2 by (auto simp: improves_def)
  have nd2: "\<not> discoveryInProgress e2" using e1 nd by (auto simp: e2_def setAsCentralNode_def)
  have "node_route_ok ((mesh_nodes S)(m := e2)) m e2"
  proof (cases "e2 = e1")
    case True
    from node_route_ok_mono [OF ok1 improves_update [of "mesh_nodes S", OF im [unfolded e_def]]]
    show ?thesis unfolding True .
  next
    case False
    then have c: "centralNode e2" "centralMacAddressKnown e2" "centralMacAddress e2 = esp_localMacAddress e1"
      "hopCountToCentral e2 = 0" "\<not> upstreamNodeSelected e2" "esp_localMacAddress e2 = esp_localMacAddress e1"
      by (auto simp: e2_def setAsCentralNode_def split: if_splits)
    have "esp_localMacAddress e1 = m" using ok1 by (simp add: node_route_ok_def)
    with c nd2 show ?thesis by (simp add: node_route_ok_def)
  qed
  moreover have "start_node central ready m S = put_node m [] e2 S"
    by (simp add: start_node_def e2_def e1_def e_def Let_def)
  ultimately show ?thesis using put_node_inv [OF inv, of m e2 "[]"] im by (simp add: e_def)
qed

lemma sendTo_same: "sendTo_message api hop d t payload e = (ok, fs, e') \<Longrightarrow> same_route e e'"
  by (drule sendTo_message_cases) blast

lemma begin_inv:
  assumes inv: "mesh_inv S"
  shows "mesh_inv (begin_node api window random m S)"
proof (cases "\<not> esp_initialized (mesh_nodes S m) \<or> centralNode (mesh_nodes S m) \<or> window = 0")
  case True
  then show ?thesis
    using same_route_inv [OF inv, of m "mesh_nodes S m"] by (simp add: begin_node_def beginDiscovery_def)
next
  case False
  define e where "e = mesh_nodes S m"
  define d where "d = (if random = 0 then 1 else random)"
  define e1 where "e1 = e\<lparr>discoveryInProgress := True, activeDiscoveryId := d,
      discoveryCandidateFound := False, bestUpstreamCandidateMacAddress := zero_mac,
      bestUpstreamCandidateSignalStrengthDbm := - 128, bestUpstreamCandidateHopCount := UNKNOWN_HOP_COUNT,
      bestUpstreamCandidateCentralMacAddress := zero_mac\<rparr>"
  obtain sent fs e2 where s: "sendTo_message api BROADCAST_MAC_ADDRESS BROADCAST_MAC_ADDRESS
      DISCOVERY_REQUEST_TYPE (u32_bytes d) e1 = (sent, fs, e2)" by (metis prod_cases3)
  define e3 where "e3 = (if sent then e2 else e2\<lparr>discoveryInProgress := False\<rparr>)"
  have b: "begin_node api window random m S = put_node m fs e3 S"
    using False s by (simp add: begin_node_def beginDiscovery_def Let_def e_def d_def e1_def e3_def)
  have ok: "node_route_ok (mesh_nodes S) m e" unfolding e_def by (rule mesh_inv_node [OF inv])
  have ok1: "node_route_ok (mesh_nodes S) m e1"
    using ok False by (simp add: node_route_ok_def e1_def e_def)
  have sr: "same_route e1 e2" by (rule sendTo_same [OF s])
  have ok2: "node_route_ok (mesh_nodes S) m e2" by (rule same_route_ok [OF sr ok1])
  have ok3: "node_route_ok (mesh_nodes S) m e3" using ok2 by (simp add: e3_def node_route_ok_def)
  have "improves e e1" by (simp add: e1_def improves_def routeAvailable_def)
  moreover have "improves e2 e3" by (simp add: e3_def improves_def routeAvailable_def)
  ultimately have im: "improves e e3" using same_route_improves [OF sr] by (auto simp: improves_def)
  have fs: "honest_frame (mesh_nodes S) (snd f)" if "f \<in> set fs" for f
  proof -
    from sendTo_message_cases [OF s] that obtain msg where "snd f = frame_of_message msg"
      "msg_messageType msg = DISCOVERY_REQUEST_TYPE" by auto
    then show ?thesis using application_frame_honest [of msg] by (simp add: application_type_def)
  qed
  show ?thesis unfolding b by (rule put_node_inv_old [OF inv im [unfolded e_def] ok3 fs])
qed

lemma length_response_bytes [simp]: "length (response_bytes r) = DISCOVERY_RESPONSE_SIZE"
  by (simp add: response_bytes_def DISCOVERY_RESPONSE_SIZE_def)

lemma response_of_response_bytes [simp]: "response_of_bytes (response_bytes r) = r"
  by (simp add: response_of_bytes_def response_bytes_def)

lemma request_result:
  assumes inv: "mesh_inv S" and same: "same_route (mesh_nodes S m) e"
    and p: "processDiscoveryRequest api msg e = (fs, e')"
  shows "mesh_inv (put_node m fs e' S)"
proof (cases "routeAvailable e \<and> msg_originMacAddress msg \<noteq> esp_localMacAddress e \<and>
    length (msg_payload msg) = DISCOVERY_REQUEST_SIZE")
  case False
  then have "fs = [] \<and> e' = e" using p by (auto simp: processDiscoveryRequest_def split: if_splits)
  then show ?thesis using same_route_inv [OF inv same] by simp
next
  case True
  define r where "r = \<lparr>response_discoveryId = u32_of_bytes (msg_payload msg),
      response_hopCountToCentral = hopCountToCentral e, response_centralMacAddress = centralMacAddress e\<rparr>"
  obtain ok fs' e'' where s: "sendTo_message api BROADCAST_MAC_ADDRESS (msg_originMacAddress msg)
      DISCOVERY_RESPONSE_TYPE (response_bytes r) e = (ok, fs', e'')" by (metis prod_cases3)
  then have r: "fs' = fs" "e'' = e'" using True p by (simp_all add: processDiscoveryRequest_def r_def)
  note s = s [unfolded r]
  from sendTo_message_cases [OF s] have sr: "same_route e e'" by blast
  note sr' = same_route_trans [OF same sr]
  have ok0: "node_route_ok (mesh_nodes S) m (mesh_nodes S m)" by (rule mesh_inv_node [OF inv])
  have mac: "esp_localMacAddress e = m" using ok0 same_routeD(1) [OF same] by (simp add: node_route_ok_def)
  have hop: "hopCountToCentral e = hopCountToCentral (mesh_nodes S m)"
    and cen: "centralMacAddress e = centralMacAddress (mesh_nodes S m)"
    and av: "routeAvailable (mesh_nodes S m)"
    using same_routeD [OF same] True by (simp_all add: routeAvailable_def)
  have kn: "centralNode (mesh_nodes S (centralMacAddress e))"
    using ok0 av unfolding node_route_ok_def routeAvailable_def cen by blast
  show ?thesis
    using inv same_route_improves [OF sr'] same_route_ok [OF sr' ok0]
  proof (rule put_node_inv_old)
    fix f assume "f \<in> set fs"
    with sendTo_message_cases [OF s] obtain x where x: "snd f = frame_of_message x"
      "msg_protocolVersion x = PROTOCOL_VERSION" "msg_messageType x = DISCOVERY_RESPONSE_TYPE"
      "msg_originMacAddress x = esp_localMacAddress e" "msg_payload x = response_bytes r" by auto
    have "message_of_frame (frame_of_message x) = Some x"
      by (rule message_of_frame_of_message)
        (simp_all add: x named_type_def named_types_def DISCOVERY_RESPONSE_SIZE_def MAX_PAYLOAD_SIZE_def
          MAX_MESSAGE_SIZE_def MESSAGE_HEADER_SIZE_def)
    then show "honest_frame (mesh_nodes S) (snd f)"
      unfolding honest_frame_def x(1) using av hop kn by (simp add: x(4) x(5) mac r_def)
  qed
qed

lemma guarded_update:
  "(if a then x else if b then x else if c then x else if d then x else if g then x else if h then y else x) = z \<Longrightarrow>
   z = x \<or> \<not> a \<and> \<not> b \<and> \<not> c \<and> \<not> d \<and> \<not> g \<and> h \<and> z = y"
  by (simp split: if_splits)

lemma response_result:
  assumes inv: "mesh_inv S" and f: "f \<in> set (air S)" and m: "message_of_frame (snd f) = Some msg"
    and t: "msg_messageType msg = DISCOVERY_RESPONSE_TYPE" and same: "same_route (mesh_nodes S m) e"
  shows "mesh_inv (put_node m [] (processDiscoveryResponse signal msg e) S)"
proof (cases "processDiscoveryResponse signal msg e = e")
  case True
  then show ?thesis using same_route_inv [OF inv same] by simp
next
  case False
  define r where "r = response_of_bytes (msg_payload msg)"
  define e' where "e' = processDiscoveryResponse signal msg e"
  have ne: "e' \<noteq> e" using False by (simp add: e'_def)
  note def' = e'_def [symmetric, unfolded processDiscoveryResponse_def Let_def, folded r_def]
  note g' = guarded_update [OF def']
  then have len: "length (msg_payload msg) = DISCOVERY_RESPONSE_SIZE"
    and g: "response_hopCountToCentral r \<noteq> UNKNOWN_HOP_COUNT"
      "hopCountToCentral e = UNKNOWN_HOP_COUNT \<or> response_hopCountToCentral r < hopCountToCentral e"
    and new: "e' = e\<lparr>discoveryCandidateFound := True,
      bestUpstreamCandidateMacAddress := msg_originMacAddress msg,
      bestUpstreamCandidateSignalStrengthDbm := signal,
      bestUpstreamCandidateHopCount := response_hopCountToCentral r,
      bestUpstreamCandidateCentralMacAddress := response_centralMacAddress r\<rparr>"
    and prog: "discoveryInProgress e"
    using ne by (blast, blast, meson not_le, blast, blast)
  have "honest_frame (mesh_nodes S) (snd f)" using inv f unfolding mesh_inv_def by blast
  then have h: "routeAvailable (mesh_nodes S (msg_originMacAddress msg))"
    "unat (hopCountToCentral (mesh_nodes S (msg_originMacAddress msg))) \<le> unat (response_hopCountToCentral r)"
    "centralNode (mesh_nodes S (response_centralMacAddress r))"
    using m t len r_def unfolding honest_frame_def by blast+
  have lt: "unat (response_hopCountToCentral r) < unat (hopCountToCentral e)"
  proof (cases "hopCountToCentral e = UNKNOWN_HOP_COUNT")
    case True
    have "unat (response_hopCountToCentral r) < 65536" using unsigned_less [of "response_hopCountToCentral r", where ?'a = nat] by simp
    moreover have "unat (response_hopCountToCentral r) \<noteq> 65535"
    proof
      assume "unat (response_hopCountToCentral r) = 65535"
      then have "response_hopCountToCentral r = UNKNOWN_HOP_COUNT"
        by (intro unsigned_word_eqI [where 'a = nat]) (simp add: UNKNOWN_HOP_COUNT_def)
      with g(1) show False ..
    qed
    ultimately show ?thesis using True by (simp add: UNKNOWN_HOP_COUNT_def)
  qed (use g in \<open>simp add: word_less_nat_alt\<close>)
  have ok: "node_route_ok (mesh_nodes S) m e"
    by (rule same_route_ok [OF same mesh_inv_node [OF inv]])
  have ok': "node_route_ok (mesh_nodes S) m e'"
    using ok h lt prog by (auto simp: new node_route_ok_def)
  have im: "improves (mesh_nodes S m) e'"
    using same_route_improves [OF same] by (simp add: new improves_def routeAvailable_def)
  show ?thesis unfolding e'_def [symmetric] using inv im ok' by (rule put_node_inv_old) simp
qed

lemma deliver_inv:
  assumes inv: "mesh_inv S" and f: "f \<in> set (air S)"
  shows "mesh_inv (deliver_node api signal f m S)"
proof -
  define e1 where "e1 = refreshDirectDownstreamNodeSignalStrength (fst f) signal (mesh_nodes S m)"
  have same: "same_route (mesh_nodes S m) e1" unfolding e1_def by (rule refresh_same)
  note d = deliver_node_def processRawReceivedPacket_def Let_def e1_def [symmetric]
  note hs = same_route_trans [OF same processConnectionHandshake_same]
  show ?thesis
  proof (cases "message_of_frame (snd f)")
    case None
    then show ?thesis using same_route_inv [OF inv same] by (simp add: d)
  next
    case (Some msg)
    consider "msg_messageType msg = DISCOVERY_REQUEST_TYPE" | "msg_messageType msg = DISCOVERY_RESPONSE_TYPE"
      | "msg_messageType msg = HANDSHAKE_TYPE"
      | "msg_messageType msg \<notin> {DISCOVERY_REQUEST_TYPE, DISCOVERY_RESPONSE_TYPE, HANDSHAKE_TYPE}" by auto
    then show ?thesis
    proof cases
      case 1
      obtain fs e' where p: "processDiscoveryRequest api msg e1 = (fs, e')" by fastforce
      from request_result [OF inv same this] 1 p show ?thesis by (simp add: d Some)
    next
      case 2
      from response_result [OF inv f Some this same] 2 show ?thesis by (simp add: d Some)
    next
      case 3
      from same_route_inv [OF inv hs] 3 show ?thesis by (simp add: d Some)
    next
      case 4
      with same_route_inv [OF inv same] show ?thesis by (simp add: d Some)
    qed
  qed
qed

lemma finish_inv:
  assumes inv: "mesh_inv S" and prog: "discoveryInProgress (mesh_nodes S m)"
  shows "mesh_inv (finish_node api m S)"
proof -
  define e1 where "e1 = (mesh_nodes S m)\<lparr>discoveryInProgress := False\<rparr>"
  have ok: "node_route_ok (mesh_nodes S) m (mesh_nodes S m)" by (rule mesh_inv_node [OF inv])
  have ok1: "node_route_ok (mesh_nodes S) m e1" using ok by (simp add: e1_def node_route_ok_def)
  have im1: "improves (mesh_nodes S m) e1" by (simp add: e1_def improves_def routeAvailable_def)
  obtain added e2 where a: "addPeer api (bestUpstreamCandidateMacAddress e1) e1 = (added, e2)" by fastforce
  note sr = addPeer_same [OF a]
  have ok2: "node_route_ok (mesh_nodes S) m e2" by (rule same_route_ok [OF sr ok1])
  have im2: "improves (mesh_nodes S m) e2"
    using im1 same_route_improves [OF sr] by (auto simp: improves_def)
  note f = finish_node_def finishDiscovery_def Let_def e1_def [symmetric] a
  show ?thesis
  proof (cases "discoveryCandidateFound e1 \<and> added")
    case False
    have "mesh_inv (put_node m [] e1 S)" using inv im1 ok1 by (rule put_node_inv_old) simp
    moreover have "mesh_inv (put_node m [] e2 S)" using inv im2 ok2 by (rule put_node_inv_old) simp
    ultimately show ?thesis using False by (cases added) (simp_all add: f)
  next
    case True
    define e3 where "e3 = e2\<lparr>upstreamNodeMacAddress := bestUpstreamCandidateMacAddress e1,
        upstreamNodeSignalStrengthDbm := bestUpstreamCandidateSignalStrengthDbm e1,
        upstreamNodeSelected := True, centralMacAddress := bestUpstreamCandidateCentralMacAddress e1,
        centralMacAddressKnown := True, hopCountToCentral := bestUpstreamCandidateHopCount e1 + 1\<rparr>"
    obtain sent fs e4 where h: "sendConnectionHandshakeToUpstreamNode api e3 = (sent, fs, e4)"
      by (metis prod_cases3)
    have fin: "finish_node api m S = put_node m fs e4 S"
      using True h by (simp add: f e3_def)
    have cand: "routeAvailable (mesh_nodes S (bestUpstreamCandidateMacAddress e1))"
      "unat (hopCountToCentral (mesh_nodes S (bestUpstreamCandidateMacAddress e1))) \<le> unat (bestUpstreamCandidateHopCount e1)"
      "unat (bestUpstreamCandidateHopCount e1) < unat (hopCountToCentral e1)"
      "centralNode (mesh_nodes S (bestUpstreamCandidateCentralMacAddress e1))"
      using ok prog True unfolding node_route_ok_def e1_def by simp_all
    have small: "unat (hopCountToCentral e1) < 65536"
      using unsigned_less [of "hopCountToCentral e1", where ?'a = nat] by simp
    have plus: "unat (bestUpstreamCandidateHopCount e1 + 1) = unat (bestUpstreamCandidateHopCount e1) + 1"
      using cand(3) small by (simp add: unat_word_ariths)
    have core: "\<not> centralNode e2"
      using ok prog same_routeD(6) [OF sr] by (auto simp: node_route_ok_def e1_def)
    have ok3: "node_route_ok (mesh_nodes S) m e3"
      using ok2 cand core plus same_routeD [OF sr]
      by (auto simp: node_route_ok_def e3_def e1_def)
    have im3: "improves (mesh_nodes S m) e3"
    proof -
      have hop: "unat (hopCountToCentral e3) \<le> unat (hopCountToCentral (mesh_nodes S m))"
        using cand(3) plus by (simp add: e3_def e1_def)
      moreover have "routeAvailable e3" if "routeAvailable (mesh_nodes S m)"
      proof -
        have "unat (hopCountToCentral (mesh_nodes S m)) \<noteq> unat UNKNOWN_HOP_COUNT"
          using that unsigned_word_eqI [where 'a = nat] unfolding routeAvailable_def by blast
        moreover have "unat (hopCountToCentral (mesh_nodes S m)) \<le> 65535" using small by (simp add: e1_def)
        ultimately have "unat (hopCountToCentral e3) \<noteq> unat UNKNOWN_HOP_COUNT"
          using hop by (simp add: UNKNOWN_HOP_COUNT_def)
        then show ?thesis by (auto simp: routeAvailable_def e3_def)
      qed
      moreover have "\<not> centralNode (mesh_nodes S m)" using ok prog by (auto simp: node_route_ok_def)
      ultimately show ?thesis by (simp add: improves_def)
    qed
    have sr4: "same_route e3 e4" and fs: "\<And>x. x \<in> set fs \<Longrightarrow> honest_frame (mesh_nodes S) (snd x)"
    proof -
      have "fs = [] \<and> e4 = e3 \<or>
        (\<exists>p. sendTo_message api (upstreamNodeMacAddress e3) (upstreamNodeMacAddress e3) HANDSHAKE_TYPE p e3 = (sent, fs, e4))"
        using h by (auto simp: sendConnectionHandshakeToUpstreamNode_def split: if_splits)
      then show "same_route e3 e4" using sendTo_same same_route_refl by blast
      fix x assume x: "x \<in> set fs"
      have "\<exists>msg. snd x = frame_of_message msg \<and> msg_messageType msg = HANDSHAKE_TYPE"
        using \<open>fs = [] \<and> e4 = e3 \<or> _\<close> x sendTo_message_cases by (fastforce dest: sendTo_message_cases)
      then show "honest_frame (mesh_nodes S) (snd x)"
        using application_frame_honest by (auto simp: application_type_def)
    qed
    have im4: "improves (mesh_nodes S m) e4"
      using im3 same_route_improves [OF sr4] by (auto simp: improves_def)
    show ?thesis unfolding fin
      by (rule put_node_inv_old [OF inv im4 same_route_ok [OF sr4 ok3] fs])
  qed
qed

lemma blank_mesh_inv: "mesh_inv (blank_mesh channel)"
  by (simp add: mesh_inv_def blank_mesh_def node_route_ok_def new_EspNow_def)

lemma mesh_step_inv:
  assumes "mesh_step S S'" and inv: "mesh_inv S"
  shows "mesh_inv S'"
  using assms(1)
proof cases
  case (mesh_start m central ready)
  then show ?thesis using start_inv [OF inv] by simp
next
  case mesh_begin
  then show ?thesis using begin_inv [OF inv] by simp
next
  case mesh_finish
  then show ?thesis using finish_inv [OF inv] by simp
next
  case mesh_deliver
  then show ?thesis using deliver_inv [OF inv] by simp
next
  case mesh_send
  then show ?thesis using sendTo_inv [OF inv] by simp
next
  case (mesh_report t api payload m ok fs e)
  then have "fs = [] \<and> e = mesh_nodes S m \<or>
      sendTo_message api (upstreamNodeMacAddress (mesh_nodes S m)) (centralMacAddress (mesh_nodes S m))
        t payload (mesh_nodes S m) = (ok, fs, e)"
    by (auto simp: sendToCentral_def split: if_splits)
  then show ?thesis unfolding mesh_report(1)
    using sendTo_inv [OF inv mesh_report(2)] same_route_inv [OF inv same_route_refl] by blast
next
  case (mesh_forward f msg api hop m ok fs e)
  then have "fs = [] \<and> e = mesh_nodes S m \<or>
      sendMessageTo api hop (msg\<lparr>msg_hopsRemaining := msg_hopsRemaining msg - 1\<rparr>) (mesh_nodes S m) = (ok, fs, e)"
    by (auto simp: forwardMessageTo_def split: if_splits)
  moreover have "application_type (msg_messageType (msg\<lparr>msg_hopsRemaining := msg_hopsRemaining msg - 1\<rparr>))"
    using mesh_forward(4) by simp
  ultimately show ?thesis unfolding mesh_forward(1)
    using sendMessageTo_inv [OF inv] same_route_inv [OF inv same_route_refl] by blast
next
  case mesh_peer
  then show ?thesis using same_route_inv [OF inv] addPeer_same by simp
next
  case mesh_unpeer
  then show ?thesis using same_route_inv [OF inv] removePeer_same by simp
next
  case mesh_name
  then show ?thesis using same_route_inv [OF inv] setLocalNodeName_same by simp
next
  case mesh_downstream
  then show ?thesis using same_route_inv [OF inv] registerDirectDownstreamNode_same by simp
qed

lemma mesh_reachable_inv: "mesh_reachable S \<Longrightarrow> mesh_inv S"
  by (induction rule: mesh_reachable.induct) (auto intro: blank_mesh_inv mesh_step_inv)

lemma upstream_path_exists:
  assumes inv: "mesh_inv S"
  shows "routeAvailable (mesh_nodes S m) \<Longrightarrow> unat (hopCountToCentral (mesh_nodes S m)) \<le> n \<Longrightarrow>
    \<exists>p. upstream_path n (mesh_nodes S) m = Some p \<and> p \<noteq> [] \<and> hd p = m \<and> centralNode (mesh_nodes S (last p)) \<and>
        length p \<le> Suc n \<and>
        sorted_wrt (\<lambda>a b. unat (hopCountToCentral (mesh_nodes S b)) < unat (hopCountToCentral (mesh_nodes S a))) p"
proof (induction n arbitrary: m)
  case 0
  have ok: "node_route_ok (mesh_nodes S) m (mesh_nodes S m)" by (rule mesh_inv_node [OF inv])
  have "centralNode (mesh_nodes S m)"
    using ok 0 unfolding node_route_ok_def routeAvailable_def by auto
  then show ?case by (simp add: upstream_path.simps)
next
  case (Suc n)
  have ok: "node_route_ok (mesh_nodes S) m (mesh_nodes S m)" by (rule mesh_inv_node [OF inv])
  show ?case
  proof (cases "centralNode (mesh_nodes S m)")
    case True
    then show ?thesis by (simp add: upstream_path.simps)
  next
    case False
    define u where "u = upstreamNodeMacAddress (mesh_nodes S m)"
    have up: "upstreamNodeSelected (mesh_nodes S m)" "routeAvailable (mesh_nodes S u)"
      "unat (hopCountToCentral (mesh_nodes S u)) < unat (hopCountToCentral (mesh_nodes S m))"
      using ok Suc.prems(1) False unfolding node_route_ok_def routeAvailable_def u_def by blast+
    with Suc.prems(2) have "unat (hopCountToCentral (mesh_nodes S u)) \<le> n" by simp
    from Suc.IH [OF up(2) this] obtain p where p: "upstream_path n (mesh_nodes S) u = Some p" "p \<noteq> []" "hd p = u"
      "centralNode (mesh_nodes S (last p))" "length p \<le> Suc n"
      "sorted_wrt (\<lambda>a b. unat (hopCountToCentral (mesh_nodes S b)) < unat (hopCountToCentral (mesh_nodes S a))) p"
      by blast
    then obtain q where q: "p = u # q" by (cases p) auto
    have "upstream_path (Suc n) (mesh_nodes S) m = Some (m # p)"
      using False up(1) p(1) by (subst upstream_path.simps) (simp add: u_def)
    moreover have "sorted_wrt (\<lambda>a b. unat (hopCountToCentral (mesh_nodes S b)) < unat (hopCountToCentral (mesh_nodes S a))) (m # p)"
      using p(6) up(3) unfolding q by auto
    ultimately show ?thesis using p(2,4,5) by (intro exI [of _ "m # p"]) simp
  qed
qed

text \<open>
  C9: As long as no Node restarts, every Node that advertises a route has one: following the selected
  upstream Nodes from it reaches a Central in at most as many steps as its hop count says, the hop
  count falling at every step, so no Node is met twice. Holds for every order of discovery rounds,
  lost, delayed and repeated frames, signal strengths and application messages.
\<close>

theorem mesh_routes_reach_central:
  assumes "mesh_reachable S" and "routeAvailable (mesh_nodes S m)"
  shows "\<exists>p. upstream_path (unat (hopCountToCentral (mesh_nodes S m))) (mesh_nodes S) m = Some p \<and>
     hd p = m \<and> centralNode (mesh_nodes S (last p)) \<and> distinct p \<and>
     length p \<le> Suc (unat (hopCountToCentral (mesh_nodes S m))) \<and>
     sorted_wrt (\<lambda>a b. unat (hopCountToCentral (mesh_nodes S b)) < unat (hopCountToCentral (mesh_nodes S a))) p"
proof -
  from upstream_path_exists [OF mesh_reachable_inv [OF assms(1)] assms(2) order_refl] obtain p
    where p: "upstream_path (unat (hopCountToCentral (mesh_nodes S m))) (mesh_nodes S) m = Some p"
      "hd p = m" "centralNode (mesh_nodes S (last p))"
      "length p \<le> Suc (unat (hopCountToCentral (mesh_nodes S m)))"
      and s: "sorted_wrt (\<lambda>a b. unat (hopCountToCentral (mesh_nodes S b)) < unat (hopCountToCentral (mesh_nodes S a))) p"
    by blast
  from s have "distinct p" by (induction p) auto
  with p s show ?thesis by blast
qed

definition ready_radio :: RadioApi where
  "ready_radio = \<lparr>esp_now_add_peer = (\<lambda>_. True), esp_now_del_peer = (\<lambda>_. True), esp_now_send = (\<lambda>_ _. True),
    application_queue_has_room = True\<rparr>"

section \<open>A discovery round\<close>

definition radio_ready :: "RadioApi \<Rightarrow> bool" where
  "radio_ready api \<longleftrightarrow> esp_now_add_peer api = (\<lambda>_. True) \<and> esp_now_send api = (\<lambda>_ _. True)"

text \<open>A Node asks, one neighbour answers, the Node connects: whether it succeeded, and both states.\<close>

definition discovery_round ::
  "RadioApi \<Rightarrow> u32 \<Rightarrow> u32 \<Rightarrow> i8 \<Rightarrow> EspNow \<Rightarrow> EspNow \<Rightarrow> bool \<times> EspNow \<times> EspNow" where
  "discovery_round api window random signal e n =
     (case beginDiscovery api window random e of
        (False, _, e1) \<Rightarrow> (False, e1, n)
      | (True, fs, e1) \<Rightarrow>
          (case processRawReceivedPacket api (esp_localMacAddress e) signal (snd (last fs)) n of
             (_, rs, n1) \<Rightarrow>
               (case finishDiscovery api
                  (if rs = [] then e1
                   else snd (snd (processRawReceivedPacket api (esp_localMacAddress n) signal (snd (last rs)) e1))) of
                  (ok, _, e2) \<Rightarrow> (ok, e2, n1))))"

lemma broadcast_ready:
  assumes "esp_initialized e" and "radio_ready api" and "length payload \<le> 226"
  shows "sendTo_message api BROADCAST_MAC_ADDRESS d t payload e =
    (True, [(BROADCAST_MAC_ADDRESS, frame_of_message
       \<lparr>msg_protocolVersion = PROTOCOL_VERSION, msg_messageType = t,
        msg_messageId = nextMessageId e, msg_originMacAddress = esp_localMacAddress e,
        msg_destinationMacAddress = d, msg_hopsRemaining = DEFAULT_HOP_LIMIT, msg_payload = payload\<rparr>)],
     e\<lparr>nextMessageId := nextMessageId e + 1\<rparr>)"
  using assms
  by (simp add: sendTo_message_def buildMessage_def sendMessageTo_def radio_ready_def isBroadcastMacAddress_def
      MAX_PAYLOAD_SIZE_def MAX_MESSAGE_SIZE_def MESSAGE_HEADER_SIZE_def)

lemma refresh_fields [simp]:
  "esp_localMacAddress (refreshDirectDownstreamNodeSignalStrength mac s e) = esp_localMacAddress e"
  "esp_initialized (refreshDirectDownstreamNodeSignalStrength mac s e) = esp_initialized e"
  "discoveryInProgress (refreshDirectDownstreamNodeSignalStrength mac s e) = discoveryInProgress e"
  "activeDiscoveryId (refreshDirectDownstreamNodeSignalStrength mac s e) = activeDiscoveryId e"
  "discoveryCandidateFound (refreshDirectDownstreamNodeSignalStrength mac s e) = discoveryCandidateFound e"
  "hopCountToCentral (refreshDirectDownstreamNodeSignalStrength mac s e) = hopCountToCentral e"
  "centralMacAddress (refreshDirectDownstreamNodeSignalStrength mac s e) = centralMacAddress e"
  "centralNode (refreshDirectDownstreamNodeSignalStrength mac s e) = centralNode e"
  "nextMessageId (refreshDirectDownstreamNodeSignalStrength mac s e) = nextMessageId e"
  "routeAvailable (refreshDirectDownstreamNodeSignalStrength mac s e) = routeAvailable e"
  "upstreamNodeSelected (refreshDirectDownstreamNodeSignalStrength mac s e) = upstreamNodeSelected e"
  "upstreamNodeMacAddress (refreshDirectDownstreamNodeSignalStrength mac s e) = upstreamNodeMacAddress e"
  by (simp_all add: refreshDirectDownstreamNodeSignalStrength_def routeAvailable_def)

lemma protocol_types [simp]:
  "named_type DISCOVERY_REQUEST_TYPE" "named_type DISCOVERY_RESPONSE_TYPE" "named_type HANDSHAKE_TYPE"
  by (simp_all add: named_type_def named_types_def)

lemma MAX_PAYLOAD_SIZE_eq: "MAX_PAYLOAD_SIZE = 226"
  by (simp add: MAX_PAYLOAD_SIZE_def MAX_MESSAGE_SIZE_def MESSAGE_HEADER_SIZE_def)

lemma finishDiscovery_ready:
  assumes "esp_initialized e" and "radio_ready api" and "discoveryCandidateFound e"
    and "finishDiscovery api e = (ok, fs, e')"
  shows "ok \<and> upstreamNodeSelected e' \<and> upstreamNodeMacAddress e' = bestUpstreamCandidateMacAddress e \<and>
    centralMacAddressKnown e' \<and> centralMacAddress e' = bestUpstreamCandidateCentralMacAddress e \<and>
    hopCountToCentral e' = bestUpstreamCandidateHopCount e + 1 \<and> \<not> discoveryInProgress e' \<and>
    centralNode e' = centralNode e \<and> esp_localMacAddress e' = esp_localMacAddress e"
proof -
  define e1 where "e1 = e\<lparr>discoveryInProgress := False\<rparr>"
  obtain added e2 where a: "addPeer api (bestUpstreamCandidateMacAddress e1) e1 = (added, e2)" by fastforce
  have added: added using a assms(1,2) by (auto simp: addPeer_def e1_def radio_ready_def split: if_splits)
  note sr = addPeer_same [OF a]
  define e3 where "e3 = e2\<lparr>upstreamNodeMacAddress := bestUpstreamCandidateMacAddress e1,
      upstreamNodeSignalStrengthDbm := bestUpstreamCandidateSignalStrengthDbm e1,
      upstreamNodeSelected := True, centralMacAddress := bestUpstreamCandidateCentralMacAddress e1,
      centralMacAddressKnown := True, hopCountToCentral := bestUpstreamCandidateHopCount e1 + 1\<rparr>"
  obtain sent fs' e4 where h: "sendConnectionHandshakeToUpstreamNode api e3 = (sent, fs', e4)"
    by (metis prod_cases3)
  have sr4: "same_route e3 e4"
    using h sendTo_same same_route_refl unfolding sendConnectionHandshakeToUpstreamNode_def
    by (metis prod.inject)
  have "discoveryCandidateFound e1" using assms(3) by (simp add: e1_def)
  then have "finishDiscovery api e = (True, fs', e4)"
    unfolding finishDiscovery_def Let_def e1_def [symmetric] using added h by (simp add: a e3_def [symmetric])
  then have "ok \<and> e' = e4" using assms(4) by simp
  then show ?thesis
    using same_routeD [OF sr4] same_routeD [OF sr] by (simp add: e3_def) (simp add: e1_def)
qed

lemma betterCandidate_first: "\<not> discoveryCandidateFound e \<Longrightarrow> betterCandidate h s e"
  by (simp add: betterCandidate_def)

lemma discovery_round_result:
  assumes init: "esp_initialized e" "\<not> centralNode e" "window \<noteq> 0" and radio: "radio_ready api"
    and n: "esp_initialized n" "routeAvailable n" "esp_localMacAddress n \<noteq> esp_localMacAddress e"
    and hop: "hopCountToCentral e = UNKNOWN_HOP_COUNT \<or> hopCountToCentral n < hopCountToCentral e"
    and r: "discovery_round api window random signal e n = (ok, e', n')"
  shows "ok \<and> upstreamNodeSelected e' \<and> upstreamNodeMacAddress e' = esp_localMacAddress n \<and>
    centralMacAddressKnown e' \<and> centralMacAddress e' = centralMacAddress n \<and>
    hopCountToCentral e' = hopCountToCentral n + 1 \<and> \<not> discoveryInProgress e' \<and>
    \<not> centralNode e' \<and> esp_localMacAddress e' = esp_localMacAddress e \<and> same_route n n' \<and>
    (\<exists>q a e1 e3 fs. beginDiscovery api window random e = (True, [(BROADCAST_MAC_ADDRESS, q)], e1) \<and>
       processRawReceivedPacket api (esp_localMacAddress e) signal q n = (None, [(BROADCAST_MAC_ADDRESS, a)], n') \<and>
       processRawReceivedPacket api (esp_localMacAddress n) signal a e1 = (None, [], e3) \<and>
       discoveryInProgress e3 \<and> finishDiscovery api e3 = (ok, fs, e'))"
proof -
  define d where "d = (if random = 0 then 1 else random)"
  define e0 where "e0 = e\<lparr>discoveryInProgress := True, activeDiscoveryId := d,
      discoveryCandidateFound := False, bestUpstreamCandidateMacAddress := zero_mac,
      bestUpstreamCandidateSignalStrengthDbm := - 128, bestUpstreamCandidateHopCount := UNKNOWN_HOP_COUNT,
      bestUpstreamCandidateCentralMacAddress := zero_mac\<rparr>"
  define q where "q = \<lparr>msg_protocolVersion = PROTOCOL_VERSION, msg_messageType = DISCOVERY_REQUEST_TYPE,
        msg_messageId = nextMessageId e, msg_originMacAddress = esp_localMacAddress e,
        msg_destinationMacAddress = BROADCAST_MAC_ADDRESS, msg_hopsRemaining = DEFAULT_HOP_LIMIT,
        msg_payload = u32_bytes d\<rparr>"
  define e1 where "e1 = e0\<lparr>nextMessageId := nextMessageId e + 1\<rparr>"
  have "beginDiscovery api window random e = (True, [(BROADCAST_MAC_ADDRESS, frame_of_message q)], e1)"
    using init broadcast_ready [OF _ radio, of e0 "u32_bytes d" BROADCAST_MAC_ADDRESS DISCOVERY_REQUEST_TYPE]
    by (simp add: beginDiscovery_def Let_def d_def [symmetric] e0_def [symmetric])
      (simp add: e0_def e1_def q_def)
  note begun = this
  have qf: "message_of_frame (frame_of_message q) = Some q"
    by (rule message_of_frame_of_message) (simp_all add: q_def MAX_PAYLOAD_SIZE_eq)
  define n0 where "n0 = refreshDirectDownstreamNodeSignalStrength (esp_localMacAddress e) signal n"
  define resp where "resp = \<lparr>response_discoveryId = d, response_hopCountToCentral = hopCountToCentral n,
      response_centralMacAddress = centralMacAddress n\<rparr>"
  define a where "a = \<lparr>msg_protocolVersion = PROTOCOL_VERSION, msg_messageType = DISCOVERY_RESPONSE_TYPE,
        msg_messageId = nextMessageId n, msg_originMacAddress = esp_localMacAddress n,
        msg_destinationMacAddress = esp_localMacAddress e, msg_hopsRemaining = DEFAULT_HOP_LIMIT,
        msg_payload = response_bytes resp\<rparr>"
  define n1 where "n1 = n0\<lparr>nextMessageId := nextMessageId n + 1\<rparr>"
  have "processDiscoveryRequest api q n0 = ([(BROADCAST_MAC_ADDRESS, frame_of_message a)], n1)"
    using n broadcast_ready [OF _ radio, of n0 "response_bytes resp" "esp_localMacAddress e" DISCOVERY_RESPONSE_TYPE]
    by (simp add: processDiscoveryRequest_def q_def DISCOVERY_REQUEST_SIZE_def DISCOVERY_RESPONSE_SIZE_def n0_def)
      (simp add: resp_def a_def n1_def n0_def)
  then have answer: "processRawReceivedPacket api (esp_localMacAddress e) signal (frame_of_message q) n =
      (None, [(BROADCAST_MAC_ADDRESS, frame_of_message a)], n1)"
    using qf by (simp add: processRawReceivedPacket_def n0_def Let_def) (simp add: q_def)
  have af: "message_of_frame (frame_of_message a) = Some a"
    by (rule message_of_frame_of_message) (simp_all add: a_def MAX_PAYLOAD_SIZE_eq DISCOVERY_RESPONSE_SIZE_def)
  define e2 where "e2 = refreshDirectDownstreamNodeSignalStrength (esp_localMacAddress n) signal e1"
  define e3 where "e3 = e2\<lparr>discoveryCandidateFound := True,
      bestUpstreamCandidateMacAddress := esp_localMacAddress n,
      bestUpstreamCandidateSignalStrengthDbm := signal,
      bestUpstreamCandidateHopCount := hopCountToCentral n,
      bestUpstreamCandidateCentralMacAddress := centralMacAddress n\<rparr>"
  have e2: "esp_localMacAddress e2 = esp_localMacAddress e" "discoveryInProgress e2" "activeDiscoveryId e2 = d"
    "\<not> discoveryCandidateFound e2" "hopCountToCentral e2 = hopCountToCentral e" "esp_initialized e2"
    "centralNode e2 = centralNode e"
    using init by (simp_all add: e2_def e1_def e0_def)
  have "hopCountToCentral n \<noteq> UNKNOWN_HOP_COUNT" using n(2) by (simp add: routeAvailable_def)
  then have "processDiscoveryResponse signal a e2 = e3"
    using hop e2 by (auto simp: processDiscoveryResponse_def a_def resp_def e3_def Let_def betterCandidate_first)
  then have heard: "processRawReceivedPacket api (esp_localMacAddress n) signal (frame_of_message a) e1 = (None, [], e3)"
    using af by (simp add: processRawReceivedPacket_def e2_def [symmetric] Let_def) (simp add: a_def)
  obtain fs where f: "finishDiscovery api e3 = (ok, fs, e')" and n': "n' = n1"
    using r by (auto simp: discovery_round_def begun answer heard split: prod.splits)
  have "same_route n n1"
    using same_route_trans [OF refresh_same same_route_id] by (simp add: n1_def n0_def)
  moreover have "discoveryInProgress e3" using e2 by (simp add: e3_def)
  moreover note finishDiscovery_ready [OF _ radio _ f] e2 init(2) n'
  ultimately show ?thesis
    apply (intro conjI)
             apply (simp_all add: e3_def)[10]
    using begun answer heard f n' by blast
qed

text \<open>The same round in a network.\<close>

lemma join_reachable:
  assumes reach: "mesh_reachable S" and "m \<noteq> a"
    and r: "discovery_round api window random signal (mesh_nodes S m) (mesh_nodes S a) = (ok, e', n')"
    and init: "esp_initialized (mesh_nodes S m)" "\<not> centralNode (mesh_nodes S m)" "window \<noteq> 0"
    and radio: "radio_ready api"
    and n: "esp_initialized (mesh_nodes S a)" "routeAvailable (mesh_nodes S a)"
    and hop: "hopCountToCentral (mesh_nodes S m) = UNKNOWN_HOP_COUNT \<or>
              hopCountToCentral (mesh_nodes S a) < hopCountToCentral (mesh_nodes S m)"
  obtains S' where "mesh_reachable S'" "mesh_nodes S' = (mesh_nodes S)(m := e', a := n')"
proof -
  have mac: "esp_localMacAddress (mesh_nodes S x) = x" for x
    using mesh_inv_node [OF mesh_reachable_inv [OF reach], of x] by (simp add: node_route_ok_def)
  then have ne: "esp_localMacAddress (mesh_nodes S a) \<noteq> esp_localMacAddress (mesh_nodes S m)"
    using \<open>m \<noteq> a\<close> by simp
  from discovery_round_result [OF init radio n ne hop r] obtain q b e1 e3 fs where
    q: "beginDiscovery api window random (mesh_nodes S m) = (True, [(BROADCAST_MAC_ADDRESS, q)], e1)" and
    b: "processRawReceivedPacket api m signal q (mesh_nodes S a) = (None, [(BROADCAST_MAC_ADDRESS, b)], n')" and
    h: "processRawReceivedPacket api a signal b e1 = (None, [], e3)" and
    p: "discoveryInProgress e3" and f: "finishDiscovery api e3 = (ok, fs, e')"
    unfolding mac by blast
  define S1 where "S1 = begin_node api window random m S"
  define S2 where "S2 = deliver_node api signal (m, q) a S1"
  define S3 where "S3 = deliver_node api signal (a, b) m S2"
  define S4 where "S4 = finish_node api m S3"
  have S1: "mesh_nodes S1 = (mesh_nodes S)(m := e1)" "(m, q) \<in> set (air S1)"
    by (simp_all add: S1_def begin_node_def q put_node_def)
  have S2: "mesh_nodes S2 = (mesh_nodes S)(m := e1, a := n')" "(a, b) \<in> set (air S2)"
    using S1 \<open>m \<noteq> a\<close> by (simp_all add: S2_def deliver_node_def b put_node_def)
  have S3: "mesh_nodes S3 = (mesh_nodes S)(a := n', m := e3)"
    using S2 \<open>m \<noteq> a\<close> by (simp add: S3_def deliver_node_def h put_node_def fun_upd_twist)
  have S4: "mesh_nodes S4 = (mesh_nodes S)(m := e', a := n')"
    using S3 \<open>m \<noteq> a\<close> by (simp add: S4_def finish_node_def f put_node_def fun_upd_twist)
  have "mesh_reachable S1" unfolding S1_def by (rule reach_step [OF reach mesh_begin])
  then have "mesh_reachable S2" unfolding S2_def by (rule reach_step [OF _ mesh_deliver [OF S1(2)]])
  then have "mesh_reachable S3" unfolding S3_def by (rule reach_step [OF _ mesh_deliver [OF S2(2)]])
  then have "mesh_reachable S4" unfolding S4_def by (rule reach_step [OF _ mesh_finish]) (simp add: S3 p)
  then show thesis using S4 by (rule that)
qed

section \<open>Joining, and restarting\<close>

text \<open>
  C10: In every network without restarts, a started Node that is not the Central and has no route, or a longer
  one, can join through any neighbour that has a route: when the radio works and nobody else answers, one
  discovery round succeeds and leads to a network in which the Node has selected that neighbour, its
  hop count is the neighbour's plus one, and it knows the same Central. Nobody else's route changes.
\<close>

theorem discovery_round_joins:
  assumes "mesh_reachable S" and "m \<noteq> a"
    and "esp_initialized (mesh_nodes S m)" "\<not> centralNode (mesh_nodes S m)" "window \<noteq> 0"
    and "radio_ready api"
    and "esp_initialized (mesh_nodes S a)" "routeAvailable (mesh_nodes S a)"
    and "hopCountToCentral (mesh_nodes S m) = UNKNOWN_HOP_COUNT \<or>
         hopCountToCentral (mesh_nodes S a) < hopCountToCentral (mesh_nodes S m)"
  shows "\<exists>S' e'. mesh_reachable S' \<and>
     fst (discovery_round api window random signal (mesh_nodes S m) (mesh_nodes S a)) \<and>
     mesh_nodes S' m = e' \<and> (\<forall>x. x = m \<or> x = a \<or> mesh_nodes S' x = mesh_nodes S x) \<and>
     same_route (mesh_nodes S a) (mesh_nodes S' a) \<and>
     upstreamNodeSelected e' \<and> upstreamNodeMacAddress e' = a \<and>
     hopCountToCentral e' = hopCountToCentral (mesh_nodes S a) + 1 \<and>
     centralMacAddressKnown e' \<and> centralMacAddress e' = centralMacAddress (mesh_nodes S a)"
proof -
  obtain ok e' n' where r: "discovery_round api window random signal (mesh_nodes S m) (mesh_nodes S a) = (ok, e', n')"
    by (metis prod_cases3)
  obtain S' where S': "mesh_reachable S'" "mesh_nodes S' = (mesh_nodes S)(m := e', a := n')"
    by (rule join_reachable [OF assms(1,2) r assms(3-9)])
  have mac: "esp_localMacAddress (mesh_nodes S x) = x" for x
    using mesh_inv_node [OF mesh_reachable_inv [OF assms(1)], of x] by (simp add: node_route_ok_def)
  have ne: "esp_localMacAddress (mesh_nodes S a) \<noteq> esp_localMacAddress (mesh_nodes S m)"
    using \<open>m \<noteq> a\<close> mac by simp
  note res = discovery_round_result [OF assms(3-8) ne assms(9) r]
  show ?thesis
    using S' res r mac \<open>m \<noteq> a\<close> by (intro exI [of _ S'] exI [of _ e']) simp
qed

lemma start_reachable:
  "mesh_reachable S \<Longrightarrow> \<not> esp_initialized (mesh_nodes S m) \<Longrightarrow> mesh_reachable (start_node c r m S)"
  by (rule reach_step [OF _ mesh_start])

definition mac_of_nat :: "nat \<Rightarrow> MacAddress" where
  "mac_of_nat n = (2, 0, 0, 0, 0, of_nat n)"

definition example_mesh :: MeshState where
  "example_mesh = start_node False True (mac_of_nat 2) (start_node True True (mac_of_nat 1) (blank_mesh (\<lambda>_. 6)))"

lemma ready_radio: "radio_ready ready_radio"
  by (simp add: radio_ready_def ready_radio_def)

lemma example_mesh_reachable: "mesh_reachable example_mesh"
  unfolding example_mesh_def
  by (intro start_reachable reach_blank)
    (simp_all add: start_node_def put_node_def blank_mesh_def new_EspNow_def mac_of_nat_def)

lemma example_mesh_nodes:
  "esp_initialized (mesh_nodes example_mesh (mac_of_nat 2))"
  "\<not> centralNode (mesh_nodes example_mesh (mac_of_nat 2))"
  "esp_initialized (mesh_nodes example_mesh (mac_of_nat 1))"
  "routeAvailable (mesh_nodes example_mesh (mac_of_nat 1))"
  "hopCountToCentral (mesh_nodes example_mesh (mac_of_nat 1)) = 0"
  "hopCountToCentral (mesh_nodes example_mesh (mac_of_nat 2)) = UNKNOWN_HOP_COUNT"
  by (simp_all add: example_mesh_def start_node_def put_node_def blank_mesh_def new_EspNow_def mac_of_nat_def
      esp_initialize_def setAsCentralNode_def routeAvailable_def UNKNOWN_HOP_COUNT_def)

lemma example_macs: "mac_of_nat 2 \<noteq> mac_of_nat 1"
  by (simp add: mac_of_nat_def)

lemma discovery_round_joins_witness:
  "\<exists>S'. mesh_reachable S' \<and> upstreamNodeMacAddress (mesh_nodes S' (mac_of_nat 2)) = mac_of_nat 1 \<and>
     hopCountToCentral (mesh_nodes S' (mac_of_nat 2)) = 1"
proof -
  have w: "(2000 :: u32) \<noteq> 0" by simp
  show ?thesis
    using discovery_round_joins [OF example_mesh_reachable example_macs example_mesh_nodes(1,2) w ready_radio
        example_mesh_nodes(3,4) disjI1 [OF example_mesh_nodes(6)], where random = 7 and signal = "- 50"]
    unfolding example_mesh_nodes(5) by (elim exE conjE) (intro exI conjI, assumption, simp, simp)
qed

lemma joined_mesh:
  obtains S where "mesh_reachable S" "routeAvailable (mesh_nodes S (mac_of_nat 2))"
    "hopCountToCentral (mesh_nodes S (mac_of_nat 2)) = 1" "\<not> centralNode (mesh_nodes S (mac_of_nat 2))"
proof -
  obtain ok e' n' where r: "discovery_round ready_radio 2000 7 (- 50) (mesh_nodes example_mesh (mac_of_nat 2))
      (mesh_nodes example_mesh (mac_of_nat 1)) = (ok, e', n')"
    by (metis prod_cases3)
  obtain S where S: "mesh_reachable S"
    "mesh_nodes S = (mesh_nodes example_mesh)(mac_of_nat 2 := e', mac_of_nat 1 := n')"
    by (rule join_reachable [OF example_mesh_reachable example_macs r example_mesh_nodes(1,2) _ ready_radio
          example_mesh_nodes(3,4)]) (simp_all add: example_mesh_nodes)
  have mac: "esp_localMacAddress (mesh_nodes example_mesh x) = x" for x
    using mesh_inv_node [OF mesh_reachable_inv [OF example_mesh_reachable], of x] by (simp add: node_route_ok_def)
  have "hopCountToCentral e' = 1" "centralMacAddressKnown e'" "\<not> centralNode e'"
    using discovery_round_result [OF example_mesh_nodes(1,2) _ ready_radio example_mesh_nodes(3,4) _ _ r] mac
      example_macs example_mesh_nodes(5,6) by simp_all
  with S example_macs show thesis by (intro that [of S]) (simp_all add: routeAvailable_def UNKNOWN_HOP_COUNT_def)
qed

lemma mesh_routes_reach_central_witness:
  "\<exists>S p. mesh_reachable S \<and> \<not> centralNode (mesh_nodes S (mac_of_nat 2)) \<and>
     upstream_path 1 (mesh_nodes S) (mac_of_nat 2) = Some p \<and> centralNode (mesh_nodes S (last p))"
proof -
  obtain S where S: "mesh_reachable S" "routeAvailable (mesh_nodes S (mac_of_nat 2))"
    "hopCountToCentral (mesh_nodes S (mac_of_nat 2)) = 1" "\<not> centralNode (mesh_nodes S (mac_of_nat 2))"
    by (rule joined_mesh)
  show ?thesis using mesh_routes_reach_central [OF S(1,2)] S(1,3,4) by auto
qed

text \<open>
  C36: What a restart breaks. A Node that restarts has no hop count any more, so the check that a candidate be
  nearer to Central than itself does not apply, and it accepts the answer of the very Node that
  reaches Central through it: one discovery round with such a descendant succeeds, the two Nodes name each
  other as upstream, and no number of hops leads from either to a Central.
\<close>

theorem restart_selects_descendant:
  assumes n: "esp_initialized n" "routeAvailable n" "\<not> centralNode n"
      "upstreamNodeSelected n" "upstreamNodeMacAddress n = m" "esp_localMacAddress n \<noteq> m"
    and restarted: "esp_initialize (Some m) True (new_EspNow channel zero_mac) = (True, e)"
    and "window \<noteq> 0" and "radio_ready api"
    and r: "discovery_round api window random signal e n = (ok, e', n')"
    and N: "N m = e'" "N (esp_localMacAddress n) = n'"
  shows "ok \<and> upstreamNodeMacAddress e' = esp_localMacAddress n \<and> upstreamNodeMacAddress n' = m \<and>
     routeAvailable n' \<and> upstream_path k N m = None \<and> upstream_path k N (esp_localMacAddress n) = None"
proof -
  have e: "esp_initialized e" "\<not> centralNode e" "hopCountToCentral e = UNKNOWN_HOP_COUNT" "esp_localMacAddress e = m"
    using restarted by (auto simp: esp_initialize_def new_EspNow_def split: if_splits)
  have "esp_localMacAddress n \<noteq> esp_localMacAddress e" using n(6) e(4) by simp
  from discovery_round_result [OF e(1,2) assms(8,9) n(1,2) this disjI1 [OF e(3)] r]
  have res: "ok" "upstreamNodeSelected e'" "upstreamNodeMacAddress e' = esp_localMacAddress n" "\<not> centralNode e'"
    and sr: "same_route n n'" by blast+
  have n': "upstreamNodeSelected n'" "upstreamNodeMacAddress n' = m" "\<not> centralNode n'" "routeAvailable n'"
    using same_routeD [OF sr] n by (simp_all add: routeAvailable_def)
  have "upstream_path k N m = None \<and> upstream_path k N (esp_localMacAddress n) = None"
  proof (induction k)
    case 0
    show ?case using N res n' by (simp add: upstream_path.simps)
  next
    case (Suc k)
    with N res n' show ?case
      by (subst upstream_path.simps, subst (2) upstream_path.simps) simp
  qed
  with res n' show ?thesis by simp
qed

definition example_descendant :: EspNow where
  "example_descendant =
     (new_EspNow 6 (mac_of_nat 3))\<lparr>esp_initialized := True, upstreamNodeSelected := True,
        upstreamNodeMacAddress := mac_of_nat 2, centralMacAddressKnown := True,
        centralMacAddress := mac_of_nat 1, hopCountToCentral := 2\<rparr>"

lemma restart_selects_descendant_witness:
  "\<exists>e' n'. discovery_round ready_radio 2000 7 (- 50)
       ((new_EspNow 6 zero_mac)\<lparr>esp_localMacAddress := mac_of_nat 2, esp_initialized := True\<rparr>) example_descendant =
     (True, e', n') \<and>
   upstreamNodeMacAddress e' = mac_of_nat 3 \<and> upstreamNodeMacAddress n' = mac_of_nat 2 \<and>
   upstream_path 16 (\<lambda>x. if x = mac_of_nat 2 then e' else n') (mac_of_nat 2) = None"
proof -
  define e where "e = (new_EspNow 6 zero_mac)\<lparr>esp_localMacAddress := mac_of_nat 2, esp_initialized := True\<rparr>"
  obtain ok e' n' where r: "discovery_round ready_radio 2000 7 (- 50) e example_descendant = (ok, e', n')"
    by (metis prod_cases3)
  have s: "esp_initialize (Some (mac_of_nat 2)) True (new_EspNow 6 zero_mac) = (True, e)"
    by (simp add: e_def esp_initialize_def new_EspNow_def)
  define N where "N = (\<lambda>x. if x = mac_of_nat 2 then e' else n')"
  have d: "esp_initialized example_descendant" "routeAvailable example_descendant" "\<not> centralNode example_descendant"
    "upstreamNodeSelected example_descendant" "upstreamNodeMacAddress example_descendant = mac_of_nat 2"
    "esp_localMacAddress example_descendant \<noteq> mac_of_nat 2" "esp_localMacAddress example_descendant = mac_of_nat 3"
    by (simp_all add: example_descendant_def new_EspNow_def routeAvailable_def UNKNOWN_HOP_COUNT_def mac_of_nat_def)
  have w: "(2000 :: u32) \<noteq> 0" by simp
  have N: "N (mac_of_nat 2) = e'" "N (esp_localMacAddress example_descendant) = n'"
    using d(6) by (simp_all add: N_def)
  from restart_selects_descendant [OF d(1-6) s w ready_radio r N, of 16] r d(7)
  show ?thesis unfolding e_def [symmetric] N_def by (intro exI [of _ e'] exI [of _ n']) simp
qed

section \<open>Delivery and forwarding\<close>

lemma processRaw_application:
  assumes "message_of_frame bs = Some m"
    and "msg_messageType m \<notin> {DISCOVERY_REQUEST_TYPE, DISCOVERY_RESPONSE_TYPE, HANDSHAKE_TYPE}"
  shows "processRawReceivedPacket api sender signal bs e =
    (if application_queue_has_room api then Some m else None, [],
     refreshDirectDownstreamNodeSignalStrength sender signal e)"
  using assms by (simp add: processRawReceivedPacket_def Let_def)

lemma sendTo_arrives:
  assumes "sendTo_message api hop d t payload e = (True, fs, e')" and "named_type t"
    and "t \<notin> {DISCOVERY_REQUEST_TYPE, DISCOVERY_RESPONSE_TYPE, HANDSHAKE_TYPE}"
  shows "\<exists>bs m r'. fs = [(hop, bs)] \<and> length bs \<le> MAX_MESSAGE_SIZE \<and>
     processRawReceivedPacket api' (esp_localMacAddress e) signal bs r =
       (if application_queue_has_room api' then Some m else None, [], r') \<and>
     msg_messageType m = t \<and> msg_payload m = payload \<and> msg_destinationMacAddress m = d \<and>
     msg_originMacAddress m = esp_localMacAddress e \<and> msg_hopsRemaining m = DEFAULT_HOP_LIMIT"
proof -
  from sendTo_message_cases [OF assms(1)] obtain m where m: "fs = [(hop, frame_of_message m)]"
    "msg_protocolVersion m = PROTOCOL_VERSION" "msg_messageType m = t"
    "msg_originMacAddress m = esp_localMacAddress e" "msg_destinationMacAddress m = d"
    "msg_hopsRemaining m = DEFAULT_HOP_LIMIT" "msg_payload m = payload" "length payload \<le> MAX_PAYLOAD_SIZE"
    by auto
  have "message_of_frame (frame_of_message m) = Some m"
    using m assms(2) by (intro message_of_frame_of_message) simp_all
  from processRaw_application [OF this] assms(3) m have
    "processRawReceivedPacket api' (esp_localMacAddress e) signal (frame_of_message m) r =
      (if application_queue_has_room api' then Some m else None, [],
       refreshDirectDownstreamNodeSignalStrength (esp_localMacAddress e) signal r)" by simp
  moreover have "length (frame_of_message m) \<le> MAX_MESSAGE_SIZE"
    using m by (simp add: length_frame MAX_PAYLOAD_SIZE_def MAX_MESSAGE_SIZE_def MESSAGE_HEADER_SIZE_def)
  ultimately show ?thesis using m by blast
qed

text \<open>
  C27: What is sent arrives. A message of an application type that \<open>sendTo\<close> reports as sent went out as one frame
  of at most 250 bytes to the next hop, and the Node that receives this frame hands its application
  the same type, payload, origin and destination with the full hop limit, whatever the payload; only
  when the queue of its application is full is the message dropped.
\<close>

theorem message_delivered:
  assumes "sendTo_message api hop d t payload e = (True, fs, e')" and "named_type t"
    and "t \<notin> {DISCOVERY_REQUEST_TYPE, DISCOVERY_RESPONSE_TYPE, HANDSHAKE_TYPE}"
  shows "\<exists>bs m r'. fs = [(hop, bs)] \<and> length bs \<le> MAX_MESSAGE_SIZE \<and>
     processRawReceivedPacket api' (esp_localMacAddress e) signal bs r =
       (if application_queue_has_room api' then Some m else None, [], r') \<and>
     msg_messageType m = t \<and> msg_payload m = payload \<and> msg_destinationMacAddress m = d \<and>
     msg_originMacAddress m = esp_localMacAddress e \<and> msg_hopsRemaining m = DEFAULT_HOP_LIMIT"
  by (rule sendTo_arrives [OF assms])

definition example_sender :: EspNow where
  "example_sender = (new_EspNow 6 (2, 0, 0, 0, 0, 9))\<lparr>esp_initialized := True\<rparr>"

lemma message_delivered_witness:
  "\<exists>bs m r'. sendTo_message \<lparr>esp_now_add_peer = (\<lambda>_. True), esp_now_del_peer = (\<lambda>_. True), esp_now_send = (\<lambda>_ _. True),
    application_queue_has_room = True\<rparr>
        (2, 0, 0, 0, 0, 8) (2, 0, 0, 0, 0, 8) RELAY_COMMAND_TYPE [1, 2, 3] example_sender =
      (True, [((2, 0, 0, 0, 0, 8), bs)],
       example_sender\<lparr>nextMessageId := 2, esp_peers := [(2, 0, 0, 0, 0, 8)]\<rparr>) \<and>
    processRawReceivedPacket ready_radio (2, 0, 0, 0, 0, 9) (- 40) bs example_sender = (Some m, [], r') \<and>
    msg_payload m = [1, 2, 3]"
proof -
  define api where "api = \<lparr>esp_now_add_peer = (\<lambda>_ :: MacAddress. True), esp_now_del_peer = (\<lambda>_ :: MacAddress. True),
      esp_now_send = (\<lambda>_ (_ :: u8 list). True),
      application_queue_has_room = True\<rparr>"
  obtain bs where s: "sendTo_message api (2, 0, 0, 0, 0, 8) (2, 0, 0, 0, 0, 8) RELAY_COMMAND_TYPE [1, 2, 3] example_sender =
      (True, [((2, 0, 0, 0, 0, 8), bs)],
       example_sender\<lparr>nextMessageId := 2, esp_peers := [(2, 0, 0, 0, 0, 8)]\<rparr>)"
    by (simp add: sendTo_message_def buildMessage_def sendMessageTo_def addPeer_def hasPeer_def example_sender_def
        new_EspNow_def isBroadcastMacAddress_def BROADCAST_MAC_ADDRESS_def MAX_PAYLOAD_SIZE_def
        MAX_MESSAGE_SIZE_def MESSAGE_HEADER_SIZE_def api_def)
  have "named_type RELAY_COMMAND_TYPE" by (simp add: named_type_def named_types_def)
  from message_delivered [OF s this, of ready_radio "- 40" example_sender] s
  moreover have "application_queue_has_room ready_radio" by (simp add: ready_radio_def)
  ultimately show ?thesis unfolding api_def [symmetric] by (auto simp: example_sender_def new_EspNow_def)
qed

text \<open>A message on its way: every hop forwards what the previous one's frame says.\<close>

fun forward_run :: "(RadioApi \<times> MacAddress \<times> EspNow) list \<Rightarrow> EspMessage \<Rightarrow> EspMessage option" where
  "forward_run [] m = Some m"
| "forward_run ((api, hop, e) # rs) m =
     (case forwardMessageTo api hop m e of
        (True, [(_, bs)], _) \<Rightarrow> Option.bind (message_of_frame bs) (forward_run rs)
      | _ \<Rightarrow> None)"

lemma forward_step:
  assumes f: "forwardMessageTo api hop m e = (ok, fs, e')" and "fs \<noteq> []"
    and "msg_protocolVersion m = PROTOCOL_VERSION" and "named_type (msg_messageType m)"
  shows "msg_hopsRemaining m \<noteq> 0 \<and> (\<exists>bs. fs = [(hop, bs)] \<and>
     message_of_frame bs = Some (m\<lparr>msg_hopsRemaining := msg_hopsRemaining m - 1\<rparr>))"
proof -
  define m1 where "m1 = m\<lparr>msg_hopsRemaining := msg_hopsRemaining m - 1\<rparr>"
  have h: "msg_hopsRemaining m \<noteq> 0" and len: "length (msg_payload m) \<le> MAX_PAYLOAD_SIZE"
    and s: "sendMessageTo api hop m1 e = (ok, fs, e')"
    using f \<open>fs \<noteq> []\<close> by (auto simp: forwardMessageTo_def m1_def split: if_splits)
  have "message_of_frame (frame_of_message m1) = Some m1"
    using assms(3,4) len by (intro message_of_frame_of_message) (simp_all add: m1_def)
  moreover have "fs = [(hop, frame_of_message m1)]" using sendMessageTo_cases [OF s] \<open>fs \<noteq> []\<close> by blast
  ultimately show ?thesis using h unfolding m1_def by blast
qed

text \<open>
  C32: A message is forwarded at most as often as its hop limit says: after any number of successful forwards it is the
  message that was sent, with the limit lowered by that number, and no Node forwards it any further when the
  limit is used up. So no frame circulates for ever, not even on the loops a restart can build.
\<close>

theorem forward_hop_limit:
  assumes "forward_run rs m = Some m'"
    and "msg_protocolVersion m = PROTOCOL_VERSION" and "named_type (msg_messageType m)"
  shows "length rs \<le> unat (msg_hopsRemaining m) \<and>
     m' = m\<lparr>msg_hopsRemaining := msg_hopsRemaining m - of_nat (length rs)\<rparr>"
  using assms
proof (induction rs m rule: forward_run.induct)
  case (2 api hop e rs m)
  obtain ok fs e' where f: "forwardMessageTo api hop m e = (ok, fs, e')" by (metis prod_cases3)
  have "fs \<noteq> []" using "2.prems"(1) f by (auto split: bool.splits)
  from forward_step [OF f this "2.prems"(2,3)] obtain bs where h: "msg_hopsRemaining m \<noteq> 0" and fs: "fs = [(hop, bs)]"
    and bs: "message_of_frame bs = Some (m\<lparr>msg_hopsRemaining := msg_hopsRemaining m - 1\<rparr>)" by blast
  have ok: ok using "2.prems"(1) f fs by (auto split: bool.splits)
  define m1 where "m1 = m\<lparr>msg_hopsRemaining := msg_hopsRemaining m - 1\<rparr>"
  have run: "forward_run rs m1 = Some m'" using "2.prems"(1) f fs ok bs by (simp add: m1_def)
  have "msg_protocolVersion m1 = PROTOCOL_VERSION" "named_type (msg_messageType m1)"
    using "2.prems"(2,3) by (simp_all add: m1_def)
  have ih: "length rs \<le> unat (msg_hopsRemaining m1) \<and>
      m' = m1\<lparr>msg_hopsRemaining := msg_hopsRemaining m1 - of_nat (length rs)\<rparr>"
    by (rule "2.IH") (use f fs ok bs run "2.prems" in \<open>simp_all add: m1_def\<close>)
  have "unat (msg_hopsRemaining m - 1) = unat (msg_hopsRemaining m) - 1" "unat (msg_hopsRemaining m) \<noteq> 0"
    using h by (simp_all add: unat_minus_one unat_eq_zero)
  with ih have "Suc (length rs) \<le> unat (msg_hopsRemaining m)" by (simp add: m1_def) linarith
  with ih show ?case by (simp add: m1_def)
qed simp

lemma forward_hop_limit_witness:
  "\<exists>m'. forward_run [(\<lparr>esp_now_add_peer = (\<lambda>_. True), esp_now_del_peer = (\<lambda>_. True), esp_now_send = (\<lambda>_ _. True),
    application_queue_has_room = True\<rparr>,
            BROADCAST_MAC_ADDRESS, example_sender)]
      \<lparr>msg_protocolVersion = 1, msg_messageType = NODE_REPORT_TYPE, msg_messageId = 1,
       msg_originMacAddress = zero_mac, msg_destinationMacAddress = zero_mac, msg_hopsRemaining = 1,
       msg_payload = [7]\<rparr> = Some m' \<and> msg_hopsRemaining m' = 0"
proof -
  define api where "api = \<lparr>esp_now_add_peer = (\<lambda>_ :: MacAddress. True), esp_now_del_peer = (\<lambda>_ :: MacAddress. True),
      esp_now_send = (\<lambda>_ (_ :: u8 list). True),
      application_queue_has_room = True\<rparr>"
  define m where "m = \<lparr>msg_protocolVersion = 1, msg_messageType = NODE_REPORT_TYPE, msg_messageId = 1,
       msg_originMacAddress = zero_mac, msg_destinationMacAddress = zero_mac, msg_hopsRemaining = 1,
       msg_payload = [7]\<rparr>"
  have t: "msg_protocolVersion m = PROTOCOL_VERSION" "named_type (msg_messageType m)"
    by (simp_all add: m_def PROTOCOL_VERSION_def named_type_def named_types_def)
  have f: "forwardMessageTo api BROADCAST_MAC_ADDRESS m example_sender =
      (True, [(BROADCAST_MAC_ADDRESS, frame_of_message (m\<lparr>msg_hopsRemaining := 0\<rparr>))], example_sender)"
    by (simp add: forwardMessageTo_def sendMessageTo_def m_def api_def example_sender_def new_EspNow_def
        isBroadcastMacAddress_def MAX_PAYLOAD_SIZE_eq)
  have "message_of_frame (frame_of_message (m\<lparr>msg_hopsRemaining := 0\<rparr>)) = Some (m\<lparr>msg_hopsRemaining := 0\<rparr>)"
    using t by (intro message_of_frame_of_message) (simp_all add: m_def MAX_PAYLOAD_SIZE_eq)
  then have r: "forward_run [(api, BROADCAST_MAC_ADDRESS, example_sender)] m = Some (m\<lparr>msg_hopsRemaining := 0\<rparr>)"
    using f by simp
  have "msg_hopsRemaining m = 1" by (simp add: m_def)
  with forward_hop_limit [OF r t] r show ?thesis unfolding api_def [symmetric] m_def [symmetric]
    by (intro exI [of _ "m\<lparr>msg_hopsRemaining := 0\<rparr>"] conjI) (rule r, simp)
qed

section \<open>The choice of an upstream Node\<close>

text \<open>The rank of a response: fewer hops first, then the stronger signal.\<close>

type_synonym heard = "i8 \<times> EspMessage"

definition response_rank :: "heard \<Rightarrow> int" where
  "response_rank r =
     256 * uint (response_hopCountToCentral (response_of_bytes (msg_payload (snd r)))) - sint (fst r)"

definition acceptable :: "EspNow \<Rightarrow> heard \<Rightarrow> bool" where
  "acceptable e r \<longleftrightarrow>
     (let response = response_of_bytes (msg_payload (snd r)); hops = response_hopCountToCentral response
      in msg_destinationMacAddress (snd r) = esp_localMacAddress e \<and>
         length (msg_payload (snd r)) = DISCOVERY_RESPONSE_SIZE \<and>
         response_discoveryId response = activeDiscoveryId e \<and> hops \<noteq> UNKNOWN_HOP_COUNT \<and>
         (hopCountToCentral e = UNKNOWN_HOP_COUNT \<or> hops < hopCountToCentral e))"

definition chosen :: "heard option \<Rightarrow> EspNow \<Rightarrow> EspNow" where
  "chosen c e =
     (case c of None \<Rightarrow> e
      | Some (signal, m) \<Rightarrow>
          e\<lparr>discoveryCandidateFound := True, bestUpstreamCandidateMacAddress := msg_originMacAddress m,
            bestUpstreamCandidateSignalStrengthDbm := signal,
            bestUpstreamCandidateHopCount := response_hopCountToCentral (response_of_bytes (msg_payload m)),
            bestUpstreamCandidateCentralMacAddress := response_centralMacAddress (response_of_bytes (msg_payload m))\<rparr>)"

definition best_response :: "heard list \<Rightarrow> heard option" where
  "best_response rs = (if rs = [] then None else Some (arg_min_list response_rank rs))"

lemma arg_min_list_snoc:
  fixes f :: "'a \<Rightarrow> int"
  shows "xs \<noteq> [] \<Longrightarrow> arg_min_list f (xs @ [x]) = (if f x < f (arg_min_list f xs) then x else arg_min_list f xs)"
proof (induction xs rule: induct_list012)
  case (3 y z zs)
  then show ?case by (auto simp: Let_def)
qed (auto simp: Let_def)

lemma best_response_snoc:
  "best_response (rs @ [r]) =
     (case best_response rs of None \<Rightarrow> Some r
      | Some b \<Rightarrow> Some (if response_rank r < response_rank b then r else b))"
  by (simp add: best_response_def arg_min_list_snoc)

lemma sint_i8: "- 128 \<le> sint (s :: i8)" "sint (s :: i8) \<le> 127"
  using sint_greater_eq [of s] sint_less [of s] by simp_all

lemma response_rank_less:
  "response_rank (s, m) < response_rank (s', m') \<longleftrightarrow>
     (let h = response_hopCountToCentral (response_of_bytes (msg_payload m));
          h' = response_hopCountToCentral (response_of_bytes (msg_payload m'))
      in h < h' \<or> h = h' \<and> sint s > sint s')"
  using sint_i8 [of s] sint_i8 [of s']
  unfolding response_rank_def Let_def word_less_def word_uint_eq_iff fst_conv snd_conv by arith

lemma betterCandidate_chosen:
  assumes "\<not> discoveryCandidateFound e"
  shows "betterCandidate (response_hopCountToCentral (response_of_bytes (msg_payload m))) s (chosen c e) =
    (case c of None \<Rightarrow> True | Some b \<Rightarrow> response_rank (s, m) < response_rank b)"
  using assms response_rank_less [of s m]
  by (auto simp: betterCandidate_def chosen_def Let_def split: option.splits prod.splits)

lemma processDiscoveryResponse_chosen:
  assumes "discoveryInProgress e" and "\<not> discoveryCandidateFound e"
  shows "processDiscoveryResponse s m (chosen (best_response rs) e) =
    chosen (best_response (if acceptable e (s, m) then rs @ [(s, m)] else rs)) e"
proof -
  define c where "c = best_response rs"
  have same: "esp_localMacAddress (chosen c e) = esp_localMacAddress e" "activeDiscoveryId (chosen c e) = activeDiscoveryId e"
    "hopCountToCentral (chosen c e) = hopCountToCentral e" "discoveryInProgress (chosen c e)"
    using assms by (simp_all add: chosen_def split: option.splits prod.splits)
  have over: "(chosen c e)\<lparr>discoveryCandidateFound := True, bestUpstreamCandidateMacAddress := msg_originMacAddress m,
            bestUpstreamCandidateSignalStrengthDbm := s,
            bestUpstreamCandidateHopCount := response_hopCountToCentral (response_of_bytes (msg_payload m)),
            bestUpstreamCandidateCentralMacAddress := response_centralMacAddress (response_of_bytes (msg_payload m))\<rparr> =
     chosen (Some (s, m)) e"
    by (simp add: chosen_def split: option.splits prod.splits)
  have step: "processDiscoveryResponse s m (chosen c e) =
    (if acceptable e (s, m) \<and> (case c of None \<Rightarrow> True | Some b \<Rightarrow> response_rank (s, m) < response_rank b)
     then chosen (Some (s, m)) e else chosen c e)"
    unfolding processDiscoveryResponse_def Let_def same over betterCandidate_chosen [OF assms(2)] acceptable_def fst_conv snd_conv
    using same(4) by (auto simp: not_le)
  show ?thesis unfolding c_def [symmetric] step
    by (cases c) (simp_all add: best_response_snoc c_def [symmetric])
qed

text \<open>
  C26: The upstream Node a discovery round chooses. Whatever responses arrive in whatever order, the candidate at
  the end of the window is the first one of the least rank among those that answer this round and are
  nearer to Central than the Node itself: the fewest hops, and among those the strongest signal.
  A later response that is only as good does not replace it, and with no acceptable response there is none.
\<close>

theorem discovery_selects_best:
  assumes "discoveryInProgress e" and "\<not> discoveryCandidateFound e"
  shows "fold (\<lambda>(s, m). processDiscoveryResponse s m) rs e = chosen (best_response (filter (acceptable e) rs)) e"
proof (induction rs rule: rev_induct)
  case Nil
  show ?case by (simp add: best_response_def chosen_def)
next
  case (snoc r rs)
  then show ?case
    using processDiscoveryResponse_chosen [OF assms, of "fst r" "snd r" "filter (acceptable e) rs"]
    by (simp add: case_prod_beta)
qed

definition example_response :: "MacAddress \<Rightarrow> u16 \<Rightarrow> EspMessage" where
  "example_response origin hops =
     \<lparr>msg_protocolVersion = 1, msg_messageType = DISCOVERY_RESPONSE_TYPE, msg_messageId = 1,
      msg_originMacAddress = origin, msg_destinationMacAddress = mac_of_nat 9, msg_hopsRemaining = 16,
      msg_payload = response_bytes \<lparr>response_discoveryId = 7, response_hopCountToCentral = hops,
        response_centralMacAddress = mac_of_nat 1\<rparr>\<rparr>"

lemma discovery_selects_best_witness:
  "bestUpstreamCandidateMacAddress
     (fold (\<lambda>(s, m). processDiscoveryResponse s m)
       [(- 40, example_response (mac_of_nat 4) 2), (- 70, example_response (mac_of_nat 5) 1),
        (- 60, example_response (mac_of_nat 6) 1), (- 60, example_response (mac_of_nat 7) 1)]
       ((new_EspNow 6 (mac_of_nat 9))\<lparr>discoveryInProgress := True, activeDiscoveryId := 7\<rparr>)) = mac_of_nat 6"
proof -
  define e where "e = (new_EspNow 6 (mac_of_nat 9))\<lparr>discoveryInProgress := True, activeDiscoveryId := 7\<rparr>"
  have e: "discoveryInProgress e" "\<not> discoveryCandidateFound e" by (simp_all add: e_def new_EspNow_def)
  have acc: "acceptable e (s, example_response a h)" if "h \<noteq> UNKNOWN_HOP_COUNT" for s a h
    using that by (simp add: acceptable_def example_response_def e_def new_EspNow_def Let_def)
  have rank: "response_rank (s, example_response a h) = 256 * uint h - sint s" for s a h
    by (simp add: response_rank_def example_response_def)
  show ?thesis
    unfolding e_def [symmetric] discovery_selects_best [OF e]
    by (simp add: acc UNKNOWN_HOP_COUNT_def best_response_def rank Let_def chosen_def)
      (simp add: example_response_def)
qed

section \<open>The frames in the air\<close>

definition frame_typed :: "u8 list \<Rightarrow> bool" where
  "frame_typed bs \<longleftrightarrow>
     (case message_of_frame bs of
        None \<Rightarrow> False
      | Some m \<Rightarrow> frame_of_message m = bs \<and> unat (msg_hopsRemaining m) \<le> 16)"

lemma frame_typedI:
  assumes "msg_protocolVersion m = PROTOCOL_VERSION" and len: "length (msg_payload m) \<le> MAX_PAYLOAD_SIZE"
    and "unat (msg_hopsRemaining m) \<le> 16"
  shows "frame_typed (frame_of_message m)"
proof -
  define m' where "m' = m\<lparr>msg_messageType := type_of_byte (type_byte (msg_messageType m))\<rparr>"
  have l: "length (msg_payload m) \<le> 226" using len by (simp add: MAX_PAYLOAD_SIZE_eq)
  then have "unat (of_nat (length (msg_payload m)) :: u16) = length (msg_payload m)"
    by (intro u16_of_nat) simp
  with assms(1) l have "message_of_frame (frame_of_message m) = Some m'"
    unfolding message_of_frame_def length_frame frame_slices
    by (simp add: Let_def m'_def MAX_PAYLOAD_SIZE_eq) (simp add: MAX_MESSAGE_SIZE_def MESSAGE_HEADER_SIZE_def)
  moreover have "frame_of_message m' = frame_of_message m" by (simp add: m'_def frame_of_message_def)
  ultimately show ?thesis using assms(3) by (simp add: frame_typed_def m'_def)
qed

definition frames_typed :: "frames \<Rightarrow> bool" where
  "frames_typed fs \<longleftrightarrow> (\<forall>f \<in> set fs. frame_typed (snd f))"

lemma frames_typed_Nil [simp]: "frames_typed []"
  by (simp add: frames_typed_def)

lemma sendTo_typed: "sendTo_message api hop d t payload e = (ok, fs, e') \<Longrightarrow> frames_typed fs"
  by (drule sendTo_message_cases) (auto simp: frames_typed_def DEFAULT_HOP_LIMIT_def intro!: frame_typedI)

lemma sendToCentral_typed: "sendToCentral api t payload e = (ok, fs, e') \<Longrightarrow> frames_typed fs"
  by (auto simp: sendToCentral_def split: if_splits dest: sendTo_typed)

lemma message_of_frame_checked:
  "message_of_frame bs = Some m \<Longrightarrow> msg_protocolVersion m = PROTOCOL_VERSION \<and> length bs \<le> MAX_MESSAGE_SIZE"
  by (auto simp: message_of_frame_def Let_def split: if_splits)

lemma forward_typed:
  assumes f: "forwardMessageTo api hop m e = (ok, fs, e')" and "message_of_frame bs = Some m" "frame_typed bs"
  shows "frames_typed fs"
proof (cases "fs = []")
  case False
  define m1 where "m1 = m\<lparr>msg_hopsRemaining := msg_hopsRemaining m - 1\<rparr>"
  have m: "msg_hopsRemaining m \<noteq> 0" "sendMessageTo api hop m1 e = (ok, fs, e')"
    using f False by (auto simp: forwardMessageTo_def m1_def split: if_splits)
  have v: "msg_protocolVersion m1 = PROTOCOL_VERSION" "unat (msg_hopsRemaining m) \<le> 16"
    using message_of_frame_checked [OF assms(2)] assms(2,3) by (simp_all add: frame_typed_def m1_def)
  have "unat (msg_hopsRemaining m1) \<le> 16"
    using v(2) m(1) unat_minus_one [of "msg_hopsRemaining m"] by (simp add: m1_def)
  with v(1) sendMessageTo_cases [OF m(2)] False show ?thesis
    by (auto simp: frames_typed_def m1_def intro!: frame_typedI)
qed simp

lemma begin_typed: "beginDiscovery api w r e = (ok, fs, e') \<Longrightarrow> frames_typed fs"
  by (auto simp: beginDiscovery_def Let_def split: if_splits prod.splits dest: sendTo_typed)

lemma sendConnectionHandshake_typed:
  "sendConnectionHandshakeToUpstreamNode api e = (ok, fs, e') \<Longrightarrow> frames_typed fs"
  by (auto simp: sendConnectionHandshakeToUpstreamNode_def split: if_splits dest: sendTo_typed)

lemma finish_typed: "finishDiscovery api e = (ok, fs, e') \<Longrightarrow> frames_typed fs"
  by (auto simp: finishDiscovery_def Let_def split: if_splits prod.splits bool.splits
      dest: sendConnectionHandshake_typed)

lemma request_typed: "processDiscoveryRequest api m e = (fs, e') \<Longrightarrow> frames_typed fs"
  by (auto simp: processDiscoveryRequest_def snd_def split: if_splits prod.splits dest: sendTo_typed)

lemma deliver_typed:
  assumes "processRawReceivedPacket api sender s bs e = (got, fs, e')"
  shows "frames_typed fs"
  using assms request_typed [of api _ _ fs e'] unfolding processRawReceivedPacket_def Let_def
  by (auto split: option.splits if_splits)

lemma mesh_step_typed:
  assumes "mesh_step S S'" and typed: "frames_typed (air S)"
  shows "frames_typed (air S')"
proof -
  have put: "frames_typed (air (put_node m fs e S)) \<longleftrightarrow> frames_typed fs" for m fs e
    using typed unfolding put_node_def frames_typed_def by (simp add: ball_Un)
  have old: "frame_typed (snd f)" if "f \<in> set (air S)" for f using typed that by (simp add: frames_typed_def)
  show ?thesis
    using assms(1)
  proof cases
    case (mesh_forward f msg api hop m ok fs e)
    then show ?thesis using forward_typed [OF _ _ old] by (simp add: put)
  qed (auto simp: put start_node_def begin_node_def finish_node_def deliver_node_def split: prod.splits
      dest: begin_typed finish_typed deliver_typed sendTo_typed sendToCentral_typed)
qed

text \<open>
  C33: Every frame that is ever in the air is well formed: it has between 24 and 250 bytes, the protocol version
  of this firmware, a payload length that is the length of its payload, and a hop limit of at most 16;
  reading it and building it again gives the same bytes.
\<close>

theorem frames_in_air_typed:
  assumes "mesh_reachable S"
  shows "\<forall>(sender, bs) \<in> set (air S).
    \<exists>m. message_of_frame bs = Some m \<and> frame_of_message m = bs \<and> msg_protocolVersion m = PROTOCOL_VERSION \<and>
        length bs = MESSAGE_HEADER_SIZE + length (msg_payload m) \<and> length bs \<le> MAX_MESSAGE_SIZE \<and>
        unat (msg_hopsRemaining m) \<le> 16"
proof -
  have "frames_typed (air S)"
    using assms by induction (simp add: blank_mesh_def, rule mesh_step_typed)
  then have t: "frame_typed bs" if "(sender, bs) \<in> set (air S)" for sender bs
    using that by (auto simp: frames_typed_def)
  show ?thesis
  proof (intro ballI, clarify)
    fix a b c d e f bs
    assume "((a, b, c, d, e, f), bs) \<in> set (air S)"
    from t [OF this] obtain m where m: "message_of_frame bs = Some m" "frame_of_message m = bs"
      "unat (msg_hopsRemaining m) \<le> 16" by (auto simp: frame_typed_def split: option.splits)
    have "msg_protocolVersion m = PROTOCOL_VERSION" "length bs \<le> MAX_MESSAGE_SIZE"
      using message_of_frame_checked [OF m(1)] by simp_all
    with m length_frame [of m] show "\<exists>m. message_of_frame bs = Some m \<and> frame_of_message m = bs \<and>
        msg_protocolVersion m = PROTOCOL_VERSION \<and> length bs = MESSAGE_HEADER_SIZE + length (msg_payload m) \<and>
        length bs \<le> MAX_MESSAGE_SIZE \<and> unat (msg_hopsRemaining m) \<le> 16" by auto
  qed
qed

lemma frames_in_air_typed_witness:
  "\<exists>S f. mesh_reachable S \<and> air S = [f] \<and> frame_of_message (the (message_of_frame (snd f))) = snd f"
proof -
  define S where "S = begin_node ready_radio 2000 7 (mac_of_nat 2) example_mesh"
  have reach: "mesh_reachable S" unfolding S_def by (rule reach_step [OF example_mesh_reachable mesh_begin])
  have "air example_mesh = []" by (simp add: example_mesh_def start_node_def put_node_def blank_mesh_def)
  then obtain f where f: "air S = [f]"
    using example_mesh_nodes(1,2) broadcast_ready [OF _ ready_radio]
    by (simp add: S_def begin_node_def put_node_def beginDiscovery_def Let_def)
  show ?thesis using frames_in_air_typed [OF reach] reach f by auto
qed

end
