(* ===== verification/Wire.thy ===== *)
theory Wire
  imports Central_Application Mesh_Network
begin

text \<open>
  The packets of \<open>NodeReportPackets.h\<close>, \<open>CommissioningPackets.h\<close> and
  \<open>HardwareConfigurationPackets.h\<close> as the bytes of a payload, laid out as the compiler of the chip
  does (little endian, each field at a multiple of its size), and how the two receiving tasks
  tell them apart: by the type of the message and the length of its payload.
\<close>

section \<open>Commands\<close>

definition char_field :: "nat \<Rightarrow> string \<Rightarrow> u8 list" where
  "char_field n s = char_array n (copyTruncated n (Some s))"

definition string_field :: "u8 list \<Rightarrow> string" where
  "string_field bs = c_text (string_of_bytes bs)"

fun command_type :: "Packet \<Rightarrow> MessageType" where
  "command_type (RELAY_COMMAND p) = RELAY_COMMAND_TYPE"
| "command_type (CONFIGURE_LOAD_COMMAND p) = CONFIGURE_LOAD_COMMAND_TYPE"
| "command_type (REMOVE_LOAD_COMMAND i pin) = CONFIGURE_LOAD_COMMAND_TYPE"
| "command_type (COMMISSION_COMMAND i s) = COMMISSION_COMMAND_TYPE"
| "command_type (DECOMMISSION_COMMAND i) = DECOMMISSION_COMMAND_TYPE"
| "command_type (FACTORY_RESET_COMMAND i t) = FACTORY_RESET_COMMAND_TYPE"

definition relay_command_bytes :: "RelayCommandPacket \<Rightarrow> u8 list" where
  "relay_command_bytes p = [rcp_relayPin p, rcp_desiredState p, 0, 0] @ u32_bytes (rcp_commandId p)"

definition configure_load_bytes :: "ConfigureLoadCommandPacket \<Rightarrow> u8 list" where
  "configure_load_bytes p =
     u32_bytes (clp_commandId p) @ char_field 16 (clp_loadName p) @
     [clp_relayPin p, clp_relayActiveHigh p, clp_mode p, clp_powerType p] @ u16_bytes (clp_priority p) @ [0, 0] @
     f32_bytes (clp_powerRatingWatts p) @
     [clp_scheduleEnabled p, clp_scheduleStartHour p, clp_scheduleStartMinute p,
      clp_scheduleEndHour p, clp_scheduleEndMinute p, 0, 0, 0]"

fun command_bytes :: "Packet \<Rightarrow> u8 list" where
  "command_bytes (RELAY_COMMAND p) = relay_command_bytes p"
| "command_bytes (CONFIGURE_LOAD_COMMAND p) = configure_load_bytes p"
| "command_bytes (REMOVE_LOAD_COMMAND i pin) = u32_bytes i @ [pin, 0, 0, 0]"
| "command_bytes (COMMISSION_COMMAND i s) = u32_bytes i @ char_field 20 s"
| "command_bytes (DECOMMISSION_COMMAND i) = u32_bytes i"
| "command_bytes (FACTORY_RESET_COMMAND i t) = u32_bytes i @ [t, 0, 0, 0]"

definition relay_command_of_bytes :: "u8 list \<Rightarrow> RelayCommandPacket" where
  "relay_command_of_bytes bs =
     \<lparr>rcp_relayPin = bs ! 0, rcp_desiredState = bs ! 1, rcp_commandId = u32_of_bytes (take 4 (drop 4 bs))\<rparr>"

definition configure_load_of_bytes :: "u8 list \<Rightarrow> ConfigureLoadCommandPacket" where
  "configure_load_of_bytes bs =
     \<lparr>clp_commandId = u32_of_bytes (take 4 bs), clp_loadName = string_field (take 16 (drop 4 bs)),
      clp_relayPin = bs ! 20, clp_relayActiveHigh = bs ! 21, clp_mode = bs ! 22, clp_powerType = bs ! 23,
      clp_priority = u16_of_bytes (take 2 (drop 24 bs)),
      clp_powerRatingWatts = f32_of_bytes (take 4 (drop 28 bs)),
      clp_scheduleEnabled = bs ! 32, clp_scheduleStartHour = bs ! 33, clp_scheduleStartMinute = bs ! 34,
      clp_scheduleEndHour = bs ! 35, clp_scheduleEndMinute = bs ! 36\<rparr>"

text \<open>The branches of the Smart Node's \<open>espNowCommunicationTask\<close> and \<open>handleHardwareConfigurationMessage\<close>.\<close>

definition packet_of_message :: "MessageType \<Rightarrow> u8 list \<Rightarrow> Packet option" where
  "packet_of_message t bs =
     (if t = RELAY_COMMAND_TYPE \<and> length bs = 8 then Some (RELAY_COMMAND (relay_command_of_bytes bs))
      else if t = COMMISSION_COMMAND_TYPE \<and> length bs = 24
      then Some (COMMISSION_COMMAND (u32_of_bytes (take 4 bs)) (string_field (drop 4 bs)))
      else if t = DECOMMISSION_COMMAND_TYPE \<and> length bs = 4 then Some (DECOMMISSION_COMMAND (u32_of_bytes bs))
      else if t = CONFIGURE_LOAD_COMMAND_TYPE \<and> length bs = 40
      then Some (CONFIGURE_LOAD_COMMAND (configure_load_of_bytes bs))
      else if t = CONFIGURE_LOAD_COMMAND_TYPE \<and> length bs = 8
      then Some (REMOVE_LOAD_COMMAND (u32_of_bytes (take 4 bs)) (bs ! 4))
      else if t = FACTORY_RESET_COMMAND_TYPE \<and> length bs = 8
      then Some (FACTORY_RESET_COMMAND (u32_of_bytes (take 4 bs)) (bs ! 4))
      else None)"

section \<open>Reports and acknowledgements\<close>

definition load_report_bytes :: "LoadReportPacket \<Rightarrow> u8 list" where
  "load_report_bytes p =
     char_field 16 (report_name p) @ [report_relayPin p, report_mode p, report_powerType p, 0] @
     u16_bytes (report_priority p) @ [0, 0] @ f32_bytes (report_powerRatingWatts p) @
     [report_scheduleEnabled p, report_scheduleStartHour p, report_scheduleStartMinute p,
      report_scheduleEndHour p, report_scheduleEndMinute p, 0, 0, 0]"

definition load_report_of_bytes :: "u8 list \<Rightarrow> LoadReportPacket" where
  "load_report_of_bytes bs =
     \<lparr>report_name = string_field (take 16 bs), report_relayPin = bs ! 16, report_mode = bs ! 17,
      report_powerType = bs ! 18, report_priority = u16_of_bytes (take 2 (drop 20 bs)),
      report_powerRatingWatts = f32_of_bytes (take 4 (drop 24 bs)),
      report_scheduleEnabled = bs ! 28, report_scheduleStartHour = bs ! 29, report_scheduleStartMinute = bs ! 30,
      report_scheduleEndHour = bs ! 31, report_scheduleEndMinute = bs ! 32\<rparr>"

definition node_report_bytes :: "NodeReportPacket \<Rightarrow> u8 list" where
  "node_report_bytes p =
     char_field 20 (packet_nodeName p) @ mac_bytes (packet_nodeMacAddress p) @
     mac_bytes (packet_upstreamNodeMacAddress p) @ u16_bytes (packet_hopCountToCentral p) @
     [packet_numberOfLoads p, 0] @ u16_bytes (packet_reportSequenceId p) @
     [packet_pageIndex p, packet_totalPages p] @
     concat (map load_report_bytes (packet_loads p))"

definition node_report_of_bytes :: "u8 list \<Rightarrow> NodeReportPacket" where
  "node_report_of_bytes bs =
     \<lparr>packet_nodeName = string_field (take 20 bs), packet_nodeMacAddress = mac_of_bytes (take 6 (drop 20 bs)),
      packet_upstreamNodeMacAddress = mac_of_bytes (take 6 (drop 26 bs)),
      packet_hopCountToCentral = u16_of_bytes (take 2 (drop 32 bs)), packet_numberOfLoads = bs ! 34,
      packet_reportSequenceId = u16_of_bytes (take 2 (drop 36 bs)), packet_pageIndex = bs ! 38,
      packet_totalPages = bs ! 39, packet_loads = map load_report_of_bytes (record_bytes 36 (drop 40 bs))\<rparr>"

definition identity_report_bytes :: "IdentityReportPacket \<Rightarrow> u8 list" where
  "identity_report_bytes p =
     (let d = irp_diagnostics p
      in [irp_role p, irp_lifecycleState p] @ char_field 12 (irp_firmwareVersion p) @
         char_field 16 (irp_chipModel p) @ [irp_relayCapabilityCount p] @ irp_relayPins p @ [0, 0, 0] @
         u32_bytes (freeHeapBytes d) @ u32_bytes (minFreeHeapBytes d) @ u32_bytes (flashSizeBytes d) @
         u32_bytes (psramSizeBytes d) @ u16_bytes (siliconRevision d) @ [cpuCores d] @
         char_field 16 (resetReason d) @ [0] @ u32_bytes (cpuFrequencyMhz d) @
         [if temperatureAvailable d then 1 else 0, 0, 0, 0] @ f32_bytes (temperatureCelsius d))"

definition identity_report_of_bytes :: "u8 list \<Rightarrow> IdentityReportPacket" where
  "identity_report_of_bytes bs =
     \<lparr>irp_role = bs ! 0, irp_lifecycleState = bs ! 1, irp_firmwareVersion = string_field (take 12 (drop 2 bs)),
      irp_chipModel = string_field (take 16 (drop 14 bs)), irp_relayCapabilityCount = bs ! 30,
      irp_relayPins = take 18 (drop 31 bs),
      irp_diagnostics =
        \<lparr>freeHeapBytes = u32_of_bytes (take 4 (drop 52 bs)), minFreeHeapBytes = u32_of_bytes (take 4 (drop 56 bs)),
         flashSizeBytes = u32_of_bytes (take 4 (drop 60 bs)), psramSizeBytes = u32_of_bytes (take 4 (drop 64 bs)),
         siliconRevision = u16_of_bytes (take 2 (drop 68 bs)), cpuCores = bs ! 70,
         resetReason = string_field (take 16 (drop 71 bs)), cpuFrequencyMhz = u32_of_bytes (take 4 (drop 88 bs)),
         temperatureAvailable = (bs ! 92 \<noteq> 0), temperatureCelsius = f32_of_bytes (take 4 (drop 96 bs))\<rparr>\<rparr>"

definition relay_ack_bytes :: "RelayCommandAcknowledgementPacket \<Rightarrow> u8 list" where
  "relay_ack_bytes p =
     [rca_relayPin p, 0, 0, 0] @ u32_bytes (rca_commandId p) @
     [rca_requestedState p, rca_success p, rca_failureReason p, 0]"

definition relay_ack_of_bytes :: "u8 list \<Rightarrow> RelayCommandAcknowledgementPacket" where
  "relay_ack_of_bytes bs =
     \<lparr>rca_relayPin = bs ! 0, rca_commandId = u32_of_bytes (take 4 (drop 4 bs)), rca_requestedState = bs ! 8,
      rca_success = bs ! 9, rca_failureReason = bs ! 10\<rparr>"

fun report_type :: "Message \<Rightarrow> MessageType" where
  "report_type (NODE_REPORT p) = NODE_REPORT_TYPE"
| "report_type (IDENTITY_REPORT p) = IDENTITY_REPORT_TYPE"
| "report_type (COMMISSION_ACK p) = COMMISSION_ACK_TYPE"
| "report_type (ACKNOWLEDGEMENT p) = ACKNOWLEDGEMENT_TYPE"
| "report_type (CONFIGURE_LOAD_ACK p) = CONFIGURE_LOAD_ACK_TYPE"
| "report_type (DECOMMISSION_ACK i ok) = DECOMMISSION_ACK_TYPE"
| "report_type OTHER_MESSAGE = LOAD_REPORT_TYPE"

fun report_bytes :: "Message \<Rightarrow> u8 list" where
  "report_bytes (NODE_REPORT p) = node_report_bytes p"
| "report_bytes (IDENTITY_REPORT p) = identity_report_bytes p"
| "report_bytes (COMMISSION_ACK p) = u32_bytes (cap_commandId p) @ [cap_success p, cap_resultingState p, 0, 0]"
| "report_bytes (ACKNOWLEDGEMENT p) = relay_ack_bytes p"
| "report_bytes (CONFIGURE_LOAD_ACK p) =
     u32_bytes (cla_commandId p) @ [cla_relayPin p, cla_success p, cla_failureReason p, 0]"
| "report_bytes (DECOMMISSION_ACK i ok) = u32_bytes i @ [ok, 0, 0, 0]"
| "report_bytes OTHER_MESSAGE = []"

text \<open>The branches of the Central's \<open>espNowCommunicationTask\<close>.\<close>

definition report_of_message :: "MessageType \<Rightarrow> u8 list \<Rightarrow> Message" where
  "report_of_message t bs =
     (if t = NODE_REPORT_TYPE \<and> length bs = 184 then NODE_REPORT (node_report_of_bytes bs)
      else if t = IDENTITY_REPORT_TYPE \<and> length bs = 100 then IDENTITY_REPORT (identity_report_of_bytes bs)
      else if t = COMMISSION_ACK_TYPE \<and> length bs = 8
      then COMMISSION_ACK \<lparr>cap_commandId = u32_of_bytes (take 4 bs), cap_success = bs ! 4, cap_resultingState = bs ! 5\<rparr>
      else if t = ACKNOWLEDGEMENT_TYPE \<and> length bs = 12 then ACKNOWLEDGEMENT (relay_ack_of_bytes bs)
      else if t = CONFIGURE_LOAD_ACK_TYPE \<and> length bs = 8
      then CONFIGURE_LOAD_ACK \<lparr>cla_commandId = u32_of_bytes (take 4 bs), cla_relayPin = bs ! 4,
             cla_success = bs ! 5, cla_failureReason = bs ! 6\<rparr>
      else if t = DECOMMISSION_ACK_TYPE \<and> length bs = 8
      then DECOMMISSION_ACK (u32_of_bytes (take 4 bs)) (bs ! 4)
      else OTHER_MESSAGE)"

section \<open>Round trips\<close>

text \<open>What a packet must satisfy to be representable: the strings fit, the floats are floats.\<close>

definition fits :: "nat \<Rightarrow> string \<Rightarrow> bool" where
  "fits n s \<longleftrightarrow> copyTruncated n (Some s) = s"

fun command_representable :: "Packet \<Rightarrow> bool" where
  "command_representable (CONFIGURE_LOAD_COMMAND p) \<longleftrightarrow> fits 16 (clp_loadName p) \<and> f32_ok (clp_powerRatingWatts p)"
| "command_representable (COMMISSION_COMMAND i s) \<longleftrightarrow> fits 20 s"
| "command_representable _ \<longleftrightarrow> True"

definition load_report_representable :: "LoadReportPacket \<Rightarrow> bool" where
  "load_report_representable p \<longleftrightarrow> fits 16 (report_name p) \<and> f32_ok (report_powerRatingWatts p)"

fun report_representable :: "Message \<Rightarrow> bool" where
  "report_representable (NODE_REPORT p) \<longleftrightarrow>
     fits 20 (packet_nodeName p) \<and> length (packet_loads p) = MAX_LOADS_PER_NODE_PACKET \<and>
     list_all load_report_representable (packet_loads p)"
| "report_representable (IDENTITY_REPORT p) \<longleftrightarrow>
     fits 12 (irp_firmwareVersion p) \<and> fits 16 (irp_chipModel p) \<and> length (irp_relayPins p) = 18 \<and>
     fits 16 (resetReason (irp_diagnostics p)) \<and> f32_ok (temperatureCelsius (irp_diagnostics p))"
| "report_representable _ \<longleftrightarrow> True"

lemma length_char_field [simp]: "length (char_field n s) = n"
  by (simp add: char_field_def)

lemma string_of_char_field:
  assumes "fits n s"
  shows "string_field (char_field n s) = s"
proof -
  have "c_text s = s" using assms c_text_copyTruncated [of n "Some s"] by (simp add: fits_def)
  moreover have "length s \<le> n" using assms unfolding fits_def copyTruncated_def
    by (metis (no_types, lifting) diff_le_self le_trans length_take min.cobounded2 option.simps(5) list.size(3) zero_le)
  ultimately show ?thesis using assms by (simp add: string_field_def char_field_def fits_def c_text_char_array)
qed

lemma length_load_report_bytes [simp]: "length (load_report_bytes p) = 36"
  by (simp add: load_report_bytes_def)

lemma command_bytes_small: "length (command_bytes p) \<le> 40"
  by (cases p) (simp_all add: relay_command_bytes_def configure_load_bytes_def)

lemma packet_of_command_bytes:
  assumes "command_representable p"
  shows "packet_of_message (command_type p) (command_bytes p) = Some p"
proof (cases p)
  case (CONFIGURE_LOAD_COMMAND c)
  have "configure_load_of_bytes (configure_load_bytes c) = c"
    using assms unfolding CONFIGURE_LOAD_COMMAND
    by (cases c) (simp add: configure_load_of_bytes_def configure_load_bytes_def nth_append string_of_char_field)
  then show ?thesis
    unfolding CONFIGURE_LOAD_COMMAND by (simp add: packet_of_message_def) (simp add: configure_load_bytes_def)
qed (use assms in \<open>auto simp: packet_of_message_def relay_command_bytes_def relay_command_of_bytes_def nth_append
      string_of_char_field\<close>)

lemma load_report_of_load_report_bytes:
  assumes "load_report_representable p"
  shows "load_report_of_bytes (load_report_bytes p) = p"
  using assms by (cases p)
    (simp add: load_report_of_bytes_def load_report_bytes_def load_report_representable_def nth_append string_of_char_field)

lemma node_report_of_node_report_bytes:
  assumes "report_representable (NODE_REPORT p)"
  shows "node_report_of_bytes (node_report_bytes p) = p \<and> length (node_report_bytes p) = 184"
proof -
  have loads: "record_bytes 36 (concat (map load_report_bytes (packet_loads p))) = map load_report_bytes (packet_loads p)"
    by (rule record_bytes_concat) auto
  have "map (\<lambda>x. load_report_of_bytes (load_report_bytes x)) (packet_loads p) = packet_loads p"
    using assms by (simp add: map_idI list_all_iff load_report_of_load_report_bytes)
  moreover have "length (concat (map load_report_bytes (packet_loads p))) = 4 * 36"
    using assms by (subst length_concat_records [where n = 36]) (auto simp: MAX_LOADS_PER_NODE_PACKET_def)
  ultimately show ?thesis
    using assms loads
    by (cases p) (simp add: node_report_of_bytes_def node_report_bytes_def nth_append string_of_char_field o_def)
qed

lemma identity_report_of_identity_report_bytes:
  assumes "report_representable (IDENTITY_REPORT p)"
  shows "identity_report_of_bytes (identity_report_bytes p) = p \<and> length (identity_report_bytes p) = 100"
proof -
  obtain d where d: "irp_diagnostics p = d" by simp
  show ?thesis
    using assms d
    by (cases p, cases d)
      (simp add: identity_report_of_bytes_def identity_report_bytes_def nth_append string_of_char_field Let_def)
qed

lemma report_of_report_bytes:
  assumes "report_representable m"
  shows "report_of_message (report_type m) (report_bytes m) = m \<and> length (report_bytes m) \<le> 184"
proof (cases m)
  case (NODE_REPORT p)
  from node_report_of_node_report_bytes [OF assms [unfolded NODE_REPORT]] show ?thesis
    by (simp add: NODE_REPORT report_of_message_def)
next
  case (IDENTITY_REPORT p)
  from identity_report_of_identity_report_bytes [OF assms [unfolded IDENTITY_REPORT]] show ?thesis
    by (simp add: IDENTITY_REPORT report_of_message_def)
qed (auto simp: report_of_message_def relay_ack_bytes_def relay_ack_of_bytes_def nth_append)

end
