(* ===== verification/Smart_Node.thy ===== *)
theory Smart_Node
  imports Lifecycle Wire
begin

text \<open>
  The firmware of a Smart Node (\<open>src/smart/namespace.h\<close>, \<open>SmartApplication.cpp\<close>): its
  identity, its Loads, its radio, the packets it receives and the messages it answers with, the turns of
  its radio task, and its serial console. The drivers are parameters; a flag tells whether the mutex of a handler was
  taken in time where the code has an answer for both cases.
\<close>

section \<open>State\<close>

text \<open>The queue of relay commands holds eight.\<close>

record ('g, 'n) SmartNode =
  identityStore :: NodeIdentityStore
  identity_nvs :: 'n
  hardware :: "('g, 'n) NodeHardware"
  communication :: EspNow
  relayCommandQueue :: "RelayCommandPacket list"
  activeRadioChannel :: u8
  discoveryFailures :: nat
  consecutiveReportFailures :: u8
  reportSequence :: u16

definition RELAY_COMMAND_QUEUE_SIZE :: nat where "RELAY_COMMAND_QUEUE_SIZE = 8"
definition DISCOVERY_WINDOW_MS :: u32 where "DISCOVERY_WINDOW_MS = 500"
definition DISCOVERY_FAILURES_BEFORE_SWEEP :: nat where "DISCOVERY_FAILURES_BEFORE_SWEEP = 3"
definition REPORT_FAILURES_BEFORE_RESTART :: u8 where "REPORT_FAILURES_BEFORE_RESTART = 3"
definition KILOWATTS_RADIO_CHANNEL :: u8 where "KILOWATTS_RADIO_CHANNEL = 7"

definition isCommissioned :: "NodeIdentityStore \<Rightarrow> bool" where
  "isCommissioned st \<longleftrightarrow> identity_state st = COMMISSIONED \<or> identity_state st = OPERATIONAL"

definition renameSmart :: "string \<Rightarrow> ('g, 'n) SmartNode \<Rightarrow> ('g, 'n) SmartNode" where
  "renameSmart nodeName s = s\<lparr>communication := setLocalNodeName nodeName (communication s)\<rparr>"

definition computeAutomaticNodeName :: "MacAddress \<Rightarrow> string" where
  "computeAutomaticNodeName mac =
     (case mac of (_, _, _, m3, m4, m5) \<Rightarrow>
        copyTruncated 20 (Some (''Smart-'' @ hex_byte m3 @ hex_byte m4 @ hex_byte m5)))"

text \<open>The readings of the chip and the firmware version come in \<open>info\<close>.\<close>

definition sendIdentityReport :: "IdentityReportPacket \<Rightarrow> ('g, 'n) SmartNode \<Rightarrow> Message" where
  "sendIdentityReport info s =
     IDENTITY_REPORT (info\<lparr>irp_role := role_byte SMART,
       irp_lifecycleState := state_byte (identity_state (identityStore s)),
       irp_relayCapabilityCount := 0\<rparr>)"

section \<open>Configuring and removing a Load\<close>

definition configuration_of_packet :: "ConfigureLoadCommandPacket \<Rightarrow> LoadConfiguration" where
  "configuration_of_packet command =
     \<lparr>conf_name = copyTruncated 16 (Some (clp_loadName command)), conf_relayPin = clp_relayPin command,
      conf_relayActiveHigh = (clp_relayActiveHigh command \<noteq> 0),
      conf_powerRatingWatts = clp_powerRatingWatts command,
      conf_powerType = power_type_of_byte (clp_powerType command),
      conf_mode = mode_of_byte (clp_mode command), conf_priority = clp_priority command,
      conf_schedule = AutoSchedule5 (clp_scheduleEnabled command \<noteq> 0)
        (clp_scheduleStartHour command) (clp_scheduleStartMinute command)
        (clp_scheduleEndHour command) (clp_scheduleEndMinute command)\<rparr>"

definition applyConfigureLoadCommand ::
  "'g GpioApi \<Rightarrow> 'n NvsApi \<Rightarrow> bool \<Rightarrow> ConfigureLoadCommandPacket \<Rightarrow> ('g, 'n) SmartNode \<Rightarrow>
   HardwareConfigurationFailureReason \<times> ('g, 'n) SmartNode" where
  "applyConfigureLoadCommand ga na nodeTaken command s =
     (if \<not> isCommissioned (identityStore s) then (NODE_NOT_COMMISSIONED, s)
      else if \<not> nodeTaken then (HARDWARE_INITIALIZATION_FAILED, s)
      else case configureNewLoad ga na (configuration_of_packet command) (hardware s) of
        (why, h) \<Rightarrow> (why, s\<lparr>hardware := h\<rparr>))"

definition applyRemoveLoadCommand ::
  "'g GpioApi \<Rightarrow> 'n NvsApi \<Rightarrow> bool \<Rightarrow> u8 \<Rightarrow> ('g, 'n) SmartNode \<Rightarrow>
   HardwareConfigurationFailureReason \<times> ('g, 'n) SmartNode" where
  "applyRemoveLoadCommand ga na nodeTaken pin s =
     (if \<not> isCommissioned (identityStore s) then (NODE_NOT_COMMISSIONED, s)
      else if \<not> nodeTaken then (HARDWARE_INITIALIZATION_FAILED, s)
      else case hw_removeLoad ga na pin (hardware s) of
        (why, h) \<Rightarrow> (why, s\<lparr>hardware := h\<rparr>))"

fun failure_byte :: "HardwareConfigurationFailureReason \<Rightarrow> u8" where
  "failure_byte NONE = 0"
| "failure_byte NODE_NOT_COMMISSIONED = 1"
| "failure_byte UNSUPPORTED_RELAY_PIN = 2"
| "failure_byte DUPLICATE_RELAY_PIN = 3"
| "failure_byte INVALID_POWER_RATING = 4"
| "failure_byte INVALID_CONFIGURATION = 5"
| "failure_byte HARDWARE_INITIALIZATION_FAILED = 6"
| "failure_byte PERSISTENCE_FAILED = 7"
| "failure_byte CAPACITY_REACHED = 8"

definition hardwareAcknowledgement ::
  "u32 \<Rightarrow> u8 \<Rightarrow> HardwareConfigurationFailureReason \<Rightarrow> ConfigureLoadAcknowledgementPacket" where
  "hardwareAcknowledgement commandId pin why =
     \<lparr>cla_commandId = commandId, cla_relayPin = pin, cla_success = (if why = NONE then 1 else 0),
      cla_failureReason = failure_byte why\<rparr>"

section \<open>Relay commands\<close>

text \<open>One turn of \<open>relayControlTask\<close>.\<close>

definition relayControl ::
  "'g GpioApi \<Rightarrow> RelayCommandPacket \<Rightarrow> ('g, 'n) SmartNode \<Rightarrow>
   RelayCommandAcknowledgementPacket \<times> ('g, 'n) SmartNode" where
  "relayControl ga command s =
     (let desiredOn = (rcp_desiredState command = 1);
          registered = isRelayRegistered (rcp_relayPin command) (hw_relays (hardware s))
      in case (if registered then hw_setRelayState ga (rcp_relayPin command) desiredOn (hardware s)
               else (False, hardware s)) of
        (success, h) \<Rightarrow>
          (\<lparr>rca_relayPin = rcp_relayPin command, rca_commandId = rcp_commandId command,
            rca_requestedState = rcp_desiredState command,
            rca_success = (if success then 1 else 0),
            rca_failureReason = (if success then 0 else if \<not> registered then 1 else 2)\<rparr>,
           s\<lparr>hardware := h\<rparr>))"

definition relayControlTurn ::
  "'g GpioApi \<Rightarrow> ('g, 'n) SmartNode \<Rightarrow> Message list \<times> ('g, 'n) SmartNode" where
  "relayControlTurn ga s =
     (case relayCommandQueue s of
        [] \<Rightarrow> ([], s)
      | command # rest \<Rightarrow>
          (case relayControl ga command (s\<lparr>relayCommandQueue := rest\<rparr>) of
             (ack, s') \<Rightarrow> ([ACKNOWLEDGEMENT ack], s')))"

section \<open>Commissioning\<close>

text \<open>Without the mutex the answer carries \<open>UNCOMMISSIONED\<close>, whatever the state is.\<close>

definition handleCommissionCommand ::
  "'n NvsApi \<Rightarrow> IdentityReportPacket \<Rightarrow> bool \<Rightarrow> u32 \<Rightarrow> string \<Rightarrow> ('g, 'n) SmartNode \<Rightarrow>
   Message list \<times> ('g, 'n) SmartNode" where
  "handleCommissionCommand na info identityTaken commandId friendlyName s =
     (let (accepted, resultingState, s1) =
            (if \<not> identityTaken then (False, UNCOMMISSIONED, s)
             else case applyCommission (Some friendlyName) (identityStore s) of
               (False, st) \<Rightarrow> (False, identity_state st, s\<lparr>identityStore := st\<rparr>)
             | (True, st) \<Rightarrow>
                 (case identity_persist na st (identity_nvs s) of
                    (persisted, n) \<Rightarrow>
                      let st' = (if persisted then st else identityStore s)
                      in (persisted, identity_state st', s\<lparr>identityStore := st', identity_nvs := n\<rparr>)));
          s2 = (if accepted
                then renameSmart (copyTruncated 20 (Some (identity_name (identityStore s1)))) s1 else s1)
      in ([COMMISSION_ACK \<lparr>cap_commandId = commandId, cap_success = (if accepted then 1 else 0),
             cap_resultingState = state_byte resultingState\<rparr>,
           sendIdentityReport info s2], s2))"

definition handleDecommissionCommand ::
  "'g GpioApi \<Rightarrow> 'n NvsApi \<Rightarrow> IdentityReportPacket \<Rightarrow> bool \<Rightarrow> bool \<Rightarrow> u32 \<Rightarrow> ('g, 'n) SmartNode \<Rightarrow>
   Message list \<times> ('g, 'n) SmartNode" where
  "handleDecommissionCommand ga na info nodeTaken identityTaken commandId s =
     (let (loadsCleared, s1) =
            (if \<not> nodeTaken then (False, s)
             else case clearAllConfigurations ga na (hardware s) of
               (why, h) \<Rightarrow> (why = NONE, s\<lparr>hardware := h\<rparr>));
          (identityCleared, s2) =
            (if \<not> (loadsCleared \<and> identityTaken) then (False, s1)
             else case identity_persist na (applyDecommission (identityStore s1)) (identity_nvs s1) of
               (persisted, n) \<Rightarrow>
                 (persisted, s1\<lparr>identityStore :=
                    (if persisted then applyDecommission (identityStore s1) else identityStore s1),
                                identity_nvs := n\<rparr>));
          success = (loadsCleared \<and> identityCleared);
          s3 = (if success
                then renameSmart (computeAutomaticNodeName (esp_localMacAddress (communication s2))) s2
                else s2)
      in ([DECOMMISSION_ACK commandId (if success then 1 else 0), sendIdentityReport info s3], s3))"

section \<open>The radio task\<close>

text \<open>
  The branch for a received packet: whether the Node restarts, the answers and the state. A
  relay command is put into the queue while there is room. Packets for other Nodes are
  forwarded and change nothing.
\<close>

definition handlePacket ::
  "'g GpioApi \<Rightarrow> 'n NvsApi \<Rightarrow> IdentityReportPacket \<Rightarrow> bool \<Rightarrow> bool \<Rightarrow> Packet \<Rightarrow> ('g, 'n) SmartNode \<Rightarrow>
   bool \<times> Message list \<times> ('g, 'n) SmartNode" where
  "handlePacket ga na info nodeTaken identityTaken packet s =
     (case packet of
        RELAY_COMMAND command \<Rightarrow>
          (False, [], if length (relayCommandQueue s) < RELAY_COMMAND_QUEUE_SIZE
                      then s\<lparr>relayCommandQueue := relayCommandQueue s @ [command]\<rparr> else s)
      | COMMISSION_COMMAND commandId friendlyName \<Rightarrow>
          (False, handleCommissionCommand na info identityTaken commandId friendlyName s)
      | DECOMMISSION_COMMAND commandId \<Rightarrow>
          (False, handleDecommissionCommand ga na info nodeTaken identityTaken commandId s)
      | CONFIGURE_LOAD_COMMAND command \<Rightarrow>
          (case applyConfigureLoadCommand ga na nodeTaken command s of
             (why, s') \<Rightarrow>
               (False, [CONFIGURE_LOAD_ACK
                  (hardwareAcknowledgement (clp_commandId command) (clp_relayPin command) why)], s'))
      | REMOVE_LOAD_COMMAND commandId pin \<Rightarrow>
          (case applyRemoveLoadCommand ga na nodeTaken pin s of
             (why, s') \<Rightarrow> (False, [CONFIGURE_LOAD_ACK (hardwareAcknowledgement commandId pin why)], s'))
      | FACTORY_RESET_COMMAND commandId confirmToken \<Rightarrow>
          (confirmToken = FACTORY_RESET_CONFIRM_TOKEN, [], s))"

section \<open>Console\<close>

definition smartResult :: "bool \<Rightarrow> string \<Rightarrow> HardwareConfigurationFailureReason \<Rightarrow> CommandResult" where
  "smartResult ok text why =
     (if ok then commandResult True True text
      else commandResult False False (hardwareConfigurationFailureText why))"

definition consoleSmartConfigureLoad ::
  "'g GpioApi \<Rightarrow> 'n NvsApi \<Rightarrow> bool \<Rightarrow> LoadConfiguration \<Rightarrow> ('g, 'n) SmartNode \<Rightarrow>
   CommandResult \<times> ('g, 'n) SmartNode" where
  "consoleSmartConfigureLoad ga na nodeTaken request s =
     (if \<not> nodeTaken then (commandResult False False ''state is busy'', s)
      else case configureNewLoad ga na (request\<lparr>conf_name := copyTruncated 16 (Some (conf_name request))\<rparr>)
             (hardware s) of
        (why, h) \<Rightarrow> (smartResult (why = NONE) ''Load configured'' why, s\<lparr>hardware := h\<rparr>))"

definition consoleSmartRemoveLoad ::
  "'g GpioApi \<Rightarrow> 'n NvsApi \<Rightarrow> bool \<Rightarrow> u8 \<Rightarrow> ('g, 'n) SmartNode \<Rightarrow> CommandResult \<times> ('g, 'n) SmartNode" where
  "consoleSmartRemoveLoad ga na nodeTaken pin s =
     (if \<not> nodeTaken then (commandResult False False ''state is busy'', s)
      else case hw_removeLoad ga na pin (hardware s) of
        (why, h) \<Rightarrow> (smartResult (why = NONE) ''Load removed'' why, s\<lparr>hardware := h\<rparr>))"

record SmartLoadUpdateRequest =
  slu_relayPin :: u8
  slu_priority :: "u16 option"
  slu_mode :: "LoadModeValue option"
  slu_schedule :: "AutoSchedule option"

definition updatedConfiguration :: "SmartLoadUpdateRequest \<Rightarrow> LoadConfiguration \<Rightarrow> LoadConfiguration" where
  "updatedConfiguration request v =
     v\<lparr>conf_priority := (case slu_priority request of None \<Rightarrow> conf_priority v | Some p \<Rightarrow> p),
       conf_mode := (case slu_mode request of None \<Rightarrow> conf_mode v | Some m \<Rightarrow> m),
       conf_schedule := (case slu_schedule request of None \<Rightarrow> conf_schedule v | Some sc \<Rightarrow> sc)\<rparr>"

text \<open>The Load is removed, whether that succeeds or not, and configured again.\<close>

definition consoleSmartUpdateLoad ::
  "'g GpioApi \<Rightarrow> 'n NvsApi \<Rightarrow> bool \<Rightarrow> SmartLoadUpdateRequest \<Rightarrow> ('g, 'n) SmartNode \<Rightarrow>
   CommandResult \<times> ('g, 'n) SmartNode" where
  "consoleSmartUpdateLoad ga na nodeTaken request s =
     (if \<not> nodeTaken then (commandResult False False ''state is busy'', s)
      else case findByRelayPin (slu_relayPin request) (hw_configurations (hardware s)) of
        None \<Rightarrow> (commandResult False False ''Load not found'', s)
      | Some existing \<Rightarrow>
          (case configureNewLoad ga na (updatedConfiguration request existing)
                  (snd (hw_removeLoad ga na (slu_relayPin request) (hardware s))) of
             (why, h) \<Rightarrow> (smartResult (why = NONE) ''Load updated'' why, s\<lparr>hardware := h\<rparr>)))"

section \<open>Start-up\<close>

definition new_SmartNode :: "'g \<Rightarrow> 'n \<Rightarrow> ('g, 'n) SmartNode" where
  "new_SmartNode g n =
     \<lparr>identityStore = new_NodeIdentityStore, identity_nvs = n, hardware = new_NodeHardware zero_mac g n,
      communication = new_EspNow KILOWATTS_RADIO_CHANNEL zero_mac, relayCommandQueue = [],
      activeRadioChannel = KILOWATTS_RADIO_CHANNEL, discoveryFailures = 0, consecutiveReportFailures = 0,
      reportSequence = 0\<rparr>"

text \<open>
  The persisted Loads are applied only when the Node is commissioned. The first component tells
  whether the Node runs; the report it sends at the end has no upstream Node to go to yet.
\<close>

definition startSmart ::
  "'g GpioApi \<Rightarrow> 'n NvsApi \<Rightarrow> MacAddress option \<Rightarrow> bool \<Rightarrow> ('g, 'n) SmartNode \<Rightarrow> bool \<times> ('g, 'n) SmartNode" where
  "startSmart ga na chipMac driversReady s =
     (case esp_initialize chipMac driversReady (communication s) of
        (False, e) \<Rightarrow> (False, s\<lparr>communication := e\<rparr>)
      | (True, e) \<Rightarrow>
          let localMac = esp_localMacAddress e;
              st = snd (identity_loadPersisted na (identity_nvs s) (identityStore s));
              s1 = renameSmart (if isCommissioned st then identity_name st else computeAutomaticNodeName localMac)
                     (s\<lparr>communication := e, identityStore := st\<rparr>);
              h = (hardware s1)\<lparr>hw_node := new_Node localMac\<rparr>
          in case hardware_loadPersisted na (hw_nvs h) (hw_configurations h) of
            (loaded, cs) \<Rightarrow>
              let h1 = h\<lparr>hw_configurations := cs\<rparr>
              in (True, s1\<lparr>hardware :=
                     (if loaded \<and> isCommissioned st then snd (applyPersistedConfigurations ga h1) else h1)\<rparr>))"

text \<open>\<open>esp_restart\<close>: only the non-volatile storage and the levels of the pins stay.\<close>

definition restartSmart ::
  "'g GpioApi \<Rightarrow> 'n NvsApi \<Rightarrow> MacAddress option \<Rightarrow> bool \<Rightarrow> ('g, 'n) SmartNode \<Rightarrow> bool \<times> ('g, 'n) SmartNode" where
  "restartSmart ga na chipMac driversReady s =
     startSmart ga na chipMac driversReady
       ((new_SmartNode (hw_gpio (hardware s)) (hw_nvs (hardware s)))\<lparr>identity_nvs := identity_nvs s\<rparr>)"

section \<open>The turns of the radio task\<close>

definition sendReport :: "RadioApi \<Rightarrow> Message \<Rightarrow> EspNow \<Rightarrow> bool \<times> frames \<times> EspNow" where
  "sendReport api m e = sendToCentral api (report_type m) (report_bytes m) e"

fun sendReports :: "RadioApi \<Rightarrow> Message list \<Rightarrow> EspNow \<Rightarrow> frames \<times> EspNow" where
  "sendReports api [] e = ([], e)"
| "sendReports api (m # ms) e =
     (case sendReport api m e of (_, fs, e1) \<Rightarrow> case sendReports api ms e1 of (gs, e2) \<Rightarrow> (fs @ gs, e2))"

text \<open>
  A message from the queue of the radio, with its immediate sender: whether the Node restarts
  into its factory state, the frames sent and the state. What is for another Node goes
  upstream when it comes from below, and straight to its destination otherwise.
\<close>

definition smartReceive ::
  "RadioApi \<Rightarrow> 'g GpioApi \<Rightarrow> 'n NvsApi \<Rightarrow> IdentityReportPacket \<Rightarrow> bool \<Rightarrow> bool \<Rightarrow> MacAddress \<Rightarrow> EspMessage \<Rightarrow>
   ('g, 'n) SmartNode \<Rightarrow> bool \<times> frames \<times> ('g, 'n) SmartNode" where
  "smartReceive api ga na info nodeTaken identityTaken sender m s =
     (let e = communication s
      in if msg_destinationMacAddress m = esp_localMacAddress e
         then case packet_of_message (msg_messageType m) (msg_payload m) of
             None \<Rightarrow> (False, [], s)
           | Some packet \<Rightarrow>
               (case handlePacket ga na info nodeTaken identityTaken packet s of
                  (reset, ms, s1) \<Rightarrow>
                    (case sendReports api ms (communication s1) of
                       (fs, e1) \<Rightarrow> (reset, fs, s1\<lparr>communication := e1\<rparr>)))
         else
           (case forwardMessageTo api
                   (if upstreamNodeSelected e \<and> sender \<noteq> upstreamNodeMacAddress e
                    then upstreamNodeMacAddress e else msg_destinationMacAddress m) m e of
              (_, fs, e1) \<Rightarrow> (False, fs, s\<lparr>communication := e1\<rparr>)))"

text \<open>
  A discovery with the responses heard during its window. The responses and the random numbers
  depend on the channel the radio is on; \<open>switch\<close> tells whether the drivers change to a channel.
\<close>

definition discoverUpstreamNode ::
  "RadioApi \<Rightarrow> u32 \<Rightarrow> u32 \<Rightarrow> (i8 \<times> EspMessage) list \<Rightarrow> EspNow \<Rightarrow> bool \<times> frames \<times> EspNow" where
  "discoverUpstreamNode api window random heard e =
     (case beginDiscovery api window random e of
        (False, fs, e1) \<Rightarrow> (False, fs, e1)
      | (True, fs, e1) \<Rightarrow>
          (case finishDiscovery api (fold (\<lambda>(signal, m). processDiscoveryResponse signal m) heard e1) of
             (ok, gs, e2) \<Rightarrow> (ok, fs @ gs, e2)))"

fun searchChannels ::
  "RadioApi \<Rightarrow> (u8 \<Rightarrow> bool) \<Rightarrow> (u8 \<Rightarrow> u32) \<Rightarrow> (u8 \<Rightarrow> (i8 \<times> EspMessage) list) \<Rightarrow> u8 list \<Rightarrow> ('g, 'n) SmartNode \<Rightarrow>
   frames \<times> ('g, 'n) SmartNode" where
  "searchChannels api switch random heard [] s = ([], s)"
| "searchChannels api switch random heard (ch # chs) s =
     (if \<not> switch ch then searchChannels api switch random heard chs s
      else case discoverUpstreamNode api DISCOVERY_WINDOW_MS (random ch) (heard ch) (communication s) of
        (True, fs, e) \<Rightarrow>
          (fs, s\<lparr>activeRadioChannel := ch, communication := e, consecutiveReportFailures := 0\<rparr>)
      | (False, fs, e) \<Rightarrow>
          (case searchChannels api switch random heard chs (s\<lparr>activeRadioChannel := ch, communication := e\<rparr>) of
             (gs, s') \<Rightarrow> (fs @ gs, s')))"

definition RADIO_CHANNELS :: "u8 list" where
  "RADIO_CHANNELS = map of_nat [1..<14]"

definition discoveryTurn ::
  "RadioApi \<Rightarrow> (u8 \<Rightarrow> bool) \<Rightarrow> (u8 \<Rightarrow> u32) \<Rightarrow> (u8 \<Rightarrow> (i8 \<times> EspMessage) list) \<Rightarrow> ('g, 'n) SmartNode \<Rightarrow>
   frames \<times> ('g, 'n) SmartNode" where
  "discoveryTurn api switch random heard s =
     (if upstreamNodeSelected (communication s) then ([], s)
      else case discoverUpstreamNode api DISCOVERY_WINDOW_MS (random (activeRadioChannel s))
                  (heard (activeRadioChannel s)) (communication s) of
        (True, fs, e) \<Rightarrow>
          (fs, s\<lparr>communication := e, discoveryFailures := 0, consecutiveReportFailures := 0\<rparr>)
      | (False, fs, e) \<Rightarrow>
          let s1 = s\<lparr>communication := e, discoveryFailures := discoveryFailures s + 1\<rparr>
          in if discoveryFailures s1 \<ge> DISCOVERY_FAILURES_BEFORE_SWEEP
             then case searchChannels api switch random heard RADIO_CHANNELS (s1\<lparr>discoveryFailures := 0\<rparr>) of
                    (gs, s2) \<Rightarrow> (fs @ gs, s2)
             else (fs, s1))"

text \<open>
  The report of a period, page by page. \<open>nodeTaken k\<close> tells whether the mutex was taken for the
  count (\<open>0\<close>) or for the page \<open>k - 1\<close>.
\<close>

fun sendPages :: "RadioApi \<Rightarrow> (nat \<Rightarrow> bool) \<Rightarrow> Node \<Rightarrow> u16 \<Rightarrow> u8 \<Rightarrow> nat list \<Rightarrow> EspNow \<Rightarrow> bool \<times> frames \<times> EspNow" where
  "sendPages api nodeTaken node seq totalPages [] e = (True, [], e)"
| "sendPages api nodeTaken node seq totalPages (k # ks) e =
     (case sendReport api (NODE_REPORT
             (buildNodeReportPacket (esp_localNodeName e)
                (if upstreamNodeSelected e then Some (upstreamNodeMacAddress e) else None)
                (hopCountToCentral e) (nodeTaken (Suc k)) (Some node) (esp_localMacAddress e) seq (of_nat k) totalPages)) e of
        (sent, fs, e1) \<Rightarrow>
          (case sendPages api nodeTaken node seq totalPages ks e1 of
             (delivered, gs, e2) \<Rightarrow> (sent \<and> delivered, fs @ gs, e2)))"

definition reportTurn ::
  "RadioApi \<Rightarrow> (nat \<Rightarrow> bool) \<Rightarrow> ('g, 'n) SmartNode \<Rightarrow> bool \<times> frames \<times> ('g, 'n) SmartNode" where
  "reportTurn api nodeTaken s =
     (let node = hw_node (hardware s); seq = reportSequence s + 1;
          totalPages = computeReportPageCount (if nodeTaken 0 then length (node_loads node) else 0)
      in case sendPages api nodeTaken node seq totalPages [0..<unat totalPages] (communication s) of
        (delivered, fs, e) \<Rightarrow>
          let failures = (if \<not> upstreamNodeSelected e then consecutiveReportFailures s
                          else if delivered then 0 else consecutiveReportFailures s + 1)
          in (upstreamNodeSelected e \<and> \<not> delivered \<and> failures \<ge> REPORT_FAILURES_BEFORE_RESTART, fs,
              s\<lparr>communication := e, reportSequence := seq, consecutiveReportFailures := failures\<rparr>))"

end
