(* ===== verification/Smart_Results.thy ===== *)
theory Smart_Results
  imports Smart_Node
begin

text \<open>
  What always holds of a Smart Node, what happens to Loads that were stored but not applied at boot,
  and the surprises of its handlers.
\<close>

section \<open>The hardware of a Node that booted\<close>

text \<open>
  After boot some stored configurations may have no relay channel and no Load (\<open>hidden\<close>); the
  rest is aligned as on a Node whose Loads were all applied.
\<close>

definition hw_part :: "LoadConfiguration list \<Rightarrow> ('g, 'n) NodeHardware \<Rightarrow> bool" where
  "hw_part hidden s \<longleftrightarrow>
     (\<exists>vis. hw_configurations s = hidden @ vis \<and> aligned vis (hw_relays s) (hw_node s) \<and>
        conf_relayPin ` set hidden \<inter> conf_relayPin ` set vis = {}) \<and>
     length (hw_configurations s) \<le> MAX_CONFIGURED_LOADS \<and>
     list_all (\<lambda>c. isValidNewConfiguration [] c = NONE) (hw_configurations s)"

lemma hw_part_Nil: "hw_part [] s \<longleftrightarrow> hw_ok s"
  by (simp add: hw_part_def hw_ok_def)

lemma hw_part_fields:
  "hw_part hidden s \<Longrightarrow> hw_configurations s' = hw_configurations s \<Longrightarrow> hw_relays s' = hw_relays s \<Longrightarrow>
   hw_node s' = hw_node s \<Longrightarrow> hw_part hidden s'"
  by (simp add: hw_part_def)

lemma aligned_registered:
  assumes "aligned vis rs node"
  shows "isRelayRegistered pin rs \<longleftrightarrow> pin \<in> conf_relayPin ` set vis"
    and "getLoadByRelayPin pin node \<noteq> None \<longleftrightarrow> pin \<in> conf_relayPin ` set vis"
proof -
  have "map fst (map relay_view rs) = map fst (map conf_view vis)" using assms by (simp add: aligned_def)
  then have "map registered_pin rs = map conf_relayPin vis" by (simp add: relay_view_def conf_view_def o_def)
  then have "registered_pin ` set rs = conf_relayPin ` set vis" by (metis set_map)
  then show "isRelayRegistered pin rs \<longleftrightarrow> pin \<in> conf_relayPin ` set vis"
    by (simp add: isRelayRegistered_def findRelay_def find_None_notin)
  have "map getRelayPin (node_loads node) = map conf_relayPin vis" using assms unfolding aligned_def by blast
  then have "getRelayPin ` set (node_loads node) = conf_relayPin ` set vis" by (metis set_map)
  then show "getLoadByRelayPin pin node \<noteq> None \<longleftrightarrow> pin \<in> conf_relayPin ` set vis"
    by (simp add: getLoadByRelayPin_def find_None_notin)
qed

lemma hw_part_hidden:
  assumes "hw_part hidden s" and "h \<in> set hidden"
  shows "\<not> isRelayRegistered (conf_relayPin h) (hw_relays s)" "getLoadByRelayPin (conf_relayPin h) (hw_node s) = None"
    "findByRelayPin (conf_relayPin h) (hw_configurations s) \<noteq> None"
proof -
  obtain vis where v: "hw_configurations s = hidden @ vis" "aligned vis (hw_relays s) (hw_node s)"
    "conf_relayPin ` set hidden \<inter> conf_relayPin ` set vis = {}" using assms(1) unfolding hw_part_def by blast
  have "conf_relayPin h \<notin> conf_relayPin ` set vis" using v(3) assms(2) by blast
  then show "\<not> isRelayRegistered (conf_relayPin h) (hw_relays s)" "getLoadByRelayPin (conf_relayPin h) (hw_node s) = None"
    using aligned_registered [OF v(2), of "conf_relayPin h"] by blast+
  show "findByRelayPin (conf_relayPin h) (hw_configurations s) \<noteq> None"
    using assms(2) v(1) unfolding findByRelayPin_def find_None_iff by auto
qed

lemma hw_setRelayState_unregistered:
  "\<not> isRelayRegistered pin (hw_relays s) \<Longrightarrow> hw_setRelayState ga pin on s = (False, s)"
  by (simp add: hw_setRelayState_def setRelayState_def isRelayRegistered_def)

lemma hidden_remove_fails:
  assumes "hw_part hidden s" and "h \<in> set hidden"
  shows "hw_removeLoad ga na (conf_relayPin h) s = (HARDWARE_INITIALIZATION_FAILED, s)"
  using hw_part_hidden [OF assms] by (simp add: hw_removeLoad_def hw_setRelayState_unregistered)

lemma hidden_clear_fails:
  assumes "hw_part hidden s" and "hidden \<noteq> []"
  shows "clearAllConfigurations ga na s = (HARDWARE_INITIALIZATION_FAILED, s)"
proof -
  obtain h hs where h: "hidden = h # hs" using assms(2) by (cases hidden) auto
  obtain vis where "hw_configurations s = h # hs @ vis" using assms(1) unfolding hw_part_def h by auto
  moreover have "\<not> isRelayRegistered (conf_relayPin h) (hw_relays s)"
    using hw_part_hidden(1) [OF assms(1)] h by simp
  ultimately show ?thesis by (simp add: clearAllConfigurations_def hw_setRelayState_unregistered)
qed

lemma configureNewLoad_part [inv_intros]:
  assumes part: "hw_part hidden s"
  shows "hw_part hidden (snd (configureNewLoad ga na v s))"
proof -
  obtain why s' where c: "configureNewLoad ga na v s = (why, s')"
    by (cases "configureNewLoad ga na v s") auto
  note res = configureNewLoad_result [OF c]
  show ?thesis
  proof (cases "why = NONE")
    case False
    then show ?thesis using res c hw_part_fields [OF part, of s'] by simp
  next
    case True
    then have valid: "isValidNewConfiguration (hw_configurations s) v = NONE"
      and none: "getLoadByRelayPin (conf_relayPin v) (hw_node s) = None"
      and s': "hw_configurations s' = hw_configurations s @ [v]" "hw_relays s' = hw_relays s @ [relay_of v]"
        "hw_node s' = add_to_node (settled_load (node_macAddress (hw_node s)) v) (hw_node s)"
      using res by simp_all
    obtain vis where vis: "hw_configurations s = hidden @ vis" "aligned vis (hw_relays s) (hw_node s)"
      "conf_relayPin ` set hidden \<inter> conf_relayPin ` set vis = {}" using part unfolding hw_part_def by blast
    note ctx = valid_in_context [of "hw_configurations s" v, THEN iffD1, OF valid]
    then have "\<forall>h \<in> set hidden. conf_relayPin h \<noteq> conf_relayPin v"
      unfolding findByRelayPin_def find_None_iff vis(1) by auto
    then have "conf_relayPin ` set hidden \<inter> conf_relayPin ` set (vis @ [v]) = {}" using vis(3) by auto
    moreover have "aligned (vis @ [v]) (hw_relays s') (hw_node s')"
      unfolding s' by (rule aligned_append [OF vis(2) none])
    moreover have "hw_configurations s' = hidden @ vis @ [v]" using s' vis(1) by simp
    moreover have "length (hw_configurations s') \<le> MAX_CONFIGURED_LOADS" using ctx s' by simp
    moreover have "list_all (\<lambda>c. isValidNewConfiguration [] c = NONE) (hw_configurations s')"
      using part ctx s' by (simp add: hw_part_def)
    ultimately show ?thesis using c unfolding hw_part_def by auto
  qed
qed

lemma hw_removeLoad_part [inv_intros]:
  assumes part: "hw_part hidden s"
  shows "hw_part hidden (snd (hw_removeLoad ga na pin s))"
proof (cases "pin \<in> conf_relayPin ` set hidden")
  case True
  then obtain h where "h \<in> set hidden" "pin = conf_relayPin h" by auto
  then show ?thesis using hidden_remove_fails [OF part] part by simp
next
  case hid: False
  obtain why s' where c: "hw_removeLoad ga na pin s = (why, s')"
    by (cases "hw_removeLoad ga na pin s") auto
  note res = hw_removeLoad_result [OF c]
  show ?thesis
  proof (cases "why = NONE")
    case False
    then show ?thesis using res c hw_part_fields [OF part, of s'] by simp
  next
    case True
    obtain vis where vis: "hw_configurations s = hidden @ vis" "aligned vis (hw_relays s) (hw_node s)"
      "conf_relayPin ` set hidden \<inter> conf_relayPin ` set vis = {}" using part unfolding hw_part_def by blast
    let ?P = "\<lambda>c. conf_relayPin c = pin"
    have app: "erase_first ?P (hs @ vis) = hs @ erase_first ?P vis" if "pin \<notin> conf_relayPin ` set hs" for hs
      using that by (induction hs) auto
    have sub: "set (erase_first ?P xs) \<subseteq> set xs" and len: "length (erase_first ?P xs) \<le> length xs" for xs
      by (induction xs) auto
    have s': "hw_configurations s' = hidden @ erase_first ?P vis"
      using res True app [OF hid] vis(1) by simp
    have "aligned (erase_first ?P vis) (hw_relays s') (hw_node s')"
      using aligned_erase [OF vis(2), of pin] res True by simp
    moreover have "conf_relayPin ` set hidden \<inter> conf_relayPin ` set (erase_first ?P vis) = {}"
      using vis(3) sub [of vis] by blast
    moreover have "length (hw_configurations s') \<le> MAX_CONFIGURED_LOADS"
      using part len [of "vis"] unfolding s' by (simp add: hw_part_def vis(1))
    moreover have "list_all (\<lambda>c. isValidNewConfiguration [] c = NONE) (hw_configurations s')"
      using part sub [of vis] unfolding s' by (auto simp: hw_part_def vis(1) list_all_iff)
    ultimately show ?thesis using c s' unfolding hw_part_def by auto
  qed
qed

lemma clearAllConfigurations_part [inv_intros]:
  assumes "hw_part hidden s"
  shows "hw_part hidden (snd (clearAllConfigurations ga na s))"
  using assms clearAllConfigurations_ok [of s ga na] hidden_clear_fails [OF assms, of ga na]
  by (cases "hidden = []") (simp_all add: hw_part_Nil)

lemma hw_setRelayState_part [inv_intros]:
  assumes "hw_part hidden s"
  shows "hw_part hidden (snd (hw_setRelayState ga pin on s))"
proof -
  obtain ok s' where c: "hw_setRelayState ga pin on s = (ok, s')"
    by (cases "hw_setRelayState ga pin on s") auto
  then show ?thesis using hw_setRelayState_fields [OF c] hw_part_fields [OF assms, of s'] by simp
qed

lemma restore_records_valid:
  "restore_records rs = Some cs \<Longrightarrow>
   list_all (\<lambda>c. isValidNewConfiguration [] c = NONE) cs \<and> length cs = length rs"
  by (induction rs arbitrary: cs) (auto simp: Let_def split: if_splits)

lemma hardware_loadPersisted_valid:
  assumes "hardware_loadPersisted na n [] = (ok, cs)"
  shows "list_all (\<lambda>c. isValidNewConfiguration [] c = NONE) cs \<and> length cs \<le> MAX_CONFIGURED_LOADS \<and> (\<not> ok \<longrightarrow> cs = [])"
proof -
  have "length (record_bytes LOAD_RECORD_SIZE bs) = length bs div LOAD_RECORD_SIZE" for bs
    by (simp add: record_bytes_def)
  then show ?thesis
    using assms unfolding hardware_loadPersisted_def
    by (auto split: if_splits option.splits dest!: restore_records_valid)
qed

section \<open>The whole Node\<close>

definition smart_inv :: "LoadConfiguration list \<Rightarrow> ('g, 'n) SmartNode \<Rightarrow> bool" where
  "smart_inv hidden s \<longleftrightarrow>
     identity_ok (identityStore s) \<and> hw_part hidden (hardware s) \<and>
     length (relayCommandQueue s) \<le> RELAY_COMMAND_QUEUE_SIZE"

text \<open>What happens to a running Node, with the answers of the drivers and of the mutexes.\<close>

datatype smart_event =
  Receives RadioApi IdentityReportPacket bool bool MacAddress EspMessage
| SwitchesRelay RadioApi
| Discovers RadioApi "u8 \<Rightarrow> bool" "u8 \<Rightarrow> u32" "u8 \<Rightarrow> (i8 \<times> EspMessage) list"
| Reports RadioApi "nat \<Rightarrow> bool"
| SendsIdentity RadioApi IdentityReportPacket
| ConfiguresLoad bool LoadConfiguration
| RemovesLoad bool u8
| UpdatesLoad bool SmartLoadUpdateRequest
| HearsRadio "EspNow \<Rightarrow> EspNow"

fun smart_step :: "'g GpioApi \<Rightarrow> 'n NvsApi \<Rightarrow> smart_event \<Rightarrow> ('g, 'n) SmartNode \<Rightarrow> ('g, 'n) SmartNode" where
  "smart_step ga na (Receives api info nt it sender m) s = snd (snd (smartReceive api ga na info nt it sender m s))"
| "smart_step ga na (SwitchesRelay api) s =
     (case relayControlTurn ga s of (ms, s1) \<Rightarrow>
        s1\<lparr>communication := snd (sendReports api ms (communication s1))\<rparr>)"
| "smart_step ga na (Discovers api switch random heard) s = snd (discoveryTurn api switch random heard s)"
| "smart_step ga na (Reports api taken) s = snd (snd (reportTurn api taken s))"
| "smart_step ga na (SendsIdentity api info) s =
     s\<lparr>communication := snd (sendReports api [sendIdentityReport info s] (communication s))\<rparr>"
| "smart_step ga na (ConfiguresLoad taken v) s = snd (consoleSmartConfigureLoad ga na taken v s)"
| "smart_step ga na (RemovesLoad taken pin) s = snd (consoleSmartRemoveLoad ga na taken pin s)"
| "smart_step ga na (UpdatesLoad taken request) s = snd (consoleSmartUpdateLoad ga na taken request s)"
| "smart_step ga na (HearsRadio f) s = s\<lparr>communication := f (communication s)\<rparr>"

lemma smart_inv_radio [simp]: "smart_inv hidden (s\<lparr>communication := e\<rparr>) = smart_inv hidden s"
  by (simp add: smart_inv_def)

lemma smart_inv_radio_state [simp]:
  "smart_inv hidden (s\<lparr>activeRadioChannel := c\<rparr>) = smart_inv hidden s"
  "smart_inv hidden (s\<lparr>discoveryFailures := f\<rparr>) = smart_inv hidden s"
  "smart_inv hidden (s\<lparr>consecutiveReportFailures := k\<rparr>) = smart_inv hidden s"
  "smart_inv hidden (s\<lparr>reportSequence := q\<rparr>) = smart_inv hidden s"
  by (simp_all add: smart_inv_def)

lemma smart_inv_hardware:
  "smart_inv hidden s \<Longrightarrow> hw_part hidden h \<Longrightarrow> smart_inv hidden (s\<lparr>hardware := h\<rparr>)"
  by (simp add: smart_inv_def)

lemma smart_inv_identity:
  "smart_inv hidden s \<Longrightarrow> identity_ok st \<Longrightarrow> smart_inv hidden (s\<lparr>identityStore := st\<rparr>)"
  by (simp add: smart_inv_def)

lemma smart_inv_identity_nvs [simp]: "smart_inv hidden (s\<lparr>identity_nvs := n\<rparr>) = smart_inv hidden s"
  by (simp add: smart_inv_def)

lemma smart_inv_queue:
  "smart_inv hidden s \<Longrightarrow> length q \<le> RELAY_COMMAND_QUEUE_SIZE \<Longrightarrow> smart_inv hidden (s\<lparr>relayCommandQueue := q\<rparr>)"
  by (simp add: smart_inv_def)

lemma smart_invD:
  "smart_inv hidden s \<Longrightarrow> identity_ok (identityStore s)"
  "smart_inv hidden s \<Longrightarrow> hw_part hidden (hardware s)"
  "smart_inv hidden s \<Longrightarrow> length (relayCommandQueue s) \<le> RELAY_COMMAND_QUEUE_SIZE"
  by (simp_all add: smart_inv_def)

lemma applyConfigure_inv:
  assumes "smart_inv hidden s"
  shows "smart_inv hidden (snd (applyConfigureLoadCommand ga na taken c s))"
  using assms configureNewLoad_part [OF smart_invD(2) [OF assms], of ga na "configuration_of_packet c"]
  by (auto simp: applyConfigureLoadCommand_def split: prod.splits intro: smart_inv_hardware)

lemma applyRemove_inv:
  assumes "smart_inv hidden s"
  shows "smart_inv hidden (snd (applyRemoveLoadCommand ga na taken pin s))"
  using assms hw_removeLoad_part [OF smart_invD(2) [OF assms], of ga na pin]
  by (auto simp: applyRemoveLoadCommand_def split: prod.splits intro: smart_inv_hardware)

lemma relayControl_inv:
  assumes "smart_inv hidden s"
  shows "smart_inv hidden (snd (relayControl ga c s))"
  using assms hw_setRelayState_part [OF smart_invD(2) [OF assms], of ga "rcp_relayPin c" "rcp_desiredState c = 1"]
  by (auto simp: relayControl_def Let_def smart_inv_hardware smart_invD split: prod.splits if_splits)

lemma relayControlTurn_inv:
  assumes "smart_inv hidden s"
  shows "smart_inv hidden (snd (relayControlTurn ga s))"
proof (cases "relayCommandQueue s")
  case (Cons c rest)
  have "smart_inv hidden (s\<lparr>relayCommandQueue := rest\<rparr>)"
    using smart_inv_queue [OF assms, of rest] smart_invD(3) [OF assms] Cons by simp
  from relayControl_inv [OF this, of ga c] Cons show ?thesis
    by (cases "relayControl ga c (s\<lparr>relayCommandQueue := rest\<rparr>)") (simp add: relayControlTurn_def)
qed (simp add: relayControlTurn_def assms)

lemma renameSmart_inv [simp]: "smart_inv hidden (renameSmart n s) = smart_inv hidden s"
  by (simp add: renameSmart_def)

lemma handleCommission_inv:
  assumes "smart_inv hidden s"
  shows "smart_inv hidden (snd (handleCommissionCommand na info taken i name s))"
proof -
  obtain ok st where c: "applyCommission (Some name) (identityStore s) = (ok, st)" by fastforce
  obtain p n where q: "identity_persist na st (identity_nvs s) = (p, n)" by fastforce
  have "identity_ok st" using applyCommission_ok [OF smart_invD(1) [OF assms], of "Some name"] c by simp
  then have "smart_inv hidden (s\<lparr>identityStore := st\<rparr>)" by (rule smart_inv_identity [OF assms])
  then show ?thesis using assms
    by (cases taken; cases ok; cases p) (simp_all add: handleCommissionCommand_def c q Let_def)
qed

lemma handleDecommission_inv:
  assumes "smart_inv hidden s"
  shows "smart_inv hidden (snd (handleDecommissionCommand ga na info nt it i s))"
proof -
  obtain why h where c: "clearAllConfigurations ga na (hardware s) = (why, h)" by fastforce
  define s1 where "s1 = (if nt then s\<lparr>hardware := h\<rparr> else s)"
  have "hw_part hidden h" using clearAllConfigurations_part [OF smart_invD(2) [OF assms], of ga na] c by simp
  then have s1: "smart_inv hidden s1" using assms by (simp add: s1_def smart_inv_hardware)
  obtain p n where q: "identity_persist na (applyDecommission (identityStore s1)) (identity_nvs s1) = (p, n)" by fastforce
  have "smart_inv hidden (s1\<lparr>identityStore := applyDecommission (identityStore s1)\<rparr>)"
    by (rule smart_inv_identity [OF s1 applyDecommission_ok])
  then show ?thesis using s1 q
    by (cases nt; cases "why = NONE"; cases it; cases p) (simp_all add: handleDecommissionCommand_def c Let_def s1_def)
qed

lemma handlePacket_inv:
  assumes "smart_inv hidden s"
  shows "smart_inv hidden (snd (snd (handlePacket ga na info nt it p s)))"
  using assms applyConfigure_inv [OF assms] applyRemove_inv [OF assms] handleCommission_inv [OF assms]
    handleDecommission_inv [OF assms]
  by (cases p) (auto simp: handlePacket_def split_beta RELAY_COMMAND_QUEUE_SIZE_def intro!: smart_inv_queue)

lemma smartReceive_inv:
  assumes "smart_inv hidden s"
  shows "smart_inv hidden (snd (snd (smartReceive api ga na info nt it sender m s)))"
  using assms handlePacket_inv [OF assms, of ga na info nt it]
  by (simp add: smartReceive_def Let_def split_beta split: option.splits)

lemma searchChannels_inv:
  "smart_inv hidden s \<Longrightarrow> smart_inv hidden (snd (searchChannels api switch random heard chs s))"
  by (induction api switch random heard chs s rule: searchChannels.induct) (auto split: prod.splits bool.splits)

lemma discoveryTurn_inv:
  assumes "smart_inv hidden s"
  shows "smart_inv hidden (snd (discoveryTurn api switch random heard s))"
  using assms
  by (auto simp: discoveryTurn_def Let_def split_beta split: bool.splits intro!: searchChannels_inv)

lemma smart_step_inv:
  assumes "smart_inv hidden s"
  shows "smart_inv hidden (smart_step ga na ev s)"
proof (cases ev)
  case (SwitchesRelay api)
  then show ?thesis using relayControlTurn_inv [OF assms, of ga] by (simp add: split_beta)
next
  case (Reports api taken)
  then show ?thesis using assms by (simp add: reportTurn_def Let_def split_beta)
next
  case (ConfiguresLoad taken v)
  then show ?thesis
    using assms configureNewLoad_part [OF smart_invD(2) [OF assms], of ga na]
    by (simp add: consoleSmartConfigureLoad_def split_beta smart_inv_hardware)
next
  case (RemovesLoad taken pin)
  then show ?thesis
    using assms hw_removeLoad_part [OF smart_invD(2) [OF assms], of ga na pin]
    by (simp add: consoleSmartRemoveLoad_def split_beta smart_inv_hardware)
next
  case (UpdatesLoad taken r)
  then show ?thesis
    using assms configureNewLoad_part [OF hw_removeLoad_part [OF smart_invD(2) [OF assms], of ga na "slu_relayPin r"], of ga na]
    by (simp add: consoleSmartUpdateLoad_def split_beta smart_inv_hardware split: option.splits)
qed (use assms smartReceive_inv [OF assms] discoveryTurn_inv [OF assms] in simp_all)

lemma smart_run_inv: "smart_inv hidden s \<Longrightarrow> smart_inv hidden (fold (smart_step ga na) evs s)"
  by (induction evs arbitrary: s) (simp_all add: smart_step_inv)

section \<open>Booting\<close>

text \<open>
  What a boot leaves without a Load: the configurations that were restored, when they were not
  applied or could not be.
\<close>

definition hidden_after_boot :: "('g, 'n) SmartNode \<Rightarrow> LoadConfiguration list" where
  "hidden_after_boot s = (if hw_relays (hardware s) = [] then hw_configurations (hardware s) else [])"

lemma boot_inv:
  assumes boot: "restartSmart ga na chipMac driversReady s = (True, s0)"
  shows "smart_inv (hidden_after_boot s0) s0"
proof -
  define s1 where "s1 = (new_SmartNode (hw_gpio (hardware s)) (hw_nvs (hardware s)))\<lparr>identity_nvs := identity_nvs s\<rparr>"
  obtain ok e where i: "esp_initialize chipMac driversReady (communication s1) = (ok, e)" by fastforce
  define st where "st = snd (identity_loadPersisted na (identity_nvs s1) (identityStore s1))"
  define h where "h = (hardware s1)\<lparr>hw_node := new_Node (esp_localMacAddress e)\<rparr>"
  obtain loaded cs where l: "hardware_loadPersisted na (hw_nvs h) (hw_configurations h) = (loaded, cs)" by fastforce
  have h0: "hw_configurations h = []" "hw_relays h = []" "hw_node h = new_Node (esp_localMacAddress e)"
    by (simp_all add: h_def s1_def new_SmartNode_def new_NodeHardware_def)
  have cs: "list_all (\<lambda>c. isValidNewConfiguration [] c = NONE) cs" "length cs \<le> MAX_CONFIGURED_LOADS" "loaded \<or> cs = []"
    using hardware_loadPersisted_valid [of na "hw_nvs h" loaded cs] l h0(1) by auto
  define h1 where "h1 = h\<lparr>hw_configurations := cs\<rparr>"
  define h2 where "h2 = (if loaded \<and> isCommissioned st then snd (applyPersistedConfigurations ga h1) else h1)"
  have "hardware s0 = h2 \<and> identityStore s0 = st \<and> relayCommandQueue s0 = relayCommandQueue s1"
    using boot i l
    unfolding restartSmart_def startSmart_def s1_def [symmetric] h2_def h1_def h_def st_def
    by (cases ok) (auto simp: Let_def renameSmart_def split: if_splits)
  then have s0: "hardware s0 = h2" "identityStore s0 = st" "relayCommandQueue s0 = []"
    by (simp_all add: s1_def new_SmartNode_def)
  have "identity_ok st"
    unfolding st_def by (rule identity_loadPersisted_ok) (simp add: s1_def new_SmartNode_def new_identity_ok)
  moreover have "hw_part (hidden_after_boot s0) h2"
  proof (cases "loaded \<and> isCommissioned st")
    case False
    then have "h2 = h1" by (auto simp: h2_def)
    then show ?thesis using cs h0 s0 aligned_Nil by (simp add: hw_part_def hidden_after_boot_def h1_def)
  next
    case True
    obtain why h' where a: "applyPersistedConfigurations ga h1 = (why, h')" by fastforce
    have "aligned [] (hw_relays h1) (hw_node h1)" using h0 aligned_Nil by (simp add: h1_def)
    from applyAll_result [OF this, of ga cs why h'] a
    have res: "hw_configurations h' = cs \<and> (if why = NONE then aligned cs (hw_relays h') (hw_node h')
        else hw_relays h' = [] \<and> node_loads (hw_node h') = [])"
      by (simp add: applyPersistedConfigurations_def h1_def split: if_splits)
    have h2: "h2 = h'" using True a by (simp add: h2_def)
    show ?thesis
    proof (cases "hw_relays h' = []")
      case False
      then show ?thesis using res cs h2 s0 by (auto simp: hw_part_def hidden_after_boot_def split: if_splits)
    next
      case empty: True
      have "aligned [] (hw_relays h') (hw_node h')"
      proof (cases "why = NONE")
        case True
        then have "aligned cs [] (hw_node h')" using res empty by simp
        then show ?thesis using empty by (simp add: aligned_def)
      next
        case False
        have "node_ok (hw_node h')" using False res by (simp add: node_ok_def)
        then show ?thesis using empty False res by (simp add: aligned_def)
      qed
      then show ?thesis using res cs h2 s0 empty by (simp add: hw_part_def hidden_after_boot_def)
    qed
  qed
  ultimately show ?thesis using s0 by (simp add: smart_inv_def)
qed

text \<open>
  C8: Whatever happens to a Smart Node after it booted (any packets, console commands, discoveries and reports, with
  any answers of the GPIO driver, the storage, the radio and the mutexes): its identity is
  well formed, the queue of relay commands holds at most eight, and its stored configurations are those that
  the boot left without a Load, followed by those that have a relay channel and a Load each, in
  the same order, no pin occurring on both sides, at most 16 in all, every one valid.
\<close>

theorem smart_always_ok:
  assumes "restartSmart ga na chipMac driversReady s = (True, s0)"
  shows "smart_inv (hidden_after_boot s0) (fold (smart_step ga na) evs s0)"
  by (rule smart_run_inv [OF boot_inv [OF assms]])

definition fresh_smart :: "((u8 \<Rightarrow> bool) \<times> (u8 \<Rightarrow> bool), string \<Rightarrow> nvs_value option) SmartNode" where
  "fresh_smart = new_SmartNode (\<lambda>p. True, \<lambda>p. False) (\<lambda>k. None)"

definition example_info :: IdentityReportPacket where
  "example_info = \<lparr>irp_role = 0, irp_lifecycleState = 0, irp_firmwareVersion = ''1.0'', irp_chipModel = ''ESP32'',
     irp_relayCapabilityCount = 0, irp_relayPins = replicate 18 0, irp_diagnostics = new_Diagnostics\<rparr>"

text \<open>A storage that holds one Load.\<close>

definition one_load_nvs :: "string \<Rightarrow> nvs_value option" where
  "one_load_nvs = [''schema'' \<mapsto> NvsU8 HARDWARE_SCHEMA_VERSION, ''loads'' \<mapsto> NvsBlob (toPersisted example_conf)]"

definition stored_smart :: "((u8 \<Rightarrow> bool) \<times> (u8 \<Rightarrow> bool), string \<Rightarrow> nvs_value option) SmartNode" where
  "stored_smart = (new_SmartNode (\<lambda>p. True, \<lambda>p. False) one_load_nvs)\<lparr>identity_nvs := (\<lambda>k. None)\<rparr>"

lemma one_load_restored: "hardware_loadPersisted ram_nvs one_load_nvs [] = (True, [example_conf])"
proof -
  have "record_bytes LOAD_RECORD_SIZE (concat [toPersisted example_conf]) = [toPersisted example_conf]"
    by (rule record_bytes_concat) (simp_all add: LOAD_RECORD_SIZE_def)
  then have "record_bytes LOAD_RECORD_SIZE (toPersisted example_conf) = [toPersisted example_conf]" by simp
  moreover have "restore_records (map toPersisted [example_conf]) = Some [example_conf]"
    by (rule restore_records_all) (simp add: example_conf_valid example_conf_normal)
  moreover have "0 < LOAD_RECORD_SIZE" by (simp add: LOAD_RECORD_SIZE_def)
  ultimately show ?thesis
    by (simp add: hardware_loadPersisted_def ram_nvs_def one_load_nvs_def MAX_CONFIGURED_LOADS_def)
qed

lemma stored_smart_boot:
  obtains s0 where "restartSmart (ram_gpio {}) ram_nvs (Some (2, 0, 0, 0, 0, 5)) True stored_smart = (True, s0)"
    "hidden_after_boot s0 = [example_conf]"
proof -
  have st: "\<not> isCommissioned (snd (identity_loadPersisted ram_nvs (\<lambda>k. None) new_NodeIdentityStore))"
    by (simp add: identity_loadPersisted_def ram_nvs_def new_NodeIdentityStore_def isCommissioned_def)
  show thesis
  proof (rule that)
    show "restartSmart (ram_gpio {}) ram_nvs (Some (2, 0, 0, 0, 0, 5)) True stored_smart =
        (True, snd (restartSmart (ram_gpio {}) ram_nvs (Some (2, 0, 0, 0, 0, 5)) True stored_smart))"
      using one_load_restored st
      by (simp add: restartSmart_def startSmart_def stored_smart_def new_SmartNode_def new_EspNow_def
          KILOWATTS_RADIO_CHANNEL_def esp_initialize_def new_NodeHardware_def Let_def renameSmart_def)
    show "hidden_after_boot (snd (restartSmart (ram_gpio {}) ram_nvs (Some (2, 0, 0, 0, 0, 5)) True stored_smart)) = [example_conf]"
      using one_load_restored st
      by (simp add: restartSmart_def startSmart_def stored_smart_def new_SmartNode_def new_EspNow_def
          KILOWATTS_RADIO_CHANNEL_def esp_initialize_def new_NodeHardware_def Let_def hidden_after_boot_def renameSmart_def)
  qed
qed

lemma smart_always_ok_witness:
  "\<exists>s0. restartSmart (ram_gpio {}) ram_nvs (Some (2, 0, 0, 0, 0, 5)) True stored_smart = (True, s0) \<and>
     smart_inv [example_conf] (fold (smart_step (ram_gpio {}) ram_nvs) [RemovesLoad True 16, UpdatesLoad True
       \<lparr>slu_relayPin = 16, slu_priority = Some 11, slu_mode = None, slu_schedule = None\<rparr>] s0)"
proof -
  obtain s0 where s0: "restartSmart (ram_gpio {}) ram_nvs (Some (2, 0, 0, 0, 0, 5)) True stored_smart = (True, s0)"
    "hidden_after_boot s0 = [example_conf]" by (rule stored_smart_boot)
  show ?thesis using smart_always_ok [OF s0(1)] s0 by metis
qed

section \<open>Loads that were not applied at boot\<close>

lemma handleDecommission_not_cleared:
  assumes "fst (clearAllConfigurations ga na (hardware s)) \<noteq> NONE"
  shows "hd (fst (handleDecommissionCommand ga na info nt it i s)) = DECOMMISSION_ACK i 0 \<and>
    identityStore (snd (handleDecommissionCommand ga na info nt it i s)) = identityStore s"
  using assms by (cases nt) (simp_all add: handleDecommissionCommand_def Let_def split_beta)

text \<open>
  A stored Load that the boot did not apply, because the Node was not commissioned or because
  a relay could not be set up, is locked until the next boot: it has no Load and no relay channel, it
  cannot be removed, its pin cannot be configured again, and no decommissioning succeeds, so
  the Node keeps its identity whatever the Central asks.
\<close>

theorem unapplied_loads_locked:
  assumes boot: "restartSmart ga na chipMac driversReady s0 = (True, s1)"
    and h: "h \<in> set (hidden_after_boot s1)" and s: "s = fold (smart_step ga na) evs s1"
    and v: "conf_relayPin v = conf_relayPin h"
  shows "getLoadByRelayPin (conf_relayPin h) (hw_node (hardware s)) = None \<and>
     \<not> isRelayRegistered (conf_relayPin h) (hw_relays (hardware s)) \<and>
     hw_removeLoad ga na (conf_relayPin h) (hardware s) = (HARDWARE_INITIALIZATION_FAILED, hardware s) \<and>
     fst (configureNewLoad ga na v (hardware s)) \<noteq> NONE \<and>
     hd (fst (handleDecommissionCommand ga na info nt it i s)) = DECOMMISSION_ACK i 0 \<and>
     identityStore (snd (handleDecommissionCommand ga na info nt it i s)) = identityStore s"
proof -
  have part: "hw_part (hidden_after_boot s1) (hardware s)"
    unfolding s by (rule smart_invD(2) [OF smart_run_inv [OF boot_inv [OF boot]]])
  note hid = hw_part_hidden [OF part h]
  have "isValidNewConfiguration (hw_configurations (hardware s)) v \<noteq> NONE"
    using hid(3) valid_in_context [of "hw_configurations (hardware s)" v] v by auto
  then have "fst (configureNewLoad ga na v (hardware s)) \<noteq> NONE" by (simp add: configureNewLoad_def)
  moreover have "hidden_after_boot s1 \<noteq> []" using h by auto
  note hidden_clear_fails [OF part this, of ga na]
  ultimately show ?thesis
    using hid(1,2) hidden_remove_fails [OF part h] handleDecommission_not_cleared [of ga na s] by simp
qed

lemma unapplied_loads_locked_witness:
  "\<exists>s1. restartSmart (ram_gpio {}) ram_nvs (Some (2, 0, 0, 0, 0, 5)) True stored_smart = (True, s1) \<and>
     hw_removeLoad (ram_gpio {}) ram_nvs 16 (hardware s1) = (HARDWARE_INITIALIZATION_FAILED, hardware s1) \<and>
     hd (fst (handleDecommissionCommand (ram_gpio {}) ram_nvs example_info True True 7 s1)) = DECOMMISSION_ACK 7 0"
proof -
  obtain s1 where s1: "restartSmart (ram_gpio {}) ram_nvs (Some (2, 0, 0, 0, 0, 5)) True stored_smart = (True, s1)"
    "hidden_after_boot s1 = [example_conf]" by (rule stored_smart_boot)
  have h: "example_conf \<in> set (hidden_after_boot s1)" using s1(2) by simp
  have s: "s1 = fold (smart_step (ram_gpio {}) ram_nvs) [] s1" by simp
  have "conf_relayPin example_conf = 16" by (simp add: example_conf_def)
  with unapplied_loads_locked [OF s1(1) h s refl, of example_info True True 7] s1(1) show ?thesis by auto
qed

section \<open>Updating a Load\<close>

text \<open>
  An update of a Load through the console of a Smart Node is not a transaction: the Load is removed
  first, and when the changed configuration is then refused, for whatever reason (an invalid
  priority or schedule, the relay, the storage), the command reports the failure and the Load is gone, with
  its configuration and its relay channel.
\<close>

theorem rejected_update_deletes_load:
  assumes inv: "smart_inv hidden s"
    and found: "findByRelayPin (slu_relayPin request) (hw_configurations (hardware s)) = Some existing"
    and removed: "hw_removeLoad ga na (slu_relayPin request) (hardware s) = (NONE, h)"
    and refused: "configureNewLoad ga na (updatedConfiguration request existing) h = (why, h')" "why \<noteq> NONE"
    and run: "consoleSmartUpdateLoad ga na True request s = (result, s')"
  shows "\<not> accepted result \<and> hardware s' = h' \<and>
     findByRelayPin (slu_relayPin request) (hw_configurations (hardware s')) = None \<and>
     getLoadByRelayPin (slu_relayPin request) (hw_node (hardware s')) = None \<and>
     \<not> isRelayRegistered (slu_relayPin request) (hw_relays (hardware s'))"
proof -
  let ?pin = "slu_relayPin request"
  have s': "hardware s' = h'" "result = smartResult False ''Load updated'' why"
    using run found removed refused by (auto simp: consoleSmartUpdateLoad_def)
  have kept: "hw_configurations h' = hw_configurations h" "hw_relays h' = hw_relays h" "hw_node h' = hw_node h"
    using configureNewLoad_result [OF refused(1)] refused(2) by simp_all
  obtain vis where vis: "hw_configurations (hardware s) = hidden @ vis" "aligned vis (hw_relays (hardware s)) (hw_node (hardware s))"
    "conf_relayPin ` set hidden \<inter> conf_relayPin ` set vis = {}"
    using smart_invD(2) [OF inv] unfolding hw_part_def by blast
  have nh: "?pin \<notin> conf_relayPin ` set hidden"
  proof
    assume "?pin \<in> conf_relayPin ` set hidden"
    then obtain x where "x \<in> set hidden" "?pin = conf_relayPin x" by auto
    with hidden_remove_fails [OF smart_invD(2) [OF inv] this(1), of ga na] removed show False by simp
  qed
  have gone: "?pin \<notin> k ` set (erase_first (\<lambda>x. k x = ?pin) xs)" if "distinct (map k xs)" for k and xs :: "'x list"
    using that by (induction xs) auto
  note res = hw_removeLoad_result [OF removed]
  have h: "hw_relays h = erase_first (\<lambda>r. registered_pin r = ?pin) (hw_relays (hardware s))"
    "hw_node h = snd (removeLoadByRelayPin ?pin (hw_node (hardware s)))"
    "hw_configurations h = erase_first (\<lambda>c. conf_relayPin c = ?pin) (hidden @ vis)"
    using res vis(1) by simp_all
  have app: "erase_first (\<lambda>c. conf_relayPin c = ?pin) (hs @ vis) = hs @ erase_first (\<lambda>c. conf_relayPin c = ?pin) vis"
    if "?pin \<notin> conf_relayPin ` set hs" for hs
    using that by (induction hs) auto
  have al: "aligned (erase_first (\<lambda>c. conf_relayPin c = ?pin) vis) (hw_relays h) (hw_node h)"
    unfolding h by (rule aligned_erase [OF vis(2)])
  have "?pin \<notin> conf_relayPin ` set (erase_first (\<lambda>c. conf_relayPin c = ?pin) vis)"
    by (rule gone) (use vis(2) in \<open>simp add: aligned_def\<close>)
  moreover from this have "?pin \<notin> conf_relayPin ` set (hw_configurations h)"
    using nh by (auto simp: h(3) app [OF nh])
  ultimately show ?thesis
    using aligned_registered [OF al, of ?pin] s' kept
    by (simp add: smartResult_def commandResult_def findByRelayPin_def find_None_notin)
qed

definition example_update :: SmartLoadUpdateRequest where
  "example_update = \<lparr>slu_relayPin = 16, slu_priority = Some 11, slu_mode = None, slu_schedule = None\<rparr>"

lemma example_conf_pin [simp]: "conf_relayPin example_conf = 16"
  by (simp add: example_conf_def)

lemma rejected_update_deletes_load_witness:
  "\<exists>s result s'. hw_configurations (hardware s) = [example_conf] \<and>
     consoleSmartUpdateLoad (ram_gpio {}) ram_nvs True example_update s = (result, s') \<and>
     \<not> accepted result \<and> findByRelayPin 16 (hw_configurations (hardware s')) = None"
proof -
  obtain h where c: "configureNewLoad (ram_gpio {}) ram_nvs example_conf
     (new_NodeHardware (1, 2, 3, 4, 5, 6) (\<lambda>p. True, \<lambda>p. False) (\<lambda>k. None)) = (NONE, h)"
    using example_configured by blast
  have new: "hw_ok (new_NodeHardware mac g n)" for mac g and n :: "string \<Rightarrow> nvs_value option"
    by (simp add: hw_ok_def new_NodeHardware_def aligned_Nil)
  have ok: "hw_ok h" using configureNewLoad_ok [OF new, of "ram_gpio {}" ram_nvs example_conf] c by (metis snd_conv)
  have h: "hw_configurations h = [example_conf]" "hw_relays h = [relay_of example_conf]"
    using configureNewLoad_result [OF c] by (simp_all add: new_NodeHardware_def)
  define s where "s = fresh_smart\<lparr>hardware := h\<rparr>"
  have inv: "smart_inv [] s"
    using ok by (simp add: smart_inv_def s_def fresh_smart_def new_SmartNode_def new_identity_ok hw_part_Nil)
  have found: "findByRelayPin (slu_relayPin example_update) (hw_configurations (hardware s)) = Some example_conf"
    by (simp add: s_def h example_update_def findByRelayPin_def)
  have "fst (hw_removeLoad (ram_gpio {}) ram_nvs 16 h) = NONE"
    by (simp add: hw_removeLoad_def h findByRelayPin_def hw_setRelayState_def setRelayState_def findRelay_def
        writeGpioLevel_def ram_gpio_def hardware_persist_def erase_loads_def ram_nvs_def split_beta)
      (simp add: relay_of_def initial_relay_def registered_pin_def)
  then obtain h1 where r: "hw_removeLoad (ram_gpio {}) ram_nvs (slu_relayPin example_update) (hardware s) = (NONE, h1)"
    by (cases "hw_removeLoad (ram_gpio {}) ram_nvs 16 h") (simp add: s_def example_update_def)
  have "isValidNewConfiguration (hw_configurations h1) (updatedConfiguration example_update example_conf) \<noteq> NONE"
    by (simp add: isValidNewConfiguration_def updatedConfiguration_def example_update_def Let_def)
  then obtain why h2 where u: "configureNewLoad (ram_gpio {}) ram_nvs (updatedConfiguration example_update example_conf) h1 = (why, h2)"
    "why \<noteq> NONE"
    by (cases "configureNewLoad (ram_gpio {}) ram_nvs (updatedConfiguration example_update example_conf) h1")
      (auto simp: configureNewLoad_def)
  obtain result s' where run: "consoleSmartUpdateLoad (ram_gpio {}) ram_nvs True example_update s = (result, s')" by fastforce
  have pin: "slu_relayPin example_update = 16" by (simp add: example_update_def)
  from rejected_update_deletes_load [OF inv found r u run]
  have "\<not> accepted result" "findByRelayPin 16 (hw_configurations (hardware s')) = None"
    unfolding pin by blast+
  moreover have "hw_configurations (hardware s) = [example_conf]" by (simp add: s_def h)
  ultimately show ?thesis using run by blast
qed

section \<open>Relay commands\<close>

text \<open>
  What a Smart Node makes of a relay command that arrives: for a pin without a relay channel it
  answers reason 1 and changes nothing; for a registered pin it drives exactly that pin, to the
  level its polarity gives for the asked state, and answers success if the driver wrote it and
  reason 2 if not. The answer repeats the pin, the identifier and the state of the command.
\<close>

theorem relay_command_obeyed:
  assumes laws: "gpio_laws ga" and r: "relayControl ga c s = (a, s')"
  shows "rca_relayPin a = rcp_relayPin c \<and> rca_commandId a = rcp_commandId c \<and>
     rca_requestedState a = rcp_desiredState c \<and>
     (case findRelay (rcp_relayPin c) (hw_relays (hardware s)) of
        None \<Rightarrow> rca_success a = 0 \<and> rca_failureReason a = 1 \<and> s' = s
      | Some relay \<Rightarrow>
          (rca_success a = 1 \<and> rca_failureReason a = 0 \<and>
           gpio_level ga (hw_gpio (hardware s')) (rcp_relayPin c) =
             ((rcp_desiredState c = 1) = activeHigh (configuration relay)) \<or>
           rca_success a = 0 \<and> rca_failureReason a = 2) \<and>
          gpio_others_kept ga (rcp_relayPin c) (hw_gpio (hardware s)) (hw_gpio (hardware s')))"
proof (cases "findRelay (rcp_relayPin c) (hw_relays (hardware s))")
  case None
  then show ?thesis using r by (auto simp: relayControl_def isRelayRegistered_def)
next
  case (Some relay)
  have pin: "registered_pin relay = rcp_relayPin c" using Some by (auto simp: findRelay_def find_Some_iff)
  obtain ok g' where w: "writeGpioLevel ga relay (rcp_desiredState c = 1) (hw_gpio (hardware s)) = (ok, g')" by fastforce
  note lvl = writeGpioLevel_level [OF laws w]
  have "a = \<lparr>rca_relayPin = rcp_relayPin c, rca_commandId = rcp_commandId c, rca_requestedState = rcp_desiredState c,
      rca_success = (if ok then 1 else 0), rca_failureReason = (if ok then 0 else 2)\<rparr>"
    and "hw_gpio (hardware s') = g'"
    using r w Some by (auto simp: relayControl_def isRelayRegistered_def hw_setRelayState_def setRelayState_def)
  then show ?thesis using lvl pin Some by auto
qed

lemma relay_command_obeyed_witness:
  "\<exists>(s :: ((u8 \<Rightarrow> bool) \<times> (u8 \<Rightarrow> bool), string \<Rightarrow> nvs_value option) SmartNode) a s'.
     relayControl (ram_gpio {}) \<lparr>rcp_relayPin = 16, rcp_desiredState = 1, rcp_commandId = 9\<rparr> s = (a, s') \<and>
     rca_success a = 1 \<and> rca_commandId a = 9 \<and> \<not> gpio_level (ram_gpio {}) (hw_gpio (hardware s')) 16"
proof -
  let ?c = "\<lparr>rcp_relayPin = 16, rcp_desiredState = 1, rcp_commandId = 9\<rparr> :: RelayCommandPacket"
  obtain h where c: "configureNewLoad (ram_gpio {}) ram_nvs example_conf
     (new_NodeHardware (1, 2, 3, 4, 5, 6) (\<lambda>p. True, \<lambda>p. False) (\<lambda>k. None)) = (NONE, h)"
    using example_configured by blast
  have h: "hw_relays h = [relay_of example_conf]"
    using configureNewLoad_result [OF c] by (simp add: new_NodeHardware_def)
  define s where "s = fresh_smart\<lparr>hardware := h\<rparr>"
  obtain a s' where r: "relayControl (ram_gpio {}) ?c s = (a, s')" by fastforce
  have f: "findRelay 16 (hw_relays (hardware s)) = Some (relay_of example_conf)"
    by (simp add: s_def h findRelay_def)
  then have "rca_success a = 1"
    using r by (simp add: relayControl_def isRelayRegistered_def hw_setRelayState_def setRelayState_def
        writeGpioLevel_def ram_gpio_def split_beta)
      (auto simp: relay_of_def initial_relay_def registered_pin_def split: prod.splits)
  moreover have "\<not> activeHigh (configuration (relay_of example_conf))"
    by (simp add: relay_of_def initial_relay_def example_conf_def)
  ultimately have "rca_success a = 1" "rca_commandId a = 9" "\<not> gpio_level (ram_gpio {}) (hw_gpio (hardware s')) 16"
    using relay_command_obeyed [OF ram_gpio_laws r] f by auto
  with r show ?thesis by blast
qed

end
