(* ===== verification/End_To_End.thy ===== *)
theory End_To_End
  imports Smart_Results Relay_Handshake
begin

text \<open>
  The Central and a Smart Node together, over the frames of the radio: a relay command and its
  answer, the reports of the Loads, and the configuration of a Load.
\<close>

section \<open>Packets over the air\<close>

lemma command_type_named:
  "named_type (command_type p) \<and> command_type p \<notin> {DISCOVERY_REQUEST_TYPE, DISCOVERY_RESPONSE_TYPE, HANDSHAKE_TYPE}"
  by (cases p) (simp_all add: named_type_def named_types_def)

lemma report_type_named:
  "named_type (report_type m) \<and> report_type m \<notin> {DISCOVERY_REQUEST_TYPE, DISCOVERY_RESPONSE_TYPE, HANDSHAKE_TYPE}"
  by (cases m) (simp_all add: named_type_def named_types_def)

lemma processRaw_state:
  assumes "processRawReceivedPacket api sender signal bs r = (Some m, fs, r')"
  shows "r' = refreshDirectDownstreamNodeSignalStrength sender signal r"
  using assms by (auto simp: processRawReceivedPacket_def Let_def split: option.splits if_splits)

lemma command_arrives:
  assumes "sendTo_message api hop d (command_type p) (command_bytes p) e = (True, fs, e')"
    and "application_queue_has_room api'" and "command_representable p"
  obtains bs m where "fs = [(hop, bs)]"
    "processRawReceivedPacket api' (esp_localMacAddress e) signal bs r =
      (Some m, [], refreshDirectDownstreamNodeSignalStrength (esp_localMacAddress e) signal r)"
    "packet_of_message (msg_messageType m) (msg_payload m) = Some p"
    "msg_destinationMacAddress m = d" "msg_originMacAddress m = esp_localMacAddress e"
proof -
  from sendTo_arrives [OF assms(1) command_type_named [THEN conjunct1] command_type_named [THEN conjunct2], of api' signal r]
  obtain bs m r' where m: "fs = [(hop, bs)]"
    "processRawReceivedPacket api' (esp_localMacAddress e) signal bs r = (Some m, [], r')"
    "msg_messageType m = command_type p" "msg_payload m = command_bytes p"
    "msg_destinationMacAddress m = d" "msg_originMacAddress m = esp_localMacAddress e" using assms(2) by auto
  with packet_of_command_bytes [OF assms(3)] processRaw_state [OF m(2)] show thesis by (intro that [of bs m]) simp_all
qed

lemma report_arrives:
  assumes "sendReport api x e = (True, fs, e')" and "application_queue_has_room api'" and "report_representable x"
  obtains bs m where "fs = [(upstreamNodeMacAddress e, bs)]"
    "processRawReceivedPacket api' (esp_localMacAddress e) signal bs r =
      (Some m, [], refreshDirectDownstreamNodeSignalStrength (esp_localMacAddress e) signal r)"
    "report_of_message (msg_messageType m) (msg_payload m) = x"
    "msg_destinationMacAddress m = centralMacAddress e" "msg_originMacAddress m = esp_localMacAddress e"
proof -
  have s: "sendTo_message api (upstreamNodeMacAddress e) (centralMacAddress e) (report_type x) (report_bytes x) e = (True, fs, e')"
    using assms(1) by (simp add: sendReport_def sendToCentral_def split: if_splits)
  from sendTo_arrives [OF s report_type_named [THEN conjunct1] report_type_named [THEN conjunct2], of api' signal r]
  obtain bs m r' where m: "fs = [(upstreamNodeMacAddress e, bs)]"
    "processRawReceivedPacket api' (esp_localMacAddress e) signal bs r = (Some m, [], r')"
    "msg_messageType m = report_type x" "msg_payload m = report_bytes x"
    "msg_destinationMacAddress m = centralMacAddress e" "msg_originMacAddress m = esp_localMacAddress e" using assms(2) by auto
  with report_of_report_bytes [OF assms(3)] processRaw_state [OF m(2)] show thesis by (intro that [of bs m]) simp_all
qed

lemma sendReport_ready:
  assumes "esp_initialized e" "upstreamNodeSelected e" "centralMacAddressKnown e" "radio_ready api"
    and "length (report_bytes x) \<le> 226"
  shows "fst (sendReport api x e)"
  using assms
  by (simp add: sendReport_def sendToCentral_def sendTo_message_def buildMessage_def sendMessageTo_def addPeer_def
      radio_ready_def MAX_PAYLOAD_SIZE_eq split_beta)

section \<open>A relay command and its answer\<close>

definition relay_command :: "RelayTarget \<Rightarrow> u32 \<Rightarrow> RelayCommandPacket" where
  "relay_command t i =
     \<lparr>rcp_relayPin = target_relayPin t, rcp_desiredState = (if target_desiredOn t then 1 else 0), rcp_commandId = i\<rparr>"

text \<open>
  The frame of the command reaches the Node, its radio task queues the command, its relay task
  obeys and answers, and the frame of the answer reaches the Central's radio \<open>e\<close>.
\<close>

definition relay_exchange ::
  "RadioApi \<Rightarrow> 'g GpioApi \<Rightarrow> 'n NvsApi \<Rightarrow> IdentityReportPacket \<Rightarrow> i8 \<Rightarrow> MacAddress \<Rightarrow> RelayTarget \<Rightarrow> u32 \<Rightarrow> EspNow \<Rightarrow>
   ('g, 'n) SmartNode \<Rightarrow> (MacAddress \<times> Message \<times> ('g, 'n) SmartNode) option" where
  "relay_exchange api ga na info signal hop t i e s =
     (case sendTo_message api hop (target_nodeMacAddress t) RELAY_COMMAND_TYPE
             (command_bytes (RELAY_COMMAND (relay_command t i))) e of
        (True, [(_, bs)], e1) \<Rightarrow>
          (case processRawReceivedPacket api (esp_localMacAddress e) signal bs (communication s) of
             (Some m, _, r) \<Rightarrow>
               (case smartReceive api ga na info True True (esp_localMacAddress e) m (s\<lparr>communication := r\<rparr>) of
                  (_, _, s1) \<Rightarrow>
                    (case relayControlTurn ga s1 of
                       (ms, s2) \<Rightarrow>
                         (case sendReports api ms (communication s2) of
                            ([(_, answer)], r2) \<Rightarrow>
                              (case processRawReceivedPacket api (esp_localMacAddress r2) signal answer e1 of
                                 (Some m2, _, _) \<Rightarrow>
                                   Some (msg_originMacAddress m2,
                                         report_of_message (msg_messageType m2) (msg_payload m2),
                                         s2\<lparr>communication := r2\<rparr>)
                               | _ \<Rightarrow> None)
                          | _ \<Rightarrow> None)))
           | _ \<Rightarrow> None)
      | _ \<Rightarrow> None)"

lemma relay_exchange_result:
  assumes init: "esp_initialized e" and radio: "radio_ready api" and room: "application_queue_has_room api"
    and node: "target_nodeMacAddress t = esp_localMacAddress (communication s)" "esp_initialized (communication s)"
      "upstreamNodeSelected (communication s)" "centralMacAddressKnown (communication s)" "relayCommandQueue s = []"
  obtains a s1 s' where "relay_exchange api ga na info signal hop t i e s = Some (esp_localMacAddress (communication s), ACKNOWLEDGEMENT a, s')"
    "hardware s1 = hardware s" "hardware s' = hardware (snd (relayControl ga (relay_command t i) s1))"
    "a = fst (relayControl ga (relay_command t i) s1)"
proof -
  let ?p = "RELAY_COMMAND (relay_command t i)"
  let ?c = "communication s"
  have small: "length (command_bytes ?p) \<le> 226" by (simp add: relay_command_bytes_def)
  have sent: "fst (sendTo_message api hop (target_nodeMacAddress t) (command_type ?p) (command_bytes ?p) e)"
    using init radio small
    by (simp add: sendTo_message_def buildMessage_def sendMessageTo_def addPeer_def radio_ready_def
        MAX_PAYLOAD_SIZE_eq split_beta)
  then obtain fs e1 where st: "sendTo_message api hop (target_nodeMacAddress t) (command_type ?p) (command_bytes ?p) e = (True, fs, e1)"
    by (cases "sendTo_message api hop (target_nodeMacAddress t) (command_type ?p) (command_bytes ?p) e") auto
  obtain bs m where m: "fs = [(hop, bs)]"
    "processRawReceivedPacket api (esp_localMacAddress e) signal bs ?c =
      (Some m, [], refreshDirectDownstreamNodeSignalStrength (esp_localMacAddress e) signal ?c)"
    "packet_of_message (msg_messageType m) (msg_payload m) = Some ?p"
    "msg_destinationMacAddress m = target_nodeMacAddress t"
    by (rule command_arrives [OF st room, of signal ?c]) simp
  define r where "r = refreshDirectDownstreamNodeSignalStrength (esp_localMacAddress e) signal ?c"
  note rs = same_routeD [OF refresh_same [of ?c "esp_localMacAddress e" signal], folded r_def]
  define s0 where "s0 = s\<lparr>communication := r, relayCommandQueue := [relay_command t i]\<rparr>"
  have rec: "smartReceive api ga na info True True (esp_localMacAddress e) m (s\<lparr>communication := r\<rparr>) = (False, [], s0)"
    using m(3,4) node(1,5) rs(1)
    by (simp add: smartReceive_def handlePacket_def RELAY_COMMAND_QUEUE_SIZE_def s0_def)
  define s1 where "s1 = s0\<lparr>relayCommandQueue := []\<rparr>"
  obtain a s2 where c: "relayControl ga (relay_command t i) s1 = (a, s2)" by fastforce
  have turn: "relayControlTurn ga s0 = ([ACKNOWLEDGEMENT a], s2)"
    using c by (simp add: relayControlTurn_def s0_def s1_def)
  have comm: "communication s2 = r"
    using c by (auto simp: relayControl_def Let_def s1_def s0_def split: prod.splits)
  have "fst (sendReport api (ACKNOWLEDGEMENT a) r)"
    using node rs radio by (intro sendReport_ready) (simp_all add: relay_ack_bytes_def)
  then obtain gs r2 where g: "sendReport api (ACKNOWLEDGEMENT a) r = (True, gs, r2)"
    by (cases "sendReport api (ACKNOWLEDGEMENT a) r") auto
  obtain ans m2 where m2: "gs = [(upstreamNodeMacAddress r, ans)]"
    "processRawReceivedPacket api (esp_localMacAddress r) signal ans e1 =
      (Some m2, [], refreshDirectDownstreamNodeSignalStrength (esp_localMacAddress r) signal e1)"
    "report_of_message (msg_messageType m2) (msg_payload m2) = ACKNOWLEDGEMENT a"
    "msg_originMacAddress m2 = esp_localMacAddress r"
    by (rule report_arrives [OF g room, of signal e1]) simp
  have "esp_localMacAddress r2 = esp_localMacAddress r"
  proof -
    have "sendTo_message api (upstreamNodeMacAddress r) (centralMacAddress r) ACKNOWLEDGEMENT_TYPE (report_bytes (ACKNOWLEDGEMENT a)) r = (True, gs, r2)"
      using g by (simp add: sendReport_def sendToCentral_def split: if_splits)
    from same_routeD(1) [OF sendTo_same [OF this]] show ?thesis .
  qed
  then have ex: "relay_exchange api ga na info signal hop t i e s =
      Some (esp_localMacAddress ?c, ACKNOWLEDGEMENT a, s2\<lparr>communication := r2\<rparr>)"
    using st m(1,2) rec turn g m2 rs(1) comm
    by (simp add: relay_exchange_def r_def [symmetric])
  show thesis
    by (rule that [of a "s2\<lparr>communication := r2\<rparr>" s1, OF ex]) (use c in \<open>simp_all add: s1_def s0_def\<close>)
qed

lemma relayControl_outcome:
  assumes "relayControl ga (relay_command t i) s = (a, s')"
  shows "rca_success a = 1 \<longleftrightarrow>
      (\<exists>relay. findRelay (target_relayPin t) (hw_relays (hardware s)) = Some relay \<and>
         fst (writeGpioLevel ga relay (target_desiredOn t) (hw_gpio (hardware s))))"
    and "findRelay (target_relayPin t) (hw_relays (hardware s)) = Some relay \<Longrightarrow>
      hw_gpio (hardware s') = snd (writeGpioLevel ga relay (target_desiredOn t) (hw_gpio (hardware s)))"
    and "findRelay (target_relayPin t) (hw_relays (hardware s)) = None \<Longrightarrow> hw_gpio (hardware s') = hw_gpio (hardware s)"
  using assms
  by (cases "findRelay (target_relayPin t) (hw_relays (hardware s))";
      auto simp: relayControl_def relay_command_def isRelayRegistered_def hw_setRelayState_def setRelayState_def
        Let_def split: prod.splits if_splits)+

text \<open>
  C7: A relay command that is answered is settled by what the relay did. The Central has the command
  pending, and no two of its pending commands share an identifier; the radios of both work and their
  queues have room, and the Node has joined the mesh and has no other relay command waiting. The
  command's packet travels as a frame to the Node, whose radio task queues it and whose relay task
  obeys and answers; the answer travels back as a frame. Then the Central holds an acknowledgement from
  that Node, and handling it ends the command: it counts as successful exactly when the Node has a relay
  channel on the pin, set up, and its driver wrote the level, and then the pin has the level the
  channel's polarity gives for the state the Central asked for. Without a channel the pins stay as they were.
\<close>

theorem relay_command_end_to_end:
  assumes radio: "esp_initialized e" "radio_ready api" "application_queue_has_room api"
    and node: "target_nodeMacAddress t = esp_localMacAddress (communication s)" "esp_initialized (communication s)"
      "upstreamNodeSelected (communication s)" "centralMacAddressKnown (communication s)" "relayCommandQueue s = []"
    and laws: "gpio_laws ga"
    and pending: "dispatcher_ok (relayCommandDispatcher c)"
      "findPendingCommand i (relayCommandDispatcher c) = Some (command_of i t)"
  shows "\<exists>a s'. relay_exchange api ga na info signal hop t i e s =
       Some (target_nodeMacAddress t, ACKNOWLEDGEMENT a, s') \<and>
     (let d = relayCommandDispatcher (handleMessage pf (target_nodeMacAddress t) (ACKNOWLEDGEMENT a) now c)
      in \<not> isPending i d \<and>
         (case findRelay (target_relayPin t) (hw_relays (hardware s)) of
            None \<Rightarrow> \<not> wasCommandSuccessful i d \<and> hw_gpio (hardware s') = hw_gpio (hardware s)
          | Some relay \<Rightarrow>
              writeGpioLevel ga relay (target_desiredOn t) (hw_gpio (hardware s)) =
                (wasCommandSuccessful i d, hw_gpio (hardware s')) \<and>
              (wasCommandSuccessful i d \<longrightarrow>
                 gpio_level ga (hw_gpio (hardware s')) (target_relayPin t) =
                   (target_desiredOn t = activeHigh (configuration relay)))))"
proof -
  obtain a s1 s' where x: "relay_exchange api ga na info signal hop t i e s =
      Some (esp_localMacAddress (communication s), ACKNOWLEDGEMENT a, s')" "hardware s1 = hardware s"
    "hardware s' = hardware (snd (relayControl ga (relay_command t i) s1))"
    "a = fst (relayControl ga (relay_command t i) s1)"
    by (rule relay_exchange_result [OF radio node])
  have a: "rca_relayPin a = target_relayPin t" "rca_commandId a = i"
    "(rca_requestedState a = 1) = target_desiredOn t" "rca_success a \<in> {0, 1}"
    by (simp_all add: x(4) relayControl_def relay_command_def Let_def split_beta)
  have p: "isPending i (relayCommandDispatcher c)" using pending(2) by (simp add: isPending_def)
  note effect = completeCommand_effect [OF pending(1) p]
  define d where "d = relayCommandDispatcher (handleMessage pf (target_nodeMacAddress t) (ACKNOWLEDGEMENT a) now c)"
  have "d = snd (completeCommand i (rca_success a \<noteq> 0) (relayCommandDispatcher c))"
    using pending(2) a by (simp add: d_def handleMessage_def handleRelayAcknowledgement_def command_of_def Let_def)
  then have d: "\<not> isPending i d" "wasCommandSuccessful i d \<longleftrightarrow> rca_success a = 1"
    using effect a(4) by (auto simp: isPending_def)
  note o = relayControl_outcome [of ga t i s1, OF prod.collapse [symmetric], folded x(3,4), unfolded x(2)]
  have "case findRelay (target_relayPin t) (hw_relays (hardware s)) of
      None \<Rightarrow> \<not> wasCommandSuccessful i d \<and> hw_gpio (hardware s') = hw_gpio (hardware s)
    | Some relay \<Rightarrow>
        writeGpioLevel ga relay (target_desiredOn t) (hw_gpio (hardware s)) =
          (wasCommandSuccessful i d, hw_gpio (hardware s')) \<and>
        (wasCommandSuccessful i d \<longrightarrow>
           gpio_level ga (hw_gpio (hardware s')) (target_relayPin t) =
             (target_desiredOn t = activeHigh (configuration relay)))"
  proof (cases "findRelay (target_relayPin t) (hw_relays (hardware s))")
    case None
    with o show ?thesis by (simp add: d)
  next
    case (Some relay)
    have pin: "registered_pin relay = target_relayPin t" using Some by (auto simp: findRelay_def find_Some_iff)
    have w: "writeGpioLevel ga relay (target_desiredOn t) (hw_gpio (hardware s)) =
        (wasCommandSuccessful i d, hw_gpio (hardware s'))"
      using o Some by (simp add: d prod_eq_iff)
    with writeGpioLevel_level [OF laws w] pin Some show ?thesis by simp
  qed
  with x(1) d(1) show ?thesis unfolding node(1) [symmetric] d_def by (auto simp: Let_def)
qed

definition example_smart_radio :: EspNow where
  "example_smart_radio = (new_EspNow 7 (1, 2, 3, 4, 5, 6))\<lparr>esp_initialized := True, upstreamNodeSelected := True,
     upstreamNodeMacAddress := (1, 1, 1, 1, 1, 1), centralMacAddressKnown := True,
     centralMacAddress := (1, 1, 1, 1, 1, 1), hopCountToCentral := 1\<rparr>"

definition example_central_radio :: EspNow where
  "example_central_radio = snd (setAsCentralNode ((new_EspNow 7 (1, 1, 1, 1, 1, 1))\<lparr>esp_initialized := True\<rparr>))"

text \<open>A Node with a relay that is on when its pin is low.\<close>

definition example_switching :: "((u8 \<Rightarrow> bool) \<times> (u8 \<Rightarrow> bool), string \<Rightarrow> nvs_value option) SmartNode" where
  "example_switching = fresh_smart\<lparr>communication := example_smart_radio,
     hardware := (hardware fresh_smart)\<lparr>hw_relays :=
       [\<lparr>configuration = \<lparr>relay_pin = 25, activeHigh = False, initialStateOn = False\<rparr>, hardwareApplied = True\<rparr>]\<rparr>\<rparr>"

lemma relay_command_end_to_end_witness:
  "\<exists>a s'. relay_exchange ready_radio (ram_gpio {}) ram_nvs example_info (- 50) (1, 2, 3, 4, 5, 6) example_target 1
        example_central_radio example_switching =
      Some ((1, 2, 3, 4, 5, 6), ACKNOWLEDGEMENT a, s') \<and>
     wasCommandSuccessful 1 (relayCommandDispatcher (handleMessage example_platform (1, 2, 3, 4, 5, 6) (ACKNOWLEDGEMENT a) 0
        (handshake_central\<lparr>relayCommandDispatcher := snd (beginCommand example_target new_RelayCommandDispatcher)\<rparr>))) \<and>
     \<not> gpio_level (ram_gpio {}) (hw_gpio (hardware s')) 25"
proof -
  let ?s = example_switching
  let ?c = "handshake_central\<lparr>relayCommandDispatcher := snd (beginCommand example_target new_RelayCommandDispatcher)\<rparr>"
  have t: "target_nodeMacAddress example_target = (1, 2, 3, 4, 5, 6)" "target_relayPin example_target = 25"
    "target_desiredOn example_target"
    by (simp_all add: example_target_def)
  have e: "esp_initialized example_central_radio" by (simp add: example_central_radio_def setAsCentralNode_def)
  have q: "application_queue_has_room ready_radio" by (simp add: ready_radio_def)
  have n: "target_nodeMacAddress example_target = esp_localMacAddress (communication ?s)"
    "esp_initialized (communication ?s)" "upstreamNodeSelected (communication ?s)"
    "centralMacAddressKnown (communication ?s)" "relayCommandQueue ?s = []"
    by (simp_all add: t example_switching_def example_smart_radio_def new_EspNow_def fresh_smart_def new_SmartNode_def)
  have p: "dispatcher_ok (relayCommandDispatcher ?c)"
    "findPendingCommand 1 (relayCommandDispatcher ?c) = Some (command_of 1 example_target)"
    by (simp_all add: beginCommand_def new_RelayCommandDispatcher_def dispatcher_ok_def findPendingCommand_def
        command_of_def example_target_def)
  have r: "findRelay 25 (hw_relays (hardware ?s)) =
      Some \<lparr>configuration = \<lparr>relay_pin = 25, activeHigh = False, initialStateOn = False\<rparr>, hardwareApplied = True\<rparr>"
    by (simp add: findRelay_def registered_pin_def example_switching_def)
  from relay_command_end_to_end [OF e ready_radio q n ram_gpio_laws [of "{}"] p, where na = ram_nvs and info = example_info and
      signal = "- 50" and hop = "(1, 2, 3, 4, 5, 6)" and pf = example_platform and now = 0]
  show ?thesis unfolding t r Let_def
    by (auto simp: t writeGpioLevel_def ram_gpio_def [of "{}"] split: prod.splits) 
qed

section \<open>The reports of the Loads\<close>

text \<open>What the Central reads in a frame.\<close>

definition report_in_frame :: "MacAddress \<times> u8 list \<Rightarrow> Message option" where
  "report_in_frame f = map_option (\<lambda>m. report_of_message (msg_messageType m) (msg_payload m)) (message_of_frame (snd f))"

lemma sendTo_name: "sendTo_message api hop d t p e = (ok, fs, e') \<Longrightarrow> esp_localNodeName e' = esp_localNodeName e"
  by (auto simp: sendTo_message_def buildMessage_def sendMessageTo_def addPeer_def split: if_splits)

definition node_page :: "EspNow \<Rightarrow> bool \<Rightarrow> Node \<Rightarrow> u16 \<Rightarrow> u8 \<Rightarrow> nat \<Rightarrow> NodeReportPacket" where
  "node_page e locked node seq totalPages k =
     buildNodeReportPacket (esp_localNodeName e) (if upstreamNodeSelected e then Some (upstreamNodeMacAddress e) else None)
       (hopCountToCentral e) locked (Some node) (esp_localMacAddress e) seq (of_nat k) totalPages"

lemma node_page_representable:
  assumes "list_all (\<lambda>l. f32_ok (load_power l)) (node_loads node)" and "length (node_loads node) \<le> MAX_LOADS_PER_NODE"
  shows "report_representable (NODE_REPORT (node_page e locked node seq tp k))"
proof -
  have fits: "fits n (copyTruncated n (Some s))" for n s
    unfolding fits_def by (metis c_text_copyTruncated copyTruncated_def option.simps(5) take_take min.idem)
  have e: "load_report_representable empty_LoadReport"
    by (simp add: load_report_representable_def empty_LoadReport_def fits_def copyTruncated_def)
  have l: "load_report_representable (load_report l)" if "l \<in> set (node_loads node)" for l
    using that assms(1) fits by (auto simp: load_report_representable_def load_report_def list_all_iff)
  show ?thesis
    using e l assms(2) fits
    by (auto simp: node_page_def buildNodeReportPacket_def Let_def list_all_iff MAX_LOADS_PER_NODE_PACKET_def
        MAX_LOADS_PER_NODE_def)
qed

lemma sendPages_frames:
  assumes radio: "radio_ready api" and node: "list_all (\<lambda>l. f32_ok (load_power l)) (node_loads node)"
    "length (node_loads node) \<le> MAX_LOADS_PER_NODE"
  shows "esp_initialized e \<Longrightarrow> upstreamNodeSelected e \<Longrightarrow> centralMacAddressKnown e \<Longrightarrow>
    sendPages api taken node seq tp ks e = (delivered, fs, e') \<Longrightarrow>
    delivered \<and> same_route e e' \<and> map report_in_frame fs = 
      map (\<lambda>k. Some (NODE_REPORT (node_page e (taken (Suc k)) node seq tp k))) ks"
proof (induction ks arbitrary: e delivered fs e')
  case (Cons k ks)
  let ?x = "NODE_REPORT (node_page e (taken (Suc k)) node seq tp k)"
  have rep: "report_representable ?x" by (rule node_page_representable [OF node])
  have len: "length (report_bytes ?x) \<le> 226" using report_of_report_bytes [OF rep] by simp
  let ?roomy = "api\<lparr>application_queue_has_room := True\<rparr>"
  have "fst (sendReport api ?x e)" by (rule sendReport_ready [OF Cons.prems(1,2,3) radio len])
  then obtain gs e1 where g: "sendReport api ?x e = (True, gs, e1)" by (cases "sendReport api ?x e") auto
  then have st: "sendTo_message api (upstreamNodeMacAddress e) (centralMacAddress e) NODE_REPORT_TYPE
      (report_bytes ?x) e = (True, gs, e1)"
    by (simp add: sendReport_def sendToCentral_def split: if_splits)
  note sr = sendTo_same [OF st] and nm = sendTo_name [OF st]
  obtain bs m where m: "gs = [(upstreamNodeMacAddress e, bs)]"
    "processRawReceivedPacket ?roomy (esp_localMacAddress e) 0 bs e =
      (Some m, [], refreshDirectDownstreamNodeSignalStrength (esp_localMacAddress e) 0 e)"
    "report_of_message (msg_messageType m) (msg_payload m) = ?x"
    by (rule report_arrives [OF g _ rep, of ?roomy 0 e]) simp
  have "message_of_frame bs = Some m"
    using m(2) by (auto simp: processRawReceivedPacket_def Let_def split: option.splits if_splits)
  then have f: "map report_in_frame gs = [Some ?x]" using m by (simp add: report_in_frame_def)
  obtain d hs e2 where h: "sendPages api taken node seq tp ks e1 = (d, hs, e2)" by (metis prod_cases3)
  have same_page: "node_page e1 b node seq tp j = node_page e b node seq tp j" for b j
    using same_routeD [OF sr] nm by (simp add: node_page_def)
  have "d \<and> same_route e1 e2 \<and> map report_in_frame hs = 
      map (\<lambda>k. Some (NODE_REPORT (node_page e1 (taken (Suc k)) node seq tp k))) ks"
    by (rule Cons.IH) (use Cons.prems same_routeD [OF sr] h in simp_all)
  moreover have "delivered = d" "fs = gs @ hs" "e' = e2"
    using Cons.prems(4) g h by (simp_all add: node_page_def)
  ultimately show ?case using f same_route_trans [OF sr] by (simp add: same_page)
qed simp

text \<open>
  The page that goes out for the page \<open>p\<close> of the report: without the mutex for the count the report
  is announced as one page, without the mutex for the page it has no Loads.
\<close>

definition sent_page :: "(nat \<Rightarrow> bool) \<Rightarrow> NodeReportPacket \<Rightarrow> nat \<Rightarrow> NodeReportPacket" where
  "sent_page taken p k =
     (let q = (if taken 0 then p else p\<lparr>packet_totalPages := 1\<rparr>)
      in if taken (Suc k) then q
         else q\<lparr>packet_numberOfLoads := 0, packet_loads := replicate MAX_LOADS_PER_NODE_PACKET empty_LoadReport\<rparr>)"

lemma node_page_sent_page:
  "node_macAddress node = esp_localMacAddress e \<Longrightarrow>
   node_page e (taken (Suc k)) node seq (computeReportPageCount (if taken 0 then length (node_loads node) else 0)) k =
   sent_page taken
     (report_page (esp_localNodeName e) (if upstreamNodeSelected e then Some (upstreamNodeMacAddress e) else None)
        (hopCountToCentral e) node seq k) k"
  by (simp add: node_page_def report_page_def sent_page_def buildNodeReportPacket_def Let_def
      computeReportPageCount_def MAX_LOADS_PER_NODE_PACKET_def)

text \<open>
  C23: The report a Smart Node sends every two seconds says what its Loads are. On a working radio
  with a route, with a well-formed Node under its own address with at most 16 Loads, the Node does not
  restart, and the frames it hands to the radio are, read by the Central, exactly the pages of its report
  in order, with the Node's name, upstream and hop count and the next sequence number; those are the pages
  from which the Central rebuilds the Node's Loads. This needs the Node's mutex: a page for which it was
  not obtained goes out with no Loads, otherwise unchanged, and when it was not obtained for the count
  the report is its first page alone, announced as complete.
\<close>

theorem node_report_over_the_air:
  assumes radio: "radio_ready api" "esp_initialized (communication s)" "upstreamNodeSelected (communication s)"
      "centralMacAddressKnown (communication s)"
    and node: "report_ok (hw_node (hardware s))" "list_all (\<lambda>l. f32_ok (load_power l)) (node_loads (hw_node (hardware s)))"
      "node_macAddress (hw_node (hardware s)) = esp_localMacAddress (communication s)"
    and r: "reportTurn api taken s = (restarts, fs, s')"
    and page: "page = report_page (esp_localNodeName (communication s)) (Some (upstreamNodeMacAddress (communication s)))
      (hopCountToCentral (communication s)) (hw_node (hardware s)) (reportSequence s')"
  shows "\<not> restarts \<and> consecutiveReportFailures s' = 0 \<and> reportSequence s' = reportSequence s + 1 \<and>
    map report_in_frame fs =
      map (\<lambda>k. Some (NODE_REPORT (sent_page taken (page k) k)))
        [0..<if taken 0 then page_count (hw_node (hardware s)) else 1] \<and>
    ((\<forall>k. taken k) \<longrightarrow>
       map report_in_frame fs = map (\<lambda>k. Some (NODE_REPORT (page k))) [0..<page_count (hw_node (hardware s))])"
proof -
  let ?node = "hw_node (hardware s)"
  define tp where "tp = computeReportPageCount (if taken 0 then length (node_loads ?node) else 0)"
  have tp: "unat tp = (if taken 0 then page_count ?node else 1)"
    using unat_page_count [OF node(1)] by (simp add: tp_def computeReportPageCount_def MAX_LOADS_PER_NODE_PACKET_def)
  obtain d gs e where p: "sendPages api taken ?node (reportSequence s + 1) tp [0..<unat tp] (communication s) = (d, gs, e)"
    by (metis prod_cases3)
  have "length (node_loads ?node) \<le> MAX_LOADS_PER_NODE" using node(1) by (simp add: report_ok_def)
  from sendPages_frames [OF radio(1) node(2) this radio(2-4) p]
  have res: "d" "same_route (communication s) e" "map report_in_frame gs =
      map (\<lambda>k. Some (NODE_REPORT (node_page (communication s) (taken (Suc k)) ?node (reportSequence s + 1) tp k)))
        [0..<unat tp]" by blast+
  have "upstreamNodeSelected e" using same_routeD(7) [OF res(2)] radio(3) by simp
  then have s': "restarts = False" "fs = gs" "reportSequence s' = reportSequence s + 1" "consecutiveReportFailures s' = 0"
    using r p res(1) unfolding reportTurn_def by (auto simp: Let_def tp_def [symmetric])
  have pages: "map report_in_frame fs = map (\<lambda>k. Some (NODE_REPORT (sent_page taken (page k) k)))
      [0..<if taken 0 then page_count ?node else 1]"
    using res(3) radio(3) node_page_sent_page [OF node(3), of taken]
    by (simp add: s' page tp_def [symmetric] tp)
  moreover have "sent_page taken p k = p" if "\<forall>k. taken k" for p k using that by (simp add: sent_page_def)
  ultimately show ?thesis by (simp add: s')
qed

lemma node_report_over_the_air_witness:
  "\<exists>fs s'. reportTurn ready_radio (\<lambda>_. True)
       (fresh_smart\<lparr>communication := example_smart_radio, hardware := (hardware fresh_smart)\<lparr>hw_node := example_node\<rparr>\<rparr>) =
     (False, fs, s') \<and> length fs = 1 \<and> reportSequence s' = 1"
proof -
  let ?s = "fresh_smart\<lparr>communication := example_smart_radio, hardware := (hardware fresh_smart)\<lparr>hw_node := example_node\<rparr>\<rparr>"
  obtain restarts fs s' where r: "reportTurn ready_radio (\<lambda>_. True) ?s = (restarts, fs, s')" by (metis prod_cases3)
  have radio: "esp_initialized (communication ?s)" "upstreamNodeSelected (communication ?s)" "centralMacAddressKnown (communication ?s)"
    by (simp_all add: example_smart_radio_def)
  have node: "report_ok (hw_node (hardware ?s))" "list_all (\<lambda>l. f32_ok (load_power l)) (node_loads (hw_node (hardware ?s)))"
    "node_macAddress (hw_node (hardware ?s)) = esp_localMacAddress (communication ?s)"
    using example_node_ok(1)
    by (simp_all add: example_node_def example_smart_radio_def new_EspNow_def new_Load_def setPowerRatingWatts_def f32_ok_watts)
  from node_report_over_the_air [OF ready_radio radio node r refl] example_node_ok(2)
  have "\<not> restarts" "reportSequence s' = reportSequence ?s + 1" "length (map report_in_frame fs) = 1" by simp_all
  with r show ?thesis by (simp add: fresh_smart_def new_SmartNode_def)
qed

section \<open>Configuring a Load of a Smart Node\<close>

text \<open>
  What the Central configures on a Smart Node is not what it configures on itself: of the schedule it sends only the start.
  The Node receives every other setting unchanged, but a window that ends at midnight: a schedule
  that asked for another end is stored with a different one, and a window that starts at midnight is
  refused as invalid, whatever its end.
\<close>

theorem configure_load_loses_window_end:
  assumes "named_mode (cc_mode request)" and "named_power_type (cc_powerType request)"
  shows "configuration_of_packet (configureLoadPacket request) =
      \<lparr>conf_name = copyTruncated 16 (Some (cc_loadName request)), conf_relayPin = cc_relayPin request,
       conf_relayActiveHigh = cc_relayActiveHigh request, conf_powerRatingWatts = cc_powerRatingWatts request,
       conf_powerType = cc_powerType request, conf_mode = cc_mode request, conf_priority = cc_priority request,
       conf_schedule = AutoSchedule5 (enabled (cc_schedule request)) (startHour (cc_schedule request))
         (startMinute (cc_schedule request)) 0 0\<rparr> \<and>
    (endHour (cc_schedule request) \<noteq> 0 \<and> enabled (cc_schedule request) \<longrightarrow>
       conf_schedule (configuration_of_packet (configureLoadPacket request)) \<noteq> cc_schedule request) \<and>
    (enabled (cc_schedule request) \<and> startHour (cc_schedule request) = 0 \<and> startMinute (cc_schedule request) = 0 \<longrightarrow>
       isValidNewConfiguration cs (configuration_of_packet (configureLoadPacket request)) = INVALID_CONFIGURATION)"
proof -
  define v where "v = configuration_of_packet (configureLoadPacket request)"
  have idem: "copyTruncated 16 (Some (copyTruncated 16 (Some s))) = copyTruncated 16 (Some s)" for s
    by (simp add: copyTruncated_def)
  have one: "((if b then 1 else 0) \<noteq> (0 :: u8)) = b" for b by simp
  have v: "v = \<lparr>conf_name = copyTruncated 16 (Some (cc_loadName request)), conf_relayPin = cc_relayPin request,
       conf_relayActiveHigh = cc_relayActiveHigh request, conf_powerRatingWatts = cc_powerRatingWatts request,
       conf_powerType = cc_powerType request, conf_mode = cc_mode request, conf_priority = cc_priority request,
       conf_schedule = AutoSchedule5 (enabled (cc_schedule request)) (startHour (cc_schedule request))
         (startMinute (cc_schedule request)) 0 0\<rparr>"
    using assms by (simp add: v_def configuration_of_packet_def configureLoadPacket_def idem one)
  have "endHour (conf_schedule v) = 0" by (simp add: v AutoSchedule5_def)
  moreover have "isValidNewConfiguration cs v = INVALID_CONFIGURATION"
    if "enabled (cc_schedule request)" "startHour (cc_schedule request) = 0" "startMinute (cc_schedule request) = 0"
  proof -
    have "\<not> conf_scheduleValid (conf_schedule v)"
      using that by (simp add: v conf_scheduleValid_def AutoSchedule5_def)
    then show ?thesis by (simp add: isValidNewConfiguration_def)
  qed
  ultimately show ?thesis using v unfolding v_def [symmetric] by auto
qed

lemma configure_load_loses_window_end_witness:
  "isValidNewConfiguration [] (configuration_of_packet (configureLoadPacket
     (empty_request\<lparr>cc_loadName := ''Pump'', cc_mode := AUTO_ON, cc_powerType := AC, cc_powerRatingWatts := watts 60,
        cc_schedule := \<lparr>enabled = True, startHour = 0, startMinute = 0, endHour = 8, endMinute = 0\<rparr>\<rparr>))) =
   INVALID_CONFIGURATION"
proof -
  define request where "request = empty_request\<lparr>cc_loadName := ''Pump'', cc_mode := AUTO_ON, cc_powerType := AC,
      cc_powerRatingWatts := watts 60,
      cc_schedule := \<lparr>enabled = True, startHour = 0, startMinute = 0, endHour = 8, endMinute = 0\<rparr>\<rparr>"
  have n: "named_mode (cc_mode request)" "named_power_type (cc_powerType request)"
    by (simp_all add: request_def named_mode_def named_power_type_def)
  have "cc_schedule request = \<lparr>enabled = True, startHour = 0, startMinute = 0, endHour = 8, endMinute = 0\<rparr>"
    by (simp add: request_def)
  with configure_load_loses_window_end [OF n, of "[]", THEN conjunct2, THEN conjunct2] show ?thesis unfolding request_def [symmetric] by simp
qed

end
