(* ===== verification/Topology.thy ===== *)
theory Topology
  imports Json Commissioning Routing
begin

text \<open>
  The state Central publishes about its Nodes and Loads: \<open>TopologyTree.cpp\<close> (the tree of Nodes and
  the list of Loads) and \<open>NodeRegistryJson.cpp\<close> (the records of the Nodes). Every builder appends
  to a string, in the order the code does; the lemmas say which JSON value the text is.
\<close>

section \<open>Loads\<close>

definition in_quotes :: "string \<Rightarrow> string" where
  "in_quotes t = [CHR 0x22] @ t @ [CHR 0x22]"

definition appendMacAddressJson :: "MacAddress \<Rightarrow> string \<Rightarrow> string" where
  "appendMacAddressJson mac out = appendString out (formatMacAddressText 18 mac)"

definition controlModeText :: "Load \<Rightarrow> string" where
  "controlModeText l = (if isFixed l then ''FIXED'' else ''AUTO'')"

fun loadModeText :: "LoadModeValue \<Rightarrow> string" where
  "loadModeText FIXED_OFF = ''FIXED_OFF''"
| "loadModeText FIXED_ON = ''FIXED_ON''"
| "loadModeText AUTO_OFF = ''AUTO_OFF''"
| "loadModeText AUTO_ON = ''AUTO_ON''"
| "loadModeText (UNNAMED_MODE b) = ''UNKNOWN''"

definition rejectionReasonText :: "u8 \<Rightarrow> string" where
  "rejectionReasonText reason =
     (if reason = 0 then ''NONE'' else if reason = 1 then ''LOW_BATTERY''
      else if reason = 2 then ''POWER_BUDGET_EXCEEDED'' else if reason = 3 then ''BATTERY_CURRENT_LIMIT''
      else if reason = 4 then ''MAIN_LIMIT_EXCEEDED'' else if reason = 5 then ''BRANCH_LIMIT_EXCEEDED''
      else ''UNKNOWN'')"

definition appendLoadJson :: "string \<Rightarrow> Load \<Rightarrow> string \<Rightarrow> string" where
  "appendLoadJson nodeName l out =
     (let s = load_schedule l;
          out1 = appendString (out @ ''{'' @ json_key ''name'') (load_name l);
          out2 = appendString (out1 @ '','' @ json_key ''nodeName'') nodeName;
          out3 = appendMacAddressJson (getMacAddress l) (out2 @ '','' @ json_key ''nodeMac'')
      in out3 @
         '','' @ json_key ''relayPin'' @ decimal (unat (getRelayPin l)) @
         '','' @ json_key ''controlMode'' @ in_quotes (controlModeText l) @
         '','' @ json_key ''mode'' @ in_quotes (loadModeText (load_mode l)) @
         '','' @ json_key ''manualControlAllowed'' @ bool_text (isFixed l) @
         '','' @ json_key ''priority'' @ decimal (unat (load_priority l)) @
         '','' @ json_key ''powerRatingWatts'' @ fixed_text 6 (load_power l) @
         '','' @ json_key ''powerType'' @ in_quotes (if load_powerType l = AC then ''AC'' else ''DC'') @
         '','' @ json_key ''schedule'' @ ''{'' @ json_key ''enabled'' @ bool_text (enabled s) @
         '','' @ json_key ''startHour'' @ decimal (unat (startHour s)) @
         '','' @ json_key ''startMinute'' @ decimal (unat (startMinute s)) @
         '','' @ json_key ''endHour'' @ decimal (unat (endHour s)) @
         '','' @ json_key ''endMinute'' @ decimal (unat (endMinute s)) @
         ''},'' @ json_key ''bestFirstRejectionReason'' @ in_quotes (rejectionReasonText (load_reason l)) @
         ''}'')"

definition appendLoadsForNode :: "PlanningNode \<Rightarrow> string \<Rightarrow> string" where
  "appendLoadsForNode pn out =
     append_separated (appendLoadJson (plan_nodeName pn)) (node_loads (plan_node pn))
       (out @ json_key ''loads'' @ ''['') @ '']''"

definition buildLoadsJson :: "CentralNodeRegistry \<Rightarrow> u32 \<Rightarrow> string" where
  "buildLoadsJson ns schemaVersion =
     append_separated (\<lambda>(pn, l). appendLoadJson (plan_nodeName pn) l)
       (concat (map (\<lambda>pn. map (Pair pn) (node_loads (plan_node pn))) ns))
       (''{'' @ json_key ''schemaVersion'' @ decimal (unat schemaVersion) @ '','' @ json_key ''loads'' @ ''['') @
     '']}''"

section \<open>The tree\<close>

definition appendDiagnosticsJson :: "NodeCommissioningRegistry \<Rightarrow> MacAddress \<Rightarrow> string \<Rightarrow> string" where
  "appendDiagnosticsJson rs mac out =
     (case findByMac mac rs of
        None \<Rightarrow> out @ json_key ''diagnostics'' @ ''null''
      | Some r \<Rightarrow>
          let d = rec_diagnostics r;
              out1 = appendString (out @ json_key ''diagnostics'' @ ''{'' @ json_key ''firmwareVersion'')
                (rec_firmwareVersion r);
              out2 = appendString (out1 @ '','' @ json_key ''chipModel'') (rec_chipModel r)
          in appendString
               (out2 @
                '','' @ json_key ''freeHeapBytes'' @ decimal (unat (freeHeapBytes d)) @
                '','' @ json_key ''minFreeHeapBytes'' @ decimal (unat (minFreeHeapBytes d)) @
                '','' @ json_key ''flashSizeBytes'' @ decimal (unat (flashSizeBytes d)) @
                '','' @ json_key ''psramSizeBytes'' @ decimal (unat (psramSizeBytes d)) @
                '','' @ json_key ''cpuCores'' @ decimal (unat (cpuCores d)) @
                '','' @ json_key ''resetReason'') (resetReason d) @ ''}'')"

text \<open>
  The children of a Node: the Smart Nodes that name it as their next hop, in the order of the
  registry, each with its own children while \<open>depthRemaining\<close> lasts.
\<close>

definition childrenOf :: "CentralNodeRegistry \<Rightarrow> MacAddress \<Rightarrow> PlanningNode list" where
  "childrenOf ns parentMac = filter (\<lambda>pn. \<not> plan_isCentralNode pn \<and> plan_nextHop pn = parentMac) ns"

fun appendChildren ::
  "nat \<Rightarrow> CentralNodeRegistry \<Rightarrow> NodeCommissioningRegistry \<Rightarrow> u32 \<Rightarrow> u32 \<Rightarrow> MacAddress \<Rightarrow> string \<Rightarrow> string" where
  "appendChildren depthRemaining ns rs now timeout parentMac out =
     append_separated
       (\<lambda>pn o1.
          let o2 = appendString (o1 @ ''{'' @ json_key ''type'' @ in_quotes ''node'' @
                '','' @ json_key ''nodeRole'' @ in_quotes ''SMART'' @ '','' @ json_key ''name'') (plan_nodeName pn);
              o3 = appendMacAddressJson (plan_mac pn) (o2 @ '','' @ json_key ''mac'');
              o4 = appendMacAddressJson (plan_nextHop pn) (o3 @ '','' @ json_key ''parentMac'');
              o5 = appendDiagnosticsJson rs (plan_mac pn)
                (o4 @ '','' @ json_key ''hopCountToCentral'' @ decimal (unat (plan_hopCount pn)) @
                 '','' @ json_key ''online'' @ bool_text (now - plan_lastSeen pn \<le> timeout) @ '','');
              o6 = appendLoadsForNode pn (o5 @ '','')
          in (if depthRemaining > 0
              then appendChildren (depthRemaining - 1) ns rs now timeout (plan_mac pn) (o6 @ '','')
              else o6 @ '','' @ json_key ''children'' @ ''[]'') @ ''}'')
       (childrenOf ns parentMac) (out @ json_key ''children'' @ ''['') @ '']''"

declare appendChildren.simps [simp del]

definition buildTreeJson :: "CentralNodeRegistry \<Rightarrow> NodeCommissioningRegistry \<Rightarrow> u32 \<Rightarrow> u32 \<Rightarrow> u32 \<Rightarrow> string" where
  "buildTreeJson ns rs schemaVersion now timeout =
     (let json = ''{'' @ json_key ''schemaVersion'' @ decimal (unat schemaVersion) @ '','' @ json_key ''central''
      in case find plan_isCentralNode ns of
           None \<Rightarrow> json @ ''null}''
         | Some central \<Rightarrow>
             let o1 = appendString (json @ ''{'' @ json_key ''type'' @ in_quotes ''node'' @
                   '','' @ json_key ''nodeRole'' @ in_quotes ''CENTRAL'' @ '','' @ json_key ''name'')
                   (plan_nodeName central);
                 o2 = appendMacAddressJson (plan_mac central) (o1 @ '','' @ json_key ''mac'');
                 o3 = appendDiagnosticsJson rs (plan_mac central)
                   (o2 @ '','' @ json_key ''online'' @ ''true,'');
                 o4 = appendLoadsForNode central (o3 @ '','')
             in appendChildren (length ns) ns rs now timeout (plan_mac central) (o4 @ '','') @ ''}}'')"

section \<open>The records of the Nodes\<close>

definition pinIsUsed :: "PlanningNode option \<Rightarrow> u8 \<Rightarrow> bool" where
  "pinIsUsed node pin =
     (case node of None \<Rightarrow> False | Some pn \<Rightarrow> list_ex (\<lambda>l. getRelayPin l = pin) (node_loads (plan_node pn)))"

definition nodeIsOnline :: "u32 \<Rightarrow> u32 \<Rightarrow> PlanningNode \<Rightarrow> bool" where
  "nodeIsOnline now timeout pn \<longleftrightarrow> plan_isCentralNode pn \<or> now - plan_lastSeen pn \<le> timeout"

definition appendRelayPins :: "CommissioningRecord \<Rightarrow> PlanningNode option \<Rightarrow> string \<Rightarrow> string" where
  "appendRelayPins r node out =
     (let pins = take (unat (rec_relayCapabilityCount r)) (rec_relayPins r);
          appendPin = (\<lambda>pin o'. o' @ decimal (unat pin));
          out1 = append_separated appendPin (filter (pinIsUsed node) pins)
            (out @ json_key ''usedRelayPins'' @ ''['')
      in append_separated appendPin (filter (\<lambda>pin. \<not> pinIsUsed node pin) pins)
           (out1 @ ''],'' @ json_key ''availableRelayPins'' @ ''['') @ '']'')"

text \<open>The temperature goes through a buffer of 24 characters.\<close>

definition appendDiagnostics :: "Diagnostics \<Rightarrow> string \<Rightarrow> string" where
  "appendDiagnostics d out =
     appendString
       (out @ ''{'' @ json_key ''freeHeapBytes'' @ decimal (unat (freeHeapBytes d)) @
        '','' @ json_key ''minFreeHeapBytes'' @ decimal (unat (minFreeHeapBytes d)) @
        '','' @ json_key ''flashSizeBytes'' @ decimal (unat (flashSizeBytes d)) @
        '','' @ json_key ''psramSizeBytes'' @ decimal (unat (psramSizeBytes d)) @
        '','' @ json_key ''siliconRevision'' @ decimal (unat (siliconRevision d)) @
        '','' @ json_key ''cpuCores'' @ decimal (unat (cpuCores d)) @
        '','' @ json_key ''cpuFrequencyMhz'' @ decimal (unat (cpuFrequencyMhz d)) @
        '','' @ json_key ''resetReason'') (resetReason d) @
     '','' @ json_key ''temperatureAvailable'' @ bool_text (temperatureAvailable d) @
     '','' @ json_key ''temperatureCelsius'' @
     (if temperatureAvailable d then take 23 (fixed_text 2 (temperatureCelsius d)) else ''null'') @ ''}''"

fun syncStateText :: "SyncState \<Rightarrow> string" where
  "syncStateText SYNCED = ''SYNCED''"
| "syncStateText PENDING = ''PENDING''"
| "syncStateText FAILED = ''FAILED''"

fun role_text :: "NodeRole \<Rightarrow> string" where
  "role_text CENTRAL = ''central''"
| "role_text SMART = ''smart''"
| "role_text (UNNAMED_ROLE b) = ''unknown''"

definition loadCount :: "PlanningNode option \<Rightarrow> nat" where
  "loadCount node = (case node of None \<Rightarrow> 0 | Some pn \<Rightarrow> length (node_loads (plan_node pn)))"

definition appendStateNode ::
  "CentralNodeRegistry \<Rightarrow> u32 \<Rightarrow> u32 \<Rightarrow> CommissioningRecord \<Rightarrow> string \<Rightarrow> string" where
  "appendStateNode ns now timeout r out =
     (let node = findNodeByMacAddress (rec_macAddress r) ns;
          out1 = appendMacAddressJson (rec_macAddress r) (out @ ''{'' @ json_key ''mac'');
          out2 = appendString (out1 @ '','' @ json_key ''role'' @ in_quotes (role_text (rec_role r)) @
            '','' @ json_key ''nodeName'') (rec_friendlyName r);
          out3 = appendString (out2 @ '','' @ json_key ''lifecycleState'' @
            in_quotes (lifecycle_text (rec_lifecycleState r)) @
            '','' @ json_key ''syncState'' @ in_quotes (syncStateText (rec_syncState r)) @
            '','' @ json_key ''firmwareVersion'') (rec_firmwareVersion r);
          out4 = appendString (out3 @ '','' @ json_key ''chipModel'') (rec_chipModel r);
          out5 = appendRelayPins r node (out4 @ '','' @ json_key ''loadCount'' @ decimal (loadCount node) @ '','');
          out6 = appendDiagnostics (rec_diagnostics r) (out5 @ '','' @ json_key ''diagnostics'')
      in (case node of
            None \<Rightarrow> out6 @ '','' @ json_key ''online'' @ ''false,'' @ json_key ''hopCountToCentral'' @ ''null,'' @
                     json_key ''nextHopMac'' @ ''null''
          | Some pn \<Rightarrow>
              if plan_isCentralNode pn
              then out6 @ '','' @ json_key ''online'' @ ''null,'' @ json_key ''hopCountToCentral'' @ ''0,'' @
                     json_key ''nextHopMac'' @ ''null''
              else appendMacAddressJson (plan_nextHop pn)
                     (out6 @ '','' @ json_key ''online'' @ bool_text (nodeIsOnline now timeout pn) @
                      '','' @ json_key ''hopCountToCentral'' @ decimal (unat (plan_hopCount pn)) @
                      '','' @ json_key ''nextHopMac'')) @ ''}'')"

definition buildStateNodesJson ::
  "NodeCommissioningRegistry \<Rightarrow> CentralNodeRegistry \<Rightarrow> u32 \<Rightarrow> u32 \<Rightarrow> u32 \<Rightarrow> string" where
  "buildStateNodesJson rs ns schemaVersion now timeout =
     append_separated (appendStateNode ns now timeout) rs
       (''{'' @ json_key ''schemaVersion'' @ decimal (unat schemaVersion) @
        '','' @ json_key ''nodeCount'' @ decimal (length ns) @
        '','' @ json_key ''onlineSmartNodeCount'' @
        decimal (length (filter (\<lambda>pn. \<not> plan_isCentralNode pn \<and> nodeIsOnline now timeout pn) ns)) @
        '','' @ json_key ''nodes'' @ ''['') @ '']}''"

definition appendConfigNode :: "CentralNodeRegistry \<Rightarrow> CommissioningRecord \<Rightarrow> string \<Rightarrow> string" where
  "appendConfigNode ns r out =
     (let node = findNodeByMacAddress (rec_macAddress r) ns;
          out1 = appendMacAddressJson (rec_macAddress r) (out @ ''{'' @ json_key ''mac'');
          out2 = appendString (out1 @ '','' @ json_key ''role'' @ in_quotes (role_text (rec_role r)) @
            '','' @ json_key ''nodeName'') (rec_friendlyName r)
      in appendRelayPins r node
           (out2 @ '','' @ json_key ''lifecycleState'' @ in_quotes (lifecycle_text (rec_lifecycleState r)) @
            '','' @ json_key ''loadCount'' @ decimal (loadCount node) @ '','') @ ''}'')"

definition buildConfigNodesJson :: "NodeCommissioningRegistry \<Rightarrow> CentralNodeRegistry \<Rightarrow> u32 \<Rightarrow> string" where
  "buildConfigNodesJson rs ns schemaVersion =
     append_separated (appendConfigNode ns) rs
       (''{'' @ json_key ''schemaVersion'' @ decimal (unat schemaVersion) @
        '','' @ json_key ''nodeCount'' @ decimal (length ns) @ '','' @ json_key ''nodes'' @ ''['') @ '']}''"

section \<open>What the texts say\<close>

abbreviation num :: "nat \<Rightarrow> json" where "num n \<equiv> JNumber (decimal n)"
abbreviation mac_json :: "MacAddress \<Rightarrow> json" where "mac_json mac \<equiv> JString (formatMacAddressText 18 mac)"

definition load_value :: "string \<Rightarrow> Load \<Rightarrow> json" where
  "load_value nodeName l =
     (let s = load_schedule l
      in JObject
        [(''name'', JString (load_name l)), (''nodeName'', JString nodeName), (''nodeMac'', mac_json (getMacAddress l)),
         (''relayPin'', num (unat (getRelayPin l))), (''controlMode'', JString (controlModeText l)),
         (''mode'', JString (loadModeText (load_mode l))), (''manualControlAllowed'', JBool (isFixed l)),
         (''priority'', num (unat (load_priority l))), (''powerRatingWatts'', JNumber (fixed_text 6 (load_power l))),
         (''powerType'', JString (if load_powerType l = AC then ''AC'' else ''DC'')),
         (''schedule'', JObject
            [(''enabled'', JBool (enabled s)), (''startHour'', num (unat (startHour s))),
             (''startMinute'', num (unat (startMinute s))), (''endHour'', num (unat (endHour s))),
             (''endMinute'', num (unat (endMinute s)))]),
         (''bestFirstRejectionReason'', JString (rejectionReasonText (load_reason l)))])"

definition node_loads_value :: "PlanningNode \<Rightarrow> json" where
  "node_loads_value pn = JArray (map (load_value (plan_nodeName pn)) (node_loads (plan_node pn)))"

definition loads_value :: "CentralNodeRegistry \<Rightarrow> u32 \<Rightarrow> json" where
  "loads_value ns schemaVersion =
     JObject [(''schemaVersion'', num (unat schemaVersion)),
       (''loads'', JArray (concat (map (\<lambda>pn. map (load_value (plan_nodeName pn)) (node_loads (plan_node pn))) ns)))]"

definition diagnostics_value :: "NodeCommissioningRegistry \<Rightarrow> MacAddress \<Rightarrow> json" where
  "diagnostics_value rs mac =
     (case findByMac mac rs of
        None \<Rightarrow> JNull
      | Some r \<Rightarrow>
          let d = rec_diagnostics r
          in JObject
            [(''firmwareVersion'', JString (rec_firmwareVersion r)), (''chipModel'', JString (rec_chipModel r)),
             (''freeHeapBytes'', num (unat (freeHeapBytes d))), (''minFreeHeapBytes'', num (unat (minFreeHeapBytes d))),
             (''flashSizeBytes'', num (unat (flashSizeBytes d))), (''psramSizeBytes'', num (unat (psramSizeBytes d))),
             (''cpuCores'', num (unat (cpuCores d))), (''resetReason'', JString (resetReason d))])"

definition smart_value :: "NodeCommissioningRegistry \<Rightarrow> u32 \<Rightarrow> u32 \<Rightarrow> PlanningNode \<Rightarrow> json list \<Rightarrow> json" where
  "smart_value rs now timeout pn children =
     JObject
       [(''type'', JString ''node''), (''nodeRole'', JString ''SMART''), (''name'', JString (plan_nodeName pn)),
        (''mac'', mac_json (plan_mac pn)), (''parentMac'', mac_json (plan_nextHop pn)),
        (''hopCountToCentral'', num (unat (plan_hopCount pn))),
        (''online'', JBool (now - plan_lastSeen pn \<le> timeout)),
        (''diagnostics'', diagnostics_value rs (plan_mac pn)), (''loads'', node_loads_value pn),
        (''children'', JArray children)]"

fun tree_children ::
  "nat \<Rightarrow> CentralNodeRegistry \<Rightarrow> NodeCommissioningRegistry \<Rightarrow> u32 \<Rightarrow> u32 \<Rightarrow> MacAddress \<Rightarrow> json list" where
  "tree_children 0 ns rs now timeout parentMac =
     map (\<lambda>pn. smart_value rs now timeout pn []) (childrenOf ns parentMac)"
| "tree_children (Suc depth) ns rs now timeout parentMac =
     map (\<lambda>pn. smart_value rs now timeout pn (tree_children depth ns rs now timeout (plan_mac pn)))
       (childrenOf ns parentMac)"

definition central_value ::
  "CentralNodeRegistry \<Rightarrow> NodeCommissioningRegistry \<Rightarrow> u32 \<Rightarrow> u32 \<Rightarrow> PlanningNode \<Rightarrow> json" where
  "central_value ns rs now timeout central =
     JObject
       [(''type'', JString ''node''), (''nodeRole'', JString ''CENTRAL''), (''name'', JString (plan_nodeName central)),
        (''mac'', mac_json (plan_mac central)), (''online'', JBool True),
        (''diagnostics'', diagnostics_value rs (plan_mac central)), (''loads'', node_loads_value central),
        (''children'', JArray (tree_children (length ns) ns rs now timeout (plan_mac central)))]"

definition tree_value :: "CentralNodeRegistry \<Rightarrow> NodeCommissioningRegistry \<Rightarrow> u32 \<Rightarrow> u32 \<Rightarrow> u32 \<Rightarrow> json" where
  "tree_value ns rs schemaVersion now timeout =
     JObject [(''schemaVersion'', num (unat schemaVersion)),
       (''central'',
        case find plan_isCentralNode ns of None \<Rightarrow> JNull | Some central \<Rightarrow> central_value ns rs now timeout central)]"

text \<open>Text without quotes and backslashes needs no escaping.\<close>

definition plain :: "string \<Rightarrow> bool" where
  "plain t \<longleftrightarrow> list_all (\<lambda>c. c \<noteq> CHR 0x22 \<and> c \<noteq> CHR 0x5C \<and> 32 \<le> (of_char c :: nat)) t"

lemma plain_Nil [simp]: "plain []"
  by (simp add: plain_def)

lemma plain_Cons [simp]: "plain (c # t) \<longleftrightarrow> c \<noteq> CHR 0x22 \<and> c \<noteq> CHR 0x5C \<and> 32 \<le> (of_char c :: nat) \<and> plain t"
  by (simp add: plain_def)

lemma in_quotes_plain: "plain t \<Longrightarrow> in_quotes t = quoted t"
  using json_key_quoted [of t] by (auto simp: in_quotes_def json_key_def quoted_def plain_def list_all_iff)

lemma json_key_plain: "plain t \<Longrightarrow> json_key t = quoted t @ '':''"
  by (rule json_key_quoted) (auto simp: plain_def list_all_iff)

lemma plain_texts [simp]:
  "plain (controlModeText l)" "plain (loadModeText m)" "plain (rejectionReasonText b)"
  "plain (syncStateText sy)" "plain (role_text ro)" "plain (lifecycle_text li)"
  subgoal by (simp add: controlModeText_def)
  subgoal by (cases m) simp_all
  subgoal by (simp add: rejectionReasonText_def)
  subgoal by (cases sy) simp_all
  subgoal by (cases ro) simp_all
  subgoal by (cases li) simp_all
  done

lemmas text_render = json_key_plain in_quotes_plain appendString_def appendMacAddressJson_def

lemma appendLoadJson_render: "appendLoadJson nn l out = out @ render (load_value nn l)"
  by (simp add: appendLoadJson_def load_value_def Let_def text_render)

lemma appendLoadsForNode_render:
  "appendLoadsForNode pn out = out @ json_key ''loads'' @ render (node_loads_value pn)"
  by (simp add: appendLoadsForNode_def node_loads_value_def appendLoadJson_render
      append_separated_render [where g = "load_value (plan_nodeName pn)"])

lemma buildLoadsJson_render: "buildLoadsJson ns sv = render (loads_value ns sv)"
proof -
  let ?all = "concat (map (\<lambda>pn. map (Pair pn) (node_loads (plan_node pn))) ns)"
  have v: "map (\<lambda>x. load_value (plan_nodeName (fst x)) (snd x)) ?all =
      concat (map (\<lambda>pn. map (load_value (plan_nodeName pn)) (node_loads (plan_node pn))) ns)"
    by (simp add: map_concat comp_def)
  show ?thesis
    by (simp add: buildLoadsJson_def loads_value_def text_render v [symmetric] case_prod_beta appendLoadJson_render
        append_separated_render [where g = "\<lambda>x. load_value (plan_nodeName (fst x)) (snd x)"] del: map_concat)
qed

lemma appendDiagnosticsJson_render:
  "appendDiagnosticsJson rs mac out = out @ json_key ''diagnostics'' @ render (diagnostics_value rs mac)"
  by (simp add: appendDiagnosticsJson_def diagnostics_value_def Let_def text_render split: option.split)

lemma appendChildren_render:
  "appendChildren depth ns rs now timeout p out =
   out @ json_key ''children'' @ render (JArray (tree_children depth ns rs now timeout p))"
proof (induction depth arbitrary: p out)
  case 0
  show ?case
    by (simp add: appendChildren.simps [of 0] Let_def appendDiagnosticsJson_render appendLoadsForNode_render text_render
        smart_value_def append_separated_render [where g = "\<lambda>pn. smart_value rs now timeout pn []"])
next
  case (Suc depth)
  show ?case
    by (simp add: appendChildren.simps [of "Suc depth"] Suc.IH Let_def appendDiagnosticsJson_render
        appendLoadsForNode_render text_render smart_value_def
        append_separated_render [where g = "\<lambda>pn. smart_value rs now timeout pn
          (tree_children depth ns rs now timeout (plan_mac pn))"])
qed

lemma buildTreeJson_render: "buildTreeJson ns rs sv now timeout = render (tree_value ns rs sv now timeout)"
  by (simp add: buildTreeJson_def tree_value_def central_value_def Let_def text_render appendDiagnosticsJson_render
      appendLoadsForNode_render appendChildren_render bool_text_def split: option.split)

text \<open>The strings that come from outside must be printable, the powers finite.\<close>

definition node_printable :: "PlanningNode \<Rightarrow> bool" where
  "node_printable pn \<longleftrightarrow> json_string (plan_nodeName pn) \<and>
     list_all (\<lambda>l. json_string (load_name l) \<and> fisfinite (load_power l)) (node_loads (plan_node pn))"

definition record_printable :: "CommissioningRecord \<Rightarrow> bool" where
  "record_printable r \<longleftrightarrow> json_string (rec_friendlyName r) \<and> json_string (rec_firmwareVersion r) \<and>
     json_string (rec_chipModel r) \<and> json_string (resetReason (rec_diagnostics r))"

lemma json_string_plain: "plain t \<Longrightarrow> json_string t"
  by (simp add: plain_def json_string_def list_all_iff)

lemma hex_digit_plain: "d < 16 \<Longrightarrow> plain [hex_digit d]"
proof -
  assume "d < 16"
  then have "d \<in> set [0..<16]" by simp
  moreover have "list_all (\<lambda>d. plain [hex_digit d]) [0..<16]"
    by (simp add: hex_digit_def upt_rec)
  ultimately show ?thesis by (simp only: list_all_iff)
qed

lemma json_string_mac [simp]: "json_string (formatMacAddressText n mac)"
proof -
  have h: "json_string (hex_byte b)" for b
    using hex_digit_plain [of "unat b div 16"] hex_digit_plain [of "unat b mod 16"]
      unsigned_less [of b, where ?'a = nat]
    by (auto simp: hex_byte_def json_string_def)
  have t: "json_string (take k s)" if "json_string s" for k s
    using that by (auto simp: json_string_def list_all_iff dest: in_set_takeD)
  have a: "json_string (s @ t) \<longleftrightarrow> json_string s \<and> json_string t" for s t by (auto simp: json_string_def)
  have c: "json_string '':''" by (simp add: json_string_def)
  show ?thesis unfolding formatMacAddressText_def
    by (cases mac) (simp only: prod.case, intro t, simp only: a c h simp_thms)
qed

lemma json_string_key: "plain k \<Longrightarrow> json_string k"
  by (rule json_string_plain)

lemma load_value_ok:
  "json_string nn \<Longrightarrow> json_string (load_name l) \<Longrightarrow> fisfinite (load_power l) \<Longrightarrow> json_ok (load_value nn l)"
  by (simp add: load_value_def Let_def json_string_plain is_number_fixed)

lemma node_loads_value_ok: "node_printable pn \<Longrightarrow> json_ok (node_loads_value pn)"
  by (auto simp: node_loads_value_def node_printable_def list_all_iff intro!: load_value_ok)

lemma diagnostics_value_ok: "list_all record_printable rs \<Longrightarrow> json_ok (diagnostics_value rs mac)"
  by (auto simp: diagnostics_value_def findByMac_def Let_def json_string_plain record_printable_def list_all_iff
      dest: find_Some_in split: option.split)

lemma smart_value_ok:
  "list_all record_printable rs \<Longrightarrow> node_printable pn \<Longrightarrow> (\<forall>v \<in> set vs. json_ok v) \<Longrightarrow>
   json_ok (smart_value rs now timeout pn vs)"
  by (simp add: smart_value_def json_string_plain diagnostics_value_ok node_loads_value_ok) (simp add: node_printable_def)

lemma childrenOf_subset: "set (childrenOf ns p) \<subseteq> set ns"
  by (auto simp: childrenOf_def)

lemma tree_children_ok:
  assumes "list_all record_printable rs" and "list_all node_printable ns"
  shows "\<forall>v \<in> set (tree_children depth ns rs now timeout p). json_ok v"
proof (induction depth arbitrary: p)
  case 0
  show ?case using assms childrenOf_subset [of ns p] by (auto simp: list_all_iff intro!: smart_value_ok)
next
  case (Suc depth)
  show ?case
  proof
    fix v assume "v \<in> set (tree_children (Suc depth) ns rs now timeout p)"
    then obtain pn where "pn \<in> set (childrenOf ns p)"
      and v: "v = smart_value rs now timeout pn (tree_children depth ns rs now timeout (plan_mac pn))" by auto
    then have "node_printable pn" using assms(2) childrenOf_subset [of ns p] by (auto simp: list_all_iff)
    then show "json_ok v" unfolding v using assms(1) Suc.IH [of "plan_mac pn"] by (intro smart_value_ok)
  qed
qed

lemma tree_value_ok:
  assumes "list_all record_printable rs" and "list_all node_printable ns"
  shows "json_ok (tree_value ns rs sv now timeout)"
proof -
  have "json_ok (central_value ns rs now timeout c)" if "c \<in> set ns" for c
  proof -
    have "node_printable c" using assms(2) that by (simp add: list_all_iff)
    then show ?thesis using tree_children_ok [OF assms, of "length ns"] assms(1)
      by (simp add: central_value_def json_string_plain diagnostics_value_ok node_loads_value_ok) (simp add: node_printable_def)
  qed
  then show ?thesis by (auto simp: tree_value_def json_string_plain dest: find_Some_in split: option.split)
qed

lemma loads_value_ok: "list_all node_printable ns \<Longrightarrow> json_ok (loads_value ns sv)"
  by (auto simp: loads_value_def json_string_plain node_printable_def list_all_iff intro!: load_value_ok)

section \<open>Which Nodes the tree shows\<close>

text \<open>The Nodes below a Node in the tree, each before its own children.\<close>

fun listed :: "nat \<Rightarrow> CentralNodeRegistry \<Rightarrow> MacAddress \<Rightarrow> PlanningNode list" where
  "listed 0 ns p = childrenOf ns p"
| "listed (Suc d) ns p = concat (map (\<lambda>c. c # listed d ns (plan_mac c)) (childrenOf ns p))"

inductive under :: "CentralNodeRegistry \<Rightarrow> MacAddress \<Rightarrow> nat \<Rightarrow> PlanningNode \<Rightarrow> bool" for ns where
  child: "pn \<in> set (childrenOf ns p) \<Longrightarrow> under ns p 0 pn"
| deeper: "c \<in> set (childrenOf ns p) \<Longrightarrow> under ns (plan_mac c) k pn \<Longrightarrow> under ns p (Suc k) pn"

inductive_cases underE: "under ns p k pn"

lemma listed_under: "pn \<in> set (listed d ns p) \<longleftrightarrow> (\<exists>k \<le> d. under ns p k pn)"
proof (induction d arbitrary: p)
  case 0
  show ?case by (auto intro: under.child elim: underE)
next
  case (Suc d)
  have "(\<exists>k \<le> Suc d. under ns p k pn) \<longleftrightarrow>
      pn \<in> set (childrenOf ns p) \<or> (\<exists>c \<in> set (childrenOf ns p). \<exists>k \<le> d. under ns (plan_mac c) k pn)"
    (is "?l = ?r")
  proof
    assume ?l
    then obtain k where k: "k \<le> Suc d" "under ns p k pn" by blast
    from k(2) show ?r by (rule underE) (use k(1) in auto)
  next
    assume ?r
    then show ?l
    proof (elim disjE bexE exE conjE)
      assume "pn \<in> set (childrenOf ns p)"
      then have "under ns p 0 pn" by (rule under.child)
      then show ?l by blast
    next
      fix c k assume "c \<in> set (childrenOf ns p)" "k \<le> d" "under ns (plan_mac c) k pn"
      then have "under ns p (Suc k) pn" "Suc k \<le> Suc d" by (auto intro: under.deeper)
      then show ?l by blast
    qed
  qed
  moreover have "pn \<in> set (listed (Suc d) ns p) \<longleftrightarrow>
      pn \<in> set (childrenOf ns p) \<or> (\<exists>c \<in> set (childrenOf ns p). pn \<in> set (listed d ns (plan_mac c)))" by auto
  ultimately show ?case unfolding Suc.IH by blast
qed

lemma under_snoc: "under ns p k c \<Longrightarrow> pn \<in> set (childrenOf ns (plan_mac c)) \<Longrightarrow> under ns p (Suc k) pn"
  by (induction rule: under.induct) (auto intro: under.intros)

lemma under_in: "under ns p k pn \<Longrightarrow> pn \<in> set ns \<and> \<not> plan_isCentralNode pn"
  by (induction rule: under.induct) (auto simp: childrenOf_def)

definition parent :: "CentralNodeRegistry \<Rightarrow> PlanningNode \<Rightarrow> PlanningNode" where
  "parent ns pn = the (findNodeByMacAddress (plan_nextHop pn) ns)"

definition rooted :: "CentralNodeRegistry \<Rightarrow> PlanningNode \<Rightarrow> bool" where
  "rooted ns central \<longleftrightarrow>
     distinct (map plan_mac ns) \<and> central \<in> set ns \<and> plan_isCentralNode central"

lemma find_child: "rooted ns central \<Longrightarrow> c \<in> set ns \<Longrightarrow> findNodeByMacAddress (plan_mac c) ns = Some c"
  unfolding findNodeByMacAddress_def rooted_def by (rule find_distinct_key) blast

lemma not_central_mac:
  "rooted ns central \<Longrightarrow> c \<in> set ns \<Longrightarrow> \<not> plan_isCentralNode c \<Longrightarrow> plan_mac c \<noteq> plan_mac central"
  by (metis find_child option.inject rooted_def)

lemma child_leads:
  assumes R: "rooted ns central" and child: "pn \<in> set (childrenOf ns (plan_mac c))" and c: "c \<in> set ns" "\<not> plan_isCentralNode c"
    and "leads (plan_mac central) ns j c mac"
  shows "leads (plan_mac central) ns (Suc j) pn mac \<and> parent ns pn = c"
proof -
  have next_hop: "plan_nextHop pn = plan_mac c" using child by (simp add: childrenOf_def)
  have "findNodeByMacAddress (plan_nextHop pn) ns = Some c" using next_hop find_child [OF R c(1)] by simp
  moreover have "plan_nextHop pn \<noteq> plan_mac central" using next_hop not_central_mac [OF R c] by simp
  ultimately show ?thesis using c(2) assms(5) by (simp add: leads.hop parent_def)
qed

lemma under_leads:
  "under ns p k pn \<Longrightarrow> rooted ns central \<Longrightarrow> c \<in> set ns \<Longrightarrow> \<not> plan_isCentralNode c \<Longrightarrow> p = plan_mac c \<Longrightarrow>
   leads (plan_mac central) ns j c mac \<Longrightarrow>
   leads (plan_mac central) ns (j + Suc k) pn mac \<and> (parent ns ^^ Suc k) pn = c"
proof (induction arbitrary: c j rule: under.induct)
  case (child pn p)
  then show ?case using child_leads [of ns central pn c j mac] by simp
next
  case (deeper d p k pn)
  have d: "d \<in> set ns" "\<not> plan_isCentralNode d" using deeper.hyps(1) by (simp_all add: childrenOf_def)
  have l: "leads (plan_mac central) ns (Suc j) d mac" "parent ns d = c"
    using child_leads [of ns central d c j mac] deeper.hyps(1) deeper.prems by simp_all
  from deeper.IH [OF deeper.prems(1) d refl l(1)] l(2) show ?case by simp
qed

lemma child_of_central_leads:
  "c \<in> set (childrenOf ns (plan_mac central)) \<Longrightarrow> leads (plan_mac central) ns 0 c (plan_mac c)"
  by (auto simp: childrenOf_def intro: leads.neighbour)

lemma leads_under:
  "leads (plan_mac central) ns k pn mac \<Longrightarrow> pn \<in> set ns \<Longrightarrow> \<not> plan_isCentralNode pn \<Longrightarrow>
   under ns (plan_mac central) k pn"
proof (induction rule: leads.induct)
  case (neighbour pn)
  then show ?case by (auto simp: childrenOf_def intro: under.child)
next
  case (hop pn pn' k mac)
  have n: "pn' \<in> set ns" "plan_mac pn' = plan_nextHop pn"
    using hop.hyps(2) by (auto simp: findNodeByMacAddress_def dest: find_Some_in)
  from hop.IH [OF n(1) hop.hyps(3)] show ?case
    by (rule under_snoc) (use hop.prems n(2) in \<open>auto simp: childrenOf_def\<close>)
qed

lemma under_central_leads:
  assumes u: "under ns (plan_mac central) k pn" and R: "rooted ns central"
  shows "\<exists>mac. leads (plan_mac central) ns k pn mac"
  using u
proof (cases rule: underE)
  assume "k = 0" "pn \<in> set (childrenOf ns (plan_mac central))"
  then show ?thesis using child_of_central_leads by blast
next
  fix c k' assume k: "k = Suc k'" and c: "c \<in> set (childrenOf ns (plan_mac central))" and u: "under ns (plan_mac c) k' pn"
  have "c \<in> set ns" "\<not> plan_isCentralNode c" using c by (simp_all add: childrenOf_def)
  from under_leads [OF u R this refl child_of_central_leads [OF c]] k show ?thesis by (metis add_0)
qed

lemma listed_central:
  assumes "rooted ns central"
  shows "set (listed (length ns) ns (plan_mac central)) =
   {pn \<in> set ns. \<not> plan_isCentralNode pn \<and> (\<exists>k mac. leads (plan_mac central) ns k pn mac)}"
proof -
  have "pn \<in> set (listed (length ns) ns (plan_mac central)) \<longleftrightarrow>
      pn \<in> set ns \<and> \<not> plan_isCentralNode pn \<and> (\<exists>k mac. leads (plan_mac central) ns k pn mac)" for pn
    unfolding listed_under
    using under_in under_central_leads [OF _ assms] leads_under leads_bound by (metis less_imp_le)
  then show ?thesis by blast
qed

lemma distinct_childrenOf: "rooted ns central \<Longrightarrow> distinct (childrenOf ns p)"
  by (simp add: childrenOf_def rooted_def distinct_map)

lemma distinct_concat_map:
  "distinct xs \<Longrightarrow> (\<And>x. x \<in> set xs \<Longrightarrow> distinct (f x)) \<Longrightarrow>
   (\<And>x y. x \<in> set xs \<Longrightarrow> y \<in> set xs \<Longrightarrow> x \<noteq> y \<Longrightarrow> set (f x) \<inter> set (f y) = {}) \<Longrightarrow>
   distinct (concat (map f xs))"
proof (induction xs)
  case (Cons x xs)
  have "set (f x) \<inter> set (concat (map f xs)) = {}"
    using Cons.prems(1,3) by fastforce
  then show ?case using Cons by simp
qed simp

lemma listed_distinct:
  assumes R: "rooted ns central"
    and leads: "\<And>c. c \<in> set (childrenOf ns p) \<Longrightarrow> \<exists>mac. leads (plan_mac central) ns j c mac"
  shows "distinct (listed d ns p)"
  using leads
proof (induction d arbitrary: p j)
  case 0
  show ?case using distinct_childrenOf [OF R] by simp
next
  case (Suc d)
  note cs = distinct_childrenOf [OF R, of p]
  let ?below = "\<lambda>c. c # listed d ns (plan_mac c)"
  have place: "\<exists>k mac. leads (plan_mac central) ns (j + k) x mac \<and> (parent ns ^^ k) x = c"
    if c: "c \<in> set (childrenOf ns p)" and x: "x \<in> set (?below c)" for c x
  proof (cases "x = c")
    case True
    obtain mac where "leads (plan_mac central) ns (j + 0) c mac" using Suc.prems [OF c] by auto
    with True have "leads (plan_mac central) ns (j + 0) x mac \<and> (parent ns ^^ 0) x = c" by simp
    then show ?thesis by blast
  next
    case False
    then obtain k where k: "under ns (plan_mac c) k x" using x listed_under by auto
    obtain mac where m: "leads (plan_mac central) ns j c mac" using Suc.prems [OF c] by auto
    have "c \<in> set ns" "\<not> plan_isCentralNode c" using c by (simp_all add: childrenOf_def)
    from under_leads [OF k R this refl m] show ?thesis by blast
  qed
  have apart: "c = c'" if "c \<in> set (childrenOf ns p)" "c' \<in> set (childrenOf ns p)"
    "x \<in> set (?below c)" "x \<in> set (?below c')" for c c' x
    using place [OF that(1,3)] place [OF that(2,4)] leads_unique by (metis add_left_cancel)
  have "distinct (?below c)" if c: "c \<in> set (childrenOf ns p)" for c
  proof -
    obtain mac where m: "leads (plan_mac central) ns j c mac" using Suc.prems [OF c] by auto
    have n: "c \<in> set ns" "\<not> plan_isCentralNode c" using c by (simp_all add: childrenOf_def)
    have "distinct (listed d ns (plan_mac c))" by (rule Suc.IH [of _ "Suc j"]) (use child_leads [OF R _ n m] in blast)
    moreover have "c \<notin> set (listed d ns (plan_mac c))"
    proof
      assume "c \<in> set (listed d ns (plan_mac c))"
      then obtain k where "under ns (plan_mac c) k c" using listed_under by blast
      from under_leads [OF this R n refl m] have "leads (plan_mac central) ns (j + Suc k) c mac" by blast
      from leads_unique [OF m this] show False by simp
    qed
    ultimately show ?thesis by simp
  qed
  moreover have "set (?below c) \<inter> set (?below c') = {}"
    if "c \<in> set (childrenOf ns p)" "c' \<in> set (childrenOf ns p)" "c \<noteq> c'" for c c'
    using apart [OF that(1,2)] that(3) by blast
  ultimately show ?case using distinct_concat_map [OF cs, of ?below] by (simp del: set_simps)
qed

lemma nextHop_exists:
  assumes "findNodeByMacAddress m ns = Some pn" and "\<not> plan_isCentralNode pn"
  shows "findNextHopFromCentral cm m ns \<noteq> None \<longleftrightarrow> (\<exists>k mac. leads cm ns k pn mac)"
proof -
  have "pn \<in> set ns" using assms(1) by (auto simp: findNodeByMacAddress_def dest: find_Some_in)
  then have "(\<exists>mac. followNextHops (length ns + 1) cm ns pn = Some mac) \<longleftrightarrow> (\<exists>k mac. leads cm ns k pn mac)"
    unfolding followNextHops_leads using leads_bound less_SucI by (metis Suc_eq_plus1)
  then show ?thesis using assms unfolding findNextHopFromCentral_def not_None_eq by simp
qed

text \<open>The MAC addresses in a tree, as a reader of the JSON finds them.\<close>

fun tree_macs :: "nat \<Rightarrow> json \<Rightarrow> string list" where
  "tree_macs (Suc d) (JObject ms) =
     (case map_of ms ''mac'' of Some (JString t) \<Rightarrow> [t] | _ \<Rightarrow> []) @
     (case map_of ms ''children'' of Some (JArray vs) \<Rightarrow> concat (map (tree_macs d) vs) | _ \<Rightarrow> [])"
| "tree_macs d v = []"

lemma tree_macs_children:
  "concat (map (tree_macs (Suc d)) (tree_children d ns rs now timeout p)) =
   map (\<lambda>pn. formatMacAddressText 18 (plan_mac pn)) (listed d ns p)"
proof (induction d arbitrary: p)
  case 0
  have "concat (map (tree_macs (Suc 0)) (map (\<lambda>pn. smart_value rs now timeout pn []) cs)) =
      map (\<lambda>pn. formatMacAddressText 18 (plan_mac pn)) cs" for cs
    by (induction cs) (simp_all add: smart_value_def)
  then show ?case by simp
next
  case (Suc d)
  have "concat (map (tree_macs (Suc (Suc d)))
        (map (\<lambda>pn. smart_value rs now timeout pn (tree_children d ns rs now timeout (plan_mac pn))) cs)) =
      map (\<lambda>pn. formatMacAddressText 18 (plan_mac pn)) (concat (map (\<lambda>c. c # listed d ns (plan_mac c)) cs))" for cs
    by (induction cs) (simp_all add: smart_value_def Suc.IH del: tree_macs.simps(2))
  then show ?case by simp
qed

text \<open>
  C14: The tree of Nodes that \<open>publishCurrentState\<close> builds, and then hands to \<open>MqttManager::publish\<close>,
  which drops it, shows exactly the Nodes Central can route to. For a planning registry with an entry of
  Central's own and no MAC address twice, with no control character in a name or in the texts of a record
  and with finite ratings, its text is JSON, and the MAC addresses in it are, each once, Central's own and
  those of the Smart Nodes for which \<open>findNextHopFromCentral\<close> finds a route: the depth limit never cuts a
  Node off, and next hops that run in a circle make neither the tree endless nor a Node appear twice; such
  Nodes, and those whose next hop is unknown, are missing.
\<close>

theorem tree_shows_routable_nodes:
  assumes "distinct (map plan_mac ns)" and "find plan_isCentralNode ns = Some central"
    and "list_all node_printable ns" and "list_all record_printable rs"
  shows "\<exists>c ms. parse_json (buildTreeJson ns rs sv now timeout) =
      Some (JObject [(''schemaVersion'', JNumber (decimal (unat sv))), (''central'', c)]) \<and>
    tree_macs (length ns + 2) c = map (formatMacAddressText 18) ms \<and> distinct ms \<and>
    set ms = {m. m = plan_mac central \<or> findNextHopFromCentral (plan_mac central) m ns \<noteq> None}"
proof -
  have R: "rooted ns central" using assms(1,2) by (auto simp: rooted_def dest: find_Some_in)
  let ?cm = "plan_mac central" and ?l = "listed (length ns) ns (plan_mac central)"
  let ?c = "central_value ns rs now timeout central" and ?ms = "plan_mac central # map plan_mac (listed (length ns) ns (plan_mac central))"
  have "parse_json (buildTreeJson ns rs sv now timeout) = Some (tree_value ns rs sv now timeout)"
    unfolding buildTreeJson_render by (rule parse_render [OF tree_value_ok [OF assms(4,3)]])
  then have p: "parse_json (buildTreeJson ns rs sv now timeout) =
      Some (JObject [(''schemaVersion'', JNumber (decimal (unat sv))), (''central'', ?c)])"
    by (simp add: tree_value_def assms(2))
  have m: "tree_macs (length ns + 2) ?c = map (formatMacAddressText 18) ?ms"
    using tree_macs_children [of "length ns" ns rs now timeout ?cm]
    by (simp add: central_value_def comp_def del: tree_macs.simps(1)) (simp add: numeral_2_eq_2)
  have in_ns: "set ?l \<subseteq> set ns" using listed_central [OF R] by blast
  have not_c: "?cm \<notin> plan_mac ` set ?l"
  proof
    assume "?cm \<in> plan_mac ` set ?l"
    then obtain x where x: "x \<in> set ?l" "plan_mac x = ?cm" by auto
    then have "x \<in> set ns" "\<not> plan_isCentralNode x" unfolding listed_central [OF R] by blast+
    from not_central_mac [OF R this] x(2) show False by blast
  qed
  have "distinct ?l" by (rule listed_distinct [OF R, of _ 0]) (use child_of_central_leads in blast)
  then have "distinct (map plan_mac ?l)" using in_ns assms(1) by (auto simp: distinct_map intro: inj_on_subset)
  then have d: "distinct ?ms" using not_c by simp
  have s: "m \<in> plan_mac ` set ?l \<longleftrightarrow> findNextHopFromCentral ?cm m ns \<noteq> None" for m
  proof (cases "findNodeByMacAddress m ns")
    case None
    then have "m \<notin> plan_mac ` set ns" unfolding findNodeByMacAddress_def find_None_notin .
    with in_ns None show ?thesis by (auto simp: findNextHopFromCentral_def)
  next
    case (Some pn)
    then have pn: "pn \<in> set ns" "plan_mac pn = m" by (auto simp: findNodeByMacAddress_def dest: find_Some_in)
    have uniq: "x = pn" if "x \<in> set ns" "plan_mac x = m" for x using find_child [OF R that(1)] that(2) Some by simp
    have "m \<in> plan_mac ` set ?l \<longleftrightarrow> pn \<in> set ?l" using in_ns pn uniq by blast
    also have "\<dots> \<longleftrightarrow> findNextHopFromCentral ?cm m ns \<noteq> None"
    proof (cases "plan_isCentralNode pn")
      case True
      with Some show ?thesis unfolding listed_central [OF R] by (simp add: findNextHopFromCentral_def)
    next
      case False
      then show ?thesis unfolding listed_central [OF R] nextHop_exists [OF Some False] using pn(1) by blast
    qed
    finally show ?thesis .
  qed
  have "set ?ms = {m. m = ?cm \<or> findNextHopFromCentral ?cm m ns \<noteq> None}"
    using s by (simp add: insert_compr)
  with p m d show ?thesis by blast
qed

text \<open>Central, a Node next to it, and two Nodes that name each other.\<close>

definition tree_node :: "u8 \<Rightarrow> string \<Rightarrow> u8 \<Rightarrow> bool \<Rightarrow> PlanningNode" where
  "tree_node n nm hop isCentral =
     \<lparr>plan_node = \<lparr>node_macAddress = (2, 0, 0, 0, 0, n), node_loads = []\<rparr>, plan_nodeName = nm,
      plan_nextHop = (2, 0, 0, 0, 0, hop), plan_hopCount = 1, plan_isCentralNode = isCentral, plan_lastSeen = 0,
      plan_pendingReport = new_PendingNodeReport\<rparr>"

definition example_tree :: CentralNodeRegistry where
  "example_tree = [tree_node 1 ''Central'' 0 True, tree_node 2 ''Shed'' 1 False, tree_node 3 ''Barn'' 4 False,
     tree_node 4 ''Well'' 3 False]"

lemma tree_shows_routable_nodes_witness:
  "\<exists>c ms. parse_json (buildTreeJson example_tree [] 1 5000 1000) =
      Some (JObject [(''schemaVersion'', JNumber (decimal 1)), (''central'', c)]) \<and>
    tree_macs 6 c = map (formatMacAddressText 18) ms \<and>
    (2, 0, 0, 0, 0, 2) \<in> set ms \<and> (2, 0, 0, 0, 0, 3) \<notin> set ms \<and> (2, 0, 0, 0, 0, 4) \<notin> set ms"
proof -
  have d: "distinct (map plan_mac example_tree)" by (simp add: example_tree_def tree_node_def plan_mac_def)
  have c: "find plan_isCentralNode example_tree = Some (tree_node 1 ''Central'' 0 True)"
    by (simp add: example_tree_def tree_node_def)
  have p: "list_all node_printable example_tree"
    by (simp add: example_tree_def tree_node_def node_printable_def json_string_def)
  have r: "findNextHopFromCentral (2, 0, 0, 0, 0, 1) (2, 0, 0, 0, 0, 2) example_tree \<noteq> None"
    "findNextHopFromCentral (2, 0, 0, 0, 0, 1) (2, 0, 0, 0, 0, 3) example_tree = None"
    "findNextHopFromCentral (2, 0, 0, 0, 0, 1) (2, 0, 0, 0, 0, 4) example_tree = None"
    by (simp_all add: example_tree_def tree_node_def findNextHopFromCentral_def findNodeByMacAddress_def plan_mac_def)
  have cm: "plan_mac (tree_node 1 ''Central'' 0 True) = (2, 0, 0, 0, 0, 1)" and n: "length example_tree + 2 = 6"
    by (simp_all add: tree_node_def plan_mac_def example_tree_def)
  obtain c ms where t: "parse_json (buildTreeJson example_tree [] 1 5000 1000) =
      Some (JObject [(''schemaVersion'', JNumber (decimal 1)), (''central'', c)])"
    "tree_macs 6 c = map (formatMacAddressText 18) ms"
    and s: "set ms = {m. m = (2, 0, 0, 0, 0, 1) \<or> findNextHopFromCentral (2, 0, 0, 0, 0, 1) m example_tree \<noteq> None}"
    using tree_shows_routable_nodes [OF d c p, of "[]" 1 5000 1000] unfolding cm n by (auto simp del: formatMacAddressText_def)
  have "(2, 0, 0, 0, 0, 2) \<in> set ms" "(2, 0, 0, 0, 0, 3) \<notin> set ms" "(2, 0, 0, 0, 0, 4) \<notin> set ms"
    unfolding s using r by simp_all
  with t show ?thesis by blast
qed

end
