(* ===== verification/Publishing.thy ===== *)
theory Publishing
  imports Topology Central_Planning
begin

text \<open>
  What Central publishes over MQTT: the state of the system as JSON (\<open>SystemStateJson.cpp\<close>,
  \<open>makeSystemStateInputs\<close>), the topics and the combined state (\<open>MqttManager.cpp\<close>), and the alerts of
  \<open>publishCurrentState\<close> (\<open>src/central/namespace.h\<close>). The MQTT client is a parameter: it says for
  every publication whether it takes it.
\<close>

section \<open>The state of the system\<close>

record SystemStateInputs =
  ssi_batterySensorConfigured :: bool
  ssi_batteryNominalVoltageVolts :: f32
  ssi_batteryCapacityAmpHours :: f32
  ssi_batteryRatedEnergyWattHours :: f32
  ssi_batteryStoredEnergyWattHours :: f32
  ssi_batteryUsableEnergyWattHours :: f32
  ssi_batteryVoltageVolts :: f32
  ssi_batteryCurrentAmps :: f32
  ssi_P_measured :: f32
  ssi_batteryMeasurementSourceText :: string
  ssi_stateOfChargePercent :: f32
  ssi_stateOfChargeValid :: bool
  ssi_stateOfChargeSourceText :: string
  ssi_batteryReserveReached :: bool
  ssi_requiredRuntimeConfigured :: bool
  ssi_requiredRuntimeHours :: f32
  ssi_remainingRuntimeHours :: f32
  ssi_estimatedRuntimeHours :: f32
  ssi_runtimeEstimateValid :: bool
  ssi_requiredRuntimeAchievable :: bool
  ssi_P_budget :: f32
  ssi_P_reserve :: f32
  ssi_P_fixed :: f32
  ssi_P_auto_available :: f32
  ssi_P_auto :: f32
  ssi_P_remaining :: f32
  ssi_lastOptimizationEpochSeconds :: int

fun measurementSourceText :: "MeasurementSource \<Rightarrow> string" where
  "measurementSourceText SOURCE_NONE = ''NONE''"
| "measurementSourceText SOURCE_HARDWARE = ''HARDWARE''"
| "measurementSourceText SOURCE_SIMULATED = ''SIMULATED''"

fun stateOfChargeSourceText :: "StateOfChargeSource \<Rightarrow> string" where
  "stateOfChargeSourceText SOC_UNKNOWN = ''UNKNOWN''"
| "stateOfChargeSourceText SOC_INITIAL = ''INITIAL''"
| "stateOfChargeSourceText SOC_PERSISTED = ''PERSISTED''"
| "stateOfChargeSourceText SOC_COULOMB_COUNTING = ''COULOMB_COUNTING''"
| "stateOfChargeSourceText SOC_VOLTAGE_ESTIMATE = ''VOLTAGE_ESTIMATE''"
| "stateOfChargeSourceText SOC_SIMULATED = ''SIMULATED''"

text \<open>Wi-Fi, MQTT and clock fields, which are not serialised, are left out.\<close>

definition makeSystemStateInputs :: "('g, 'n, 'i) Central \<Rightarrow> SystemStateInputs" where
  "makeSystemStateInputs c =
     (let sensor = batterySensor (centralConfigurationStore c); planning = powerPlanning (centralConfigurationStore c);
          p = batteryMonitor c; snap = latestPlanningSnapshot c; b = snap_budget snap;
          nominal = (if batteryMetadataConfigured sensor then cfg_nominalVoltageVolts sensor else fzero);
          capacity = (if batteryMetadataConfigured sensor then cfg_batteryCapacityAmpHours sensor else fzero);
          fullEnergyWh = fmul capacity nominal;
          soc = stateOfChargePercent p; socValid = isStateOfChargeValid p;
          reserveKnown = (socValid \<and> planning_configured planning);
          usable = (if reserveKnown
                    then fmul fullEnergyWh
                      (fdiv (fmax fzero (fsub soc (planning_minimumStateOfChargePercent planning))) fhundred)
                    else fzero);
          measured = powerWatts (latestBatteryMeasurements c);
          estimateValid = (reserveKnown \<and> flt fzero measured);
          budget = (\<lambda>f. if snap_budgetValid snap then f b else fzero)
      in \<lparr>ssi_batterySensorConfigured = ina219Configured sensor, ssi_batteryNominalVoltageVolts = nominal,
          ssi_batteryCapacityAmpHours = capacity, ssi_batteryRatedEnergyWattHours = fullEnergyWh,
          ssi_batteryStoredEnergyWattHours = (if socValid then fmul fullEnergyWh (fdiv soc fhundred) else fzero),
          ssi_batteryUsableEnergyWattHours = usable,
          ssi_batteryVoltageVolts = voltageVolts (latestBatteryMeasurements c),
          ssi_batteryCurrentAmps = currentAmps (latestBatteryMeasurements c), ssi_P_measured = measured,
          ssi_batteryMeasurementSourceText = measurementSourceText (measurementSource p),
          ssi_stateOfChargePercent = soc, ssi_stateOfChargeValid = socValid,
          ssi_stateOfChargeSourceText = stateOfChargeSourceText (stateOfChargeSource p),
          ssi_batteryReserveReached = (reserveKnown \<and> fle soc (planning_minimumStateOfChargePercent planning)),
          ssi_requiredRuntimeConfigured =
            (planning_configured planning \<and> flt fzero (planning_requiredRuntimeHours planning)),
          ssi_requiredRuntimeHours = planning_requiredRuntimeHours planning,
          ssi_remainingRuntimeHours = remainingRequiredRuntimeHours p,
          ssi_estimatedRuntimeHours = (if estimateValid then fdiv usable measured else fzero),
          ssi_runtimeEstimateValid = estimateValid,
          ssi_requiredRuntimeAchievable = (\<not> snap_budgetValid snap \<or> requiredRuntimeAchievable b),
          ssi_P_budget = budget P_budget, ssi_P_reserve = budget P_reserve, ssi_P_fixed = budget P_fixed,
          ssi_P_auto_available = budget P_auto_available, ssi_P_auto = budget P_auto,
          ssi_P_remaining = budget P_remaining,
          ssi_lastOptimizationEpochSeconds = lastOptimizationEpochSeconds c\<rparr>)"

text \<open>A number goes through a buffer of 64 characters, the last one the terminating NUL.\<close>

definition comma_if :: "bool \<Rightarrow> string" where
  "comma_if comma = (if comma then '','' else [])"

definition append_number :: "string \<Rightarrow> f32 \<Rightarrow> bool \<Rightarrow> string \<Rightarrow> string" where
  "append_number key value comma out =
     out @ take 63 (json_key key @ (if fisfinite value then fixed_text 3 value else ''null'') @ comma_if comma)"

definition append_boolean :: "string \<Rightarrow> bool \<Rightarrow> bool \<Rightarrow> string \<Rightarrow> string" where
  "append_boolean key value comma out = out @ json_key key @ bool_text value @ comma_if comma"

definition append_text :: "string \<Rightarrow> string \<Rightarrow> bool \<Rightarrow> string \<Rightarrow> string" where
  "append_text key value comma out = appendString (out @ json_key key) (c_text value) @ comma_if comma"

definition append_integer :: "string \<Rightarrow> int \<Rightarrow> bool \<Rightarrow> string \<Rightarrow> string" where
  "append_integer key value comma out = out @ json_key key @ signed_text value @ comma_if comma"

text \<open>The calls of \<open>SystemStateJson::build\<close>, in their order.\<close>

definition batteryMembers :: "SystemStateInputs \<Rightarrow> (string \<Rightarrow> string) list" where
  "batteryMembers i =
     [append_boolean ''sensorConfigured'' (ssi_batterySensorConfigured i) True,
      append_number ''nominalVoltageVolts'' (ssi_batteryNominalVoltageVolts i) True,
      append_number ''capacityAmpHours'' (ssi_batteryCapacityAmpHours i) True,
      append_number ''ratedEnergyWattHours'' (ssi_batteryRatedEnergyWattHours i) True,
      append_number ''storedEnergyWattHours'' (ssi_batteryStoredEnergyWattHours i) True,
      append_number ''usableEnergyWattHours'' (ssi_batteryUsableEnergyWattHours i) True,
      append_number ''voltageVolts'' (ssi_batteryVoltageVolts i) True,
      append_number ''currentAmps'' (ssi_batteryCurrentAmps i) True,
      append_number ''P_measured'' (ssi_P_measured i) True,
      append_text ''measurementSource'' (ssi_batteryMeasurementSourceText i) True,
      append_number ''stateOfChargePercent'' (ssi_stateOfChargePercent i) True,
      append_boolean ''stateOfChargeValid'' (ssi_stateOfChargeValid i) True,
      append_text ''stateOfChargeSource'' (ssi_stateOfChargeSourceText i) True,
      append_boolean ''batteryReserveReached'' (ssi_batteryReserveReached i) True,
      append_boolean ''requiredRuntimeConfigured'' (ssi_requiredRuntimeConfigured i) True,
      append_number ''requiredRuntimeHours'' (ssi_requiredRuntimeHours i) True,
      append_number ''remainingRuntimeHours'' (ssi_remainingRuntimeHours i) True,
      append_number ''estimatedRuntimeHours'' (ssi_estimatedRuntimeHours i) True,
      append_boolean ''runtimeEstimateValid'' (ssi_runtimeEstimateValid i) True,
      append_boolean ''requiredRuntimeAchievable'' (ssi_requiredRuntimeAchievable i) False]"

definition powerFlowMembers :: "SystemStateInputs \<Rightarrow> (string \<Rightarrow> string) list" where
  "powerFlowMembers i =
     [append_number ''P_budget'' (ssi_P_budget i) True, append_number ''P_reserve'' (ssi_P_reserve i) True,
      append_number ''P_fixed'' (ssi_P_fixed i) True, append_number ''P_auto_available'' (ssi_P_auto_available i) True,
      append_number ''P_auto'' (ssi_P_auto i) True, append_number ''P_remaining'' (ssi_P_remaining i) False]"

definition SystemStateJson_build :: "SystemStateInputs \<Rightarrow> u32 \<Rightarrow> string" where
  "SystemStateJson_build i schemaVersion =
     (let out1 = fold id (batteryMembers i)
            (''{'' @ json_key ''schemaVersion'' @ decimal (unat schemaVersion) @ '','' @ json_key ''battery'' @ ''{'');
          out2 = fold id (powerFlowMembers i) (out1 @ ''},'' @ json_key ''powerFlow'' @ ''{'')
      in append_integer ''lastOptimizationEpochSeconds'' (ssi_lastOptimizationEpochSeconds i) False (out2 @ ''},'') @
         ''}'')"

section \<open>Topics\<close>

record MqttManager =
  topicNamespace :: string
  mqtt_schemaVersion :: u32
  mqtt_connected :: bool
  stateSystemJson :: string
  stateLoadsJson :: string
  stateNodesJson :: string

record Publication =
  pub_topic :: string
  pub_payload :: string
  pub_qos :: nat
  pub_retain :: bool

type_synonym mqtt_client = "Publication \<Rightarrow> bool"

definition fullTopic :: "string \<Rightarrow> MqttManager \<Rightarrow> string" where
  "fullTopic suffix m = topicNamespace m @ ''/'' @ suffix"

definition publishRaw ::
  "mqtt_client \<Rightarrow> string \<Rightarrow> string \<Rightarrow> nat \<Rightarrow> bool \<Rightarrow> MqttManager \<Rightarrow> bool \<times> Publication list" where
  "publishRaw client suffix payload qos retain m =
     (if \<not> mqtt_connected m then (False, [])
      else let p = \<lparr>pub_topic = fullTopic suffix m, pub_payload = payload, pub_qos = qos, pub_retain = retain\<rparr>
           in (client p, [p]))"

definition publishCombinedState :: "mqtt_client \<Rightarrow> MqttManager \<Rightarrow> bool \<times> Publication list" where
  "publishCombinedState client m =
     publishRaw client ''state''
       (''{'' @ json_key ''system'' @ (if stateSystemJson m = [] then ''null'' else stateSystemJson m) @
        '','' @ json_key ''loads'' @ (if stateLoadsJson m = [] then ''null'' else stateLoadsJson m) @
        '','' @ json_key ''nodes'' @ (if stateNodesJson m = [] then ''null'' else stateNodesJson m) @ ''}'')
       0 True m"

definition mqtt_publish ::
  "mqtt_client \<Rightarrow> string \<Rightarrow> string \<Rightarrow> nat \<Rightarrow> bool \<Rightarrow> MqttManager \<Rightarrow> bool \<times> Publication list \<times> MqttManager" where
  "mqtt_publish client suffix payload qos retain m =
     (if suffix = ''_state/system'' then (True, [], m\<lparr>stateSystemJson := payload\<rparr>)
      else if suffix = ''_state/loads'' then (True, [], m\<lparr>stateLoadsJson := payload\<rparr>)
      else if suffix = ''_state/nodes''
      then let m' = m\<lparr>stateNodesJson := payload\<rparr>
           in case publishCombinedState client m' of (ok, ps) \<Rightarrow> (ok, ps, m')
      else if suffix = ''_state/tree'' \<or> suffix = ''_state/config-nodes'' then (True, [], m)
      else case publishRaw client suffix payload qos retain m of (ok, ps) \<Rightarrow> (ok, ps, m))"

definition publishStatus :: "mqtt_client \<Rightarrow> MqttManager \<Rightarrow> Publication list" where
  "publishStatus client m = snd (publishRaw client ''status'' ''online'' 1 True m)"

text \<open>A null or empty string is written as \<open>null\<close>.\<close>

definition appendJsonString :: "string \<Rightarrow> string \<Rightarrow> string" where
  "appendJsonString out value =
     (if c_text value = [] then out @ ''null'' else appendString out (c_text value))"

datatype AckStatus = ACK_ACCEPTED | ACK_APPLIED | ACK_REJECTED | ACK_FAILED

fun ackText :: "AckStatus \<Rightarrow> string" where
  "ackText ACK_ACCEPTED = ''ACCEPTED''"
| "ackText ACK_APPLIED = ''APPLIED''"
| "ackText ACK_REJECTED = ''REJECTED''"
| "ackText ACK_FAILED = ''FAILED''"

definition publishAcknowledgement ::
  "mqtt_client \<Rightarrow> u32 \<Rightarrow> string \<Rightarrow> AckStatus \<Rightarrow> string \<Rightarrow> string \<Rightarrow> MqttManager \<Rightarrow> Publication list" where
  "publishAcknowledgement client commandId commandType status reason target m =
     (let out1 = appendJsonString (''{'' @ json_key ''schemaVersion'' @ decimal (unat (mqtt_schemaVersion m)) @
            '','' @ json_key ''commandId'' @ decimal (unat commandId) @ '','' @ json_key ''commandType'') commandType;
          out2 = appendJsonString (out1 @ '','' @ json_key ''status'' @ in_quotes (ackText status) @
            '','' @ json_key ''reason'') reason;
          out3 = appendJsonString (out2 @ '','' @ json_key ''target'') target
      in snd (publishRaw client ''ack'' (out3 @ ''}'') 1 False m))"

definition publishAlert :: "mqtt_client \<Rightarrow> string \<Rightarrow> string \<Rightarrow> string \<Rightarrow> MqttManager \<Rightarrow> Publication list" where
  "publishAlert client alertType severity detail m =
     (let out1 = appendJsonString (''{'' @ json_key ''schemaVersion'' @ decimal (unat (mqtt_schemaVersion m)) @
            '','' @ json_key ''alertType'') alertType;
          out2 = appendJsonString (out1 @ '','' @ json_key ''severity'') severity;
          out3 = appendJsonString (out2 @ '','' @ json_key ''detail'') detail
      in snd (publishRaw client ''alert'' (out3 @ ''}'') 1 False m))"

definition publishEvent :: "mqtt_client \<Rightarrow> string \<Rightarrow> string \<Rightarrow> string \<Rightarrow> MqttManager \<Rightarrow> Publication list" where
  "publishEvent client eventType target detail m =
     (let t1 = c_text target;
          t2 = (if c_text detail \<noteq> [] then (if t1 \<noteq> [] then t1 @ '': '' else t1) @ c_text detail else t1)
      in publishAlert client eventType ''info'' t2 m)"

section \<open>Publishing the current state\<close>

record StatePublisher =
  previousBatteryReserveReached :: bool
  previousRequiredRuntimeAchievable :: bool
  previousMeasuredPowerExceededBudget :: bool
  nodeOnlineTracking :: "(MacAddress \<times> bool) list"

definition new_StatePublisher :: StatePublisher where
  "new_StatePublisher =
     \<lparr>previousBatteryReserveReached = False, previousRequiredRuntimeAchievable = True,
      previousMeasuredPowerExceededBudget = False, nodeOnlineTracking = []\<rparr>"

text \<open>One turn of the loop over the Nodes: the alerts so far and the tracked states.\<close>

definition trackNode ::
  "mqtt_client \<Rightarrow> MqttManager \<Rightarrow> u32 \<Rightarrow> PlanningNode \<Rightarrow> Publication list \<times> (MacAddress \<times> bool) list \<Rightarrow>
   Publication list \<times> (MacAddress \<times> bool) list" where
  "trackNode client m now pn = (\<lambda>(ps, tracking).
     if plan_isCentralNode pn then (ps, tracking)
     else
       let onlineNow = isNodeOnline pn now; mac = plan_mac pn
       in case find (\<lambda>entry. fst entry = mac) tracking of
            None \<Rightarrow> (ps, tracking @ [(mac, onlineNow)])
          | Some entry \<Rightarrow>
              if snd entry \<noteq> onlineNow
              then (ps @ publishAlert client ''NODE_OFFLINE'' (if onlineNow then ''info'' else ''warning'')
                      (if onlineNow then ''Smart Node came back online''
                       else ''Smart Node stopped reporting and is now offline'') m,
                    update_first (\<lambda>entry. fst entry = mac) (\<lambda>entry. (fst entry, onlineNow)) tracking)
              else (ps, tracking))"

definition reserveAlert :: "mqtt_client \<Rightarrow> MqttManager \<Rightarrow> bool \<Rightarrow> Publication list" where
  "reserveAlert client m reached =
     publishAlert client ''BATTERY_RESERVE'' (if reached then ''critical'' else ''info'')
       (if reached then ''battery state of charge reached the configured reserve''
        else ''battery state of charge recovered above the configured reserve'') m"

definition runtimeAlert :: "mqtt_client \<Rightarrow> MqttManager \<Rightarrow> bool \<Rightarrow> Publication list" where
  "runtimeAlert client m achievable =
     publishAlert client ''RUNTIME_TARGET'' (if achievable then ''info'' else ''warning'')
       (if achievable then ''required runtime target is achievable again''
        else ''required runtime target is no longer achievable at the current load'') m"

definition budgetAlert :: "mqtt_client \<Rightarrow> MqttManager \<Rightarrow> bool \<Rightarrow> Publication list" where
  "budgetAlert client m exceeded =
     publishAlert client ''MEASURED_POWER_BUDGET'' (if exceeded then ''warning'' else ''info'')
       (if exceeded then ''measured power is above the configured P_budget''
        else ''measured power returned within the configured P_budget'') m"

definition MQTT_SCHEMA_VERSION :: u32 where "MQTT_SCHEMA_VERSION = 5"

definition publishParts ::
  "mqtt_client \<Rightarrow> (string \<times> string) list \<Rightarrow> MqttManager \<Rightarrow> Publication list \<times> MqttManager" where
  "publishParts client parts m =
     fold (\<lambda>(suffix, payload) (ps, m). case mqtt_publish client suffix payload 0 True m of
        (_, ps', m') \<Rightarrow> (ps @ ps', m')) parts ([], m)"

definition publishCurrentState ::
  "mqtt_client \<Rightarrow> bool \<Rightarrow> u32 \<Rightarrow> ('g, 'n, 'i) Central \<Rightarrow> StatePublisher \<Rightarrow> MqttManager \<Rightarrow>
   Publication list \<times> ('g, 'n, 'i) Central \<times> StatePublisher \<times> MqttManager" where
  "publishCurrentState client stateTaken now c sp m =
     (if \<not> mqtt_connected m then ([], c, sp, m)
      else
        let status = publishStatus client m
        in if \<not> stateTaken then (status, c, sp, m)
        else
          let c1 = c\<lparr>registry := applyStoredLoadSettings (centralLoadConfigurationStore c) (registry c)\<rparr>;
              i = makeSystemStateInputs c1;
              treeJson = buildTreeJson (registry c1) (commissioningRegistry c1) MQTT_SCHEMA_VERSION now
                NODE_REPORT_TIMEOUT_MILLISECONDS;
              loadsJson = buildLoadsJson (registry c1) MQTT_SCHEMA_VERSION;
              nodesJson = buildStateNodesJson (commissioningRegistry c1) (registry c1) MQTT_SCHEMA_VERSION now
                NODE_REPORT_TIMEOUT_MILLISECONDS;
              configNodesJson = buildConfigNodesJson (commissioningRegistry c1) (registry c1) MQTT_SCHEMA_VERSION;
              reserve = (if ssi_batteryReserveReached i \<noteq> previousBatteryReserveReached sp
                         then reserveAlert client m (ssi_batteryReserveReached i) else []);
              runtime = (if ssi_requiredRuntimeAchievable i \<noteq> previousRequiredRuntimeAchievable sp
                         then runtimeAlert client m (ssi_requiredRuntimeAchievable i) else []);
              exceeded = (snap_budgetValid (latestPlanningSnapshot c1) \<and> batteryReadingValid c1 \<and>
                          flt (ssi_P_budget i) (ssi_P_measured i));
              budget = (if exceeded \<noteq> previousMeasuredPowerExceededBudget sp
                        then budgetAlert client m exceeded else [])
          in case fold (trackNode client m now) (registry c1) ([], nodeOnlineTracking sp) of
               (nodes, tracking) \<Rightarrow>
                 (case publishParts client
                    [(''_state/system'', SystemStateJson_build i MQTT_SCHEMA_VERSION), (''_state/tree'', treeJson),
                     (''_state/loads'', loadsJson), (''_state/nodes'', nodesJson),
                     (''_state/config-nodes'', configNodesJson)] m of
                    (state, m') \<Rightarrow>
                      (status @ reserve @ runtime @ budget @ nodes @ state, c1,
                       \<lparr>previousBatteryReserveReached = ssi_batteryReserveReached i,
                        previousRequiredRuntimeAchievable = ssi_requiredRuntimeAchievable i,
                        previousMeasuredPowerExceededBudget = exceeded, nodeOnlineTracking = tracking\<rparr>, m')))"

section \<open>What the published state says\<close>

definition float_value :: "f32 \<Rightarrow> json" where
  "float_value x = (if fisfinite x then JNumber (fixed_text 3 x) else JNull)"

definition system_value :: "SystemStateInputs \<Rightarrow> u32 \<Rightarrow> json" where
  "system_value i schemaVersion =
     JObject
       [(''schemaVersion'', num (unat schemaVersion)),
        (''battery'', JObject
          [(''sensorConfigured'', JBool (ssi_batterySensorConfigured i)),
           (''nominalVoltageVolts'', float_value (ssi_batteryNominalVoltageVolts i)),
           (''capacityAmpHours'', float_value (ssi_batteryCapacityAmpHours i)),
           (''ratedEnergyWattHours'', float_value (ssi_batteryRatedEnergyWattHours i)),
           (''storedEnergyWattHours'', float_value (ssi_batteryStoredEnergyWattHours i)),
           (''usableEnergyWattHours'', float_value (ssi_batteryUsableEnergyWattHours i)),
           (''voltageVolts'', float_value (ssi_batteryVoltageVolts i)),
           (''currentAmps'', float_value (ssi_batteryCurrentAmps i)),
           (''P_measured'', float_value (ssi_P_measured i)),
           (''measurementSource'', JString (c_text (ssi_batteryMeasurementSourceText i))),
           (''stateOfChargePercent'', float_value (ssi_stateOfChargePercent i)),
           (''stateOfChargeValid'', JBool (ssi_stateOfChargeValid i)),
           (''stateOfChargeSource'', JString (c_text (ssi_stateOfChargeSourceText i))),
           (''batteryReserveReached'', JBool (ssi_batteryReserveReached i)),
           (''requiredRuntimeConfigured'', JBool (ssi_requiredRuntimeConfigured i)),
           (''requiredRuntimeHours'', float_value (ssi_requiredRuntimeHours i)),
           (''remainingRuntimeHours'', float_value (ssi_remainingRuntimeHours i)),
           (''estimatedRuntimeHours'', float_value (ssi_estimatedRuntimeHours i)),
           (''runtimeEstimateValid'', JBool (ssi_runtimeEstimateValid i)),
           (''requiredRuntimeAchievable'', JBool (ssi_requiredRuntimeAchievable i))]),
        (''powerFlow'', JObject
          [(''P_budget'', float_value (ssi_P_budget i)), (''P_reserve'', float_value (ssi_P_reserve i)),
           (''P_fixed'', float_value (ssi_P_fixed i)), (''P_auto_available'', float_value (ssi_P_auto_available i)),
           (''P_auto'', float_value (ssi_P_auto i)), (''P_remaining'', float_value (ssi_P_remaining i))]),
        (''lastOptimizationEpochSeconds'', JNumber (signed_text (ssi_lastOptimizationEpochSeconds i)))]"

text \<open>Up to $10^{32}$ a number and the longest key fit the buffer.\<close>

fun in_range :: "f32 \<Rightarrow> bool" where
  "in_range (Finite s n) \<longleftrightarrow> n \<le> 10 ^ 32 * one_units"
| "in_range _ \<longleftrightarrow> True"

definition inputs_in_range :: "SystemStateInputs \<Rightarrow> bool" where
  "inputs_in_range i \<longleftrightarrow> list_all in_range
     [ssi_batteryNominalVoltageVolts i, ssi_batteryCapacityAmpHours i, ssi_batteryRatedEnergyWattHours i,
      ssi_batteryStoredEnergyWattHours i, ssi_batteryUsableEnergyWattHours i, ssi_batteryVoltageVolts i,
      ssi_batteryCurrentAmps i, ssi_P_measured i, ssi_stateOfChargePercent i, ssi_requiredRuntimeHours i,
      ssi_remainingRuntimeHours i, ssi_estimatedRuntimeHours i, ssi_P_budget i, ssi_P_reserve i, ssi_P_fixed i,
      ssi_P_auto_available i, ssi_P_auto i, ssi_P_remaining i]"

lemma length_decimal: "n < 10 ^ k \<Longrightarrow> 0 < k \<Longrightarrow> length (decimal n) \<le> k"
proof (induction n arbitrary: k rule: decimal.induct)
  case (1 n)
  show ?case
  proof (cases "n < 10")
    case True
    then show ?thesis using "1.prems" by (simp add: decimal.simps [of n])
  next
    case False
    then obtain k' where k: "k = Suc k'" "0 < k'" using "1.prems" by (cases k; cases "k - 1") auto
    then have "n div 10 < 10 ^ k'" using "1.prems" by (simp add: less_mult_imp_div_less mult.commute)
    from "1.IH" [OF False this k(2)] k(1) False show ?thesis by (simp add: decimal.simps [of n])
  qed
qed

lemma length_fixed_text: "fisfinite x \<Longrightarrow> in_range x \<Longrightarrow> length (fixed_text 3 x) \<le> 38"
proof -
  assume "fisfinite x" "in_range x"
  then obtain s n where x: "x = Finite s n" and n: "n \<le> 10 ^ 32 * one_units" by (auto simp: fisfinite_iff)
  define v where "v = round_even (n * 10 ^ 3) one_units"
  have "n * 10 ^ 3 \<le> 10 ^ 35 * one_units" using n by simp
  then have "v \<le> 10 ^ 35" unfolding v_def by (intro round_even_le) simp_all
  then have "v div 1000 < 10 ^ 33" by simp
  then have "length (decimal (v div 1000)) \<le> 33" by (rule length_decimal) simp
  moreover have "length (decimal (v mod 1000)) \<le> 3" by (rule length_decimal) simp_all
  ultimately show ?thesis by (simp add: x Let_def v_def zero_padded_def)
qed

lemma append_number_render:
  assumes "plain key" and "length key \<le> 21" and "in_range x"
  shows "append_number key x comma out = out @ quoted key @ '':'' @ render (float_value x) @ comma_if comma"
proof -
  have "length (if fisfinite x then fixed_text 3 x else ''null'') \<le> 38"
    using length_fixed_text [of x] assms(3) by simp
  then have "length (json_key key @ (if fisfinite x then fixed_text 3 x else ''null'') @ comma_if comma) \<le> 63"
    using assms(2) by (simp add: json_key_def comma_if_def)
  then show ?thesis by (simp add: append_number_def float_value_def json_key_plain [OF assms(1)])
qed

lemma system_json_render:
  assumes "inputs_in_range i"
  shows "SystemStateJson_build i sv = render (system_value i sv)"
proof -
  have r: "in_range (ssi_batteryNominalVoltageVolts i)" "in_range (ssi_batteryCapacityAmpHours i)"
    "in_range (ssi_batteryRatedEnergyWattHours i)" "in_range (ssi_batteryStoredEnergyWattHours i)"
    "in_range (ssi_batteryUsableEnergyWattHours i)" "in_range (ssi_batteryVoltageVolts i)"
    "in_range (ssi_batteryCurrentAmps i)" "in_range (ssi_P_measured i)" "in_range (ssi_stateOfChargePercent i)"
    "in_range (ssi_requiredRuntimeHours i)" "in_range (ssi_remainingRuntimeHours i)"
    "in_range (ssi_estimatedRuntimeHours i)" "in_range (ssi_P_budget i)" "in_range (ssi_P_reserve i)"
    "in_range (ssi_P_fixed i)" "in_range (ssi_P_auto_available i)" "in_range (ssi_P_auto i)"
    "in_range (ssi_P_remaining i)"
    using assms by (simp_all add: inputs_in_range_def)
  show ?thesis
    by (simp add: SystemStateJson_build_def batteryMembers_def powerFlowMembers_def Let_def system_value_def
        append_number_render r append_boolean_def append_text_def append_integer_def text_render comma_if_def)
qed

lemma float_value_ok [simp]: "json_ok (float_value x)"
  by (simp add: float_value_def is_number_fixed)

lemma system_value_ok:
  "json_string (c_text (ssi_batteryMeasurementSourceText i)) \<Longrightarrow> json_string (c_text (ssi_stateOfChargeSourceText i)) \<Longrightarrow>
   json_ok (system_value i sv)"
  by (simp add: system_value_def json_string_plain)

text \<open>The records of the Nodes.\<close>

definition relay_pins_members :: "CommissioningRecord \<Rightarrow> PlanningNode option \<Rightarrow> (string \<times> json) list" where
  "relay_pins_members r node =
     (let pins = take (unat (rec_relayCapabilityCount r)) (rec_relayPins r)
      in [(''usedRelayPins'', JArray (map (\<lambda>pin. num (unat pin)) (filter (pinIsUsed node) pins))),
          (''availableRelayPins'', JArray (map (\<lambda>pin. num (unat pin)) (filter (\<lambda>pin. \<not> pinIsUsed node pin) pins)))])"

definition record_diagnostics_value :: "Diagnostics \<Rightarrow> json" where
  "record_diagnostics_value d =
     JObject
       [(''freeHeapBytes'', num (unat (freeHeapBytes d))), (''minFreeHeapBytes'', num (unat (minFreeHeapBytes d))),
        (''flashSizeBytes'', num (unat (flashSizeBytes d))), (''psramSizeBytes'', num (unat (psramSizeBytes d))),
        (''siliconRevision'', num (unat (siliconRevision d))), (''cpuCores'', num (unat (cpuCores d))),
        (''cpuFrequencyMhz'', num (unat (cpuFrequencyMhz d))), (''resetReason'', JString (resetReason d)),
        (''temperatureAvailable'', JBool (temperatureAvailable d)),
        (''temperatureCelsius'',
         if temperatureAvailable d then JNumber (take 23 (fixed_text 2 (temperatureCelsius d))) else JNull)]"

definition reachability_members :: "PlanningNode option \<Rightarrow> u32 \<Rightarrow> u32 \<Rightarrow> (string \<times> json) list" where
  "reachability_members node now timeout =
     (case node of
        None \<Rightarrow> [(''online'', JBool False), (''hopCountToCentral'', JNull), (''nextHopMac'', JNull)]
      | Some pn \<Rightarrow>
          if plan_isCentralNode pn
          then [(''online'', JNull), (''hopCountToCentral'', JNumber ''0''), (''nextHopMac'', JNull)]
          else [(''online'', JBool (nodeIsOnline now timeout pn)),
                (''hopCountToCentral'', num (unat (plan_hopCount pn))), (''nextHopMac'', mac_json (plan_nextHop pn))])"

definition state_node_value :: "CentralNodeRegistry \<Rightarrow> u32 \<Rightarrow> u32 \<Rightarrow> CommissioningRecord \<Rightarrow> json" where
  "state_node_value ns now timeout r =
     (let node = findNodeByMacAddress (rec_macAddress r) ns
      in JObject
        ([(''mac'', mac_json (rec_macAddress r)), (''role'', JString (role_text (rec_role r))),
          (''nodeName'', JString (rec_friendlyName r)),
          (''lifecycleState'', JString (lifecycle_text (rec_lifecycleState r))),
          (''syncState'', JString (syncStateText (rec_syncState r))),
          (''firmwareVersion'', JString (rec_firmwareVersion r)), (''chipModel'', JString (rec_chipModel r)),
          (''loadCount'', num (loadCount node))] @
         relay_pins_members r node @
         (''diagnostics'', record_diagnostics_value (rec_diagnostics r)) #
         reachability_members node now timeout))"

definition nodes_value :: "NodeCommissioningRegistry \<Rightarrow> CentralNodeRegistry \<Rightarrow> u32 \<Rightarrow> u32 \<Rightarrow> u32 \<Rightarrow> json" where
  "nodes_value rs ns schemaVersion now timeout =
     JObject
       [(''schemaVersion'', num (unat schemaVersion)), (''nodeCount'', num (length ns)),
        (''onlineSmartNodeCount'',
         num (length (filter (\<lambda>pn. \<not> plan_isCentralNode pn \<and> nodeIsOnline now timeout pn) ns))),
        (''nodes'', JArray (map (state_node_value ns now timeout) rs))]"

lemma append_pins_render:
  "append_separated (\<lambda>pin o'. o' @ decimal (unat (pin :: u8))) pins out = out @ render_items (map (\<lambda>pin. num (unat pin)) pins)"
  by (rule append_separated_render) simp

lemma appendRelayPins_render:
  "appendRelayPins r node out = out @ render_members (relay_pins_members r node)"
  by (simp add: appendRelayPins_def relay_pins_members_def Let_def append_pins_render text_render)

lemma appendDiagnostics_render: "appendDiagnostics d out = out @ render (record_diagnostics_value d)"
  by (simp add: appendDiagnostics_def record_diagnostics_value_def text_render)

lemma appendStateNode_render:
  "appendStateNode ns now timeout r out = out @ render (state_node_value ns now timeout r)"
  by (simp add: appendStateNode_def state_node_value_def Let_def text_render appendRelayPins_render
      appendDiagnostics_render relay_pins_members_def reachability_members_def bool_text_def split: option.split)

lemma buildStateNodesJson_render:
  "buildStateNodesJson rs ns sv now timeout = render (nodes_value rs ns sv now timeout)"
  by (simp add: buildStateNodesJson_def nodes_value_def text_render appendStateNode_render
      append_separated_render [where g = "state_node_value ns now timeout"])

section \<open>The published state is JSON\<close>

definition numbers_printable :: "('g, 'n, 'i) Central \<Rightarrow> bool" where
  "numbers_printable c \<longleftrightarrow>
     inputs_in_range (makeSystemStateInputs c) \<and>
     (\<forall>pn \<in> set (registry c). \<forall>l \<in> set (node_loads (plan_node pn)). fisfinite (load_power l)) \<and>
     (\<forall>r \<in> set (commissioningRegistry c). \<not> temperatureAvailable (rec_diagnostics r) \<or>
        is_number (take 23 (fixed_text 2 (temperatureCelsius (rec_diagnostics r)))))"

definition names_printable :: "('g, 'n, 'i) Central \<Rightarrow> bool" where
  "names_printable c \<longleftrightarrow>
     (\<forall>pn \<in> set (registry c). \<forall>l \<in> set (node_loads (plan_node pn)).
        json_string (plan_nodeName pn) \<and> json_string (load_name l)) \<and>
     (\<forall>r \<in> set (commissioningRegistry c). record_printable r)"

definition state_value :: "('g, 'n, 'i) Central \<Rightarrow> u32 \<Rightarrow> json" where
  "state_value c now =
     JObject
       [(''system'', system_value (makeSystemStateInputs c) MQTT_SCHEMA_VERSION),
        (''loads'', loads_value (registry c) MQTT_SCHEMA_VERSION),
        (''nodes'', nodes_value (commissioningRegistry c) (registry c) MQTT_SCHEMA_VERSION now
           NODE_REPORT_TIMEOUT_MILLISECONDS)]"

lemma load_value_iff:
  "fisfinite (load_power l) \<Longrightarrow>
   numbers_ok (load_value nn l) \<and> (json_ok (load_value nn l) \<longleftrightarrow> json_string nn \<and> json_string (load_name l))"
  by (auto simp: load_value_def Let_def json_string_plain is_number_fixed)

lemma state_node_value_iff:
  "\<not> temperatureAvailable (rec_diagnostics r) \<or>
     is_number (take 23 (fixed_text 2 (temperatureCelsius (rec_diagnostics r)))) \<Longrightarrow>
   numbers_ok (state_node_value ns now timeout r) \<and>
   (json_ok (state_node_value ns now timeout r) \<longleftrightarrow> record_printable r)"
  by (auto simp: state_node_value_def Let_def record_diagnostics_value_def relay_pins_members_def
      reachability_members_def json_string_plain record_printable_def split: option.split)

lemma system_value_printable: "json_ok (system_value (makeSystemStateInputs c) sv)"
proof (rule system_value_ok)
  show "json_string (c_text (ssi_batteryMeasurementSourceText (makeSystemStateInputs c)))"
    by (cases "measurementSource (batteryMonitor c)") (simp_all add: makeSystemStateInputs_def Let_def c_text_def json_string_def)
  show "json_string (c_text (ssi_stateOfChargeSourceText (makeSystemStateInputs c)))"
    by (cases "stateOfChargeSource (batteryMonitor c)") (simp_all add: makeSystemStateInputs_def Let_def c_text_def json_string_def)
qed

lemma state_value_iff:
  assumes "numbers_printable c"
  shows "numbers_ok (state_value c now) \<and> (json_ok (state_value c now) \<longleftrightarrow> names_printable c)"
proof -
  have l: "numbers_ok (loads_value (registry c) MQTT_SCHEMA_VERSION) \<and>
      (json_ok (loads_value (registry c) MQTT_SCHEMA_VERSION) \<longleftrightarrow>
       (\<forall>pn \<in> set (registry c). \<forall>l \<in> set (node_loads (plan_node pn)).
          json_string (plan_nodeName pn) \<and> json_string (load_name l)))"
    using assms load_value_iff by (auto simp: loads_value_def json_string_plain numbers_printable_def)
  have n: "numbers_ok (nodes_value (commissioningRegistry c) (registry c) MQTT_SCHEMA_VERSION now timeout) \<and>
      (json_ok (nodes_value (commissioningRegistry c) (registry c) MQTT_SCHEMA_VERSION now timeout) \<longleftrightarrow>
       (\<forall>r \<in> set (commissioningRegistry c). record_printable r))" for timeout
    using assms state_node_value_iff by (auto simp: nodes_value_def json_string_plain numbers_printable_def)
  show ?thesis using l n system_value_printable [of c MQTT_SCHEMA_VERSION] json_ok_numbers
    by (auto simp: state_value_def names_printable_def json_string_plain)
qed

lemma state_published:
  assumes "mqtt_connected m" and "numbers_printable c'"
    and "publishCurrentState client True now c sp m = (ps, c', sp', m')"
  shows "\<exists>before. ps = before @ [\<lparr>pub_topic = fullTopic ''state'' m, pub_payload = render (state_value c' now),
     pub_qos = 0, pub_retain = True\<rparr>]"
proof -
  define c1 where "c1 = c\<lparr>registry := applyStoredLoadSettings (centralLoadConfigurationStore c) (registry c)\<rparr>"
  have c': "c' = c1" using assms(1,3) unfolding publishCurrentState_def c1_def [symmetric]
    by (simp add: Let_def split: prod.splits)
  define sys where "sys = SystemStateJson_build (makeSystemStateInputs c1) MQTT_SCHEMA_VERSION"
  define lds where "lds = buildLoadsJson (registry c1) MQTT_SCHEMA_VERSION"
  define nds where "nds = buildStateNodesJson (commissioningRegistry c1) (registry c1) MQTT_SCHEMA_VERSION now
                NODE_REPORT_TIMEOUT_MILLISECONDS"
  have r: "sys = render (system_value (makeSystemStateInputs c1) MQTT_SCHEMA_VERSION)"
    "lds = render (loads_value (registry c1) MQTT_SCHEMA_VERSION)"
    "nds = render (nodes_value (commissioningRegistry c1) (registry c1) MQTT_SCHEMA_VERSION now NODE_REPORT_TIMEOUT_MILLISECONDS)"
    using assms(2) by (simp_all add: sys_def lds_def nds_def c' numbers_printable_def system_json_render
        buildLoadsJson_render buildStateNodesJson_render)
  have ne: "sys \<noteq> []" "lds \<noteq> []" "nds \<noteq> []" unfolding r by (simp_all add: system_value_def loads_value_def nodes_value_def)
  have p: "fst (publishParts client [(''_state/system'', sys), (''_state/tree'', t), (''_state/loads'', lds),
        (''_state/nodes'', nds), (''_state/config-nodes'', k)] m) =
      [\<lparr>pub_topic = fullTopic ''state'' m, pub_payload = render (state_value c' now), pub_qos = 0, pub_retain = True\<rparr>]" for t k
    using assms(1) ne
    by (simp add: publishParts_def mqtt_publish_def publishCombinedState_def publishRaw_def Let_def fullTopic_def)
      (simp add: state_value_def c' r text_render)
  show ?thesis using assms(1,3) unfolding publishCurrentState_def c1_def [symmetric]
    by (simp add: Let_def sys_def [symmetric] lds_def [symmetric] nds_def [symmetric] split: prod.splits)
      (use p in \<open>metis fst_conv append.assoc\<close>)
qed

text \<open>
  C13: What Central publishes is its state. Whenever it publishes while connected, with the shared state
  locked and numbers that fit the buffers they are printed into (every figure of the system at most
  $10^{32}$ in magnitude or not finite, every rating finite, every available chip temperature a number of
  at most 23 characters), the last publication is retained on the topic \<open>state\<close>, and a JSON reader
  finds in it exactly the system's measurements and power budget, every Load of the planning registry with
  its settings, and every Node's record with its pins and reachability, provided that no name and none of
  the texts in a Node's record has a control character; with one such text anywhere the whole
  payload is not JSON.
\<close>

theorem published_state_is_json:
  assumes "mqtt_connected m" and "numbers_printable c'"
    and "publishCurrentState client True now c sp m = (ps, c', sp', m')"
  shows "ps \<noteq> [] \<and> pub_topic (last ps) = topicNamespace m @ ''/state'' \<and> pub_retain (last ps) \<and>
     parse_json (pub_payload (last ps)) = (if names_printable c' then Some (state_value c' now) else None)"
proof -
  obtain before where ps: "ps = before @ [\<lparr>pub_topic = fullTopic ''state'' m, pub_payload = render (state_value c' now),
     pub_qos = 0, pub_retain = True\<rparr>]" using state_published [OF assms] by blast
  from state_value_iff [OF assms(2), of now] show ?thesis
    by (simp add: ps fullTopic_def parse_render_iff)
qed

text \<open>A Central with one Load of its own, connected to a broker.\<close>

definition published_central :: "string \<Rightarrow> (unit, unit, unit) Central" where
  "published_central name =
     (new_Central (2, 0, 0, 0, 0, 1) () () ())\<lparr>registry :=
        [\<lparr>plan_node = \<lparr>node_macAddress = (2, 0, 0, 0, 0, 1),
            node_loads = [new_Load \<lparr>id_mac = (2, 0, 0, 0, 0, 1), id_pin = 16\<rparr> name fzero 1 AC FIXED_ON]\<rparr>,
          plan_nodeName = ''Central'', plan_nextHop = zero_mac, plan_hopCount = 0, plan_isCentralNode = True,
          plan_lastSeen = 0, plan_pendingReport = new_PendingNodeReport\<rparr>]\<rparr>"

definition connected_manager :: MqttManager where
  "connected_manager = \<lparr>topicNamespace = ''kilowatts'', mqtt_schemaVersion = 5, mqtt_connected = True,
     stateSystemJson = [], stateLoadsJson = [], stateNodesJson = []\<rparr>"

lemma published_central_unchanged:
  "published_central name\<lparr>registry := applyStoredLoadSettings (centralLoadConfigurationStore (published_central name))
     (registry (published_central name))\<rparr> = published_central name"
  by (simp add: published_central_def new_Central_def applyStoredLoadSettings_def pointersOf_def writeThrough_def
      getLoadAt_def writeMutableLoad_def applyToLoad_def findConfiguration_def updateLoad_def plan_mac_def
      new_Load_def setPowerRatingWatts_def getMacAddress_def getRelayPin_def)

lemma published_central_numbers: "numbers_printable (published_central name)"
proof -
  show ?thesis
    by (simp add: numbers_printable_def published_central_def new_Central_def inputs_in_range_def
        makeSystemStateInputs_def Let_def new_CentralConfiguration_def new_PowerManager_def new_PlanningSnapshot_def
        zero_measurements_def zero_budget_def isStateOfChargeValid_def make_f32_def new_Load_def setPowerRatingWatts_def)
qed

lemma published_central_names: "names_printable (published_central name) \<longleftrightarrow> json_string name"
  by (simp add: names_printable_def published_central_def new_Central_def new_Load_def setPowerRatingWatts_def)
    (simp add: json_string_def)

lemma published_state_is_json_witness:
  "\<exists>client now ps c' sp' m' qs d' sq' n'.
     publishCurrentState client True now (published_central ''Pump'') new_StatePublisher connected_manager = (ps, c', sp', m') \<and>
     parse_json (pub_payload (last ps)) \<noteq> None \<and>
     publishCurrentState client True now (published_central [CHR ''P'', CHR 0x0A]) new_StatePublisher connected_manager =
       (qs, d', sq', n') \<and>
     parse_json (pub_payload (last qs)) = None"
proof -
  have c: "mqtt_connected connected_manager" by (simp add: connected_manager_def)
  obtain ps c' sp' m' where p: "publishCurrentState (\<lambda>_. True) True 0 (published_central ''Pump'') new_StatePublisher connected_manager =
      (ps, c', sp', m')" by (metis prod_cases4)
  obtain qs d' sq' n' where q: "publishCurrentState (\<lambda>_. True) True 0 (published_central [CHR ''P'', CHR 0x0A]) new_StatePublisher
      connected_manager = (qs, d', sq', n')" by (metis prod_cases4)
  have c': "c' = published_central ''Pump''" "d' = published_central [CHR ''P'', CHR 0x0A]"
    using p q c by (simp_all add: publishCurrentState_def Let_def published_central_unchanged split: prod.splits)
  have "parse_json (pub_payload (last ps)) \<noteq> None"
    using published_state_is_json [OF c published_central_numbers p [unfolded c']] by (simp add: published_central_names json_string_def)
  moreover have "parse_json (pub_payload (last qs)) = None"
    using published_state_is_json [OF c published_central_numbers q [unfolded c']] by (simp add: published_central_names json_string_def)
  ultimately show ?thesis using p q by blast
qed

end
