(* ===== verification/Text_Input.thy ===== *)
theory Text_Input
  imports Json Loads
begin

text \<open>
  The functions of the C library the firmware reads its input with: \<open>strtoul\<close>, \<open>strtof\<close>, and
  \<open>sscanf\<close> with the conversions \<open>%u\<close> and \<open>%2x\<close>, for the 32-bit \<open>unsigned long\<close> of the chip.
  Each gives what it read and the rest of the text, or \<open>None\<close> where nothing matched. What
  the formatters write is read back.
\<close>

section \<open>Characters\<close>

definition is_space :: "char \<Rightarrow> bool" where
  "is_space c \<longleftrightarrow> (of_char c :: nat) = 32 \<or> (9 \<le> (of_char c :: nat) \<and> (of_char c :: nat) \<le> 13)"

definition lower :: "char \<Rightarrow> char" where
  "lower c = (if 65 \<le> (of_char c :: nat) \<and> (of_char c :: nat) \<le> 90 then char_of (of_char c + 32 :: nat) else c)"

definition hex_value :: "char \<Rightarrow> nat option" where
  "hex_value c =
     (let n = of_char c :: nat
      in if 48 \<le> n \<and> n \<le> 57 then Some (n - 48)
         else if 65 \<le> n \<and> n \<le> 70 then Some (n - 55)
         else if 97 \<le> n \<and> n \<le> 102 then Some (n - 87)
         else None)"

definition is_hex :: "char \<Rightarrow> bool" where
  "is_hex c \<longleftrightarrow> hex_value c \<noteq> None"

definition hex_digits_value :: "string \<Rightarrow> nat" where
  "hex_digits_value t = foldl (\<lambda>a c. 16 * a + the (hex_value c)) 0 t"

definition scan_sign :: "string \<Rightarrow> bool \<times> string" where
  "scan_sign s =
     (if take 1 s = ''-'' then (True, tl s) else if take 1 s = ''+'' then (False, tl s) else (False, s))"

section \<open>Integers\<close>

text \<open>A value out of range becomes the largest one; a minus sign negates modulo $2^{32}$.\<close>

definition unsigned_result :: "bool \<Rightarrow> nat \<Rightarrow> u32" where
  "unsigned_result negative n =
     (if 2 ^ 32 \<le> n then - 1 else if negative then - of_nat n else of_nat n)"

definition strtoul :: "string \<Rightarrow> (u32 \<times> string) option" where
  "strtoul s =
     (case scan_sign (dropWhile is_space s) of
        (negative, r) \<Rightarrow>
          let digits = takeWhile is_digit r
          in if digits = [] then None
             else Some (unsigned_result negative (digits_value digits), dropWhile is_digit r))"

text \<open>
  \<open>%2x\<close>: at most two characters after the white space, of which a sign is one. The prefix
  \<open>0x\<close> leaves no room for a digit, so it is a matching failure.
\<close>

definition scan_hex2 :: "string \<Rightarrow> (u32 \<times> string) option" where
  "scan_hex2 s =
     (let t = dropWhile is_space s
      in case scan_sign t of
        (negative, r) \<Rightarrow>
          let width = 2 - (length t - length r);
              digits = takeWhile is_hex (take width r)
          in if digits = [] \<or> map lower (take width r) = ''0x'' then None
             else Some (unsigned_result negative (hex_digits_value digits), drop (length digits) r))"

text \<open>\<open>%2x:%2x:...\<close> with \<open>n\<close> conversions.\<close>

fun scan_hex_fields :: "nat \<Rightarrow> string \<Rightarrow> (u32 list \<times> string) option" where
  "scan_hex_fields 0 s = Some ([], s)"
| "scan_hex_fields (Suc n) s =
     (case scan_hex2 s of
        None \<Rightarrow> None
      | Some (b, r) \<Rightarrow>
          if n = 0 then Some ([b], r)
          else if take 1 r \<noteq> '':'' then None
          else map_option (apfst ((#) b)) (scan_hex_fields n (tl r)))"

section \<open>Real numbers\<close>

datatype scanned_real =
  Scanned_NaN | Scanned_Infinity
| Scanned nat nat int

definition scan_exponent :: "char \<Rightarrow> string \<Rightarrow> int \<times> string" where
  "scan_exponent marker r =
     (if map lower (take 1 r) \<noteq> [marker] then (0, r)
      else case scan_sign (tl r) of
        (negative, t) \<Rightarrow>
          let digits = takeWhile is_digit t
          in if digits = [] then (0, r)
             else (if negative then - int (digits_value digits) else int (digits_value digits),
                   dropWhile is_digit t))"

text \<open>Digits with an optional point; the point is taken only with a digit on one of its sides.\<close>

definition scan_fraction :: "(char \<Rightarrow> bool) \<Rightarrow> string \<Rightarrow> (string \<times> nat \<times> string) option" where
  "scan_fraction digit s =
     (let i = takeWhile digit s; r = dropWhile digit s;
          f = (if take 1 r = ''.'' then takeWhile digit (tl r) else [])
      in if i = [] \<and> f = [] then None
         else Some (i @ f, length f, if take 1 r = ''.'' then dropWhile digit (tl r) else r))"

text \<open>The digits give the value \<open>m * b ^ e\<close> of \<open>Scanned m b e\<close>.\<close>

definition scan_decimal :: "string \<Rightarrow> (scanned_real \<times> string) option" where
  "scan_decimal s =
     (case scan_fraction is_digit s of
        None \<Rightarrow> None
      | Some (digits, places, r) \<Rightarrow>
          (case scan_exponent (CHR ''e'') r of
             (e, r') \<Rightarrow> Some (Scanned (digits_value digits) 10 (e - int places), r')))"

definition scan_hexadecimal :: "string \<Rightarrow> (scanned_real \<times> string) option" where
  "scan_hexadecimal s =
     (case scan_fraction is_hex s of
        None \<Rightarrow> None
      | Some (digits, places, r) \<Rightarrow>
          (case scan_exponent (CHR ''p'') r of
             (e, r') \<Rightarrow> Some (Scanned (hex_digits_value digits) 2 (e - 4 * int places), r')))"

definition starts_with :: "string \<Rightarrow> string \<Rightarrow> bool" where
  "starts_with word s \<longleftrightarrow> map lower (take (length word) s) = word"

text \<open>\<open>nan\<close> may be followed by letters, digits and underscores in parentheses.\<close>

definition nan_rest :: "string \<Rightarrow> string" where
  "nan_rest r =
     (let word = (\<lambda>c. is_digit c \<or> (97 \<le> (of_char (lower c) :: nat) \<and> (of_char (lower c) :: nat) \<le> 122) \<or>
                      c = CHR ''_'');
          t = dropWhile word (tl r)
      in if take 1 r = ''('' \<and> take 1 t = '')'' then tl t else r)"

definition scan_real :: "string \<Rightarrow> (bool \<times> scanned_real \<times> string) option" where
  "scan_real s =
     (case scan_sign (dropWhile is_space s) of
        (negative, r) \<Rightarrow>
          map_option (Pair negative)
            (if starts_with ''infinity'' r then Some (Scanned_Infinity, drop 8 r)
             else if starts_with ''inf'' r then Some (Scanned_Infinity, drop 3 r)
             else if starts_with ''nan'' r then Some (Scanned_NaN, nan_rest (drop 3 r))
             else if starts_with ''0x'' r \<and> scan_fraction is_hex (drop 2 r) \<noteq> None
             then scan_hexadecimal (drop 2 r)
             else scan_decimal r))"

text \<open>The nearest \<open>float\<close>, ties to even.\<close>

fun scanned_float :: "bool \<Rightarrow> scanned_real \<Rightarrow> f32" where
  "scanned_float negative Scanned_NaN = NaN"
| "scanned_float negative Scanned_Infinity = Infinity negative"
| "scanned_float negative (Scanned m b e) =
     make_f32 negative (round_ratio (m * one_units * b ^ nat e) (b ^ nat (- e)))"

definition strtof :: "string \<Rightarrow> (f32 \<times> string) option" where
  "strtof s = map_option (\<lambda>(negative, v, r). (scanned_float negative v, r)) (scan_real s)"

section \<open>What is written is read back\<close>

text \<open>A text that does not go on with a digit.\<close>

definition no_digit :: "string \<Rightarrow> bool" where
  "no_digit r \<longleftrightarrow> (case r of [] \<Rightarrow> True | c # cs \<Rightarrow> \<not> is_digit c)"

lemma no_digit_simps [simp]: "no_digit []" "no_digit (c # cs) \<longleftrightarrow> \<not> is_digit c"
  by (simp_all add: no_digit_def)

lemma decimal_split: obtains c cs where "decimal n = c # cs" "is_digit c"
  using decimal_digits [of n] by (cases "decimal n") auto

lemma digit_no_space: "is_digit c \<Longrightarrow> \<not> is_space c \<and> c \<noteq> CHR ''-'' \<and> c \<noteq> CHR ''+''"
  by (auto simp: is_digit_def is_space_def)

lemma scan_sign_digits:
  "scan_sign (dropWhile is_space (decimal n @ r)) = (False, decimal n @ r)"
proof -
  obtain c cs where d: "decimal n = c # cs" "is_digit c" by (rule decimal_split)
  then show ?thesis using digit_no_space [OF d(2)] by (simp add: scan_sign_def)
qed

lemma takeWhile_decimal:
  "no_digit r \<Longrightarrow> takeWhile is_digit (decimal n @ r) = decimal n \<and> dropWhile is_digit (decimal n @ r) = r"
  unfolding no_digit_def using takeWhile_digits decimal_digits by blast

lemma strtoul_decimal: "no_digit r \<Longrightarrow> n < 2 ^ 32 \<Longrightarrow> strtoul (decimal n @ r) = Some (of_nat n, r)"
  using takeWhile_decimal [of r n] decimal_digits [of n]
  by (simp add: strtoul_def scan_sign_digits unsigned_result_def)

lemma hex_value_digit: "d < 16 \<Longrightarrow> hex_value (hex_digit d) = Some d"
proof -
  have "\<forall>d < 16. hex_value (''0123456789ABCDEF'' ! d) = Some d" by code_simp
  then show "d < 16 \<Longrightarrow> hex_value (hex_digit d) = Some d" by (simp add: hex_digit_def)
qed

lemma hex_digit_char: "d < 16 \<Longrightarrow> \<not> is_space (hex_digit d) \<and> hex_digit d \<noteq> CHR ''-'' \<and>
    hex_digit d \<noteq> CHR ''+'' \<and> lower (hex_digit d) \<noteq> CHR ''x''"
proof -
  have "\<forall>d < 16. \<not> is_space (''0123456789ABCDEF'' ! d) \<and> ''0123456789ABCDEF'' ! d \<noteq> CHR ''-'' \<and>
    ''0123456789ABCDEF'' ! d \<noteq> CHR ''+'' \<and> lower (''0123456789ABCDEF'' ! d) \<noteq> CHR ''x''" by code_simp
  then show "d < 16 \<Longrightarrow> ?thesis" by (simp add: hex_digit_def)
qed

lemma scan_hex2_byte: "scan_hex2 (hex_byte b @ r) = Some (of_nat (unat b), r)"
proof -
  have b: "unat b < 256" using unsigned_less [of b, where ?'a = nat] by simp
  then have d: "unat b div 16 < 16" "unat b mod 16 < 16" by auto
  note v = hex_value_digit [OF d(1)] hex_value_digit [OF d(2)]
  note c = hex_digit_char [OF d(1)] hex_digit_char [OF d(2)]
  have "16 * (unat b div 16) + unat b mod 16 = unat b" by simp
  then show ?thesis using b c
    by (simp add: scan_hex2_def hex_byte_def scan_sign_def is_hex_def v hex_digits_value_def
        unsigned_result_def)
qed

lemma scan_mac:
  "scan_hex_fields 6 (formatMacAddressText 18 (a, b, c, d, e, f) @ r) =
   Some (map (\<lambda>x. of_nat (unat x)) [a, b, c, d, e, f], r)"
proof -
  have l: "length (hex_byte x) = 2" for x by (simp add: hex_byte_def)
  show ?thesis
    by (simp add: formatMacAddressText_def l scan_hex2_byte eval_nat_numeral)
qed

text \<open>A whole number below $2^{24}$ is read without rounding.\<close>

lemma scan_decimal_whole:
  "no_digit r \<Longrightarrow> map lower (take 1 r) \<noteq> ''e'' \<Longrightarrow> take 1 r \<noteq> ''.'' \<Longrightarrow>
   scan_decimal (decimal n @ r) = Some (Scanned n 10 0, r)"
  using takeWhile_decimal [of r n] decimal_digits [of n]
  by (simp add: scan_decimal_def scan_fraction_def scan_exponent_def)

lemma decimal_no_word: "\<not> is_digit w \<Longrightarrow> lower w = w \<Longrightarrow> \<not> starts_with (w # ws) (decimal n @ r)"
proof
  assume w: "\<not> is_digit w" and s: "starts_with (w # ws) (decimal n @ r)"
  obtain c cs where d: "decimal n = c # cs" "is_digit c" by (rule decimal_split)
  from s have "lower c = w" by (simp add: d starts_with_def)
  moreover have "lower c = c" using d(2) by (auto simp: lower_def is_digit_def)
  ultimately show False using w d(2) by simp
qed

lemma decimal_no_hex: "no_digit r \<Longrightarrow> map lower (take 1 r) \<noteq> ''x'' \<Longrightarrow> \<not> starts_with ''0x'' (decimal n @ r)"
proof
  assume r: "no_digit r" "map lower (take 1 r) \<noteq> ''x''" and s: "starts_with ''0x'' (decimal n @ r)"
  obtain c cs where d: "decimal n = c # cs" "is_digit c" by (rule decimal_split)
  show False
  proof (cases cs)
    case Nil
    with s r show False by (cases r) (auto simp: d starts_with_def)
  next
    case (Cons e es)
    then have "is_digit e" using decimal_digits [of n] by (simp add: d)
    then have "lower e = e" "e \<noteq> CHR ''x''" by (auto simp: lower_def is_digit_def)
    with s show False by (simp add: d Cons starts_with_def)
  qed
qed

lemma scan_real_whole:
  assumes "no_digit r" "map lower (take 1 r) \<notin> {''e'', ''x''}" "take 1 r \<noteq> ''.''"
  shows "scan_real (decimal n @ r) = Some (False, Scanned n 10 0, r)"
proof -
  have "\<not> is_digit (CHR ''i'')" "\<not> is_digit (CHR ''n'')" "lower (CHR ''i'') = CHR ''i''" "lower (CHR ''n'') = CHR ''n''"
    by (simp_all add: is_digit_def lower_def)
  with assms show ?thesis
    by (simp add: scan_real_def scan_sign_digits decimal_no_word decimal_no_hex scan_decimal_whole)
qed

end
