(* ===== verification/Float64.thy ===== *)
theory Float64
  imports Float32
begin

text \<open>
  IEEE 754 binary64, the \<open>double\<close> in which cJSON keeps its numbers, as far as the firmware uses
  it: rounding to the nearest double, comparison with whole numbers, the test for a whole
  number and the conversion to \<open>float\<close>. A magnitude is a number of units of $2^{-1074}$.
\<close>

definition round_to :: "nat \<Rightarrow> nat \<Rightarrow> nat \<Rightarrow> nat" where
  "round_to precision num den =
     (let k = bit_length (num div den) - precision
      in round_even num (den * 2 ^ k) * 2 ^ k)"

definition double_one :: nat where
  "double_one = 2 ^ 1074"

definition double_overflow :: nat where
  "double_overflow = 2 ^ 2098"

datatype f64 = Double_NaN | Double_Infinity bool | Double bool nat

definition make_f64 :: "bool \<Rightarrow> nat \<Rightarrow> f64" where
  "make_f64 s n = (if double_overflow \<le> n then Double_Infinity s else Double s n)"

fun disfinite :: "f64 \<Rightarrow> bool" where
  "disfinite (Double s n) = True"
| "disfinite _ = False"

text \<open>\<open>std::floor(v) == v\<close> for a finite \<open>v\<close>.\<close>

fun whole :: "f64 \<Rightarrow> bool" where
  "whole (Double s n) = (n mod double_one = 0)"
| "whole _ = False"

text \<open>\<open>v < 0.0\<close>, \<open>v <= 0.0\<close> and \<open>v > m\<close> for a finite \<open>v\<close> and a whole \<open>m\<close>.\<close>

fun negative_double :: "f64 \<Rightarrow> bool" where
  "negative_double (Double s n) = (s \<and> n \<noteq> 0)"
| "negative_double _ = False"

fun zero_double :: "f64 \<Rightarrow> bool" where
  "zero_double (Double s n) = (n = 0)"
| "zero_double _ = False"

fun exceeds :: "f64 \<Rightarrow> nat \<Rightarrow> bool" where
  "exceeds (Double s n) m = (\<not> s \<and> m * double_one < n)"
| "exceeds _ m = False"

text \<open>The conversion of a whole non-negative double to an unsigned integer.\<close>

fun double_nat :: "f64 \<Rightarrow> nat" where
  "double_nat (Double s n) = n div double_one"
| "double_nat _ = 0"

fun double_float :: "f64 \<Rightarrow> f32" where
  "double_float Double_NaN = NaN"
| "double_float (Double_Infinity s) = Infinity s"
| "double_float (Double s n) = make_f32 s (round_ratio n (2 ^ 925))"

section \<open>Whole numbers\<close>

lemma double_one_pos [simp]: "0 < double_one" "double_one \<noteq> 0"
  by (simp_all add: double_one_def)

lemma round_to_24: "round_to 24 = round_ratio"
  by (intro ext) (simp add: round_to_def round_ratio_def)

text \<open>A magnitude with at most \<open>p\<close> significant bits is kept as it is.\<close>

lemma round_to_exact:
  assumes den: "0 < den" and m: "m < 2 ^ p"
  shows "round_to p (m * 2 ^ j * den) den = m * 2 ^ j"
proof -
  let ?n = "m * 2 ^ j"
  let ?k = "bit_length ?n - p"
  have q: "(?n * den) div den = ?n" using den by simp
  have "?n < 2 ^ (p + j)" using m by (simp add: power_add)
  then have "bit_length ?n \<le> p + j" by (simp only: bit_length_le_iff)
  then have kj: "?k \<le> j" by arith
  then have split: "2 ^ j = (2::nat) ^ (j - ?k) * 2 ^ ?k" by (simp flip: power_add)
  have eq: "?n * den = (m * 2 ^ (j - ?k)) * (den * 2 ^ ?k)" by (subst split) (simp add: ac_simps)
  have "round_even (?n * den) (den * 2 ^ ?k) = m * 2 ^ (j - ?k)"
    unfolding eq using den by (intro round_even_mult) simp
  then have "round_to p (?n * den) den = m * (2 ^ (j - ?k) * 2 ^ ?k)"
    unfolding round_to_def Let_def q by (simp add: mult.assoc)
  then show ?thesis by (simp only: split [symmetric])
qed

definition whole_double :: "nat \<Rightarrow> f64" where
  "whole_double n = Double False (n * double_one)"

lemma make_f64_whole: "n < 2 ^ 53 \<Longrightarrow> make_f64 False (round_to 53 (n * double_one) 1) = whole_double n"
proof -
  assume n: "n < 2 ^ 53"
  have "n * double_one < 2 ^ 53 * double_one" using n by simp
  also have "2 ^ 53 * double_one \<le> double_overflow"
    by (simp add: double_one_def double_overflow_def flip: power_add)
  finally have "\<not> double_overflow \<le> n * double_one" by simp
  moreover have "round_to 53 (n * double_one) 1 = n * double_one"
    using round_to_exact [of 1 n 53 1074] n by (simp add: double_one_def)
  ultimately show ?thesis by (simp add: make_f64_def whole_double_def)
qed

lemma whole_double_simps [simp]:
  "disfinite (whole_double n)" "whole (whole_double n)" "\<not> negative_double (whole_double n)"
  "zero_double (whole_double n) \<longleftrightarrow> n = 0" "exceeds (whole_double n) m \<longleftrightarrow> m < n"
  "double_nat (whole_double n) = n"
  by (simp_all add: whole_double_def)

lemma double_float_whole: "n < 2 ^ 24 \<Longrightarrow> double_float (whole_double n) = watts n"
proof -
  assume n: "n < 2 ^ 24"
  have e: "n * double_one = n * 2 ^ 149 * 2 ^ 925" by (simp add: double_one_def flip: power_add)
  have "round_ratio (n * double_one) (2 ^ 925) = n * one_units"
    unfolding e one_units_def by (rule round_ratio_exact [OF _ n]) simp
  moreover have "\<not> overflow_units \<le> n * one_units"
    using representableD [OF representable_watts [OF n]] by simp
  ultimately show ?thesis by (simp add: whole_double_def watts_def make_f32_def)
qed

end
