(* ===== verification/CJson.thy ===== *)
theory CJson
  imports Text_Input Float64
begin

text \<open>
  The reader of cJSON (\<open>managed_components/espressif__cjson/cJSON/cJSON.c\<close>), through which
  every MQTT command passes: numbers, strings with their UTF-16 escapes, arrays, objects, the
  nesting limit and the look-up of a member. A \<open>parse_buffer\<close> is the text from its offset on; a
  failed parse gives \<open>Refused\<close>. Allocation does not fail, and the \<open>valueint\<close> field and the error
  position, which the firmware never reads, are left out.

  The reader may be called with any fuel above twice the length of the text without a
  difference, so it always comes to an end; and it reads whatever the firmware writes.
\<close>

section \<open>Values\<close>

datatype cJSON =
  CNull | CFalse | CTrue | CNumber f64 | CString string
| CArray "cJSON list" | CObject "(string \<times> cJSON) list"

definition CJSON_NESTING_LIMIT :: nat where "CJSON_NESTING_LIMIT = 1000"

text \<open>An item pointer is an option. \<open>strcmp\<close> compares up to the NUL, which no stored string contains.\<close>

fun cJSON_IsNumber :: "cJSON option \<Rightarrow> bool" where
  "cJSON_IsNumber (Some (CNumber v)) = True"
| "cJSON_IsNumber _ = False"

fun cJSON_IsString :: "cJSON option \<Rightarrow> bool" where
  "cJSON_IsString (Some (CString s)) = True"
| "cJSON_IsString _ = False"

definition cJSON_IsTrue :: "cJSON option \<Rightarrow> bool" where
  "cJSON_IsTrue item \<longleftrightarrow> item = Some CTrue"

definition cJSON_IsBool :: "cJSON option \<Rightarrow> bool" where
  "cJSON_IsBool item \<longleftrightarrow> item = Some CTrue \<or> item = Some CFalse"

fun cJSON_IsObject :: "cJSON option \<Rightarrow> bool" where
  "cJSON_IsObject (Some (CObject ms)) = True"
| "cJSON_IsObject _ = False"

fun valuedouble :: "cJSON option \<Rightarrow> f64" where
  "valuedouble (Some (CNumber v)) = v"
| "valuedouble _ = Double False 0"

fun valuestring :: "cJSON option \<Rightarrow> c_str" where
  "valuestring (Some (CString s)) = Some s"
| "valuestring _ = None"

text \<open>Only the children of an object have names.\<close>

fun cJSON_GetObjectItemCaseSensitive :: "cJSON \<Rightarrow> string \<Rightarrow> cJSON option" where
  "cJSON_GetObjectItemCaseSensitive (CObject ms) name = map_of ms name"
| "cJSON_GetObjectItemCaseSensitive _ name = None"

section \<open>The reader\<close>

text \<open>At the end of the text the buffer steps back to the last character, which was white space.\<close>

definition buffer_skip_whitespace :: "string \<Rightarrow> string" where
  "buffer_skip_whitespace s =
     (let r = dropWhile (\<lambda>c. (of_char c :: nat) \<le> 32) s in if r = [] \<and> s \<noteq> [] then [last s] else r)"

definition skip_utf8_bom :: "string \<Rightarrow> string" where
  "skip_utf8_bom s = (if 4 < length s \<and> take 3 s = [CHR 0xEF, CHR 0xBB, CHR 0xBF] then drop 3 s else s)"

fun scanned_double :: "bool \<Rightarrow> scanned_real \<Rightarrow> f64" where
  "scanned_double negative Scanned_NaN = Double_NaN"
| "scanned_double negative Scanned_Infinity = Double_Infinity negative"
| "scanned_double negative (Scanned m b e) =
     make_f64 negative (round_to 53 (m * double_one * b ^ nat e) (b ^ nat (- e)))"

definition strtod :: "string \<Rightarrow> (f64 \<times> string) option" where
  "strtod s = map_option (\<lambda>(negative, v, r). (scanned_double negative v, r)) (scan_real s)"

definition parse_number :: "string \<Rightarrow> (cJSON \<times> string) option" where
  "parse_number s =
     (case strtod (takeWhile number_char s) of
        None \<Rightarrow> None
      | Some (v, r) \<Rightarrow> Some (CNumber v, r @ dropWhile number_char s))"

text \<open>A character that is no hexadecimal digit makes the whole value 0.\<close>

definition parse_hex4 :: "string \<Rightarrow> nat" where
  "parse_hex4 s = (if list_all is_hex (take 4 s) then hex_digits_value (take 4 s) else 0)"

definition utf8_bytes :: "nat \<Rightarrow> string" where
  "utf8_bytes codepoint =
     (let byte = (\<lambda>k. 0x80 + codepoint div 64 ^ k mod 64)
      in map char_of
        (if codepoint < 0x80 then [codepoint]
         else if codepoint < 0x800 then [0xC0 + codepoint div 64, byte 0]
         else if codepoint < 0x10000 then [0xE0 + codepoint div 64 ^ 2, byte 1, byte 0]
         else [0xF0 + codepoint div 64 ^ 3, byte 2, byte 1, byte 0]))"

text \<open>The bytes and the length of the sequence \<open>\uXXXX\<close> or \<open>\uXXXX\uXXXX\<close>.\<close>

definition utf16_literal_to_utf8 :: "string \<Rightarrow> (string \<times> nat) option" where
  "utf16_literal_to_utf8 s =
     (let first = parse_hex4 (drop 2 s); second = parse_hex4 (drop 8 s)
      in if length s < 6 \<or> (0xDC00 \<le> first \<and> first \<le> 0xDFFF) then None
         else if 0xD800 \<le> first \<and> first \<le> 0xDBFF
         then if length s < 12 \<or> take 2 (drop 6 s) \<noteq> [CHR 0x5C, CHR ''u''] \<or>
                 second < 0xDC00 \<or> 0xDFFF < second then None
              else Some (utf8_bytes (0x10000 + (first mod 1024 * 1024 + second mod 1024)), 12)
         else Some (utf8_bytes first, 6))"

text \<open>The first pass over a string: its text up to the closing quote, and what follows.\<close>

fun string_end :: "string \<Rightarrow> (string \<times> string) option" where
  "string_end [] = None"
| "string_end (c # cs) =
     (if c = CHR 0x22 then Some ([], cs)
      else if c = CHR 0x5C
      then (case cs of
              [] \<Rightarrow> None
            | d # ds \<Rightarrow> map_option (apfst (\<lambda>t. c # d # t)) (string_end ds))
      else map_option (apfst ((#) c)) (string_end cs))"

text \<open>
  The second pass. After a \<open>\u\<close> that swallowed half of an escape the text may end in a
  backslash; the character after it is then the closing quote.
\<close>

fun decode_string :: "string \<Rightarrow> string option" where
  "decode_string [] = Some []"
| "decode_string (c # cs) =
     (if c \<noteq> CHR 0x5C then map_option ((#) c) (decode_string cs)
      else
        let d = (if cs = [] then CHR 0x22 else hd cs)
        in case unescape d of
             Some e \<Rightarrow> map_option ((#) e) (decode_string (tl cs))
           | None \<Rightarrow>
               if d \<noteq> CHR ''u'' then None
               else case utf16_literal_to_utf8 (c # cs) of
                 None \<Rightarrow> None
               | Some (bytes, sequence_length) \<Rightarrow>
                   map_option ((@) bytes) (decode_string (drop (sequence_length - 1) cs)))"

definition parse_string :: "string \<Rightarrow> (string \<times> string) option" where
  "parse_string s =
     (if take 1 s \<noteq> [CHR 0x22] then None
      else case string_end (tl s) of
        None \<Rightarrow> None
      | Some (body, r) \<Rightarrow> map_option (\<lambda>t. (c_text t, r)) (decode_string body))"

text \<open>
  The recursion of the reader has fuel. Running out of it is a result of its own, \<open>Unfinished\<close>,
  apart from a refusal.
\<close>

datatype 'a reading = Unfinished | Refused | Read 'a

fun read_option :: "'a option \<Rightarrow> 'a reading" where
  "read_option None = Refused"
| "read_option (Some x) = Read x"

fun parse_value :: "nat \<Rightarrow> nat \<Rightarrow> string \<Rightarrow> (cJSON \<times> string) reading"
  and parse_elements :: "nat \<Rightarrow> nat \<Rightarrow> string \<Rightarrow> (cJSON list \<times> string) reading"
  and parse_members :: "nat \<Rightarrow> nat \<Rightarrow> string \<Rightarrow> ((string \<times> cJSON) list \<times> string) reading" where
  "parse_value 0 depth s = Unfinished"
| "parse_value (Suc n) depth s =
     (if take 4 s = ''null'' then Read (CNull, drop 4 s)
      else if take 5 s = ''false'' then Read (CFalse, drop 5 s)
      else if take 4 s = ''true'' then Read (CTrue, drop 4 s)
      else if take 1 s = [CHR 0x22] then map_reading (apfst CString) (read_option (parse_string s))
      else if s \<noteq> [] \<and> (hd s = CHR ''-'' \<or> is_digit (hd s)) then read_option (parse_number s)
      else if take 1 s = ''['' \<or> take 1 s = ''{''
      then
        let r = buffer_skip_whitespace (tl s)
        in if CJSON_NESTING_LIMIT \<le> depth \<or> r = [] then Refused
           else if take 1 s = ''[''
           then if take 1 r = '']'' then Read (CArray [], tl r)
                else map_reading (apfst CArray) (parse_elements n (Suc depth) r)
           else if take 1 r = ''}'' then Read (CObject [], tl r)
                else map_reading (apfst CObject) (parse_members n (Suc depth) r)
      else Refused)"
| "parse_elements 0 depth s = Unfinished"
| "parse_elements (Suc n) depth s =
     (case parse_value n depth (buffer_skip_whitespace s) of
        Unfinished \<Rightarrow> Unfinished
      | Refused \<Rightarrow> Refused
      | Read (v, r) \<Rightarrow>
          let t = buffer_skip_whitespace r
          in if take 1 t = '','' then map_reading (apfst ((#) v)) (parse_elements n depth (tl t))
             else if take 1 t = '']'' then Read ([v], tl t)
             else Refused)"
| "parse_members 0 depth s = Unfinished"
| "parse_members (Suc n) depth s =
     (if s = [] then Refused
      else case parse_string (buffer_skip_whitespace s) of
        None \<Rightarrow> Refused
      | Some (k, r) \<Rightarrow>
          let q = buffer_skip_whitespace r
          in if take 1 q \<noteq> '':'' then Refused
             else case parse_value n depth (buffer_skip_whitespace (tl q)) of
               Unfinished \<Rightarrow> Unfinished
             | Refused \<Rightarrow> Refused
             | Read (v, r') \<Rightarrow>
                 let t = buffer_skip_whitespace r'
                 in if take 1 t = '','' then map_reading (apfst ((#) (k, v))) (parse_members n depth (tl t))
                    else if take 1 t = ''}'' then Read ([(k, v)], tl t)
                    else Refused)"

declare parse_value.simps [simp del] parse_elements.simps [simp del] parse_members.simps [simp del]

fun read_value :: "('a \<times> 'b) reading \<Rightarrow> 'a option" where
  "read_value (Read (v, r)) = Some v"
| "read_value _ = None"

definition cJSON_ParseWithLength :: "string \<Rightarrow> cJSON option" where
  "cJSON_ParseWithLength text =
     (if text = [] then None
      else read_value (parse_value (2 * length text + 1) 0 (buffer_skip_whitespace (skip_utf8_bom text))))"

lemma map_reading_eq_Read [simp]: "map_reading f x = Read y \<longleftrightarrow> (\<exists>z. x = Read z \<and> y = f z)"
  by (cases x) auto

lemma map_reading_finished [simp]: "map_reading f x = Unfinished \<longleftrightarrow> x = Unfinished"
  by (cases x) auto

lemma read_option_eq_Read [simp]: "read_option x = Read y \<longleftrightarrow> x = Some y"
  by (cases x) auto

lemma read_option_finished [simp]: "read_option x \<noteq> Unfinished"
  by (cases x) auto

section \<open>Every reader consumes its input\<close>

lemma skip_ws_length: "length (buffer_skip_whitespace s) \<le> length s"
  by (cases s) (auto simp: buffer_skip_whitespace_def Let_def le_SucI [OF length_dropWhile_le])

lemma skip_ws_nonempty [simp]: "buffer_skip_whitespace s = [] \<longleftrightarrow> s = []"
  by (cases s) (auto simp: buffer_skip_whitespace_def Let_def)

lemma scan_sign_length: "scan_sign s = (neg, r) \<Longrightarrow> length r \<le> length s"
  by (auto simp: scan_sign_def split: if_splits)

lemma scan_exponent_length: "scan_exponent m s = (e, r) \<Longrightarrow> length r \<le> length s"
proof -
  assume a: "scan_exponent m s = (e, r)"
  obtain neg t where t: "scan_sign (tl s) = (neg, t)" by (cases "scan_sign (tl s)") blast
  have "length (dropWhile is_digit t) \<le> length s"
    using length_dropWhile_le [of is_digit t] scan_sign_length [OF t] by simp
  with a show ?thesis by (auto simp: scan_exponent_def Let_def t split: if_splits)
qed

lemma dropWhile_shorter: "takeWhile P s \<noteq> [] \<Longrightarrow> length (dropWhile P s) < length s"
  by (cases s) (auto simp: less_Suc_eq_le length_dropWhile_le split: if_splits)

lemma scan_fraction_length: "scan_fraction digit s = Some (ds, k, r) \<Longrightarrow> length r < length s"
proof -
  assume a: "scan_fraction digit s = Some (ds, k, r)"
  let ?r = "dropWhile digit s"
  have r: "r = (if take 1 ?r = ''.'' then dropWhile digit (tl ?r) else ?r)"
    and some: "takeWhile digit s \<noteq> [] \<or> take 1 ?r = ''.''"
    using a by (auto simp: scan_fraction_def Let_def split: if_splits)
  have "length ?r \<le> length s" by (rule length_dropWhile_le)
  show ?thesis
  proof (cases "take 1 ?r = ''.''")
    case True
    then have "length (tl ?r) < length ?r" by (cases ?r) auto
    then show ?thesis using r True length_dropWhile_le [of digit "tl ?r"] \<open>length ?r \<le> length s\<close> by simp
  next
    case False
    then show ?thesis using r some dropWhile_shorter [of digit s] by simp
  qed
qed

lemma starts_with_length: "starts_with w s \<Longrightarrow> length w \<le> length s"
  by (auto simp: starts_with_def dest!: arg_cong [where f = length])

lemma nan_rest_length: "length (nan_rest r) \<le> length r"
proof -
  have "length (tl (dropWhile P (tl r))) \<le> length r" for P :: "char \<Rightarrow> bool"
    using length_dropWhile_le [of P "tl r"] by simp
  then show ?thesis unfolding nan_rest_def Let_def by (split if_split) blast
qed

lemma scan_real_length: "scan_real s = Some (neg, v, r) \<Longrightarrow> length r < length s"
proof -
  assume a: "scan_real s = Some (neg, v, r)"
  obtain t where t: "scan_sign (dropWhile is_space s) = (neg, t)"
    using a by (auto simp: scan_real_def split: prod.splits)
  have ts: "length t \<le> length s"
    using scan_sign_length [OF t] length_dropWhile_le [of is_space s] by linarith
  have dec: "length r' < length u" if "scan_decimal u = Some (v', r')" for u v' r'
    using that by (auto simp: scan_decimal_def split: option.splits prod.splits
        dest!: scan_fraction_length scan_exponent_length)
  have hex: "length r' < length u" if "scan_hexadecimal u = Some (v', r')" for u v' r'
    using that by (auto simp: scan_hexadecimal_def split: option.splits prod.splits
        dest!: scan_fraction_length scan_exponent_length)
  have "length r < length t"
    using a nan_rest_length [of "drop 3 t"]
    by (auto simp: scan_real_def t split: if_splits dest!: starts_with_length dec hex)
  with ts show ?thesis by simp
qed

lemma parse_number_length: "parse_number s = Some (v, r) \<Longrightarrow> length r < length s"
proof -
  assume "parse_number s = Some (v, r)"
  then obtain u where u: "r = u @ dropWhile number_char s" "length u < length (takeWhile number_char s)"
    by (auto simp: parse_number_def strtod_def split: option.splits prod.splits dest!: scan_real_length)
  have "length (takeWhile number_char s @ dropWhile number_char s) = length s" by (simp only: takeWhile_dropWhile_id)
  with u show ?thesis by (simp only: length_append)
qed

lemma string_end_length: "string_end s = Some (body, r) \<Longrightarrow> length r < length s"
  by (induction s arbitrary: body rule: string_end.induct)
     (fastforce split: if_splits list.splits simp: apfst_def map_prod_def)+

lemma parse_string_length: "parse_string s = Some (t, r) \<Longrightarrow> length r < length s"
  using string_end_length [of "tl s"]
  by (cases s) (fastforce simp: parse_string_def split: if_splits option.splits)+

lemma parse_length_aux:
  "(\<forall>d s v r. parse_value n d s = Read (v, r) \<longrightarrow> length r < length s) \<and>
   (\<forall>d s vs r. parse_elements n d s = Read (vs, r) \<longrightarrow> length r < length s) \<and>
   (\<forall>d s ms r. parse_members n d s = Read (ms, r) \<longrightarrow> length r < length s)"
proof (induction n)
  case 0
  show ?case by (simp add: parse_value.simps parse_elements.simps parse_members.simps)
next
  case (Suc n)
  note V = Suc.IH [THEN conjunct1, rule_format]
    and E = Suc.IH [THEN conjunct2, THEN conjunct1, rule_format]
    and M = Suc.IH [THEN conjunct2, THEN conjunct2, rule_format]
  have tl: "length (tl (buffer_skip_whitespace s)) < length s" if "s \<noteq> []" for s
    using skip_ws_length [of s] that by (cases "buffer_skip_whitespace s") auto
  have tl0: "length (tl (buffer_skip_whitespace s)) \<le> length s" for s
    using skip_ws_length [of s] by simp
  show ?case
  proof (intro conjI allI impI)
    fix d s v r assume a: "parse_value (Suc n) d s = Read (v, r)"
    let ?r = "buffer_skip_whitespace (tl s)"
    show "length r < length s"
    proof (cases "s = []")
      case True
      with a show ?thesis by (simp add: parse_value.simps)
    next
      case False
      have ws: "length ?r < length s" using skip_ws_length [of "tl s"] False by (cases s) auto
      have r: "length (tl ?r) < length s" using ws by simp
      have e: "length q < length s" if "parse_elements n (Suc d) ?r = Read (vs, q)" for vs q
        using E [OF that] ws by linarith
      have m: "length q < length s" if "parse_members n (Suc d) ?r = Read (ms, q)" for ms q
        using M [OF that] ws by linarith
      from a False r show ?thesis
        by (auto simp: parse_value.simps Let_def split: if_splits dest: e m parse_string_length parse_number_length)
    qed
  next
    fix d s vs r assume a: "parse_elements (Suc n) d s = Read (vs, r)"
    then obtain v q where v: "parse_value n d (buffer_skip_whitespace s) = Read (v, q)"
      by (auto simp: parse_elements.simps split: option.splits reading.splits)
    let ?t = "buffer_skip_whitespace q"
    have q: "length q < length s" using V [OF v] skip_ws_length [of s] by linarith
    have "length r \<le> length (tl ?t)"
      using a E [of d "tl ?t"] by (fastforce simp: parse_elements.simps v Let_def split: if_splits)
    with tl0 [of q] q show "length r < length s" by linarith
  next
    fix d s ms r assume a: "parse_members (Suc n) d s = Read (ms, r)"
    then obtain k q where k: "parse_string (buffer_skip_whitespace s) = Some (k, q)"
      by (auto simp: parse_members.simps split: option.splits reading.splits if_splits)
    let ?q = "buffer_skip_whitespace q"
    from a obtain v u where v: "parse_value n d (buffer_skip_whitespace (tl ?q)) = Read (v, u)"
      by (auto simp: parse_members.simps k Let_def split: option.splits reading.splits if_splits)
    let ?t = "buffer_skip_whitespace u"
    have "length q < length s" using parse_string_length [OF k] skip_ws_length [of s] by linarith
    moreover have "length u < length (tl ?q)" using V [OF v] skip_ws_length [of "tl ?q"] by linarith
    moreover have "length r \<le> length (tl ?t)"
      using a M [of d "tl ?t"] by (fastforce simp: parse_members.simps k v Let_def split: if_splits)
    ultimately show "length r < length s" using tl0 [of u] tl0 [of q] by linarith
  qed
qed

section \<open>No fuel is missing\<close>

lemma parse_fuel_aux:
  "(\<forall>d s. 2 * length s + 1 \<le> n \<longrightarrow> parse_value (Suc n) d s = parse_value n d s) \<and>
   (\<forall>d s. 2 * length s + 2 \<le> n \<longrightarrow> parse_elements (Suc n) d s = parse_elements n d s) \<and>
   (\<forall>d s. 2 * length s + 2 \<le> n \<longrightarrow> parse_members (Suc n) d s = parse_members n d s)"
proof (induction n)
  case (Suc n)
  note V = Suc.IH [THEN conjunct1, rule_format]
    and E = Suc.IH [THEN conjunct2, THEN conjunct1, rule_format]
    and M = Suc.IH [THEN conjunct2, THEN conjunct2, rule_format]
  note consumed = parse_length_aux [THEN conjunct1, rule_format]
  have tl: "length (tl (buffer_skip_whitespace s)) \<le> length s" for s
    using skip_ws_length [of s] by simp
  show ?case
  proof (intro conjI allI impI)
    fix d and s :: string assume b: "2 * length s + 1 \<le> Suc n"
    let ?r = "buffer_skip_whitespace (tl s)"
    show "parse_value (Suc (Suc n)) d s = parse_value (Suc n) d s"
    proof (cases "s = []")
      case False
      then have "2 * length ?r + 2 \<le> n" using b skip_ws_length [of "tl s"] by (cases s) auto
      then have "parse_elements (Suc n) (Suc d) ?r = parse_elements n (Suc d) ?r"
        "parse_members (Suc n) (Suc d) ?r = parse_members n (Suc d) ?r" by (blast intro: E M)+
      then show ?thesis unfolding parse_value.simps Let_def by simp
    qed (simp add: parse_value.simps)
  next
    fix d and s :: string assume b: "2 * length s + 2 \<le> Suc n"
    have v: "parse_value (Suc n) d (buffer_skip_whitespace s) = parse_value n d (buffer_skip_whitespace s)"
      using b skip_ws_length [of s] by (intro V) linarith
    have "parse_elements (Suc n) d (tl (buffer_skip_whitespace q)) = parse_elements n d (tl (buffer_skip_whitespace q))"
      if "parse_value n d (buffer_skip_whitespace s) = Read (v, q)" for v q
      using consumed [OF that] skip_ws_length [of s] tl [of q] b by (intro E) linarith
    then show "parse_elements (Suc (Suc n)) d s = parse_elements (Suc n) d s"
      unfolding parse_elements.simps v by (auto simp: Let_def split: option.splits reading.splits)
  next
    fix d and s :: string assume b: "2 * length s + 2 \<le> Suc n"
    have "parse_value (Suc n) d (buffer_skip_whitespace (tl (buffer_skip_whitespace q))) =
        parse_value n d (buffer_skip_whitespace (tl (buffer_skip_whitespace q))) \<and>
      (\<forall>v u. parse_value n d (buffer_skip_whitespace (tl (buffer_skip_whitespace q))) = Read (v, u) \<longrightarrow>
        parse_members (Suc n) d (tl (buffer_skip_whitespace u)) = parse_members n d (tl (buffer_skip_whitespace u)))"
      if k: "parse_string (buffer_skip_whitespace s) = Some (k, q)" for k q
    proof -
      let ?p = "buffer_skip_whitespace (tl (buffer_skip_whitespace q))"
      have p: "length ?p < length s"
        using parse_string_length [OF k] skip_ws_length [of s] tl [of q]
          skip_ws_length [of "tl (buffer_skip_whitespace q)"] by linarith
      have "parse_members (Suc n) d (tl (buffer_skip_whitespace u)) = parse_members n d (tl (buffer_skip_whitespace u))"
        if "parse_value n d ?p = Read (v, u)" for v u
        using consumed [OF that] tl [of u] p b by (intro M) linarith
      moreover have "parse_value (Suc n) d ?p = parse_value n d ?p"
        using p b by (intro V) linarith
      ultimately show ?thesis by blast
    qed
    then show "parse_members (Suc (Suc n)) d s = parse_members (Suc n) d s"
      unfolding parse_members.simps by (auto simp: Let_def split: option.splits reading.splits)
  qed
qed simp

lemma parse_value_fuel: "2 * length s + 1 \<le> n \<Longrightarrow> parse_value n d s = parse_value (2 * length s + 1) d s"
proof (induction n rule: dec_induct)
  case (step n)
  then show ?case using parse_fuel_aux [THEN conjunct1, rule_format, of s n d] by simp
qed simp

lemma parse_finishes_aux:
  "(\<forall>d s. 2 * length s + 1 \<le> n \<longrightarrow> parse_value n d s \<noteq> Unfinished) \<and>
   (\<forall>d s. 2 * length s + 2 \<le> n \<longrightarrow> parse_elements n d s \<noteq> Unfinished) \<and>
   (\<forall>d s. 2 * length s + 2 \<le> n \<longrightarrow> parse_members n d s \<noteq> Unfinished)"
proof (induction n)
  case (Suc n)
  note V = Suc.IH [THEN conjunct1, rule_format]
    and E = Suc.IH [THEN conjunct2, THEN conjunct1, rule_format]
    and M = Suc.IH [THEN conjunct2, THEN conjunct2, rule_format]
  note consumed = parse_length_aux [THEN conjunct1, rule_format]
  have tl: "length (tl (buffer_skip_whitespace s)) \<le> length s" for s
    using skip_ws_length [of s] by simp
  show ?case
  proof (intro conjI allI impI)
    fix d and s :: string assume b: "2 * length s + 1 \<le> Suc n"
    let ?r = "buffer_skip_whitespace (tl s)"
    show "parse_value (Suc n) d s \<noteq> Unfinished"
    proof (cases "s = []")
      case False
      then have "2 * length ?r + 2 \<le> n" using b skip_ws_length [of "tl s"] by (cases s) auto
      then have "parse_elements n (Suc d) ?r \<noteq> Unfinished" "parse_members n (Suc d) ?r \<noteq> Unfinished"
        using E M by blast+
      then show ?thesis unfolding parse_value.simps Let_def by simp
    qed (simp add: parse_value.simps)
  next
    fix d and s :: string assume b: "2 * length s + 2 \<le> Suc n"
    have v: "parse_value n d (buffer_skip_whitespace s) \<noteq> Unfinished"
      using b skip_ws_length [of s] by (intro V) linarith
    have "parse_elements n d (tl (buffer_skip_whitespace q)) \<noteq> Unfinished"
      if "parse_value n d (buffer_skip_whitespace s) = Read (v, q)" for v q
      using consumed [OF that] skip_ws_length [of s] tl [of q] b by (intro E) linarith
    then show "parse_elements (Suc n) d s \<noteq> Unfinished"
      unfolding parse_elements.simps using v by (auto simp: Let_def split: reading.splits)
  next
    fix d and s :: string assume b: "2 * length s + 2 \<le> Suc n"
    have "parse_value n d (buffer_skip_whitespace (tl (buffer_skip_whitespace q))) \<noteq> Unfinished \<and>
      (\<forall>v u. parse_value n d (buffer_skip_whitespace (tl (buffer_skip_whitespace q))) = Read (v, u) \<longrightarrow>
        parse_members n d (tl (buffer_skip_whitespace u)) \<noteq> Unfinished)"
      if k: "parse_string (buffer_skip_whitespace s) = Some (k, q)" for k q
    proof -
      let ?p = "buffer_skip_whitespace (tl (buffer_skip_whitespace q))"
      have p: "length ?p < length s"
        using parse_string_length [OF k] skip_ws_length [of s] tl [of q]
          skip_ws_length [of "tl (buffer_skip_whitespace q)"] by linarith
      have "parse_members n d (tl (buffer_skip_whitespace u)) \<noteq> Unfinished"
        if "parse_value n d ?p = Read (v, u)" for v u
        using consumed [OF that] tl [of u] p b by (intro M) linarith
      moreover have "parse_value n d ?p \<noteq> Unfinished" using p b by (intro V) linarith
      ultimately show ?thesis by blast
    qed
    then show "parse_members (Suc n) d s \<noteq> Unfinished"
      unfolding parse_members.simps by (auto simp: Let_def split: option.splits reading.splits)
  qed
qed simp

lemmas parse_value_finishes = parse_finishes_aux [THEN conjunct1, rule_format]

section \<open>What the firmware writes is read\<close>

definition no_nul :: "string \<Rightarrow> bool" where
  "no_nul s \<longleftrightarrow> CHR 0x00 \<notin> set s"

fun cjson_of :: "json \<Rightarrow> cJSON" where
  "cjson_of JNull = CNull"
| "cjson_of (JBool b) = (if b then CTrue else CFalse)"
| "cjson_of (JNumber t) = CNumber (fst (the (strtod t)))"
| "cjson_of (JString s) = CString s"
| "cjson_of (JArray vs) = CArray (map cjson_of vs)"
| "cjson_of (JObject ms) = CObject (map (\<lambda>(k, v). (k, cjson_of v)) ms)"

fun storable :: "nat \<Rightarrow> json \<Rightarrow> bool" where
  "storable depth (JNumber t) \<longleftrightarrow> is_number t"
| "storable depth (JString s) \<longleftrightarrow> no_nul s"
| "storable depth (JArray vs) \<longleftrightarrow> depth < CJSON_NESTING_LIMIT \<and> (\<forall>v \<in> set vs. storable (Suc depth) v)"
| "storable depth (JObject ms) \<longleftrightarrow>
     depth < CJSON_NESTING_LIMIT \<and> (\<forall>(k, v) \<in> set ms. no_nul k \<and> storable (Suc depth) v)"
| "storable depth v \<longleftrightarrow> True"

lemma skip_ws_stays [simp]: "32 < (of_char c :: nat) \<Longrightarrow> buffer_skip_whitespace (c # cs) = c # cs"
  by (simp add: buffer_skip_whitespace_def)

lemma string_end_escaped: "string_end (concat (map escape_char s) @ CHR 0x22 # r) = Some (concat (map escape_char s), r)"
  by (induction s) (simp_all add: escape_char_def)

lemma decode_escaped: "decode_string (concat (map escape_char s)) = Some s"
  by (induction s) (simp_all add: escape_char_def unescape_def Let_def)

lemma c_text_of_no_nul: "no_nul s \<Longrightarrow> c_text s = s"
  by (simp add: no_nul_def c_text_def takeWhile_eq_all_conv) metis

lemma parse_string_quoted: "no_nul s \<Longrightarrow> parse_string (quoted s @ r) = Some (s, r)"
  by (simp add: parse_string_def quoted_def string_end_escaped decode_escaped c_text_of_no_nul)

lemma digit_number_start: "is_digit c \<Longrightarrow> lower c = c \<and> c \<noteq> CHR ''i'' \<and> c \<noteq> CHR ''n'' \<and> c \<noteq> CHR ''x''"
  by (auto simp: lower_def is_digit_def)

lemma number_char_lower: "number_char c \<Longrightarrow> lower c \<noteq> CHR ''x''"
proof -
  have "list_all (\<lambda>c. lower c \<noteq> CHR ''x'') ''+-.eE''" by code_simp
  then show "number_char c \<Longrightarrow> lower c \<noteq> CHR ''x''"
    using digit_number_start [of c] by (auto simp: number_char_def list_all_iff)
qed

lemma scan_real_number:
  assumes "is_number t" shows "\<exists>negative v. scan_real t = Some (negative, v, [])"
proof -
  obtain negative u where t: "t = (if negative then CHR ''-'' # u else u)" and u: "unsigned_number u"
  proof (cases "take 1 t = ''-''")
    case True
    then show ?thesis using that [of True "tl t"] assms by (cases t) (auto simp: is_number_def)
  next
    case False
    then show ?thesis using that [of False t] assms by (simp add: is_number_def)
  qed
  let ?i = "takeWhile is_digit u" and ?f = "dropWhile is_digit u"
  have i: "?i \<noteq> []" and f: "fraction ?f" using u by (simp_all add: unsigned_number_def Let_def)
  then obtain c cs where c: "u = c # cs" "is_digit c" by (cases u) (auto split: if_splits)
  have sign: "scan_sign (dropWhile is_space t) = (negative, u)"
  proof -
    have "\<not> is_space (CHR ''-'')" by (simp add: is_space_def)
    then show ?thesis using digit_no_space [OF c(2)] by (simp add: t c scan_sign_def)
  qed
  have "list_all number_char u" using unsigned_number_chars [OF u] by simp
  then have "\<not> starts_with ''0x'' u"
    by (cases cs) (auto simp: c starts_with_def dest: number_char_lower)
  moreover have "\<not> starts_with ''infinity'' u" "\<not> starts_with ''inf'' u" "\<not> starts_with ''nan'' u"
    using digit_number_start [OF c(2)] by (simp_all add: c starts_with_def)
  moreover have "\<exists>v. scan_decimal u = Some (v, [])"
  proof (cases ?f)
    case Nil
    show ?thesis unfolding scan_decimal_def scan_fraction_def Let_def Nil using i by (simp add: scan_exponent_def)
  next
    case (Cons p ps)
    then have "p = CHR ''.''" "list_all is_digit ps" using f by (simp_all add: fraction_def)
    then have d: "takeWhile is_digit ps = ps" "dropWhile is_digit ps = []"
      using takeWhile_digits [of ps "[]"] by simp_all
    show ?thesis unfolding scan_decimal_def scan_fraction_def Let_def Cons using i \<open>p = _\<close>
      by (simp add: scan_exponent_def d)
  qed
  ultimately show ?thesis by (auto simp: scan_real_def sign)
qed

lemma parse_number_text:
  assumes "is_number t" and "stops r"
  shows "parse_number (t @ r) = Some (CNumber (fst (the (strtod t))), r)"
proof -
  have "list_all number_char t" by (rule number_chars [OF assms(1)])
  then have "takeWhile number_char (t @ r) = t \<and> dropWhile number_char (t @ r) = r"
    by (rule takeWhile_stops) (use assms(2) in \<open>simp add: stops_def\<close>)
  then show ?thesis using scan_real_number [OF assms(1)] by (auto simp: parse_number_def strtod_def)
qed


lemma render_head:
  assumes "storable d v"
  obtains c cs where "render v = c # cs" "32 < (of_char c :: nat)" "(of_char c :: nat) < 128" "c \<noteq> CHR '']''"
proof (cases v)
  case (JNumber t)
  then obtain c cs where t: "t = c # cs" "number_char c" using assms by (auto elim: number_chars)
  then have "32 < (of_char c :: nat)" "(of_char c :: nat) < 128" "c \<noteq> CHR '']''"
    by (auto simp: number_char_def is_digit_def)
  with t that show ?thesis by (simp add: JNumber)
next
  case (JBool b)
  then show ?thesis using that by (cases b) (auto simp: bool_text_def)
qed (use that in \<open>auto simp: quoted_def\<close>)

lemma number_stops: "c \<in> {CHR '']'', CHR ''}'', CHR '',''} \<Longrightarrow> stops (c # x) \<and> 32 < (of_char c :: nat)"
  by (auto simp: stops_def number_char_def is_digit_def)

lemma parse_number_value:
  assumes "is_number t" "stops r"
  shows "parse_value (Suc n) d (t @ r) = Read (CNumber (fst (the (strtod t))), r)"
proof -
  obtain c cs where t: "t = c # cs" by (rule number_chars [OF assms(1)])
  have c: "c = CHR ''-'' \<or> is_digit c"
    using assms(1) unfolding t is_number_def unsigned_number_def Let_def by (auto split: if_splits)
  then have "c \<notin> {CHR 0x22, CHR ''n'', CHR ''t'', CHR ''f''}" by (auto simp: is_digit_def)
  then show ?thesis using parse_number_text [OF assms] c by (auto simp: t parse_value.simps)
qed

lemma parse_render_aux:
  "(\<forall>d v r. length (render v) \<le> n \<and> storable d v \<and> stops r \<longrightarrow>
      parse_value n d (render v @ r) = Read (cjson_of v, r)) \<and>
   (\<forall>d vs r. vs \<noteq> [] \<and> length (render_items vs) < n \<and> (\<forall>v \<in> set vs. storable d v) \<longrightarrow>
      parse_elements n d (render_items vs @ CHR '']'' # r) = Read (map cjson_of vs, r)) \<and>
   (\<forall>d ms r. ms \<noteq> [] \<and> length (render_members ms) < n \<and> (\<forall>(k, v) \<in> set ms. no_nul k \<and> storable d v) \<longrightarrow>
      parse_members n d (render_members ms @ CHR ''}'' # r) = Read (map (\<lambda>(k, v). (k, cjson_of v)) ms, r))"
proof (induction n)
  case 0
  show ?case by (auto elim: render_head)
next
  case (Suc n)
  note V = Suc.IH [THEN conjunct1, rule_format]
    and E = Suc.IH [THEN conjunct2, THEN conjunct1, rule_format]
    and M = Suc.IH [THEN conjunct2, THEN conjunct2, rule_format]
  have v: "parse_value n d (buffer_skip_whitespace (render v @ c # x)) = Read (cjson_of v, c # x)"
    if l: "length (render v) \<le> n" and st: "storable d v" and c: "c \<in> {CHR '']'', CHR ''}'', CHR '',''}" for d v c x
  proof -
    obtain h hs where h: "render v = h # hs" "32 < (of_char h :: nat)" by (rule render_head [OF st])
    with V [of v d "c # x"] l st number_stops [OF c] show ?thesis by simp
  qed
  show ?case
  proof (intro conjI allI impI)
    fix d v r assume a: "length (render v) \<le> Suc n \<and> storable d v \<and> stops r"
    show "parse_value (Suc n) d (render v @ r) = Read (cjson_of v, r)"
    proof (cases v)
      case (JArray vs)
      show ?thesis
      proof (cases vs)
        case (Cons w ws)
        have "storable (Suc d) w" using a by (simp add: JArray Cons)
        then obtain h hs where h: "render w = h # hs" "32 < (of_char h :: nat)" "h \<noteq> CHR '']''" by (rule render_head)
        then obtain hs' where hs: "render_items vs @ CHR '']'' # r = h # hs'" by (cases ws) (auto simp: Cons)
        have "parse_elements n (Suc d) (render_items vs @ CHR '']'' # r) = Read (map cjson_of vs, r)"
          by (rule E) (use a in \<open>auto simp: JArray Cons\<close>)
        then show ?thesis using a h hs by (simp add: JArray parse_value.simps is_digit_def)
      qed (use a in \<open>simp add: JArray parse_value.simps is_digit_def\<close>)
    next
      case (JObject ms)
      show ?thesis
      proof (cases ms)
        case (Cons m ws)
        obtain k w where m: "m = (k, w)" by (cases m)
        have hs: "\<exists>hs. render_members ms @ CHR ''}'' # r = CHR 0x22 # hs" by (cases ws) (auto simp: Cons m quoted_def)
        have "parse_members n (Suc d) (render_members ms @ CHR ''}'' # r) = Read (map (\<lambda>(k, v). (k, cjson_of v)) ms, r)"
          by (rule M) (use a in \<open>auto simp: JObject Cons\<close>)
        then show ?thesis using a hs by (auto simp: JObject parse_value.simps is_digit_def)
      qed (use a in \<open>simp add: JObject parse_value.simps is_digit_def\<close>)
    next
      case (JNumber t)
      with a show ?thesis by (simp add: parse_number_value)
    next
      case (JString s)
      then have "take 1 (quoted s @ r) = [CHR 0x22]" by (simp add: quoted_def)
      then show ?thesis using a parse_string_quoted [of s r] by (simp add: JString parse_value.simps quoted_def)
    qed (simp_all add: parse_value.simps bool_text_def)
  next
    fix d vs r assume a: "vs \<noteq> [] \<and> length (render_items vs) < Suc n \<and> (\<forall>v \<in> set vs. storable d v)"
    then obtain w ws where vs: "vs = w # ws" by (cases vs) auto
    show "parse_elements (Suc n) d (render_items vs @ CHR '']'' # r) = Read (map cjson_of vs, r)"
    proof (cases ws)
      case Nil
      then show ?thesis using a v [of w d "CHR '']''" r] by (simp add: vs parse_elements.simps)
    next
      case (Cons u us)
      have "parse_elements n d (render_items ws @ CHR '']'' # r) = Read (map cjson_of ws, r)"
        by (rule E) (use a in \<open>auto simp: vs Cons\<close>)
      then show ?thesis using a v [of w d "CHR '',''" "render_items ws @ CHR '']'' # r"]
        by (simp add: vs Cons parse_elements.simps)
    qed
  next
    fix d ms r assume a: "ms \<noteq> [] \<and> length (render_members ms) < Suc n \<and> (\<forall>(k, v) \<in> set ms. no_nul k \<and> storable d v)"
    then obtain k w ws where ms: "ms = (k, w) # ws" by (cases ms) auto
    have k: "parse_string (buffer_skip_whitespace (quoted k @ x)) = Some (k, x)" for x
    proof -
      have "buffer_skip_whitespace (quoted k @ x) = quoted k @ x" by (simp add: quoted_def)
      then show ?thesis using a by (simp add: ms parse_string_quoted)
    qed
    have q: "quoted k @ x \<noteq> []" for x by (simp add: quoted_def)
    show "parse_members (Suc n) d (render_members ms @ CHR ''}'' # r) = Read (map (\<lambda>(k, v). (k, cjson_of v)) ms, r)"
    proof (cases ws)
      case Nil
      then show ?thesis using a v [of w d "CHR ''}''" r] k q by (simp add: ms parse_members.simps)
    next
      case (Cons u us)
      have "parse_members n d (render_members ws @ CHR ''}'' # r) = Read (map (\<lambda>(k, v). (k, cjson_of v)) ws, r)"
        by (rule M) (use a in \<open>auto simp: ms Cons\<close>)
      then show ?thesis using a v [of w d "CHR '',''" "render_members ws @ CHR ''}'' # r"] k q
        by (cases u) (simp add: ms Cons parse_members.simps)
    qed
  qed
qed

lemma cJSON_reads_render:
  assumes "storable 0 v"
  shows "cJSON_ParseWithLength (render v) = Some (cjson_of v)"
proof -
  obtain c cs where c: "render v = c # cs" "32 < (of_char c :: nat)" "(of_char c :: nat) < 128"
    by (rule render_head [OF assms])
  have "c \<noteq> CHR 0xEF" using c(3) by auto
  then have bom: "skip_utf8_bom (render v) = render v" by (simp add: skip_utf8_bom_def c(1))
  have "parse_value (2 * length (render v) + 1) 0 (render v @ []) = Read (cjson_of v, [])"
    by (rule parse_render_aux [THEN conjunct1, rule_format]) (use assms in \<open>simp add: stops_def\<close>)
  then show ?thesis using c bom by (simp add: cJSON_ParseWithLength_def)
qed

text \<open>
  C31: The reader always ends, and within a known number of steps. Given twice the length of the
  text and one more, its recursion never runs out of steps, whatever the bytes of the text are: it
  gives a value, with less of the text left than there was, or a refusal, and any larger number of
  steps gives the same.
\<close>

theorem cJSON_reader_ends:
  assumes "2 * length text + 1 \<le> n"
  shows "\<exists>result. parse_value n 0 (buffer_skip_whitespace (skip_utf8_bom text)) = result \<and>
    (result = Refused \<or> (\<exists>v r. result = Read (v, r) \<and> length r < length text)) \<and>
    cJSON_ParseWithLength text = read_value result"
proof -
  let ?s = "buffer_skip_whitespace (skip_utf8_bom text)"
  have "length (skip_utf8_bom text) \<le> length text" by (simp add: skip_utf8_bom_def)
  then have s: "length ?s \<le> length text" using skip_ws_length [of "skip_utf8_bom text"] by linarith
  then have "parse_value n 0 ?s = parse_value (2 * length text + 1) 0 ?s"
    using parse_value_fuel [of ?s n 0] parse_value_fuel [of ?s "2 * length text + 1" 0] assms by simp
  moreover have "parse_value 1 0 [] = Refused" by (simp add: parse_value.simps)
  ultimately have same: "cJSON_ParseWithLength text = read_value (parse_value n 0 ?s)"
    by (cases "text = []") (simp_all add: cJSON_ParseWithLength_def skip_utf8_bom_def buffer_skip_whitespace_def)
  have "parse_value n 0 ?s \<noteq> Unfinished" using s assms by (intro parse_value_finishes) linarith
  moreover have "length r < length text" if "parse_value n 0 ?s = Read (v, r)" for v r
    using parse_length_aux [THEN conjunct1, rule_format, OF that] s by linarith
  ultimately show ?thesis using same by (cases "parse_value n 0 ?s") auto
qed

theorem cJSON_reader_ends_witness:
  "\<exists>result. parse_value 9 0 (buffer_skip_whitespace (skip_utf8_bom ''[[[7'')) = result \<and>
    (result = Refused \<or> (\<exists>v r. result = Read (v, r) \<and> length r < 4)) \<and>
    cJSON_ParseWithLength ''[[[7'' = read_value result"
  using cJSON_reader_ends [of "''[[[7''" 9] by (simp add: eval_nat_numeral)

text \<open>
  C30: cJSON reads back every JSON text the firmware's own writers can produce, up to 1000 levels
  deep: the values come back in their order, strings character by character, numbers as the
  nearest double of their text. Control characters are no obstacle for this reader.
\<close>

theorem cJSON_reads_written:
  assumes "storable 0 v"
  shows "cJSON_ParseWithLength (render v) = Some (cjson_of v)"
  by (rule cJSON_reads_render [OF assms])

theorem cJSON_reads_written_witness:
  "cJSON_ParseWithLength (render (JObject [(''name'', JString [CHR ''a'', CHR 0x22, CHR 0x0A]), (''on'', JBool True)])) =
   Some (CObject [(''name'', CString [CHR ''a'', CHR 0x22, CHR 0x0A]), (''on'', CTrue)])"
  using cJSON_reads_written [of "JObject [(''name'', JString [CHR ''a'', CHR 0x22, CHR 0x0A]), (''on'', JBool True)]"]
  by (simp add: no_nul_def CJSON_NESTING_LIMIT_def)

end
