(* ===== verification/Mqtt_Commands.thy ===== *)
theory Mqtt_Commands
  imports Publishing Central_Invariant CJson
begin

text \<open>
  The commands that arrive over MQTT (\<open>lib/MqttManager/MqttManager.cpp\<close>): how a JSON text
  becomes a request, the five handlers, the events of the broker client, and the handlers Central
  registers (\<open>src/central/CentralApplication.cpp\<close>). A refusal is the left side of a sum. What a
  handler does to the state of its owner is a parameter, so the manager is stated over the
  interface \<open>mqtt_handlers\<close>, which Central's handlers implement. The subscription is a call
  into the broker client and is left out.
\<close>

section \<open>Reading values\<close>

definition mac_of_fields :: "u32 list \<Rightarrow> MacAddress option" where
  "mac_of_fields bs =
     (if length bs = 6 \<and> list_all (\<lambda>b. b \<le> 255) bs
      then Some (ucast (bs ! 0), ucast (bs ! 1), ucast (bs ! 2), ucast (bs ! 3), ucast (bs ! 4), ucast (bs ! 5))
      else None)"

text \<open>The text after the sixth byte is not looked at.\<close>

definition mqtt_parseMac :: "c_str \<Rightarrow> MacAddress option" where
  "mqtt_parseMac text = Option.bind (Option.bind text (scan_hex_fields 6)) (\<lambda>(bytes, rest). mac_of_fields bytes)"

definition readU8 :: "cJSON option \<Rightarrow> u8 option" where
  "readU8 item =
     (if \<not> cJSON_IsNumber item \<or> \<not> disfinite (valuedouble item) \<or> negative_double (valuedouble item) \<or>
         exceeds (valuedouble item) 255 \<or> \<not> whole (valuedouble item)
      then None else Some (of_nat (double_nat (valuedouble item))))"

definition readU16 :: "cJSON option \<Rightarrow> u16 option" where
  "readU16 item =
     (if \<not> cJSON_IsNumber item \<or> \<not> disfinite (valuedouble item) \<or> negative_double (valuedouble item) \<or>
         exceeds (valuedouble item) 65535 \<or> \<not> whole (valuedouble item)
      then None else Some (of_nat (double_nat (valuedouble item))))"

definition readU32 :: "cJSON option \<Rightarrow> u32 option" where
  "readU32 item =
     (if \<not> cJSON_IsNumber item \<or> \<not> disfinite (valuedouble item) \<or>
         negative_double (valuedouble item) \<or> zero_double (valuedouble item) \<or>
         exceeds (valuedouble item) 4294967295 \<or> \<not> whole (valuedouble item)
      then None else Some (of_nat (double_nat (valuedouble item))))"

definition mqtt_readFloat :: "cJSON option \<Rightarrow> f32 option" where
  "mqtt_readFloat item =
     (if \<not> cJSON_IsNumber item \<or> \<not> disfinite (valuedouble item) then None
      else let value = double_float (valuedouble item) in if fisfinite value then Some value else None)"

definition readString :: "nat \<Rightarrow> cJSON option \<Rightarrow> string option" where
  "readString bufferSize item =
     (case valuestring item of
        None \<Rightarrow> None
      | Some s \<Rightarrow> if s = [] \<or> bufferSize \<le> length s then None else Some s)"

definition mqtt_parseMode :: "c_str \<Rightarrow> LoadModeValue option" where
  "mqtt_parseMode text =
     (if text = Some ''FIXED_OFF'' then Some FIXED_OFF else if text = Some ''FIXED_ON'' then Some FIXED_ON
      else if text = Some ''AUTO_OFF'' then Some AUTO_OFF else if text = Some ''AUTO_ON'' then Some AUTO_ON
      else None)"

definition mqtt_parsePowerType :: "c_str \<Rightarrow> LoadPowerType option" where
  "mqtt_parsePowerType text =
     (if text = Some ''AC'' then Some AC else if text = Some ''DC'' then Some DC else None)"

text \<open>No object stands for no schedule.\<close>

definition mqtt_parseSchedule :: "cJSON option \<Rightarrow> AutoSchedule option" where
  "mqtt_parseSchedule item =
     (case item of
        None \<Rightarrow> Some no_schedule
      | Some object \<Rightarrow>
          let get = cJSON_GetObjectItemCaseSensitive object
          in if \<not> cJSON_IsObject item \<or> \<not> cJSON_IsBool (get ''enabled'') then None
             else if \<not> cJSON_IsTrue (get ''enabled'') then Some no_schedule
             else case (readU8 (get ''startHour''), readU8 (get ''startMinute''),
                        readU8 (get ''endHour''), readU8 (get ''endMinute'')) of
               (Some h, Some m, Some h', Some m') \<Rightarrow>
                 if h > 23 \<or> m > 59 \<or> h' > 23 \<or> m' > 59 \<or> (h = h' \<and> m = m') then None
                 else Some (AutoSchedule5 True h m h' m')
             | _ \<Rightarrow> None)"

section \<open>Requests\<close>

record PowerPlanningCommandRequest =
  pp_P_budget :: f32
  pp_P_reserve :: f32
  pp_minimumStateOfChargePercent :: f32
  pp_requiredRuntimeHours :: f32

datatype MqttRequest =
  ForConfig ConfigCommandRequest
| ForLoad LoadCommandRequest
| ForBattery PowerPlanningCommandRequest
| ForSensor SimulationCommandRequest
| ForSystem SystemCommandRequest

text \<open>A refusal: the command identifier, the reason and the target of the acknowledgement.\<close>

type_synonym refusal = "u32 \<times> string \<times> string"

text \<open>What is accepted: the command identifier, the target and the request.\<close>

type_synonym accepted_command = "u32 \<times> string \<times> MqttRequest"

abbreviation mac_text :: "MacAddress \<Rightarrow> string" where
  "mac_text \<equiv> formatMacAddressText 18"

definition nodeCommand :: "cJSON \<Rightarrow> refusal + accepted_command" where
  "nodeCommand root =
     (let get = cJSON_GetObjectItemCaseSensitive root
      in case (readU32 (get ''commandId''), valuestring (get ''action''), mqtt_parseMac (valuestring (get ''mac''))) of
        (Some commandId, Some action, Some mac) \<Rightarrow>
          let request = empty_request\<lparr>cc_commandId := commandId, cc_nodeMacAddress := mac\<rparr>
          in if action = ''delete''
             then Inr (commandId, mac_text mac, ForConfig (request\<lparr>cc_action := DECOMMISSION_NODE\<rparr>))
             else if action \<noteq> ''add'' \<and> action \<noteq> ''update''
             then Inl (commandId, ''action must be add, update or delete'', [])
             else (case readString 20 (get ''name'') of
               None \<Rightarrow> Inl (commandId, ''name required'', [])
             | Some name \<Rightarrow>
                 Inr (commandId, mac_text mac,
                   ForConfig (request\<lparr>cc_action := (if action = ''add'' then COMMISSION_NODE else RENAME_NODE),
                     cc_friendlyName := name, cc_hasFriendlyName := True\<rparr>)))
      | _ \<Rightarrow> Inl (0, ''commandId, action and mac required'', []))"

text \<open>A member that may be left out: \<open>Inl\<close> when it is there and is not read.\<close>

definition optional :: "'e \<Rightarrow> (cJSON option \<Rightarrow> 'a option) \<Rightarrow> cJSON option \<Rightarrow> 'e + 'a option" where
  "optional refused read item =
     (case item of
        None \<Rightarrow> Inr None
      | Some v \<Rightarrow> (case read item of None \<Rightarrow> Inl refused | Some x \<Rightarrow> Inr (Some x)))"

definition loadUpdate :: "u32 \<Rightarrow> MacAddress \<Rightarrow> u8 \<Rightarrow> cJSON \<Rightarrow> refusal + accepted_command" where
  "loadUpdate commandId mac pin root =
     (let get = cJSON_GetObjectItemCaseSensitive root;
          refuse = (\<lambda>text. (commandId, text, mac_text mac))
      in case optional (refuse ''invalid priority'') readU16 (get ''priority'') of
        Inl r \<Rightarrow> Inl r
      | Inr priority \<Rightarrow>
          (case optional (refuse ''invalid mode'') (\<lambda>i. mqtt_parseMode (valuestring i)) (get ''mode'') of
             Inl r \<Rightarrow> Inl r
           | Inr mode \<Rightarrow>
               (case optional (refuse ''invalid schedule'') mqtt_parseSchedule (get ''schedule'') of
                  Inl r \<Rightarrow> Inl r
                | Inr schedule \<Rightarrow>
                    if priority = None \<and> mode = None \<and> schedule = None
                    then Inl (refuse ''provide priority, mode or schedule'')
                    else Inr (commandId, mac_text mac,
                      ForLoad \<lparr>lc_nodeMacAddress = mac, lc_relayPin = pin, lc_priority = priority,
                               lc_mode = mode, lc_schedule = schedule\<rparr>))))"

definition loadAdd :: "u32 \<Rightarrow> MacAddress \<Rightarrow> u8 \<Rightarrow> cJSON \<Rightarrow> refusal + accepted_command" where
  "loadAdd commandId mac pin root =
     (let get = cJSON_GetObjectItemCaseSensitive root;
          refused = Inl (commandId, ''invalid load settings'', mac_text mac)
      in case (readString 16 (get ''name''), mqtt_readFloat (get ''power''), readU16 (get ''priority''),
               mqtt_parseMode (valuestring (get ''mode'')),
               mqtt_parsePowerType (valuestring (get ''powerType'')), mqtt_parseSchedule (get ''schedule'')) of
        (Some name, Some rating, Some priority, Some mode, Some powerType, Some schedule) \<Rightarrow>
          if flt rating fzero \<or> \<not> cJSON_IsBool (get ''activeHigh'') then refused
          else Inr (commandId, mac_text mac,
            ForConfig (empty_request\<lparr>cc_commandId := commandId, cc_nodeMacAddress := mac, cc_relayPin := pin,
              cc_hasRelayPin := True, cc_action := CONFIGURE_LOAD, cc_hasLoadConfiguration := True,
              cc_loadName := name, cc_powerRatingWatts := rating, cc_priority := priority, cc_mode := mode,
              cc_powerType := powerType, cc_schedule := schedule,
              cc_relayActiveHigh := cJSON_IsTrue (get ''activeHigh'')\<rparr>))
      | _ \<Rightarrow> refused)"

definition loadCommand :: "cJSON \<Rightarrow> refusal + accepted_command" where
  "loadCommand root =
     (let get = cJSON_GetObjectItemCaseSensitive root
      in case (readU32 (get ''commandId''), valuestring (get ''action''),
               mqtt_parseMac (valuestring (get ''nodeMac'')), readU8 (get ''relayPin'')) of
        (Some commandId, Some action, Some mac, Some pin) \<Rightarrow>
          if action = ''update'' then loadUpdate commandId mac pin root
          else if action = ''delete''
          then Inr (commandId, mac_text mac,
            ForConfig (empty_request\<lparr>cc_commandId := commandId, cc_nodeMacAddress := mac, cc_relayPin := pin,
              cc_hasRelayPin := True, cc_action := REMOVE_LOAD\<rparr>))
          else if action = ''add'' then loadAdd commandId mac pin root
          else Inl (commandId, ''action must be add, update or delete'', mac_text mac)
      | _ \<Rightarrow> Inl (0, ''commandId, action, nodeMac and relayPin required'', []))"

text \<open>
  Once the identifier has been read, the acknowledgement carries it even if the rest is wrong.
\<close>

definition batteryCommand :: "cJSON \<Rightarrow> refusal + accepted_command" where
  "batteryCommand root =
     (let get = cJSON_GetObjectItemCaseSensitive root;
          usage = ''use action=set with budget, reserve and minSoc''
      in case readU32 (get ''commandId'') of
        None \<Rightarrow> Inl (0, usage, [])
      | Some commandId \<Rightarrow>
          if valuestring (get ''action'') \<noteq> Some ''set'' then Inl (commandId, usage, [])
          else case (mqtt_readFloat (get ''budget''), mqtt_readFloat (get ''reserve''), mqtt_readFloat (get ''minSoc'')) of
            (Some budget, Some reserve, Some minimum) \<Rightarrow>
              (case optional (commandId, ''invalid runtime'', []) mqtt_readFloat (get ''runtime'') of
                 Inl r \<Rightarrow> Inl r
               | Inr given \<Rightarrow>
                   let runtime = (case given of None \<Rightarrow> fzero | Some h \<Rightarrow> h)
                   in if fle budget fzero \<or> flt reserve fzero \<or> flt budget reserve \<or>
                         flt minimum fzero \<or> flt fhundred minimum \<or> flt runtime fzero
                      then Inl (commandId, ''invalid battery settings'', [])
                      else Inr (commandId, [],
                        ForBattery \<lparr>pp_P_budget = budget, pp_P_reserve = reserve,
                          pp_minimumStateOfChargePercent = minimum, pp_requiredRuntimeHours = runtime\<rparr>))
          | _ \<Rightarrow> Inl (commandId, usage, []))"

definition sensorValues :: "u32 \<Rightarrow> cJSON \<Rightarrow> refusal + accepted_command" where
  "sensorValues commandId root =
     (let get = cJSON_GetObjectItemCaseSensitive root;
          hasVoltage = (get ''voltage'' \<noteq> None); hasCurrent = (get ''current'' \<noteq> None); hasSoc = (get ''soc'' \<noteq> None);
          voltage = mqtt_readFloat (get ''voltage''); current = mqtt_readFloat (get ''current''); soc = mqtt_readFloat (get ''soc'')
      in if hasVoltage \<noteq> hasCurrent \<or> (hasVoltage \<and> (voltage = None \<or> current = None)) \<or>
            (hasSoc \<and> (soc = None \<or> flt (the soc) fzero \<or> flt fhundred (the soc)))
         then Inl (commandId, ''invalid sensor values'', [])
         else if \<not> hasVoltage \<and> \<not> hasSoc then Inl (commandId, ''provide voltage/current or soc'', [])
         else Inr (commandId, [],
           ForSensor (SET_VALUES (if hasVoltage then Some (the voltage, the current) else None)
                                 (if hasSoc then soc else None))))"

definition sensorCommand :: "cJSON \<Rightarrow> refusal + accepted_command" where
  "sensorCommand root =
     (let get = cJSON_GetObjectItemCaseSensitive root
      in case (readU32 (get ''commandId''), valuestring (get ''action'')) of
        (Some commandId, Some action) \<Rightarrow>
          if action = ''sim'' then Inr (commandId, [], ForSensor ENABLE)
          else if action = ''ina219'' then Inr (commandId, [], ForSensor DISABLE)
          else if action = ''values'' then sensorValues commandId root
          else Inl (commandId, ''action must be ina219, sim or values'', [])
      | _ \<Rightarrow> Inl (0, ''invalid commandId/action'', []))"

definition systemCommand :: "cJSON \<Rightarrow> refusal + accepted_command" where
  "systemCommand root =
     (let get = cJSON_GetObjectItemCaseSensitive root
      in case (readU32 (get ''commandId''), valuestring (get ''action'')) of
        (Some commandId, Some action) \<Rightarrow>
          if action = ''optimize'' then Inr (commandId, [], ForSystem REQUEST_OPTIMIZATION_CYCLE)
          else if action = ''restart'' then Inr (commandId, [], ForSystem REBOOT_CENTRAL)
          else if action = ''interval''
          then (case readU32 (get ''seconds'') of
                  None \<Rightarrow> Inl (commandId, ''seconds required'', [])
                | Some seconds \<Rightarrow> Inr (commandId, [], ForSystem (SET_OPTIMIZER_INTERVAL (Some seconds))))
          else Inl (commandId, ''action must be optimize, restart or interval'', [])
      | _ \<Rightarrow> Inl (0, ''invalid commandId/action'', []))"

section \<open>Handlers\<close>

text \<open>
  The registered callbacks on the state of their owner; one that restarts the chip does not
  return a result.
\<close>

record 'c MqttHandlers =
  loadCommandHandler :: "(LoadCommandRequest \<Rightarrow> 'c \<Rightarrow> CommandResult option \<times> 'c) option"
  systemCommandHandler :: "(SystemCommandRequest \<Rightarrow> 'c \<Rightarrow> CommandResult option \<times> 'c) option"
  configCommandHandler :: "(ConfigCommandRequest \<Rightarrow> 'c \<Rightarrow> CommandResult option \<times> 'c) option"
  simulationCommandHandler :: "(SimulationCommandRequest \<Rightarrow> 'c \<Rightarrow> CommandResult option \<times> 'c) option"
  powerPlanningCommandHandler :: "(PowerPlanningCommandRequest \<Rightarrow> 'c \<Rightarrow> CommandResult option \<times> 'c) option"

definition no_handlers :: "'c MqttHandlers" where
  "no_handlers =
     \<lparr>loadCommandHandler = None, systemCommandHandler = None, configCommandHandler = None,
      simulationCommandHandler = None, powerPlanningCommandHandler = None\<rparr>"

definition callHandler ::
  "'c MqttHandlers \<Rightarrow> MqttRequest \<Rightarrow> 'c \<Rightarrow> (CommandResult option \<times> 'c) option" where
  "callHandler hs request c =
     (case request of
        ForConfig r \<Rightarrow> map_option (\<lambda>h. h r c) (configCommandHandler hs)
      | ForLoad r \<Rightarrow> map_option (\<lambda>h. h r c) (loadCommandHandler hs)
      | ForBattery r \<Rightarrow> map_option (\<lambda>h. h r c) (powerPlanningCommandHandler hs)
      | ForSensor r \<Rightarrow> map_option (\<lambda>h. h r c) (simulationCommandHandler hs)
      | ForSystem r \<Rightarrow> map_option (\<lambda>h. h r c) (systemCommandHandler hs))"

definition resultStatus :: "CommandResult \<Rightarrow> AckStatus" where
  "resultStatus result =
     (if \<not> accepted result then ACK_REJECTED else if completed result then ACK_APPLIED else ACK_ACCEPTED)"

text \<open>The end of every command: it is refused, or its handler is called and its result acknowledged.\<close>

definition answerCommand ::
  "mqtt_client \<Rightarrow> 'c MqttHandlers \<Rightarrow> string \<Rightarrow> refusal + accepted_command \<Rightarrow> MqttManager \<Rightarrow> 'c \<Rightarrow>
   Publication list \<times> 'c" where
  "answerCommand client hs kind command m c =
     (case command of
        Inl (commandId, text, target) \<Rightarrow>
          (publishAcknowledgement client commandId kind ACK_REJECTED text target m, c)
      | Inr (commandId, target, request) \<Rightarrow>
          (case callHandler hs request c of
             None \<Rightarrow> (publishAcknowledgement client commandId kind ACK_REJECTED ''no handler'' target m, c)
           | Some (None, c') \<Rightarrow> ([], c')
           | Some (Some result, c') \<Rightarrow>
               (publishAcknowledgement client commandId kind (resultStatus result) (reason result) target m, c')))"

definition handleCommandMessage ::
  "mqtt_client \<Rightarrow> 'c MqttHandlers \<Rightarrow> string \<Rightarrow> (cJSON \<Rightarrow> refusal + accepted_command) \<Rightarrow> string \<Rightarrow> MqttManager \<Rightarrow> 'c \<Rightarrow>
   Publication list \<times> 'c" where
  "handleCommandMessage client hs kind read data m c =
     (case cJSON_ParseWithLength data of
        None \<Rightarrow> (publishAcknowledgement client 0 kind ACK_REJECTED ''malformed JSON'' [] m, c)
      | Some root \<Rightarrow> answerCommand client hs kind (read root) m c)"

definition onDataReceived ::
  "mqtt_client \<Rightarrow> 'c MqttHandlers \<Rightarrow> string \<Rightarrow> string \<Rightarrow> MqttManager \<Rightarrow> 'c \<Rightarrow> Publication list \<times> 'c" where
  "onDataReceived client hs topic data m c =
     (if topic \<noteq> fullTopic ''command'' m then ([], c)
      else case cJSON_ParseWithLength data of
        None \<Rightarrow> (publishAcknowledgement client 0 ''command'' ACK_REJECTED ''malformed JSON'' [] m, c)
      | Some root \<Rightarrow>
          let commandType = (case valuestring (cJSON_GetObjectItemCaseSensitive root ''type'') of
                None \<Rightarrow> [] | Some s \<Rightarrow> s)
          in if commandType = ''node'' then handleCommandMessage client hs ''node'' nodeCommand data m c
             else if commandType = ''load'' then handleCommandMessage client hs ''load'' loadCommand data m c
             else if commandType = ''battery'' then handleCommandMessage client hs ''battery'' batteryCommand data m c
             else if commandType = ''sensor'' then handleCommandMessage client hs ''sensor'' sensorCommand data m c
             else if commandType = ''system'' then handleCommandMessage client hs ''system'' systemCommand data m c
             else (publishAcknowledgement client 0 ''command'' ACK_REJECTED
                     ''type must be node, load, battery, sensor or system'' [] m, c))"

datatype MqttEvent =
  MQTT_EVENT_CONNECTED | MQTT_EVENT_DISCONNECTED | MQTT_EVENT_DATA string string | MQTT_EVENT_OTHER

definition onConnected :: "mqtt_client \<Rightarrow> MqttManager \<Rightarrow> Publication list \<times> MqttManager" where
  "onConnected client m = (let m' = m\<lparr>mqtt_connected := True\<rparr> in (publishStatus client m', m'))"

definition onDisconnected :: "MqttManager \<Rightarrow> MqttManager" where
  "onDisconnected m = m\<lparr>mqtt_connected := False\<rparr>"

definition handleMqttEvent ::
  "mqtt_client \<Rightarrow> 'c MqttHandlers \<Rightarrow> MqttEvent \<Rightarrow> MqttManager \<times> 'c \<Rightarrow> Publication list \<times> MqttManager \<times> 'c" where
  "handleMqttEvent client hs event = (\<lambda>(m, c).
     case event of
       MQTT_EVENT_CONNECTED \<Rightarrow> (case onConnected client m of (ps, m') \<Rightarrow> (ps, m', c))
     | MQTT_EVENT_DISCONNECTED \<Rightarrow> ([], onDisconnected m, c)
     | MQTT_EVENT_DATA topic data \<Rightarrow>
         if topic = [] \<or> data = [] then ([], m, c)
         else (case onDataReceived client hs topic data m c of (ps, c') \<Rightarrow> (ps, m, c'))
     | MQTT_EVENT_OTHER \<Rightarrow> ([], m, c))"

section \<open>The handlers of Central\<close>

definition centralHandlers :: "('g, 'n, 'i) Platform \<Rightarrow> u32 \<Rightarrow> ('g, 'n, 'i) Central MqttHandlers" where
  "centralHandlers pf now =
     \<lparr>loadCommandHandler = Some (\<lambda>r c. apfst Some (handleLoadCommand pf r c)),
      systemCommandHandler = Some (handleSystemCommand pf),
      configCommandHandler = Some (\<lambda>r c. apfst Some (handleConfigCommand pf r now c)),
      simulationCommandHandler = Some (\<lambda>r c. apfst Some (handleSimulationCommand pf r now c)),
      powerPlanningCommandHandler = Some (\<lambda>r c. apfst Some
        (consoleConfigurePowerPlanningValidated pf (pp_P_budget r) (pp_P_reserve r)
          (pp_minimumStateOfChargePercent r) (pp_requiredRuntimeHours r) now c))\<rparr>"

end
