(* ===== verification/Mqtt_Results.thy ===== *)
theory Mqtt_Results
  imports Mqtt_Commands
begin

text \<open>
  What holds of the MQTT commands: every request that reaches a handler is within the bounds its
  types promise, every message is answered once and changes Central by at most one command, a
  command written in the words Central itself publishes reaches its handler unchanged, and the
  acknowledgement names it.
\<close>

section \<open>The requests are typed\<close>

definition schedule_request :: "AutoSchedule \<Rightarrow> bool" where
  "schedule_request s \<longleftrightarrow> s = no_schedule \<or> (enabled s \<and> schedule_valid s)"

definition power_request :: "f32 \<Rightarrow> bool" where
  "power_request x \<longleftrightarrow> fisfinite x \<and> \<not> flt x fzero"

definition percent_request :: "f32 \<Rightarrow> bool" where
  "percent_request x \<longleftrightarrow> power_request x \<and> \<not> flt fhundred x"

definition text_request :: "nat \<Rightarrow> string \<Rightarrow> bool" where
  "text_request bufferSize s \<longleftrightarrow> s \<noteq> [] \<and> length s < bufferSize"

definition config_request_ok :: "ConfigCommandRequest \<Rightarrow> bool" where
  "config_request_ok r \<longleftrightarrow>
     cc_commandId r \<noteq> 0 \<and>
     (case cc_action r of
        COMMISSION_NODE \<Rightarrow> cc_hasFriendlyName r \<and> text_request 20 (cc_friendlyName r)
      | RENAME_NODE \<Rightarrow> cc_hasFriendlyName r \<and> text_request 20 (cc_friendlyName r)
      | DECOMMISSION_NODE \<Rightarrow> True
      | REMOVE_LOAD \<Rightarrow> cc_hasRelayPin r
      | CONFIGURE_LOAD \<Rightarrow> cc_hasLoadConfiguration r \<and> text_request 16 (cc_loadName r) \<and>
          named_mode (cc_mode r) \<and> named_power_type (cc_powerType r) \<and>
          power_request (cc_powerRatingWatts r) \<and> schedule_request (cc_schedule r)
      | _ \<Rightarrow> False)"

fun request_ok :: "MqttRequest \<Rightarrow> bool" where
  "request_ok (ForConfig r) \<longleftrightarrow> config_request_ok r"
| "request_ok (ForLoad r) \<longleftrightarrow>
     (lc_priority r \<noteq> None \<or> lc_mode r \<noteq> None \<or> lc_schedule r \<noteq> None) \<and>
     pred_option named_mode (lc_mode r) \<and> pred_option schedule_request (lc_schedule r)"
| "request_ok (ForBattery r) \<longleftrightarrow>
     power_request (pp_P_budget r) \<and> \<not> fle (pp_P_budget r) fzero \<and> power_request (pp_P_reserve r) \<and>
     \<not> flt (pp_P_budget r) (pp_P_reserve r) \<and> percent_request (pp_minimumStateOfChargePercent r) \<and>
     power_request (pp_requiredRuntimeHours r)"
| "request_ok (ForSensor r) \<longleftrightarrow>
     (case r of
        SET_VALUES electrical soc \<Rightarrow>
          (electrical \<noteq> None \<or> soc \<noteq> None) \<and>
          pred_option (\<lambda>(voltage, current). fisfinite voltage \<and> fisfinite current) electrical \<and>
          pred_option percent_request soc
      | _ \<Rightarrow> True)"
| "request_ok (ForSystem r) \<longleftrightarrow>
     (case r of
        REQUEST_OPTIMIZATION_CYCLE \<Rightarrow> True | REBOOT_CENTRAL \<Rightarrow> True
      | SET_OPTIMIZER_INTERVAL seconds \<Rightarrow> seconds \<noteq> None \<and> seconds \<noteq> Some 0 | _ \<Rightarrow> False)"

lemma whole_nat: "whole v \<Longrightarrow> disfinite v \<Longrightarrow> \<not> negative_double v \<Longrightarrow> v = whole_double (double_nat v) \<or> double_nat v = 0"
  by (cases v) (auto simp: whole_double_def)

lemma readU32_nonzero: "readU32 item = Some n \<Longrightarrow> n \<noteq> 0"
proof (cases "valuedouble item")
  case (Double s k)
  assume a: "readU32 item = Some n"
  have k: "k \<noteq> 0" "k mod double_one = 0" "k \<le> 4294967295 * double_one" "n = of_nat (k div double_one)"
    using a by (auto simp: readU32_def Double split: if_splits)
  obtain q where q: "k = double_one * q" using k(2) by (metis mod_0_imp_dvd dvdE)
  have "q \<noteq> 0" "q \<le> 4294967295" using k(1,3) by (simp_all add: q mult.commute)
  moreover from this(2) have "unat (of_nat q :: u32) = q" by (simp add: unsigned_of_nat take_bit_nat_eq_self)
  moreover have "n = of_nat q" using k(4) by (simp add: q)
  ultimately show "n \<noteq> 0" by (metis unat_0)
qed (simp_all add: readU32_def)

lemma readFloat_finite: "mqtt_readFloat item = Some x \<Longrightarrow> fisfinite x"
  by (auto simp: mqtt_readFloat_def Let_def split: if_splits)

lemma readString_text: "readString k item = Some s \<Longrightarrow> text_request k s"
  by (auto simp: readString_def text_request_def split: option.splits if_splits)

lemma mqtt_parseMode_named: "mqtt_parseMode t = Some m \<Longrightarrow> named_mode m"
  by (auto simp: mqtt_parseMode_def named_mode_def split: if_splits)

lemma mqtt_parsePowerType_named: "mqtt_parsePowerType t = Some p \<Longrightarrow> named_power_type p"
  by (auto simp: mqtt_parsePowerType_def named_power_type_def split: if_splits)

lemma minutes_of_day_inject:
  assumes "\<not> h > 23" "\<not> m > 59" "\<not> h' > 23" "\<not> m' > 59"
    and "minutes_of_day h m = minutes_of_day h' m'"
  shows "h = h' \<and> m = m'"
proof -
  have "unat h * 60 + unat m = unat h' * 60 + unat m'"
    using assms(5) unat_minutes_of_day [OF assms(1,2)] unat_minutes_of_day [OF assms(3,4)] by simp
  moreover have "unat m < 60" "unat m' < 60" using assms(2,4) by (simp_all add: word_less_nat_alt)
  moreover have "(a * 60 + b) div 60 = a" "(a * 60 + b) mod 60 = b" if "b < 60" for a b :: nat
    using that by simp_all
  ultimately have "unat h = unat h'" "unat m = unat m'" by metis+
  then show ?thesis by (auto intro: unsigned_word_eqI [where 'a = nat])
qed

lemma window_schedule:
  "\<not> (h > 23 \<or> m > 59 \<or> h' > 23 \<or> m' > 59 \<or> (h = h' \<and> m = m')) \<Longrightarrow> schedule_request (AutoSchedule5 True h m h' m')"
proof -
  assume a: "\<not> (h > 23 \<or> m > 59 \<or> h' > 23 \<or> m' > 59 \<or> (h = h' \<and> m = m'))"
  then have "minutes_of_day h m \<noteq> minutes_of_day h' m'" using minutes_of_day_inject by metis
  with a show ?thesis
    by (simp only: schedule_request_def schedule_valid_def times_in_range_def AutoSchedule5_def
        AutoSchedule.simps if_True if_False simp_thms de_Morgan_disj)
qed

lemma mqtt_parseSchedule_ok: "mqtt_parseSchedule item = Some s \<Longrightarrow> schedule_request s"
  by (auto simp: mqtt_parseSchedule_def Let_def schedule_request_def [of no_schedule] window_schedule
      split: option.splits if_splits)

lemmas reads_typed = readU32_nonzero readFloat_finite readString_text mqtt_parseMode_named
  mqtt_parsePowerType_named mqtt_parseSchedule_ok

lemma nodeCommand_ok: "nodeCommand root = Inr (commandId, target, request) \<Longrightarrow> commandId \<noteq> 0 \<and> request_ok request"
  by (auto simp: nodeCommand_def Let_def config_request_ok_def split: option.splits if_splits dest!: reads_typed)

lemma optional_Inr: "optional e f item = Inr x \<Longrightarrow> x = None \<or> (\<exists>v. x = Some v \<and> f item = Some v)"
  by (auto simp: optional_def split: option.splits)

lemma loadUpdate_ok:
  "loadUpdate commandId mac pin root = Inr (i, target, request) \<Longrightarrow> i = commandId \<and> request_ok request"
  by (auto simp: loadUpdate_def Let_def split: sum.splits if_splits dest!: optional_Inr dest!: reads_typed)

lemma loadAdd_ok:
  "loadAdd commandId mac pin root = Inr (i, target, request) \<Longrightarrow> commandId \<noteq> 0 \<Longrightarrow> i = commandId \<and> request_ok request"
  by (auto simp: loadAdd_def Let_def config_request_ok_def power_request_def split: option.splits if_splits dest!: reads_typed)

lemma loadCommand_ok: "loadCommand root = Inr (commandId, target, request) \<Longrightarrow> commandId \<noteq> 0 \<and> request_ok request"
  by (auto simp: loadCommand_def Let_def config_request_ok_def split: option.splits if_splits
      dest!: reads_typed loadUpdate_ok loadAdd_ok)

lemma batteryCommand_ok: "batteryCommand root = Inr (commandId, target, request) \<Longrightarrow> commandId \<noteq> 0 \<and> request_ok request"
  by (auto simp: batteryCommand_def Let_def power_request_def percent_request_def
      split: option.splits sum.splits if_splits dest!: optional_Inr reads_typed dest: flt_imp_fle)

lemma sensorCommand_ok: "sensorCommand root = Inr (commandId, target, request) \<Longrightarrow> commandId \<noteq> 0 \<and> request_ok request"
  by (auto simp: sensorCommand_def sensorValues_def Let_def power_request_def percent_request_def
      split: option.splits if_splits intro: readFloat_finite dest: readU32_nonzero)

lemma systemCommand_ok: "systemCommand root = Inr (commandId, target, request) \<Longrightarrow> commandId \<noteq> 0 \<and> request_ok request"
  by (auto simp: systemCommand_def Let_def split: option.splits if_splits dest!: reads_typed)

lemmas commands_ok = nodeCommand_ok loadCommand_ok batteryCommand_ok sensorCommand_ok systemCommand_ok

section \<open>Every message is answered once\<close>

text \<open>
  What a message says, read apart from what is done with it: the kind of command its
  acknowledgement names, and a refusal or an accepted command.
\<close>

definition read_message :: "string \<Rightarrow> string \<times> (refusal + accepted_command)" where
  "read_message data =
     (case cJSON_ParseWithLength data of
        None \<Rightarrow> (''command'', Inl (0, ''malformed JSON'', []))
      | Some root \<Rightarrow>
          (case map_of [(''node'', nodeCommand), (''load'', loadCommand), (''battery'', batteryCommand),
                        (''sensor'', sensorCommand), (''system'', systemCommand)]
                  (case valuestring (cJSON_GetObjectItemCaseSensitive root ''type'') of None \<Rightarrow> [] | Some k \<Rightarrow> k) of
             None \<Rightarrow> (''command'', Inl (0, ''type must be node, load, battery, sensor or system'', []))
           | Some read \<Rightarrow> (the (valuestring (cJSON_GetObjectItemCaseSensitive root ''type'')), read root)))"

text \<open>
  How a command is settled when \<open>perform\<close> is what each request is meant to do: a refusal changes
  nothing and is rejected with its reason; an accepted command is performed once, and its status
  is rejected, applied or accepted, as the result says.
\<close>

fun settles ::
  "(MqttRequest \<Rightarrow> 'c \<Rightarrow> CommandResult option \<times> 'c) \<Rightarrow> refusal + accepted_command \<Rightarrow> 'c \<Rightarrow>
   u32 \<times> AckStatus \<times> string \<times> string \<Rightarrow> 'c \<Rightarrow> bool" where
  "settles perform (Inl (i, why, target)) c ack c' \<longleftrightarrow> c' = c \<and> ack = (i, ACK_REJECTED, why, target)"
| "settles perform (Inr (i, target, request)) c ack c' \<longleftrightarrow>
     (\<exists>result status. perform request c = (Some result, c') \<and> ack = (i, status, reason result, target) \<and>
        (status = ACK_REJECTED \<longleftrightarrow> \<not> accepted result) \<and>
        (status = ACK_APPLIED \<longleftrightarrow> accepted result \<and> completed result))"

lemma read_message_typed: "snd (read_message data) = Inr (i, target, request) \<Longrightarrow> i \<noteq> 0 \<and> request_ok request"
  by (auto simp: read_message_def split: option.splits if_splits dest: commands_ok)

lemma onDataReceived_reads:
  "onDataReceived client hs (fullTopic ''command'' m) data m c =
   answerCommand client hs (fst (read_message data)) (snd (read_message data)) m c"
proof (cases "cJSON_ParseWithLength data")
  case None
  then show ?thesis by (simp add: onDataReceived_def read_message_def answerCommand_def)
next
  case (Some root)
  let ?t = "valuestring (cJSON_GetObjectItemCaseSensitive root ''type'')"
  note reads = onDataReceived_def read_message_def handleCommandMessage_def Let_def Some
  show ?thesis
  proof (cases ?t)
    case None
    then show ?thesis by (simp add: reads answerCommand_def)
  next
    case t: (Some k)
    consider "k = ''node''" | "k = ''load''" | "k = ''battery''" | "k = ''sensor''" | "k = ''system''"
      | "k \<notin> {''node'', ''load'', ''battery'', ''sensor'', ''system''}" by auto
    then show ?thesis by cases (simp_all add: reads t, simp add: answerCommand_def)
  qed
qed

lemma settles_performs:
  "settles perform command c ack c' \<Longrightarrow> c' = c \<or> (\<exists>request. c' = snd (perform request c))"
proof (cases command)
  case (Inr a)
  obtain i target request where a: "a = (i, target, request)" by (cases a)
  assume "settles perform command c ack c'"
  then obtain result where "perform request c = (Some result, c')" by (auto simp: Inr a)
  then have "c' = snd (perform request c)" by simp
  then show ?thesis by blast
qed (auto elim: settles.elims)

text \<open>What the manager promises over any handlers that perform each typed request and return.\<close>

locale mqtt_handlers =
  fixes hs :: "'c MqttHandlers" and perform :: "MqttRequest \<Rightarrow> 'c \<Rightarrow> CommandResult option \<times> 'c"
  assumes typed_call: "request_ok request \<Longrightarrow> callHandler hs request c = Some (perform request c)"
    and typed_returns: "request_ok request \<Longrightarrow> fst (perform request c) \<noteq> None"
begin

lemma answered:
  assumes "\<And>i target request. command = Inr (i, target, request) \<Longrightarrow> request_ok request"
    and "answerCommand client hs kind command m c = (ps, c')"
  shows "\<exists>i status text target. ps = publishAcknowledgement client i kind status text target m \<and>
    settles perform command c (i, status, text, target) c'"
proof (cases command)
  case (Inl r)
  then show ?thesis using assms(2) by (cases r) (auto simp: answerCommand_def)
next
  case (Inr a)
  obtain i target request where a: "a = (i, target, request)" by (cases a)
  have ok: "request_ok request" using assms(1) Inr a by simp
  then obtain result c'' where p: "perform request c = (Some result, c'')"
    using typed_returns [of request c] by (cases "perform request c") auto
  then show ?thesis using assms(2) typed_call [OF ok, of c]
    by (auto simp: answerCommand_def Inr a resultStatus_def)
qed

lemma data_answered:
  assumes "onDataReceived client hs (fullTopic ''command'' m) data m c = (ps, c')"
  shows "\<exists>i status text target. ps = publishAcknowledgement client i (fst (read_message data)) status text target m \<and>
    settles perform (snd (read_message data)) c (i, status, text, target) c'"
  using assms read_message_typed by (intro answered) (auto simp: onDataReceived_reads)

end

text \<open>What each request is meant to do at Central.\<close>

fun central_perform ::
  "('g, 'n, 'i) Platform \<Rightarrow> u32 \<Rightarrow> MqttRequest \<Rightarrow> ('g, 'n, 'i) Central \<Rightarrow>
   CommandResult option \<times> ('g, 'n, 'i) Central" where
  "central_perform pf now (ForConfig r) c = apfst Some (handleConfigCommand pf r now c)"
| "central_perform pf now (ForLoad r) c = apfst Some (handleLoadCommand pf r c)"
| "central_perform pf now (ForBattery r) c =
     apfst Some (consoleConfigurePowerPlanningValidated pf (pp_P_budget r) (pp_P_reserve r)
       (pp_minimumStateOfChargePercent r) (pp_requiredRuntimeHours r) now c)"
| "central_perform pf now (ForSensor r) c = apfst Some (handleSimulationCommand pf r now c)"
| "central_perform pf now (ForSystem r) c = handleSystemCommand pf r c"

text \<open>Each is one event of Central, so whatever always holds of Central holds after it.\<close>

lemma central_perform_step: "\<exists>ev. snd (central_perform pf now request c) = central_step pf ev c"
proof (cases request)
  case (ForConfig r)
  then show ?thesis by (auto intro: exI [of _ "ConfigCommand r now"])
next
  case (ForLoad r)
  then show ?thesis by (auto intro: exI [of _ "LoadCommand r"])
next
  case (ForBattery r)
  then show ?thesis by (auto intro: exI [of _ "ConsolePowerPlanning (pp_P_budget r) (pp_P_reserve r)
      (pp_minimumStateOfChargePercent r) (pp_requiredRuntimeHours r) now"])
next
  case (ForSensor r)
  then show ?thesis by (auto intro: exI [of _ "SimulationCommand r now"])
next
  case (ForSystem r)
  then show ?thesis by (auto intro: exI [of _ "SystemCommand r"])
qed

lemma central_performs:
  assumes "request_ok request"
  shows "callHandler (centralHandlers pf now) request c = Some (central_perform pf now request c)"
    and "fst (central_perform pf now request c) \<noteq> None"
  using assms
  by (cases request; auto simp: callHandler_def centralHandlers_def handleSystemCommand_def
      split: SystemCommandRequest.splits if_splits prod.splits bool.splits)+

interpretation central_mqtt: mqtt_handlers "centralHandlers pf now" "central_perform pf now" for pf now
  by unfold_locales (fact central_performs)+

text \<open>
  C16: Every message of at least one byte on the command topic of a connected Central is answered by
  exactly one acknowledgement on the topic \<open>ack\<close>, whatever its bytes are, and an empty one is ignored.
  The acknowledgement tells what was done: a message that is refused is acknowledged as rejected with
  the reason, and Central stays as it was; any other message had the one handler that is meant for its
  request called once, with the request, and is acknowledged with that handler's reason, as rejected
  exactly when the handler did not accept it and as applied exactly when it completed it. Either way
  the invariant of Central is kept.
\<close>

theorem mqtt_message_answered_once:
  assumes "mqtt_connected m"
    and "handleMqttEvent client (centralHandlers pf now) (MQTT_EVENT_DATA (fullTopic ''command'' m) data) (m, c) = (ps, m', c')"
  shows "m' = m \<and> (central_inv c \<longrightarrow> central_inv c') \<and>
    (if data = [] then ps = [] \<and> c' = c
     else (\<exists>p. ps = [p] \<and> pub_topic p = fullTopic ''ack'' m \<and> pub_qos p = 1 \<and> \<not> pub_retain p) \<and>
       (\<exists>i status text target.
          ps = publishAcknowledgement client i (fst (read_message data)) status text target m \<and>
          settles (central_perform pf now) (snd (read_message data)) c (i, status, text, target) c'))"
proof (cases "data = []")
  case True
  with assms(2) show ?thesis by (simp add: handleMqttEvent_def)
next
  case False
  have topic: "fullTopic ''command'' m \<noteq> []" by (simp add: fullTopic_def)
  have d: "onDataReceived client (centralHandlers pf now) (fullTopic ''command'' m) data m c = (ps, c')" "m' = m"
    using assms(2) False topic by (auto simp: handleMqttEvent_def split: prod.splits)
  obtain i status why target where
    ps: "ps = publishAcknowledgement client i (fst (read_message data)) status why target m"
    and c: "settles (central_perform pf now) (snd (read_message data)) c (i, status, why, target) c'"
    using central_mqtt.data_answered [OF d(1)] by blast
  have "c' = c \<or> (\<exists>request. c' = snd (central_perform pf now request c))"
    using settles_performs [OF c] .
  then have "central_inv c \<longrightarrow> central_inv c'" using central_perform_step [of pf now _ c] central_step_inv by metis
  moreover have "\<exists>p. ps = [p] \<and> pub_topic p = fullTopic ''ack'' m \<and> pub_qos p = 1 \<and> \<not> pub_retain p"
    using assms(1) by (simp add: ps publishAcknowledgement_def publishRaw_def Let_def)
  ultimately show ?thesis using ps c d(2) False by auto
qed

lemma bad_json: "cJSON_ParseWithLength ''{]'' = None"
  by (simp add: cJSON_ParseWithLength_def skip_utf8_bom_def parse_value.simps parse_members.simps parse_string_def is_digit_def
      CJSON_NESTING_LIMIT_def eval_nat_numeral)

definition quiet_central :: "((u8 \<Rightarrow> bool) \<times> (u8 \<Rightarrow> bool), string \<Rightarrow> nvs_value option, unit) Central" where
  "quiet_central = new_Central (localMac example_platform) (\<lambda>p. True, \<lambda>p. False) (\<lambda>_. None) ()"

theorem mqtt_message_answered_once_witness:
  "\<exists>p. handleMqttEvent (\<lambda>_. True) (centralHandlers example_platform 0) (MQTT_EVENT_DATA ''kilowatts/command'' ''{]'')
      (connected_manager, quiet_central) = ([p], connected_manager, quiet_central) \<and> pub_topic p = ''kilowatts/ack''"
proof -
  have m: "mqtt_connected connected_manager" "fullTopic ''command'' connected_manager = ''kilowatts/command''"
    "fullTopic ''ack'' connected_manager = ''kilowatts/ack''"
    by (simp_all add: connected_manager_def fullTopic_def)
  obtain ps m' c' where d: "handleMqttEvent (\<lambda>_. True) (centralHandlers example_platform 0)
      (MQTT_EVENT_DATA ''kilowatts/command'' ''{]'') (connected_manager, quiet_central) = (ps, m', c')" by (metis surj_pair)
  have "read_message ''{]'' = (''command'', Inl (0, ''malformed JSON'', []))" by (simp add: read_message_def bad_json)
  with mqtt_message_answered_once [OF m(1), unfolded m, OF d] d show ?thesis by auto
qed

text \<open>
  C17: Every request an MQTT command hands to Central is within the bounds its handler relies on:
  a command identifier that is not 0, names that are not empty and fit their buffers, modes and power types that have a
  name, finite powers that are not negative, a reserve within the budget, percentages between 0
  and 100, an interval that is not 0, and schedules that are switched off or have two different
  times of the day.
\<close>

theorem mqtt_requests_typed:
  assumes "read \<in> {nodeCommand, loadCommand, batteryCommand, sensorCommand, systemCommand}"
    and "read root = Inr (commandId, target, request)"
  shows "commandId \<noteq> 0 \<and> request_ok request"
  using assms(1) by (elim insertE emptyE) (use assms(2) in \<open>simp_all add: commands_ok\<close>)

theorem mqtt_requests_typed_witness:
  "\<exists>target request. systemCommand
      (CObject [(''commandId'', CNumber (whole_double 7)), (''action'', CString ''interval''), (''seconds'', CNumber (whole_double 60))]) =
    Inr (7, target, request) \<and> (7 :: u32) \<noteq> 0 \<and> request_ok request"
proof -
  let ?root = "CObject [(''commandId'', CNumber (whole_double 7)), (''action'', CString ''interval''), (''seconds'', CNumber (whole_double 60))]"
  have s: "systemCommand ?root = Inr (7, [], ForSystem (SET_OPTIMIZER_INTERVAL (Some 60)))"
    by (simp add: systemCommand_def readU32_def)
  show ?thesis using mqtt_requests_typed [where read = systemCommand, OF _ s] s by auto
qed

section \<open>A command in the words of the published state\<close>

text \<open>The numbers the writers print are read back.\<close>

lemma strtod_decimal: "n < 2 ^ 53 \<Longrightarrow> strtod (decimal n) = Some (whole_double n, [])"
  using scan_real_whole [of "[]" n] by (simp add: strtod_def make_f64_whole [simplified])

lemma readU8_decimal: "readU8 (Some (cjson_of (JNumber (decimal (unat b))))) = Some b"
proof -
  have "unat b < 256" using unsigned_less [of b, where ?'a = nat] by simp
  then show ?thesis by (simp add: strtod_decimal readU8_def)
qed

lemma readU16_decimal: "readU16 (Some (cjson_of (JNumber (decimal (unat b))))) = Some b"
proof -
  have "unat b < 65536" using unsigned_less [of b, where ?'a = nat] by simp
  then show ?thesis by (simp add: strtod_decimal readU16_def)
qed

lemma readU32_decimal: "b \<noteq> 0 \<Longrightarrow> readU32 (Some (cjson_of (JNumber (decimal (unat b))))) = Some b"
proof -
  assume "b \<noteq> 0"
  then have "unat b \<noteq> 0" by (simp add: unat_eq_zero)
  moreover have "unat b < 4294967296" using unsigned_less [of b, where ?'a = nat] by simp
  ultimately show ?thesis by (simp add: strtod_decimal readU32_def)
qed

lemma mac_of_fields_self: "mac_of_fields (map (\<lambda>x. of_nat (unat x)) [a, b, c, d, e, f]) = Some (a, b, c, d, e, f)"
proof -
  have u: "(of_nat (unat (x :: u8)) :: u32) = ucast x" for x by simp
  have "(ucast (x :: u8) :: u32) \<le> 255" for x
    using unsigned_less [of x, where ?'a = nat]
    by (simp add: word_le_nat_alt unsigned_ucast_eq take_bit_nat_eq_self)
  moreover have "(ucast (ucast (x :: u8) :: u32) :: u8) = x" for x
    by transfer simp
  ultimately show ?thesis by (simp add: mac_of_fields_def u)
qed

lemma mqtt_parseMac_text: "mqtt_parseMac (Some (mac_text mac @ r)) = Some mac"
  by (cases mac) (simp add: mqtt_parseMac_def scan_mac mac_of_fields_self del: list.map of_nat_unat)

lemma mqtt_parseMode_text: "named_mode v \<Longrightarrow> mqtt_parseMode (Some (loadModeText v)) = Some v"
  by (cases v) (simp_all add: mqtt_parseMode_def named_mode_def)

lemma json_string_no_nul: "json_string s \<Longrightarrow> no_nul s"
  by (auto simp: json_string_def no_nul_def list_all_iff)

lemma lookup_member:
  "cJSON_GetObjectItemCaseSensitive (cjson_of (JObject ms)) k = map_option cjson_of (map_of ms k)"
  by (simp add: map_of_map)

definition number_json :: "nat \<Rightarrow> json" where
  "number_json n = JNumber (decimal n)"

definition schedule_json :: "AutoSchedule \<Rightarrow> json" where
  "schedule_json s =
     JObject (if enabled s
       then [(''enabled'', JBool True), (''startHour'', number_json (unat (startHour s))),
             (''startMinute'', number_json (unat (startMinute s))), (''endHour'', number_json (unat (endHour s))),
             (''endMinute'', number_json (unat (endMinute s)))]
       else [(''enabled'', JBool False)])"

text \<open>A change of a Load's settings, written with the texts of the published state.\<close>

definition load_update_json :: "u32 \<Rightarrow> LoadCommandRequest \<Rightarrow> json" where
  "load_update_json commandId r =
     JObject ([(''type'', JString ''load''), (''action'', JString ''update''),
        (''commandId'', number_json (unat commandId)),
        (''nodeMac'', JString (mac_text (lc_nodeMacAddress r))),
        (''relayPin'', number_json (unat (lc_relayPin r)))] @
       (case lc_priority r of None \<Rightarrow> [] | Some p \<Rightarrow> [(''priority'', number_json (unat p))]) @
       (case lc_mode r of None \<Rightarrow> [] | Some v \<Rightarrow> [(''mode'', JString (loadModeText v))]) @
       (case lc_schedule r of None \<Rightarrow> [] | Some s \<Rightarrow> [(''schedule'', schedule_json s)]))"

lemmas reads_number = readU8_decimal [folded number_json_def] readU16_decimal [folded number_json_def]
  readU32_decimal [folded number_json_def]

lemma mqtt_parseSchedule_json:
  assumes "schedule_request s"
  shows "mqtt_parseSchedule (Some (cjson_of (schedule_json s))) = Some s"
proof (cases "enabled s")
  case True
  then have v: "schedule_valid s" using assms by (auto simp: schedule_request_def)
  then have "times_in_range s" "startHour s \<noteq> endHour s \<or> startMinute s \<noteq> endMinute s"
    using True by (auto simp: schedule_valid_def split: if_splits)
  moreover have "AutoSchedule5 True (startHour s) (startMinute s) (endHour s) (endMinute s) = s"
    using True by (cases s) (simp add: AutoSchedule5_def)
  ultimately show ?thesis
    unfolding mqtt_parseSchedule_def schedule_json_def option.case Let_def lookup_member
    by (simp add: True reads_number cJSON_IsBool_def cJSON_IsTrue_def times_in_range_def del: cjson_of.simps(3))
next
  case False
  then have "s = no_schedule" using assms by (auto simp: schedule_request_def)
  then show ?thesis by (simp add: mqtt_parseSchedule_def schedule_json_def cJSON_IsBool_def cJSON_IsTrue_def)
qed

lemma load_update_members:
  "map_of (case load_update_json commandId r of JObject ms \<Rightarrow> ms | _ \<Rightarrow> []) k =
    (if k = ''type'' then Some (JString ''load'') else if k = ''action'' then Some (JString ''update'')
     else if k = ''commandId'' then Some (number_json (unat commandId))
     else if k = ''nodeMac'' then Some (JString (mac_text (lc_nodeMacAddress r)))
     else if k = ''relayPin'' then Some (number_json (unat (lc_relayPin r)))
     else if k = ''priority'' then map_option (\<lambda>p. number_json (unat p)) (lc_priority r)
     else if k = ''mode'' then map_option (\<lambda>v. JString (loadModeText v)) (lc_mode r)
     else if k = ''schedule'' then map_option schedule_json (lc_schedule r) else None)"
  by (auto simp: load_update_json_def split: option.splits)

lemma load_update_get:
  "cJSON_GetObjectItemCaseSensitive (cjson_of (load_update_json commandId r)) k =
   map_option cjson_of (map_of (case load_update_json commandId r of JObject ms \<Rightarrow> ms | _ \<Rightarrow> []) k)"
proof -
  obtain ms where ms: "load_update_json commandId r = JObject ms" by (simp add: load_update_json_def)
  show ?thesis unfolding ms json.case by (rule lookup_member)
qed

lemma loadCommand_json:
  assumes "commandId \<noteq> 0" and "request_ok (ForLoad r)"
  shows "loadCommand (cjson_of (load_update_json commandId r)) =
    Inr (commandId, mac_text (lc_nodeMacAddress r), ForLoad r)"
proof -
  have p: "optional e readU16 (map_option (\<lambda>p. cjson_of (number_json (unat p))) (lc_priority r)) = Inr (lc_priority r)" for e :: refusal
    by (cases "lc_priority r") (simp_all add: optional_def reads_number del: cjson_of.simps)
  have v: "optional e (\<lambda>i. mqtt_parseMode (valuestring i)) (map_option (\<lambda>v. CString (loadModeText v)) (lc_mode r)) = Inr (lc_mode r)"
    for e :: refusal
    using assms(2) by (cases "lc_mode r") (simp_all add: optional_def mqtt_parseMode_text)
  have s: "optional e mqtt_parseSchedule (map_option (\<lambda>s. cjson_of (schedule_json s)) (lc_schedule r)) = Inr (lc_schedule r)"
    for e :: refusal
    using assms(2) by (cases "lc_schedule r") (simp_all add: optional_def mqtt_parseSchedule_json del: cjson_of.simps)
  have mac: "mqtt_parseMac (Some (mac_text (lc_nodeMacAddress r))) = Some (lc_nodeMacAddress r)"
    using mqtt_parseMac_text [of _ "[]"] by simp
  show ?thesis
    using assms(2)
    by (simp add: loadCommand_def loadUpdate_def Let_def load_update_get load_update_members option.map_comp comp_def
        reads_number assms(1) mac p v s)
qed

lemma no_nul_mode: "no_nul (loadModeText v)"
  by (cases v) (simp_all add: no_nul_def)

lemma number_storable: "storable d (number_json n)"
  by (simp add: number_json_def)

lemma schedule_storable: "d < CJSON_NESTING_LIMIT \<Longrightarrow> storable d (schedule_json s)"
  by (simp add: schedule_json_def number_storable no_nul_def)

lemma load_update_storable: "storable 0 (load_update_json commandId r)"
  by (auto simp: load_update_json_def number_storable schedule_storable no_nul_mode json_string_no_nul
      CJSON_NESTING_LIMIT_def split: option.splits) (simp_all add: no_nul_def)

text \<open>
  C15: A change of a Load's settings reaches Central as it was meant. A client that writes the
  command with the texts of the published state, whatever settings it leaves out, has Central's
  load handler called with exactly that request, and the acknowledgement carries the command's
  identifier, the handler's result and the Node's address.
\<close>

theorem mqtt_load_update_carried_out:
  assumes "commandId \<noteq> 0" and "request_ok (ForLoad r)"
    and "handleLoadCommand pf r c = (result, c')"
  shows "onDataReceived client (centralHandlers pf now) (fullTopic ''command'' m) (render (load_update_json commandId r)) m c =
    (publishAcknowledgement client commandId ''load'' (resultStatus result) (reason result)
       (mac_text (lc_nodeMacAddress r)) m, c')"
  using assms(3)
  by (simp add: onDataReceived_def handleCommandMessage_def cJSON_reads_render [OF load_update_storable]
      load_update_get load_update_members loadCommand_json [OF assms(1,2)] answerCommand_def callHandler_def
      centralHandlers_def)

theorem mqtt_load_update_carried_out_witness:
  "fst (onDataReceived (\<lambda>_. True) (centralHandlers example_platform 0) (fullTopic ''command'' connected_manager)
      (render (load_update_json 7 \<lparr>lc_nodeMacAddress = (2, 0, 0, 0, 0, 9), lc_relayPin = 16, lc_priority = Some 3,
         lc_mode = Some AUTO_ON, lc_schedule = Some no_schedule\<rparr>)) connected_manager quiet_central) =
   publishAcknowledgement (\<lambda>_. True) 7 ''load'' ACK_REJECTED ''unknown or unavailable Load'' (mac_text (2, 0, 0, 0, 0, 9))
     connected_manager"
proof -
  let ?r = "\<lparr>lc_nodeMacAddress = (2, 0, 0, 0, 0, 9), lc_relayPin = 16, lc_priority = Some 3,
    lc_mode = Some AUTO_ON, lc_schedule = Some no_schedule\<rparr>"
  have h: "handleLoadCommand example_platform ?r quiet_central =
      (commandResult False False ''unknown or unavailable Load'', quiet_central)"
  proof -
    have "findMutableLoad mac pin (registry quiet_central) = None" for mac pin
      by (simp add: quiet_central_def new_Central_def findMutableLoad_def findNodeByMacAddress_def)
    then show ?thesis by (simp add: handleLoadCommand_def)
  qed
  have ok: "request_ok (ForLoad ?r)" by (simp add: schedule_request_def named_mode_def)
  show ?thesis
    using mqtt_load_update_carried_out [OF _ ok h, of 7] by (simp add: resultStatus_def commandResult_def copyTruncated_def c_text_def)
qed

section \<open>The acknowledgement is JSON\<close>

definition text_json :: "string \<Rightarrow> json" where
  "text_json s = (if c_text s = [] then JNull else JString (c_text s))"

definition acknowledgement_json :: "MqttManager \<Rightarrow> u32 \<Rightarrow> string \<Rightarrow> AckStatus \<Rightarrow> string \<Rightarrow> string \<Rightarrow> json" where
  "acknowledgement_json m commandId kind status why target =
     JObject [(''schemaVersion'', number_json (unat (mqtt_schemaVersion m))),
              (''commandId'', number_json (unat commandId)), (''commandType'', text_json kind),
              (''status'', JString (ackText status)), (''reason'', text_json why), (''target'', text_json target)]"

lemma text_json_render: "appendJsonString out s = out @ render (text_json s)"
  by (simp add: appendJsonString_def text_json_def appendString_def)

lemma ack_text_quoted: "in_quotes (ackText status) = quoted (ackText status)"
  by (cases status) (simp_all add: in_quotes_def quoted_def escape_char_def)

lemma text_json_ok: "json_string s \<Longrightarrow> json_ok (text_json s)"
  by (auto simp: text_json_def json_string_def c_text_def list_all_iff dest: set_takeWhileD)

lemma acknowledgement_render:
  "mqtt_connected m \<Longrightarrow>
   publishAcknowledgement client commandId kind status why target m =
   [\<lparr>pub_topic = fullTopic ''ack'' m, pub_payload = render (acknowledgement_json m commandId kind status why target),
     pub_qos = 1, pub_retain = False\<rparr>]"
  by (simp add: publishAcknowledgement_def publishRaw_def Let_def text_json_render acknowledgement_json_def
      number_json_def json_key_quoted ack_text_quoted)

text \<open>
  Every acknowledgement is a JSON object, which a JSON reader and cJSON read back to the
  identifier of the command, its type, the status, the reason and the target, an absent text
  being null, as long as the texts have no control characters, which the texts of the firmware
  have not.
\<close>

theorem acknowledgement_reads_back:
  assumes "mqtt_connected m" and "list_all json_string [kind, why, target]"
    and "publishAcknowledgement client commandId kind status why target m = [p]"
  shows "parse_json (pub_payload p) = Some (acknowledgement_json m commandId kind status why target) \<and>
    cJSON_GetObjectItemCaseSensitive (the (cJSON_ParseWithLength (pub_payload p))) ''commandId'' =
      Some (CNumber (whole_double (unat commandId)))"
proof -
  let ?v = "acknowledgement_json m commandId kind status why target"
  have p: "pub_payload p = render ?v" using acknowledgement_render [OF assms(1)] assms(3) by auto
  have "json_ok ?v" using assms(2)
    by (cases status) (simp_all add: acknowledgement_json_def text_json_ok number_json_def json_string_def [of "_ # _"] json_string_def [of "[]"])
  moreover have "storable 0 ?v"
    using assms(2) by (cases status) (auto simp: acknowledgement_json_def text_json_def number_storable no_nul_def
      c_text_def CJSON_NESTING_LIMIT_def dest: set_takeWhileD)
  moreover have "cJSON_GetObjectItemCaseSensitive (cjson_of ?v) ''commandId'' = Some (CNumber (whole_double (unat commandId)))"
    using unsigned_less [of commandId, where ?'a = nat]
    by (simp add: acknowledgement_json_def number_json_def strtod_decimal)
  ultimately show ?thesis unfolding p using parse_render cJSON_reads_render by simp
qed

theorem acknowledgement_reads_back_witness:
  "\<exists>p. publishAcknowledgement (\<lambda>_. False) 9 ''node'' ACK_REJECTED ''name required'' [] connected_manager = [p] \<and>
     parse_json (pub_payload p) = Some (JObject [(''schemaVersion'', JNumber (decimal 5)), (''commandId'', JNumber (decimal 9)),
       (''commandType'', JString ''node''), (''status'', JString ''REJECTED''), (''reason'', JString ''name required''),
       (''target'', JNull)])"
proof -
  have m: "mqtt_connected connected_manager" by (simp add: connected_manager_def)
  obtain p where p: "publishAcknowledgement (\<lambda>_. False) 9 ''node'' ACK_REJECTED ''name required'' [] connected_manager = [p]"
    using acknowledgement_render [OF m] by blast
  have t: "list_all json_string [''node'', ''name required'', []]" by (simp add: json_string_def)
  show ?thesis using acknowledgement_reads_back [OF m t p] p
    by (simp add: acknowledgement_json_def text_json_def c_text_def number_json_def connected_manager_def)
qed

end
