(* ===== verification/Device_Settings.thy ===== *)
theory Device_Settings
  imports Lifecycle
begin

text \<open>
  The settings the installer gives a device, each in an NVS namespace of its own: the Wi-Fi and
  MQTT credentials (\<open>lib/WiFiManager/WiFiCredentialsStore.cpp\<close>,
  \<open>lib/MqttManager/MqttCredentialsStore.cpp\<close>) and the shared radio channel
  (\<open>RadioChannelStore.cpp\<close>). The firmware build is modelled (\<open>ESP_PLATFORM\<close>). The three stores meet one interface, \<open>stored_setting\<close>: what is loaded is what
  the last successful operation left.
\<close>

section \<open>The storage operations these stores add\<close>

record 'n SettingsApi =
  plain_nvs :: "'n NvsApi"
  nvs_get_u16 :: "'n \<Rightarrow> string \<Rightarrow> u16 option"
  nvs_get_i64 :: "'n \<Rightarrow> string \<Rightarrow> i64 option"
  nvs_set_u16 :: "string \<Rightarrow> u16 \<Rightarrow> 'n \<Rightarrow> bool \<times> 'n"
  nvs_set_i64 :: "string \<Rightarrow> i64 \<Rightarrow> 'n \<Rightarrow> bool \<times> 'n"
  nvs_erase_all :: "'n \<Rightarrow> bool \<times> 'n"

definition wide_same_but :: "'n SettingsApi \<Rightarrow> string \<Rightarrow> 'n \<Rightarrow> 'n \<Rightarrow> bool" where
  "wide_same_but api k n n' \<longleftrightarrow>
     (\<forall>k'. k' \<noteq> k \<longrightarrow>
        nvs_get_u16 api n' k' = nvs_get_u16 api n k' \<and> nvs_get_i64 api n' k' = nvs_get_i64 api n k')"

text \<open>
  The laws of \<open>nvs_laws\<close> for the wider integers, and erasing: a namespace that was erased has no
  value under any key.
\<close>

definition settings_laws :: "'n SettingsApi \<Rightarrow> bool" where
  "settings_laws api \<longleftrightarrow>
     nvs_laws (plain_nvs api) \<and>
     (\<forall>k v n n'. nvs_set_u16 api k v n = (True, n') \<longrightarrow>
        nvs_get_u16 api n' k = Some v \<and> wide_same_but api k n n' \<and>
        nvs_same_but (plain_nvs api) k n n' \<and> nvs_open_readonly (plain_nvs api) n') \<and>
     (\<forall>k v n n'. nvs_set_i64 api k v n = (True, n') \<longrightarrow>
        nvs_get_i64 api n' k = Some v \<and> wide_same_but api k n n' \<and>
        nvs_same_but (plain_nvs api) k n n' \<and> nvs_open_readonly (plain_nvs api) n') \<and>
     (\<forall>k v n n'. nvs_set_u8 (plain_nvs api) k v n = (True, n') \<longrightarrow> wide_same_but api k n n') \<and>
     (\<forall>k v n n'. nvs_set_str (plain_nvs api) k v n = (True, n') \<longrightarrow> wide_same_but api k n n') \<and>
     (\<forall>n n'. nvs_commit (plain_nvs api) n = (True, n') \<longrightarrow>
        (\<forall>k. nvs_get_u16 api n' k = nvs_get_u16 api n k \<and> nvs_get_i64 api n' k = nvs_get_i64 api n k)) \<and>
     (\<forall>n n'. nvs_erase_all api n = (True, n') \<longrightarrow>
        (\<forall>k. nvs_get_u8 (plain_nvs api) n' k = None \<and> nvs_get_str (plain_nvs api) n' k = None \<and>
             nvs_get_u16 api n' k = None \<and> nvs_get_i64 api n' k = None))"

lemma settings_lawsD:
  assumes "settings_laws api"
  shows "nvs_laws (plain_nvs api)"
    "nvs_set_u16 api k v n = (True, n') \<Longrightarrow> nvs_get_u16 api n' k = Some v \<and> wide_same_but api k n n' \<and>
       nvs_same_but (plain_nvs api) k n n' \<and> nvs_open_readonly (plain_nvs api) n'"
    "nvs_set_i64 api k w n = (True, n') \<Longrightarrow> nvs_get_i64 api n' k = Some w \<and> wide_same_but api k n n' \<and>
       nvs_same_but (plain_nvs api) k n n' \<and> nvs_open_readonly (plain_nvs api) n'"
    "nvs_set_u8 (plain_nvs api) k b n = (True, n') \<Longrightarrow> wide_same_but api k n n'"
    "nvs_set_str (plain_nvs api) k s n = (True, n') \<Longrightarrow> wide_same_but api k n n'"
    "nvs_commit (plain_nvs api) n = (True, n') \<Longrightarrow>
       nvs_get_u16 api n' k = nvs_get_u16 api n k \<and> nvs_get_i64 api n' k = nvs_get_i64 api n k"
    "nvs_erase_all api n = (True, n') \<Longrightarrow> nvs_get_u8 (plain_nvs api) n' k = None \<and>
       nvs_get_str (plain_nvs api) n' k = None \<and> nvs_get_u16 api n' k = None \<and> nvs_get_i64 api n' k = None"
  using assms by (simp_all add: settings_laws_def)

text \<open>Storage in memory that never fails; a number and a text may be kept under the same key.\<close>

type_synonym ram = "(string \<Rightarrow> nvs_value option) \<times> (string \<Rightarrow> u16 option) \<times> (string \<Rightarrow> i64 option)"

definition ram_settings :: "ram SettingsApi" where
  "ram_settings =
     \<lparr>plain_nvs =
       \<lparr>nvs_open_readonly = (\<lambda>n. True), nvs_open_readwrite = (\<lambda>n. True),
        nvs_get_u8 = nvs_get_u8 ram_nvs \<circ> fst, nvs_get_u32 = nvs_get_u32 ram_nvs \<circ> fst,
        nvs_get_str = nvs_get_str ram_nvs \<circ> fst, nvs_get_blob = nvs_get_blob ram_nvs \<circ> fst,
        nvs_not_found = nvs_not_found ram_nvs \<circ> fst,
        nvs_set_u8 = (\<lambda>k v n. (True, apfst (\<lambda>m. m(k \<mapsto> NvsU8 v)) n)),
        nvs_set_u32 = (\<lambda>k v n. (True, apfst (\<lambda>m. m(k \<mapsto> NvsU32 v)) n)),
        nvs_set_str = (\<lambda>k v n. (True, apfst (\<lambda>m. m(k \<mapsto> NvsStr v)) n)),
        nvs_set_blob = (\<lambda>k v n. (True, apfst (\<lambda>m. m(k \<mapsto> NvsBlob v)) n)),
        nvs_erase_key = (\<lambda>k n. if fst n k = None then (False, n) else (True, apfst (\<lambda>m. m(k := None)) n)),
        nvs_commit = (\<lambda>n. (True, n))\<rparr>,
      nvs_get_u16 = (\<lambda>n. fst (snd n)), nvs_get_i64 = (\<lambda>n. snd (snd n)),
      nvs_set_u16 = (\<lambda>k v (m, a, b). (True, (m, a(k \<mapsto> v), b))),
      nvs_set_i64 = (\<lambda>k v (m, a, b). (True, (m, a, b(k \<mapsto> v)))),
      nvs_erase_all = (\<lambda>n. (True, (\<lambda>_. None, \<lambda>_. None, \<lambda>_. None)))\<rparr>"

lemma ram_settings_laws: "settings_laws ram_settings"
  by (simp add: settings_laws_def nvs_laws_def ram_settings_def ram_nvs_def nvs_same_but_def
      wide_same_but_def split_beta)

section \<open>Wi-Fi credentials\<close>

definition SSID_BUFFER_SIZE :: nat where "SSID_BUFFER_SIZE = 33"
definition PASSWORD_BUFFER_SIZE :: nat where "PASSWORD_BUFFER_SIZE = 65"

record WiFiCredentials =
  cred_ssid :: string
  cred_password :: string

definition wifi_load :: "'n SettingsApi \<Rightarrow> 'n \<Rightarrow> WiFiCredentials option" where
  "wifi_load api n =
     (let nvs = plain_nvs api in
      if \<not> nvs_open_readonly nvs n then None
      else case nvs_get_str_into nvs n ''ssid'' SSID_BUFFER_SIZE of
        None \<Rightarrow> None
      | Some ssid \<Rightarrow>
          if ssid = [] then None
          else Some \<lparr>cred_ssid = ssid,
            cred_password = (case nvs_get_str_into nvs n ''password'' PASSWORD_BUFFER_SIZE of
               None \<Rightarrow> [] | Some password \<Rightarrow> password)\<rparr>)"

definition text_or_empty :: "c_str \<Rightarrow> string" where
  "text_or_empty s = (case s of None \<Rightarrow> [] | Some t \<Rightarrow> c_text t)"

definition wifi_save :: "'n SettingsApi \<Rightarrow> c_str \<Rightarrow> c_str \<Rightarrow> 'n \<Rightarrow> bool \<times> 'n" where
  "wifi_save api ssid password n =
     (let nvs = plain_nvs api in
      if text_or_empty ssid = [] \<or> SSID_BUFFER_SIZE \<le> length (text_or_empty ssid) then (False, n)
      else if PASSWORD_BUFFER_SIZE \<le> length (text_or_empty password) then (False, n)
      else if \<not> nvs_open_readwrite nvs n then (False, n)
      else nvs_then (nvs_then (nvs_set_str nvs ''ssid'' (text_or_empty ssid) n)
             (nvs_set_str nvs ''password'' (text_or_empty password)))
             (nvs_commit nvs))"

definition wifi_isConfigured :: "'n SettingsApi \<Rightarrow> 'n \<Rightarrow> bool" where
  "wifi_isConfigured api n \<longleftrightarrow> wifi_load api n \<noteq> None"

text \<open>The same in all three stores. The result of \<open>nvs_erase_all\<close> is not looked at.\<close>

definition clear_namespace :: "'n SettingsApi \<Rightarrow> 'n \<Rightarrow> bool \<times> 'n" where
  "clear_namespace api n =
     (if \<not> nvs_open_readwrite (plain_nvs api) n then (False, n)
      else nvs_commit (plain_nvs api) (snd (nvs_erase_all api n)))"

section \<open>MQTT credentials\<close>

definition HOST_BUFFER_SIZE :: nat where "HOST_BUFFER_SIZE = 128"
definition USERNAME_BUFFER_SIZE :: nat where "USERNAME_BUFFER_SIZE = 65"

record MqttCredentials =
  cred_host :: string
  cred_port :: u16
  cred_useTls :: bool
  cred_username :: string
  cred_brokerPassword :: string

definition mqtt_load :: "'n SettingsApi \<Rightarrow> 'n \<Rightarrow> MqttCredentials option" where
  "mqtt_load api n =
     (let nvs = plain_nvs api; text = (\<lambda>r. case r of None \<Rightarrow> [] | Some s \<Rightarrow> s) in
      if \<not> nvs_open_readonly nvs n then None
      else case (nvs_get_str_into nvs n ''host'' HOST_BUFFER_SIZE, nvs_get_u16 api n ''port'') of
        (Some host, Some port) \<Rightarrow>
          if host = [] \<or> port = 0 then None
          else Some
            \<lparr>cred_host = host, cred_port = port,
             cred_useTls = (case nvs_get_u8 nvs n ''useTls'' of None \<Rightarrow> False | Some b \<Rightarrow> b \<noteq> 0),
             cred_username = text (nvs_get_str_into nvs n ''username'' USERNAME_BUFFER_SIZE),
             cred_brokerPassword = text (nvs_get_str_into nvs n ''password'' PASSWORD_BUFFER_SIZE)\<rparr>
      | _ \<Rightarrow> None)"

definition mqtt_save ::
  "'n SettingsApi \<Rightarrow> c_str \<Rightarrow> u16 \<Rightarrow> bool \<Rightarrow> c_str \<Rightarrow> c_str \<Rightarrow> 'n \<Rightarrow> bool \<times> 'n" where
  "mqtt_save api host port useTls username password n =
     (let nvs = plain_nvs api in
      if text_or_empty host = [] \<or> HOST_BUFFER_SIZE \<le> length (text_or_empty host) \<or> port = 0 then (False, n)
      else if USERNAME_BUFFER_SIZE \<le> length (text_or_empty username) then (False, n)
      else if PASSWORD_BUFFER_SIZE \<le> length (text_or_empty password) then (False, n)
      else if \<not> nvs_open_readwrite nvs n then (False, n)
      else
        nvs_then (nvs_then (nvs_then (nvs_then (nvs_then
          (nvs_set_str nvs ''host'' (text_or_empty host) n)
          (nvs_set_u16 api ''port'' port))
          (nvs_set_u8 nvs ''useTls'' (bool_byte useTls)))
          (nvs_set_str nvs ''username'' (text_or_empty username)))
          (nvs_set_str nvs ''password'' (text_or_empty password)))
          (nvs_commit nvs))"

section \<open>Radio channel\<close>

definition isValidChannel :: "u8 \<Rightarrow> bool" where
  "isValidChannel channel \<longleftrightarrow> 1 \<le> channel \<and> channel \<le> 14"

definition channel_load :: "'n SettingsApi \<Rightarrow> 'n \<Rightarrow> u8 option" where
  "channel_load api n =
     (if \<not> nvs_open_readonly (plain_nvs api) n then None
      else case nvs_get_u8 (plain_nvs api) n ''channel'' of
        None \<Rightarrow> None
      | Some stored \<Rightarrow> if isValidChannel stored then Some stored else None)"

definition channel_save :: "'n SettingsApi \<Rightarrow> u8 \<Rightarrow> 'n \<Rightarrow> bool \<times> 'n" where
  "channel_save api channel n =
     (if \<not> isValidChannel channel then (False, n)
      else if \<not> nvs_open_readwrite (plain_nvs api) n then (False, n)
      else nvs_then (nvs_set_u8 (plain_nvs api) ''channel'' channel n) (nvs_commit (plain_nvs api)))"

section \<open>A stored setting\<close>

datatype 'v setting_op = Save_Setting 'v | Clear_Setting

fun setting_run :: "('v \<Rightarrow> 'n \<Rightarrow> bool \<times> 'n) \<Rightarrow> ('n \<Rightarrow> bool \<times> 'n) \<Rightarrow> 'v setting_op list \<Rightarrow> 'n \<Rightarrow> bool list \<times> 'n" where
  "setting_run save clear [] n = ([], n)"
| "setting_run save clear (op # ops) n =
     (case (case op of Save_Setting v \<Rightarrow> save v n | Clear_Setting \<Rightarrow> clear n) of
        (ok, n1) \<Rightarrow> apfst ((#) ok) (setting_run save clear ops n1))"

definition left_by :: "('v \<Rightarrow> 'w) \<Rightarrow> 'v setting_op \<Rightarrow> 'w option" where
  "left_by kept op = (case op of Save_Setting v \<Rightarrow> Some (kept v) | Clear_Setting \<Rightarrow> None)"

text \<open>
  What a store promises, over any storage that keeps the laws and where erasing works: a value
  whose saving succeeded is loaded, and nothing is loaded after a successful clear.
\<close>

locale stored_setting =
  fixes load :: "'n SettingsApi \<Rightarrow> 'n \<Rightarrow> 'w option"
    and save :: "'n SettingsApi \<Rightarrow> 'v \<Rightarrow> 'n \<Rightarrow> bool \<times> 'n"
    and clear :: "'n SettingsApi \<Rightarrow> 'n \<Rightarrow> bool \<times> 'n"
    and kept :: "'v \<Rightarrow> 'w"
  assumes load_saved: "settings_laws api \<Longrightarrow> save api v n = (True, n') \<Longrightarrow> load api n' = Some (kept v)"
    and load_cleared:
      "settings_laws api \<Longrightarrow> fst (nvs_erase_all api n) \<Longrightarrow> clear api n = (True, n') \<Longrightarrow> load api n' = None"
begin

lemma load_after_run:
  assumes "settings_laws api" "\<And>n. fst (nvs_erase_all api n)"
    "setting_run (save api) (clear api) (ops @ [op]) n = (oks, n')" "last oks"
  shows "load api n' = left_by kept op"
  using assms(3,4)
proof (induction ops arbitrary: n oks)
  case Nil
  then show ?case
    by (auto simp: left_by_def dest: load_saved [OF assms(1)] load_cleared [OF assms(1,2)]
        split: setting_op.splits prod.splits)
next
  case (Cons a ops)
  have some: "fst (setting_run (save api) (clear api) (ops @ [op]) n1) \<noteq> []" for n1
    by (cases ops) (auto split: prod.splits)
  obtain ok n1 where a: "(case a of Save_Setting v \<Rightarrow> save api v n | Clear_Setting \<Rightarrow> clear api n) = (ok, n1)"
    by fastforce
  obtain oks1 n2 where r: "setting_run (save api) (clear api) (ops @ [op]) n1 = (oks1, n2)" by fastforce
  with Cons.prems(1) have s: "setting_run (save api) (clear api) (ops @ [op]) n1 = (oks1, n')" "oks = ok # oks1"
    by (simp_all add: a)
  then have "last oks1" using Cons.prems(2) some [of n1] by (auto split: if_splits)
  with s(1) show ?case by (rule Cons.IH)
qed

end

text \<open>The three stores.\<close>

definition kept_wifi :: "WiFiCredentials \<Rightarrow> WiFiCredentials" where
  "kept_wifi v = \<lparr>cred_ssid = c_text (cred_ssid v), cred_password = c_text (cred_password v)\<rparr>"

definition kept_mqtt :: "MqttCredentials \<Rightarrow> MqttCredentials" where
  "kept_mqtt v = \<lparr>cred_host = c_text (cred_host v), cred_port = cred_port v, cred_useTls = cred_useTls v,
     cred_username = c_text (cred_username v), cred_brokerPassword = c_text (cred_brokerPassword v)\<rparr>"

definition save_wifi :: "'n SettingsApi \<Rightarrow> WiFiCredentials \<Rightarrow> 'n \<Rightarrow> bool \<times> 'n" where
  "save_wifi api v = wifi_save api (Some (cred_ssid v)) (Some (cred_password v))"

definition save_mqtt :: "'n SettingsApi \<Rightarrow> MqttCredentials \<Rightarrow> 'n \<Rightarrow> bool \<times> 'n" where
  "save_mqtt api v = mqtt_save api (Some (cred_host v)) (cred_port v) (cred_useTls v)
     (Some (cred_username v)) (Some (cred_brokerPassword v))"

lemma cleared_values:
  assumes laws: "settings_laws api" and erased: "fst (nvs_erase_all api n)"
    and cleared: "clear_namespace api n = (True, n')"
  shows "nvs_get_u8 (plain_nvs api) n' k = None" "nvs_get_str (plain_nvs api) n' k = None"
    "nvs_get_u16 api n' k = None"
proof -
  obtain n1 where e: "nvs_erase_all api n = (True, n1)" using erased by (cases "nvs_erase_all api n") simp
  then have c: "nvs_commit (plain_nvs api) n1 = (True, n')"
    using cleared by (simp add: clear_namespace_def split: if_splits)
  note l = settings_lawsD(7) [OF laws e, of k] nvs_commitD [OF settings_lawsD(1) [OF laws] c, of k]
    settings_lawsD(6) [OF laws c, of k]
  show "nvs_get_u8 (plain_nvs api) n' k = None" "nvs_get_str (plain_nvs api) n' k = None"
    "nvs_get_u16 api n' k = None" using l by simp_all
qed

lemmas write_facts = nvs_same_but_def wide_same_but_def

interpretation wifi_store: stored_setting wifi_load save_wifi clear_namespace kept_wifi
proof
  fix api :: "'a SettingsApi" and v n n'
  assume laws: "settings_laws api" and saved: "save_wifi api v n = (True, n')"
  let ?nvs = "plain_nvs api"
  obtain n1 n2 where w: "nvs_set_str ?nvs ''ssid'' (c_text (cred_ssid v)) n = (True, n1)"
    "nvs_set_str ?nvs ''password'' (c_text (cred_password v)) n1 = (True, n2)" "nvs_commit ?nvs n2 = (True, n')"
    and fits: "c_text (cred_ssid v) \<noteq> []" "length (c_text (cred_ssid v)) < SSID_BUFFER_SIZE"
    "length (c_text (cred_password v)) < PASSWORD_BUFFER_SIZE"
    using saved by (auto simp: save_wifi_def wifi_save_def text_or_empty_def Let_def nvs_then_True split: if_splits)
  note d = nvs_set_strD [OF settings_lawsD(1) [OF laws] w(1)] nvs_set_strD [OF settings_lawsD(1) [OF laws] w(2)]
    nvs_commitD [OF settings_lawsD(1) [OF laws] w(3)]
  have "nvs_get_str ?nvs n' ''ssid'' = Some (c_text (cred_ssid v))"
    "nvs_get_str ?nvs n' ''password'' = Some (c_text (cred_password v))" "nvs_open_readonly ?nvs n'"
    using d by (simp_all add: write_facts)
  then show "wifi_load api n' = Some (kept_wifi v)"
    using fits by (simp add: wifi_load_def nvs_get_str_into_def kept_wifi_def)
next
  fix api :: "'a SettingsApi" and n n'
  assume c: "settings_laws api" "fst (nvs_erase_all api n)" "clear_namespace api n = (True, n')"
  show "wifi_load api n' = None"
    by (simp add: wifi_load_def Let_def nvs_get_str_into_def cleared_values [OF c])
qed

interpretation mqtt_store: stored_setting mqtt_load save_mqtt clear_namespace kept_mqtt
proof
  fix api :: "'a SettingsApi" and v n n'
  assume laws: "settings_laws api" and saved: "save_mqtt api v n = (True, n')"
  let ?nvs = "plain_nvs api"
  obtain n1 n2 n3 n4 n5 where w: "nvs_set_str ?nvs ''host'' (c_text (cred_host v)) n = (True, n1)"
    "nvs_set_u16 api ''port'' (cred_port v) n1 = (True, n2)"
    "nvs_set_u8 ?nvs ''useTls'' (bool_byte (cred_useTls v)) n2 = (True, n3)"
    "nvs_set_str ?nvs ''username'' (c_text (cred_username v)) n3 = (True, n4)"
    "nvs_set_str ?nvs ''password'' (c_text (cred_brokerPassword v)) n4 = (True, n5)"
    "nvs_commit ?nvs n5 = (True, n')"
    and fits: "c_text (cred_host v) \<noteq> []" "length (c_text (cred_host v)) < HOST_BUFFER_SIZE" "cred_port v \<noteq> 0"
    "length (c_text (cred_username v)) < USERNAME_BUFFER_SIZE"
    "length (c_text (cred_brokerPassword v)) < PASSWORD_BUFFER_SIZE"
    using saved by (auto simp: save_mqtt_def mqtt_save_def text_or_empty_def Let_def nvs_then_True split: if_splits)
  note n = settings_lawsD(1) [OF laws]
  note d = nvs_set_strD [OF n w(1)] settings_lawsD(2) [OF laws w(2)] nvs_set_u8D [OF n w(3)]
    settings_lawsD(4) [OF laws w(3)] nvs_set_strD [OF n w(4)] settings_lawsD(5) [OF laws w(4)]
    nvs_set_strD [OF n w(5)] settings_lawsD(5) [OF laws w(5)] nvs_commitD [OF n w(6)] settings_lawsD(6) [OF laws w(6)]
  have "nvs_get_str ?nvs n' ''host'' = Some (c_text (cred_host v))"
    "nvs_get_u16 api n' ''port'' = Some (cred_port v)"
    "nvs_get_u8 ?nvs n' ''useTls'' = Some (bool_byte (cred_useTls v))"
    "nvs_get_str ?nvs n' ''username'' = Some (c_text (cred_username v))"
    "nvs_get_str ?nvs n' ''password'' = Some (c_text (cred_brokerPassword v))" "nvs_open_readonly ?nvs n'"
    using d by (simp_all add: write_facts)
  then show "mqtt_load api n' = Some (kept_mqtt v)"
    using fits by (simp add: mqtt_load_def nvs_get_str_into_def kept_mqtt_def bool_byte_def)
next
  fix api :: "'a SettingsApi" and n n'
  assume c: "settings_laws api" "fst (nvs_erase_all api n)" "clear_namespace api n = (True, n')"
  show "mqtt_load api n' = None"
    by (simp add: mqtt_load_def Let_def nvs_get_str_into_def cleared_values [OF c])
qed

interpretation channel_store: stored_setting channel_load channel_save clear_namespace id
proof
  fix api :: "'a SettingsApi" and v n n'
  assume laws: "settings_laws api" and saved: "channel_save api v n = (True, n')"
  let ?nvs = "plain_nvs api"
  obtain n1 where w: "nvs_set_u8 ?nvs ''channel'' v n = (True, n1)" "nvs_commit ?nvs n1 = (True, n')"
    and v: "isValidChannel v"
    using saved by (auto simp: channel_save_def nvs_then_True split: if_splits)
  show "channel_load api n' = Some (id v)"
    using nvs_set_u8D [OF settings_lawsD(1) [OF laws] w(1)] nvs_commitD [OF settings_lawsD(1) [OF laws] w(2)] v
    by (simp add: channel_load_def)
next
  fix api :: "'a SettingsApi" and n n'
  assume c: "settings_laws api" "fst (nvs_erase_all api n)" "clear_namespace api n = (True, n')"
  show "channel_load api n' = None" by (simp add: channel_load_def cleared_values [OF c])
qed

text \<open>
  C37: After any sequence of saves and clears of the Wi-Fi credentials, of the MQTT credentials or
  of the radio channel, of which the last one reported success, what is loaded is what that last
  one left: the saved values, each text up to its NUL, or nothing after a clear; whatever the
  storage held before, and whether or not the earlier operations failed. Erasing the namespace
  must not fail, since its result is not looked at.
\<close>

theorem settings_read_back:
  assumes laws: "settings_laws api" "\<And>n. fst (nvs_erase_all api n)"
    and wifi: "setting_run (save_wifi api) (clear_namespace api) (ops1 @ [op1]) n1 = (oks1, n1')" "last oks1"
    and mqtt: "setting_run (save_mqtt api) (clear_namespace api) (ops2 @ [op2]) n2 = (oks2, n2')" "last oks2"
    and channel: "setting_run (channel_save api) (clear_namespace api) (ops3 @ [op3]) n3 = (oks3, n3')" "last oks3"
  shows "wifi_load api n1' = left_by kept_wifi op1 \<and> mqtt_load api n2' = left_by kept_mqtt op2 \<and>
    channel_load api n3' = left_by id op3"
  using wifi_store.load_after_run [OF laws wifi] mqtt_store.load_after_run [OF laws mqtt]
    channel_store.load_after_run [OF laws channel] by simp

text \<open>A password saved twice, a broker that is given and cleared, a channel refused and then saved.\<close>

definition blank_ram :: ram where
  "blank_ram = (\<lambda>_. None, \<lambda>_. None, \<lambda>_. None)"

theorem settings_read_back_witness:
  "wifi_load ram_settings (snd (setting_run (save_wifi ram_settings) (clear_namespace ram_settings)
      ([Save_Setting \<lparr>cred_ssid = ''Home'', cred_password = ''old''\<rparr>] @
       [Save_Setting \<lparr>cred_ssid = ''Home'', cred_password = ''new''\<rparr>]) blank_ram)) =
     left_by kept_wifi (Save_Setting \<lparr>cred_ssid = ''Home'', cred_password = ''new''\<rparr>) \<and>
   mqtt_load ram_settings (snd (setting_run (save_mqtt ram_settings) (clear_namespace ram_settings)
      ([Save_Setting \<lparr>cred_host = ''10.0.0.2'', cred_port = 1883, cred_useTls = False,
          cred_username = [], cred_brokerPassword = []\<rparr>] @ [Clear_Setting]) blank_ram)) =
     left_by kept_mqtt Clear_Setting \<and>
   channel_load ram_settings (snd (setting_run (channel_save ram_settings) (clear_namespace ram_settings)
      ([Save_Setting 15] @ [Save_Setting 11]) blank_ram)) = left_by id (Save_Setting 11)"
  by (rule settings_read_back [OF ram_settings_laws _ prod.collapse [symmetric] _ prod.collapse [symmetric] _
        prod.collapse [symmetric]])
    (simp_all add: save_wifi_def wifi_save_def save_mqtt_def mqtt_save_def channel_save_def isValidChannel_def
      clear_namespace_def text_or_empty_def SSID_BUFFER_SIZE_def PASSWORD_BUFFER_SIZE_def HOST_BUFFER_SIZE_def
      USERNAME_BUFFER_SIZE_def c_text_def Let_def ram_settings_def ram_nvs_def split_beta)

end
