(* ===== verification/Time_Provider.thy ===== *)
theory Time_Provider
  imports Device_Settings
begin

text \<open>
  Where the wall-clock time of a device comes from (\<open>lib/FirmwareManager/CurrentTimeProvider.cpp\<close>):
  the time mode kept across reboots, the source the clock was last set from, and the check of a
  date that is entered by hand. SNTP, the system clock and the flash driver are parameters.
\<close>

section \<open>Dates\<close>

record ManualDateTime =
  md_year :: u16
  md_month :: u8
  md_day :: u8
  md_hour :: u8
  md_minute :: u8
  md_second :: u8

definition isLeapYear :: "u16 \<Rightarrow> bool" where
  "isLeapYear year \<longleftrightarrow> (year mod 4 = 0 \<and> year mod 100 \<noteq> 0) \<or> year mod 400 = 0"

definition daysInMonth :: "u16 \<Rightarrow> u8 \<Rightarrow> u8" where
  "daysInMonth year month =
     (if month < 1 \<or> 12 < month then 0
      else if month = 2 \<and> isLeapYear year then 29
      else [31, 28, 31, 30, 31, 30, 31, 31, 30, 31, 30, 31] ! unat (month - 1))"

definition isManualDateTimeValid :: "ManualDateTime \<Rightarrow> bool" where
  "isManualDateTimeValid d \<longleftrightarrow>
     2000 \<le> md_year d \<and> md_year d \<le> 2099 \<and> 1 \<le> md_month d \<and> md_month d \<le> 12 \<and>
     1 \<le> md_day d \<and> md_day d \<le> daysInMonth (md_year d) (md_month d) \<and>
     md_hour d \<le> 23 \<and> md_minute d \<le> 59 \<and> md_second d \<le> 59"

section \<open>The provider\<close>

datatype TimeMode = AUTOMATIC | MANUAL
datatype TimeSource = SOURCE_NONE | SOURCE_NTP | SOURCE_MANUAL
datatype FlashResult = FLASH_OK | FLASH_NEEDS_ERASE | FLASH_FAILED

text \<open>What the platform answers; \<open>startSntp\<close> is the outcome of the three calls that start SNTP.\<close>

record 'n TimeApi =
  settings :: "'n SettingsApi"
  nvs_flash_init :: "'n \<Rightarrow> FlashResult"
  nvs_flash_erase :: "'n \<Rightarrow> bool \<times> 'n"
  mktime :: "ManualDateTime \<Rightarrow> i64 option"
  settimeofday :: "i64 \<Rightarrow> bool"

record 'n TimeProvider =
  time_initialized :: bool
  sntpActive :: bool
  timeMode :: TimeMode
  timeSource :: TimeSource
  systemClock :: "i64 option"
  time_nvs :: 'n

definition new_TimeProvider :: "'n \<Rightarrow> 'n TimeProvider" where
  "new_TimeProvider n =
     \<lparr>time_initialized = False, sntpActive = False, timeMode = AUTOMATIC, timeSource = SOURCE_NONE,
      systemClock = None, time_nvs = n\<rparr>"

definition mode_byte :: "TimeMode \<Rightarrow> u8" where
  "mode_byte m = (case m of AUTOMATIC \<Rightarrow> 0 | MANUAL \<Rightarrow> 1)"

definition initializeNonVolatileStorage :: "'n TimeApi \<Rightarrow> 'n \<Rightarrow> bool \<times> 'n" where
  "initializeNonVolatileStorage api n =
     (case nvs_flash_init api n of
        FLASH_OK \<Rightarrow> (True, n)
      | FLASH_FAILED \<Rightarrow> (False, n)
      | FLASH_NEEDS_ERASE \<Rightarrow>
          (case nvs_flash_erase api n of
             (False, n') \<Rightarrow> (False, n')
           | (True, n') \<Rightarrow> (nvs_flash_init api n' = FLASH_OK, n')))"

definition loadPersistedTimeMode :: "'n SettingsApi \<Rightarrow> 'n \<Rightarrow> TimeMode" where
  "loadPersistedTimeMode api n =
     (if \<not> nvs_open_readonly (plain_nvs api) n then AUTOMATIC
      else case nvs_get_u8 (plain_nvs api) n ''mode'' of
        None \<Rightarrow> AUTOMATIC
      | Some stored \<Rightarrow> if stored = mode_byte MANUAL then MANUAL else AUTOMATIC)"

definition persistTimeMode :: "'n SettingsApi \<Rightarrow> TimeMode \<Rightarrow> 'n \<Rightarrow> bool \<times> 'n" where
  "persistTimeMode api m n =
     (if \<not> nvs_open_readwrite (plain_nvs api) n then (False, n)
      else nvs_then (nvs_set_u8 (plain_nvs api) ''mode'' (mode_byte m) n) (nvs_commit (plain_nvs api)))"

definition persistLastManualEpochSeconds :: "'n SettingsApi \<Rightarrow> i64 \<Rightarrow> 'n \<Rightarrow> bool \<times> 'n" where
  "persistLastManualEpochSeconds api seconds n =
     (if \<not> nvs_open_readwrite (plain_nvs api) n then (False, n)
      else nvs_then (nvs_set_i64 api ''manual_ts'' seconds n) (nvs_commit (plain_nvs api)))"

definition startAutomaticSynchronization :: "bool \<Rightarrow> 'n TimeProvider \<Rightarrow> bool \<times> 'n TimeProvider" where
  "startAutomaticSynchronization sntpStarts p =
     (if sntpActive p then (True, p)
      else if \<not> sntpStarts then (False, p)
      else (True, p\<lparr>sntpActive := True\<rparr>))"

definition stopAutomaticSynchronization :: "'n TimeProvider \<Rightarrow> 'n TimeProvider" where
  "stopAutomaticSynchronization p = p\<lparr>sntpActive := False\<rparr>"

definition initializeTimeSynchronization ::
  "'n TimeApi \<Rightarrow> bool \<Rightarrow> 'n TimeProvider \<Rightarrow> bool \<times> 'n TimeProvider" where
  "initializeTimeSynchronization api sntpStarts p =
     (if time_initialized p then (True, p)
      else case initializeNonVolatileStorage api (time_nvs p) of
        (False, n) \<Rightarrow> (False, p\<lparr>time_nvs := n\<rparr>)
      | (True, n) \<Rightarrow>
          let p1 = p\<lparr>time_nvs := n, timeMode := loadPersistedTimeMode (settings api) n, timeSource := SOURCE_NONE\<rparr>;
              (result, p2) = (if timeMode p1 = AUTOMATIC then startAutomaticSynchronization sntpStarts p1
                              else (True, p1))
          in (result, p2\<lparr>time_initialized := True\<rparr>))"

definition setTimeMode :: "'n TimeApi \<Rightarrow> bool \<Rightarrow> TimeMode \<Rightarrow> 'n TimeProvider \<Rightarrow> bool \<times> 'n TimeProvider" where
  "setTimeMode api sntpStarts m p =
     (if timeMode p = m then (True, p)
      else case persistTimeMode (settings api) m (time_nvs p) of
        (persisted, n) \<Rightarrow>
          let p1 = p\<lparr>time_nvs := n, timeMode := m, timeSource := SOURCE_NONE\<rparr>
          in if m = MANUAL then (persisted, stopAutomaticSynchronization p1)
             else case startAutomaticSynchronization sntpStarts p1 of (ok, p2) \<Rightarrow> (persisted \<and> ok, p2))"

definition setManualCurrentDateTime :: "'n TimeApi \<Rightarrow> ManualDateTime \<Rightarrow> 'n TimeProvider \<Rightarrow> bool \<times> 'n TimeProvider" where
  "setManualCurrentDateTime api d p =
     (if \<not> isManualDateTimeValid d then (False, p)
      else case mktime api d of
        None \<Rightarrow> (False, p)
      | Some seconds \<Rightarrow>
          if \<not> settimeofday api seconds then (False, p)
          else (True, p\<lparr>systemClock := Some seconds, timeSource := SOURCE_MANUAL,
                        time_nvs := snd (persistLastManualEpochSeconds (settings api) seconds (time_nvs p))\<rparr>))"

text \<open>SNTP has set the system clock.\<close>

definition handleTimeSynchronizationEvent :: "i64 \<Rightarrow> 'n TimeProvider \<Rightarrow> 'n TimeProvider" where
  "handleTimeSynchronizationEvent seconds p =
     (let p1 = p\<lparr>systemClock := Some seconds\<rparr>
      in if timeMode p \<noteq> AUTOMATIC then p1 else p1\<lparr>timeSource := SOURCE_NTP\<rparr>)"

definition isCurrentTimeValid :: "'n TimeProvider \<Rightarrow> bool" where
  "isCurrentTimeValid p \<longleftrightarrow> timeSource p \<noteq> SOURCE_NONE"

section \<open>When the time is trusted\<close>

datatype time_event = SetTimeMode bool TimeMode | SetManual ManualDateTime | Synchronized i64

fun time_step :: "'n TimeApi \<Rightarrow> time_event \<Rightarrow> 'n TimeProvider \<Rightarrow> 'n TimeProvider" where
  "time_step api (SetTimeMode sntpStarts m) p = snd (setTimeMode api sntpStarts m p)"
| "time_step api (SetManual d) p = snd (setManualCurrentDateTime api d p)"
| "time_step api (Synchronized seconds) p = handleTimeSynchronizationEvent seconds p"

text \<open>
  A trusted time is one the clock was set to; the network is trusted in automatic mode only, and
  SNTP does not run in manual mode.
\<close>

definition time_ok :: "'n TimeProvider \<Rightarrow> bool" where
  "time_ok p \<longleftrightarrow> (timeSource p = SOURCE_NTP \<longrightarrow> timeMode p = AUTOMATIC) \<and>
     (sntpActive p \<longrightarrow> timeMode p = AUTOMATIC) \<and> (isCurrentTimeValid p \<longrightarrow> systemClock p \<noteq> None)"

lemmas time_defs = setTimeMode_def setManualCurrentDateTime_def handleTimeSynchronizationEvent_def
  startAutomaticSynchronization_def stopAutomaticSynchronization_def isCurrentTimeValid_def Let_def

lemma initialized_ok: "time_ok (snd (initializeTimeSynchronization api sntpStarts (new_TimeProvider n)))"
  by (simp add: time_ok_def new_TimeProvider_def initializeTimeSynchronization_def time_defs
      split: prod.splits bool.splits)

lemma not_manual: "m \<noteq> MANUAL \<longleftrightarrow> m = AUTOMATIC"
  by (cases m) simp_all

lemma time_step_ok: "time_ok p \<Longrightarrow> time_ok (time_step api e p)"
  by (cases e) (auto simp: time_ok_def time_defs not_manual split: prod.splits option.splits)

lemma time_run_ok: "time_ok p \<Longrightarrow> time_ok (fold (time_step api) events p)"
  by (induction events arbitrary: p) (simp_all add: time_step_ok)

theorem time_always_ok:
  "time_ok (fold (time_step api) events
     (snd (initializeTimeSynchronization api sntpStarts (new_TimeProvider n))))"
  by (rule time_run_ok [OF initialized_ok])

text \<open>A change of mode that was persisted is the mode of the next boot, and it ends the trust in the time.\<close>

lemma time_mode_restored:
  assumes laws: "settings_laws (settings api)" and changed: "timeMode p \<noteq> m"
    and ok: "setTimeMode api sntpStarts m p = (True, p')"
  shows "loadPersistedTimeMode (settings api) (time_nvs p') = m \<and> timeMode p' = m \<and> \<not> isCurrentTimeValid p'"
proof -
  obtain n1 where n: "persistTimeMode (settings api) m (time_nvs p) = (True, n1)" "time_nvs p' = n1"
    "timeMode p' = m" "\<not> isCurrentTimeValid p'"
    using ok changed by (auto simp: time_defs split: prod.splits if_splits)
  then obtain n0 where w: "nvs_set_u8 (plain_nvs (settings api)) ''mode'' (mode_byte m) (time_nvs p) = (True, n0)"
    "nvs_commit (plain_nvs (settings api)) n0 = (True, n1)"
    by (auto simp: persistTimeMode_def nvs_then_True split: if_splits)
  from nvs_set_u8D [OF settings_lawsD(1) [OF laws] w(1)] nvs_commitD [OF settings_lawsD(1) [OF laws] w(2)] n
  show ?thesis by (cases m) (simp_all add: loadPersistedTimeMode_def mode_byte_def)
qed

text \<open>The dates that are accepted are those of the calendar from 2000 to 2099.\<close>

lemma leap_2000_2099: "2000 \<le> y \<Longrightarrow> y \<le> (2099 :: u16) \<Longrightarrow> isLeapYear y \<longleftrightarrow> 4 dvd unat y"
proof -
  assume "2000 \<le> y" "y \<le> (2099 :: u16)"
  then have b: "2000 \<le> unat y" "unat y \<le> 2099" by (simp_all add: word_le_nat_alt)
  have m: "y mod k = 0 \<longleftrightarrow> unat y mod unat k = 0" for k
    by (simp add: word_unat_eq_iff unat_mod)
  have "isLeapYear y \<longleftrightarrow> (unat y mod 4 = 0 \<and> unat y mod 100 \<noteq> 0) \<or> unat y mod 400 = 0"
    by (simp add: isLeapYear_def m)
  also have "\<dots> \<longleftrightarrow> unat y mod 4 = 0"
  proof -
    obtain k where k: "unat y = 2000 + k" "k < 100" using b that [of "unat y - 2000"] by simp
    have "(2000 + k) mod 4 = k mod 4" "(2000 + k) mod 100 = k" "(2000 + k) mod 400 = k"
      using k(2) mod_mult_self1 [of k 500 4] mod_mult_self1 [of k 20 100] mod_mult_self1 [of k 5 400]
      by (simp_all add: add.commute)
    then show ?thesis by (auto simp: k(1))
  qed
  finally show ?thesis by (simp add: dvd_eq_mod_eq_0)
qed

end
