(* ===== verification/Console_Input.thy ===== *)
theory Console_Input
  imports Mqtt_Results
begin

text \<open>
  What both serial consoles read their arguments with (the helpers at the top of
  \<open>lib/CentralConsole/CentralConsole.cpp\<close>, repeated in \<open>lib/SmartConsole/SmartConsole.cpp\<close>). The
  arguments are those \<open>esp_console\<close> splits a line into, the first being the command; none is
  null and none has a NUL. An option is \<open>name=value\<close>.
\<close>

definition helpRequested :: "string list \<Rightarrow> bool" where
  "helpRequested argv \<longleftrightarrow> length argv = 2 \<and> argv ! 1 \<in> {''help'', ''--help'', ''-h''}"

definition option_value :: "string list \<Rightarrow> string \<Rightarrow> c_str" where
  "option_value argv name =
     map_option (drop (Suc (length name)))
       (find (\<lambda>a. take (Suc (length name)) a = name @ ''='') (tl argv))"

definition copyText :: "nat \<Rightarrow> c_str \<Rightarrow> string option" where
  "copyText destinationSize source =
     (case source of
        None \<Rightarrow> None
      | Some s \<Rightarrow> if destinationSize \<le> length s then None else Some s)"

definition parseFloat :: "c_str \<Rightarrow> f32 option" where
  "parseFloat text =
     (case Option.bind text strtof of
        Some (parsed, []) \<Rightarrow> if fisfinite parsed then Some parsed else None
      | _ \<Rightarrow> None)"

definition parseUnsigned :: "c_str \<Rightarrow> u32 option" where
  "parseUnsigned text = (case Option.bind text strtoul of Some (parsed, []) \<Rightarrow> Some parsed | _ \<Rightarrow> None)"

definition parseUint8 :: "c_str \<Rightarrow> u8 option" where
  "parseUint8 text =
     (case parseUnsigned text of
        None \<Rightarrow> None
      | Some parsed \<Rightarrow> if 255 < parsed then None else Some (ucast parsed))"

definition parseUint16 :: "c_str \<Rightarrow> u16 option" where
  "parseUint16 text =
     (case parseUnsigned text of
        None \<Rightarrow> None
      | Some parsed \<Rightarrow> if 65535 < parsed then None else Some (ucast parsed))"

text \<open>Nothing may follow the sixth byte.\<close>

definition console_parseMac :: "c_str \<Rightarrow> MacAddress option" where
  "console_parseMac text =
     (case Option.bind text (scan_hex_fields 6) of
        Some (bytes, []) \<Rightarrow> mac_of_fields bytes
      | _ \<Rightarrow> None)"

definition console_parseMode :: "c_str \<Rightarrow> LoadModeValue option" where
  "console_parseMode text =
     (if text = Some ''FIXED_OFF'' then Some FIXED_OFF else if text = Some ''FIXED_ON'' then Some FIXED_ON
      else if text = Some ''AUTO_OFF'' then Some AUTO_OFF else if text = Some ''AUTO_ON'' then Some AUTO_ON
      else None)"

definition console_parsePowerType :: "c_str \<Rightarrow> LoadPowerType option" where
  "console_parsePowerType text =
     (if text = Some ''AC'' \<or> text = Some ''ac'' then Some AC
      else if text = Some ''DC'' \<or> text = Some ''dc'' then Some DC
      else None)"

text \<open>\<open>sscanf\<close> with \<open>%u:%u-%u:%u%c\<close>, of which the last must not match.\<close>

fun scan_numbers :: "string \<Rightarrow> string \<Rightarrow> u32 list option" where
  "scan_numbers [] s = (case strtoul s of Some (n, []) \<Rightarrow> Some [n] | _ \<Rightarrow> None)"
| "scan_numbers (separator # separators) s =
     (case strtoul s of
        None \<Rightarrow> None
      | Some (n, r) \<Rightarrow>
          if take 1 r \<noteq> [separator] then None else map_option ((#) n) (scan_numbers separators (tl r)))"

definition console_parseSchedule :: "c_str \<Rightarrow> AutoSchedule option" where
  "console_parseSchedule text =
     (case text of
        None \<Rightarrow> None
      | Some s \<Rightarrow>
          if s = ''none'' \<or> s = ''off'' then Some no_schedule
          else case scan_numbers '':-:'' s of
            Some [h, m, h', m'] \<Rightarrow>
              if h > 23 \<or> m > 59 \<or> h' > 23 \<or> m' > 59 then None
              else if h * 60 + m = h' * 60 + m' then None
              else Some (AutoSchedule5 True (ucast h) (ucast m) (ucast h') (ucast m'))
          | _ \<Rightarrow> None)"

definition showResult :: "CommandResult \<Rightarrow> int" where
  "showResult result = (if accepted result then 0 else 1)"

section \<open>What the firmware prints is read back\<close>

lemma parseUnsigned_decimal: "n < 2 ^ 32 \<Longrightarrow> parseUnsigned (Some (decimal n)) = Some (of_nat n)"
  using strtoul_decimal [of "[]" n] by (simp add: parseUnsigned_def)

lemma ucast_back: "(ucast (ucast (b :: u8) :: u32) :: u8) = b" "(ucast (ucast (p :: u16) :: u32) :: u16) = p"
  by (transfer, simp)+

lemma u8_bound: "unat (b :: u8) < 256" and u16_bound: "unat (p :: u16) < 65536"
  using unsigned_less [of b, where ?'a = nat] unsigned_less [of p, where ?'a = nat] by simp_all

lemma unat_wide: "unat (ucast (b :: u8) :: u32) = unat b" "unat (ucast (p :: u16) :: u32) = unat p"
  using u8_bound [of b] u16_bound [of p] by (simp_all add: unsigned_ucast_eq take_bit_nat_eq_self)

lemma parse_small:
  "parseUnsigned (Some (decimal (unat (b :: u8)))) = Some (ucast b)"
  "parseUnsigned (Some (decimal (unat (p :: u16)))) = Some (ucast p)"
  using parseUnsigned_decimal [of "unat b"] parseUnsigned_decimal [of "unat p"] u8_bound [of b] u16_bound [of p]
  by simp_all

lemma parseUint8_decimal: "parseUint8 (Some (decimal (unat b))) = Some b"
  using u8_bound [of b] by (simp add: parseUint8_def parse_small ucast_back word_less_nat_alt unat_wide)

lemma parseUint16_decimal: "parseUint16 (Some (decimal (unat p))) = Some p"
  using u16_bound [of p] by (simp add: parseUint16_def parse_small ucast_back word_less_nat_alt unat_wide)

lemma console_parseMac_text: "console_parseMac (Some (mac_text mac)) = Some mac"
proof (cases mac)
  case (fields a b c d e f)
  show ?thesis using scan_mac [of a b c d e f "[]"]
    by (simp add: fields console_parseMac_def mac_of_fields_self del: list.map of_nat_unat)
qed

lemma console_parseMode_text: "named_mode v \<Longrightarrow> console_parseMode (Some (loadModeText v)) = Some v"
  by (cases v) (simp_all add: console_parseMode_def named_mode_def)

text \<open>Nothing may follow an address here, where the MQTT commands look no further than its sixth byte.\<close>

lemma mac_with_more: "r \<noteq> [] \<Longrightarrow> console_parseMac (Some (mac_text mac @ r)) = None \<and> mqtt_parseMac (Some (mac_text mac @ r)) = Some mac"
proof (cases mac)
  case (fields a b c d e f)
  assume r: "r \<noteq> []"
  have "console_parseMac (Some (mac_text mac @ r)) = None"
    using r scan_mac [of a b c d e f r] by (cases r) (simp_all add: fields console_parseMac_def del: list.map of_nat_unat)
  with mqtt_parseMac_text show ?thesis by blast
qed

text \<open>\<open>%02u:%02u-%02u:%02u\<close>, as the consoles print a window.\<close>

definition schedule_text :: "AutoSchedule \<Rightarrow> string" where
  "schedule_text s =
     (if enabled s
      then zero_padded 2 (unat (startHour s)) @ '':'' @ zero_padded 2 (unat (startMinute s)) @ ''-'' @
           zero_padded 2 (unat (endHour s)) @ '':'' @ zero_padded 2 (unat (endMinute s))
      else ''none'')"

lemma digits_value_zeros: "digits_value (replicate k (CHR ''0'') @ t) = digits_value t"
  by (induction k) (simp_all add: digits_value_def)

lemma strtoul_padded: "no_digit r \<Longrightarrow> n < 2 ^ 32 \<Longrightarrow> strtoul (zero_padded k n @ r) = Some (of_nat n, r)"
proof -
  assume r: "no_digit r" and n: "n < 2 ^ 32"
  have d: "list_all is_digit (zero_padded k n)" "zero_padded k n \<noteq> []" using zero_padded_digits [of k n] by auto
  obtain c cs where c: "zero_padded k n = c # cs" "is_digit c" using d by (cases "zero_padded k n") auto
  have s: "scan_sign (dropWhile is_space (zero_padded k n @ r)) = (False, zero_padded k n @ r)"
    using c digit_no_space [OF c(2)] by (simp add: scan_sign_def)
  have t: "takeWhile is_digit (zero_padded k n @ r) = zero_padded k n" "dropWhile is_digit (zero_padded k n @ r) = r"
    using r takeWhile_digits [OF d(1)] unfolding no_digit_def by blast+
  have "digits_value (zero_padded k n) = n" by (simp add: zero_padded_def digits_value_zeros)
  with n show ?thesis by (simp add: strtoul_def s t d(2) unsigned_result_def)
qed

lemma padded_start: "zero_padded k n @ r \<noteq> ''none'' \<and> zero_padded k n @ r \<noteq> ''off''"
proof -
  obtain c cs where "zero_padded k n = c # cs" "is_digit c"
    using zero_padded_digits [of k n] by (cases "zero_padded k n") auto
  then show ?thesis by (auto simp: is_digit_def)
qed

lemma no_digit_separator: "\<not> is_digit (CHR '':'')" "\<not> is_digit (CHR ''-'')"
  by (simp_all add: is_digit_def)

lemma unat_minutes_u32:
  assumes "unat (h :: u8) \<le> 23" "unat (m :: u8) \<le> 59"
  shows "unat (ucast h * 60 + ucast m :: u32) = unat h * 60 + unat m"
  using assms by (simp add: unat_word_ariths unat_wide)

lemma console_parseSchedule_text:
  assumes s: "schedule_request s"
  shows "console_parseSchedule (Some (schedule_text s)) = Some s"
proof (cases "enabled s")
  case False
  then have "s = no_schedule" using s by (auto simp: schedule_request_def)
  then show ?thesis by (simp add: console_parseSchedule_def schedule_text_def)
next
  case True
  then have v: "schedule_valid s" using s by (auto simp: schedule_request_def)
  let ?h = "unat (startHour s)" and ?m = "unat (startMinute s)" and ?h' = "unat (endHour s)" and ?m' = "unat (endMinute s)"
  have b: "?h \<le> 23" "?m \<le> 59" "?h' \<le> 23" "?m' \<le> 59"
    and ne: "minutes_of_day (startHour s) (startMinute s) \<noteq> minutes_of_day (endHour s) (endMinute s)"
    using v True by (auto simp: schedule_valid_def times_in_range_def word_le_nat_alt not_less split: if_splits)
  have scan: "scan_numbers '':-:'' (schedule_text s) =
      Some [ucast (startHour s), ucast (startMinute s), ucast (endHour s), ucast (endMinute s)]"
    using b True strtoul_padded [of "[]" ?m' 2] by (simp add: schedule_text_def strtoul_padded no_digit_separator)
  have "(ucast (startHour s) * 60 + ucast (startMinute s) :: u32) \<noteq> ucast (endHour s) * 60 + ucast (endMinute s)"
  proof
    assume "(ucast (startHour s) * 60 + ucast (startMinute s) :: u32) = ucast (endHour s) * 60 + ucast (endMinute s)"
    then have "?h * 60 + ?m = ?h' * 60 + ?m'"
      using unat_minutes_u32 [OF b(1,2)] unat_minutes_u32 [OF b(3,4)] by simp
    then have "unat (minutes_of_day (startHour s) (startMinute s)) = unat (minutes_of_day (endHour s) (endMinute s))"
      using b by (subst (1 2) unat_minutes_of_day) (simp_all add: word_less_nat_alt)
    with ne show False by (simp add: word_unat_eq_iff)
  qed
  moreover have "schedule_text s \<noteq> ''none'' \<and> schedule_text s \<noteq> ''off''"
    using True padded_start by (simp add: schedule_text_def)
  moreover have "AutoSchedule5 True (startHour s) (startMinute s) (endHour s) (endMinute s) = s" using True by simp
  ultimately show ?thesis using b scan
    by (simp add: console_parseSchedule_def ucast_back word_less_nat_alt unat_wide del: scan_numbers.simps AutoSchedule5_fields)
qed

end
