(* ===== verification/Provisioning.thy ===== *)
theory Provisioning
  imports Device_Settings Text_Input Central_Commands
begin

text \<open>
  How Central gets onto the installer's network: the Wi-Fi station and its reconnect timer
  (\<open>lib/WiFiManager/WiFiManager.cpp\<close>). The Wi-Fi driver is a parameter. The setup portal is in
  \<open>Setup_Portal\<close>, its triggers and the network commands of the console in \<open>Network_Commands\<close>.
\<close>

section \<open>The station\<close>

datatype WiFiConnectionState =
  DISCONNECTED | SCANNING | CONNECTING | CONNECTED_AWAITING_IP | CONNECTED_WITH_IP | RADIO_CHANNEL_MISMATCH

text \<open>\<open>reconnectTimer\<close> is \<open>None\<close> until it is created, then the delay it is armed with, if it is.\<close>

record 'n WiFiManager =
  requiredChannel :: u8
  wm_ssid :: string
  wm_password :: string
  wm_state :: WiFiConnectionState
  reconnectAttempts :: u32
  eventHandlersRegistered :: bool
  reconnectTimer :: "u64 option option"
  wm_channel_nvs :: 'n

text \<open>What the driver answers during one attempt; the scan gives the channel of the SSID.\<close>

record 'n Attempt =
  settings_api :: "'n SettingsApi"
  scannedChannel :: "u8 option"
  set_config_ok :: bool
  connect_ok :: bool

definition new_WiFiManager :: "u8 \<Rightarrow> 'n \<Rightarrow> 'n WiFiManager" where
  "new_WiFiManager channel n =
     \<lparr>requiredChannel = channel, wm_ssid = [], wm_password = [], wm_state = DISCONNECTED,
      reconnectAttempts = 0, eventHandlersRegistered = False, reconnectTimer = None, wm_channel_nvs = n\<rparr>"

definition setRequiredChannel :: "u8 \<Rightarrow> 'n WiFiManager \<Rightarrow> 'n WiFiManager" where
  "setRequiredChannel channel w = (if eventHandlersRegistered w then w else w\<lparr>requiredChannel := channel\<rparr>)"

text \<open>Two seconds doubled for each attempt up to the fifth, at most a minute.\<close>

definition reconnectDelay :: "u32 \<Rightarrow> u64" where
  "reconnectDelay attempt =
     (let backoffShift = (if attempt < 5 then unat attempt else 5);
          delayMicroseconds = push_bit backoffShift (2000000 :: u64)
      in if 60000000 < delayMicroseconds then 60000000 else delayMicroseconds)"

definition onStationDisconnected :: "'n WiFiManager \<Rightarrow> 'n WiFiManager" where
  "onStationDisconnected w =
     (let attempt = reconnectAttempts w + 1
      in w\<lparr>wm_state := DISCONNECTED, reconnectAttempts := attempt,
           reconnectTimer := (case reconnectTimer w of
             None \<Rightarrow> None | Some _ \<Rightarrow> Some (Some (reconnectDelay attempt)))\<rparr>)"

text \<open>The result is \<open>None\<close> where the chip restarts.\<close>

definition verifyChannelAndConnect :: "'n Attempt \<Rightarrow> 'n WiFiManager \<Rightarrow> bool option \<times> 'n WiFiManager" where
  "verifyChannelAndConnect a w =
     (let w1 = w\<lparr>wm_state := SCANNING\<rparr>
      in case scannedChannel a of
        None \<Rightarrow> (Some False, onStationDisconnected w1)
      | Some discovered \<Rightarrow>
          if discovered \<noteq> requiredChannel w1
          then (case channel_save (settings_api a) discovered (wm_channel_nvs w1) of
                  (False, n) \<Rightarrow> (Some False, w1\<lparr>wm_state := DISCONNECTED, wm_channel_nvs := n\<rparr>)
                | (True, n) \<Rightarrow> (None, w1\<lparr>wm_channel_nvs := n\<rparr>))
          else if \<not> set_config_ok a then (Some False, onStationDisconnected w1)
          else
            let w2 = w1\<lparr>wm_state := CONNECTING\<rparr>
            in if \<not> connect_ok a then (Some False, onStationDisconnected w2) else (Some True, w2))"

text \<open>\<open>handlers_ok\<close> and \<open>timer_ok\<close>: whether the event handlers and the timer could be created.\<close>

definition wifi_begin ::
  "'n Attempt \<Rightarrow> bool \<Rightarrow> bool \<Rightarrow> c_str \<Rightarrow> c_str \<Rightarrow> 'n WiFiManager \<Rightarrow> bool option \<times> 'n WiFiManager" where
  "wifi_begin a handlers_ok timer_ok ssid password w =
     (if text_or_empty ssid = [] then (Some False, w)
      else
        let w1 = w\<lparr>wm_ssid := copyTruncated 33 ssid, wm_password := copyTruncated 65 password\<rparr>
        in if \<not> handlers_ok then (Some False, w1)
           else verifyChannelAndConnect a
             (w1\<lparr>eventHandlersRegistered := True,
                 reconnectTimer := (if timer_ok then Some None else None)\<rparr>))"

definition wifi_isConnected :: "'n WiFiManager \<Rightarrow> bool" where
  "wifi_isConnected w \<longleftrightarrow> wm_state w = CONNECTED_WITH_IP"

definition getConnectedChannel :: "'n WiFiManager \<Rightarrow> u8" where
  "getConnectedChannel w = (if \<not> wifi_isConnected w then 0 else requiredChannel w)"

definition onGotIp :: "'n WiFiManager \<Rightarrow> 'n WiFiManager" where
  "onGotIp w = w\<lparr>reconnectAttempts := 0, wm_state := CONNECTED_WITH_IP\<rparr>"

datatype 'n WiFiEvent =
  STA_DISCONNECTED | STA_CONNECTED | STA_OTHER | STA_GOT_IP | TIMER_EXPIRED "'n Attempt"

text \<open>An event of the driver, or the timer, which is no longer armed when it calls back.\<close>

definition wifi_step :: "'n WiFiEvent \<Rightarrow> 'n WiFiManager \<Rightarrow> bool option \<times> 'n WiFiManager" where
  "wifi_step e w =
     (case e of
        STA_DISCONNECTED \<Rightarrow> (Some True, onStationDisconnected w)
      | STA_CONNECTED \<Rightarrow> (Some True, w\<lparr>wm_state := CONNECTED_AWAITING_IP\<rparr>)
      | STA_OTHER \<Rightarrow> (Some True, w)
      | STA_GOT_IP \<Rightarrow> (Some True, onGotIp w)
      | TIMER_EXPIRED a \<Rightarrow>
          (case reconnectTimer w of
             Some (Some _) \<Rightarrow> verifyChannelAndConnect a (w\<lparr>reconnectTimer := Some None\<rparr>)
           | _ \<Rightarrow> (Some True, w)))"

text \<open>The events until the chip restarts.\<close>

fun wifi_run :: "'n WiFiEvent list \<Rightarrow> bool option \<times> 'n WiFiManager \<Rightarrow> bool option \<times> 'n WiFiManager" where
  "wifi_run [] s = s"
| "wifi_run (e # es) (r, w) = (if r = None then (r, w) else wifi_run es (wifi_step e w))"

subsection \<open>The station keeps trying\<close>

definition still_trying :: "'n WiFiManager \<Rightarrow> bool" where
  "still_trying w \<longleftrightarrow>
     wm_state w \<in> {CONNECTING, CONNECTED_AWAITING_IP, CONNECTED_WITH_IP} \<or>
     (wm_state w = DISCONNECTED \<and> (\<exists>d. reconnectTimer w = Some (Some d) \<and> 2000000 \<le> d \<and> d \<le> 60000000))"

definition timer_created :: "'n WiFiManager \<Rightarrow> bool" where
  "timer_created w \<longleftrightarrow> reconnectTimer w \<noteq> None"

definition channels_saved :: "'n Attempt \<Rightarrow> bool" where
  "channels_saved a \<longleftrightarrow> (\<forall>c n. scannedChannel a = Some c \<longrightarrow> fst (channel_save (settings_api a) c n))"

lemma reconnectDelay_bounds: "2000000 \<le> reconnectDelay attempt \<and> reconnectDelay attempt \<le> 60000000"
proof -
  have "(2000000 :: u64) \<le> push_bit k 2000000" if "k \<le> 5" for k
  proof -
    from that have "k = 0 \<or> k = 1 \<or> k = 2 \<or> k = 3 \<or> k = 4 \<or> k = 5" by arith
    then show ?thesis by (elim disjE) (simp_all add: push_bit_eq_mult)
  qed
  moreover have "unat attempt \<le> 5" if "attempt < 5" using that by (simp add: word_less_nat_alt)
  ultimately show ?thesis by (auto simp: reconnectDelay_def Let_def)
qed

lemma disconnected_tries:
  assumes "timer_created w"
  shows "timer_created (onStationDisconnected w) \<and> still_trying (onStationDisconnected w)"
  using assms reconnectDelay_bounds [of "reconnectAttempts w + 1"]
  by (auto simp: onStationDisconnected_def timer_created_def still_trying_def Let_def)

lemma timer_created_update [simp]: "timer_created (w\<lparr>wm_state := s\<rparr>) = timer_created w"
  "timer_created (w\<lparr>wm_channel_nvs := n\<rparr>) = timer_created w"
  by (simp_all add: timer_created_def)

lemma attempt_tries:
  assumes "timer_created w" "channels_saved a" and v: "verifyChannelAndConnect a w = (Some r, w')"
  shows "timer_created w' \<and> still_trying w'"
proof -
  have save: "\<not> (scannedChannel a = Some c \<and> channel_save (settings_api a) c n = (False, n'))" for c n n'
    using assms(2) unfolding channels_saved_def by (metis fst_conv)
  from v show ?thesis
    using assms(1) disconnected_tries [of "w\<lparr>wm_state := SCANNING\<rparr>"]
      disconnected_tries [of "w\<lparr>wm_state := CONNECTING\<rparr>"] save
    by (auto simp: verifyChannelAndConnect_def Let_def still_trying_def [of "w\<lparr>wm_state := CONNECTING\<rparr>"]
        split: option.splits if_splits prod.splits bool.splits)
qed

lemma wifi_step_tries:
  assumes w: "timer_created w \<and> still_trying w" and saved: "\<And>a. e = TIMER_EXPIRED a \<Longrightarrow> channels_saved a"
    and s: "wifi_step e w = (Some r, w')"
  shows "timer_created w' \<and> still_trying w'"
proof (cases e)
  case (TIMER_EXPIRED a)
  show ?thesis
  proof (cases "\<exists>d. reconnectTimer w = Some (Some d)")
    case True
    then have v: "verifyChannelAndConnect a (w\<lparr>reconnectTimer := Some None\<rparr>) = (Some r, w')"
      using s TIMER_EXPIRED by (auto simp: wifi_step_def)
    show ?thesis by (rule attempt_tries [OF _ saved [OF TIMER_EXPIRED] v]) (simp add: timer_created_def)
  next
    case False
    then have "w' = w" using s TIMER_EXPIRED by (auto simp: wifi_step_def split: option.splits)
    with w show ?thesis by simp
  qed
qed (use w s disconnected_tries in \<open>auto simp: wifi_step_def onGotIp_def timer_created_def still_trying_def\<close>)

lemma wifi_run_tries:
  assumes "\<And>a. TIMER_EXPIRED a \<in> set es \<Longrightarrow> channels_saved a"
    "q \<noteq> None \<Longrightarrow> timer_created w \<and> still_trying w" "wifi_run es (q, w) = (Some r, w')"
  shows "timer_created w' \<and> still_trying w'"
  using assms
proof (induction es arbitrary: q w)
  case (Cons e es)
  obtain q1 w1 where s: "wifi_step e w = (q1, w1)" by fastforce
  from Cons.prems(3) obtain p where q: "q = Some p" by (cases q) auto
  show ?case
  proof (rule Cons.IH)
    show "wifi_run es (q1, w1) = (Some r, w')" using Cons.prems(3) by (simp add: q s)
    show "timer_created w1 \<and> still_trying w1" if some: "q1 \<noteq> None"
    proof -
      from some obtain p1 where "q1 = Some p1" by blast
      with s show ?thesis
        by (intro wifi_step_tries [of w e p1 w1]) (use Cons.prems q in auto)
    qed
  qed (use Cons.prems(1) in auto)
qed simp

text \<open>
  C20: Once the station has been started with a timer, it never gives up: after any events of the
  driver, as long as the chip has not restarted to follow the network to another channel, it is
  connecting, connected, or disconnected with the timer armed for between two seconds and a
  minute. The channels it moves to have to be saved: where saving one fails, the timer is not armed.
\<close>

theorem station_keeps_trying:
  assumes "text_or_empty ssid \<noteq> []" "channels_saved a" "\<And>a. TIMER_EXPIRED a \<in> set es \<Longrightarrow> channels_saved a"
    and run: "wifi_run es (wifi_begin a True True ssid password w) = (Some r, w')"
  shows "still_trying w'"
proof -
  obtain q w1 where b: "wifi_begin a True True ssid password w = (q, w1)" by fastforce
  have tries: "timer_created w1 \<and> still_trying w1" if some: "q \<noteq> None"
  proof -
    from some obtain p where q: "q = Some p" by blast
    let ?w = "w\<lparr>wm_ssid := copyTruncated 33 ssid, wm_password := copyTruncated 65 password,
      eventHandlersRegistered := True, reconnectTimer := Some None\<rparr>"
    have v: "verifyChannelAndConnect a ?w = (Some p, w1)" using b assms(1) by (simp add: wifi_begin_def q)
    show ?thesis by (rule attempt_tries [OF _ assms(2) v]) (simp add: timer_created_def)
  qed
  from assms(3) tries run [unfolded b] have "timer_created w' \<and> still_trying w'" by (rule wifi_run_tries)
  then show ?thesis by simp
qed

text \<open>Found on its channel at the second scan, connected, lost, and not found again.\<close>

theorem station_keeps_trying_witness:
  "let found = \<lparr>settings_api = ram_settings, scannedChannel = Some 6, set_config_ok = True, connect_ok = True\<rparr>;
       lost = found\<lparr>scannedChannel := None\<rparr>
   in still_trying (snd (wifi_run [TIMER_EXPIRED found, STA_CONNECTED, STA_GOT_IP, STA_DISCONNECTED, TIMER_EXPIRED lost]
        (wifi_begin lost True True (Some ''Home'') (Some ''secret'') (new_WiFiManager 6 blank_ram))))"
proof -
  let ?found = "\<lparr>settings_api = ram_settings, scannedChannel = Some 6, set_config_ok = True, connect_ok = True\<rparr>"
  let ?lost = "?found\<lparr>scannedChannel := None\<rparr>"
  let ?s = "wifi_run [TIMER_EXPIRED ?found, STA_CONNECTED, STA_GOT_IP, STA_DISCONNECTED, TIMER_EXPIRED ?lost]
    (wifi_begin ?lost True True (Some ''Home'') (Some ''secret'') (new_WiFiManager 6 blank_ram))"
  have saved: "channels_saved ?found" "channels_saved ?lost"
    by (simp_all add: channels_saved_def channel_save_def isValidChannel_def ram_settings_def)
  have "still_trying (snd ?s)"
  proof (rule station_keeps_trying)
    show "wifi_run [TIMER_EXPIRED ?found, STA_CONNECTED, STA_GOT_IP, STA_DISCONNECTED, TIMER_EXPIRED ?lost]
      (wifi_begin ?lost True True (Some ''Home'') (Some ''secret'') (new_WiFiManager 6 blank_ram)) =
      (Some False, snd ?s)"
      by (simp add: wifi_begin_def wifi_step_def verifyChannelAndConnect_def onStationDisconnected_def
          onGotIp_def text_or_empty_def c_text_def new_WiFiManager_def Let_def)
  qed (use saved in \<open>auto simp: text_or_empty_def c_text_def\<close>)
  then show ?thesis by (simp add: Let_def)
qed

text \<open>Where the new channel cannot be saved, the station stays disconnected with no timer.\<close>

lemma unsaved_channel_gives_up:
  assumes "scannedChannel a = Some c" "c \<noteq> requiredChannel w"
    "channel_save (settings_api a) c (wm_channel_nvs w) = (False, n)"
  shows "verifyChannelAndConnect a (w\<lparr>reconnectTimer := Some None\<rparr>) =
    (Some False, w\<lparr>reconnectTimer := Some None, wm_state := DISCONNECTED, wm_channel_nvs := n\<rparr>)"
  using assms by (simp add: verifyChannelAndConnect_def Let_def)

end
