(* ===== verification/Setup_Portal.thy ===== *)
theory Setup_Portal
  imports Provisioning
begin

text \<open>
  The setup portal (\<open>lib/WiFiManager/WiFiProvisioningPortal.cpp\<close>): the list of networks it
  offers, the escaping of their names, the reader of the submitted form, what is saved from it, and
  the answer of its DNS responder. The HTTP server and the sockets are outside. The order of the
  offered networks is that of an unstable sort and is left out.
\<close>

section \<open>The networks on offer\<close>

record DiscoveredNetwork =
  dn_ssid :: string
  dn_rssi :: "8 word"

definition MAX_DISCOVERED_NETWORKS :: nat where "MAX_DISCOVERED_NETWORKS = 16"

definition addNetwork :: "DiscoveredNetwork \<Rightarrow> DiscoveredNetwork list \<Rightarrow> DiscoveredNetwork list" where
  "addNetwork r ns =
     (let ssid = c_text (dn_ssid r)
      in if ssid = [] then ns
         else if \<exists>d \<in> set ns. take 33 (dn_ssid d) = take 33 ssid
         then update_first (\<lambda>d. take 33 (dn_ssid d) = take 33 ssid)
                (\<lambda>d. if sint (dn_rssi d) < sint (dn_rssi r) then d\<lparr>dn_rssi := dn_rssi r\<rparr> else d) ns
         else if length ns < MAX_DISCOVERED_NETWORKS
         then ns @ [\<lparr>dn_ssid = copyTruncated 33 (Some ssid), dn_rssi = dn_rssi r\<rparr>]
         else ns)"

definition scanNearbyNetworks :: "DiscoveredNetwork list option \<Rightarrow> DiscoveredNetwork list" where
  "scanNearbyNetworks scan = (case scan of None \<Rightarrow> [] | Some records \<Rightarrow> fold addNetwork records [])"

definition html_entity :: "char \<Rightarrow> string" where
  "html_entity c =
     (if c = CHR ''&'' then ''&amp;'' else if c = CHR ''<'' then ''&lt;'' else if c = CHR ''>'' then ''&gt;''
      else if c = CHR 0x22 then ''&quot;'' else if c = CHR 0x27 then ''&#39;'' else [c])"

fun appendHtmlEscaped :: "string \<Rightarrow> nat \<Rightarrow> string \<Rightarrow> string" where
  "appendHtmlEscaped out outSize [] = out"
| "appendHtmlEscaped out outSize (c # cs) =
     (if length out + 6 < outSize then appendHtmlEscaped (out @ html_entity c) outSize cs else out)"

section \<open>The form\<close>

text \<open>\<open>strtol\<close> with base 16 on two characters.\<close>

definition strtol16 :: "string \<Rightarrow> int" where
  "strtol16 s =
     (case scan_sign (dropWhile is_space s) of
        (negative, r) \<Rightarrow>
          let n = int (hex_digits_value (takeWhile is_hex r)) in if negative then - n else n)"

fun urlDecode :: "string \<Rightarrow> string" where
  "urlDecode [] = []"
| "urlDecode (c # cs) =
     (if c = CHR ''+'' then CHR '' '' # urlDecode cs
      else if c = CHR ''%'' \<and> 2 \<le> length cs then char_of (strtol16 (take 2 cs)) # urlDecode (drop 2 cs)
      else c # urlDecode cs)"

text \<open>
  The text after the first occurrence of the key at the start of the body or after a separator;
  \<open>before\<close> is the character in front. An occurrence elsewhere is passed over whole.
\<close>

definition starts_field :: "char option \<Rightarrow> bool" where
  "starts_field before \<longleftrightarrow> before = None \<or> before = Some (CHR ''&'')"

function seekField :: "string \<Rightarrow> char option \<Rightarrow> string \<Rightarrow> string option" where
  "seekField key before s =
     (if take (length key) s = key then
        if starts_field before then Some (drop (length key) s)
        else if key = [] then None
        else seekField key (Some (last key)) (drop (length key) s)
      else case s of [] \<Rightarrow> None | c # cs \<Rightarrow> seekField key (Some c) cs)"
  by pat_completeness auto

termination
proof (relation "measure (\<lambda>(key, before, s). length s)", goal_cases)
  case (2 key before s)
  then show ?case by (cases s) auto
qed auto

declare seekField.simps [simp del]

text \<open>The raw text is cut to the buffer before it is decoded; the buffer is read up to its first NUL.\<close>

definition extractFormField :: "string \<Rightarrow> string \<Rightarrow> nat \<Rightarrow> string option" where
  "extractFormField body key outSize =
     map_option (\<lambda>rest. c_text (urlDecode (take (outSize - 1) (takeWhile (\<lambda>c. c \<noteq> CHR ''&'') rest))))
       (seekField key None body)"

definition atoi :: "string \<Rightarrow> int" where
  "atoi s =
     (case scan_sign (dropWhile is_space s) of
        (negative, r) \<Rightarrow> let n = int (digits_value (takeWhile is_digit r)) in if negative then - n else n)"

fun contains :: "string \<Rightarrow> string \<Rightarrow> bool" where
  "contains w [] \<longleftrightarrow> w = []"
| "contains w (c # cs) \<longleftrightarrow> take (length w) (c # cs) = w \<or> contains w cs"

datatype SavePage = PAGE_SAVED | PAGE_MQTT_REJECTED | PAGE_REJECTED

definition formText :: "string \<Rightarrow> string \<Rightarrow> nat \<Rightarrow> string" where
  "formText body key outSize =
     (case extractFormField body key outSize of None \<Rightarrow> [] | Some t \<Rightarrow> t)"

text \<open>
  What the portal keeps: the storage of the Wi-Fi and of the MQTT credentials and the restart timer,
  which is \<open>None\<close> until it is created, then whether it is armed.
\<close>

record 'n Portal =
  portal_wifi :: 'n
  portal_mqtt :: 'n
  restartTimer :: "bool option"

text \<open>\<open>created\<close> tells whether \<open>esp_timer_create\<close> succeeds.\<close>

definition scheduleRestart :: "bool \<Rightarrow> 'n Portal \<Rightarrow> 'n Portal" where
  "scheduleRestart created s =
     (let timer = (if restartTimer s = None \<and> created then Some False else restartTimer s)
      in s\<lparr>restartTimer := map_option (\<lambda>_. True) timer\<rparr>)"

definition BODY_SIZE :: nat where "BODY_SIZE = 768"

text \<open>
  The page answered and the state; no page where nothing was received. The request is read by one call,
  which gives the first \<open>received\<close> bytes of its content and may give less than there are.
\<close>

definition handlePostSave ::
  "'n SettingsApi \<Rightarrow> bool \<Rightarrow> nat \<Rightarrow> string \<Rightarrow> 'n Portal \<Rightarrow> SavePage option \<times> 'n Portal" where
  "handlePostSave api created received content s =
     (if received = 0 \<or> content = [] then (None, s)
      else
        let body = c_text (take (min received (BODY_SIZE - 1)) content);
            listed = formText body ''ssid='' SSID_BUFFER_SIZE;
            ssid = (if listed = [] then formText body ''ssid_manual='' SSID_BUFFER_SIZE else listed);
            password = formText body ''password='' PASSWORD_BUFFER_SIZE
        in case wifi_save api (Some ssid) (Some password) (portal_wifi s) of
          (wifiSaved, wifi_n) \<Rightarrow>
            let host = formText body ''mqtt_host='' HOST_BUFFER_SIZE;
                (mqttSaved, mqtt_n) =
                  (if host = [] then (True, portal_mqtt s)
                   else mqtt_save api (Some host) (of_int (atoi (formText body ''mqtt_port='' 8)))
                          (contains ''mqtt_tls=on'' body)
                          (Some (formText body ''mqtt_username='' USERNAME_BUFFER_SIZE))
                          (Some (formText body ''mqtt_password='' PASSWORD_BUFFER_SIZE)) (portal_mqtt s));
                s1 = s\<lparr>portal_wifi := wifi_n, portal_mqtt := mqtt_n\<rparr>
            in (Some (if \<not> wifiSaved then PAGE_REJECTED else if mqttSaved then PAGE_SAVED else PAGE_MQTT_REJECTED),
                if wifiSaved then scheduleRestart created s1 else s1))"

section \<open>The DNS responder\<close>

text \<open>The answer to a query of at most 512 bytes: the header, the question, and the portal's address.\<close>

definition dnsAnswer :: "u8 list \<Rightarrow> u8 list \<Rightarrow> u8 list option" where
  "dnsAnswer portalIpAddress query =
     (if length query < 12 \<or> 512 < length query + 16 then None
      else Some (take 2 query @ [or 0x80 (and (query ! 2) 0x79), 0x80] @ take 2 (drop 4 query) @
                 [0, 1, 0, 0, 0, 0] @ drop 12 query @
                 [0xC0, 0x0C, 0, 1, 0, 1, 0, 0, 0, 0x3C, 0, 4] @ portalIpAddress))"

section \<open>What the browser sends\<close>

text \<open>The encoding of \<open>application/x-www-form-urlencoded\<close>, of which the reader is the inverse.\<close>

definition kept_char :: "char \<Rightarrow> bool" where
  "kept_char c \<longleftrightarrow> is_digit c \<or> (97 \<le> (of_char (lower c) :: nat) \<and> (of_char (lower c) :: nat) \<le> 122) \<or>
     c \<in> {CHR ''*'', CHR ''-'', CHR ''.'', CHR ''_''}"

definition form_char :: "char \<Rightarrow> string" where
  "form_char c =
     (if kept_char c then [c] else if c = CHR '' '' then ''+''
      else CHR ''%'' # hex_byte (of_nat (of_char c)))"

definition form_text :: "string \<Rightarrow> string" where
  "form_text s = concat (map form_char s)"

fun form_body :: "(string \<times> string) list \<Rightarrow> string" where
  "form_body [] = []"
| "form_body [(k, v)] = k @ ''='' @ form_text v"
| "form_body ((k, v) # f # fs) = k @ ''='' @ form_text v @ ''&'' @ form_body (f # fs)"

lemma of_char_hex_byte: "strtol16 (hex_byte b) = int (unat b)"
proof -
  have b: "unat b < 256" using unsigned_less [of b, where ?'a = nat] by simp
  then have d: "unat b div 16 < 16" "unat b mod 16 < 16" by auto
  note v = hex_value_digit [OF d(1)] hex_value_digit [OF d(2)]
  note c = hex_digit_char [OF d(1)] hex_digit_char [OF d(2)]
  have "16 * (unat b div 16) + unat b mod 16 = unat b" by simp
  then show ?thesis using c
    by (simp add: strtol16_def hex_byte_def scan_sign_def is_hex_def v hex_digits_value_def)
qed

lemma char_of_hex_byte: "char_of (strtol16 (hex_byte (of_nat (of_char c)))) = c"
proof -
  have "unat (of_nat (of_char c) :: u8) = of_char c" using unat_of_nat [of "of_char c", where ?'a = 8] by simp
  then have "strtol16 (hex_byte (of_nat (of_char c))) = int (of_char c)" by (simp add: of_char_hex_byte)
  then show ?thesis by simp
qed

lemma kept_plain: "kept_char c \<Longrightarrow> c \<noteq> CHR ''+'' \<and> c \<noteq> CHR ''%'' \<and> c \<noteq> CHR ''&'' \<and> c \<noteq> CHR ''=''"
  by (auto simp: kept_char_def is_digit_def lower_def)

lemma urlDecode_form_text: "urlDecode (form_text s) = s"
proof (induction s)
  case (Cons c s)
  have s: "form_text (c # s) = form_char c @ form_text s" by (simp add: form_text_def)
  obtain a b where h: "hex_byte (of_nat (of_char c)) = [a, b]" by (simp add: hex_byte_def)
  with Cons char_of_hex_byte [of c] show ?case
    by (auto simp: s form_char_def dest: kept_plain)
qed (simp add: form_text_def)

lemma hex_digit_kept: "d < 16 \<Longrightarrow> kept_char (hex_digit d)"
proof -
  have "\<forall>d < 16. kept_char (''0123456789ABCDEF'' ! d)" by code_simp
  then show "d < 16 \<Longrightarrow> ?thesis" by (simp add: hex_digit_def)
qed

lemma form_text_plain: "c \<in> set (form_text s) \<Longrightarrow> c \<noteq> CHR ''&'' \<and> c \<noteq> CHR ''=''"
proof -
  have "c \<noteq> CHR ''&'' \<and> c \<noteq> CHR ''=''" if "c \<in> set (form_char x)" for x
  proof -
    have b: "unat (of_nat (of_char x) :: u8) < 256" using unsigned_less [of "of_nat (of_char x) :: u8", where ?'a = nat] by simp
    then have d: "unat (of_nat (of_char x) :: u8) div 16 < 16" "unat (of_nat (of_char x) :: u8) mod 16 < 16" by auto
    from that kept_plain [of x] kept_plain [OF hex_digit_kept [OF d(1)]] kept_plain [OF hex_digit_kept [OF d(2)]]
    show ?thesis by (auto simp: form_char_def hex_byte_def split: if_splits)
  qed
  then show "c \<in> set (form_text s) \<Longrightarrow> ?thesis" by (auto simp: form_text_def)
qed

section \<open>Finding a field\<close>

text \<open>A key is a name and its equals sign; neither names nor encoded values hold one.\<close>

definition plain_text :: "string \<Rightarrow> bool" where
  "plain_text s \<longleftrightarrow> CHR ''&'' \<notin> set s \<and> CHR ''='' \<notin> set s"

lemma plain_text_simps [simp]: "plain_text []"
  "plain_text (c # s) \<longleftrightarrow> c \<noteq> CHR ''&'' \<and> c \<noteq> CHR ''='' \<and> plain_text s"
  by (auto simp: plain_text_def)

lemma plain_form_text [simp]: "plain_text (form_text v)"
  using form_text_plain by (auto simp: plain_text_def)

lemma takeWhile_plain: "plain_text a \<Longrightarrow> takeWhile (\<lambda>c. c \<noteq> CHR ''='') (a @ CHR ''='' # r) = a"
  by (induction a) auto

lemma plain_no_eq: "plain_text a \<Longrightarrow> CHR ''='' \<notin> set a"
  by (simp add: plain_text_def)

definition is_end :: "string \<Rightarrow> bool" where
  "is_end r \<longleftrightarrow> r = [] \<or> hd r = CHR ''&''"

text \<open>A key does not start in a value, and in a name only at its end.\<close>

lemma no_key_in_value:
  assumes w: "plain_text w" and a: "plain_text a" and r: "is_end r"
  shows "take (length (w @ ''='')) (a @ r) \<noteq> w @ ''=''"
proof
  assume t: "take (length (w @ ''='')) (a @ r) = w @ ''=''"
  show False
  proof (cases "length w < length a")
    case True
    then have "w @ ''='' = take (length (w @ ''='')) a" using t by simp
    then have "CHR ''='' \<in> set a" by (metis in_set_conv_decomp in_set_takeD)
    with a show False by (simp add: plain_text_def)
  next
    case False
    then have l: "take (Suc (length w) - length a) r = drop (length a) (w @ ''='')"
      using arg_cong [OF t, of "drop (length a)"] by (simp add: drop_take)
    moreover have "drop (length a) (w @ ''='') \<noteq> []" using False by simp
    ultimately have ne: "take (Suc (length w) - length a) r \<noteq> []" by simp
    then have "r \<noteq> []" "hd (take (Suc (length w) - length a) r) = hd r" by auto
    with ne have "hd r \<in> set (drop (length a) (w @ ''=''))" by (metis l hd_in_set)
    then have "hd r \<in> set (w @ ''='')" by (meson in_set_dropD)
    with w r \<open>r \<noteq> []\<close> show False by (auto simp: is_end_def plain_text_def)
  qed
qed

lemma key_in_name:
  assumes w: "plain_text w" and n: "plain_text n" and t: "take (length (w @ ''='')) (n @ ''='' @ r) = w @ ''=''"
  shows "n = w"
proof -
  from t obtain x where "n @ ''='' @ r = (w @ ''='') @ x" by (metis append_take_drop_id)
  then have "takeWhile (\<lambda>c. c \<noteq> CHR ''='') (n @ CHR ''='' # r) =
    takeWhile (\<lambda>c. c \<noteq> CHR ''='') (w @ CHR ''='' # x)" by simp
  then show ?thesis using takeWhile_plain [OF w] takeWhile_plain [OF n] by simp
qed

subsection \<open>The reader of a field\<close>

lemma seek_step:
  "take (length key) (c # cs) \<noteq> key \<Longrightarrow> seekField key before (c # cs) = seekField key (Some c) cs"
  by (subst seekField.simps) simp

lemma seek_in_value:
  assumes "plain_text w"
  shows "plain_text a \<Longrightarrow> seekField (w @ ''='') before (a @ CHR ''&'' # r) = seekField (w @ ''='') (Some (CHR ''&'')) r"
proof (induction a arbitrary: before)
  case Nil
  show ?case using seek_step no_key_in_value [OF assms, of "[]" "CHR ''&'' # r"] by (simp add: is_end_def)
next
  case (Cons c a)
  have "take (length (w @ ''='')) (c # a @ CHR ''&'' # r) \<noteq> w @ ''=''"
    using no_key_in_value [OF assms Cons.prems, of "CHR ''&'' # r"] by (simp add: is_end_def)
  from seek_step [OF this, of before] Cons show ?case by simp
qed

lemma seek_last_value:
  assumes "plain_text w"
  shows "plain_text a \<Longrightarrow> seekField (w @ ''='') before a = None"
proof (induction a arbitrary: before)
  case Nil
  show ?case by (subst seekField.simps) simp
next
  case (Cons c a)
  have "take (length (w @ ''='')) (c # a) \<noteq> w @ ''=''"
    using no_key_in_value [OF assms Cons.prems, of "[]"] by (simp add: is_end_def)
  from seek_step [OF this, of before] Cons show ?case by simp
qed

lemma seek_found: "starts_field before \<Longrightarrow> seekField key before (key @ r) = Some r"
  by (subst seekField.simps) simp

lemma seek_other_name:
  assumes w: "plain_text w" "w \<noteq> []"
  shows "plain_text n \<Longrightarrow> \<not> starts_field before \<or> n \<noteq> w \<Longrightarrow>
    seekField (w @ ''='') before (n @ CHR ''='' # r) = seekField (w @ ''='') (Some (CHR ''='')) r"
proof (induction n arbitrary: before)
  case Nil
  have "take (length (w @ ''='')) (CHR ''='' # r) \<noteq> w @ ''=''"
    using key_in_name [OF w(1), of "[]" r] w(2) by auto
  from seek_step [OF this, of before] show ?case by simp
next
  case (Cons c n)
  show ?case
  proof (cases "c # n = w")
    case True
    then have "(c # n) @ CHR ''='' # r = (w @ ''='') @ r" by simp
    then show ?thesis using Cons.prems True
      by (subst seekField.simps) (simp only: append_eq_conv_conj [symmetric] take_append, simp)
  next
    case False
    have "take (length (w @ ''='')) (c # n @ CHR ''='' # r) \<noteq> w @ ''=''"
      using key_in_name [OF w(1) Cons.prems(1), of r] False by auto
    from seek_step [OF this, of before] Cons show ?thesis by (simp add: starts_field_def)
  qed
qed

lemma form_body_Cons:
  "form_body ((k, v) # fs) = k @ CHR ''='' # form_text v @ (if fs = [] then [] else CHR ''&'' # form_body fs)"
  by (cases fs) auto

definition plain_names :: "(string \<times> string) list \<Rightarrow> bool" where
  "plain_names fs \<longleftrightarrow> (\<forall>(k, v) \<in> set fs. plain_text k)"

lemma plain_names_simps [simp]: "plain_names []"
  "plain_names ((k, v) # fs) \<longleftrightarrow> plain_text k \<and> plain_names fs"
  by (auto simp: plain_names_def)

lemma seek_form:
  assumes w: "plain_text w" "w \<noteq> []"
  shows "plain_names fs \<Longrightarrow> starts_field before \<Longrightarrow>
    (case map_of fs w of
       None \<Rightarrow> seekField (w @ ''='') before (form_body fs) = None
     | Some v \<Rightarrow> \<exists>r. seekField (w @ ''='') before (form_body fs) = Some (form_text v @ r) \<and> is_end r)"
proof (induction fs arbitrary: before)
  case Nil
  show ?case by (subst seekField.simps) simp
next
  case (Cons f fs)
  obtain k v where f: "f = (k, v)" by fastforce
  let ?rest = "if fs = [] then [] else CHR ''&'' # form_body fs"
  have body: "form_body (f # fs) = k @ CHR ''='' # form_text v @ ?rest" by (simp only: f form_body_Cons)
  show ?case
  proof (cases "k = w")
    case True
    have "seekField (w @ ''='') before (form_body (f # fs)) = Some (form_text v @ ?rest)"
      using seek_found [OF Cons.prems(2), of "w @ ''=''" "form_text v @ ?rest"] by (simp add: body True)
    moreover have "is_end ?rest" by (simp add: is_end_def)
    ultimately show ?thesis by (auto simp: f True)
  next
    case False
    have k: "seekField (w @ ''='') before (form_body (f # fs)) =
      seekField (w @ ''='') (Some (CHR ''='')) (form_text v @ ?rest)"
      unfolding body using Cons.prems(1) False by (intro seek_other_name [OF w]) (simp_all add: f)
    show ?thesis
    proof (cases fs)
      case Nil
      with False k show ?thesis by (simp add: f seek_last_value [OF w(1)])
    next
      case (Cons g gs)
      have s: "seekField (w @ ''='') before (form_body (f # fs)) =
        seekField (w @ ''='') (Some (CHR ''&'')) (form_body fs)"
        using k by (simp add: Cons seek_in_value [OF w(1)])
      have m: "map_of (f # fs) w = map_of fs w" using False by (simp add: f)
      show ?thesis unfolding s m by (rule Cons.IH) (use Cons.prems in \<open>simp_all add: f starts_field_def\<close>)
    qed
  qed
qed

lemma takeWhile_value: "is_end r \<Longrightarrow> takeWhile (\<lambda>c. c \<noteq> CHR ''&'') (form_text v @ r) = form_text v"
proof -
  assume r: "is_end r"
  have "takeWhile (\<lambda>c. c \<noteq> CHR ''&'') (form_text v @ r) = form_text v @ takeWhile (\<lambda>c. c \<noteq> CHR ''&'') r"
    by (rule takeWhile_append2) (use form_text_plain in blast)
  with r show ?thesis by (cases r) (auto simp: is_end_def)
qed

lemma extract_form:
  assumes w: "plain_text w" "w \<noteq> []" and fs: "plain_names fs"
  shows "map_of fs w = Some v \<Longrightarrow> length (form_text v) < outSize \<Longrightarrow> c_text v = v \<Longrightarrow>
      extractFormField (form_body fs) (w @ ''='') outSize = Some v"
    and "map_of fs w = None \<Longrightarrow> extractFormField (form_body fs) (w @ ''='') outSize = None"
  using seek_form [OF w fs, of None]
  by (auto simp: extractFormField_def starts_field_def takeWhile_value urlDecode_form_text)

subsection \<open>A word in the body\<close>

lemma contains_append: "contains w s \<Longrightarrow> contains w (a @ s)"
  by (induction a) auto

lemma contains_here: "contains w (w @ r)"
proof (cases "w @ r")
  case (Cons c cs)
  have "take (length w) (w @ r) = w" by simp
  then show ?thesis by (simp add: Cons)
qed simp

lemma contains_prefix: "contains (x @ y) s \<Longrightarrow> contains x s"
proof (induction s)
  case (Cons c s)
  then show ?case by (auto dest: arg_cong [of _ _ "take (length x)"] simp: min_def)
qed simp

lemma contains_value:
  assumes "plain_text w"
  shows "plain_text a \<Longrightarrow> contains (w @ ''='') (a @ CHR ''&'' # r) \<Longrightarrow> contains (w @ ''='') r"
    and "plain_text a \<Longrightarrow> \<not> contains (w @ ''='') a"
proof (induction a)
  case Nil
  { case 1
    then show ?case using no_key_in_value [OF assms, of "[]" "CHR ''&'' # r"] by (simp add: is_end_def)
  next
    case 2
    show ?case by simp }
next
  case (Cons c a)
  { case 1
    then show ?case using no_key_in_value [OF assms, of "c # a" "CHR ''&'' # r"] Cons.IH(1)
      by (simp add: is_end_def)
  next
    case 2
    then show ?case using no_key_in_value [OF assms, of "c # a" "[]"] Cons.IH(2) by (simp add: is_end_def) }
qed

lemma contains_name:
  assumes "plain_text w"
  shows "plain_text n \<Longrightarrow> contains (w @ ''='') (n @ CHR ''='' # r) \<Longrightarrow>
    (\<exists>p. n = p @ w) \<or> contains (w @ ''='') r"
proof (induction n)
  case Nil
  then show ?case using key_in_name [OF assms, of "[]" r] by auto
next
  case (Cons c n)
  then consider "take (length (w @ ''='')) (c # n @ CHR ''='' # r) = w @ ''=''"
    | "contains (w @ ''='') (n @ CHR ''='' # r)" by auto
  then show ?case
  proof cases
    case 1
    then have "c # n = w" using key_in_name [OF assms Cons.prems(1), of r] by simp
    then show ?thesis by (metis append_Nil)
  next
    case 2
    with Cons show ?thesis by (auto intro: exI [of _ "c # _"])
  qed
qed

lemma contains_form:
  assumes w: "plain_text w"
  shows "plain_names fs \<Longrightarrow> contains (w @ ''='') (form_body fs) \<Longrightarrow> \<exists>(k, v) \<in> set fs. \<exists>p. k = p @ w"
proof (induction fs)
  case (Cons f fs)
  obtain k v where f: "f = (k, v)" by fastforce
  let ?rest = "if fs = [] then [] else CHR ''&'' # form_body fs"
  from Cons.prems have "(\<exists>p. k = p @ w) \<or> contains (w @ ''='') (form_text v @ ?rest)"
    by (intro contains_name [OF w]) (simp_all add: f form_body_Cons)
  then consider p where "k = p @ w" | "contains (w @ ''='') (form_text v @ ?rest)" by blast
  then show ?case
  proof cases
    case 2
    with contains_value [OF w, of "form_text v"] have "fs \<noteq> []" "contains (w @ ''='') (form_body fs)"
      by (auto split: if_splits)
    with Cons f show ?thesis by auto
  qed (auto simp: f)
qed simp

section \<open>A submitted form\<close>

text \<open>
  What the installer enters. The page lists the networks that were found, if any, and then has a
  second field for the name of another one; \<open>form_selected\<close> is the choice in the list, which is
  empty for \<open>Other\<close>, and \<open>form_typed\<close> the text of the field.
\<close>

record SetupForm =
  form_selected :: string
  form_typed :: string
  form_password :: string
  form_host :: string
  form_port :: string
  form_tls :: bool
  form_username :: string
  form_brokerPassword :: string

text \<open>The fields of the page in its order; an unchecked box is not sent.\<close>

definition setup_fields :: "DiscoveredNetwork list \<Rightarrow> SetupForm \<Rightarrow> (string \<times> string) list" where
  "setup_fields networks f =
     (if networks = [] then [(''ssid'', form_typed f)]
      else [(''ssid'', form_selected f), (''ssid_manual'', form_typed f)]) @
     [(''password'', form_password f), (''mqtt_host'', form_host f), (''mqtt_port'', form_port f)] @
     (if form_tls f then [(''mqtt_tls'', ''on'')] else []) @
     [(''mqtt_username'', form_username f), (''mqtt_password'', form_brokerPassword f)]"

definition chosen_ssid :: "DiscoveredNetwork list \<Rightarrow> SetupForm \<Rightarrow> string" where
  "chosen_ssid networks f = (if networks = [] \<or> form_selected f = [] then form_typed f else form_selected f)"

text \<open>What the fields can carry: no NUL, and no more than the buffer once it is encoded.\<close>

definition fits_field :: "string \<Rightarrow> nat \<Rightarrow> bool" where
  "fits_field v outSize \<longleftrightarrow> length (form_text v) < outSize \<and> c_text v = v"

definition setup_fits :: "DiscoveredNetwork list \<Rightarrow> SetupForm \<Rightarrow> bool" where
  "setup_fits networks f \<longleftrightarrow>
     fits_field (chosen_ssid networks f) SSID_BUFFER_SIZE \<and> length (form_typed f) \<le> 32 \<and>
     fits_field (form_password f) PASSWORD_BUFFER_SIZE \<and>
     fits_field (form_host f) HOST_BUFFER_SIZE \<and> fits_field (form_port f) 8 \<and>
     fits_field (form_username f) USERNAME_BUFFER_SIZE \<and>
     fits_field (form_brokerPassword f) PASSWORD_BUFFER_SIZE"

text \<open>The credentials the form stands for.\<close>

definition form_wifi :: "DiscoveredNetwork list \<Rightarrow> SetupForm \<Rightarrow> WiFiCredentials" where
  "form_wifi networks f = \<lparr>cred_ssid = chosen_ssid networks f, cred_password = form_password f\<rparr>"

definition form_broker :: "SetupForm \<Rightarrow> MqttCredentials" where
  "form_broker f =
     \<lparr>cred_host = form_host f, cred_port = of_int (atoi (form_port f)), cred_useTls = form_tls f,
      cred_username = form_username f, cred_brokerPassword = form_brokerPassword f\<rparr>"

lemma atoi_decimal: "atoi (decimal n) = int n"
proof -
  have "takeWhile is_digit (decimal n) = decimal n"
    using decimal_digits [of n] by (simp add: takeWhile_eq_all_conv list_all_iff)
  then show ?thesis using scan_sign_digits [of n "[]"]
    by (simp add: atoi_def del: takeWhile_eq_all_conv)
qed

lemma form_text_no_nul: "CHR 0x00 \<notin> set (form_text v)"
proof -
  have k: "\<not> kept_char (CHR 0x00)" by (simp add: kept_char_def is_digit_def lower_def)
  have "CHR 0x00 \<notin> set (form_char x)" for x
  proof -
    have b: "unat (of_nat (of_char x) :: u8) < 256"
      using unsigned_less [of "of_nat (of_char x) :: u8", where ?'a = nat] by simp
    then have d: "unat (of_nat (of_char x) :: u8) div 16 < 16" "unat (of_nat (of_char x) :: u8) mod 16 < 16" by auto
    show ?thesis using k hex_digit_kept [OF d(1)] hex_digit_kept [OF d(2)]
      by (auto simp: form_char_def hex_byte_def split: if_splits)
  qed
  then show ?thesis by (auto simp: form_text_def)
qed

lemma form_body_no_nul: "\<forall>(k, v) \<in> set fs. CHR 0x00 \<notin> set k \<Longrightarrow> CHR 0x00 \<notin> set (form_body fs)"
  by (induction fs) (auto simp: form_body_Cons form_text_no_nul split: if_splits)

lemma length_form_body:
  "length (form_body fs) \<le> sum_list (map (\<lambda>(k, v). length k + length (form_text v) + 2) fs)"
  by (induction fs) (auto simp: form_body_Cons)

lemma length_form_text: "length (form_text v) \<le> 3 * length v"
proof (induction v)
  case (Cons c v)
  have "length (form_char c) \<le> 3" by (simp add: form_char_def hex_byte_def)
  with Cons show ?case by (simp add: form_text_def)
qed (simp add: form_text_def)

text \<open>The whole form is received, and every field is read as it was typed.\<close>

lemma setup_body:
  assumes fits: "setup_fits networks f" and whole: "length (form_body (setup_fields networks f)) \<le> received"
  shows "c_text (take (min received (BODY_SIZE - 1)) (form_body (setup_fields networks f))) =
    form_body (setup_fields networks f)"
proof -
  have on: "length (form_text ''on'') = 2" by (simp add: form_text_def form_char_def kept_char_def lower_def)
  have empty: "form_text [] = []" by (simp add: form_text_def)
  have typed: "length (form_text (form_typed f)) \<le> 96"
    using length_form_text [of "form_typed f"] fits by (simp add: setup_fits_def)
  have "length (form_body (setup_fields networks f)) \<le> 767"
    using length_form_body [of "setup_fields networks f"] fits typed
    by (auto simp: setup_fields_def setup_fits_def fits_field_def chosen_ssid_def on empty SSID_BUFFER_SIZE_def
        PASSWORD_BUFFER_SIZE_def HOST_BUFFER_SIZE_def USERNAME_BUFFER_SIZE_def split: if_splits)
  moreover have "CHR 0x00 \<notin> set (form_body (setup_fields networks f))"
    by (rule form_body_no_nul) (auto simp: setup_fields_def)
  ultimately show ?thesis using whole by (auto simp: BODY_SIZE_def intro: c_text_eq_self)
qed

lemma setup_names: "plain_names (setup_fields networks f)"
  by (simp add: setup_fields_def)

lemma setup_text:
  assumes "plain_text w" "w \<noteq> []" "map_of (setup_fields networks f) w = Some v" "fits_field v outSize"
  shows "formText (form_body (setup_fields networks f)) (w @ ''='') outSize = v"
  using extract_form(1) [OF assms(1,2) setup_names assms(3)] assms(4) by (simp add: formText_def fits_field_def)

lemma setup_absent:
  assumes "plain_text w" "w \<noteq> []" "map_of (setup_fields networks f) w = None"
  shows "formText (form_body (setup_fields networks f)) (w @ ''='') outSize = []"
  using extract_form(2) [OF assms(1,2) setup_names assms(3)] by (simp add: formText_def)

lemma setup_tls: "contains ''mqtt_tls=on'' (form_body (setup_fields networks f)) \<longleftrightarrow> form_tls f"
proof
  assume "contains ''mqtt_tls=on'' (form_body (setup_fields networks f))"
  then have "contains (''mqtt_tls'' @ ''='') (form_body (setup_fields networks f))"
    using contains_prefix [of "''mqtt_tls=''" "''on''"] by simp
  then obtain k v p where k: "(k, v) \<in> set (setup_fields networks f)" "k = p @ ''mqtt_tls''"
    using contains_form [OF _ setup_names, of "''mqtt_tls''" networks f] by fastforce
  then have "rev k = rev ''mqtt_tls'' @ rev p" by simp
  with k(1) show "form_tls f" by (auto simp: setup_fields_def split: if_splits)
next
  assume tls: "form_tls f"
  have on: "form_text ''on'' = ''on''" by (simp add: form_text_def form_char_def kept_char_def lower_def)
  have "\<exists>a b. form_body (setup_fields networks f) = a @ ''mqtt_tls=on'' @ b"
  proof (intro exI)
    show "form_body (setup_fields networks f) =
      ((if networks = [] then ''ssid='' @ form_text (form_typed f)
        else ''ssid='' @ form_text (form_selected f) @ ''&ssid_manual='' @ form_text (form_typed f)) @
       ''&password='' @ form_text (form_password f) @
       ''&mqtt_host='' @ form_text (form_host f) @ ''&mqtt_port='' @ form_text (form_port f) @ ''&'') @ ''mqtt_tls=on'' @
      (''&mqtt_username='' @ form_text (form_username f) @ ''&mqtt_password='' @
       form_text (form_brokerPassword f))"
      by (simp add: setup_fields_def tls on)
  qed
  then show "contains ''mqtt_tls=on'' (form_body (setup_fields networks f))"
    using contains_append [OF contains_here] by metis
qed

text \<open>The name of the network: the choice in the list, or the field where there is none.\<close>

lemma setup_ssid:
  assumes fits: "setup_fits networks f"
  shows "(let listed = formText (form_body (setup_fields networks f)) ''ssid='' SSID_BUFFER_SIZE
          in if listed = [] then formText (form_body (setup_fields networks f)) ''ssid_manual='' SSID_BUFFER_SIZE
             else listed) = chosen_ssid networks f"
proof -
  let ?t = "\<lambda>w. formText (form_body (setup_fields networks f)) (w @ ''='') SSID_BUFFER_SIZE"
  have e: "fits_field [] SSID_BUFFER_SIZE" by (simp add: fits_field_def form_text_def SSID_BUFFER_SIZE_def c_text_def)
  have c: "fits_field (chosen_ssid networks f) SSID_BUFFER_SIZE" using fits by (simp add: setup_fits_def)
  consider (manual) "networks = []" | (other) "networks \<noteq> []" "form_selected f = []"
    | (listed) "networks \<noteq> []" "form_selected f \<noteq> []" by blast
  then have "(if ?t ''ssid'' = [] then ?t ''ssid_manual'' else ?t ''ssid'') = chosen_ssid networks f"
  proof cases
    case manual
    have "?t ''ssid'' = form_typed f"
      by (rule setup_text) (use manual c in \<open>simp_all add: setup_fields_def chosen_ssid_def\<close>)
    moreover have "?t ''ssid_manual'' = []"
      by (rule setup_absent) (simp_all add: setup_fields_def manual)
    ultimately show ?thesis using manual by (simp add: chosen_ssid_def)
  next
    case other
    have "?t ''ssid'' = []" by (rule setup_text) (use other e in \<open>simp_all add: setup_fields_def\<close>)
    moreover have "?t ''ssid_manual'' = form_typed f"
      by (rule setup_text) (use other c in \<open>simp_all add: setup_fields_def chosen_ssid_def\<close>)
    ultimately show ?thesis using other by (simp add: chosen_ssid_def)
  next
    case listed
    have "?t ''ssid'' = form_selected f"
      by (rule setup_text) (use listed c in \<open>simp_all add: setup_fields_def chosen_ssid_def\<close>)
    with listed show ?thesis by (simp add: chosen_ssid_def)
  qed
  then show ?thesis by (simp only: Let_def append_Cons append_Nil)
qed

lemma handlePostSave_setup:
  assumes fits: "setup_fits networks f" and whole: "length (form_body (setup_fields networks f)) \<le> received"
  shows "handlePostSave api created received (form_body (setup_fields networks f)) s =
    (let (wifiSaved, w) = save_wifi api (form_wifi networks f) (portal_wifi s);
         (mqttSaved, m) = (if form_host f = [] then (True, portal_mqtt s)
                           else save_mqtt api (form_broker f) (portal_mqtt s));
         s1 = s\<lparr>portal_wifi := w, portal_mqtt := m\<rparr>
     in (Some (if \<not> wifiSaved then PAGE_REJECTED else if mqttSaved then PAGE_SAVED else PAGE_MQTT_REJECTED),
         if wifiSaved then scheduleRestart created s1 else s1))"
proof -
  let ?body = "form_body (setup_fields networks f)"
  have ne: "?body \<noteq> []" by (cases networks) (simp_all add: setup_fields_def)
  then have "0 < length ?body" by simp
  with whole have r: "received \<noteq> 0" by linarith
  have "formText ?body (''password'' @ ''='') PASSWORD_BUFFER_SIZE = form_password f"
    "formText ?body (''mqtt_host'' @ ''='') HOST_BUFFER_SIZE = form_host f"
    "formText ?body (''mqtt_port'' @ ''='') 8 = form_port f"
    "formText ?body (''mqtt_username'' @ ''='') USERNAME_BUFFER_SIZE = form_username f"
    "formText ?body (''mqtt_password'' @ ''='') PASSWORD_BUFFER_SIZE = form_brokerPassword f"
    by (rule setup_text; use fits in \<open>simp add: setup_fields_def setup_fits_def\<close>)+
  note texts = this [simplified] setup_ssid [OF fits, unfolded Let_def]
  show ?thesis
    unfolding handlePostSave_def Let_def setup_body [OF fits whole] texts setup_tls
    using ne r by (simp add: save_wifi_def save_mqtt_def form_wifi_def form_broker_def split_beta)
qed

text \<open>
  C21: The form of the setup page is saved as it was filled in, whether the page lists networks or not.
  When every text fits its buffer once it is encoded, the name typed for another network has at most the
  32 characters the page allows, one read of the request gives the whole form, and the portal
  answers that it has saved it, the storage holds the network chosen in the list, or typed where none was
  chosen, and its password; and, where a broker host was entered, the broker's host, credentials, choice of TLS and
  the port, which is the number entered when that is below 65536 and otherwise its remainder. Without
  a host the broker's settings are as they were. A restart is then scheduled, if its timer exists or
  can be created.
\<close>

theorem portal_saves_form:
  assumes laws: "settings_laws api" and fits: "setup_fits networks f"
    and whole: "length (form_body (setup_fields networks f)) \<le> received"
    and saved: "handlePostSave api created received (form_body (setup_fields networks f)) s = (Some PAGE_SAVED, s')"
  shows "wifi_load api (portal_wifi s') = Some \<lparr>cred_ssid = chosen_ssid networks f, cred_password = form_password f\<rparr> \<and>
    (if form_host f = [] then portal_mqtt s' = portal_mqtt s
     else \<exists>port. mqtt_load api (portal_mqtt s') =
         Some \<lparr>cred_host = form_host f, cred_port = port, cred_useTls = form_tls f,
               cred_username = form_username f, cred_brokerPassword = form_brokerPassword f\<rparr> \<and>
       (\<forall>k. form_port f = decimal k \<longrightarrow> unat port = k mod 65536)) \<and>
    restartTimer s' = (if restartTimer s \<noteq> None \<or> created then Some True else None)"
proof -
  obtain m where w: "save_wifi api (form_wifi networks f) (portal_wifi s) = (True, portal_wifi s')"
    and m: "(if form_host f = [] then (True, portal_mqtt s) else save_mqtt api (form_broker f) (portal_mqtt s)) =
      (True, portal_mqtt s')"
    and r: "restartTimer s' = (if restartTimer s \<noteq> None \<or> created then Some True else None)"
    using saved by (auto simp: handlePostSave_setup [OF fits whole] scheduleRestart_def Let_def
        split: prod.splits if_splits)
  have kept: "kept_wifi (form_wifi networks f) = form_wifi networks f" "kept_mqtt (form_broker f) = form_broker f"
    using fits by (simp_all add: kept_wifi_def kept_mqtt_def setup_fits_def fits_field_def form_wifi_def form_broker_def)
  have port: "unat (cred_port (form_broker f)) = k mod 65536" if "form_port f = decimal k" for k
    using that by (simp add: form_broker_def atoi_decimal unsigned_of_nat take_bit_eq_mod)
  have "mqtt_load api (portal_mqtt s') = Some (form_broker f)" if "form_host f \<noteq> []"
    using mqtt_store.load_saved [OF laws, of "form_broker f" "portal_mqtt s" "portal_mqtt s'"] m kept that by simp
  moreover have "portal_mqtt s' = portal_mqtt s" if "form_host f = []" using m that by simp
  moreover have "wifi_load api (portal_wifi s') = Some (form_wifi networks f)"
    using wifi_store.load_saved [OF laws w] kept by simp
  ultimately show ?thesis using r port unfolding form_wifi_def form_broker_def by auto
qed

text \<open>A page that lists two networks, of which another one is typed.\<close>

definition example_networks :: "DiscoveredNetwork list" where
  "example_networks = [\<lparr>dn_ssid = ''Cafe'', dn_rssi = - 40\<rparr>, \<lparr>dn_ssid = ''Home'', dn_rssi = - 60\<rparr>]"

definition example_form :: SetupForm where
  "example_form = \<lparr>form_selected = [], form_typed = ''Home 2&3'', form_password = ''p%=+ ?'', form_host = ''10.0.0.2'',
     form_port = ''8883'', form_tls = True, form_username = ''kw'', form_brokerPassword = ''a=b''\<rparr>"

lemma text_8883: "decimal 8883 = ''8883''"
  by (simp add: decimal.simps [of 8883] decimal.simps [of 888] decimal.simps [of 88] decimal.simps [of 8] digit_char_def)
    code_simp

definition blank_portal :: "_ Portal" where
  "blank_portal = \<lparr>portal_wifi = blank_ram, portal_mqtt = blank_ram, restartTimer = None\<rparr>"

theorem portal_saves_form_witness:
  "\<exists>s' broker. handlePostSave ram_settings True 700 (form_body (setup_fields example_networks example_form)) blank_portal =
       (Some PAGE_SAVED, s') \<and>
     wifi_load ram_settings (portal_wifi s') = Some \<lparr>cred_ssid = ''Home 2&3'', cred_password = ''p%=+ ?''\<rparr> \<and>
     mqtt_load ram_settings (portal_mqtt s') = Some broker \<and> unat (cred_port broker) = 8883 \<and>
     restartTimer s' = Some True"
proof -
  let ?body = "form_body (setup_fields example_networks example_form)"
  let ?r = "handlePostSave ram_settings True 700 ?body blank_portal"
  have fits: "setup_fits example_networks example_form" by code_simp
  have whole: "length ?body \<le> 700" by code_simp
  have wifi: "form_wifi example_networks example_form = \<lparr>cred_ssid = ''Home 2&3'', cred_password = ''p%=+ ?''\<rparr>"
    by (simp add: form_wifi_def chosen_ssid_def example_form_def example_networks_def)
  have broker: "form_broker example_form = \<lparr>cred_host = ''10.0.0.2'', cred_port = 8883, cred_useTls = True,
      cred_username = ''kw'', cred_brokerPassword = ''a=b''\<rparr>"
    by (simp add: form_broker_def example_form_def atoi_decimal [of 8883, unfolded text_8883])
  have host: "form_host example_form \<noteq> []" by (simp add: example_form_def)
  have "fst (save_wifi ram_settings (form_wifi example_networks example_form) blank_ram)"
    by (simp add: wifi save_wifi_def wifi_save_def text_or_empty_def SSID_BUFFER_SIZE_def PASSWORD_BUFFER_SIZE_def
        c_text_def Let_def ram_settings_def ram_nvs_def)
  moreover have "fst (save_mqtt ram_settings (form_broker example_form) blank_ram)"
    by (simp add: broker save_mqtt_def mqtt_save_def text_or_empty_def HOST_BUFFER_SIZE_def PASSWORD_BUFFER_SIZE_def
        USERNAME_BUFFER_SIZE_def c_text_def Let_def ram_settings_def ram_nvs_def split_beta)
  ultimately have "fst ?r = Some PAGE_SAVED"
    by (simp add: handlePostSave_setup [OF fits whole] Let_def split_beta host blank_portal_def)
  then have r: "?r = (Some PAGE_SAVED, snd ?r)" by (metis prod.collapse)
  have "form_port example_form = decimal 8883" "form_host example_form \<noteq> []"
    "chosen_ssid example_networks example_form = ''Home 2&3''" "form_password example_form = ''p%=+ ?''"
    by (simp_all add: example_form_def example_networks_def chosen_ssid_def text_8883)
  with portal_saves_form [OF ram_settings_laws fits whole r] r show ?thesis by (auto simp: blank_portal_def)
qed

text \<open>
  A text whose encoding does not fit is cut, and what is left of it is saved: of a password of
  thirty exclamation marks, which the page lets the installer enter, 21 remain.
\<close>

lemma long_password_cut:
  "length (replicate 30 (CHR ''!'')) < PASSWORD_BUFFER_SIZE \<and>
   extractFormField (form_body [(''ssid'', ''Home''), (''password'', replicate 30 (CHR ''!''))]) ''password=''
     PASSWORD_BUFFER_SIZE = Some (replicate 21 (CHR ''!'') @ ''%'')"
  by code_simp

text \<open>
  Without a port, which the page suggests is 1883, the broker is not saved; a port that the page lets
  the installer type but that no port can be is saved as its remainder. When the first read gives
  only a part of the form, the rest counts as empty, and the portal still answers that all is saved.
\<close>

lemma port_has_no_default:
  "fst (handlePostSave ram_settings True 700 ''ssid=Home&password=x&mqtt_host=broker&mqtt_port='' blank_portal) =
   Some PAGE_MQTT_REJECTED"
  by code_simp

lemma port_wraps: "form_port f = decimal 70000 \<Longrightarrow> cred_port (form_broker f) = 4464"
  by (simp add: form_broker_def atoi_decimal)

lemma partial_form_saved:
  "(case handlePostSave ram_settings True 20 ''ssid=Home&password=secret&mqtt_host=broker&mqtt_port=1883'' blank_portal of
      (page, s) \<Rightarrow> (page, map_option cred_password (wifi_load ram_settings (portal_wifi s)),
                     mqtt_load ram_settings (portal_mqtt s))) = (Some PAGE_SAVED, Some ''s'', None)"
  by code_simp

section \<open>The page\<close>

text \<open>A network's name cannot leave the attribute it is written into, and it fits the buffer.\<close>

lemma appendHtmlEscaped_safe:
  "set out \<inter> {CHR ''<'', CHR ''>'', CHR 0x22, CHR 0x27} = {} \<Longrightarrow> length out < outSize \<Longrightarrow>
   set (appendHtmlEscaped out outSize cs) \<inter> {CHR ''<'', CHR ''>'', CHR 0x22, CHR 0x27} = {} \<and>
   length (appendHtmlEscaped out outSize cs) < outSize"
  by (induction cs arbitrary: out) (auto simp: html_entity_def split: if_splits)

text \<open>At most sixteen networks are offered, each with a name of its own.\<close>

definition networks_ok :: "DiscoveredNetwork list \<Rightarrow> bool" where
  "networks_ok ns \<longleftrightarrow> length ns \<le> MAX_DISCOVERED_NETWORKS \<and> distinct (map dn_ssid ns) \<and>
     (\<forall>d \<in> set ns. dn_ssid d \<noteq> [] \<and> length (dn_ssid d) < 33)"

lemma map_ssid_update_first:
  "(\<And>d. dn_ssid (f d) = dn_ssid d) \<Longrightarrow> map dn_ssid (update_first P f ns) = map dn_ssid ns"
  by (induction ns) auto

lemma networks_ok_names:
  assumes "map dn_ssid ms = map dn_ssid ns" "networks_ok ns"
  shows "networks_ok ms"
proof -
  have l: "length ms = length ns" using arg_cong [OF assms(1), of length] by simp
  have d: "distinct (map dn_ssid ms) = distinct (map dn_ssid ns)" by (simp only: assms(1))
  have "dn_ssid ` set ms = dn_ssid ` set ns" using arg_cong [OF assms(1), of set] by simp
  moreover have "\<forall>s \<in> dn_ssid ` set ns. s \<noteq> [] \<and> length s < 33" using assms(2) by (simp add: networks_ok_def)
  ultimately have n: "\<forall>s \<in> dn_ssid ` set ms. s \<noteq> [] \<and> length s < 33" by simp
  show ?thesis using assms(2) l d n unfolding networks_ok_def by simp
qed

lemma addNetwork_ok:
  assumes ok: "networks_ok ns" and fits: "length (c_text (dn_ssid r)) < 33"
  shows "networks_ok (addNetwork r ns)"
proof (cases "c_text (dn_ssid r) = []")
  case False
  let ?s = "c_text (dn_ssid r)"
  let ?P = "\<lambda>d. take 33 (dn_ssid d) = take 33 ?s"
  show ?thesis
  proof (cases "\<exists>d \<in> set ns. ?P d")
    case True
    have "networks_ok (update_first ?P (\<lambda>d. if sint (dn_rssi d) < sint (dn_rssi r) then d\<lparr>dn_rssi := dn_rssi r\<rparr> else d) ns)"
      by (rule networks_ok_names [OF map_ssid_update_first ok]) simp
    with True False show ?thesis by (simp add: addNetwork_def Let_def)
  next
    case no: False
    then have new: "?s \<notin> dn_ssid ` set ns" by auto
    have "copyTruncated 33 (Some ?s) = ?s" using fits by (simp add: copyTruncated_def)
    with no False new ok fits show ?thesis by (auto simp: addNetwork_def Let_def networks_ok_def)
  qed
qed (use ok in \<open>simp add: addNetwork_def\<close>)

lemma fold_addNetwork_ok:
  "networks_ok ns \<Longrightarrow> \<forall>r \<in> set rs. length (c_text (dn_ssid r)) < 33 \<Longrightarrow> networks_ok (fold addNetwork rs ns)"
  by (induction rs arbitrary: ns) (simp_all add: addNetwork_ok)

lemma scanNearbyNetworks_ok:
  assumes "\<And>rs r. scan = Some rs \<Longrightarrow> r \<in> set rs \<Longrightarrow> length (c_text (dn_ssid r)) < 33"
  shows "networks_ok (scanNearbyNetworks scan)"
proof -
  have "networks_ok []" by (simp add: networks_ok_def)
  then show ?thesis
    by (cases scan) (simp_all add: scanNearbyNetworks_def fold_addNetwork_ok assms)
qed

end
