(* ===== verification/Network_Commands.thy ===== *)
theory Network_Commands
  imports Setup_Portal
begin

text \<open>
  Central's side of the network (\<open>src/central/namespace.h\<close>, \<open>CentralApplication.cpp\<close>): the
  console's network command, and the two triggers that open the setup portal and start the broker
  client. What the driver, the portal and the broker client answer is a parameter of each step.
\<close>

datatype NetworkCommandTarget = TARGET_WIFI | TARGET_MQTT
datatype NetworkAction = STATUS | SET | CLEAR | SETUP | SCAN | SET_CHANNEL

record NetworkCommandRequest =
  net_target :: NetworkCommandTarget
  net_action :: NetworkAction
  net_ssid :: string
  net_wifiPassword :: string
  net_wifiChannel :: u8
  net_mqttHost :: string
  net_mqttPort :: u16
  net_mqttUseTls :: bool
  net_mqttUsername :: string
  net_mqttPassword :: string

definition makeNetworkRequest :: "NetworkCommandTarget \<Rightarrow> NetworkAction \<Rightarrow> NetworkCommandRequest" where
  "makeNetworkRequest target action =
     \<lparr>net_target = target, net_action = action, net_ssid = [], net_wifiPassword = [], net_wifiChannel = 0,
      net_mqttHost = [], net_mqttPort = 0, net_mqttUseTls = False, net_mqttUsername = [], net_mqttPassword = []\<rparr>"

text \<open>The radio channel is kept in the namespace the station also writes.\<close>

record 'n Network =
  station :: "'n WiFiManager"
  wifi_nvs :: 'n
  mqtt_nvs :: 'n
  mqttStarted :: bool
  mqttCredentialsUnavailableLogged :: bool
  mqttBrokerStartupFailedLogged :: bool
  portalActive :: bool

record NetworkAnswers =
  networksPrinted :: bool
  portalStarts :: bool
  accessPoint :: "(string \<times> u8) option"
  scanForSsid :: "string \<Rightarrow> u8 option"
  brokerStarts :: "MqttCredentials \<Rightarrow> bool"

definition findChannelForSsid :: "NetworkAnswers \<Rightarrow> c_str \<Rightarrow> 'n WiFiManager \<Rightarrow> u8 option" where
  "findChannelForSsid env ssid w =
     (if text_or_empty ssid = [] then None
      else if wifi_isConnected w
      then (case accessPoint env of
              Some (name, primary) \<Rightarrow> if name = text_or_empty ssid then Some primary else None
            | None \<Rightarrow> None)
      else scanForSsid env (text_or_empty ssid))"

definition networkResult :: "bool \<Rightarrow> string \<Rightarrow> string \<Rightarrow> CommandResult" where
  "networkResult ok yes no = commandResult ok ok (if ok then yes else no)"

definition portal_begin :: "NetworkAnswers \<Rightarrow> 'n Network \<Rightarrow> bool \<times> 'n Network" where
  "portal_begin env w =
     (if portalActive w then (True, w)
      else if portalStarts env then (True, w\<lparr>portalActive := True\<rparr>) else (False, w))"

definition saveChannel :: "'m SettingsApi \<Rightarrow> u8 \<Rightarrow> 'm Network \<Rightarrow> bool \<times> 'm Network" where
  "saveChannel api channel w =
     (case channel_save api channel (wm_channel_nvs (station w)) of
        (ok, n) \<Rightarrow> (ok, w\<lparr>station := (station w)\<lparr>wm_channel_nvs := n\<rparr>\<rparr>))"

definition consoleWifi ::
  "'n SettingsApi \<Rightarrow> NetworkAnswers \<Rightarrow> NetworkCommandRequest \<Rightarrow> 'n Network \<Rightarrow> CommandResult \<times> 'n Network" where
  "consoleWifi api env r w =
     (case net_action r of
        STATUS \<Rightarrow> (commandResult True True ''status printed'', w)
      | SCAN \<Rightarrow> (networkResult (networksPrinted env) ''scan completed'' ''scan failed'', w)
      | SETUP \<Rightarrow>
          (case portal_begin env w of
             (ok, w') \<Rightarrow> (networkResult ok ''setup AP active at 192.168.4.1'' ''setup AP could not start'', w'))
      | SET \<Rightarrow>
          (case wifi_save api (Some (net_ssid r)) (Some (net_wifiPassword r)) (wifi_nvs w) of
             (False, n) \<Rightarrow> (commandResult False False ''Wi-Fi credentials rejected'', w\<lparr>wifi_nvs := n\<rparr>)
           | (True, n) \<Rightarrow>
               let w1 = w\<lparr>wifi_nvs := n\<rparr>;
                   (found, w2) = (case findChannelForSsid env (Some (net_ssid r)) (station w1) of
                     None \<Rightarrow> (None, w1)
                   | Some channel \<Rightarrow> (case saveChannel api channel w1 of (ok, w') \<Rightarrow> (if ok then Some channel else None, w')))
               in (commandResult True True
                     (case found of
                        Some channel \<Rightarrow> ''Wi-Fi saved on channel '' @ decimal (unat channel) @ ''; restart Central to apply''
                      | None \<Rightarrow> ''Wi-Fi saved; restart Central to apply (SSID not currently in range - set the radio channel manually if it still mismatches)''),
                   w2))
      | SET_CHANNEL \<Rightarrow>
          (case saveChannel api (net_wifiChannel r) w of
             (ok, w') \<Rightarrow> (networkResult ok ''radio channel saved; restart Central to apply''
                           ''radio channel rejected (must be 1-14)'', w'))
      | CLEAR \<Rightarrow>
          (case clear_namespace api (wifi_nvs w) of
             (ok, n) \<Rightarrow> (networkResult ok ''Wi-Fi credentials cleared; restart Central''
                          ''Wi-Fi credentials could not be cleared'', w\<lparr>wifi_nvs := n\<rparr>)))"

definition consoleMqtt ::
  "'n SettingsApi \<Rightarrow> NetworkCommandRequest \<Rightarrow> 'n Network \<Rightarrow> CommandResult \<times> 'n Network" where
  "consoleMqtt api r w =
     (case net_action r of
        STATUS \<Rightarrow> (commandResult True True ''status printed'', w)
      | SET \<Rightarrow>
          (case mqtt_save api (Some (net_mqttHost r)) (net_mqttPort r) (net_mqttUseTls r)
                  (Some (net_mqttUsername r)) (Some (net_mqttPassword r)) (mqtt_nvs w) of
             (ok, n) \<Rightarrow>
               let w1 = w\<lparr>mqtt_nvs := n\<rparr>
               in (networkResult ok ''MQTT saved; restart Central to apply'' ''MQTT settings rejected'',
                   if ok
                   then w1\<lparr>mqttStarted := False, mqttCredentialsUnavailableLogged := False,
                           mqttBrokerStartupFailedLogged := False\<rparr>
                   else w1))
      | CLEAR \<Rightarrow>
          (case clear_namespace api (mqtt_nvs w) of
             (ok, n) \<Rightarrow>
               let w1 = w\<lparr>mqtt_nvs := n\<rparr>
               in (networkResult ok ''MQTT credentials cleared; restart Central'' ''MQTT credentials could not be cleared'',
                   if ok then w1\<lparr>mqttStarted := False\<rparr> else w1))
      | _ \<Rightarrow> (commandResult False False ''unsupported network command'', w))"

definition consoleNetwork ::
  "'n SettingsApi \<Rightarrow> NetworkAnswers \<Rightarrow> NetworkCommandRequest \<Rightarrow> 'n Network \<Rightarrow> CommandResult \<times> 'n Network" where
  "consoleNetwork api env r w =
     (if net_target r = TARGET_WIFI then consoleWifi api env r w else consoleMqtt api r w)"

definition consoleNetworkReadable ::
  "'n SettingsApi \<Rightarrow> NetworkAnswers \<Rightarrow> NetworkCommandRequest \<Rightarrow> 'n Network \<Rightarrow> CommandResult \<times> 'n Network" where
  "consoleNetworkReadable api env r w =
     (if net_action r = STATUS then (commandResult True True ''status printed'', w)
      else consoleNetwork api env r w)"

section \<open>Triggers\<close>

definition checkMqttStartTrigger :: "'n SettingsApi \<Rightarrow> NetworkAnswers \<Rightarrow> 'n Network \<Rightarrow> 'n Network" where
  "checkMqttStartTrigger api env w =
     (if mqttStarted w \<or> \<not> wifi_isConnected (station w) then w
      else case mqtt_load api (mqtt_nvs w) of
        None \<Rightarrow> w\<lparr>mqttCredentialsUnavailableLogged := True\<rparr>
      | Some credentials \<Rightarrow>
          let w1 = w\<lparr>mqttCredentialsUnavailableLogged := False\<rparr>
          in if \<not> brokerStarts env credentials then w1\<lparr>mqttBrokerStartupFailedLogged := True\<rparr>
             else w1\<lparr>mqttBrokerStartupFailedLogged := False, mqttStarted := True\<rparr>)"

definition checkWiFiProvisioningTrigger :: "'n SettingsApi \<Rightarrow> NetworkAnswers \<Rightarrow> 'n Network \<Rightarrow> 'n Network" where
  "checkWiFiProvisioningTrigger api env w =
     (if wifi_isConnected (station w) then w\<lparr>portalActive := False\<rparr>
      else if \<not> wifi_isConfigured api (wifi_nvs w) \<and> \<not> portalActive w then snd (portal_begin env w)
      else w)"

text \<open>The channel a device starts on, which the station and the mesh both use.\<close>

definition applyRadioChannelOverride :: "'n SettingsApi \<Rightarrow> bool \<Rightarrow> 'n WiFiManager \<Rightarrow> u8 option \<times> 'n WiFiManager" where
  "applyRadioChannelOverride api flashReady w =
     (if \<not> flashReady then (None, w)
      else case channel_load api (wm_channel_nvs w) of
        None \<Rightarrow> (None, w)
      | Some channel \<Rightarrow> (Some channel, setRequiredChannel channel w))"

text \<open>
  A broker that was set from the console is the one the next trigger starts, if Wi-Fi is up;
  the answer of the command tells the installer to restart Central for that.
\<close>

lemma set_broker_starts:
  assumes laws: "settings_laws api" and set: "net_target r = TARGET_MQTT" "net_action r = SET"
    and ok: "consoleNetworkReadable api env r w = (result, w')" "accepted result"
    and up: "wifi_isConnected (station w)"
  shows "mqtt_load api (mqtt_nvs w') = Some (kept_mqtt \<lparr>cred_host = net_mqttHost r, cred_port = net_mqttPort r,
      cred_useTls = net_mqttUseTls r, cred_username = net_mqttUsername r, cred_brokerPassword = net_mqttPassword r\<rparr>)"
    "(\<And>v. brokerStarts env v) \<Longrightarrow> mqttStarted (checkMqttStartTrigger api env w')"
proof -
  let ?v = "\<lparr>cred_host = net_mqttHost r, cred_port = net_mqttPort r, cred_useTls = net_mqttUseTls r,
    cred_username = net_mqttUsername r, cred_brokerPassword = net_mqttPassword r\<rparr>"
  obtain b n where s: "save_mqtt api ?v (mqtt_nvs w) = (b, n)" by fastforce
  have b: "b" and n: "mqtt_nvs w' = n" "mqttStarted w' = False" "station w' = station w"
    using ok s set
    by (auto simp: consoleNetworkReadable_def consoleNetwork_def consoleMqtt_def save_mqtt_def networkResult_def
        commandResult_def Let_def split: if_splits)
  show load: "mqtt_load api (mqtt_nvs w') = Some (kept_mqtt ?v)"
    using mqtt_store.load_saved [OF laws] s b n by simp
  show "(\<And>v. brokerStarts env v) \<Longrightarrow> mqttStarted (checkMqttStartTrigger api env w')"
    using load n up by (simp add: checkMqttStartTrigger_def Let_def)
qed

text \<open>The portal is open only while Central is not on the network, once the trigger has run.\<close>

lemma provisioning_portal:
  assumes "checkWiFiProvisioningTrigger api env w = w'"
  shows "wifi_isConnected (station w') \<Longrightarrow> \<not> portalActive w'"
    "\<not> wifi_isConnected (station w') \<Longrightarrow> \<not> wifi_isConfigured api (wifi_nvs w') \<Longrightarrow> portalStarts env \<Longrightarrow> portalActive w'"
  using assms by (auto simp: checkWiFiProvisioningTrigger_def portal_begin_def split: if_splits)

end
