(* ===== verification/Central_Console.thy ===== *)
theory Central_Console
  imports Console_Input Network_Commands
begin

text \<open>
  Central's serial console (\<open>lib/CentralConsole/CentralConsole.cpp\<close>): what a line asks for, or the
  exit code it is refused with, and what the request does to Central through the callbacks
  \<open>src/central/CentralApplication.cpp\<close> registers, all of which are. The printed texts are left
  out, and the numbering of the console's commands is a parameter. A line that asks for a restart
  does not come back.
\<close>

section \<open>Requests\<close>

datatype ConsoleRequest =
  ShowStatus | ShowDashboard | ShowBattery | ShowNodes | ShowNode MacAddress | ShowLoads | ShowLoad MacAddress u8
| RunOptimizer | ClearTerminal
| SetSensorMode bool
| SetIna219 f32 f32 f32
| SetBattery f32 f32 f32
| SetPowerPlan PowerPlanningCommandRequest
| ChangeNode ConfigCommandAction MacAddress string
| AddLoad MacAddress LoadConfiguration
| DeleteLoad MacAddress u8
| ChangeLoad LoadCommandRequest
| ChangeNetwork NetworkCommandRequest
| Simulate SimulationCommandRequest
| ChangeSystem SystemCommandRequest

type_synonym console_reply = "int + ConsoleRequest"

definition arg :: "string list \<Rightarrow> nat \<Rightarrow> c_str" where
  "arg argv i = (if i < length argv then Some (argv ! i) else None)"

text \<open>A command without arguments.\<close>

definition plain_command :: "ConsoleRequest \<Rightarrow> string list \<Rightarrow> console_reply" where
  "plain_command request argv =
     (if helpRequested argv then Inl 0 else if length argv \<noteq> 1 then Inl 1 else Inr request)"

definition console_clear :: "string list \<Rightarrow> console_reply" where
  "console_clear argv = (if length argv \<noteq> 1 then Inl 1 else Inr ClearTerminal)"

definition console_battery :: "string list \<Rightarrow> console_reply" where
  "console_battery argv =
     (let float = (\<lambda>name. parseFloat (option_value argv name)) in
      if helpRequested argv then Inl 0
      else if length argv = 1 then Inr ShowBattery
      else if arg argv 1 = Some ''setup''
      then (case (float ''capacity'', float ''soc'', float ''voltage'') of
              (Some capacity, Some soc, Some voltage) \<Rightarrow>
                if fle capacity fzero \<or> flt soc fzero \<or> flt fhundred soc \<or> fle voltage fzero then Inl 1
                else Inr (SetBattery capacity soc voltage)
            | _ \<Rightarrow> Inl 1)
      else if arg argv 1 \<noteq> Some ''plan'' then Inl 1
      else case (float ''budget'', float ''reserve'', float ''min_soc'') of
        (Some budget, Some reserve, Some minimum) \<Rightarrow>
          (case (if option_value argv ''runtime'' = None then Some fzero else float ''runtime'') of
             None \<Rightarrow> Inl 1
           | Some runtime \<Rightarrow>
               if fle budget fzero \<or> flt reserve fzero \<or> flt budget reserve \<or> flt minimum fzero \<or>
                  flt fhundred minimum \<or> flt runtime fzero
               then Inl 1
               else Inr (SetPowerPlan \<lparr>pp_P_budget = budget, pp_P_reserve = reserve,
                      pp_minimumStateOfChargePercent = minimum, pp_requiredRuntimeHours = runtime\<rparr>))
      | _ \<Rightarrow> Inl 1)"

definition console_sensor :: "string list \<Rightarrow> console_reply" where
  "console_sensor argv =
     (let option = option_value argv; float = (\<lambda>name. parseFloat (option_value argv name)) in
      if helpRequested argv \<or> length argv < 2 then Inl (if helpRequested argv then 0 else 1)
      else if length argv = 2 \<and> arg argv 1 \<in> {Some ''sim'', Some ''ina219''}
      then Inr (SetSensorMode (arg argv 1 = Some ''sim''))
      else if arg argv 1 = Some ''setup''
      then (case (float ''shunt'', float ''max_amps'', float ''ema'') of
              (Some shunt, Some amps, Some ema) \<Rightarrow>
                if fle shunt fzero \<or> fle amps fzero \<or> fle ema fzero \<or> flt fone ema then Inl 1
                else Inr (SetIna219 shunt amps ema)
            | _ \<Rightarrow> Inl 1)
      else if arg argv 1 = Some ''values''
      then
        if (option ''voltage'' = None) \<noteq> (option ''current'' = None) then Inl 1
        else if option ''voltage'' \<noteq> None \<and> (float ''voltage'' = None \<or> float ''current'' = None) then Inl 1
        else if option ''soc'' \<noteq> None \<and>
                (case float ''soc'' of None \<Rightarrow> True | Some soc \<Rightarrow> flt soc fzero \<or> flt fhundred soc) then Inl 1
        else if option ''voltage'' = None \<and> option ''soc'' = None then Inl 1
        else Inr (Simulate (SET_VALUES
               (if option ''voltage'' = None then None else Some (the (float ''voltage''), the (float ''current'')))
               (float ''soc'')))
      else Inl 1)"

definition console_node :: "string list \<Rightarrow> console_reply" where
  "console_node argv =
     (if helpRequested argv \<or> length argv < 2 then Inl (if helpRequested argv then 0 else 1)
      else if arg argv 1 = Some ''show''
      then (if length argv \<noteq> 3 then Inl 1
            else case console_parseMac (arg argv 2) of None \<Rightarrow> Inl 1 | Some mac \<Rightarrow> Inr (ShowNode mac))
      else if arg argv 1 = Some ''decommission''
      then (if length argv \<noteq> 3 then Inl 1
            else case console_parseMac (arg argv 2) of
              None \<Rightarrow> Inl 1
            | Some mac \<Rightarrow> Inr (ChangeNode DECOMMISSION_NODE mac []))
      else if arg argv 1 \<notin> {Some ''commission'', Some ''rename''} \<or> length argv < 3 then Inl 1
      else case (console_parseMac (arg argv 2), copyText 20 (option_value argv ''name'')) of
        (Some mac, Some name) \<Rightarrow>
          Inr (ChangeNode (if arg argv 1 = Some ''commission'' then COMMISSION_NODE else RENAME_NODE) mac name)
      | _ \<Rightarrow> Inl 1)"

text \<open>A setting that may be left out, for both consoles.\<close>

definition read_setting :: "(c_str \<Rightarrow> 'a option) \<Rightarrow> c_str \<Rightarrow> 'a option option" where
  "read_setting read text =
     (case text of None \<Rightarrow> Some None | Some t \<Rightarrow> (case read text of None \<Rightarrow> None | Some v \<Rightarrow> Some (Some v)))"

definition load_settings :: "string list \<Rightarrow> (u16 option \<times> LoadModeValue option \<times> AutoSchedule option) option" where
  "load_settings argv =
     (case read_setting parseUint16 (option_value argv ''priority'') of
        None \<Rightarrow> None
      | Some priority \<Rightarrow>
          (case read_setting console_parseMode (option_value argv ''mode'') of
             None \<Rightarrow> None
           | Some mode \<Rightarrow>
               (case read_setting console_parseSchedule (option_value argv ''schedule'') of
                  None \<Rightarrow> None
                | Some schedule \<Rightarrow>
                    if priority = None \<and> mode = None \<and> schedule = None then None
                    else Some (priority, mode, schedule))))"

text \<open>The settings of a new Load, for both consoles.\<close>

definition load_configuration :: "string list \<Rightarrow> LoadConfiguration option" where
  "load_configuration argv =
     (let option = option_value argv in
      case (parseUint8 (option ''pin''), copyText 16 (option ''name''), parseFloat (option ''power''),
            parseUint16 (option ''priority''), console_parsePowerType (option ''type''),
            console_parseMode (option ''mode''), console_parseSchedule (option ''schedule'')) of
        (Some pin, Some name, Some rating, Some priority, Some powerType, Some mode, Some schedule) \<Rightarrow>
          if option ''active_high'' \<notin> {Some ''on'', Some ''off''} then None
          else if flt rating fzero then None
          else Some \<lparr>conf_name = name, conf_relayPin = pin, conf_relayActiveHigh = (option ''active_high'' = Some ''on''),
                     conf_powerRatingWatts = rating, conf_powerType = powerType, conf_mode = mode,
                     conf_priority = priority, conf_schedule = schedule\<rparr>
      | _ \<Rightarrow> None)"

definition console_load :: "MacAddress \<Rightarrow> string list \<Rightarrow> console_reply" where
  "console_load ownMac argv =
     (if helpRequested argv \<or> length argv < 2 then Inl (if helpRequested argv then 0 else 1)
      else if arg argv 1 = Some ''show''
      then (if length argv = 3
            then case parseUint8 (arg argv 2) of None \<Rightarrow> Inl 1 | Some pin \<Rightarrow> Inr (ShowLoad ownMac pin)
            else if length argv = 4
            then case (console_parseMac (arg argv 2), parseUint8 (arg argv 3)) of
              (Some mac, Some pin) \<Rightarrow> Inr (ShowLoad mac pin) | _ \<Rightarrow> Inl 1
            else Inl 1)
      else if arg argv 1 = Some ''remove''
      then (if length argv \<noteq> 4 then Inl 1
            else case (console_parseMac (arg argv 2), parseUint8 (arg argv 3)) of
              (Some mac, Some pin) \<Rightarrow> Inr (DeleteLoad mac pin) | _ \<Rightarrow> Inl 1)
      else if arg argv 1 = Some ''set''
      then (if length argv < 4 then Inl 1
            else case (console_parseMac (arg argv 2), parseUint8 (arg argv 3), load_settings argv) of
              (Some mac, Some pin, Some (priority, mode, schedule)) \<Rightarrow>
                Inr (ChangeLoad \<lparr>lc_nodeMacAddress = mac, lc_relayPin = pin, lc_priority = priority,
                       lc_mode = mode, lc_schedule = schedule\<rparr>)
            | _ \<Rightarrow> Inl 1)
      else if arg argv 1 \<noteq> Some ''add'' then Inl 1
      else case (if option_value argv ''mac'' = None then Some ownMac
                 else console_parseMac (option_value argv ''mac''), load_configuration argv) of
        (Some mac, Some v) \<Rightarrow> Inr (AddLoad mac v)
      | _ \<Rightarrow> Inl 1)"

definition console_optimize :: "string list \<Rightarrow> console_reply" where
  "console_optimize argv =
     (let unit_seconds = (\<lambda>name limit factor.
            case parseUnsigned (option_value argv name) of
              None \<Rightarrow> Inl 1
            | Some parsed \<Rightarrow>
                if parsed = 0 \<or> limit < parsed then Inl 1
                else Inr (ChangeSystem (SET_OPTIMIZER_INTERVAL (Some (parsed * factor)))))
      in if helpRequested argv then Inl 0
         else if length argv = 1 \<or> (length argv = 2 \<and> arg argv 1 = Some ''run'') then Inr RunOptimizer
         else if length argv = 2 \<and> arg argv 1 = Some ''status''
         then Inr (ChangeSystem REPORT_OPTIMIZER_INTERVAL)
         else if length argv = 3 \<and> arg argv 1 = Some ''interval''
         then if option_value argv ''seconds'' \<noteq> None then unit_seconds ''seconds'' 86400 1
              else if option_value argv ''minutes'' \<noteq> None then unit_seconds ''minutes'' 1440 60
              else Inl 1
         else Inl 1)"

definition console_wifi :: "string list \<Rightarrow> console_reply" where
  "console_wifi argv =
     (let request = makeNetworkRequest TARGET_WIFI in
      if helpRequested argv then Inl 0
      else if length argv = 1 then Inr (ChangeNetwork (request STATUS))
      else if arg argv 1 = Some ''scan'' then Inr (ChangeNetwork (request SCAN))
      else if arg argv 1 = Some ''setup'' then Inr (ChangeNetwork (request SETUP))
      else if arg argv 1 = Some ''clear'' then Inr (ChangeNetwork (request CLEAR))
      else if arg argv 1 = Some ''set''
      then case (copyText SSID_BUFFER_SIZE (option_value argv ''ssid''),
                 copyText PASSWORD_BUFFER_SIZE (option_value argv ''password'')) of
        (Some ssid, Some password) \<Rightarrow>
          Inr (ChangeNetwork ((request SET)\<lparr>net_ssid := ssid, net_wifiPassword := password\<rparr>))
      | _ \<Rightarrow> Inl 1
      else Inl 1)"

definition broker_port :: "string list \<Rightarrow> bool \<Rightarrow> u16 option" where
  "broker_port argv useTls =
     (if option_value argv ''port'' = None then Some (if useTls then 8883 else 1883)
      else case parseUnsigned (option_value argv ''port'') of
        None \<Rightarrow> None
      | Some port \<Rightarrow> if port = 0 \<or> 65535 < port then None else Some (ucast port))"

definition console_mqtt :: "string list \<Rightarrow> console_reply" where
  "console_mqtt argv =
     (let request = makeNetworkRequest TARGET_MQTT; option = option_value argv;
          text = (\<lambda>size name. if option name = None then Some [] else copyText size (option name)) in
      if helpRequested argv then Inl 0
      else if length argv = 1 then Inr (ChangeNetwork (request STATUS))
      else if arg argv 1 = Some ''clear'' then Inr (ChangeNetwork (request CLEAR))
      else if arg argv 1 = Some ''set''
      then if option ''tls'' \<notin> {None, Some ''on'', Some ''off''} then Inl 1
           else case (copyText HOST_BUFFER_SIZE (option ''host''), broker_port argv (option ''tls'' = Some ''on''),
                      text USERNAME_BUFFER_SIZE ''username'', text PASSWORD_BUFFER_SIZE ''password'') of
             (Some host, Some port, Some username, Some password) \<Rightarrow>
               Inr (ChangeNetwork ((request SET)\<lparr>net_mqttHost := host, net_mqttPort := port,
                 net_mqttUseTls := (option ''tls'' = Some ''on''), net_mqttUsername := username,
                 net_mqttPassword := password\<rparr>))
           | _ \<Rightarrow> Inl 1
      else Inl 1)"

definition CONFIRM_TEXT_SIZE :: nat where "CONFIRM_TEXT_SIZE = 32"

definition console_system :: "u32 \<Rightarrow> string list \<Rightarrow> console_reply" where
  "console_system commandId argv =
     (if helpRequested argv \<or> length argv < 2 then Inl (if helpRequested argv then 0 else 1)
      else if arg argv 1 = Some ''reset''
      then if option_value argv ''mac'' \<noteq> None then Inl 1 else Inr (ChangeSystem REBOOT_CENTRAL)
      else if arg argv 1 \<noteq> Some ''factory-reset'' then Inl 1
      else
        let confirmation = option_value argv ''confirm'';
            confirmText = (case copyText CONFIRM_TEXT_SIZE confirmation of None \<Rightarrow> [] | Some text \<Rightarrow> text)
        in if confirmation \<noteq> Some ''RESET'' then Inl 1
           else if option_value argv ''mac'' = None then Inr (ChangeSystem (FACTORY_RESET_CENTRAL confirmText))
           else case console_parseMac (option_value argv ''mac'') of
             None \<Rightarrow> Inl 1
           | Some mac \<Rightarrow> Inr (ChangeSystem (FACTORY_RESET_NODE commandId confirmText (Some mac))))"

text \<open>The table of commands; another name is not a command.\<close>

definition console_command :: "MacAddress \<Rightarrow> u32 \<Rightarrow> string list \<Rightarrow> console_reply option" where
  "console_command ownMac commandId argv =
     Option.bind (arg argv 0) (map_of
       [(''status'', plain_command ShowStatus argv), (''dashboard'', plain_command ShowDashboard argv),
        (''battery'', console_battery argv), (''sensor'', console_sensor argv),
        (''nodes'', plain_command ShowNodes argv), (''node'', console_node argv),
        (''loads'', plain_command ShowLoads argv), (''load'', console_load ownMac argv),
        (''optimize'', console_optimize argv), (''wifi'', console_wifi argv), (''mqtt'', console_mqtt argv),
        (''system'', console_system commandId argv), (''clear'', console_clear argv)])"

section \<open>The callbacks\<close>

type_synonym relay_waits = "RelayTarget \<Rightarrow> RelayWait"

text \<open>
  The exit code, which is \<open>None\<close> where Central restarts. The dashboard is printed by a planning
  cycle; \<open>clock\<close> and \<open>waits\<close> are the time and the waits for the relays of that cycle.
\<close>

definition answered :: "CommandResult \<times> 'c \<Rightarrow> int option \<times> 'c" where
  "answered = apfst (Some \<circ> showResult)"

definition execute_request ::
  "('g, 'n, 'i) Platform \<Rightarrow> Clock \<Rightarrow> relay_waits \<Rightarrow> u32 \<Rightarrow> ConsoleRequest \<Rightarrow> ('g, 'n, 'i) Central \<Rightarrow>
   int option \<times> ('g, 'n, 'i) Central" where
  "execute_request pf clock waits now request c =
     (let cycle = (case optimizationTurn pf clock waits c of None \<Rightarrow> c | Some c' \<Rightarrow> c')
      in case request of
        ShowDashboard \<Rightarrow> (Some 0, cycle)
      | RunOptimizer \<Rightarrow> (Some 0, cycle)
      | SetSensorMode simulated \<Rightarrow>
          apfst (\<lambda>changed. Some (if changed then 0 else 1)) (consoleSensorModeConfigured pf simulated now c)
      | SetIna219 shunt amps ema \<Rightarrow> answered (consoleConfigureIna219 pf shunt amps ema c)
      | SetBattery capacity soc voltage \<Rightarrow> answered (consoleConfigureBatterySetup pf capacity soc voltage c)
      | SetPowerPlan r \<Rightarrow>
          answered (consoleConfigurePowerPlanningValidated pf (pp_P_budget r) (pp_P_reserve r)
            (pp_minimumStateOfChargePercent r) (pp_requiredRuntimeHours r) now c)
      | ChangeNode action mac name \<Rightarrow> answered (consoleNodeCommand pf action mac name now c)
      | AddLoad mac v \<Rightarrow> answered (consoleConfigureLoad pf mac v now c)
      | DeleteLoad mac pin \<Rightarrow> answered (consoleRemoveLoad pf mac pin now c)
      | ChangeLoad r \<Rightarrow> answered (handleLoadCommand pf r c)
      | Simulate r \<Rightarrow> answered (handleSimulationCommand pf r now c)
      | ChangeSystem r \<Rightarrow> apfst (map_option showResult) (handleSystemCommand pf r c)
      | _ \<Rightarrow> (Some 0, c))"

definition execute_network ::
  "'m SettingsApi \<Rightarrow> NetworkAnswers \<Rightarrow> ConsoleRequest \<Rightarrow> 'm Network \<Rightarrow> int \<times> 'm Network" where
  "execute_network api env request w =
     (case request of
        ChangeNetwork r \<Rightarrow> apfst showResult (consoleNetworkReadable api env r w)
      | _ \<Rightarrow> (0, w))"

definition console_line ::
  "('g, 'n, 'i) Platform \<Rightarrow> 'm SettingsApi \<Rightarrow> NetworkAnswers \<Rightarrow> Clock \<Rightarrow> relay_waits \<Rightarrow> u32 \<Rightarrow> u32 \<Rightarrow> string list \<Rightarrow>
   ('g, 'n, 'i) Central \<times> 'm Network \<Rightarrow> int option option \<times> ('g, 'n, 'i) Central \<times> 'm Network" where
  "console_line pf api env clock waits now commandId argv s =
     (case (console_command (localMac pf) commandId argv, s) of
        (None, _) \<Rightarrow> (None, s)
      | (Some (Inl code), _) \<Rightarrow> (Some (Some code), s)
      | (Some (Inr request), (c, w)) \<Rightarrow>
          (case request of
             ChangeNetwork r \<Rightarrow> (case execute_network api env request w of (code, w') \<Rightarrow> (Some (Some code), (c, w')))
           | _ \<Rightarrow> (case execute_request pf clock waits now request c of (code, c') \<Rightarrow> (Some code, (c', w)))))"

section \<open>What a line does\<close>

lemma execute_request_inv:
  assumes "central_inv c"
  shows "central_inv (snd (execute_request pf clock waits now request c))"
proof (cases request)
  case (ChangeNode action mac name)
  with assms show ?thesis
    by (simp add: execute_request_def answered_def consoleNodeCommand_def central_inv_intros)
next
  case (AddLoad mac v)
  with assms show ?thesis
    by (simp add: execute_request_def answered_def consoleConfigureLoad_def central_inv_intros)
next
  case (DeleteLoad mac pin)
  with assms show ?thesis
    by (simp add: execute_request_def answered_def consoleRemoveLoad_def central_inv_intros)
qed (use assms in \<open>simp_all add: execute_request_def answered_def central_inv_intros optimizationTurn_inv Let_def
  split: option.splits\<close>)

lemma console_line_inv:
  assumes "console_line pf api env clock waits now commandId argv (c, w) = (code, (c', w'))" "central_inv c"
  shows "central_inv c'"
proof -
  have e: "execute_request pf clock waits now request c = (code1, c1) \<Longrightarrow> central_inv c1" for request code1 c1
    using execute_request_inv [OF assms(2), of pf clock waits now request] by simp
  show ?thesis
    using assms e by (auto simp: console_line_def split: option.splits sum.splits ConsoleRequest.splits prod.splits)
qed

section \<open>The requests are typed\<close>

definition network_request_ok :: "NetworkCommandRequest \<Rightarrow> bool" where
  "network_request_ok r \<longleftrightarrow>
     net_action r \<noteq> SET_CHANNEL \<and> (net_target r = TARGET_MQTT \<longrightarrow> net_action r \<in> {STATUS, SET, CLEAR}) \<and>
     (net_action r = SET \<longrightarrow>
        (if net_target r = TARGET_WIFI
         then length (net_ssid r) < SSID_BUFFER_SIZE \<and> length (net_wifiPassword r) < PASSWORD_BUFFER_SIZE
         else length (net_mqttHost r) < HOST_BUFFER_SIZE \<and> net_mqttPort r \<noteq> 0 \<and>
              length (net_mqttUsername r) < USERNAME_BUFFER_SIZE \<and> length (net_mqttPassword r) < PASSWORD_BUFFER_SIZE))"

definition positive_request :: "f32 \<Rightarrow> bool" where
  "positive_request x \<longleftrightarrow> fisfinite x \<and> \<not> fle x fzero"

fun console_request_ok :: "ConsoleRequest \<Rightarrow> bool" where
  "console_request_ok (SetIna219 shunt amps ema) \<longleftrightarrow>
     positive_request shunt \<and> positive_request amps \<and> positive_request ema \<and> \<not> flt fone ema"
| "console_request_ok (SetBattery capacity soc voltage) \<longleftrightarrow>
     positive_request capacity \<and> percent_request soc \<and> positive_request voltage"
| "console_request_ok (SetPowerPlan r) \<longleftrightarrow> request_ok (ForBattery r)"
| "console_request_ok (ChangeNode action mac name) \<longleftrightarrow>
     action \<in> {COMMISSION_NODE, RENAME_NODE, DECOMMISSION_NODE} \<and> length name < 20"
| "console_request_ok (AddLoad mac v) \<longleftrightarrow>
     length (conf_name v) < 16 \<and> named_mode (conf_mode v) \<and> named_power_type (conf_powerType v) \<and>
     power_request (conf_powerRatingWatts v) \<and> schedule_request (conf_schedule v)"
| "console_request_ok (ChangeLoad r) \<longleftrightarrow> request_ok (ForLoad r)"
| "console_request_ok (Simulate r) \<longleftrightarrow> request_ok (ForSensor r)"
| "console_request_ok (ChangeNetwork r) \<longleftrightarrow> network_request_ok r"
| "console_request_ok (ChangeSystem r) \<longleftrightarrow>
     (case r of
        SET_OPTIMIZER_INTERVAL seconds \<Rightarrow> (\<exists>s. seconds = Some s \<and> 1 \<le> s \<and> s \<le> 86400)
      | SYSTEM_UNKNOWN \<Rightarrow> False | REQUEST_OPTIMIZATION_CYCLE \<Rightarrow> False
      | FACTORY_RESET_CENTRAL confirm \<Rightarrow> confirm = ''RESET''
      | FACTORY_RESET_NODE commandId confirm target \<Rightarrow> confirm = ''RESET'' \<and> target \<noteq> None | _ \<Rightarrow> True)"
| "console_request_ok _ \<longleftrightarrow> True"

text \<open>A factory reset, of Central or of a Node, was confirmed by what was typed.\<close>

fun reset_confirmed :: "string list \<Rightarrow> ConsoleRequest \<Rightarrow> bool" where
  "reset_confirmed argv (ChangeSystem r) \<longleftrightarrow>
     (case r of
        FACTORY_RESET_CENTRAL confirm \<Rightarrow> option_value argv ''confirm'' = Some ''RESET''
      | FACTORY_RESET_NODE commandId confirm target \<Rightarrow> option_value argv ''confirm'' = Some ''RESET''
      | _ \<Rightarrow> True)"
| "reset_confirmed argv _ \<longleftrightarrow> True"

lemma parseFloat_finite: "parseFloat text = Some x \<Longrightarrow> fisfinite x"
  by (auto simp: parseFloat_def split: option.splits list.splits prod.splits if_splits)

lemma parseFloat_None: "parseFloat None = None"
  by (simp add: parseFloat_def)

lemma copyText_fits: "copyText k text = Some s \<Longrightarrow> length s < k"
  by (auto simp: copyText_def split: option.splits if_splits)

lemma console_parseMode_named: "console_parseMode t = Some m \<Longrightarrow> named_mode m"
  by (auto simp: console_parseMode_def named_mode_def split: if_splits)

lemma console_parsePowerType_named: "console_parsePowerType t = Some p \<Longrightarrow> named_power_type p"
  by (auto simp: console_parsePowerType_def named_power_type_def split: if_splits)

lemma unat_narrow: "unat (h :: u32) < 256 \<Longrightarrow> unat (ucast h :: u8) = unat h"
  by (simp add: unsigned_ucast_eq take_bit_nat_eq_self)

lemma narrow_window:
  fixes h m h' m' :: u32
  assumes b: "\<not> h > 23" "\<not> m > 59" "\<not> h' > 23" "\<not> m' > 59" and ne: "h * 60 + m \<noteq> h' * 60 + m'"
  shows "schedule_request (AutoSchedule5 True (ucast h) (ucast m) (ucast h') (ucast m'))"
proof (rule window_schedule)
  have n: "unat h \<le> 23" "unat m \<le> 59" "unat h' \<le> 23" "unat m' \<le> 59"
    using b by (simp_all add: word_less_nat_alt)
  then have u: "unat (ucast h :: u8) = unat h" "unat (ucast m :: u8) = unat m"
    "unat (ucast h' :: u8) = unat h'" "unat (ucast m' :: u8) = unat m'"
    by (simp_all add: unat_narrow)
  have "(ucast h :: u8) \<noteq> ucast h' \<or> (ucast m :: u8) \<noteq> ucast m'"
  proof (rule ccontr)
    assume "\<not> ?thesis"
    then have "unat h = unat h'" "unat m = unat m'" using u by simp_all
    then have "h = h'" "m = m'" by (simp_all add: word_unat_eq_iff)
    with ne show False by simp
  qed
  with n u show "\<not> (ucast h > (23 :: u8) \<or> ucast m > (59 :: u8) \<or> ucast h' > (23 :: u8) \<or> ucast m' > (59 :: u8) \<or>
      ((ucast h :: u8) = ucast h' \<and> (ucast m :: u8) = ucast m'))"
    by (simp add: word_less_nat_alt)
qed

lemma console_parseSchedule_ok: "console_parseSchedule text = Some s \<Longrightarrow> schedule_request s"
  by (auto simp: console_parseSchedule_def schedule_request_def [of no_schedule] narrow_window
      split: option.splits list.splits if_splits)

lemmas console_typed = parseFloat_finite copyText_fits console_parseMode_named console_parsePowerType_named
  console_parseSchedule_ok

lemma read_setting_Some: "read_setting read text = Some x \<Longrightarrow> x = None \<or> (\<exists>v. x = Some v \<and> read text = Some v)"
  by (auto simp: read_setting_def split: option.splits)

lemma load_settings_ok:
  "load_settings argv = Some (priority, mode, schedule) \<Longrightarrow>
   (priority \<noteq> None \<or> mode \<noteq> None \<or> schedule \<noteq> None) \<and> pred_option named_mode mode \<and>
   pred_option schedule_request schedule"
  by (auto simp: load_settings_def split: option.splits if_splits dest!: read_setting_Some dest!: console_typed)

lemma load_configuration_ok:
  "load_configuration argv = Some v \<Longrightarrow> length (conf_name v) < 16 \<and> named_mode (conf_mode v) \<and>
   named_power_type (conf_powerType v) \<and> power_request (conf_powerRatingWatts v) \<and> schedule_request (conf_schedule v)"
  by (auto simp: load_configuration_def Let_def power_request_def split: option.splits if_splits dest!: console_typed)

lemma console_load_ok: "console_load own argv = Inr request \<Longrightarrow> console_request_ok request \<and> reset_confirmed argv request"
  by (auto simp: console_load_def split: option.splits if_splits prod.splits
      dest!: load_settings_ok load_configuration_ok)

lemma console_battery_ok: "console_battery argv = Inr request \<Longrightarrow> console_request_ok request \<and> reset_confirmed argv request"
  by (auto simp: console_battery_def Let_def positive_request_def percent_request_def power_request_def
      split: option.splits if_splits dest!: parseFloat_finite dest: flt_imp_fle)

lemma console_sensor_ok: "console_sensor argv = Inr request \<Longrightarrow> console_request_ok request \<and> reset_confirmed argv request"
  by (auto simp: console_sensor_def Let_def positive_request_def percent_request_def power_request_def parseFloat_None
      split: option.splits if_splits dest: parseFloat_finite)

lemma console_node_ok: "console_node argv = Inr request \<Longrightarrow> console_request_ok request \<and> reset_confirmed argv request"
  by (auto simp: console_node_def split: option.splits if_splits dest!: copyText_fits)

lemma console_optimize_ok: "console_optimize argv = Inr request \<Longrightarrow> console_request_ok request \<and> reset_confirmed argv request"
proof -
  have one: "1 \<le> s" if "s \<noteq> 0" for s :: u32 using that by (simp add: word_le_nat_alt unat_gt_0 Suc_le_eq)
  have minutes: "1 \<le> s * 60 \<and> s * 60 \<le> 86400" if "s \<noteq> 0" "\<not> 1440 < s" for s :: u32
  proof -
    have b: "0 < unat s" "unat s \<le> 1440" using that by (simp_all add: unat_gt_0 word_less_nat_alt)
    then have "unat (s * 60) = unat s * 60" by (simp add: unat_word_ariths)
    with b show ?thesis by (simp add: word_le_nat_alt)
  qed
  show "console_optimize argv = Inr request \<Longrightarrow> ?thesis"
    by (auto simp: console_optimize_def Let_def one minutes split: option.splits if_splits)
qed

lemma console_wifi_ok: "console_wifi argv = Inr request \<Longrightarrow> console_request_ok request \<and> reset_confirmed argv request"
  by (auto simp: console_wifi_def Let_def network_request_ok_def makeNetworkRequest_def
      split: option.splits if_splits dest!: copyText_fits)

lemma broker_port_ok: "broker_port argv useTls = Some port \<Longrightarrow> port \<noteq> 0"
proof -
  have "(ucast p :: u16) \<noteq> 0" if "p \<noteq> 0" "\<not> 65535 < p" for p :: u32
  proof -
    have "unat p < 65536" "unat p \<noteq> 0" using that by (simp_all add: word_less_nat_alt unat_eq_zero)
    then have "unat (ucast p :: u16) \<noteq> 0" by (simp add: unsigned_ucast_eq take_bit_nat_eq_self)
    then show ?thesis by auto
  qed
  then show "broker_port argv useTls = Some port \<Longrightarrow> ?thesis"
    by (auto simp: broker_port_def split: option.splits if_splits)
qed

lemma console_mqtt_ok: "console_mqtt argv = Inr request \<Longrightarrow> console_request_ok request \<and> reset_confirmed argv request"
  by (auto simp: console_mqtt_def Let_def network_request_ok_def makeNetworkRequest_def USERNAME_BUFFER_SIZE_def
      PASSWORD_BUFFER_SIZE_def split: option.splits if_splits dest!: copyText_fits broker_port_ok)

lemma console_system_ok: "console_system commandId argv = Inr request \<Longrightarrow> console_request_ok request \<and> reset_confirmed argv request"
  by (auto simp: console_system_def Let_def copyText_def CONFIRM_TEXT_SIZE_def split: option.splits if_splits)

lemma console_plain_ok: "plain_command request argv = Inr r \<Longrightarrow> r = request"
  by (simp add: plain_command_def split: if_splits)

lemmas console_ok = console_battery_ok console_sensor_ok console_node_ok console_load_ok console_optimize_ok
  console_wifi_ok console_mqtt_ok console_system_ok

text \<open>
  C19: Whatever is typed on Central's console, the request that comes of it is within the bounds its
  callback relies on: finite powers and percentages in range, names and credentials that fit their
  buffers, modes, power types and schedules that exist, a broker port that is not 0, and an interval
  between one second and a day; and a factory reset, of Central or of a Node, comes only of a line with
  \<open>confirm=RESET\<close>, and carries that text.
\<close>

theorem console_requests_typed:
  assumes "console_command ownMac commandId argv = Some (Inr request)"
  shows "console_request_ok request \<and> reset_confirmed argv request"
proof -
  from assms obtain name where "map_of
       [(''status'', plain_command ShowStatus argv), (''dashboard'', plain_command ShowDashboard argv),
        (''battery'', console_battery argv), (''sensor'', console_sensor argv),
        (''nodes'', plain_command ShowNodes argv), (''node'', console_node argv),
        (''loads'', plain_command ShowLoads argv), (''load'', console_load ownMac argv),
        (''optimize'', console_optimize argv), (''wifi'', console_wifi argv), (''mqtt'', console_mqtt argv),
        (''system'', console_system commandId argv), (''clear'', console_clear argv)] name = Some (Inr request)"
    unfolding console_command_def by (auto simp only: bind_eq_Some_conv)
  from map_of_SomeD [OF this] show ?thesis
    by (auto dest: console_ok [OF sym] console_plain_ok [OF sym] simp: console_clear_def split: if_splits)
qed

theorem console_requests_typed_witness:
  "\<exists>r. console_command (1, 2, 3, 4, 5, 6) 7 [''mqtt'', ''set'', ''host=10.0.0.2'', ''tls=on''] = Some (Inr (ChangeNetwork r)) \<and>
     console_request_ok (ChangeNetwork r) \<and> net_mqttPort r = 8883"
proof -
  have "console_command (1, 2, 3, 4, 5, 6) 7 [''mqtt'', ''set'', ''host=10.0.0.2'', ''tls=on''] =
    Some (Inr (ChangeNetwork ((makeNetworkRequest TARGET_MQTT SET)\<lparr>net_mqttHost := ''10.0.0.2'', net_mqttPort := 8883,
      net_mqttUseTls := True, net_mqttUsername := [], net_mqttPassword := []\<rparr>)))"
    by (simp add: console_command_def arg_def console_mqtt_def helpRequested_def option_value_def copyText_def
        broker_port_def HOST_BUFFER_SIZE_def Let_def)
  from console_requests_typed [OF this] this show ?thesis by simp
qed

section \<open>A change of a Load's settings\<close>

definition update_options :: "u16 option \<Rightarrow> LoadModeValue option \<Rightarrow> AutoSchedule option \<Rightarrow> string list" where
  "update_options priority mode schedule =
     (case priority of None \<Rightarrow> [] | Some p \<Rightarrow> [''priority='' @ decimal (unat p)]) @
     (case mode of None \<Rightarrow> [] | Some v \<Rightarrow> [''mode='' @ loadModeText v]) @
     (case schedule of None \<Rightarrow> [] | Some s \<Rightarrow> [''schedule='' @ schedule_text s])"

definition update_args :: "LoadCommandRequest \<Rightarrow> string list" where
  "update_args r =
     [''load'', ''set'', mac_text (lc_nodeMacAddress r), decimal (unat (lc_relayPin r))] @
     update_options (lc_priority r) (lc_mode r) (lc_schedule r)"

lemma no_option: "CHR ''='' \<notin> set a \<Longrightarrow> take (Suc (length name)) a \<noteq> name @ ''=''"
  by (metis in_set_conv_decomp in_set_takeD)

lemma mac_text_no_eq: "CHR ''='' \<notin> set (mac_text mac)"
proof (cases mac)
  case (fields a b c d e f)
  have "CHR ''='' \<notin> set (hex_byte x)" for x
  proof -
    have d: "unat x div 16 < 16" "unat x mod 16 < 16" using u8_bound [of x] by auto
    show ?thesis using kept_plain [OF hex_digit_kept [OF d(1)]] kept_plain [OF hex_digit_kept [OF d(2)]]
      by (auto simp: hex_byte_def)
  qed
  then show ?thesis by (auto simp: fields formatMacAddressText_def dest: in_set_takeD)
qed

lemma decimal_no_eq: "CHR ''='' \<notin> set (decimal n)"
  using decimal_digits [of n] by (auto simp: list_all_iff is_digit_def)

lemma option_value_skip:
  "\<forall>a \<in> set as. CHR ''='' \<notin> set a \<Longrightarrow> option_value (c # as @ opts) name = option_value (c # opts) name"
  by (induction as) (simp_all add: option_value_def no_option)

lemma update_option_values:
  "option_value (c # update_options priority mode schedule) ''priority'' = map_option (\<lambda>p. decimal (unat p)) priority"
  "option_value (c # update_options priority mode schedule) ''mode'' = map_option loadModeText mode"
  "option_value (c # update_options priority mode schedule) ''schedule'' = map_option schedule_text schedule"
  by (simp_all add: option_value_def update_options_def split: option.splits)

lemma load_settings_update:
  assumes "request_ok (ForLoad r)" "\<forall>a \<in> set as. CHR ''='' \<notin> set a"
  shows "load_settings (c # as @ update_options (lc_priority r) (lc_mode r) (lc_schedule r)) =
    Some (lc_priority r, lc_mode r, lc_schedule r)"
proof -
  have "read_setting parseUint16 (map_option (\<lambda>p. decimal (unat p)) (lc_priority r)) = Some (lc_priority r)"
    by (cases "lc_priority r") (simp_all add: read_setting_def parseUint16_decimal)
  moreover have "read_setting console_parseMode (map_option loadModeText (lc_mode r)) = Some (lc_mode r)"
    using assms(1) by (cases "lc_mode r") (simp_all add: read_setting_def console_parseMode_text)
  moreover have "read_setting console_parseSchedule (map_option schedule_text (lc_schedule r)) = Some (lc_schedule r)"
    using assms(1) by (cases "lc_schedule r") (simp_all add: read_setting_def console_parseSchedule_text)
  ultimately show ?thesis using assms
    by (simp add: load_settings_def option_value_skip update_option_values)
qed

lemma not_help: "3 \<le> length argv \<Longrightarrow> \<not> helpRequested argv"
  by (simp add: helpRequested_def)

lemma console_load_update:
  assumes "request_ok (ForLoad r)"
  shows "console_load own (update_args r) = Inr (ChangeLoad r)"
proof -
  let ?opts = "update_options (lc_priority r) (lc_mode r) (lc_schedule r)"
  have "load_settings (update_args r) = Some (lc_priority r, lc_mode r, lc_schedule r)"
    using load_settings_update [OF assms, of "[''set'', mac_text (lc_nodeMacAddress r), decimal (unat (lc_relayPin r))]" "''load''"]
    by (simp add: update_args_def mac_text_no_eq decimal_no_eq)
  moreover have "arg (update_args r) 1 = Some ''set''" "arg (update_args r) 2 = Some (mac_text (lc_nodeMacAddress r))"
    "arg (update_args r) 3 = Some (decimal (unat (lc_relayPin r)))" "4 \<le> length (update_args r)"
    by (simp_all add: arg_def update_args_def eval_nat_numeral)
  ultimately show ?thesis
    by (simp add: console_load_def not_help console_parseMac_text parseUint8_decimal)
qed

text \<open>
  C18: A change of a Load's settings typed on the console, in the texts the console prints them in
  and whatever settings it leaves out, has Central's load handler called with exactly that request,
  the one the same change sent over MQTT is called with; the exit code is 0 if it was accepted.
\<close>

theorem console_load_update_carried_out:
  assumes "request_ok (ForLoad r)" "handleLoadCommand pf r c = (result, c')"
  shows "console_line pf api env clock waits now commandId (update_args r) (c, w) =
    (Some (Some (if accepted result then 0 else 1)), (c', w))"
proof -
  have "console_command (localMac pf) commandId (update_args r) = Some (console_load (localMac pf) (update_args r))"
    by (simp add: console_command_def arg_def update_args_def)
  with console_load_update [OF assms(1)] assms(2) show ?thesis
    by (simp add: console_line_def execute_request_def answered_def showResult_def)
qed

theorem console_load_update_carried_out_witness:
  "\<forall>env clock waits now w. console_line example_platform ram_settings env clock waits now 1
     (update_args \<lparr>lc_nodeMacAddress = (2, 0, 0, 0, 0, 9), lc_relayPin = 16, lc_priority = Some 3,
        lc_mode = Some AUTO_ON, lc_schedule = Some (AutoSchedule5 True 22 30 6 0)\<rparr>) (quiet_central, w) =
     (Some (Some 1), (quiet_central, w))"
proof (intro allI)
  fix env clock waits now w
  let ?r = "\<lparr>lc_nodeMacAddress = (2, 0, 0, 0, 0, 9), lc_relayPin = 16, lc_priority = Some 3,
    lc_mode = Some AUTO_ON, lc_schedule = Some (AutoSchedule5 True 22 30 6 0)\<rparr>"
  have "findMutableLoad mac pin (registry quiet_central) = None" for mac pin
    by (simp add: quiet_central_def new_Central_def findMutableLoad_def findNodeByMacAddress_def)
  then have h: "handleLoadCommand example_platform ?r quiet_central =
      (commandResult False False ''unknown or unavailable Load'', quiet_central)"
    by (simp add: handleLoadCommand_def)
  have ok: "request_ok (ForLoad ?r)" by (simp add: window_schedule named_mode_def)
  show "console_line example_platform ram_settings env clock waits now 1 (update_args ?r) (quiet_central, w) =
     (Some (Some 1), (quiet_central, w))"
    using console_load_update_carried_out [OF ok h, of ram_settings env clock waits now 1 w]
    by (simp add: commandResult_def)
qed

end
