(* ===== verification/Smart_Console.thy ===== *)
theory Smart_Console
  imports Central_Console Smart_Results
begin

text \<open>
  The serial console of a Smart Node (\<open>lib/SmartConsole/SmartConsole.cpp\<close>): the same readers, for
  the Loads of the Node itself, on the callbacks of \<open>src/smart/namespace.h\<close>.
\<close>

datatype SmartRequest =
  SmartStatus | SmartLoads | SmartShowLoad u8 | SmartClear
| SmartConfigureLoad LoadConfiguration
| SmartRemoveLoad u8
| SmartUpdateLoad SmartLoadUpdateRequest

definition smart_plain :: "SmartRequest \<Rightarrow> string list \<Rightarrow> int + SmartRequest" where
  "smart_plain request argv = (if length argv \<noteq> 1 then Inl 1 else Inr request)"

definition smart_load :: "string list \<Rightarrow> int + SmartRequest" where
  "smart_load argv =
     (let pin = parseUint8 (arg argv 2) in
      if helpRequested argv \<or> length argv < 2 then Inl (if helpRequested argv then 0 else 1)
      else if arg argv 1 = Some ''show''
      then (if length argv \<noteq> 3 then Inl 1 else case pin of None \<Rightarrow> Inl 1 | Some p \<Rightarrow> Inr (SmartShowLoad p))
      else if arg argv 1 = Some ''remove''
      then (if length argv \<noteq> 3 then Inl 1 else case pin of None \<Rightarrow> Inl 1 | Some p \<Rightarrow> Inr (SmartRemoveLoad p))
      else if arg argv 1 = Some ''set''
      then (if length argv < 3 then Inl 1
            else case (pin, load_settings argv) of
              (Some p, Some (priority, mode, schedule)) \<Rightarrow>
                Inr (SmartUpdateLoad \<lparr>slu_relayPin = p, slu_priority = priority, slu_mode = mode,
                       slu_schedule = schedule\<rparr>)
            | _ \<Rightarrow> Inl 1)
      else if arg argv 1 \<noteq> Some ''add'' then Inl 1
      else case load_configuration argv of None \<Rightarrow> Inl 1 | Some v \<Rightarrow> Inr (SmartConfigureLoad v))"

definition smart_command :: "string list \<Rightarrow> (int + SmartRequest) option" where
  "smart_command argv =
     Option.bind (arg argv 0) (map_of
       [(''status'', smart_plain SmartStatus argv), (''loads'', smart_plain SmartLoads argv),
        (''load'', smart_load argv), (''clear'', smart_plain SmartClear argv)])"

definition smart_line ::
  "'g GpioApi \<Rightarrow> 'n NvsApi \<Rightarrow> bool \<Rightarrow> string list \<Rightarrow> ('g, 'n) SmartNode \<Rightarrow> int option \<times> ('g, 'n) SmartNode" where
  "smart_line ga na nodeTaken argv s =
     (let done_by = (\<lambda>(result, s'). (Some (showResult result), s')) in
      case smart_command argv of
        None \<Rightarrow> (None, s)
      | Some (Inl code) \<Rightarrow> (Some code, s)
      | Some (Inr request) \<Rightarrow>
          (case request of
             SmartConfigureLoad v \<Rightarrow> done_by (consoleSmartConfigureLoad ga na nodeTaken v s)
           | SmartRemoveLoad pin \<Rightarrow> done_by (consoleSmartRemoveLoad ga na nodeTaken pin s)
           | SmartUpdateLoad r \<Rightarrow> done_by (consoleSmartUpdateLoad ga na nodeTaken r s)
           | _ \<Rightarrow> (Some 0, s)))"

section \<open>What a line does\<close>

text \<open>A request of the console is as well typed as one of Central's.\<close>

lemma smart_command_ok:
  assumes "smart_command argv = Some (Inr request)"
  shows "(case request of
      SmartConfigureLoad v \<Rightarrow> length (conf_name v) < 16 \<and> named_mode (conf_mode v) \<and>
        named_power_type (conf_powerType v) \<and> power_request (conf_powerRatingWatts v) \<and> schedule_request (conf_schedule v)
    | SmartUpdateLoad r \<Rightarrow> (slu_priority r \<noteq> None \<or> slu_mode r \<noteq> None \<or> slu_schedule r \<noteq> None) \<and>
        pred_option named_mode (slu_mode r) \<and> pred_option schedule_request (slu_schedule r)
    | _ \<Rightarrow> True)"
proof -
  from assms obtain name where "map_of
       [(''status'', smart_plain SmartStatus argv), (''loads'', smart_plain SmartLoads argv),
        (''load'', smart_load argv), (''clear'', smart_plain SmartClear argv)] name = Some (Inr request)"
    unfolding smart_command_def by (auto simp only: bind_eq_Some_conv)
  from map_of_SomeD [OF this] consider "request \<in> {SmartStatus, SmartLoads, SmartClear}" | "smart_load argv = Inr request"
    by (auto simp: smart_plain_def split: if_splits)
  then show ?thesis
  proof cases
    case 2
    then show ?thesis
      by (auto simp: smart_load_def Let_def split: option.splits if_splits prod.splits
          dest!: load_settings_ok load_configuration_ok)
  qed auto
qed

definition smart_update_args :: "LoadCommandRequest \<Rightarrow> string list" where
  "smart_update_args r =
     [''load'', ''set'', decimal (unat (lc_relayPin r))] @
     update_options (lc_priority r) (lc_mode r) (lc_schedule r)"

lemma smart_load_update:
  assumes "request_ok (ForLoad r)"
  shows "smart_line ga na nodeTaken (smart_update_args r) s =
    (case consoleSmartUpdateLoad ga na nodeTaken \<lparr>slu_relayPin = lc_relayPin r, slu_priority = lc_priority r,
        slu_mode = lc_mode r, slu_schedule = lc_schedule r\<rparr> s of
       (result, s') \<Rightarrow> (Some (showResult result), s'))"
proof -
  let ?a = "smart_update_args r"
  have "load_settings ?a = Some (lc_priority r, lc_mode r, lc_schedule r)"
    using load_settings_update [OF assms, of "[''set'', decimal (unat (lc_relayPin r))]" "''load''"]
    by (simp add: smart_update_args_def decimal_no_eq)
  moreover have "arg ?a 1 = Some ''set''" "arg ?a 2 = Some (decimal (unat (lc_relayPin r)))" "3 \<le> length ?a"
    by (simp_all add: arg_def smart_update_args_def eval_nat_numeral)
  ultimately have "smart_load ?a = Inr (SmartUpdateLoad \<lparr>slu_relayPin = lc_relayPin r, slu_priority = lc_priority r,
      slu_mode = lc_mode r, slu_schedule = lc_schedule r\<rparr>)"
    by (simp add: smart_load_def Let_def not_help parseUint8_decimal)
  moreover have "smart_command ?a = Some (smart_load ?a)"
    by (simp add: smart_command_def arg_def smart_update_args_def)
  ultimately show ?thesis by (simp add: smart_line_def)
qed

text \<open>A line is one of the steps the invariant of the Smart Node is kept by, or it changes nothing.\<close>

lemma smart_line_step:
  assumes "smart_line ga na nodeTaken argv s = (code, s')"
  shows "s' = s \<or> (\<exists>ev. s' = smart_step ga na ev s)"
proof -
  have steps: "\<exists>ev. snd (consoleSmartConfigureLoad ga na nodeTaken v s) = smart_step ga na ev s"
    "\<exists>ev. snd (consoleSmartRemoveLoad ga na nodeTaken pin s) = smart_step ga na ev s"
    "\<exists>ev. snd (consoleSmartUpdateLoad ga na nodeTaken r s) = smart_step ga na ev s" for v pin r
    by (metis smart_step.simps)+
  from assms show ?thesis
    by (auto simp: smart_line_def Let_def split: option.splits sum.splits SmartRequest.splits prod.splits)
      (metis snd_conv steps)+
qed

end
